(* ===== verification/Prelude.thy ===== *)
theory Prelude
  imports Complex_Main "HOL-Library.Sublist" "HOL-Library.List_Lexorder"
    "HOL-Library.Char_ord" "HOL-Library.Product_Lexorder" "HOL-Library.AList"
    "HOL-Library.Multiset"
begin

text \<open>
  Shared vocabulary of the development: Python strings, dates and times, rounding,
  insertion-ordered dictionaries, sorting, results that may be an exception, and the
  lemmas about them that the component theories rely on.

  Conventions.
  \<^item> A Python \<open>str\<close> is a \<open>string\<close> holding its UTF-8 bytes. Substring tests, equality
    and the lexicographic order agree with Python's on code points for this encoding, and \<open>py_len\<close>
    counts code points; only \<open>casefold\<close> is restricted, to ASCII letters.
  \<^item> \<open>int\<close> is \<open>int\<close>; \<open>Decimal\<close> and the floats the code only adds and compares are
    exact rationals (no rounding of the 53-bit mantissa is modelled).
  \<^item> A \<open>dict\<close> is an association list in insertion order with distinct keys; \<open>AList.update\<close>
    overwrites in place or appends, as Python does.
  \<^item> An exception is the \<open>Inl\<close> side of a sum.
\<close>

named_theorems wf_intros \<open>introduction rules for the well-formedness invariants\<close>
named_theorems model_simps \<open>characteristic equations of the model's operations\<close>

type_synonym ('e, 'a) result = "'e + 'a"

definition bind_res :: "('e, 'a) result \<Rightarrow> ('a \<Rightarrow> ('e, 'b) result) \<Rightarrow> ('e, 'b) result" where
  "bind_res r f = (case r of Inl e \<Rightarrow> Inl e | Inr x \<Rightarrow> f x)"

lemma bind_res_simps [simp]:
  "bind_res (Inl e) f = Inl e"
  "bind_res (Inr x) f = f x"
  by (simp_all add: bind_res_def)

lemma bind_res_eq_Inr [simp]:
  "bind_res r f = Inr y \<longleftrightarrow> (\<exists>x. r = Inr x \<and> f x = Inr y)"
  by (cases r) simp_all

fun fold_res :: "('a \<Rightarrow> 's \<Rightarrow> ('e, 's) result) \<Rightarrow> 'a list \<Rightarrow> 's \<Rightarrow> ('e, 's) result" where
  "fold_res f [] s = Inr s"
| "fold_res f (x # xs) s = bind_res (f x s) (fold_res f xs)"

lemma fold_res_invariant:
  assumes "fold_res f xs s = Inr t" and "P s"
    and "\<And>x s t. x \<in> set xs \<Longrightarrow> P s \<Longrightarrow> f x s = Inr t \<Longrightarrow> P t"
  shows "P t"
  using assms by (induction xs arbitrary: s) auto

lemma fold_res_progress:
  assumes "\<And>x s. x \<in> set xs \<Longrightarrow> P s \<Longrightarrow> \<exists>t. f x s = Inr t \<and> P t" and "P s"
  shows "\<exists>t. fold_res f xs s = Inr t \<and> P t"
  using assms
proof (induction xs arbitrary: s)
  case (Cons x xs)
  then obtain u where "f x s = Inr u" and "P u" by (meson list.set_intros(1))
  with Cons show ?case by simp
qed simp

text \<open>A list comprehension whose element expression may raise.\<close>

lemma fold_res_collect:
  "fold_res (\<lambda>x acc. bind_res (f x) (\<lambda>y. Inr (acc @ [y]))) xs acc = Inr zs \<longleftrightarrow>
     (\<exists>ys. zs = acc @ ys \<and> list_all2 (\<lambda>x y. f x = Inr y) xs ys)"
proof (induction xs arbitrary: acc)
  case (Cons x xs)
  show ?case by (cases "f x") (auto simp: Cons.IH list_all2_Cons1)
qed auto

lemma list_all2_Inr_total:
  "(\<exists>ys. list_all2 (\<lambda>x y. f x = Inr y) xs ys) \<longleftrightarrow> (\<forall>x \<in> set xs. \<exists>y. f x = Inr y)"
  by (induction xs) (auto simp: list_all2_Cons1)

lemma list_all2_in: "list_all2 P xs ys \<Longrightarrow> y \<in> set ys \<Longrightarrow> \<exists>x \<in> set xs. P x y"
  by (induction rule: list_all2_induct) auto

subsection \<open>Strings\<close>

text \<open>The UTF-8 encodings of the characters \<open>str.strip()\<close> removes.\<close>

definition py_spaces :: "string list" where
  "py_spaces =
    [[CHR 0x09], [CHR 0x0A], [CHR 0x0B], [CHR 0x0C], [CHR 0x0D], [CHR 0x1C], [CHR 0x1D],
     [CHR 0x1E], [CHR 0x1F], [CHR 0x20], [CHR 0xC2, CHR 0x85], [CHR 0xC2, CHR 0xA0],
     [CHR 0xE1, CHR 0x9A, CHR 0x80], [CHR 0xE2, CHR 0x80, CHR 0x80],
     [CHR 0xE2, CHR 0x80, CHR 0x81], [CHR 0xE2, CHR 0x80, CHR 0x82],
     [CHR 0xE2, CHR 0x80, CHR 0x83], [CHR 0xE2, CHR 0x80, CHR 0x84],
     [CHR 0xE2, CHR 0x80, CHR 0x85], [CHR 0xE2, CHR 0x80, CHR 0x86],
     [CHR 0xE2, CHR 0x80, CHR 0x87], [CHR 0xE2, CHR 0x80, CHR 0x88],
     [CHR 0xE2, CHR 0x80, CHR 0x89], [CHR 0xE2, CHR 0x80, CHR 0x8A],
     [CHR 0xE2, CHR 0x80, CHR 0xA8], [CHR 0xE2, CHR 0x80, CHR 0xA9],
     [CHR 0xE2, CHR 0x80, CHR 0xAF], [CHR 0xE2, CHR 0x81, CHR 0x9F],
     [CHR 0xE3, CHR 0x80, CHR 0x80]]"

fun strip_prefixes :: "string list \<Rightarrow> nat \<Rightarrow> string \<Rightarrow> string" where
  "strip_prefixes ws 0 s = s"
| "strip_prefixes ws (Suc n) s =
     (case find (\<lambda>w. w \<noteq> [] \<and> prefix w s) ws of
        None \<Rightarrow> s
      | Some w \<Rightarrow> strip_prefixes ws n (drop (length w) s))"

definition py_strip :: "string \<Rightarrow> string" where
  "py_strip s =
     (let l = strip_prefixes py_spaces (length s) s
      in rev (strip_prefixes (map rev py_spaces) (length l) (rev l)))"

text \<open>
  \<open>len(s)\<close>, the number of code points: the bytes that do not continue a character (the first one
  starts one).
\<close>

definition leading_byte :: "char \<Rightarrow> bool" where
  "leading_byte c \<longleftrightarrow> (let n = (of_char c :: nat) in n < 128 \<or> 192 \<le> n)"

definition py_len :: "string \<Rightarrow> nat" where
  "py_len s = (case s of [] \<Rightarrow> 0 | c # t \<Rightarrow> Suc (length (filter leading_byte t)))"

lemma py_len_pos [simp]: "Suc 0 \<le> py_len s \<longleftrightarrow> s \<noteq> []" "0 < py_len s \<longleftrightarrow> s \<noteq> []"
  by (cases s; simp add: py_len_def)+

lemma py_len_sublist:
  assumes "sublist xs s"
  shows "py_len xs \<le> py_len s"
proof -
  obtain as bs where "s = as @ xs @ bs" using assms by (auto simp: sublist_def)
  then show ?thesis by (cases as; cases xs) (auto simp: py_len_def)
qed

text \<open>
  \<open>str.casefold()\<close> on ASCII letters; the bytes of all other characters are kept, which is
  what Python does for uncased scripts such as Chinese.
\<close>

definition fold_char :: "char \<Rightarrow> char" where
  "fold_char c = (let n = (of_char c :: nat) in if 65 \<le> n \<and> n \<le> 90 then char_of (n + 32) else c)"

definition casefold :: "string \<Rightarrow> string" where
  "casefold s = map fold_char s"

definition normalize :: "string \<Rightarrow> string" where
  "normalize s = casefold (py_strip s)"

text \<open>Python's \<open>a in b\<close> on strings.\<close>

definition in_str :: "string \<Rightarrow> string \<Rightarrow> bool" where
  "in_str a b \<longleftrightarrow> sublist a b"

lemma in_str_refl [simp]: "in_str a a"
  by (simp add: in_str_def)

text \<open>\<open>a in b or b in a\<close>, the name matching used all over the planner.\<close>

definition overlap_names :: "string \<Rightarrow> string \<Rightarrow> bool" where
  "overlap_names a b \<longleftrightarrow> in_str a b \<or> in_str b a"

lemma overlap_names_refl [simp]: "overlap_names a a"
  by (simp add: overlap_names_def)

lemma overlap_names_sym: "overlap_names a b \<longleftrightarrow> overlap_names b a"
  by (auto simp: overlap_names_def)

fun join :: "string \<Rightarrow> string list \<Rightarrow> string" where
  "join sep [] = []"
| "join sep [x] = x"
| "join sep (x # y # zs) = x @ sep @ join sep (y # zs)"

definition digit_char :: "nat \<Rightarrow> char" where
  "digit_char d = char_of (48 + d)"

fun show_nat :: "nat \<Rightarrow> string" where
  "show_nat n = (if n < 10 then [digit_char n] else show_nat (n div 10) @ [digit_char (n mod 10)])"

declare show_nat.simps [simp del]

definition show_int :: "int \<Rightarrow> string" where
  "show_int i = (if i < 0 then ''-'' @ show_nat (nat (- i)) else show_nat (nat i))"

definition pad_digits :: "nat \<Rightarrow> nat \<Rightarrow> string" where
  "pad_digits w n = (let s = show_nat n in replicate (w - length s) (CHR ''0'') @ s)"

subsection \<open>Dates and times\<close>

text \<open>
  A \<open>date\<close> is its proleptic Gregorian ordinal (\<open>date.toordinal()\<close>), so comparison and
  \<open>timedelta(days=n)\<close> are integer arithmetic; \<open>isoformat\<close> converts back to year, month
  and day. A \<open>time\<close> is the microsecond of the day. A timezone-aware \<open>datetime\<close> is its
  local microsecond count together with the UTC offset of its \<open>tzinfo\<close>; Python compares
  aware datetimes by the instant. The offsets are fixed ones, as those of parsed ISO
  timestamps and of zones without daylight saving time such as Asia/Shanghai.
\<close>

type_synonym py_date = int
type_synonym py_time = int
type_synonym tz = int

definition minute :: int where "minute = 60000000"
definition second :: int where "second = 1000000"
definition day_us :: int where "day_us = 86400000000"

record datetime =
  dt_local :: int
  dt_tz :: tz

definition instant :: "datetime \<Rightarrow> int" where
  "instant d = dt_local d - dt_tz d"

definition date_of :: "datetime \<Rightarrow> py_date" where
  "date_of d = dt_local d div day_us"

definition combine :: "py_date \<Rightarrow> py_time \<Rightarrow> tz \<Rightarrow> datetime" where
  "combine d t z = \<lparr>dt_local = d * day_us + t, dt_tz = z\<rparr>"

definition dt_add :: "datetime \<Rightarrow> int \<Rightarrow> datetime" where
  "dt_add d us = d\<lparr>dt_local := dt_local d + us\<rparr>"

definition astimezone :: "datetime \<Rightarrow> tz \<Rightarrow> datetime" where
  "astimezone d z = \<lparr>dt_local = dt_local d - dt_tz d + z, dt_tz = z\<rparr>"

lemma instant_astimezone [simp]: "instant (astimezone d z) = instant d"
  by (simp add: instant_def astimezone_def)

lemma instant_dt_add [simp]: "instant (dt_add d us) = instant d + us"
  by (simp add: instant_def dt_add_def)

lemma instant_combine [simp]: "instant (combine d t z) = d * day_us + t - z"
  by (simp add: instant_def combine_def)

definition days_before_month :: "nat \<Rightarrow> int" where
  "days_before_month m = [0, 0, 31, 59, 90, 120, 151, 181, 212, 243, 273, 304, 334] ! m"

definition ord2ymd :: "py_date \<Rightarrow> int \<times> int \<times> int" where
  "ord2ymd ordinal =
     (let n0 = ordinal - 1;
          n400 = n0 div 146097; a = n0 mod 146097;
          n100 = a div 36524; b = a mod 36524;
          n4 = b div 1461; c = b mod 1461;
          n1 = c div 365; n = c mod 365;
          year = n400 * 400 + 1 + n100 * 100 + n4 * 4 + n1
      in if n1 = 4 \<or> n100 = 4 then (year - 1, 12, 31)
         else
           let leap = (n1 = 3 \<and> (n4 \<noteq> 24 \<or> n100 = 3));
               m0 = (n + 50) div 32;
               before = (\<lambda>m. days_before_month (nat m) + (if m > 2 \<and> leap then 1 else 0));
               m = (if before m0 > n then m0 - 1 else m0)
           in (year, m, n - before m + 1))"

definition isoformat :: "py_date \<Rightarrow> string" where
  "isoformat d =
     (case ord2ymd d of (y, m, dd) \<Rightarrow>
        pad_digits 4 (nat y) @ ''-'' @ pad_digits 2 (nat m) @ ''-'' @ pad_digits 2 (nat dd))"

text \<open>\<open>round(x)\<close>: to the nearest integer, ties to the even one.\<close>

definition py_round :: "'a::floor_ceiling \<Rightarrow> int" where
  "py_round x =
     (let f = \<lfloor>x\<rfloor>; r = x - of_int f
      in if r < 1 / 2 then f else if r > 1 / 2 then f + 1 else if even f then f else f + 1)"

lemma py_round_of_int [simp]: "py_round (of_int i) = i"
  by (simp add: py_round_def)

lemma py_round_numeral [simp]: "py_round (numeral k) = numeral k" "py_round 0 = 0" "py_round 1 = 1"
  by (simp_all add: py_round_def)

lemma py_round_near: "of_int (py_round x) - x \<le> 1 / 2 \<and> x - of_int (py_round x) \<le> 1 / 2"
  by (simp add: py_round_def Let_def split: if_splits) linarith+

lemma py_round_mono: "x \<le> y \<Longrightarrow> py_round x \<le> py_round y"
proof -
  assume "x \<le> y"
  then consider "\<lfloor>x\<rfloor> = \<lfloor>y\<rfloor>" | "\<lfloor>x\<rfloor> + 1 \<le> \<lfloor>y\<rfloor>"
    using floor_mono [of x y] by linarith
  then show ?thesis
    by cases (use \<open>x \<le> y\<close> in \<open>auto simp: py_round_def Let_def\<close>)
qed

text \<open>\<open>round(a / b)\<close> of integers, computed without the quotient.\<close>

definition round_div :: "int \<Rightarrow> int \<Rightarrow> int" where
  "round_div a b =
     (let q = a div b; r = a mod b
      in if 2 * r < b then q else if 2 * r > b then q + 1 else if even q then q else q + 1)"

lemma round_div_eq_py_round:
  assumes "0 < b"
  shows "round_div a b = py_round (of_int a / of_int b :: rat)"
proof -
  have "(of_int a :: rat) = of_int (b * (a div b) + a mod b)" by simp
  then have "(of_int a :: rat) / of_int b = of_int (a div b) + of_int (a mod b) / of_int b"
    using assms by (simp only: of_int_add of_int_mult) (simp add: add_divide_distrib)
  moreover have "\<lfloor>(of_int a :: rat) / of_int b\<rfloor> = a div b" by (simp add: floor_divide_of_int_eq)
  moreover have "(of_int (a mod b) / of_int b < (1 / 2 :: rat)) \<longleftrightarrow> 2 * (a mod b) < b"
    and "(of_int (a mod b) / of_int b > (1 / 2 :: rat)) \<longleftrightarrow> 2 * (a mod b) > b"
    using assms of_int_less_iff [where 'a = rat, of "2 * (a mod b)" b]
      of_int_less_iff [where 'a = rat, of b "2 * (a mod b)"]
    by (simp_all add: pos_divide_less_eq pos_less_divide_eq mult.commute)
  ultimately show ?thesis by (simp add: round_div_def py_round_def Let_def)
qed

lemma round_div_mono: "0 < b \<Longrightarrow> a \<le> c \<Longrightarrow> round_div a b \<le> round_div c b"
  by (simp add: round_div_eq_py_round py_round_mono divide_right_mono)

subsection \<open>Sorting and sets\<close>

text \<open>\<open>sorted(set)\<close>: Python sets are collected as lists and sorted without duplicates.\<close>

definition sorted_set :: "'a::linorder list \<Rightarrow> 'a list" where
  "sorted_set xs = sort (remdups xs)"

lemma set_sorted_set [simp]: "set (sorted_set xs) = set xs"
  by (simp add: sorted_set_def)

lemma sorted_sorted_set [simp]: "sorted (sorted_set xs)"
  by (simp add: sorted_set_def)

lemma distinct_sorted_set [simp]: "distinct (sorted_set xs)"
  by (simp add: sorted_set_def)

lemma sorted_set_eq_Nil [simp]: "sorted_set xs = [] \<longleftrightarrow> xs = []"
  by (metis set_empty set_sorted_set)

lemma length_sorted_set: "length (sorted_set xs) = card (set xs)"
  by (metis distinct_card distinct_sorted_set set_sorted_set)

text \<open>\<open>min(xs, key=f)\<close>: the first element with the least key.\<close>

fun min_by :: "('a \<Rightarrow> 'k::linorder) \<Rightarrow> 'a \<Rightarrow> 'a list \<Rightarrow> 'a" where
  "min_by f best [] = best"
| "min_by f best (x # xs) = min_by f (if f x < f best then x else best) xs"

lemma min_by_in: "min_by f b xs \<in> set (b # xs)"
  by (induction f b xs rule: min_by.induct) auto

lemma min_by_le: "y \<in> set (b # xs) \<Longrightarrow> f (min_by f b xs) \<le> f y"
proof (induction f b xs arbitrary: y rule: min_by.induct)
  case (1 f best)
  then show ?case by simp
next
  case (2 f best x xs)
  have "f (min_by f (if f x < f best then x else best) xs)
      \<le> f (if f x < f best then x else best)"
    using "2.IH" by simp
  moreover have "f (if f x < f best then x else best) \<le> f x"
    and "f (if f x < f best then x else best) \<le> f best"
    by auto
  ultimately show ?case
    using "2.IH" [of y] "2.prems" by (auto intro: order_trans)
qed

text \<open>A symmetric relation on all pairs of list elements, counted with multiplicity.\<close>

lemma pair_subset_iff: "{#a, b#} \<subseteq># N \<longleftrightarrow> a \<in># N \<and> b \<in># N - {#a#}"
  by (simp add: insert_subset_eq_iff)

lemma pair_subset_add:
  "{#a, b#} \<subseteq># add_mset x M \<longleftrightarrow> {#a, b#} \<subseteq># M \<or> (a = x \<and> b \<in># M) \<or> (b = x \<and> a \<in># M)"
  by (cases "a = x") (auto simp: pair_subset_iff dest: in_diffD)

lemma sorted_wrt_pairs:
  assumes sym: "\<And>a b. R a b \<longleftrightarrow> R b a"
  shows "sorted_wrt R xs \<longleftrightarrow> (\<forall>a b. {#a, b#} \<subseteq># mset xs \<longrightarrow> R a b)"
  by (induction xs) (use sym in \<open>auto simp: pair_subset_add\<close>)

text \<open>Lists of reports built by conditional appends.\<close>

lemma ball_report_if:
  "(\<forall>v \<in> set (if P then [x] else []). Q v) \<longleftrightarrow> (P \<longrightarrow> Q x)"
  by (cases P) simp_all

lemma ball_report_unless:
  "(\<forall>v \<in> set (if P then [] else [x]). Q v) \<longleftrightarrow> (\<not> P \<longrightarrow> Q x)"
  by (cases P) simp_all

lemma ball_report_append:
  "(\<forall>v \<in> set (xs @ ys). Q v) \<longleftrightarrow> (\<forall>v \<in> set xs. Q v) \<and> (\<forall>v \<in> set ys. Q v)"
  by (simp add: ball_Un)

lemma ball_report_concat:
  "(\<forall>v \<in> set (concat (map f zs)). Q v) \<longleftrightarrow> (\<forall>z \<in> set zs. \<forall>v \<in> set (f z). Q v)"
  by simp

lemmas ball_report_simps = ball_report_if ball_report_unless ball_report_append ball_report_concat

text \<open>\<open>sorted(xs, key=f, reverse=True)\<close>: stable, like Python's.\<close>

definition sort_key_reverse :: "('a \<Rightarrow> 'k::linorder) \<Rightarrow> 'a list \<Rightarrow> 'a list" where
  "sort_key_reverse f xs = rev (sort_key f (rev xs))"

lemma set_sort_key_reverse [simp]: "set (sort_key_reverse f xs) = set xs"
  by (simp add: sort_key_reverse_def)

subsection \<open>Dictionaries\<close>

text \<open>A dict comprehension: later entries overwrite earlier ones with the same key.\<close>

definition dict_of :: "('k \<times> 'v) list \<Rightarrow> ('k \<times> 'v) list" where
  "dict_of kvs = foldl (\<lambda>d (k, v). AList.update k v d) [] kvs"

lemma map_of_foldl_update:
  "map_of (foldl (\<lambda>d (k, v). AList.update k v d) d kvs) = map_of d ++ map_of (rev kvs)"
proof (induction kvs arbitrary: d)
  case Nil
  then show ?case by simp
next
  case (Cons p kvs)
  obtain k v where "p = (k, v)" by (cases p)
  with Cons show ?case
    by (auto simp: update_conv' map_add_def fun_eq_iff split: option.splits)
qed

lemma map_of_dict_of: "map_of (dict_of kvs) = map_of (rev kvs)"
  by (simp add: dict_of_def map_of_foldl_update)

lemma dict_of_SomeD: "map_of (dict_of kvs) k = Some v \<Longrightarrow> (k, v) \<in> set kvs"
  by (metis map_of_SomeD map_of_dict_of set_rev)

lemma dom_dict_of: "dom (map_of (dict_of kvs)) = fst ` set kvs"
  by (simp add: map_of_dict_of dom_map_of_conv_image_fst)

lemma distinct_foldl_update:
  "distinct (map fst d) \<Longrightarrow> distinct (map fst (foldl (\<lambda>d (k, v). AList.update k v d) d kvs))"
  by (induction kvs arbitrary: d) (auto simp: distinct_update split: prod.splits)

lemma distinct_dict_of [simp]: "distinct (map fst (dict_of kvs))"
  by (simp add: dict_of_def distinct_foldl_update)

end
