(* ===== verification/ExecutionBudget.thy ===== *)
theory ExecutionBudget
  imports Prelude
begin

text \<open>
  The run-level execution budget: \<open>execution/models.py\<close> (\<open>ExecutionBudget\<close>,
  \<open>ExecutionUsage\<close>), \<open>execution/errors.py\<close> (\<open>ExecutionBudgetExceeded\<close>) and
  \<open>execution/budget.py\<close> (\<open>ExecutionLedger\<close>). Every method of the ledger is a function
  from the clock readings it makes and the ledger to the ledger afterwards and either the
  raised error or the returned value; the lock makes each method atomic. The locale
  \<open>meter\<close> states what a consuming method promises and is interpreted on each of them.
\<close>

section \<open>Budget, usage and error\<close>

record execution_budget =
  profile :: string
  max_graph_steps :: int
  max_tool_calls :: int
  max_provider_attempts :: int
  max_llm_calls :: int
  max_llm_attempts :: int
  max_llm_input_chars :: int
  max_input_tokens :: int
  max_output_tokens :: int
  max_repair_rounds :: int
  max_interrupts :: int
  max_checkpoint_writes :: int
  max_trace_events :: int
  max_repeated_fingerprint_count :: int
  deadline_ms :: int
  max_estimated_cost_microunits :: "int option"
  terminal_step_reserve :: int
  terminal_trace_reserve :: int

definition default_budget :: execution_budget where
  "default_budget = \<lparr>profile = ''default-v1'', max_graph_steps = 120, max_tool_calls = 160,
     max_provider_attempts = 240, max_llm_calls = 8, max_llm_attempts = 12,
     max_llm_input_chars = 80000, max_input_tokens = 40000, max_output_tokens = 12000,
     max_repair_rounds = 4, max_interrupts = 1, max_checkpoint_writes = 160,
     max_trace_events = 512, max_repeated_fingerprint_count = 2, deadline_ms = 120000,
     max_estimated_cost_microunits = None, terminal_step_reserve = 2, terminal_trace_reserve = 4\<rparr>"

definition budget_fields_ok :: "execution_budget \<Rightarrow> bool" where
  "budget_fields_ok b \<longleftrightarrow>
     4 \<le> max_graph_steps b \<and> max_graph_steps b \<le> 10000 \<and>
     1 \<le> max_tool_calls b \<and> max_tool_calls b \<le> 10000 \<and>
     1 \<le> max_provider_attempts b \<and> max_provider_attempts b \<le> 20000 \<and>
     1 \<le> max_llm_calls b \<and> max_llm_calls b \<le> 1000 \<and>
     1 \<le> max_llm_attempts b \<and> max_llm_attempts b \<le> 2000 \<and>
     1 \<le> max_llm_input_chars b \<and> max_llm_input_chars b \<le> 10000000 \<and>
     1 \<le> max_input_tokens b \<and> max_input_tokens b \<le> 10000000 \<and>
     1 \<le> max_output_tokens b \<and> max_output_tokens b \<le> 10000000 \<and>
     0 \<le> max_repair_rounds b \<and> max_repair_rounds b \<le> 100 \<and>
     0 \<le> max_interrupts b \<and> max_interrupts b \<le> 20 \<and>
     1 \<le> max_checkpoint_writes b \<and> max_checkpoint_writes b \<le> 20000 \<and>
     8 \<le> max_trace_events b \<and> max_trace_events b \<le> 100000 \<and>
     1 \<le> max_repeated_fingerprint_count b \<and> max_repeated_fingerprint_count b \<le> 100 \<and>
     100 \<le> deadline_ms b \<and> deadline_ms b \<le> 3600000 \<and>
     (case max_estimated_cost_microunits b of None \<Rightarrow> True | Some c \<Rightarrow> 1 \<le> c) \<and>
     1 \<le> terminal_step_reserve b \<and> terminal_step_reserve b \<le> 100 \<and>
     2 \<le> terminal_trace_reserve b \<and> terminal_trace_reserve b \<le> 100"

definition validate_reserves :: "execution_budget \<Rightarrow> (string, execution_budget) result" where
  "validate_reserves b =
     (if terminal_step_reserve b \<ge> max_graph_steps b
        then Inl ''terminal_step_reserve must be below max_graph_steps''
      else if terminal_trace_reserve b \<ge> max_trace_events b
        then Inl ''terminal_trace_reserve must be below max_trace_events''
      else if max_provider_attempts b < max_tool_calls b
        then Inl ''max_provider_attempts must cover max_tool_calls''
      else if max_llm_attempts b < max_llm_calls b
        then Inl ''max_llm_attempts must cover max_llm_calls''
      else Inr b)"

definition budget_ok :: "execution_budget \<Rightarrow> bool" where
  "budget_ok b \<longleftrightarrow> budget_fields_ok b \<and> validate_reserves b = Inr b"

record execution_usage =
  u_graph_steps :: int
  u_tool_calls :: int
  u_provider_attempts :: int
  u_cache_hits :: int
  u_llm_calls :: int
  u_llm_attempts :: int
  u_llm_input_chars :: int
  u_input_tokens :: "int option"
  u_output_tokens :: "int option"
  u_repair_rounds :: int
  u_interrupts :: int
  u_checkpoint_writes :: int
  u_trace_events :: int
  u_estimated_cost_microunits :: "int option"

datatype limit =
  Deadline_ms | Max_graph_steps | Max_tool_calls | Max_provider_attempts | Max_llm_calls
| Max_llm_attempts | Max_llm_input_chars | Max_input_tokens | Max_output_tokens
| Max_repair_rounds | Max_interrupts | Max_checkpoint_writes
| Max_repeated_fingerprint_count

record budget_exceeded =
  ex_run_id :: string
  ex_limit :: limit
  ex_used :: int
  ex_maximum :: int
  ex_deadline :: bool

section \<open>The ledger\<close>

datatype ledger_key =
  Graph_steps | Tool_calls | Provider_attempts | Cache_hits | Llm_calls | Llm_attempts
| Llm_input_chars | Input_tokens | Output_tokens | Repair_rounds | Interrupts
| Checkpoint_writes | Trace_events

record ledger =
  run_id :: string
  budget :: execution_budget
  started :: rat
  "values" :: "ledger_key \<Rightarrow> int"
  token_usage_complete :: bool
  last_action_fingerprint :: "string option"
  repeated_fingerprint_count :: int

text \<open>
  The readings of the monotonic clock, in seconds, that one method call makes: the first
  is compared with the deadline, the second is reported in the error.
\<close>

type_synonym clock = "rat \<times> rat"
type_synonym 'a outcome = "ledger \<times> (budget_exceeded, 'a) result"

definition init_ledger :: "string \<Rightarrow> execution_budget \<Rightarrow> rat \<Rightarrow> ledger" where
  "init_ledger r b t = \<lparr>run_id = r, budget = b, started = t, values = (\<lambda>_. 0),
     token_usage_complete = True, last_action_fingerprint = None,
     repeated_fingerprint_count = 0\<rparr>"

definition exceeded :: "ledger \<Rightarrow> limit \<Rightarrow> int \<Rightarrow> int \<Rightarrow> bool \<Rightarrow> budget_exceeded" where
  "exceeded L l used maximum deadline =
     \<lparr>ex_run_id = run_id L, ex_limit = l, ex_used = used, ex_maximum = maximum,
      ex_deadline = deadline\<rparr>"

definition elapsed_ms :: "ledger \<Rightarrow> rat \<Rightarrow> int" where
  "elapsed_ms L now = max 0 (py_round ((now - started L) * 1000))"

definition remaining_seconds :: "clock \<Rightarrow> ledger \<Rightarrow> (budget_exceeded, rat) result" where
  "remaining_seconds c L =
     (let remaining = of_int (deadline_ms (budget L) - elapsed_ms L (fst c)) / 1000
      in if remaining \<le> 0
         then Inl (exceeded L Deadline_ms (elapsed_ms L (snd c)) (deadline_ms (budget L)) True)
         else Inr remaining)"

definition effective_timeout :: "rat \<Rightarrow> clock \<Rightarrow> ledger \<Rightarrow> (budget_exceeded, rat) result" where
  "effective_timeout component_timeout c L =
     bind_res (remaining_seconds c L) (\<lambda>r. Inr (max (1 / 1000) (min component_timeout r)))"

definition ensure_can_continue :: "bool \<Rightarrow> clock \<Rightarrow> ledger \<Rightarrow> unit outcome" where
  "ensure_can_continue reserve_terminal_steps c L =
     (L, bind_res (remaining_seconds c L) (\<lambda>_.
        let maximum = max_graph_steps (budget L)
              - (if reserve_terminal_steps then terminal_step_reserve (budget L) else 0)
        in if values L Graph_steps \<ge> maximum
           then Inl (exceeded L Max_graph_steps (values L Graph_steps)
                       (max_graph_steps (budget L)) False)
           else Inr ()))"

definition consume :: "ledger_key \<Rightarrow> int \<Rightarrow> int \<Rightarrow> limit \<Rightarrow> clock \<Rightarrow> ledger \<Rightarrow> unit outcome" where
  "consume key amount maximum l c L =
     (case remaining_seconds c L of
        Inl e \<Rightarrow> (L, Inl e)
      | Inr _ \<Rightarrow>
          let v = values L key + amount
          in if v > maximum then (L, Inl (exceeded L l (values L key) maximum False))
             else (L\<lparr>values := (values L)(key := v)\<rparr>, Inr ()))"

definition increment :: "ledger_key \<Rightarrow> ledger \<Rightarrow> unit outcome" where
  "increment key L = (L\<lparr>values := (values L)(key := values L key + 1)\<rparr>, Inr ())"

definition consume_graph_step :: "bool \<Rightarrow> clock \<Rightarrow> ledger \<Rightarrow> unit outcome" where
  "consume_graph_step terminal c L =
     consume Graph_steps 1
       (max_graph_steps (budget L) - (if terminal then 0 else terminal_step_reserve (budget L)))
       Max_graph_steps c L"

definition consume_tool_call :: "clock \<Rightarrow> ledger \<Rightarrow> unit outcome" where
  "consume_tool_call c L =
     consume Tool_calls 1 (max_tool_calls (budget L)) Max_tool_calls c L"

definition consume_provider_attempt :: "clock \<Rightarrow> ledger \<Rightarrow> unit outcome" where
  "consume_provider_attempt c L =
     consume Provider_attempts 1 (max_provider_attempts (budget L)) Max_provider_attempts c L"

definition note_cache_hit :: "ledger \<Rightarrow> unit outcome" where
  "note_cache_hit L = increment Cache_hits L"

definition consume_llm_call :: "int \<Rightarrow> clock \<Rightarrow> ledger \<Rightarrow> unit outcome" where
  "consume_llm_call input_chars c L =
     (case remaining_seconds c L of
        Inl e \<Rightarrow> (L, Inl e)
      | Inr _ \<Rightarrow>
          if values L Llm_calls + 1 > max_llm_calls (budget L)
          then (L, Inl (exceeded L Max_llm_calls (values L Llm_calls)
                          (max_llm_calls (budget L)) False))
          else if values L Llm_input_chars + input_chars > max_llm_input_chars (budget L)
          then (L, Inl (exceeded L Max_llm_input_chars (values L Llm_input_chars)
                          (max_llm_input_chars (budget L)) False))
          else (L\<lparr>values := (values L)(Llm_calls := values L Llm_calls + 1,
                    Llm_input_chars := values L Llm_input_chars + input_chars)\<rparr>, Inr ()))"

definition consume_llm_attempt :: "clock \<Rightarrow> ledger \<Rightarrow> unit outcome" where
  "consume_llm_attempt c L =
     consume Llm_attempts 1 (max_llm_attempts (budget L)) Max_llm_attempts c L"

fun complete_llm :: "int option \<Rightarrow> int option \<Rightarrow> ledger \<Rightarrow> unit outcome" where
  "complete_llm (Some i) (Some n) L =
     (if values L Input_tokens + i > max_input_tokens (budget L)
      then (L, Inl (exceeded L Max_input_tokens (values L Input_tokens + i)
                      (max_input_tokens (budget L)) False))
      else if values L Output_tokens + n > max_output_tokens (budget L)
      then (L, Inl (exceeded L Max_output_tokens (values L Output_tokens + n)
                      (max_output_tokens (budget L)) False))
      else (L\<lparr>values := (values L)(Input_tokens := values L Input_tokens + i,
                Output_tokens := values L Output_tokens + n)\<rparr>, Inr ()))"
| "complete_llm _ _ L = (L\<lparr>token_usage_complete := False\<rparr>, Inr ())"

definition consume_repair_round :: "clock \<Rightarrow> ledger \<Rightarrow> unit outcome" where
  "consume_repair_round c L =
     consume Repair_rounds 1 (max_repair_rounds (budget L)) Max_repair_rounds c L"

definition consume_interrupt :: "clock \<Rightarrow> ledger \<Rightarrow> unit outcome" where
  "consume_interrupt c L =
     consume Interrupts 1 (max_interrupts (budget L)) Max_interrupts c L"

definition consume_checkpoint_write :: "clock \<Rightarrow> ledger \<Rightarrow> unit outcome" where
  "consume_checkpoint_write c L =
     consume Checkpoint_writes 1 (max_checkpoint_writes (budget L)) Max_checkpoint_writes c L"

definition note_trace_event :: "ledger \<Rightarrow> unit outcome" where
  "note_trace_event L = increment Trace_events L"

definition note_action_fingerprint :: "string \<Rightarrow> ledger \<Rightarrow> unit outcome" where
  "note_action_fingerprint fp L =
     (let L' = (if last_action_fingerprint L = Some fp
                then L\<lparr>repeated_fingerprint_count := repeated_fingerprint_count L + 1\<rparr>
                else L\<lparr>last_action_fingerprint := Some fp, repeated_fingerprint_count := 1\<rparr>);
          maximum = max_repeated_fingerprint_count (budget L)
      in (L', if repeated_fingerprint_count L' > maximum
              then Inl (exceeded L Max_repeated_fingerprint_count
                          (repeated_fingerprint_count L' - 1) maximum False)
              else Inr ()))"

definition snapshot :: "ledger \<Rightarrow> execution_usage" where
  "snapshot L = \<lparr>u_graph_steps = values L Graph_steps, u_tool_calls = values L Tool_calls,
     u_provider_attempts = values L Provider_attempts, u_cache_hits = values L Cache_hits,
     u_llm_calls = values L Llm_calls, u_llm_attempts = values L Llm_attempts,
     u_llm_input_chars = values L Llm_input_chars,
     u_input_tokens = (if token_usage_complete L then Some (values L Input_tokens) else None),
     u_output_tokens = (if token_usage_complete L then Some (values L Output_tokens) else None),
     u_repair_rounds = values L Repair_rounds, u_interrupts = values L Interrupts,
     u_checkpoint_writes = values L Checkpoint_writes, u_trace_events = values L Trace_events,
     u_estimated_cost_microunits = None\<rparr>"

lemmas ledger_op_defs =
  consume_def increment_def consume_graph_step_def consume_tool_call_def
  consume_provider_attempt_def note_cache_hit_def consume_llm_call_def
  consume_llm_attempt_def consume_repair_round_def consume_interrupt_def
  consume_checkpoint_write_def note_trace_event_def note_action_fingerprint_def
  ensure_can_continue_def

section \<open>The contract of a metered resource\<close>

definition expired :: "clock \<Rightarrow> ledger \<Rightarrow> bool" where
  "expired c L \<longleftrightarrow> elapsed_ms L (fst c) \<ge> deadline_ms (budget L)"

lemma remaining_seconds_Inl: "expired c L \<Longrightarrow> \<exists>e. remaining_seconds c L = Inl e"
  by (simp add: expired_def remaining_seconds_def)

lemma remaining_seconds_Inr: "\<not> expired c L \<Longrightarrow> remaining_seconds c L
    = Inr (of_int (deadline_ms (budget L) - elapsed_ms L (fst c)) / 1000)"
  by (simp add: expired_def remaining_seconds_def)

lemma expired_values [simp]: "expired c (L\<lparr>values := v\<rparr>) = expired c L"
  by (simp add: expired_def elapsed_ms_def)

locale meter =
  fixes use :: "clock \<Rightarrow> ledger \<Rightarrow> unit outcome"
    and key :: ledger_key
    and cap :: "ledger \<Rightarrow> int"
  assumes use_live: "\<not> expired c L \<Longrightarrow> use c L =
        (if values L key + 1 > cap L then (L, snd (use c L))
         else (L\<lparr>values := (values L)(key := values L key + 1)\<rparr>, Inr ()))"
    and use_full: "\<not> expired c L \<Longrightarrow> values L key + 1 > cap L \<Longrightarrow> isl (snd (use c L))"
    and use_expired: "expired c L \<Longrightarrow> fst (use c L) = L \<and> isl (snd (use c L))"
    and cap_values: "cap (L\<lparr>values := v\<rparr>) = cap L"
begin

text \<open>Repeated use over a list of clock readings, counting the accepted calls.\<close>

fun use_many :: "clock list \<Rightarrow> ledger \<Rightarrow> ledger \<times> nat" where
  "use_many [] L = (L, 0)"
| "use_many (c # cs) L =
     (case use c L of (L', r) \<Rightarrow>
        case use_many cs L' of (L'', n) \<Rightarrow> (L'', if isl r then n else Suc n))"

lemma use_cases:
  obtains "isl (snd (use c L))" and "fst (use c L) = L"
  | "values L key < cap L" and "\<not> expired c L"
    and "use c L = (L\<lparr>values := (values L)(key := values L key + 1)\<rparr>, Inr ())"
  using use_live [of c L] use_full [of c L] use_expired [of c L]
  by (smt (verit) fst_conv)

lemma refused_unchanged: "isl (snd (use c L)) \<Longrightarrow> fst (use c L) = L"
  by (cases rule: use_cases [of c L]) auto

lemma use_many_count: "use_many cs L = (L', n) \<Longrightarrow>
    values L' key = values L key + int n \<and> (values L key \<le> cap L \<longrightarrow> values L' key \<le> cap L)"
proof (induction cs arbitrary: L L' n)
  case Nil
  then show ?case by simp
next
  case (Cons c cs)
  show ?case
  proof (cases rule: use_cases [of c L])
    case 1
    then obtain e where "use c L = (L, Inl e)"
      by (metis isl_def prod.collapse)
    with Cons.prems have "use_many cs L = (L', n)"
      by (auto split: prod.splits)
    then show ?thesis by (rule Cons.IH)
  next
    case 2
    let ?M = "L\<lparr>values := (values L)(key := values L key + 1)\<rparr>"
    obtain n' where "use_many cs ?M = (L', n')" and "n = Suc n'"
      using Cons.prems 2 by (auto split: prod.splits)
    with Cons.IH [of ?M L' n'] 2 show ?thesis
      by (auto simp: cap_values)
  qed
qed

lemma use_many_exact:
  assumes "\<forall>c \<in> set cs. \<not> expired c L" and "values L key \<le> cap L"
  shows "snd (use_many cs L) = min (length cs) (nat (cap L - values L key))"
  using assms
proof (induction cs arbitrary: L)
  case Nil
  then show ?case by simp
next
  case (Cons c cs)
  show ?case
  proof (cases "values L key + 1 > cap L")
    case True
    then obtain e where "use c L = (L, Inl e)"
      using use_live [of c L] use_full [of c L] Cons.prems
      by (metis isl_def list.set_intros(1) prod.collapse prod.inject)
    with Cons True show ?thesis
      by (auto split: prod.splits)
  next
    case False
    let ?M = "L\<lparr>values := (values L)(key := values L key + 1)\<rparr>"
    have u: "use c L = (?M, Inr ())"
      using use_live [of c L] False Cons.prems by simp
    have "snd (use_many cs ?M) = min (length cs) (nat (cap L - (values L key + 1)))"
      using Cons.IH [of ?M] Cons.prems False by (simp add: cap_values)
    moreover have "nat (cap L - values L key) = Suc (nat (cap L - (values L key + 1)))"
      using False by simp
    ultimately show ?thesis
      using u by (cases "use_many cs ?M") simp
  qed
qed

end

text \<open>Every consuming method of the ledger is a meter of its counter.\<close>

lemma consume_is_meter:
  assumes "\<And>L v. m (L\<lparr>values := v\<rparr>) = m L"
  shows "meter (\<lambda>c L. consume k 1 (m L) l c L) k m"
proof
  fix c :: clock and L :: ledger and v
  show "m (L\<lparr>values := v\<rparr>) = m L" by (fact assms)
  show "expired c L \<Longrightarrow> fst (consume k 1 (m L) l c L) = L \<and> isl (snd (consume k 1 (m L) l c L))"
    using remaining_seconds_Inl [of c L] by (auto simp: consume_def)
qed (auto simp: consume_def remaining_seconds_Inr Let_def)

interpretation graph_step: meter "consume_graph_step False" Graph_steps
    "\<lambda>L. max_graph_steps (budget L) - terminal_step_reserve (budget L)"
  using consume_is_meter [of "\<lambda>L. max_graph_steps (budget L) - terminal_step_reserve (budget L)"]
  by (simp add: consume_graph_step_def [abs_def])

interpretation terminal_step: meter "consume_graph_step True" Graph_steps
    "\<lambda>L. max_graph_steps (budget L)"
  using consume_is_meter [of "\<lambda>L. max_graph_steps (budget L)"]
  by (simp add: consume_graph_step_def [abs_def])

interpretation tool_call: meter consume_tool_call Tool_calls "\<lambda>L. max_tool_calls (budget L)"
  using consume_is_meter [of "\<lambda>L. max_tool_calls (budget L)"]
  by (simp add: consume_tool_call_def [abs_def])

interpretation provider_attempt: meter consume_provider_attempt Provider_attempts
    "\<lambda>L. max_provider_attempts (budget L)"
  using consume_is_meter [of "\<lambda>L. max_provider_attempts (budget L)"]
  by (simp add: consume_provider_attempt_def [abs_def])

interpretation llm_attempt: meter consume_llm_attempt Llm_attempts
    "\<lambda>L. max_llm_attempts (budget L)"
  using consume_is_meter [of "\<lambda>L. max_llm_attempts (budget L)"]
  by (simp add: consume_llm_attempt_def [abs_def])

interpretation repair_round: meter consume_repair_round Repair_rounds
    "\<lambda>L. max_repair_rounds (budget L)"
  using consume_is_meter [of "\<lambda>L. max_repair_rounds (budget L)"]
  by (simp add: consume_repair_round_def [abs_def])

interpretation interrupt_use: meter consume_interrupt Interrupts
    "\<lambda>L. max_interrupts (budget L)"
  using consume_is_meter [of "\<lambda>L. max_interrupts (budget L)"]
  by (simp add: consume_interrupt_def [abs_def])

interpretation checkpoint_write: meter consume_checkpoint_write Checkpoint_writes
    "\<lambda>L. max_checkpoint_writes (budget L)"
  using consume_is_meter [of "\<lambda>L. max_checkpoint_writes (budget L)"]
  by (simp add: consume_checkpoint_write_def [abs_def])

section \<open>Reachable ledgers\<close>

text \<open>
  The calls the runtime makes on a ledger, in any order and at any clock readings. Input
  sizes and token counts are lengths and provider counters, so they are not negative.
\<close>

datatype ledger_op =
  Op_ensure bool | Op_graph_step bool | Op_tool_call | Op_provider_attempt | Op_cache_hit
| Op_llm_call nat | Op_llm_attempt | Op_complete_llm "nat option" "nat option"
| Op_repair_round | Op_interrupt | Op_checkpoint_write | Op_trace_event | Op_fingerprint string

fun apply_op :: "ledger_op \<Rightarrow> clock \<Rightarrow> ledger \<Rightarrow> unit outcome" where
  "apply_op (Op_ensure r) c L = ensure_can_continue r c L"
| "apply_op (Op_graph_step t) c L = consume_graph_step t c L"
| "apply_op Op_tool_call c L = consume_tool_call c L"
| "apply_op Op_provider_attempt c L = consume_provider_attempt c L"
| "apply_op Op_cache_hit c L = note_cache_hit L"
| "apply_op (Op_llm_call n) c L = consume_llm_call (int n) c L"
| "apply_op Op_llm_attempt c L = consume_llm_attempt c L"
| "apply_op (Op_complete_llm i n) c L =
     complete_llm (map_option int i) (map_option int n) L"
| "apply_op Op_repair_round c L = consume_repair_round c L"
| "apply_op Op_interrupt c L = consume_interrupt c L"
| "apply_op Op_checkpoint_write c L = consume_checkpoint_write c L"
| "apply_op Op_trace_event c L = note_trace_event L"
| "apply_op (Op_fingerprint fp) c L = note_action_fingerprint fp L"

inductive ledger_reach :: "(ledger_op \<Rightarrow> bool) \<Rightarrow> ledger \<Rightarrow> ledger \<Rightarrow> bool"
  for allowed :: "ledger_op \<Rightarrow> bool" and L0 :: ledger where
  reach_start: "ledger_reach allowed L0 L0"
| reach_call: "ledger_reach allowed L0 L \<Longrightarrow> allowed op \<Longrightarrow>
     ledger_reach allowed L0 (fst (apply_op op c L))"

text \<open>The limit each counter is held to; cache hits and trace events are not limited here.\<close>

fun limit_of :: "execution_budget \<Rightarrow> ledger_key \<Rightarrow> int option" where
  "limit_of b Graph_steps = Some (max_graph_steps b)"
| "limit_of b Tool_calls = Some (max_tool_calls b)"
| "limit_of b Provider_attempts = Some (max_provider_attempts b)"
| "limit_of b Llm_calls = Some (max_llm_calls b)"
| "limit_of b Llm_attempts = Some (max_llm_attempts b)"
| "limit_of b Llm_input_chars = Some (max_llm_input_chars b)"
| "limit_of b Input_tokens = Some (max_input_tokens b)"
| "limit_of b Output_tokens = Some (max_output_tokens b)"
| "limit_of b Repair_rounds = Some (max_repair_rounds b)"
| "limit_of b Interrupts = Some (max_interrupts b)"
| "limit_of b Checkpoint_writes = Some (max_checkpoint_writes b)"
| "limit_of b Cache_hits = None"
| "limit_of b Trace_events = None"

definition ledger_within :: "ledger \<Rightarrow> bool" where
  "ledger_within L \<longleftrightarrow> (\<forall>k. 0 \<le> values L k \<and>
     (case limit_of (budget L) k of None \<Rightarrow> True | Some m \<Rightarrow> values L k \<le> m))"

lemma limit_of_nonneg: "budget_ok b \<Longrightarrow> limit_of b k = Some m \<Longrightarrow> 0 \<le> m"
  by (cases k) (auto simp: budget_ok_def budget_fields_ok_def)

lemma ledger_within_init [wf_intros]: "budget_ok b \<Longrightarrow> ledger_within (init_ledger r b t)"
  by (auto simp: ledger_within_def init_ledger_def limit_of_nonneg split: option.splits)

lemma consume_frame:
  "budget (fst (consume k n m l c L)) = budget L"
  "run_id (fst (consume k n m l c L)) = run_id L"
  "started (fst (consume k n m l c L)) = started L"
  by (simp_all add: consume_def Let_def split: sum.splits)

lemma ledger_within_update:
  "ledger_within L \<Longrightarrow> 0 \<le> x \<Longrightarrow> (\<And>m. limit_of (budget L) k = Some m \<Longrightarrow> x \<le> m) \<Longrightarrow>
   ledger_within (L\<lparr>values := (values L)(k := x)\<rparr>)"
  by (auto simp: ledger_within_def split: option.splits)

lemma ledger_within_nonneg: "ledger_within L \<Longrightarrow> 0 \<le> values L k"
  by (simp add: ledger_within_def)

lemma consume_within [wf_intros]:
  assumes "ledger_within L" and "limit_of (budget L) k = Some m'" and "m \<le> m'"
  shows "ledger_within (fst (consume k 1 m l c L))"
  using assms ledger_within_nonneg [OF assms(1), of k]
  by (auto simp: consume_def Let_def intro!: ledger_within_update split: sum.splits)

lemma increment_within [wf_intros]:
  "ledger_within L \<Longrightarrow> limit_of (budget L) k = None \<Longrightarrow> ledger_within (fst (increment k L))"
  using ledger_within_nonneg [of L k]
  by (auto simp: increment_def intro!: ledger_within_update)

lemma consume_llm_call_within [wf_intros]:
  assumes "ledger_within L" and "0 \<le> n"
  shows "ledger_within (fst (consume_llm_call n c L))"
  using assms ledger_within_nonneg [OF assms(1), of Llm_calls]
    ledger_within_nonneg [OF assms(1), of Llm_input_chars]
  by (auto simp: consume_llm_call_def ledger_within_def split: sum.splits option.splits)

lemma complete_llm_within [wf_intros]:
  assumes "ledger_within L"
  shows "ledger_within (fst (complete_llm (map_option int i) (map_option int n) L))"
  using assms ledger_within_nonneg [OF assms, of Input_tokens]
    ledger_within_nonneg [OF assms, of Output_tokens]
  by (cases i; cases n) (auto simp: ledger_within_def split: option.splits)

lemma fingerprint_within [wf_intros]:
  "ledger_within L \<Longrightarrow> ledger_within (fst (note_action_fingerprint fp L))"
  by (cases "last_action_fingerprint L = Some fp")
    (auto simp: note_action_fingerprint_def ledger_within_def Let_def split: option.splits)

lemma apply_op_budget [simp]: "budget (fst (apply_op op c L)) = budget L"
proof (cases op)
  case (Op_complete_llm i n)
  then show ?thesis by (cases i; cases n) simp_all
qed (simp_all add: ledger_op_defs Let_def split: sum.splits)

lemma apply_op_within:
  assumes "budget_ok (budget L)" and "ledger_within L"
  shows "ledger_within (fst (apply_op op c L))"
proof -
  have "0 \<le> terminal_step_reserve (budget L)"
    using assms(1) by (simp add: budget_ok_def budget_fields_ok_def)
  with assms(2) show ?thesis
    by (cases op)
      (auto simp: consume_graph_step_def consume_tool_call_def consume_provider_attempt_def
        note_cache_hit_def consume_llm_attempt_def consume_repair_round_def
        consume_interrupt_def consume_checkpoint_write_def note_trace_event_def
        ensure_can_continue_def intro: wf_intros)
qed

lemma reach_budget: "ledger_reach A L0 L \<Longrightarrow> budget L = budget L0"
  by (induction rule: ledger_reach.induct) auto

lemma reach_within:
  assumes "ledger_reach A L0 L" and "budget_ok (budget L0)" and "ledger_within L0"
  shows "ledger_within L"
  using assms
proof (induction rule: ledger_reach.induct)
  case reach_start
  then show ?case by simp
next
  case (reach_call L op c)
  then have "budget_ok (budget L)" and "ledger_within L"
    by (simp_all add: reach_budget)
  then show ?case by (rule apply_op_within)
qed

text \<open>Non-terminal calls never touch the reserved steps.\<close>

fun non_terminal :: "ledger_op \<Rightarrow> bool" where
  "non_terminal (Op_graph_step t) = (\<not> t)"
| "non_terminal _ = True"

lemma apply_op_reserve:
  assumes "values L Graph_steps \<le> max_graph_steps (budget L) - terminal_step_reserve (budget L)"
    and "non_terminal op"
  shows "values (fst (apply_op op c L)) Graph_steps
      \<le> max_graph_steps (budget L) - terminal_step_reserve (budget L)"
proof (cases op)
  case (Op_complete_llm i n)
  with assms show ?thesis by (cases i; cases n) simp_all
qed (use assms in \<open>auto simp: ledger_op_defs Let_def split: sum.splits\<close>)

lemma reach_reserve:
  assumes "ledger_reach non_terminal L0 L"
    and "values L0 Graph_steps \<le> max_graph_steps (budget L0) - terminal_step_reserve (budget L0)"
  shows "values L Graph_steps \<le> max_graph_steps (budget L0) - terminal_step_reserve (budget L0)"
  using assms
proof (induction rule: ledger_reach.induct)
  case reach_start
  then show ?case by simp
next
  case (reach_call L op c)
  then show ?case
    using apply_op_reserve [of L op c] by (simp add: reach_budget)
qed

section \<open>Properties\<close>

text \<open>A caller that makes the same call at each of the given clock readings.\<close>

fun accepted :: "ledger_op \<Rightarrow> clock list \<Rightarrow> ledger \<Rightarrow> nat" where
  "accepted op [] L = 0"
| "accepted op (c # cs) L =
     (case apply_op op c L of (L', r) \<Rightarrow> (if isl r then 0 else 1) + accepted op cs L')"

lemma accepted_tool_call: "accepted Op_tool_call cs L = snd (tool_call.use_many cs L)"
  by (induction cs arbitrary: L) (auto split: prod.splits)

lemma accepted_terminal_step:
  "accepted (Op_graph_step True) cs L = snd (terminal_step.use_many cs L)"
  by (induction cs arbitrary: L) (auto split: prod.splits)

lemma complete_llm_refused: "isl (snd (complete_llm i n L)) \<Longrightarrow> fst (complete_llm i n L) = L"
  by (cases i; cases n) (auto split: if_splits)

lemma consume_llm_call_refused:
  "isl (snd (consume_llm_call n c L)) \<Longrightarrow> fst (consume_llm_call n c L) = L"
  by (auto simp: consume_llm_call_def split: sum.splits if_splits)

lemma consume_graph_step_refused:
  "isl (snd (consume_graph_step t c L)) \<Longrightarrow> fst (consume_graph_step t c L) = L"
  by (cases t) (simp_all add: graph_step.refused_unchanged terminal_step.refused_unchanged)

lemma default_budget_ok: "budget_ok default_budget"
  by (simp add: budget_ok_def budget_fields_ok_def validate_reserves_def default_budget_def)

lemma iterate_fingerprint:
  assumes "last_action_fingerprint L \<noteq> Some fp"
  shows "let M = ((\<lambda>M. fst (note_action_fingerprint fp M)) ^^ Suc n) L in
     last_action_fingerprint M = Some fp \<and> repeated_fingerprint_count M = int n + 1 \<and>
     budget M = budget L"
  by (induction n) (use assms in \<open>auto simp: note_action_fingerprint_def Let_def\<close>)

text \<open>
  C29. Whatever sequence of ledger calls a run makes, at whatever clock readings, every
  counter that the budget limits stays between zero and its limit.
\<close>

theorem ledger_usage_bounded:
  assumes "budget_ok b" and "ledger_reach (\<lambda>_. True) (init_ledger r b t) L"
    and "limit_of b k = Some m"
  shows "0 \<le> values L k \<and> values L k \<le> m"
proof -
  have "budget L = b"
    using reach_budget [OF assms(2)] by (simp add: init_ledger_def)
  moreover have "ledger_within L"
    using reach_within [OF assms(2)] ledger_within_init [OF assms(1)] assms(1)
    by (simp add: init_ledger_def)
  ultimately show ?thesis
    using assms(3) by (auto simp: ledger_within_def split: option.splits dest: spec [of _ k])
qed

theorem ledger_usage_bounded_witness:
  "0 \<le> values (fst (apply_op Op_tool_call (1, 1) (init_ledger ''r'' default_budget 0))) Tool_calls \<and>
   values (fst (apply_op Op_tool_call (1, 1) (init_ledger ''r'' default_budget 0))) Tool_calls \<le> 160"
proof (rule ledger_usage_bounded [OF default_budget_ok])
  show "ledger_reach (\<lambda>_. True) (init_ledger ''r'' default_budget 0)
      (fst (apply_op Op_tool_call (1, 1) (init_ledger ''r'' default_budget 0)))"
    by (rule reach_call [OF reach_start]) simp
qed (simp add: default_budget_def)

text \<open>
  Checks come before effects: a ledger call that raises leaves the ledger exactly as it
  was, except for the repetition counter of \<open>note_action_fingerprint\<close>.
\<close>

lemma refused_call_has_no_effect:
  assumes "isl (snd (apply_op op c L))" and "\<forall>fp. op \<noteq> Op_fingerprint fp"
  shows "fst (apply_op op c L) = L"
  using assms
  by (cases op)
    (auto simp: consume_graph_step_refused tool_call.refused_unchanged provider_attempt.refused_unchanged
      llm_attempt.refused_unchanged repair_round.refused_unchanged
      interrupt_use.refused_unchanged checkpoint_write.refused_unchanged
      complete_llm_refused consume_llm_call_refused ensure_can_continue_def
      note_cache_hit_def note_trace_event_def increment_def)

lemma refused_call_has_no_effect_witness:
  "fst (apply_op Op_tool_call (121, 121) (init_ledger ''r'' default_budget 0))
     = init_ledger ''r'' default_budget 0"
  by (rule refused_call_has_no_effect)
    (simp_all add: consume_tool_call_def consume_def remaining_seconds_def elapsed_ms_def
      init_ledger_def default_budget_def Let_def)

text \<open>
  Before the deadline the tool-call budget is exact: of any number of further calls
  precisely as many are accepted as the budget has left, and none beyond.
\<close>

lemma tool_calls_accepted_exactly:
  assumes "\<forall>c \<in> set cs. elapsed_ms L (fst c) < deadline_ms (budget L)"
    and "values L Tool_calls \<le> max_tool_calls (budget L)"
  shows "accepted Op_tool_call cs L
    = min (length cs) (nat (max_tool_calls (budget L) - values L Tool_calls))"
  using tool_call.use_many_exact [of cs L] assms
  by (simp add: accepted_tool_call expired_def not_le)

lemma tool_calls_accepted_exactly_witness:
  "accepted Op_tool_call (replicate 200 (1, 1)) (init_ledger ''r'' default_budget 0) = 160"
  using tool_calls_accepted_exactly [of "replicate 200 (1, 1)" "init_ledger ''r'' default_budget 0"]
  by (simp add: elapsed_ms_def init_ledger_def default_budget_def)

text \<open>
  C30. The terminal reserve is always there: after any sequence of calls that takes no
  terminal step, all \<open>terminal_step_reserve\<close> terminal graph steps are still accepted while
  the deadline has not passed.
\<close>

theorem terminal_steps_reserved:
  assumes "budget_ok b" and "ledger_reach non_terminal (init_ledger r b t) L"
    and "\<forall>c \<in> set cs. elapsed_ms L (fst c) < deadline_ms b"
    and "length cs = nat (terminal_step_reserve b)"
  shows "accepted (Op_graph_step True) cs L = length cs"
proof -
  have b: "budget L = b"
    using reach_budget [OF assms(2)] by (simp add: init_ledger_def)
  have "values L Graph_steps \<le> max_graph_steps b - terminal_step_reserve b"
    using reach_reserve [OF assms(2)] assms(1)
    by (auto simp: init_ledger_def budget_ok_def budget_fields_ok_def validate_reserves_def
        split: if_splits)
  moreover have "1 \<le> terminal_step_reserve b"
    using assms(1) by (simp add: budget_ok_def budget_fields_ok_def)
  ultimately show ?thesis
    using terminal_step.use_many_exact [of cs L] assms(3,4) b
    by (simp add: accepted_terminal_step expired_def not_le)
qed

theorem terminal_steps_reserved_witness:
  "accepted (Op_graph_step True) [(1, 1), (2, 2)] (init_ledger ''r'' default_budget 0) = 2"
  using terminal_steps_reserved [of default_budget "''r''" 0 "init_ledger ''r'' default_budget 0"
      "[(1, 1), (2, 2)]"]
  by (simp add: default_budget_ok reach_start)
    (simp add: default_budget_def elapsed_ms_def init_ledger_def)

text \<open>
  Loop breaking: of consecutive calls with the same action fingerprint the first
  \<open>max_repeated_fingerprint_count\<close> are accepted and every later one is refused.
\<close>

lemma repeated_action_refused:
  assumes "last_action_fingerprint L \<noteq> Some fp"
    and "1 \<le> max_repeated_fingerprint_count (budget L)"
  shows "isl (snd (note_action_fingerprint fp
            (((\<lambda>M. fst (note_action_fingerprint fp M)) ^^ n) L)))
     \<longleftrightarrow> max_repeated_fingerprint_count (budget L) < int n + 1"
proof (cases n)
  case 0
  with assms show ?thesis by (simp add: note_action_fingerprint_def Let_def)
next
  case (Suc m)
  with iterate_fingerprint [OF assms(1), of m] show ?thesis
    by (auto simp: note_action_fingerprint_def Let_def)
qed

lemma repeated_action_refused_witness:
  "isl (snd (note_action_fingerprint ''a''
      (((\<lambda>M. fst (note_action_fingerprint ''a'' M)) ^^ 2) (init_ledger ''r'' default_budget 0))))"
  using repeated_action_refused [of "init_ledger ''r'' default_budget 0" "''a''" 2]
  by (simp add: init_ledger_def default_budget_def)

end
