(* ===== verification/DomainModels.thy ===== *)
theory DomainModels
  imports Prelude
begin

text \<open>
  The data model shared by all planners: \<open>domain/models.py\<close>, the provenance and route
  types of \<open>domain/tool_models.py\<close>, and \<open>planning/policy.py\<close>. Every Pydantic class is a
  record, every \<open>StrEnum\<close> a datatype with its \<open>value\<close>; the field bounds are a predicate
  \<open>..._fields_ok\<close> and each model validator a function to the error message it raises or
  the unchanged object. User-facing (Chinese) messages are values of the datatypes
  \<open>message\<close> and \<open>hint\<close>, one constructor per format string with its interpolated values.
\<close>

section \<open>Enumerations\<close>

datatype pace = Pace_relaxed | Pace_balanced | Pace_intensive

datatype plan_style = Style_relaxed | Style_balanced | Style_exploration

fun plan_style_value :: "plan_style \<Rightarrow> string" where
  "plan_style_value Style_relaxed = ''relaxed''"
| "plan_style_value Style_balanced = ''balanced''"
| "plan_style_value Style_exploration = ''exploration''"

datatype item_type = Activity | Meal | Rest | Transport

fun item_type_value :: "item_type \<Rightarrow> string" where
  "item_type_value Activity = ''activity''"
| "item_type_value Meal = ''meal''"
| "item_type_value Rest = ''rest''"
| "item_type_value Transport = ''transport''"

datatype violation_severity = Error | Warning

fun severity_value :: "violation_severity \<Rightarrow> string" where
  "severity_value Error = ''error''"
| "severity_value Warning = ''warning''"

datatype validation_status = Valid | Valid_with_warnings | Invalid

fun validation_status_value :: "validation_status \<Rightarrow> string" where
  "validation_status_value Valid = ''valid''"
| "validation_status_value Valid_with_warnings = ''valid_with_warnings''"
| "validation_status_value Invalid = ''invalid''"

datatype unknown_fact_policy = Assume_with_warning | Strict

datatype route_mode = Driving | Walking

fun route_mode_value :: "route_mode \<Rightarrow> string" where
  "route_mode_value Driving = ''driving''"
| "route_mode_value Walking = ''walking''"

datatype value_source = Provider | Derived | Default | User_confirmed

section \<open>Places, times and the trip\<close>

record coordinate =
  longitude :: rat
  latitude :: rat

definition coordinate_fields_ok :: "coordinate \<Rightarrow> bool" where
  "coordinate_fields_ok c \<longleftrightarrow> -180 \<le> longitude c \<and> longitude c \<le> 180 \<and>
     -90 \<le> latitude c \<and> latitude c \<le> 90"

record time_window =
  tw_start :: py_time
  tw_end :: py_time

definition time_window_validate_order :: "time_window \<Rightarrow> (string, time_window) result" where
  "time_window_validate_order w =
     (if tw_end w \<le> tw_start w then Inl ''time window end must be later than start'' else Inr w)"

text \<open>
  The timezone check of \<open>TransportAnchor\<close> and \<open>PlanItem\<close> is part of the type: a
  \<open>datetime\<close> of the model always has an offset.
\<close>

record transport_anchor =
  ta_name :: string
  ta_at :: datetime
  ta_coordinate :: coordinate

record location_anchor =
  la_name :: string
  la_coordinate :: coordinate

record mobility_constraints =
  max_daily_walking_meters :: int
  max_daily_activity_minutes :: int
  needs_frequent_rest :: bool

definition default_mobility :: mobility_constraints where
  "default_mobility = \<lparr>max_daily_walking_meters = 8000, max_daily_activity_minutes = 480,
     needs_frequent_rest = False\<rparr>"

definition mobility_fields_ok :: "mobility_constraints \<Rightarrow> bool" where
  "mobility_fields_ok m \<longleftrightarrow> 0 \<le> max_daily_walking_meters m \<and> 0 < max_daily_activity_minutes m"

record trip_spec =
  destination :: string
  start_date :: py_date
  end_date :: py_date
  travelers :: int
  arrival :: transport_anchor
  departure :: transport_anchor
  accommodation :: "location_anchor option"
  total_budget :: "rat option"
  interests :: "string list"
  avoid :: "string list"
  must_visit :: "string list"
  trip_pace :: pace
  mobility :: mobility_constraints
  daily_start :: py_time
  daily_end :: py_time

definition normalize_preference_terms :: "string list \<Rightarrow> string list" where
  "normalize_preference_terms vs = [py_strip v. v \<leftarrow> vs, py_strip v \<noteq> []]"

definition trip_fields_ok :: "trip_spec \<Rightarrow> bool" where
  "trip_fields_ok t \<longleftrightarrow> 1 \<le> length (destination t) \<and> 1 \<le> travelers t \<and> travelers t \<le> 20 \<and>
     (case total_budget t of None \<Rightarrow> True | Some b \<Rightarrow> 0 < b) \<and>
     length (interests t) \<le> 100 \<and> length (avoid t) \<le> 100 \<and> length (must_visit t) \<le> 100 \<and>
     mobility_fields_ok (mobility t)"

definition validate_trip_dates :: "trip_spec \<Rightarrow> (string, trip_spec) result" where
  "validate_trip_dates t =
     (if end_date t < start_date t
        then Inl ''end_date must not be earlier than start_date''
      else if date_of (ta_at (arrival t)) < start_date t
        then Inl ''arrival must not be earlier than start_date''
      else if date_of (ta_at (departure t)) > end_date t
        then Inl ''departure must not be later than end_date''
      else if instant (ta_at (departure t)) \<le> instant (ta_at (arrival t))
        then Inl ''departure must be later than arrival''
      else if daily_end t \<le> daily_start t
        then Inl ''daily_end must be later than daily_start''
      else Inr t)"

definition trip_ok :: "trip_spec \<Rightarrow> bool" where
  "trip_ok t \<longleftrightarrow> trip_fields_ok t \<and> validate_trip_dates t = Inr t"

definition day_count :: "trip_spec \<Rightarrow> int" where
  "day_count t = end_date t - start_date t + 1"

lemma day_count_pos: "trip_ok t \<Longrightarrow> 1 \<le> day_count t"
  by (auto simp: trip_ok_def validate_trip_dates_def day_count_def split: if_splits)

section \<open>Points of interest\<close>

record poi =
  p_id :: string
  p_name :: string
  p_city :: string
  p_coordinate :: coordinate
  p_categories :: "string list"
  p_opening_window :: time_window
  p_estimated_duration_minutes :: int
  p_estimated_cost :: rat
  p_indoor_outdoor :: string
  p_suitability_tags :: "string list"
  p_data_confidence :: rat
  p_source :: string

definition poi_fields_ok :: "poi \<Rightarrow> bool" where
  "poi_fields_ok p \<longleftrightarrow> 0 < p_estimated_duration_minutes p \<and> 0 \<le> p_estimated_cost p \<and>
     0 \<le> p_data_confidence p \<and> p_data_confidence p \<le> 1"

record poi_facts =
  f_id :: string
  f_name :: string
  f_city :: string
  f_coordinate :: coordinate
  f_categories :: "string list"
  f_opening_windows_by_weekday :: "(int \<times> time_window) list"
  f_today_opening_window :: "time_window option"
  f_today_opening_date :: "py_date option"
  f_average_cost_per_person :: "rat option"
  f_suggested_duration_minutes :: "int option"
  f_provider :: string
  f_fetched_at :: datetime
  f_data_confidence :: rat
  f_field_sources :: "(string \<times> value_source) list"

definition poi_facts_fields_ok :: "poi_facts \<Rightarrow> bool" where
  "poi_facts_fields_ok f \<longleftrightarrow>
     (case f_average_cost_per_person f of None \<Rightarrow> True | Some c \<Rightarrow> 0 \<le> c) \<and>
     (case f_suggested_duration_minutes f of None \<Rightarrow> True | Some m \<Rightarrow> 0 < m) \<and>
     0 \<le> f_data_confidence f \<and> f_data_confidence f \<le> 1"

text \<open>The reasons of assumptions and the reason facts of candidates, one constructor per text.\<close>

datatype assumption_reason =
  AR_opening_window | AR_duration | AR_party_cost | AR_walking_estimate | AR_text string

record planning_assumption =
  a_field :: string
  a_value :: string
  a_reason :: assumption_reason
  a_source :: value_source
  a_affected_dates :: "py_date list"
  a_policy_version :: string
  a_created_at :: datetime

record planning_poi =
  facts :: poi_facts
  opening_windows :: "(py_date \<times> time_window) list"
  duration_minutes :: int
  party_cost :: "rat option"
  poi_assumptions :: "planning_assumption list"
  field_sources :: "(string \<times> value_source) list"
  opening_window_sources :: "(py_date \<times> value_source) list"
  data_confidence :: rat

abbreviation poi_id_of :: "planning_poi \<Rightarrow> string" where
  "poi_id_of p \<equiv> f_id (facts p)"

abbreviation poi_name_of :: "planning_poi \<Rightarrow> string" where
  "poi_name_of p \<equiv> f_name (facts p)"

record poi_resolution =
  resolved_poi :: "planning_poi option"
  missing_fields :: "string list"

record poi_resolution_issue =
  issue_poi_id :: string
  issue_poi_name :: string
  issue_missing_fields :: "string list"
  issue_required :: bool

section \<open>Plans\<close>

record plan_item =
  item_id :: "string option"
  item_type :: item_type
  item_name :: string
  start_at :: datetime
  end_at :: datetime
  item_poi_id :: "string option"
  travel_from_previous_minutes :: int
  distance_from_previous_meters :: int
  item_estimated_cost :: "rat option"
  walking_distance_estimated :: bool
  locked :: bool

definition plan_item_fields_ok :: "plan_item \<Rightarrow> bool" where
  "plan_item_fields_ok i \<longleftrightarrow> 0 \<le> travel_from_previous_minutes i \<and>
     0 \<le> distance_from_previous_meters i \<and>
     (case item_estimated_cost i of None \<Rightarrow> True | Some c \<Rightarrow> 0 \<le> c)"

definition validate_time_order :: "plan_item \<Rightarrow> (string, plan_item) result" where
  "validate_time_order i =
     (if instant (end_at i) \<le> instant (start_at i)
      then Inl ''plan item end_at must be later than start_at'' else Inr i)"

definition plan_item_ok :: "plan_item \<Rightarrow> bool" where
  "plan_item_ok i \<longleftrightarrow> plan_item_fields_ok i \<and> validate_time_order i = Inr i"

lemma plan_item_ok_order: "plan_item_ok i \<Longrightarrow> instant (start_at i) < instant (end_at i)"
  by (auto simp: plan_item_ok_def validate_time_order_def split: if_splits)

record day_plan =
  day_date :: py_date
  theme :: string
  primary_area :: string
  items :: "plan_item list"
  known_estimated_cost :: rat
  unknown_cost_item_count :: int
  total_travel_minutes :: int
  walking_distance_meters :: int
  fatigue_score :: rat

record plan_metrics =
  preference_match :: rat
  diversity :: rat
  m_data_confidence :: rat
  m_total_travel_minutes :: int
  m_walking_distance_meters :: int
  m_known_estimated_cost :: rat
  m_unknown_cost_item_count :: int
  m_fatigue_score :: rat

datatype message =
  M_empty_plan | M_missing_must_visit string | M_time_overlap string string
| M_outside_daily_window string | M_arrival_buffer string | M_departure_buffer string
| M_outside_opening_hours string | M_walking_limit int int | M_activity_time_limit int int
| M_budget_unverified int rat rat | M_budget_exceeded rat rat
| M_opening_window_default | M_duration_default | M_walking_estimated | M_cost_unknown
| M_field_default string | M_opening_hours_some_default

datatype hint =
  H_more_time_budget_or_places | H_relax_daily_limit | H_reorder_or_reduce
| H_adjust_time_or_day | H_fewer_cross_area | H_reduce_or_move | H_complete_costs
| H_cheaper_or_more_budget

record violation =
  v_type :: string
  severity :: violation_severity
  v_message :: message
  v_day :: "py_date option"
  entity_ids :: "string list"
  repair_hint :: "hint option"

record validation_result =
  status :: validation_status
  violations :: "violation list"

definition status_from_violations :: "violation list \<Rightarrow> validation_status" where
  "status_from_violations vs =
     (if \<exists>v \<in> set vs. severity v = Error then Invalid
      else if vs \<noteq> [] then Valid_with_warnings else Valid)"

definition validate_status :: "validation_result \<Rightarrow> (string, validation_result) result" where
  "validate_status r =
     (if status r \<noteq> status_from_violations (violations r)
      then Inl ''status must match the severity-derived result of violations'' else Inr r)"

definition is_valid :: "validation_result \<Rightarrow> bool" where
  "is_valid r \<longleftrightarrow> status r \<noteq> Invalid"

definition from_violations :: "violation list \<Rightarrow> validation_result" where
  "from_violations vs = \<lparr>status = status_from_violations vs, violations = vs\<rparr>"

lemma from_violations_consistent: "validate_status (from_violations vs) = Inr (from_violations vs)"
  by (simp add: validate_status_def from_violations_def)

lemma is_valid_from_violations [simp]:
  "is_valid (from_violations vs) \<longleftrightarrow> (\<forall>v \<in> set vs. severity v \<noteq> Error)"
  by (simp add: is_valid_def from_violations_def status_from_violations_def)

datatype route_fact_kind = Local_estimates | Mixed_estimates | Provider_results

datatype reason_fact =
  RF_preference_match rat | RF_no_routes int | RF_routes "string list" route_fact_kind rat int
| RF_known_cost rat | RF_unknown_costs int | RF_data_confidence rat | RF_text string

record plan_candidate =
  cand_id :: string
  cand_style :: plan_style
  days :: "day_plan list"
  metrics :: plan_metrics
  validation :: "validation_result option"
  score :: "rat option"
  reason_facts :: "reason_fact list"
  cand_assumptions :: "planning_assumption list"

text \<open>All items of a plan with their date, in plan order.\<close>

definition dated_items :: "plan_candidate \<Rightarrow> (py_date \<times> plan_item) list" where
  "dated_items c = concat (map (\<lambda>d. map (\<lambda>i. (day_date d, i)) (items d)) (days c))"

definition all_items :: "plan_candidate \<Rightarrow> plan_item list" where
  "all_items c = concat (map items (days c))"

lemma set_all_items: "set (all_items c) = (\<Union>d \<in> set (days c). set (items d))"
  by (simp add: all_items_def)

lemma set_dated_items:
  "(d, i) \<in> set (dated_items c) \<longleftrightarrow> (\<exists>day \<in> set (days c). day_date day = d \<and> i \<in> set (items day))"
  by (auto simp: dated_items_def)

definition candidate_ok :: "plan_candidate \<Rightarrow> bool" where
  "candidate_ok c \<longleftrightarrow> (\<forall>i \<in> set (all_items c). plan_item_ok i)"

section \<open>Routes and the planning policy\<close>

record route_query =
  origin :: coordinate
  rq_destination :: coordinate
  origin_poi_id :: "string option"
  destination_poi_id :: "string option"
  rq_mode :: route_mode
  strategy :: int

record route_result =
  distance_meters :: int
  rr_duration_minutes :: int
  rr_mode :: route_mode
  rr_provider :: string
  rr_data_confidence :: rat
  rr_fetched_at :: datetime

definition route_result_fields_ok :: "route_result \<Rightarrow> bool" where
  "route_result_fields_ok r \<longleftrightarrow> 0 < distance_meters r \<and> 0 < rr_duration_minutes r \<and>
     0 \<le> rr_data_confidence r \<and> rr_data_confidence r \<le> 1"

text \<open>\<open>f"{x:.6f}"\<close>: six decimals, rounded half to even.\<close>

definition fixed6 :: "rat \<Rightarrow> string" where
  "fixed6 x = (let n = py_round (\<bar>x\<bar> * 1000000)
     in (if x < 0 then ''-'' else '''') @ show_int (n div 1000000) @ ''.''
        @ pad_digits 6 (nat (n mod 1000000)))"

definition route_key :: "route_query \<Rightarrow> string" where
  "route_key q = ''route:v1|'' @ fixed6 (longitude (origin q)) @ '','' @ fixed6 (latitude (origin q))
     @ ''->'' @ fixed6 (longitude (rq_destination q)) @ '','' @ fixed6 (latitude (rq_destination q))
     @ ''|'' @ route_mode_value (rq_mode q) @ ''|'' @ show_int (strategy q)"

record planning_policy =
  poi_query_limit :: int
  poi_candidate_limit :: int
  route_strategy :: int
  max_walking_leg_meters :: int
  use_real_walking_routes :: bool
  poi_max_queries :: int

definition default_policy :: planning_policy where
  "default_policy = \<lparr>poi_query_limit = 10, poi_candidate_limit = 12, route_strategy = 32,
     max_walking_leg_meters = 1500, use_real_walking_routes = True, poi_max_queries = 12\<rparr>"

definition policy_post_init :: "planning_policy \<Rightarrow> (string, planning_policy) result" where
  "policy_post_init p =
     (if \<not> (1 \<le> poi_query_limit p \<and> poi_query_limit p \<le> 25)
        then Inl ''POI_QUERY_LIMIT must be between 1 and 25''
      else if \<not> (1 \<le> poi_candidate_limit p \<and> poi_candidate_limit p \<le> 100)
        then Inl ''POI_CANDIDATE_LIMIT must be between 1 and 100''
      else if \<not> (1 \<le> poi_max_queries p \<and> poi_max_queries p \<le> 100)
        then Inl ''POI_MAX_QUERIES must be between 1 and 100''
      else if route_strategy p < 0 then Inl ''AMAP_DRIVING_STRATEGY must be non-negative''
      else if max_walking_leg_meters p \<le> 0 then Inl ''MAX_WALKING_LEG_METERS must be positive''
      else Inr p)"

definition policy_route_modes :: "planning_policy \<Rightarrow> route_mode list" where
  "policy_route_modes p = (if use_real_walking_routes p then [Driving, Walking] else [Driving])"

definition route_strategy_for :: "planning_policy \<Rightarrow> route_mode \<Rightarrow> int" where
  "route_strategy_for p m = (if m = Driving then route_strategy p else 0)"

section \<open>Names of required places\<close>

text \<open>
  Normalised-name matching in either direction: the helper the validator, the critic, the
  drafts, the repair and the lifecycle each define for themselves
  (\<open>_matches_required\<close>, \<open>_is_must_visit\<close>, \<open>_is_required_name\<close>).
\<close>

definition names_match :: "string \<Rightarrow> string \<Rightarrow> bool" where
  "names_match a b \<longleftrightarrow> overlap_names (normalize a) (normalize b)"

definition is_must_visit :: "string \<Rightarrow> trip_spec \<Rightarrow> bool" where
  "is_must_visit name trip \<longleftrightarrow>
     (\<exists>required \<in> set (must_visit trip). names_match required name)"

lemma names_match_refl [simp]: "names_match a a"
  by (simp add: names_match_def)

lemma names_match_sym: "names_match a b \<longleftrightarrow> names_match b a"
  by (simp add: names_match_def overlap_names_sym)

end
