(* ===== verification/Samples.thy ===== *)
theory Samples
  imports DomainModels
begin

text \<open>
  A concrete three-day trip, places and plan: the inputs at which the witnesses of the
  component theories evaluate their theorems. Nothing here models code.
\<close>

definition at_time :: "py_date \<Rightarrow> int \<Rightarrow> int \<Rightarrow> datetime" where
  "at_time d h m = combine d ((h * 60 + m) * minute) (8 * 60 * minute)"

definition sample_coordinate :: coordinate where
  "sample_coordinate = \<lparr>longitude = 120, latitude = 30\<rparr>"

definition sample_trip :: trip_spec where
  "sample_trip = \<lparr>destination = ''Hangzhou'', start_date = 739891, end_date = 739893,
     travelers = 2,
     arrival = \<lparr>ta_name = ''East Station'', ta_at = at_time 739891 10 30,
                ta_coordinate = sample_coordinate\<rparr>,
     departure = \<lparr>ta_name = ''East Station'', ta_at = at_time 739893 19 0,
                  ta_coordinate = sample_coordinate\<rparr>,
     accommodation = None, total_budget = Some 500, interests = [''nature''], avoid = [],
     must_visit = [''L''], trip_pace = Pace_balanced, mobility = default_mobility,
     daily_start = 9 * 60 * minute, daily_end = 20 * 60 * minute\<rparr>"

definition sample_item :: "string \<Rightarrow> string \<Rightarrow> py_date \<Rightarrow> int \<Rightarrow> int \<Rightarrow> rat \<Rightarrow> plan_item" where
  "sample_item pid name d h1 h2 cost = \<lparr>item_id = Some (''item_'' @ pid), item_type = Activity,
     item_name = name, start_at = at_time d h1 0, end_at = at_time d h2 0,
     item_poi_id = Some pid, travel_from_previous_minutes = 10,
     distance_from_previous_meters = 1000, item_estimated_cost = Some cost,
     walking_distance_estimated = False, locked = False\<rparr>"

definition sample_day :: "py_date \<Rightarrow> plan_item list \<Rightarrow> day_plan" where
  "sample_day d xs = \<lparr>day_date = d, theme = ''day'', primary_area = ''lake'', items = xs,
     known_estimated_cost = 0, unknown_cost_item_count = 0, total_travel_minutes = 10,
     walking_distance_meters = 1200, fatigue_score = 0\<rparr>"

definition sample_metrics :: plan_metrics where
  "sample_metrics = \<lparr>preference_match = 1, diversity = 1, m_data_confidence = 1,
     m_total_travel_minutes = 10, m_walking_distance_meters = 1200, m_known_estimated_cost = 0,
     m_unknown_cost_item_count = 0, m_fatigue_score = 0\<rparr>"

definition sample_candidate :: "day_plan list \<Rightarrow> plan_candidate" where
  "sample_candidate ds = \<lparr>cand_id = ''balanced-r0'', cand_style = Style_balanced, days = ds,
     metrics = sample_metrics, validation = None, score = None, reason_facts = [],
     cand_assumptions = []\<rparr>"

definition sample_facts :: "string \<Rightarrow> string \<Rightarrow> poi_facts" where
  "sample_facts pid name = \<lparr>f_id = pid, f_name = name, f_city = ''Hangzhou'',
     f_coordinate = sample_coordinate, f_categories = [''nature''],
     f_opening_windows_by_weekday = [], f_today_opening_window = None,
     f_today_opening_date = None, f_average_cost_per_person = None,
     f_suggested_duration_minutes = None, f_provider = ''mock'',
     f_fetched_at = at_time 739891 0 0, f_data_confidence = 1, f_field_sources = []\<rparr>"

definition sample_poi :: "string \<Rightarrow> string \<Rightarrow> planning_poi" where
  "sample_poi pid name = \<lparr>facts = sample_facts pid name,
     opening_windows = map (\<lambda>d. (d, \<lparr>tw_start = 8 * 60 * minute, tw_end = 18 * 60 * minute\<rparr>))
                         [739891, 739892, 739893],
     duration_minutes = 120, party_cost = Some 50, poi_assumptions = [], field_sources = [],
     opening_window_sources = map (\<lambda>d. (d, Provider)) [739891, 739892, 739893],
     data_confidence = 1\<rparr>"

definition sample_plan :: plan_candidate where
  "sample_plan = sample_candidate
     [sample_day 739891 [sample_item ''p1'' ''Lt'' 739891 12 14 50],
      sample_day 739892 [sample_item ''p2'' ''Su'' 739892 14 16 0,
                         sample_item ''p3'' ''Mu'' 739892 10 12 20]]"

definition sample_pois :: "planning_poi list" where
  "sample_pois = [sample_poi ''p1'' ''Lt'', sample_poi ''p2'' ''Su'',
     sample_poi ''p3'' ''Mu'']"

lemmas sample_defs = at_time_def sample_coordinate_def sample_trip_def sample_item_def
  sample_day_def sample_metrics_def sample_candidate_def sample_facts_def sample_poi_def
  sample_plan_def sample_pois_def default_mobility_def minute_def

lemma sample_plan_ok: "candidate_ok sample_plan"
  by (simp add: candidate_ok_def all_items_def plan_item_ok_def plan_item_fields_ok_def
      validate_time_order_def sample_defs instant_def combine_def day_us_def)

end
