(* ===== verification/PlanValidator.thy ===== *)
theory PlanValidator
  imports Samples
begin

text \<open>
  \<open>planning/validator.py\<close>: the deterministic hard validation of a candidate plan. The
  loops over days and items are recursions that return the violations in the order the
  code appends them, together with the flag for unverified opening hours. The abstract
  specification \<open>plan_feasible\<close> says what a deliverable plan is, with pairwise disjoint
  items instead of the code's comparison of neighbours in start order.
\<close>

section \<open>The validator\<close>

datatype any_poi = Legacy_poi poi | Planning_poi planning_poi

fun any_poi_id :: "any_poi \<Rightarrow> string" where
  "any_poi_id (Legacy_poi p) = p_id p"
| "any_poi_id (Planning_poi p) = poi_id_of p"

fun any_poi_name :: "any_poi \<Rightarrow> string" where
  "any_poi_name (Legacy_poi p) = p_name p"
| "any_poi_name (Planning_poi p) = poi_name_of p"

fun opening_window_for_day :: "any_poi \<Rightarrow> py_date \<Rightarrow> time_window option \<times> value_source" where
  "opening_window_for_day (Legacy_poi p) day = (Some (p_opening_window p), Provider)"
| "opening_window_for_day (Planning_poi p) day =
     (map_of (opening_windows p) day,
      (case map_of (opening_window_sources p) day of None \<Rightarrow> Default | Some s \<Rightarrow> s))"

definition assumption_warning_table :: "(string \<times> string \<times> message) list" where
  "assumption_warning_table =
     [(''opening_window'', ''opening_hours_unverified'', M_opening_window_default),
      (''duration_minutes'', ''duration_unverified'', M_duration_default),
      (''walking_distance'', ''walking_distance_estimated'', M_walking_estimated),
      (''walking_distance_meters'', ''walking_distance_estimated'', M_walking_estimated),
      (''party_cost'', ''cost_unverified'', M_cost_unknown)]"

definition warning_for_field :: "string \<Rightarrow> string \<times> message" where
  "warning_for_field f = (case map_of assumption_warning_table f of
     Some tm \<Rightarrow> tm | None \<Rightarrow> (f @ ''_unverified'', M_field_default f))"

definition mk_warning :: "string \<Rightarrow> message \<Rightarrow> violation" where
  "mk_warning t m = \<lparr>v_type = t, severity = Warning, v_message = m, v_day = None,
     entity_ids = [], repair_hint = None\<rparr>"

definition setdefault :: "'k \<Rightarrow> 'v \<Rightarrow> ('k \<times> 'v) list \<Rightarrow> ('k \<times> 'v) list" where
  "setdefault k v d = (if map_of d k = None then d @ [(k, v)] else d)"

fun collect_warnings ::
  "planning_assumption list \<Rightarrow> (string \<times> violation) list \<Rightarrow> (string \<times> violation) list" where
  "collect_warnings [] d = d"
| "collect_warnings (a # as) d =
     (if a_source a \<noteq> Default then collect_warnings as d
      else case warning_for_field (a_field a) of (t, m) \<Rightarrow>
             collect_warnings as (setdefault t (mk_warning t m) d))"

definition assumption_warnings :: "plan_candidate \<Rightarrow> bool \<Rightarrow> violation list" where
  "assumption_warnings c opening_hours_unverified =
     (let d = collect_warnings (cand_assumptions c) [];
          d' = (if opening_hours_unverified
                then setdefault ''opening_hours_unverified''
                       (mk_warning ''opening_hours_unverified'' M_opening_hours_some_default) d
                else d)
      in map snd (sort_key fst d'))"

definition truthy_ids :: "string option \<Rightarrow> string list" where
  "truthy_ids x = (case x of Some (c # cs) \<Rightarrow> [c # cs] | _ \<Rightarrow> [])"

definition day_error :: "string \<Rightarrow> py_date \<Rightarrow> string list \<Rightarrow> message \<Rightarrow> hint option \<Rightarrow> violation" where
  "day_error t d ids m h = \<lparr>v_type = t, severity = Error, v_message = m, v_day = Some d,
     entity_ids = ids, repair_hint = h\<rparr>"

definition plan_error :: "string \<Rightarrow> message \<Rightarrow> hint option \<Rightarrow> violation" where
  "plan_error t m h = \<lparr>v_type = t, severity = Error, v_message = m, v_day = None,
     entity_ids = [], repair_hint = h\<rparr>"

definition overlap_check :: "py_date \<Rightarrow> plan_item option \<Rightarrow> plan_item \<Rightarrow> violation list" where
  "overlap_check d previous item =
     (case previous of
        None \<Rightarrow> []
      | Some p \<Rightarrow>
          if instant (start_at item) < instant (end_at p)
          then [day_error ''time_overlap'' d (truthy_ids (item_poi_id p) @ truthy_ids (item_poi_id item))
                  (M_time_overlap (item_name p) (item_name item)) (Some H_reorder_or_reduce)]
          else [])"

definition daily_window_check :: "trip_spec \<Rightarrow> py_date \<Rightarrow> plan_item \<Rightarrow> violation list" where
  "daily_window_check trip d item =
     (if item_type item = Activity then
        let z = dt_tz (ta_at (arrival trip));
            lo = combine d (daily_start trip) z; hi = combine d (daily_end trip) z;
            s = astimezone (start_at item) z; e = astimezone (end_at item) z
        in if instant s < instant lo \<or> instant e > instant hi
           then [day_error ''outside_daily_window'' d (truthy_ids (item_poi_id item))
                   (M_outside_daily_window (item_name item)) (Some H_adjust_time_or_day)]
           else []
      else [])"

definition buffer_checks :: "trip_spec \<Rightarrow> py_date \<Rightarrow> plan_item \<Rightarrow> violation list" where
  "buffer_checks trip d item =
     (let arrival_buffer = dt_add (ta_at (arrival trip)) (60 * minute);
          departure_buffer = dt_add (ta_at (departure trip)) (- 90 * minute)
      in (if d = date_of (ta_at (arrival trip)) \<and> instant (start_at item) < instant arrival_buffer
          then [day_error ''arrival_buffer'' d (truthy_ids (item_poi_id item))
                  (M_arrival_buffer (item_name item)) None] else [])
       @ (if d = date_of (ta_at (departure trip)) \<and> instant (end_at item) > instant departure_buffer
          then [day_error ''departure_buffer'' d (truthy_ids (item_poi_id item))
                  (M_departure_buffer (item_name item)) None] else []))"

text \<open>The opening-hours check also says whether the hours were not provider-verified.\<close>

definition opening_check ::
  "(string \<times> any_poi) list \<Rightarrow> py_date \<Rightarrow> plan_item \<Rightarrow> violation list \<times> bool" where
  "opening_check poi_by_id d item =
     (case truthy_ids (item_poi_id item) of
        [] \<Rightarrow> ([], False)
      | pid # _ \<Rightarrow>
          (case map_of poi_by_id pid of
             None \<Rightarrow> ([], False)
           | Some p \<Rightarrow>
               (case opening_window_for_day p d of (w, src) \<Rightarrow>
                  if src \<noteq> Provider then ([], True)
                  else case w of
                    None \<Rightarrow> ([], False)
                  | Some win \<Rightarrow>
                      let z = dt_tz (start_at item);
                          opening = combine d (tw_start win) z;
                          closing = combine d (tw_end win) z
                      in ((if instant (start_at item) < instant opening
                              \<or> instant (end_at item) > instant closing
                           then [day_error ''outside_opening_hours'' d [any_poi_id p]
                                   (M_outside_opening_hours (any_poi_name p))
                                   (Some H_adjust_time_or_day)]
                           else []), False))))"

fun item_loop ::
  "trip_spec \<Rightarrow> (string \<times> any_poi) list \<Rightarrow> py_date \<Rightarrow> plan_item option \<Rightarrow> plan_item list
     \<Rightarrow> violation list \<times> bool" where
  "item_loop trip ps d previous [] = ([], False)"
| "item_loop trip ps d previous (item # rest) =
     (case opening_check ps d item of (ov, ou) \<Rightarrow>
      case item_loop trip ps d (Some item) rest of (vs, u) \<Rightarrow>
        (overlap_check d previous item @ daily_window_check trip d item
           @ buffer_checks trip d item @ ov @ vs, ou \<or> u))"

definition item_minutes :: "plan_item \<Rightarrow> int" where
  "item_minutes i = (instant (end_at i) - instant (start_at i)) div minute"

definition activity_minutes :: "plan_item list \<Rightarrow> int" where
  "activity_minutes xs = (\<Sum>i \<leftarrow> filter (\<lambda>i. item_type i = Activity) xs. item_minutes i)"

definition day_limits :: "trip_spec \<Rightarrow> day_plan \<Rightarrow> plan_item list \<Rightarrow> violation list" where
  "day_limits trip day ordered =
     (let m = mobility trip; am = activity_minutes ordered
      in (if walking_distance_meters day > max_daily_walking_meters m
          then [day_error ''walking_limit'' (day_date day) []
                 (M_walking_limit (walking_distance_meters day) (max_daily_walking_meters m))
                 (Some H_fewer_cross_area)] else [])
       @ (if am > max_daily_activity_minutes m
          then [day_error ''activity_time_limit'' (day_date day) []
                 (M_activity_time_limit am (max_daily_activity_minutes m))
                 (Some H_reduce_or_move)] else []))"

definition day_check ::
  "trip_spec \<Rightarrow> (string \<times> any_poi) list \<Rightarrow> day_plan \<Rightarrow> violation list \<times> bool" where
  "day_check trip ps day =
     (let ordered = sort_key (\<lambda>i. instant (start_at i)) (items day)
      in case item_loop trip ps (day_date day) None ordered of (vs, u) \<Rightarrow>
           (vs @ day_limits trip day ordered, u))"

fun day_loop ::
  "trip_spec \<Rightarrow> (string \<times> any_poi) list \<Rightarrow> day_plan list \<Rightarrow> violation list \<times> bool" where
  "day_loop trip ps [] = ([], False)"
| "day_loop trip ps (d # ds) =
     (case day_check trip ps d of (vs, u) \<Rightarrow>
      case day_loop trip ps ds of (vs', u') \<Rightarrow> (vs @ vs', u \<or> u'))"

definition activities :: "plan_candidate \<Rightarrow> plan_item list" where
  "activities c = filter (\<lambda>i. item_type i = Activity) (all_items c)"

definition coverage_checks :: "trip_spec \<Rightarrow> plan_candidate \<Rightarrow> violation list" where
  "coverage_checks trip c =
     (if activities c = [] then [plan_error ''empty_plan'' M_empty_plan
        (Some H_more_time_budget_or_places)] else [])
     @ concat (map (\<lambda>required.
         if \<exists>i \<in> set (activities c). overlap_names (normalize required) (normalize (item_name i))
         then [] else [plan_error ''missing_must_visit'' (M_missing_must_visit required)
                         (Some H_relax_daily_limit)]) (must_visit trip))"

definition known_cost :: "plan_item list \<Rightarrow> rat" where
  "known_cost xs = (\<Sum>x \<leftarrow> xs. case item_estimated_cost x of None \<Rightarrow> 0 | Some c \<Rightarrow> c)"

definition unknown_cost_count :: "plan_item list \<Rightarrow> int" where
  "unknown_cost_count xs = int (length (filter (\<lambda>x. item_estimated_cost x = None) xs))"

definition budget_checks :: "trip_spec \<Rightarrow> plan_candidate \<Rightarrow> violation list" where
  "budget_checks trip c =
     (case total_budget trip of
        None \<Rightarrow> []
      | Some b \<Rightarrow>
          let known = known_cost (all_items c); unknown = unknown_cost_count (all_items c)
          in (if unknown \<noteq> 0
              then [\<lparr>v_type = ''budget_unverified'', severity = Warning,
                     v_message = M_budget_unverified unknown known b, v_day = None,
                     entity_ids = [], repair_hint = Some H_complete_costs\<rparr>] else [])
           @ (if known > b then [plan_error ''budget_exceeded'' (M_budget_exceeded known b)
                                   (Some H_cheaper_or_more_budget)] else []))"

definition validate_candidate ::
  "trip_spec \<Rightarrow> plan_candidate \<Rightarrow> any_poi list \<Rightarrow> validation_result" where
  "validate_candidate trip c pois =
     (let poi_by_id = dict_of (map (\<lambda>p. (any_poi_id p, p)) pois)
      in case day_loop trip poi_by_id (days c) of (dvs, unverified) \<Rightarrow>
           from_violations (coverage_checks trip c @ dvs @ budget_checks trip c
             @ assumption_warnings c unverified))"

section \<open>What a feasible plan is\<close>

definition items_disjoint :: "plan_item \<Rightarrow> plan_item \<Rightarrow> bool" where
  "items_disjoint a b \<longleftrightarrow>
     instant (end_at a) \<le> instant (start_at b) \<or> instant (end_at b) \<le> instant (start_at a)"

definition in_opening_hours :: "any_poi list \<Rightarrow> py_date \<Rightarrow> plan_item \<Rightarrow> bool" where
  "in_opening_hours pois d i \<longleftrightarrow>
     (\<forall>pid p w. item_poi_id i = Some pid \<longrightarrow> pid \<noteq> [] \<longrightarrow>
        map_of (rev (map (\<lambda>p. (any_poi_id p, p)) pois)) pid = Some p \<longrightarrow>
        opening_window_for_day p d = (Some w, Provider) \<longrightarrow>
        d * day_us + tw_start w - dt_tz (start_at i) \<le> instant (start_at i) \<and>
        instant (end_at i) \<le> d * day_us + tw_end w - dt_tz (start_at i))"

definition item_feasible :: "trip_spec \<Rightarrow> any_poi list \<Rightarrow> py_date \<Rightarrow> plan_item \<Rightarrow> bool" where
  "item_feasible trip pois d i \<longleftrightarrow>
     (let z = dt_tz (ta_at (arrival trip)) in
      (item_type i = Activity \<longrightarrow>
         d * day_us + daily_start trip - z \<le> instant (start_at i) \<and>
         instant (end_at i) \<le> d * day_us + daily_end trip - z) \<and>
      (d = date_of (ta_at (arrival trip)) \<longrightarrow>
         instant (ta_at (arrival trip)) + 60 * minute \<le> instant (start_at i)) \<and>
      (d = date_of (ta_at (departure trip)) \<longrightarrow>
         instant (end_at i) \<le> instant (ta_at (departure trip)) - 90 * minute) \<and>
      in_opening_hours pois d i)"

definition day_feasible :: "trip_spec \<Rightarrow> any_poi list \<Rightarrow> day_plan \<Rightarrow> bool" where
  "day_feasible trip pois day \<longleftrightarrow>
     (\<forall>i \<in> set (items day). item_feasible trip pois (day_date day) i) \<and>
     (\<forall>a b. {#a, b#} \<subseteq># mset (items day) \<longrightarrow> items_disjoint a b) \<and>
     walking_distance_meters day \<le> max_daily_walking_meters (mobility trip) \<and>
     activity_minutes (items day) \<le> max_daily_activity_minutes (mobility trip)"

definition plan_feasible :: "trip_spec \<Rightarrow> any_poi list \<Rightarrow> plan_candidate \<Rightarrow> bool" where
  "plan_feasible trip pois c \<longleftrightarrow>
     activities c \<noteq> [] \<and>
     (\<forall>required \<in> set (must_visit trip). \<exists>i \<in> set (activities c). names_match required (item_name i)) \<and>
     (\<forall>day \<in> set (days c). day_feasible trip pois day) \<and>
     (\<forall>b. total_budget trip = Some b \<longrightarrow> known_cost (all_items c) \<le> b)"

section \<open>Correctness of the checks\<close>

abbreviation error_free :: "violation list \<Rightarrow> bool" where
  "error_free vs \<equiv> \<forall>v \<in> set vs. severity v \<noteq> Error"

lemma mk_severity [simp]:
  "severity (day_error t d ids m h) = Error"
  "severity (plan_error t m h) = Error"
  "severity (mk_warning t m) = Warning"
  by (simp_all add: day_error_def plan_error_def mk_warning_def)

definition item_checks_ok :: "trip_spec \<Rightarrow> (string \<times> any_poi) list \<Rightarrow> py_date \<Rightarrow> plan_item \<Rightarrow> bool" where
  "item_checks_ok trip ps d i \<longleftrightarrow> error_free (daily_window_check trip d i) \<and>
     error_free (buffer_checks trip d i) \<and> error_free (fst (opening_check ps d i))"

lemma overlap_check_ok:
  "error_free (overlap_check d p i) \<longleftrightarrow>
     (case p of None \<Rightarrow> True | Some q \<Rightarrow> instant (end_at q) \<le> instant (start_at i))"
  by (simp add: overlap_check_def not_less split: option.splits)

lemma daily_window_check_ok:
  "error_free (daily_window_check trip d i) \<longleftrightarrow> (item_type i = Activity \<longrightarrow>
     d * day_us + daily_start trip - dt_tz (ta_at (arrival trip)) \<le> instant (start_at i) \<and>
     instant (end_at i) \<le> d * day_us + daily_end trip - dt_tz (ta_at (arrival trip)))"
  by (auto simp: daily_window_check_def Let_def)

lemma buffer_checks_ok:
  "error_free (buffer_checks trip d i) \<longleftrightarrow>
     (d = date_of (ta_at (arrival trip)) \<longrightarrow>
        instant (ta_at (arrival trip)) + 60 * minute \<le> instant (start_at i)) \<and>
     (d = date_of (ta_at (departure trip)) \<longrightarrow>
        instant (end_at i) \<le> instant (ta_at (departure trip)) - 90 * minute)"
  unfolding buffer_checks_def Let_def ball_report_simps by (simp add: not_less)

lemma truthy_ids_Cons: "truthy_ids x = pid # rest \<longleftrightarrow> x = Some pid \<and> pid \<noteq> [] \<and> rest = []"
  by (auto simp: truthy_ids_def split: option.splits list.splits)

lemma truthy_ids_Nil: "truthy_ids x = [] \<longleftrightarrow> x = None \<or> x = Some []"
  by (auto simp: truthy_ids_def split: option.splits list.splits)

lemma opening_check_ok:
  "error_free (fst (opening_check (dict_of (map (\<lambda>p. (any_poi_id p, p)) pois)) d i))
     \<longleftrightarrow> in_opening_hours pois d i"
proof (cases "truthy_ids (item_poi_id i)")
  case Nil
  then have "item_poi_id i = None \<or> item_poi_id i = Some []" by (simp add: truthy_ids_Nil)
  then show ?thesis
    by (auto simp: opening_check_def in_opening_hours_def truthy_ids_def)
next
  case (Cons pid rest)
  then have i: "item_poi_id i = Some pid" "pid \<noteq> []" by (simp_all add: truthy_ids_Cons)
  show ?thesis
  proof (cases "map_of (rev (map (\<lambda>p. (any_poi_id p, p)) pois)) pid")
    case None
    then show ?thesis
      using Cons i by (simp add: opening_check_def in_opening_hours_def map_of_dict_of)
  next
    case (Some p)
    obtain w src where "opening_window_for_day p d = (w, src)" by fastforce
    with Some Cons i show ?thesis
      by (cases w) (auto simp: opening_check_def in_opening_hours_def map_of_dict_of Let_def)
  qed
qed

lemma item_loop_ok:
  "error_free (fst (item_loop trip ps d p xs)) \<longleftrightarrow>
     (\<forall>i \<in> set xs. item_checks_ok trip ps d i) \<and>
     successively (\<lambda>a b. instant (end_at a) \<le> instant (start_at b))
       ((case p of None \<Rightarrow> [] | Some q \<Rightarrow> [q]) @ xs)"
proof (induction xs arbitrary: p)
  case Nil
  then show ?case by (simp split: option.splits)
next
  case (Cons x xs)
  have "error_free (fst (item_loop trip ps d p (x # xs))) \<longleftrightarrow>
      error_free (overlap_check d p x) \<and> item_checks_ok trip ps d x \<and>
      error_free (fst (item_loop trip ps d (Some x) xs))"
    by (auto simp: item_checks_ok_def ball_Un split: prod.splits)
  with Cons.IH [of "Some x"] show ?case
    unfolding overlap_check_ok by (cases p) auto
qed

lemma neighbours_disjoint_iff:
  assumes "\<forall>i \<in> set xs. instant (start_at i) < instant (end_at i)"
    and "sorted (map (\<lambda>i. instant (start_at i)) xs)"
  shows "successively (\<lambda>a b. instant (end_at a) \<le> instant (start_at b)) xs
     \<longleftrightarrow> sorted_wrt items_disjoint xs"
proof
  assume s: "successively (\<lambda>a b. instant (end_at a) \<le> instant (start_at b)) xs"
  have "sorted_wrt (\<lambda>a b. instant (end_at a) \<le> instant (start_at b)) xs"
    by (rule iffD1 [OF successively_iff_sorted_wrt_strong s])
      (use assms(1) in \<open>meson order_trans less_imp_le\<close>)
  then show "sorted_wrt items_disjoint xs"
    by (rule sorted_wrt_mono_rel [rotated]) (simp add: items_disjoint_def)
next
  assume "sorted_wrt items_disjoint xs"
  moreover have "sorted_wrt (\<lambda>a b. instant (start_at a) \<le> instant (start_at b)) xs"
    using assms(2) by (simp add: sorted_map)
  ultimately show "successively (\<lambda>a b. instant (end_at a) \<le> instant (start_at b)) xs"
    using assms(1)
  proof (induction xs)
    case (Cons x xs)
    then have IH: "successively (\<lambda>a b. instant (end_at a) \<le> instant (start_at b)) xs" by simp
    show ?case
    proof (cases xs)
      case (Cons y ys)
      then have "items_disjoint x y" "instant (start_at x) \<le> instant (start_at y)"
        "instant (start_at y) < instant (end_at y)"
        using Cons.prems \<open>xs = y # ys\<close> by auto
      then show ?thesis using IH Cons by (auto simp: items_disjoint_def)
    qed simp
  qed simp
qed

lemma activity_minutes_mset: "mset xs = mset ys \<Longrightarrow> activity_minutes xs = activity_minutes ys"
  by (simp add: activity_minutes_def flip: sum_mset_sum_list)

lemma day_check_ok:
  assumes "\<forall>i \<in> set (items day). plan_item_ok i"
  shows "error_free (fst (day_check trip (dict_of (map (\<lambda>p. (any_poi_id p, p)) pois)) day))
     \<longleftrightarrow> day_feasible trip pois day"
proof -
  let ?xs = "sort_key (\<lambda>i. instant (start_at i)) (items day)"
  let ?ps = "dict_of (map (\<lambda>p. (any_poi_id p, p)) pois)"
  have "item_checks_ok trip ?ps (day_date day) i \<longleftrightarrow> item_feasible trip pois (day_date day) i" for i
    by (simp add: item_checks_ok_def item_feasible_def daily_window_check_ok buffer_checks_ok
        opening_check_ok Let_def)
  moreover have "successively (\<lambda>a b. instant (end_at a) \<le> instant (start_at b)) ?xs
      \<longleftrightarrow> (\<forall>a b. {#a, b#} \<subseteq># mset (items day) \<longrightarrow> items_disjoint a b)"
    using neighbours_disjoint_iff [of ?xs] sorted_wrt_pairs [of items_disjoint ?xs] assms
    by (auto simp: plan_item_ok_order items_disjoint_def)
  moreover have "activity_minutes ?xs = activity_minutes (items day)"
    by (rule activity_minutes_mset) simp
  ultimately show ?thesis
    by (auto simp: day_check_def day_feasible_def item_loop_ok day_limits_def Let_def ball_Un
        split: prod.splits)
qed

lemma day_loop_ok:
  "error_free (fst (day_loop trip ps ds)) \<longleftrightarrow> (\<forall>d \<in> set ds. error_free (fst (day_check trip ps d)))"
  by (induction ds) (auto split: prod.splits)

lemma coverage_checks_ok:
  "error_free (coverage_checks trip c) \<longleftrightarrow> activities c \<noteq> [] \<and>
     (\<forall>required \<in> set (must_visit trip). \<exists>i \<in> set (activities c). names_match required (item_name i))"
  unfolding coverage_checks_def ball_report_simps by (simp add: names_match_def)

lemma budget_checks_ok:
  "error_free (budget_checks trip c) \<longleftrightarrow>
     (\<forall>b. total_budget trip = Some b \<longrightarrow> known_cost (all_items c) \<le> b)"
proof (cases "total_budget trip")
  case (Some b)
  then show ?thesis
    by (simp only: budget_checks_def Let_def option.case ball_report_simps) (simp add: not_less)
qed (simp add: budget_checks_def)

lemma collect_warnings_invariant:
  assumes "P d" and "\<And>t m d. P d \<Longrightarrow> P (setdefault t (mk_warning t m) d)"
  shows "P (collect_warnings as d)"
  using assms(1)
proof (induction as arbitrary: d)
  case (Cons a as)
  then show ?case
    by (cases "warning_for_field (a_field a)") (simp add: assms(2))
qed simp

lemma set_setdefault: "set (setdefault k v d) \<subseteq> insert (k, v) (set d)"
  by (auto simp: setdefault_def)

lemma collect_warnings_error_free:
  "\<forall>v \<in> snd ` set (collect_warnings as []). severity v = Warning"
  by (rule collect_warnings_invariant) (use set_setdefault in fastforce)+

lemma assumption_warnings_error_free: "error_free (assumption_warnings c u)"
  using collect_warnings_error_free [of "cand_assumptions c"]
  by (auto simp: assumption_warnings_def setdefault_def Let_def split: if_splits)

section \<open>Properties\<close>

text \<open>
  C3. The validator decides feasibility: a plan of well-formed items validates without an
  error exactly when it has an activity, covers every must-visit name, keeps every item in
  the daily, buffer and provider-verified opening windows, has pairwise disjoint items on
  every day, and respects the walking, activity-time and budget limits.
\<close>

theorem validate_candidate_iff_feasible:
  assumes "candidate_ok c"
  shows "is_valid (validate_candidate trip c pois) \<longleftrightarrow> plan_feasible trip pois c"
proof -
  let ?ps = "dict_of (map (\<lambda>p. (any_poi_id p, p)) pois)"
  have "error_free (fst (day_check trip ?ps d)) \<longleftrightarrow> day_feasible trip pois d" if "d \<in> set (days c)" for d
    using that assms by (intro day_check_ok) (auto simp: candidate_ok_def set_all_items)
  then have "error_free (fst (day_loop trip ?ps (days c))) \<longleftrightarrow> (\<forall>d \<in> set (days c). day_feasible trip pois d)"
    by (simp add: day_loop_ok)
  then show ?thesis
    using coverage_checks_ok [of trip c] budget_checks_ok [of trip c] assumption_warnings_error_free
    by (auto simp: validate_candidate_def plan_feasible_def ball_Un split: prod.splits)
qed

theorem validate_candidate_iff_feasible_witness:
  "is_valid (validate_candidate sample_trip sample_plan (map Planning_poi sample_pois)) \<longleftrightarrow>
   plan_feasible sample_trip (map Planning_poi sample_pois) sample_plan"
  by (rule validate_candidate_iff_feasible [OF sample_plan_ok])

text \<open>The warnings of one validation name each problem once, in order of their type.\<close>

lemma setdefault_keys:
  "distinct (map fst d) \<Longrightarrow> distinct (map fst (setdefault k v d))"
  by (auto simp: setdefault_def map_of_eq_None_iff)

lemma collect_warnings_dict:
  "distinct (map fst (collect_warnings as [])) \<and>
   (\<forall>(k, v) \<in> set (collect_warnings as []). v_type v = k)"
  by (rule collect_warnings_invariant)
    (use set_setdefault in \<open>fastforce simp: setdefault_keys mk_warning_def\<close>)+

text \<open>
  Defaulted facts are reported once per kind: the assumption warnings of a validation
  are strictly increasing in their type, so no two warn of the same thing, and none of
  them makes the plan invalid.
\<close>

lemma assumption_warnings_sorted_distinct:
  "sorted (map v_type (assumption_warnings c u)) \<and> distinct (map v_type (assumption_warnings c u)) \<and>
   set (assumption_warnings c u) \<subseteq> {v. severity v = Warning}"
proof -
  let ?t = "''opening_hours_unverified''"
  let ?d = "collect_warnings (cand_assumptions c) []"
  define d' where "d' = (if u then setdefault ?t (mk_warning ?t M_opening_hours_some_default) ?d else ?d)"
  have "distinct (map fst ?d) \<and> (\<forall>(k, v) \<in> set ?d. v_type v = k)"
    by (rule collect_warnings_dict)
  then have d': "distinct (map fst d')" "\<forall>(k, v) \<in> set d'. v_type v = k"
    by (auto simp: d'_def setdefault_keys) (auto simp: setdefault_def mk_warning_def split: if_splits)
  have "map v_type (assumption_warnings c u) = map fst (sort_key fst d')"
    using d'(2) by (auto simp: assumption_warnings_def d'_def [symmetric] Let_def)
  moreover have "distinct (map fst (sort_key fst d'))"
    using d'(1) by (metis mset_eq_imp_distinct_iff mset_map mset_sort)
  moreover have "set (assumption_warnings c u) \<subseteq> {v. severity v = Warning}"
    using assumption_warnings_error_free [of c u] violation_severity.exhaust by blast
  ultimately show ?thesis by simp
qed

end
