(* ===== verification/PlanDrafts.thy ===== *)
theory PlanDrafts
  imports Samples
begin

text \<open>
  \<open>planning/routing.py\<close>, \<open>planning/drafts.py\<close> and \<open>planning/impact.py\<close>: the great-circle
  distance, the selection and ordering of places into candidate drafts, the collection of
  route queries, and the route delta between two drafts. \<open>haversine_distance_meters\<close> is
  a real function; the operations that call it take the distance as their argument
  \<open>metres\<close>, and the code's instance is \<open>haversine_distance_meters\<close>.
\<close>

section \<open>Distances\<close>

definition radians :: "rat \<Rightarrow> real" where
  "radians x = real_of_rat x * pi / 180"

definition haversine_distance_meters :: "coordinate \<Rightarrow> coordinate \<Rightarrow> int" where
  "haversine_distance_meters a b =
     (let lat1 = radians (latitude a); lat2 = radians (latitude b);
          delta_lat = lat2 - lat1;
          delta_lon = radians (longitude b - longitude a);
          value = (sin (delta_lat / 2))\<^sup>2 + cos lat1 * cos lat2 * (sin (delta_lon / 2))\<^sup>2
      in py_round (2 * 6371000 * arcsin (sqrt value)))"

definition estimate_route :: "(coordinate \<Rightarrow> coordinate \<Rightarrow> int) \<Rightarrow> coordinate \<Rightarrow> coordinate \<Rightarrow> int \<times> int \<times> int" where
  "estimate_route metres a b =
     (let road = py_round (of_int (metres a b) * (5 / 4) :: rat);
          travel = max 8 (py_round (of_int road / 22000 * 60 + 5 :: rat));
          walking = min (py_round (of_int road * (12 / 100) :: rat)) 2000
      in (road, travel, walking))"

section \<open>Drafts\<close>

record draft_day =
  dd_date :: py_date
  poi_ids :: "string list"

record candidate_draft =
  draft_id :: string
  draft_style :: plan_style
  draft_days :: "draft_day list"

fun style_activity_limit :: "plan_style \<Rightarrow> int" where
  "style_activity_limit Style_relaxed = 2"
| "style_activity_limit Style_balanced = 3"
| "style_activity_limit Style_exploration = 4"

text \<open>The category "shi lao" (suitable for the elderly), U+9002 U+8001.\<close>

definition senior_friendly :: string where
  "senior_friendly = [CHR 0xE9, CHR 0x80, CHR 0x82, CHR 0xE8, CHR 0x80, CHR 0x81]"

definition poi_preference_score :: "planning_poi \<Rightarrow> trip_spec \<Rightarrow> int \<Rightarrow> rat" where
  "poi_preference_score p trip replan_round =
     (let liked = set (map normalize (interests trip));
          disliked = set (map normalize (avoid trip));
          cats = set (map normalize (f_categories (facts p)))
      in 1 + 4 * of_nat (card (liked \<inter> cats)) - 5 * of_nat (card (disliked \<inter> cats))
         + (if is_must_visit (poi_name_of p) trip then 100 else 0)
         + (if needs_frequent_rest (mobility trip) \<and> senior_friendly \<in> cats then 2 else 0)
         - (if replan_round \<noteq> 0 then
              (case party_cost p of None \<Rightarrow> 0 | Some c \<Rightarrow> c / 100 * of_int replan_round)
            else 0))"

definition rank_key :: "trip_spec \<Rightarrow> int \<Rightarrow> planning_poi \<Rightarrow> rat \<times> rat \<times> (nat \<times> rat) \<times> string" where
  "rank_key trip replan_round p =
     (- poi_preference_score p trip replan_round, - data_confidence p,
      (case party_cost p of Some c \<Rightarrow> (0, c) | None \<Rightarrow> (1, 0)), poi_id_of p)"

definition per_day_limit :: "plan_style \<Rightarrow> int \<Rightarrow> int" where
  "per_day_limit style replan_round = max 1 (style_activity_limit style - replan_round)"

definition select_pois ::
  "trip_spec \<Rightarrow> planning_poi list \<Rightarrow> plan_style \<Rightarrow> int \<Rightarrow> planning_poi list" where
  "select_pois trip pois style replan_round =
     (let total = min (int (length pois)) (day_count trip * per_day_limit style replan_round)
      in take (nat total) (sort_key (rank_key trip replan_round) pois))"

function nearest_chain ::
  "(coordinate \<Rightarrow> coordinate \<Rightarrow> int) \<Rightarrow> coordinate \<Rightarrow> planning_poi list
     \<Rightarrow> planning_poi list \<times> coordinate" where
  "nearest_chain metres current [] = ([], current)"
| "nearest_chain metres current (p # ps) =
     (let next_poi = min_by (\<lambda>q. (metres current (f_coordinate (facts q)), poi_id_of q)) p ps;
          (rest, last_coordinate) =
            nearest_chain metres (f_coordinate (facts next_poi)) (remove1 next_poi (p # ps))
      in (next_poi # rest, last_coordinate))"
  by pat_completeness auto
termination
proof (relation "measure (\<lambda>(_, _, ps). length ps)")
  fix metres :: "coordinate \<Rightarrow> coordinate \<Rightarrow> int" and current p ps x
  assume "x = min_by (\<lambda>q. (metres current (f_coordinate (facts q)), poi_id_of q)) p ps"
  then have "x \<in> set (p # ps)" by (simp only: min_by_in)
  then show "((metres, f_coordinate (facts x), remove1 x (p # ps)), (metres, current, p # ps))
      \<in> measure (\<lambda>(_, _, ps). length ps)"
    by (auto simp: length_remove1 dest: length_pos_if_in_set)
qed auto

declare nearest_chain.simps [simp del]

definition order_nearest ::
  "(coordinate \<Rightarrow> coordinate \<Rightarrow> int) \<Rightarrow> coordinate \<Rightarrow> planning_poi list \<Rightarrow> trip_spec
     \<Rightarrow> planning_poi list" where
  "order_nearest metres start pois trip =
     (let required = filter (\<lambda>p. is_must_visit (poi_name_of p) trip) pois;
          optional = filter (\<lambda>p. \<not> is_must_visit (poi_name_of p) trip) pois;
          (first, current) = nearest_chain metres start required
      in first @ fst (nearest_chain metres current optional))"

definition start_coordinate :: "trip_spec \<Rightarrow> coordinate" where
  "start_coordinate trip = (case accommodation trip of
     Some a \<Rightarrow> la_coordinate a | None \<Rightarrow> ta_coordinate (arrival trip))"

text \<open>The places whose position in the selection is \<open>day\<close> modulo the number of days.\<close>

definition day_bucket :: "int \<Rightarrow> planning_poi list \<Rightarrow> int \<Rightarrow> planning_poi list" where
  "day_bucket n selected day =
     map snd (filter (\<lambda>(i, _). int i mod n = day) (enumerate 0 selected))"

definition draft_for_style ::
  "(coordinate \<Rightarrow> coordinate \<Rightarrow> int) \<Rightarrow> trip_spec \<Rightarrow> planning_poi list \<Rightarrow> int \<Rightarrow> plan_style
     \<Rightarrow> candidate_draft" where
  "draft_for_style metres trip pois replan_round style =
     (let selected = select_pois trip pois style replan_round;
          n = day_count trip
      in \<lparr>draft_id = plan_style_value style @ ''-r'' @ show_int replan_round,
          draft_style = style,
          draft_days = map (\<lambda>k. \<lparr>dd_date = start_date trip + k,
              poi_ids = map poi_id_of (order_nearest metres (start_coordinate trip)
                          (day_bucket n selected k) trip)\<rparr>) [0..n - 1]\<rparr>)"

definition prepare_candidate_drafts ::
  "(coordinate \<Rightarrow> coordinate \<Rightarrow> int) \<Rightarrow> trip_spec \<Rightarrow> planning_poi list \<Rightarrow> int \<Rightarrow> candidate_draft list" where
  "prepare_candidate_drafts metres trip pois replan_round =
     map (draft_for_style metres trip pois replan_round)
       [Style_relaxed, Style_balanced, Style_exploration]"

section \<open>Route queries\<close>

datatype missing_planning_poi = Missing_planning_poi string

text \<open>The route settings every caller passes along.\<close>

record route_settings =
  rs_strategy :: int
  rs_mode :: route_mode
  rs_modes :: "route_mode list option"
  rs_max_walking_leg :: int

definition active_modes :: "route_settings \<Rightarrow> route_mode list" where
  "active_modes rs = (case rs_modes rs of Some (m # ms) \<Rightarrow> m # ms | _ \<Rightarrow> [rs_mode rs])"

type_synonym query_state = "route_query list \<times> string list"

definition leg_query ::
  "route_settings \<Rightarrow> coordinate \<Rightarrow> string option \<Rightarrow> planning_poi \<Rightarrow> route_mode \<Rightarrow> route_query" where
  "leg_query rs prev prev_id p m = \<lparr>origin = prev, rq_destination = f_coordinate (facts p),
     origin_poi_id = prev_id, destination_poi_id = Some (poi_id_of p), rq_mode = m,
     strategy = (if m = Driving then rs_strategy rs else 0)\<rparr>"

definition leg_too_far ::
  "(coordinate \<Rightarrow> coordinate \<Rightarrow> int) \<Rightarrow> route_settings \<Rightarrow> coordinate \<Rightarrow> planning_poi \<Rightarrow> route_mode \<Rightarrow> bool" where
  "leg_too_far metres rs prev p m \<longleftrightarrow> m = Walking \<and>
     (of_int (metres prev (f_coordinate (facts p))) :: rat) > of_int (rs_max_walking_leg rs) * (5 / 4)"

fun mode_loop ::
  "(coordinate \<Rightarrow> coordinate \<Rightarrow> int) \<Rightarrow> route_settings \<Rightarrow> coordinate \<Rightarrow> string option \<Rightarrow> planning_poi
     \<Rightarrow> route_mode list \<Rightarrow> query_state \<Rightarrow> query_state" where
  "mode_loop metres rs prev prev_id p [] st = st"
| "mode_loop metres rs prev prev_id p (m # ms) (queries, seen) =
     (if leg_too_far metres rs prev p m
      then mode_loop metres rs prev prev_id p ms (queries, seen)
      else
        let query = leg_query rs prev prev_id p m; key = route_key query
        in mode_loop metres rs prev prev_id p ms
             (if key \<in> set seen then (queries, seen) else (queries @ [query], key # seen)))"

fun leg_loop ::
  "(coordinate \<Rightarrow> coordinate \<Rightarrow> int) \<Rightarrow> route_settings \<Rightarrow> (string \<times> planning_poi) list \<Rightarrow> coordinate
     \<Rightarrow> string option \<Rightarrow> string list \<Rightarrow> query_state \<Rightarrow> (missing_planning_poi, query_state) result" where
  "leg_loop metres rs ps prev prev_id [] st = Inr st"
| "leg_loop metres rs ps prev prev_id (pid # pids) st =
     (case map_of ps pid of
        None \<Rightarrow> Inl (Missing_planning_poi pid)
      | Some p \<Rightarrow> leg_loop metres rs ps (f_coordinate (facts p)) (Some pid) pids
                    (mode_loop metres rs prev prev_id p (active_modes rs) st))"

definition draft_loop ::
  "(coordinate \<Rightarrow> coordinate \<Rightarrow> int) \<Rightarrow> route_settings \<Rightarrow> (string \<times> planning_poi) list \<Rightarrow> coordinate
     \<Rightarrow> candidate_draft \<Rightarrow> query_state \<Rightarrow> (missing_planning_poi, query_state) result" where
  "draft_loop metres rs ps anchor draft st =
     fold_res (\<lambda>day st. leg_loop metres rs ps anchor None (poi_ids day) st) (draft_days draft) st"

definition collect_route_queries ::
  "(coordinate \<Rightarrow> coordinate \<Rightarrow> int) \<Rightarrow> trip_spec \<Rightarrow> candidate_draft list \<Rightarrow> planning_poi list
     \<Rightarrow> route_settings \<Rightarrow> (missing_planning_poi, route_query list) result" where
  "collect_route_queries metres trip drafts pois rs =
     (let ps = dict_of (map (\<lambda>p. (poi_id_of p, p)) pois)
      in bind_res (fold_res (draft_loop metres rs ps (start_coordinate trip)) drafts ([], []))
           (\<lambda>st. Inr (fst st)))"

record route_delta =
  required_queries :: "route_query list"
  missing_queries :: "route_query list"
  reused_route_keys :: "string list"

definition collect_route_delta ::
  "(coordinate \<Rightarrow> coordinate \<Rightarrow> int) \<Rightarrow> trip_spec \<Rightarrow> candidate_draft \<Rightarrow> planning_poi list
     \<Rightarrow> (string \<times> route_result) list \<Rightarrow> route_settings
     \<Rightarrow> (missing_planning_poi, route_delta) result" where
  "collect_route_delta metres trip draft pois routes rs =
     bind_res (collect_route_queries metres trip [draft] pois rs) (\<lambda>required.
       Inr \<lparr>required_queries = required,
            missing_queries = filter (\<lambda>q. map_of routes (route_key q) = None) required,
            reused_route_keys = map route_key
              (filter (\<lambda>q. map_of routes (route_key q) \<noteq> None) required)\<rparr>)"

definition invalidated_route_keys ::
  "(coordinate \<Rightarrow> coordinate \<Rightarrow> int) \<Rightarrow> trip_spec \<Rightarrow> candidate_draft \<Rightarrow> candidate_draft
     \<Rightarrow> planning_poi list \<Rightarrow> route_settings \<Rightarrow> (missing_planning_poi, string list) result" where
  "invalidated_route_keys metres trip before after pois rs =
     bind_res (collect_route_queries metres trip [before] pois rs) (\<lambda>b.
     bind_res (collect_route_queries metres trip [after] pois rs) (\<lambda>a.
       Inr (sorted_set (filter (\<lambda>k. k \<notin> set (map route_key a)) (map route_key b)))))"

section \<open>Ordering and distribution of places\<close>

lemma fst_nearest_chain_Cons:
  assumes "x = min_by (\<lambda>q. (metres c (f_coordinate (facts q)), poi_id_of q)) p ps"
  shows "fst (nearest_chain metres c (p # ps))
     = x # fst (nearest_chain metres (f_coordinate (facts x)) (remove1 x (p # ps)))"
  by (subst nearest_chain.simps(2))
    (simp add: Let_def assms [symmetric] split: prod.splits del: remove1.simps)

lemma mset_nearest_chain: "mset (fst (nearest_chain metres c ps)) = mset ps"
proof (induction metres c ps rule: nearest_chain.induct)
  case (1 metres c)
  then show ?case by (simp add: nearest_chain.simps)
next
  case (2 metres c p ps)
  define x where "x = min_by (\<lambda>q. (metres c (f_coordinate (facts q)), poi_id_of q)) p ps"
  have "x \<in> set (p # ps)" by (simp only: x_def min_by_in)
  then have "add_mset x (mset (remove1 x (p # ps))) = mset (p # ps)"
    by (metis insert_DiffM mset_remove1 set_mset_mset)
  then show ?case
    using "2.IH" [OF x_def] by (simp add: fst_nearest_chain_Cons [of x metres c p ps, OF x_def] del: remove1.simps)
qed

lemma mset_order_nearest: "mset (order_nearest metres start pois trip) = mset pois"
  using mset_nearest_chain
  by (simp add: order_nearest_def Let_def split: prod.splits)
    (metis fst_conv multiset_partition mset_filter)

fun greedy_chain :: "(coordinate \<Rightarrow> coordinate \<Rightarrow> int) \<Rightarrow> coordinate \<Rightarrow> planning_poi list \<Rightarrow> bool" where
  "greedy_chain metres c [] = True"
| "greedy_chain metres c (p # ps) =
     ((\<forall>q \<in> set ps. metres c (f_coordinate (facts p)) \<le> metres c (f_coordinate (facts q))) \<and>
      greedy_chain metres (f_coordinate (facts p)) ps)"

lemma greedy_nearest_chain: "greedy_chain metres c (fst (nearest_chain metres c ps))"
proof (induction metres c ps rule: nearest_chain.induct)
  case (1 metres c)
  then show ?case by (simp add: nearest_chain.simps)
next
  case (2 metres c p ps)
  let ?key = "\<lambda>q. (metres c (f_coordinate (facts q)), poi_id_of q)"
  define x where "x = min_by ?key p ps"
  let ?rest = "fst (nearest_chain metres (f_coordinate (facts x)) (remove1 x (p # ps)))"
  have "metres c (f_coordinate (facts x)) \<le> metres c (f_coordinate (facts q))" if "q \<in> set ?rest" for q
  proof -
    have "q \<in> set (p # ps)"
      using that mset_nearest_chain [of metres "f_coordinate (facts x)" "remove1 x (p # ps)"]
      by (metis mset_eq_setD notin_set_remove1)
    then have "?key x \<le> ?key q" unfolding x_def by (rule min_by_le)
    then show ?thesis by auto
  qed
  then show ?case
    using "2.IH" [OF x_def] by (simp add: fst_nearest_chain_Cons [of x metres c p ps, OF x_def] del: remove1.simps)
qed

lemma sum_list_single:
  "distinct ks \<Longrightarrow> sum_list (map (\<lambda>k. if k = a then {#x#} else {#}) ks)
     = (if a \<in> set ks then {#x#} else {#})"
  by (induction ks) auto

lemma mset_concat_filter:
  assumes "distinct ks" and "\<forall>x \<in> set xs. f x \<in> set ks"
  shows "mset (concat (map (\<lambda>k. filter (\<lambda>x. f x = k) xs) ks)) = mset xs"
  using assms(2)
proof (induction xs)
  case Nil
  then show ?case by (induction ks) auto
next
  case (Cons x xs)
  have "mset (concat (map (\<lambda>k. filter (\<lambda>y. f y = k) (x # xs)) ks))
     = sum_list (map (\<lambda>k. if k = f x then {#x#} else {#}) ks)
       + mset (concat (map (\<lambda>k. filter (\<lambda>y. f y = k) xs) ks))"
    by (induction ks) auto
  with Cons assms(1) show ?case by (simp add: sum_list_single)
qed

lemma day_buckets_partition:
  assumes "1 \<le> n"
  shows "mset (concat (map (day_bucket n xs) [0..n - 1])) = mset xs"
proof -
  have "mset (concat (map (\<lambda>k. filter (\<lambda>x. int (fst x) mod n = k) (enumerate 0 xs)) [0..n - 1]))
      = mset (enumerate 0 xs)"
    using assms by (intro mset_concat_filter) auto
  then have "image_mset snd (mset (concat (map (\<lambda>k. filter (\<lambda>x. int (fst x) mod n = k) (enumerate 0 xs)) [0..n - 1])))
      = image_mset snd (mset (enumerate 0 xs))" by simp
  then show ?thesis
    by (simp add: day_bucket_def [abs_def] case_prod_unfold comp_def map_concat flip: mset_map)
qed

lemma length_day_bucket:
  assumes "1 \<le> n" and "int (length xs) \<le> n * m" and "0 \<le> k" and "k < n"
  shows "int (length (day_bucket n xs k)) \<le> m"
proof -
  let ?I = "{i. i < length xs \<and> int i mod n = k}"
  have "map fst (filter (\<lambda>(i, _). int i mod n = k) (enumerate 0 xs))
      = filter (\<lambda>i. int i mod n = k) [0..<length xs]"
    by (induction xs rule: rev_induct) (auto simp: enumerate_append_eq)
  then have "length (day_bucket n xs k) = length (filter (\<lambda>i. int i mod n = k) [0..<length xs])"
    unfolding day_bucket_def by (metis length_map)
  also have "\<dots> = card (set (filter (\<lambda>i. int i mod n = k) [0..<length xs]))"
    by (rule distinct_card [symmetric]) simp
  also have "set (filter (\<lambda>i. int i mod n = k) [0..<length xs]) = ?I" by auto
  also have "card ?I \<le> card {0..<nat m}"
  proof (rule card_inj_on_le [where f = "\<lambda>i. nat (int i div n)"])
    show "inj_on (\<lambda>i. nat (int i div n)) ?I"
    proof (rule inj_onI)
      fix i j
      assume "i \<in> ?I" "j \<in> ?I" "nat (int i div n) = nat (int j div n)"
      then have "int i div n = int j div n" "int i mod n = int j mod n"
        using assms(1) by (simp_all add: eq_nat_nat_iff pos_imp_zdiv_nonneg_iff)
      then have "int i = int j" by (metis div_mult_mod_eq)
      then show "i = j" by simp
    qed
    show "(\<lambda>i. nat (int i div n)) ` ?I \<subseteq> {0..<nat m}"
    proof safe
      fix i
      assume "i < length xs"
      then have "int i < n * m" using assms(2) by simp
      moreover have "int i div n * n \<le> int i"
        using assms(1) by (simp flip: minus_mod_eq_div_mult)
      ultimately have "int i div n < m"
        using assms(1) by (metis linorder_not_less mult.commute mult_right_mono order_less_le_trans
            order_less_irrefl zero_le_one order_trans)
      moreover have "0 \<le> int i div n" using assms(1) by (simp add: pos_imp_zdiv_nonneg_iff)
      ultimately show "nat (int i div n) \<in> {0..<nat m}" by auto
    qed
  qed simp
  finally have "length (day_bucket n xs k) \<le> nat m" by simp
  moreover have "0 \<le> m"
    using assms(1,2) by (metis linorder_not_less mult_pos_neg of_nat_0_le_iff order_less_le_trans
        zero_less_one order_trans)
  ultimately show ?thesis by simp
qed

lemma select_pois_subset: "mset (select_pois trip pois style r) \<subseteq># mset pois"
proof -
  have "mset (take k (sort_key f pois)) \<subseteq># mset pois" for k and f :: "planning_poi \<Rightarrow> 'b::linorder"
    by (metis mset_sort mset_subset_eq_add_left append_take_drop_id mset_append)
  then show ?thesis by (simp add: select_pois_def Let_def)
qed

lemma length_select_pois:
  "1 \<le> day_count trip \<Longrightarrow> int (length (select_pois trip pois style r)) \<le> day_count trip * per_day_limit style r"
  by (auto simp: select_pois_def Let_def per_day_limit_def)

section \<open>Route queries\<close>

definition query_state_ok :: "query_state \<Rightarrow> bool" where
  "query_state_ok st \<longleftrightarrow> distinct (map route_key (fst st)) \<and> set (snd st) = route_key ` set (fst st)"

lemma mode_loop_ok: "query_state_ok st \<Longrightarrow> query_state_ok (mode_loop metres rs prev pid p ms st)"
  by (induction metres rs prev pid p ms st rule: mode_loop.induct)
    (auto simp: query_state_ok_def Let_def)

lemma leg_loop_ok:
  "query_state_ok st \<Longrightarrow> leg_loop metres rs ps prev pid pids st = Inr st' \<Longrightarrow> query_state_ok st'"
  by (induction metres rs ps prev pid pids st rule: leg_loop.induct)
    (auto simp: mode_loop_ok split: option.splits)

text \<open>
  The legs of a day (start coordinate, place of departure, place of arrival) and the keys of
  the routes a draft needs: one per leg and active mode, except walks that are too far.
\<close>

fun day_legs ::
  "(string \<times> planning_poi) list \<Rightarrow> coordinate \<Rightarrow> string option \<Rightarrow> string list
     \<Rightarrow> (coordinate \<times> string option \<times> planning_poi) list" where
  "day_legs ps prev prev_id [] = []"
| "day_legs ps prev prev_id (pid # pids) =
     (case map_of ps pid of
        None \<Rightarrow> []
      | Some p \<Rightarrow> (prev, prev_id, p) # day_legs ps (f_coordinate (facts p)) (Some pid) pids)"

definition leg_keys ::
  "(coordinate \<Rightarrow> coordinate \<Rightarrow> int) \<Rightarrow> route_settings \<Rightarrow> coordinate \<times> string option \<times> planning_poi
     \<Rightarrow> string list" where
  "leg_keys metres rs leg = (case leg of (prev, prev_id, p) \<Rightarrow>
     [route_key (leg_query rs prev prev_id p m). m \<leftarrow> active_modes rs, \<not> leg_too_far metres rs prev p m])"

definition draft_route_keys ::
  "(coordinate \<Rightarrow> coordinate \<Rightarrow> int) \<Rightarrow> trip_spec \<Rightarrow> planning_poi list \<Rightarrow> route_settings
     \<Rightarrow> candidate_draft \<Rightarrow> string list" where
  "draft_route_keys metres trip pois rs d =
     concat (map (\<lambda>day. concat (map (leg_keys metres rs)
       (day_legs (dict_of (map (\<lambda>p. (poi_id_of p, p)) pois)) (start_coordinate trip) None (poi_ids day))))
       (draft_days d))"

lemma mode_loop_keys:
  "query_state_ok st \<Longrightarrow> set (snd (mode_loop metres rs prev pid p ms st)) =
     set (snd st) \<union> set [route_key (leg_query rs prev pid p m). m \<leftarrow> ms, \<not> leg_too_far metres rs prev p m]"
  by (induction metres rs prev pid p ms st rule: mode_loop.induct)
    (auto simp: Let_def query_state_ok_def)

lemma active_mode_keys:
  "query_state_ok st \<Longrightarrow> set (snd (mode_loop metres rs prev pid p (active_modes rs) st)) =
     set (snd st) \<union> set (leg_keys metres rs (prev, pid, p))"
  by (simp only: mode_loop_keys leg_keys_def prod.case)

lemma leg_loop_keys:
  "query_state_ok st \<Longrightarrow> leg_loop metres rs ps prev pid pids st = Inr st' \<Longrightarrow>
     set (snd st') = set (snd st) \<union> set (concat (map (leg_keys metres rs) (day_legs ps prev pid pids)))"
  by (induction metres rs ps prev pid pids st rule: leg_loop.induct)
    (auto simp: mode_loop_ok active_mode_keys split: option.splits)

text \<open>What a fold of steps that only add keys collects.\<close>

lemma fold_res_keys:
  assumes "fold_res f xs s = Inr t" and "query_state_ok s"
    and step: "\<And>x s t. query_state_ok s \<Longrightarrow> f x s = Inr t \<Longrightarrow>
           query_state_ok t \<and> set (snd t) = set (snd s) \<union> K x"
  shows "query_state_ok t \<and> set (snd t) = set (snd s) \<union> (\<Union>x \<in> set xs. K x)"
  using assms(1,2)
proof (induction xs arbitrary: s)
  case (Cons x xs)
  then obtain u where u: "f x s = Inr u" "fold_res f xs u = Inr t" by auto
  show ?case
    using step [OF Cons.prems(2) u(1)] Cons.IH [OF u(2)] by auto
qed simp

lemma collect_route_queries_keys:
  assumes "collect_route_queries metres trip drafts pois rs = Inr qs"
  shows "distinct (map route_key qs) \<and>
    set (map route_key qs) = (\<Union>d \<in> set drafts. set (draft_route_keys metres trip pois rs d))"
proof -
  let ?ps = "dict_of (map (\<lambda>p. (poi_id_of p, p)) pois)"
  obtain st where st: "fold_res (draft_loop metres rs ?ps (start_coordinate trip)) drafts ([], []) = Inr st"
    and qs: "qs = fst st"
    using assms by (auto simp: collect_route_queries_def Let_def)
  have leg: "query_state_ok t \<and> set (snd t) = set (snd s) \<union>
      set (concat (map (leg_keys metres rs) (day_legs ?ps (start_coordinate trip) None (poi_ids day))))"
    if "query_state_ok s" and "leg_loop metres rs ?ps (start_coordinate trip) None (poi_ids day) s = Inr t"
    for s t day
    using that by (simp add: leg_loop_ok leg_loop_keys)
  have draft: "query_state_ok t \<and> set (snd t) = set (snd s) \<union> set (draft_route_keys metres trip pois rs d)"
    if "query_state_ok s" and "draft_loop metres rs ?ps (start_coordinate trip) d s = Inr t" for s t d
    using fold_res_keys [OF that(2) [unfolded draft_loop_def] that(1) leg]
    by (simp add: draft_route_keys_def)
  have "query_state_ok st \<and> set (snd st) = set (snd (([], []) :: query_state)) \<union>
      (\<Union>d \<in> set drafts. set (draft_route_keys metres trip pois rs d))"
    by (rule fold_res_keys [OF st _ draft]) (simp_all add: query_state_ok_def)
  then have ok: "query_state_ok st"
    and keys: "set (snd st) = (\<Union>d \<in> set drafts. set (draft_route_keys metres trip pois rs d))"
    by (rule conjunct1, elim conjE) simp
  show ?thesis
    using ok unfolding query_state_ok_def qs set_map keys by (metis (no_types))
qed

lemma leg_loop_total:
  "(\<exists>st'. leg_loop metres rs ps prev pid pids st = Inr st') \<longleftrightarrow> (\<forall>x \<in> set pids. map_of ps x \<noteq> None)"
  by (induction metres rs ps prev pid pids st rule: leg_loop.induct) (auto split: option.splits)

lemma fold_res_total:
  "(\<exists>t. fold_res f xs s = Inr t) \<longleftrightarrow> (\<forall>x \<in> set xs. Q x)"
  if "\<And>x s. (\<exists>t. f x s = Inr t) \<longleftrightarrow> Q x"
proof (induction xs arbitrary: s)
  case (Cons x xs)
  show ?case
    by (cases "f x s") (use Cons.IH that [of x s] in auto)
qed simp

lemma collect_route_queries_total:
  "(\<exists>qs. collect_route_queries metres trip drafts pois rs = Inr qs) \<longleftrightarrow>
     (\<forall>d \<in> set drafts. \<forall>day \<in> set (draft_days d). set (poi_ids day) \<subseteq> set (map poi_id_of pois))"
proof -
  let ?ps = "dict_of (map (\<lambda>p. (poi_id_of p, p)) pois)"
  have dom: "map_of ?ps x \<noteq> None \<longleftrightarrow> x \<in> set (map poi_id_of pois)" for x
    using dom_dict_of [of "map (\<lambda>p. (poi_id_of p, p)) pois"] by (auto simp: dom_def image_image)
  have leg: "(\<exists>st'. leg_loop metres rs ?ps prev pid (poi_ids day) st = Inr st')
      \<longleftrightarrow> set (poi_ids day) \<subseteq> set (map poi_id_of pois)" for prev pid day st
    unfolding leg_loop_total using dom by blast
  have "(\<exists>t. fold_res (draft_loop metres rs ?ps (start_coordinate trip)) drafts ([], []) = Inr t) \<longleftrightarrow>
      (\<forall>d \<in> set drafts. \<forall>day \<in> set (draft_days d). set (poi_ids day) \<subseteq> set (map poi_id_of pois))"
    unfolding draft_loop_def
    by (intro fold_res_total leg)
  then show ?thesis by (auto simp: collect_route_queries_def Let_def)
qed

lemma snd_nearest_chain:
  "snd (nearest_chain metres c ps) =
     (if fst (nearest_chain metres c ps) = [] then c
      else f_coordinate (facts (List.last (fst (nearest_chain metres c ps)))))"
proof (induction metres c ps rule: nearest_chain.induct)
  case (1 metres c)
  then show ?case by (simp add: nearest_chain.simps)
next
  case (2 metres c p ps)
  define x where "x = min_by (\<lambda>q. (metres c (f_coordinate (facts q)), poi_id_of q)) p ps"
  have "snd (nearest_chain metres c (p # ps))
      = snd (nearest_chain metres (f_coordinate (facts x)) (remove1 x (p # ps)))"
    by (subst nearest_chain.simps(2))
      (simp add: Let_def x_def [symmetric] split: prod.splits del: remove1.simps)
  then show ?case
    using "2.IH" [OF x_def]
    by (simp add: fst_nearest_chain_Cons [of x metres c p ps, OF x_def] del: remove1.simps)
qed

section \<open>Properties\<close>

lemma mset_concat_poi_ids:
  assumes "\<And>k. mset (f k) = mset (g k)"
  shows "mset (concat (map (\<lambda>k. map h (f k)) ks)) = image_mset h (mset (concat (map g ks)))"
  using assms by (induction ks) simp_all

lemma upto_shift: "map (\<lambda>k. a + k) [0..n] = [a..a + n]" for a n :: int
proof (induction "nat (n + 1)" arbitrary: n)
  case 0
  then show ?case by simp
next
  case (Suc m)
  then have "m = nat (n - 1 + 1)" and "0 \<le> n" by simp_all
  with Suc(1) [of "n - 1"] show ?case
    by (simp add: upto_rec2 [of 0 n] upto_rec2 [of a "a + n"] algebra_simps)
qed

lemma draft_for_style_days:
  "draft_days (draft_for_style metres trip pois r style) =
     map (\<lambda>k. \<lparr>dd_date = start_date trip + k, poi_ids = map poi_id_of
        (order_nearest metres (start_coordinate trip)
           (day_bucket (day_count trip) (select_pois trip pois style r) k) trip)\<rparr>)
       [0..day_count trip - 1]"
  by (simp add: draft_for_style_def Let_def)

lemma length_order_nearest: "length (order_nearest metres start pois trip) = length pois"
  by (metis mset_order_nearest size_mset)

lemma draft_day_length:
  assumes "1 \<le> day_count trip" and "day \<in> set (draft_days (draft_for_style metres trip pois r style))"
  shows "int (length (poi_ids day)) \<le> per_day_limit style r"
proof -
  obtain k where k: "0 \<le> k" "k < day_count trip" and day: "poi_ids day = map poi_id_of
      (order_nearest metres (start_coordinate trip)
         (day_bucket (day_count trip) (select_pois trip pois style r) k) trip)"
    using assms(2) by (auto simp: draft_for_style_days)
  show ?thesis
    using length_day_bucket [OF assms(1) length_select_pois [OF assms(1)] k]
    by (simp add: day length_order_nearest)
qed

text \<open>
  A draft is a complete distribution of its selection: every prepared draft has one day
  per date of the trip, in order; its days together schedule exactly the places selected for
  its style, each exactly as often as it was selected; no day exceeds the style's daily
  limit; and the selection is drawn from the given places.
\<close>

lemma drafts_distribute_selection:
  assumes "1 \<le> day_count trip" and "d \<in> set (prepare_candidate_drafts metres trip pois r)"
  shows "map dd_date (draft_days d) = [start_date trip..end_date trip] \<and>
    mset (concat (map poi_ids (draft_days d)))
      = image_mset poi_id_of (mset (select_pois trip pois (draft_style d) r)) \<and>
    mset (select_pois trip pois (draft_style d) r) \<subseteq># mset pois \<and>
    (\<forall>day \<in> set (draft_days d). int (length (poi_ids day)) \<le> per_day_limit (draft_style d) r)"
proof -
  obtain style where d: "d = draft_for_style metres trip pois r style"
    using assms(2) by (auto simp: prepare_candidate_drafts_def)
  then have style: "draft_style d = style" by (simp add: draft_for_style_def Let_def)
  have "map dd_date (draft_days d) = [start_date trip..end_date trip]"
    using upto_shift [of "start_date trip" "day_count trip - 1"]
    by (simp add: d draft_for_style_days comp_def) (simp add: day_count_def)
  moreover have "mset (concat (map poi_ids (draft_days d)))
      = image_mset poi_id_of (mset (select_pois trip pois style r))"
    unfolding d draft_for_style_days map_map comp_def draft_day.select_convs
    by (subst mset_concat_poi_ids [OF mset_order_nearest]) (simp add: day_buckets_partition assms(1))
  ultimately show ?thesis
    using draft_day_length [OF assms(1)] select_pois_subset style d by metis
qed

lemma drafts_distribute_selection_witness:
  "\<exists>d \<in> set (prepare_candidate_drafts (\<lambda>_ _. 7) sample_trip sample_pois 0).
     mset (concat (map poi_ids (draft_days d)))
       = image_mset poi_id_of (mset (select_pois sample_trip sample_pois (draft_style d) 0))"
proof -
  have "1 \<le> day_count sample_trip" by (simp add: day_count_def sample_defs)
  moreover have "draft_for_style (\<lambda>_ _. 7) sample_trip sample_pois 0 Style_relaxed
      \<in> set (prepare_candidate_drafts (\<lambda>_ _. 7) sample_trip sample_pois 0)"
    by (simp add: prepare_candidate_drafts_def)
  ultimately show ?thesis using drafts_distribute_selection by blast
qed

text \<open>
  The order of a day: the ordering permutes the places of the day, puts every must-visit
  place before every other place, and each place is the nearest of the places of its layer
  that are still to come, the first from the day's start and the later ones from the place
  before them.
\<close>

lemma order_nearest_greedy_layers:
  "\<exists>first rest last.
     order_nearest metres start pois trip = first @ rest \<and>
     mset first = mset (filter (\<lambda>p. is_must_visit (poi_name_of p) trip) pois) \<and>
     mset rest = mset (filter (\<lambda>p. \<not> is_must_visit (poi_name_of p) trip) pois) \<and>
     greedy_chain metres start first \<and> greedy_chain metres last rest \<and>
     last = (if first = [] then start else f_coordinate (facts (List.last first)))"
proof -
  let ?req = "nearest_chain metres start (filter (\<lambda>p. is_must_visit (poi_name_of p) trip) pois)"
  let ?opt = "nearest_chain metres (snd ?req) (filter (\<lambda>p. \<not> is_must_visit (poi_name_of p) trip) pois)"
  have "order_nearest metres start pois trip = fst ?req @ fst ?opt"
    by (simp add: order_nearest_def Let_def split: prod.splits)
  moreover have "snd ?req = (if fst ?req = [] then start else f_coordinate (facts (List.last (fst ?req))))"
    by (rule snd_nearest_chain)
  ultimately show ?thesis
    using mset_nearest_chain greedy_nearest_chain by metis
qed

text \<open>
  The collected route queries are the routes the drafts need: the collection succeeds
  exactly when every scheduled place is known, and then it asks for each needed route key
  exactly once: one key per leg of a draft day and active mode, walks beyond the limit left
  out, and no other.
\<close>

lemma collect_route_queries_spec:
  "(case collect_route_queries metres trip drafts pois rs of
      Inl _ \<Rightarrow> (\<exists>d \<in> set drafts. \<exists>day \<in> set (draft_days d). \<exists>x \<in> set (poi_ids day). x \<notin> poi_id_of ` set pois)
    | Inr qs \<Rightarrow> distinct (map route_key qs) \<and>
        set (map route_key qs) = (\<Union>d \<in> set drafts. set (draft_route_keys metres trip pois rs d)) \<and>
        (\<Union>d \<in> set drafts. \<Union>day \<in> set (draft_days d). set (poi_ids day)) \<subseteq> poi_id_of ` set pois)"
proof (cases "collect_route_queries metres trip drafts pois rs")
  case (Inl e)
  then have "\<not> (\<exists>qs. collect_route_queries metres trip drafts pois rs = Inr qs)" by simp
  then show ?thesis unfolding collect_route_queries_total set_map using Inl by auto
next
  case (Inr qs)
  then have "\<exists>qs. collect_route_queries metres trip drafts pois rs = Inr qs" by simp
  then show ?thesis
    unfolding collect_route_queries_total set_map
    using Inr collect_route_queries_keys [OF Inr] by auto
qed

text \<open>
  A repair reuses every route it can: let the routes hold every key the old draft needs.
  Then the route delta of the new draft asks for exactly the keys the routes do not hold, its
  missing and reused keys split the required ones, once the missing results are stored no
  required key is missing, and each old key is either invalidated (then the new draft does
  not need it) or reused.
\<close>

lemma route_delta_reuses:
  assumes delta: "collect_route_delta metres trip after pois routes rs = Inr rd"
    and inv: "invalidated_route_keys metres trip before after pois rs = Inr ks"
    and loaded: "set (draft_route_keys metres trip pois rs before) \<subseteq> dom (map_of routes)"
  shows "set (map route_key (missing_queries rd)) = set (map route_key (required_queries rd)) - dom (map_of routes)
    \<and> mset (map route_key (missing_queries rd)) + mset (reused_route_keys rd)
        = mset (map route_key (required_queries rd))
    \<and> set (map route_key (required_queries rd))
        \<subseteq> dom (map_of (map (\<lambda>q. (route_key q, fetch q)) (missing_queries rd) @ routes))
    \<and> set ks \<inter> set (map route_key (required_queries rd)) = {}
    \<and> set (draft_route_keys metres trip pois rs before) \<subseteq> set ks \<union> set (reused_route_keys rd)"
proof -
  obtain req where req: "collect_route_queries metres trip [after] pois rs = Inr req"
    and rd: "rd = \<lparr>required_queries = req,
      missing_queries = filter (\<lambda>q. map_of routes (route_key q) = None) req,
      reused_route_keys = map route_key (filter (\<lambda>q. map_of routes (route_key q) \<noteq> None) req)\<rparr>"
    using delta by (auto simp: collect_route_delta_def)
  obtain old where old: "collect_route_queries metres trip [before] pois rs = Inr old"
    and ks: "ks = sorted_set (filter (\<lambda>k. k \<notin> set (map route_key req)) (map route_key old))"
    using inv req by (auto simp: invalidated_route_keys_def)
  have "set (map route_key old) = set (draft_route_keys metres trip pois rs before)"
    using collect_route_queries_keys [OF old] by simp
  then have old_loaded: "route_key ` set old \<subseteq> dom (map_of routes)"
    and before: "set (draft_route_keys metres trip pois rs before) = route_key ` set old"
    using loaded by simp_all
  have split: "mset (map route_key (missing_queries rd)) + mset (reused_route_keys rd)
      = mset (map route_key (required_queries rd))"
    by (simp add: rd flip: multiset_partition image_mset_union)
  have stored: "set (map route_key (required_queries rd))
        \<subseteq> dom (map_of (map (\<lambda>q. (route_key q, fetch q)) (missing_queries rd) @ routes))"
    by (auto simp: rd dom_map_of_conv_image_fst map_of_eq_None_iff image_image)
  show ?thesis
    unfolding before using split stored old_loaded
    by (intro conjI) (auto simp: rd ks)
qed

lemma route_delta_reuses_witness:
  "\<exists>rd ks. collect_route_delta (\<lambda>_ _. 7) sample_trip
        \<lparr>draft_id = ''b'', draft_style = Style_balanced, draft_days = [\<lparr>dd_date = 739891, poi_ids = [''p1'']\<rparr>]\<rparr>
        sample_pois [] \<lparr>rs_strategy = 32, rs_mode = Driving, rs_modes = None, rs_max_walking_leg = 1500\<rparr> = Inr rd
    \<and> mset (map route_key (missing_queries rd)) + mset (reused_route_keys rd)
        = mset (map route_key (required_queries rd))
    \<and> missing_queries rd \<noteq> [] \<and> set ks \<inter> set (map route_key (required_queries rd)) = {}"
proof -
  let ?before = "\<lparr>draft_id = ''a'', draft_style = Style_balanced, draft_days = [\<lparr>dd_date = 739891, poi_ids = []\<rparr>]\<rparr>"
  let ?after = "\<lparr>draft_id = ''b'', draft_style = Style_balanced, draft_days = [\<lparr>dd_date = 739891, poi_ids = [''p1'']\<rparr>]\<rparr>"
  let ?rs = "\<lparr>rs_strategy = 32, rs_mode = Driving, rs_modes = None, rs_max_walking_leg = 1500\<rparr>"
  let ?q = "leg_query ?rs sample_coordinate None (sample_poi ''p1'' ''Lt'') Driving"
  have pois: "map_of (dict_of (map (\<lambda>p. (poi_id_of p, p)) sample_pois)) ''p1''
      = Some (sample_poi ''p1'' ''Lt'')"
    by (simp add: dict_of_def sample_pois_def sample_poi_def sample_facts_def)
  have start: "start_coordinate sample_trip = sample_coordinate"
    by (simp add: start_coordinate_def sample_trip_def)
  have req: "collect_route_queries (\<lambda>_ _. 7) sample_trip [?after] sample_pois ?rs = Inr [?q]"
    by (simp add: collect_route_queries_def draft_loop_def pois start active_modes_def leg_too_far_def Let_def)
  have old: "collect_route_queries (\<lambda>_ _. 7) sample_trip [?before] sample_pois ?rs = Inr []"
    by (simp add: collect_route_queries_def draft_loop_def Let_def)
  have delta: "collect_route_delta (\<lambda>_ _. 7) sample_trip ?after sample_pois [] ?rs
      = Inr \<lparr>required_queries = [?q], missing_queries = [?q], reused_route_keys = []\<rparr>"
    by (simp add: collect_route_delta_def req)
  have inv: "invalidated_route_keys (\<lambda>_ _. 7) sample_trip ?before ?after sample_pois ?rs = Inr []"
    by (simp add: invalidated_route_keys_def req old sorted_set_def)
  have "set (draft_route_keys (\<lambda>_ _. 7) sample_trip sample_pois ?rs ?before) \<subseteq> dom (map_of [])"
    by (simp add: draft_route_keys_def)
  from route_delta_reuses [OF delta inv this] delta show ?thesis
    by (intro exI [of _ "\<lparr>required_queries = [?q], missing_queries = [?q], reused_route_keys = []\<rparr>"]
        exI [of _ "[]"]) simp
qed

end
