(* ===== verification/PlanSchedule.thy ===== *)
theory PlanSchedule
  imports PlanDrafts
begin

text \<open>
  \<open>planning/defaults.py\<close> and \<open>planning/planner.py\<close>: the resolution of unknown facts of a
  place by an explicit policy, and the scheduling of drafts into timed candidates from
  loaded routes, with the metrics and the score. The distance is the parameter \<open>metres\<close>.
  Scores and confidences are exact rationals; \<open>round(x, n)\<close> is \<open>round_to n\<close>.
\<close>

section \<open>Unknown facts\<close>

definition default_opening_window :: time_window where
  "default_opening_window = \<lparr>tw_start = 10 * 60 * minute, tw_end = 16 * 60 * minute\<rparr>"

definition default_duration_minutes :: int where "default_duration_minutes = 90"
definition confidence_deduction_per_assumption :: rat where "confidence_deduction_per_assumption = 15 / 100"
definition minimum_confidence :: rat where "minimum_confidence = 1 / 10"

text \<open>\<open>date.weekday()\<close>: day 1 of the ordinals, 0001-01-01, is a Monday.\<close>

definition weekday :: "py_date \<Rightarrow> int" where
  "weekday d = (d + 6) mod 7"

definition known_opening_window :: "poi_facts \<Rightarrow> py_date \<Rightarrow> time_window option" where
  "known_opening_window f d =
     (if f_today_opening_date f = Some d \<and> f_today_opening_window f \<noteq> None
      then f_today_opening_window f
      else map_of (f_opening_windows_by_weekday f) (weekday d))"

definition resolve_opening_windows ::
  "poi_facts \<Rightarrow> trip_spec \<Rightarrow>
     (py_date \<times> time_window) list \<times> (py_date \<times> value_source) list \<times> py_date list" where
  "resolve_opening_windows f trip =
     (let dates = [start_date trip..end_date trip]
      in (map (\<lambda>d. (d, case known_opening_window f d of Some w \<Rightarrow> w | None \<Rightarrow> default_opening_window)) dates,
          map (\<lambda>d. (d, if known_opening_window f d = None then Default else Provider)) dates,
          filter (\<lambda>d. known_opening_window f d = None) dates))"

definition assumption_details :: "string \<Rightarrow> string \<times> assumption_reason" where
  "assumption_details fld =
     (if fld = ''opening_window'' then (''10:00-16:00'', AR_opening_window)
      else if fld = ''duration_minutes'' then (show_int default_duration_minutes, AR_duration)
      else (''unknown'', AR_party_cost))"

definition build_assumptions :: "poi_facts \<Rightarrow> string list \<Rightarrow> py_date list \<Rightarrow> planning_assumption list" where
  "build_assumptions f flds default_dates =
     map (\<lambda>fld. \<lparr>a_field = fld, a_value = fst (assumption_details fld),
        a_reason = snd (assumption_details fld), a_source = Default,
        a_affected_dates = (if fld = ''opening_window'' then default_dates else []),
        a_policy_version = ''v0.2-default-1'', a_created_at = f_fetched_at f\<rparr>) flds"

definition facts_missing_fields :: "poi_facts \<Rightarrow> trip_spec \<Rightarrow> string list" where
  "facts_missing_fields f trip =
     (if snd (snd (resolve_opening_windows f trip)) \<noteq> [] then [''opening_window''] else [])
     @ (if f_suggested_duration_minutes f = None then [''duration_minutes''] else [])
     @ (if f_average_cost_per_person f = None then [''party_cost''] else [])"

definition resolve_poi :: "unknown_fact_policy \<Rightarrow> poi_facts \<Rightarrow> trip_spec \<Rightarrow> poi_resolution" where
  "resolve_poi policy f trip =
     (case resolve_opening_windows f trip of (windows, sources, default_dates) \<Rightarrow>
      let missing = facts_missing_fields f trip
      in if policy = Strict \<and> missing \<noteq> []
         then \<lparr>resolved_poi = None, missing_fields = missing\<rparr>
         else
           let assumptions = build_assumptions f missing default_dates
           in \<lparr>resolved_poi = Some \<lparr>facts = f, opening_windows = windows,
                 duration_minutes = (case f_suggested_duration_minutes f of
                    None \<Rightarrow> default_duration_minutes
                  | Some m \<Rightarrow> if m = 0 then default_duration_minutes else m),
                 party_cost = map_option (\<lambda>c. c * of_int (travelers trip)) (f_average_cost_per_person f),
                 poi_assumptions = assumptions,
                 field_sources =
                   [(''duration_minutes'', if f_suggested_duration_minutes f \<noteq> None then Provider else Default),
                    (''party_cost'', if f_average_cost_per_person f \<noteq> None then Derived else Default),
                    (''data_confidence'', Derived)],
                 opening_window_sources = sources,
                 data_confidence = max minimum_confidence
                   (f_data_confidence f
                      - confidence_deduction_per_assumption * of_nat (length assumptions))\<rparr>,
               missing_fields = []\<rparr>)"

section \<open>Scheduling one day\<close>

datatype planner_error =
  Planner_unknown_poi string | Missing_route_result string | Opening_key_error py_date
| No_route_assertion | Invalid_plan_item string

definition max_dt :: "datetime \<Rightarrow> datetime \<Rightarrow> datetime" where
  "max_dt a b = (if instant b > instant a then b else a)"

definition min_dt :: "datetime \<Rightarrow> datetime \<Rightarrow> datetime" where
  "min_dt a b = (if instant b < instant a then b else a)"

definition day_start_at :: "trip_spec \<Rightarrow> py_date \<Rightarrow> datetime" where
  "day_start_at trip d =
     (let s = combine d (daily_start trip) (dt_tz (ta_at (arrival trip)))
      in if d = date_of (ta_at (arrival trip))
         then max_dt s (dt_add (ta_at (arrival trip)) (60 * minute)) else s)"

definition day_end_at :: "trip_spec \<Rightarrow> py_date \<Rightarrow> datetime" where
  "day_end_at trip d =
     (let e = combine d (daily_end trip) (dt_tz (ta_at (arrival trip)))
      in if d = date_of (ta_at (departure trip))
         then min_dt e (dt_add (ta_at (departure trip)) (- 90 * minute)) else e)"

fun leg_routes ::
  "(coordinate \<Rightarrow> coordinate \<Rightarrow> int) \<Rightarrow> route_settings \<Rightarrow> (string \<times> route_result) list \<Rightarrow> coordinate
     \<Rightarrow> string option \<Rightarrow> planning_poi \<Rightarrow> route_mode list \<Rightarrow> (route_mode \<times> route_result) list
     \<Rightarrow> (planner_error, (route_mode \<times> route_result) list) result" where
  "leg_routes metres rs routes prev prev_id p [] found = Inr found"
| "leg_routes metres rs routes prev prev_id p (m # ms) found =
     (if leg_too_far metres rs prev p m then leg_routes metres rs routes prev prev_id p ms found
      else case map_of routes (route_key (leg_query rs prev prev_id p m)) of
             None \<Rightarrow> Inl (Missing_route_result (route_key (leg_query rs prev prev_id p m)))
           | Some r \<Rightarrow> leg_routes metres rs routes prev prev_id p ms (AList.update m r found))"

definition hybrid_routes_enabled :: "route_settings \<Rightarrow> bool" where
  "hybrid_routes_enabled rs = (case rs_modes rs of None \<Rightarrow> False | Some ms \<Rightarrow> Walking \<in> set ms)"

text \<open>\<open>min(round(d * 0.12), 2000)\<close>.\<close>

definition estimated_walking :: "int \<Rightarrow> int" where
  "estimated_walking d = min (round_div (d * 12) 100) 2000"

definition choose_route ::
  "trip_spec \<Rightarrow> route_settings \<Rightarrow> int \<Rightarrow> (route_mode \<times> route_result) list
     \<Rightarrow> (planner_error, route_result \<times> int \<times> bool) result" where
  "choose_route trip rs walking_total found =
     (case (map_of found Walking, map_of found Driving) of
        (Some w, Some d) \<Rightarrow>
          if distance_meters w > rs_max_walking_leg rs
              \<or> walking_total + distance_meters w > max_daily_walking_meters (mobility trip)
          then Inr (d, 0, False) else Inr (w, distance_meters w, False)
      | (Some w, None) \<Rightarrow> Inr (w, distance_meters w, False)
      | (None, None) \<Rightarrow> Inl No_route_assertion
      | (None, Some d) \<Rightarrow>
          Inr (d, if hybrid_routes_enabled rs then 0 else estimated_walking (distance_meters d),
               \<not> hybrid_routes_enabled rs))"

record schedule =
  sc_coordinate :: coordinate
  sc_poi_id :: "string option"
  sc_time :: datetime
  sc_items :: "plan_item list"
  sc_pois :: "planning_poi list"
  sc_routes :: "route_result list"
  sc_known_cost :: rat
  sc_unknown_costs :: int
  sc_travel :: int
  sc_walking :: int

text \<open>The activity the code constructs, and \<open>PlanItem\<close>'s bounds and validator.\<close>

definition activity_item :: "planning_poi \<Rightarrow> route_result \<Rightarrow> bool \<Rightarrow> datetime \<Rightarrow> datetime \<Rightarrow> plan_item" where
  "activity_item p route estimated start finish =
     \<lparr>item_id = None, item_type = Activity, item_name = poi_name_of p,
      start_at = start, end_at = finish, item_poi_id = Some (poi_id_of p),
      travel_from_previous_minutes = rr_duration_minutes route,
      distance_from_previous_meters = distance_meters route,
      item_estimated_cost = party_cost p, walking_distance_estimated = estimated,
      locked = False\<rparr>"

definition validate_item :: "plan_item \<Rightarrow> (planner_error, plan_item) result" where
  "validate_item i =
     (if travel_from_previous_minutes i < 0 \<or> distance_from_previous_meters i < 0
          \<or> (case item_estimated_cost i of None \<Rightarrow> False | Some c \<Rightarrow> c < 0)
        then Inl (Invalid_plan_item ''Input should be greater than or equal to 0'')
      else if instant (end_at i) \<le> instant (start_at i)
        then Inl (Invalid_plan_item ''plan item end_at must be later than start_at'')
      else Inr i)"

definition visit :: "planning_poi \<Rightarrow> route_result \<Rightarrow> int \<Rightarrow> plan_item \<Rightarrow> schedule \<Rightarrow> schedule" where
  "visit p route walking_meters item sc =
     \<lparr>sc_coordinate = f_coordinate (facts p), sc_poi_id = Some (poi_id_of p), sc_time = end_at item,
      sc_items = sc_items sc @ [item],
      sc_pois = sc_pois sc @ [p], sc_routes = sc_routes sc @ [route],
      sc_known_cost = sc_known_cost sc + (case party_cost p of None \<Rightarrow> 0 | Some c \<Rightarrow> c),
      sc_unknown_costs = sc_unknown_costs sc + (if party_cost p = None then 1 else 0),
      sc_travel = sc_travel sc + rr_duration_minutes route,
      sc_walking = sc_walking sc + walking_meters\<rparr>"

fun schedule_loop ::
  "(coordinate \<Rightarrow> coordinate \<Rightarrow> int) \<Rightarrow> trip_spec \<Rightarrow> route_settings \<Rightarrow> (string \<times> planning_poi) list
     \<Rightarrow> (string \<times> route_result) list \<Rightarrow> py_date \<Rightarrow> string list \<Rightarrow> schedule
     \<Rightarrow> (planner_error, schedule) result" where
  "schedule_loop metres trip rs ps routes d [] sc = Inr sc"
| "schedule_loop metres trip rs ps routes d (pid # pids) sc =
     (case map_of ps pid of
        None \<Rightarrow> Inl (Planner_unknown_poi pid)
      | Some p \<Rightarrow>
          bind_res (leg_routes metres rs routes (sc_coordinate sc) (sc_poi_id sc) p (active_modes rs) []) (\<lambda>found.
          bind_res (choose_route trip rs (sc_walking sc) found) (\<lambda>(route, walking_meters, estimated).
            case map_of (opening_windows p) d of
              None \<Rightarrow> Inl (Opening_key_error d)
            | Some w \<Rightarrow>
                let zone = dt_tz (ta_at (arrival trip));
                    arrival_time = dt_add (sc_time sc) (rr_duration_minutes route * minute);
                    opening = combine d (tw_start w) zone;
                    closing = combine d (tw_end w) zone;
                    start = max_dt arrival_time opening;
                    finish = dt_add start (duration_minutes p * minute)
                in if instant finish > instant (day_end_at trip d) \<or> instant finish > instant closing
                   then Inr sc
                   else bind_res (validate_item (activity_item p route estimated start finish)) (\<lambda>item.
                          schedule_loop metres trip rs ps routes d pids (visit p route walking_meters item sc)))))"

definition start_schedule :: "trip_spec \<Rightarrow> py_date \<Rightarrow> schedule" where
  "start_schedule trip d = \<lparr>sc_coordinate = start_coordinate trip, sc_poi_id = None,
     sc_time = day_start_at trip d, sc_items = [], sc_pois = [], sc_routes = [],
     sc_known_cost = 0, sc_unknown_costs = 0, sc_travel = 0, sc_walking = 0\<rparr>"

text \<open>\<open>Counter(xs).most_common(n)\<close>: most frequent first, ties in order of first occurrence.\<close>

fun first_occurrences :: "'a list \<Rightarrow> 'a list" where
  "first_occurrences [] = []"
| "first_occurrences (x # xs) = x # filter (\<lambda>y. y \<noteq> x) (first_occurrences xs)"

definition most_common :: "nat \<Rightarrow> 'a list \<Rightarrow> 'a list" where
  "most_common n xs = take n (sort_key (\<lambda>x. - int (count_list xs x)) (first_occurrences xs))"

text \<open>The theme of a day without activities and the area of an empty day, in UTF-8.\<close>

definition free_theme :: string where
  "free_theme = [CHR 0xE8, CHR 0x87, CHR 0xAA, CHR 0xE7, CHR 0x94, CHR 0xB1, CHR 0xE6, CHR 0xB4,
     CHR 0xBB, CHR 0xE5, CHR 0x8A, CHR 0xA8]"

definition no_area :: string where
  "no_area = [CHR 0xE6, CHR 0x9C, CHR 0xAA, CHR 0xE5, CHR 0xAE, CHR 0x89, CHR 0xE6, CHR 0x8E, CHR 0x92]"

definition round_to :: "nat \<Rightarrow> rat \<Rightarrow> rat" where
  "round_to n x = of_int (py_round (x * 10 ^ n)) / 10 ^ n"

definition day_plan_of :: "trip_spec \<Rightarrow> py_date \<Rightarrow> schedule \<Rightarrow> day_plan" where
  "day_plan_of trip d sc =
     (let categories = concat (map (\<lambda>p. f_categories (facts p)) (sc_pois sc));
          joined = join '' / '' (most_common 2 categories);
          activity = (\<Sum>i \<leftarrow> sc_items sc. round_div (instant (end_at i) - instant (start_at i)) minute);
          fatigue = min 1 (of_int (activity + sc_travel sc)
                             / of_int (max_daily_activity_minutes (mobility trip)))
      in \<lparr>day_date = d, theme = (if joined = '''' then free_theme else joined),
          primary_area = (if sc_items sc = [] then no_area else destination trip),
          items = sc_items sc, known_estimated_cost = sc_known_cost sc,
          unknown_cost_item_count = sc_unknown_costs sc, total_travel_minutes = sc_travel sc,
          walking_distance_meters = sc_walking sc, fatigue_score = round_to 3 fatigue\<rparr>)"

type_synonym scheduled_day = "day_plan \<times> planning_poi list \<times> route_result list"

definition materialize_day ::
  "(coordinate \<Rightarrow> coordinate \<Rightarrow> int) \<Rightarrow> trip_spec \<Rightarrow> route_settings \<Rightarrow> (string \<times> planning_poi) list
     \<Rightarrow> (string \<times> route_result) list \<Rightarrow> draft_day \<Rightarrow> (planner_error, scheduled_day) result" where
  "materialize_day metres trip rs ps routes dd =
     bind_res (schedule_loop metres trip rs ps routes (dd_date dd) (poi_ids dd)
                 (start_schedule trip (dd_date dd)))
       (\<lambda>sc. Inr (day_plan_of trip (dd_date dd) sc, sc_pois sc, sc_routes sc))"

section \<open>Candidates\<close>

fun append_unique :: "'a list \<Rightarrow> 'a list \<Rightarrow> 'a list" where
  "append_unique target [] = target"
| "append_unique target (x # xs) = append_unique (if x \<in> set target then target else target @ [x]) xs"

definition mean :: "rat list \<Rightarrow> rat" where
  "mean xs = sum_list xs / of_nat (length xs)"

definition route_provenance_fact :: "route_result list \<Rightarrow> int \<Rightarrow> reason_fact" where
  "route_provenance_fact routes travel =
     (if routes = [] then RF_no_routes travel
      else
        let providers = sorted_set (map rr_provider routes);
            kind = (if providers = [''mock''] then Local_estimates
                    else if ''mock'' \<in> set providers then Mixed_estimates else Provider_results)
        in RF_routes providers kind (mean (map rr_data_confidence routes)) travel)"

fun min_instant :: "datetime \<Rightarrow> datetime list \<Rightarrow> datetime" where
  "min_instant best [] = best"
| "min_instant best (x # xs) = min_instant (min_dt best x) xs"

definition walking_assumption :: "py_date list \<Rightarrow> route_result list \<Rightarrow> planning_assumption list" where
  "walking_assumption dates estimated =
     (case estimated of
        [] \<Rightarrow> []
      | r # rest \<Rightarrow> [\<lparr>a_field = ''walking_distance'',
           a_value = ''min(round(driving_distance_meters * 0.12), 2000)'',
           a_reason = AR_walking_estimate, a_source = Default, a_affected_dates = dates,
           a_policy_version = ''v0.2-default-1'',
           a_created_at = min_instant (rr_fetched_at r) (map rr_fetched_at rest)\<rparr>])"

definition candidate_metrics ::
  "trip_spec \<Rightarrow> day_plan list \<Rightarrow> planning_poi list \<Rightarrow> route_result list \<Rightarrow> plan_metrics" where
  "candidate_metrics trip ds pois routes =
     (let liked = set (map normalize (interests trip));
          matching = length (filter (\<lambda>p. liked \<inter> set (map normalize (f_categories (facts p))) \<noteq> {}) pois);
          match = (if pois = [] then 0 else of_nat matching / of_nat (length pois));
          categories = card (set (concat (map (\<lambda>p. f_categories (facts p)) pois)));
          confidences = map data_confidence pois @ map rr_data_confidence routes
      in \<lparr>preference_match = round_to 3 match,
          diversity = round_to 3 (min 1 (of_nat categories / 5)),
          m_data_confidence = round_to 3 (if confidences = [] then 0 else mean confidences),
          m_total_travel_minutes = (\<Sum>d \<leftarrow> ds. total_travel_minutes d),
          m_walking_distance_meters = (\<Sum>d \<leftarrow> ds. walking_distance_meters d),
          m_known_estimated_cost = (\<Sum>d \<leftarrow> ds. known_estimated_cost d),
          m_unknown_cost_item_count = (\<Sum>d \<leftarrow> ds. unknown_cost_item_count d),
          m_fatigue_score = round_to 3 (if ds = [] then 0 else mean (map fatigue_score ds))\<rparr>)"

definition candidate_score ::
  "trip_spec \<Rightarrow> plan_metrics \<Rightarrow> planning_assumption list \<Rightarrow> rat" where
  "candidate_score trip m assumptions =
     (let budget_risk = (case total_budget trip of
            None \<Rightarrow> 0 | Some b \<Rightarrow> if b = 0 then 0 else min 1 (m_known_estimated_cost m / b));
          warning_types = set (map a_field (filter (\<lambda>a. a_source a = Default) assumptions));
          warning_risk = min 1 ((of_nat (card warning_types)
              + (if m_unknown_cost_item_count m > 0 then 1 else 0)) / 4)
      in 35 / 100 * preference_match m + 20 / 100 * diversity m + 15 / 100 * m_data_confidence m
         - 10 / 100 * min 1 (of_int (m_total_travel_minutes m) / of_int (max 1 (day_count trip * 180)))
         - 10 / 100 * m_fatigue_score m - 10 / 100 * budget_risk - 10 / 100 * warning_risk)"

definition materialize_candidate ::
  "(coordinate \<Rightarrow> coordinate \<Rightarrow> int) \<Rightarrow> trip_spec \<Rightarrow> route_settings \<Rightarrow> (string \<times> planning_poi) list
     \<Rightarrow> (string \<times> route_result) list \<Rightarrow> candidate_draft \<Rightarrow> (planner_error, plan_candidate) result" where
  "materialize_candidate metres trip rs ps routes draft =
     bind_res (fold_res (\<lambda>dd done. bind_res (materialize_day metres trip rs ps routes dd)
                            (\<lambda>day. Inr (done @ [day]))) (draft_days draft) []) (\<lambda>scheduled.
       let ds = map fst scheduled;
           pois = concat (map (\<lambda>(_, p, _). p) scheduled);
           used = concat (map (\<lambda>(_, _, r). r) scheduled);
           walking_dates = map day_date (filter (\<lambda>d. items d \<noteq> []) ds);
           assumptions = foldl (\<lambda>acc p. append_unique acc (poi_assumptions p)) [] pois;
           estimated = (if Walking \<in> set (active_modes rs) then []
                        else filter (\<lambda>r. rr_mode r \<noteq> Walking) used);
           assumptions = append_unique assumptions (walking_assumption walking_dates estimated);
           m = candidate_metrics trip ds pois used
       in Inr \<lparr>cand_id = draft_id draft, cand_style = draft_style draft, days = ds, metrics = m,
            validation = None, score = Some (round_to 4 (candidate_score trip m assumptions)),
            reason_facts = [RF_preference_match (preference_match m),
              route_provenance_fact used (m_total_travel_minutes m),
              RF_known_cost (m_known_estimated_cost m),
              RF_unknown_costs (m_unknown_cost_item_count m),
              RF_data_confidence (m_data_confidence m)],
            cand_assumptions = assumptions\<rparr>)"

fun first_missing_route :: "(string \<times> route_result) list \<Rightarrow> route_query list \<Rightarrow> string option" where
  "first_missing_route routes [] = None"
| "first_missing_route routes (q # qs) =
     (if map_of routes (route_key q) = None then Some (route_key q) else first_missing_route routes qs)"

definition materialize_candidates ::
  "(coordinate \<Rightarrow> coordinate \<Rightarrow> int) \<Rightarrow> trip_spec \<Rightarrow> candidate_draft list \<Rightarrow> planning_poi list
     \<Rightarrow> (string \<times> route_result) list \<Rightarrow> route_settings
     \<Rightarrow> (planner_error, plan_candidate list) result" where
  "materialize_candidates metres trip drafts pois routes rs =
     (case collect_route_queries metres trip drafts pois rs of
        Inl (Missing_planning_poi pid) \<Rightarrow> Inl (Planner_unknown_poi pid)
      | Inr queries \<Rightarrow>
          (case first_missing_route routes queries of
             Some key \<Rightarrow> Inl (Missing_route_result key)
           | None \<Rightarrow>
               let ps = dict_of (map (\<lambda>p. (poi_id_of p, p)) pois)
               in fold_res (\<lambda>draft done. bind_res (materialize_candidate metres trip rs ps routes draft)
                              (\<lambda>c. Inr (done @ [c]))) drafts []))"

end
