(* ===== verification/PlanSchedulability.thy ===== *)
theory PlanSchedulability
  imports PlanValidator PlanSchedule
begin

text \<open>
  Properties of the scheduler of \<open>planning/planner.py\<close> and of the default policy of
  \<open>planning/defaults.py\<close>, including how they fit the route collection of
  \<open>planning/drafts.py\<close> and the validation of \<open>planning/validator.py\<close>.
\<close>

section \<open>Choosing a route\<close>

lemma leg_routes_found:
  "leg_routes metres rs routes prev pid p ms found = Inr f \<Longrightarrow> map_of f m = Some r \<Longrightarrow>
     map_of found m = Some r \<or>
     (\<exists>k \<in> set [route_key (leg_query rs prev pid p m). m \<leftarrow> ms, \<not> leg_too_far metres rs prev p m]. map_of routes k = Some r)"
  by (induction metres rs routes prev pid p ms found rule: leg_routes.induct)
    (fastforce simp: update_conv' split: if_splits option.splits)+

lemma leg_routes_driving:
  "leg_routes metres rs routes prev pid p ms found = Inr f \<Longrightarrow>
     Driving \<in> set ms \<or> map_of found Driving \<noteq> None \<Longrightarrow> map_of f Driving \<noteq> None"
  by (induction metres rs routes prev pid p ms found rule: leg_routes.induct)
    (auto simp: update_conv' leg_too_far_def split: if_splits option.splits)

lemma leg_routes_total:
  "(\<exists>f. leg_routes metres rs routes prev pid p ms found = Inr f) \<longleftrightarrow>
     set [route_key (leg_query rs prev pid p m). m \<leftarrow> ms, \<not> leg_too_far metres rs prev p m]
       \<subseteq> dom (map_of routes)"
  by (induction metres rs routes prev pid p ms found rule: leg_routes.induct)
    (auto split: option.splits)

lemma choose_route_found:
  "choose_route trip rs wt f = Inr (r, w, e) \<Longrightarrow> \<exists>m. map_of f m = Some r"
  by (auto simp: choose_route_def split: option.splits if_splits)

lemma choose_route_walking:
  assumes "choose_route trip rs wt f = Inr (r, w, e)" and "hybrid_routes_enabled rs"
    and "map_of f Driving \<noteq> None" and "wt \<le> max_daily_walking_meters (mobility trip)"
  shows "wt + w \<le> max_daily_walking_meters (mobility trip)"
  using assms by (auto simp: choose_route_def split: option.splits if_splits)

lemma choose_route_total:
  "map_of f Driving \<noteq> None \<Longrightarrow> \<exists>r w e. choose_route trip rs wt f = Inr (r, w, e)"
  by (auto simp: choose_route_def split: option.splits)

section \<open>The schedule of a day\<close>

definition arrival_zone :: "trip_spec \<Rightarrow> tz" where
  "arrival_zone trip = dt_tz (ta_at (arrival trip))"

definition item_timely ::
  "trip_spec \<Rightarrow> (string \<times> planning_poi) list \<Rightarrow> py_date \<Rightarrow> plan_item \<Rightarrow> bool" where
  "item_timely trip ps d i \<longleftrightarrow>
     item_type i = Activity \<and> instant (start_at i) < instant (end_at i) \<and>
     instant (day_start_at trip d) \<le> instant (start_at i) \<and>
     instant (end_at i) \<le> instant (day_end_at trip d) \<and>
     dt_tz (start_at i) = arrival_zone trip \<and>
     (\<exists>p w. item_poi_id i = Some (poi_id_of p) \<and> map_of ps (poi_id_of p) = Some p \<and>
        map_of (opening_windows p) d = Some w \<and>
        d * day_us + tw_start w - arrival_zone trip \<le> instant (start_at i) \<and>
        instant (end_at i) \<le> d * day_us + tw_end w - arrival_zone trip)"

definition in_sequence :: "plan_item list \<Rightarrow> bool" where
  "in_sequence xs = successively (\<lambda>a b. instant (end_at a) \<le> instant (start_at b)) xs"

definition schedule_ok ::
  "trip_spec \<Rightarrow> route_settings \<Rightarrow> (string \<times> planning_poi) list \<Rightarrow> py_date \<Rightarrow> schedule \<Rightarrow> bool" where
  "schedule_ok trip rs ps d sc \<longleftrightarrow>
     (\<forall>i \<in> set (sc_items sc). item_timely trip ps d i) \<and> in_sequence (sc_items sc) \<and>
     (sc_items sc \<noteq> [] \<longrightarrow> instant (end_at (last (sc_items sc))) \<le> instant (sc_time sc)) \<and>
     instant (day_start_at trip d) \<le> instant (sc_time sc) \<and> dt_tz (sc_time sc) = arrival_zone trip \<and>
     (hybrid_routes_enabled rs \<and> Driving \<in> set (active_modes rs) \<longrightarrow>
        sc_walking sc \<le> max_daily_walking_meters (mobility trip))"

lemma tz_simps [simp]:
  "dt_tz (dt_add d us) = dt_tz d"
  "dt_tz (combine day t z) = z"
  "dt_tz (max_dt a b) = (if instant b > instant a then dt_tz b else dt_tz a)"
  "instant (max_dt a b) = max (instant a) (instant b)"
  "instant (min_dt a b) = min (instant a) (instant b)"
  by (simp_all add: dt_add_def combine_def max_dt_def min_dt_def)

lemma start_schedule_ok:
  assumes "0 \<le> max_daily_walking_meters (mobility trip)"
  shows "schedule_ok trip rs ps d (start_schedule trip d)"
  using assms
  by (simp add: schedule_ok_def start_schedule_def in_sequence_def day_start_at_def arrival_zone_def Let_def)

lemma in_sequence_snoc:
  "in_sequence (xs @ [x]) \<longleftrightarrow>
     in_sequence xs \<and> (xs \<noteq> [] \<longrightarrow> instant (end_at (last xs)) \<le> instant (start_at x))"
  by (auto simp: in_sequence_def successively_append_iff)

text \<open>Valid facts of a place and of a route, the bounds of their types, give valid items.\<close>

definition poi_sound :: "planning_poi \<Rightarrow> bool" where
  "poi_sound p \<longleftrightarrow> 0 < duration_minutes p \<and> (case party_cost p of None \<Rightarrow> True | Some c \<Rightarrow> 0 \<le> c)"

definition route_sound :: "route_result \<Rightarrow> bool" where
  "route_sound r \<longleftrightarrow> 0 \<le> distance_meters r \<and> 0 \<le> rr_duration_minutes r"

lemma activity_item_simps [simp]:
  "start_at (activity_item p route e s f) = s" "end_at (activity_item p route e s f) = f"
  "item_type (activity_item p route e s f) = Activity" "item_poi_id (activity_item p route e s f) = Some (poi_id_of p)"
  by (simp_all add: activity_item_def)

lemma validate_item_activity:
  assumes "poi_sound p" "route_sound r" "finish = dt_add start (duration_minutes p * minute)"
  shows "validate_item (activity_item p r e start finish) = Inr (activity_item p r e start finish)"
  using assms by (auto simp: validate_item_def activity_item_def poi_sound_def route_sound_def minute_def split: option.splits)

lemma validate_item_Inr:
  assumes "validate_item (activity_item p r e start finish) = Inr i"
  shows "i = activity_item p r e start finish \<and> instant start < instant finish \<and> 0 \<le> rr_duration_minutes r"
  using assms by (auto simp: validate_item_def activity_item_def split: if_splits)

lemma visit_ok:
  assumes sc: "schedule_ok trip rs ps d sc"
    and p: "map_of ps (poi_id_of p) = Some p"
    and w: "map_of (opening_windows p) d = Some w"
    and valid: "validate_item (activity_item p route estimated start finish) = Inr item"
    and walk: "hybrid_routes_enabled rs \<and> Driving \<in> set (active_modes rs) \<longrightarrow>
        sc_walking sc + walking_meters \<le> max_daily_walking_meters (mobility trip)"
    and start: "start = max_dt (dt_add (sc_time sc) (rr_duration_minutes route * minute))
        (combine d (tw_start w) (arrival_zone trip))"
    and finish: "finish = dt_add start (duration_minutes p * minute)"
    and ends: "instant finish \<le> instant (day_end_at trip d)"
      "instant finish \<le> instant (combine d (tw_end w) (arrival_zone trip))"
  shows "schedule_ok trip rs ps d (visit p route walking_meters item sc)"
proof -
  note item = validate_item_Inr [OF valid]
  then have "0 \<le> rr_duration_minutes route" by blast
  then have "instant (sc_time sc) \<le> instant start" "dt_tz start = arrival_zone trip"
    "d * day_us + tw_start w - arrival_zone trip \<le> instant start"
    using sc by (simp_all add: start schedule_ok_def minute_def)
  moreover have "instant start < instant finish" using item by blast
  moreover have "instant (day_start_at trip d) \<le> instant (sc_time sc)"
    using sc by (simp add: schedule_ok_def)
  ultimately show ?thesis
    using sc p w walk ends item
    by (auto simp: schedule_ok_def visit_def in_sequence_snoc item_timely_def finish)
qed

lemma schedule_loop_cases:
  assumes run: "schedule_loop metres trip rs ps routes d (pid # pids) sc = Inr sc'"
  obtains (stop) "sc' = sc"
  | (visit) p found route w e win start finish item where
      "map_of ps pid = Some p" "leg_routes metres rs routes (sc_coordinate sc) (sc_poi_id sc) p (active_modes rs) [] = Inr found"
      "choose_route trip rs (sc_walking sc) found = Inr (route, w, e)" "map_of (opening_windows p) d = Some win"
      "start = max_dt (dt_add (sc_time sc) (rr_duration_minutes route * minute)) (combine d (tw_start win) (arrival_zone trip))"
      "finish = dt_add start (duration_minutes p * minute)"
      "instant finish \<le> instant (day_end_at trip d)" "instant finish \<le> instant (combine d (tw_end win) (arrival_zone trip))"
      "validate_item (activity_item p route e start finish) = Inr item"
      "schedule_loop metres trip rs ps routes d pids (visit p route w item sc) = Inr sc'"
proof -
  obtain p where p: "map_of ps pid = Some p" using run by (auto split: option.splits)
  obtain found where found: "leg_routes metres rs routes (sc_coordinate sc) (sc_poi_id sc) p (active_modes rs) [] = Inr found"
    using run p by auto
  obtain route w e where route: "choose_route trip rs (sc_walking sc) found = Inr (route, w, e)"
    using run p found by (cases "choose_route trip rs (sc_walking sc) found") auto
  obtain win where win: "map_of (opening_windows p) d = Some win"
    using run p found route by (auto split: option.splits)
  let ?start = "max_dt (dt_add (sc_time sc) (rr_duration_minutes route * minute)) (combine d (tw_start win) (arrival_zone trip))"
  let ?finish = "dt_add ?start (duration_minutes p * minute)"
  let ?stop = "instant ?finish > instant (day_end_at trip d)
      \<or> instant ?finish > instant (combine d (tw_end win) (arrival_zone trip))"
  have step: "schedule_loop metres trip rs ps routes d (pid # pids) sc =
      (if ?stop then Inr sc else bind_res (validate_item (activity_item p route e ?start ?finish)) (\<lambda>item.
         schedule_loop metres trip rs ps routes d pids (visit p route w item sc)))"
    by (simp add: p found route win Let_def arrival_zone_def)
  show ?thesis
  proof (cases ?stop)
    case True
    then show ?thesis using run step stop by simp
  next
    case False
    then obtain item where "validate_item (activity_item p route e ?start ?finish) = Inr item"
      "schedule_loop metres trip rs ps routes d pids (visit p route w item sc) = Inr sc'"
      using run unfolding step by auto
    with False show ?thesis by (intro visit [OF p found route win refl refl]) (simp_all only: not_less de_Morgan_disj simp_thms)
  qed
qed

lemma schedule_loop_ok:
  assumes "schedule_loop metres trip rs ps routes d pids sc = Inr sc'"
    and "schedule_ok trip rs ps d sc"
    and ps: "\<And>k p. map_of ps k = Some p \<Longrightarrow> k = poi_id_of p"
  shows "schedule_ok trip rs ps d sc'"
  using assms(1,2)
proof (induction pids arbitrary: sc)
  case (Cons pid pids)
  from Cons.prems(1) show ?case
  proof (cases rule: schedule_loop_cases)
    case stop
    then show ?thesis using Cons.prems by simp
  next
    case (visit p found route w e win start finish item)
    have "Driving \<in> set (active_modes rs) \<Longrightarrow> map_of found Driving \<noteq> None"
      using leg_routes_driving [OF visit(2)] by simp
    then have "hybrid_routes_enabled rs \<and> Driving \<in> set (active_modes rs) \<longrightarrow>
        sc_walking sc + w \<le> max_daily_walking_meters (mobility trip)"
      using choose_route_walking [OF visit(3)] Cons.prems(2) by (auto simp: schedule_ok_def)
    moreover have "map_of ps (poi_id_of p) = Some p" using visit(1) ps by metis
    ultimately have "schedule_ok trip rs ps d (visit p route w item sc)"
      using visit(5-8) by (intro visit_ok [OF Cons.prems(2) _ visit(4) visit(9)])
    with visit(10) show ?thesis by (intro Cons.IH)
  qed
qed simp

text \<open>The loop finishes when the valid routes of its legs are loaded and the places are open.\<close>

lemma schedule_loop_total:
  assumes "\<forall>x \<in> set pids. map_of ps x \<noteq> None"
    and "\<forall>leg \<in> set (day_legs ps (sc_coordinate sc) (sc_poi_id sc) pids).
           \<forall>k \<in> set (leg_keys metres rs leg). \<exists>r. map_of routes k = Some r \<and> route_sound r"
    and "Driving \<in> set (active_modes rs)"
    and "\<And>k p. map_of ps k = Some p \<Longrightarrow> k = poi_id_of p \<and> poi_sound p \<and> map_of (opening_windows p) d \<noteq> None"
  shows "\<exists>sc'. schedule_loop metres trip rs ps routes d pids sc = Inr sc'"
  using assms(1,2)
proof (induction pids arbitrary: sc)
  case (Cons pid pids)
  obtain p where p: "map_of ps pid = Some p" using Cons.prems(1) by auto
  obtain win where win: "map_of (opening_windows p) d = Some win" using assms(4) [OF p] by auto
  have legs: "day_legs ps (sc_coordinate sc) (sc_poi_id sc) (pid # pids) =
      (sc_coordinate sc, sc_poi_id sc, p) # day_legs ps (f_coordinate (facts p)) (Some pid) pids"
    by (simp add: p)
  have keys: "\<forall>k \<in> set (leg_keys metres rs (sc_coordinate sc, sc_poi_id sc, p)). \<exists>r. map_of routes k = Some r \<and> route_sound r"
    using Cons.prems(2) unfolding legs by simp
  then have "set (leg_keys metres rs (sc_coordinate sc, sc_poi_id sc, p)) \<subseteq> dom (map_of routes)" by blast
  then obtain found where found: "leg_routes metres rs routes (sc_coordinate sc) (sc_poi_id sc) p (active_modes rs) [] = Inr found"
    using leg_routes_total [of metres rs routes "sc_coordinate sc" "sc_poi_id sc" p "active_modes rs" "[]"]
    by (auto simp: leg_keys_def)
  have "map_of found Driving \<noteq> None" using leg_routes_driving [OF found] assms(3) by simp
  then obtain r w e where route: "choose_route trip rs (sc_walking sc) found = Inr (r, w, e)"
    using choose_route_total by blast
  obtain m where "map_of found m = Some r" using choose_route_found [OF route] by blast
  from leg_routes_found [OF found this]
  obtain k where "k \<in> set (leg_keys metres rs (sc_coordinate sc, sc_poi_id sc, p))" "map_of routes k = Some r"
    by (auto simp: leg_keys_def)
  with keys have r: "route_sound r" by fastforce
  have "\<exists>sc'. schedule_loop metres trip rs ps routes d pids (visit p r w i sc) = Inr sc'" for i
    by (rule Cons.IH) (use Cons.prems(1) Cons.prems(2) [unfolded legs] assms(4) [OF p] in \<open>simp_all add: visit_def\<close>)
  moreover have "poi_sound p" using assms(4) [OF p] by blast
  ultimately show ?case using r by (simp add: p found route win Let_def validate_item_activity)
qed simp

text \<open>The scheduled places of a day are the first ones of its draft.\<close>

lemma schedule_loop_prefix:
  assumes "schedule_loop metres trip rs ps routes d pids sc = Inr sc'"
    and ps: "\<And>k p. map_of ps k = Some p \<Longrightarrow> k = poi_id_of p"
  shows "\<exists>n. map item_poi_id (sc_items sc') = map item_poi_id (sc_items sc) @ map Some (take n pids)"
  using assms(1)
proof (induction pids arbitrary: sc)
  case (Cons pid pids)
  from Cons.prems show ?case
  proof (cases rule: schedule_loop_cases)
    case stop
    then show ?thesis by (intro exI [of _ 0]) simp
  next
    case (visit p found route w e win start finish item)
    from Cons.IH [OF visit(10)] obtain n where
      "map item_poi_id (sc_items sc') = map item_poi_id (sc_items (visit p route w item sc)) @ map Some (take n pids)" by blast
    then have "map item_poi_id (sc_items sc') = map item_poi_id (sc_items sc) @ map Some (take (Suc n) (pid # pids))"
      using validate_item_Inr [OF visit(9)] ps [OF visit(1)] by (simp add: visit_def)
    then show ?thesis by blast
  qed
qed simp

section \<open>Candidates\<close>

abbreviation poi_table :: "planning_poi list \<Rightarrow> (string \<times> planning_poi) list" where
  "poi_table pois \<equiv> dict_of (map (\<lambda>p. (poi_id_of p, p)) pois)"

lemma poi_tableD: "map_of (poi_table pois) k = Some p \<Longrightarrow> p \<in> set pois \<and> k = poi_id_of p"
  using dict_of_SomeD [of "map (\<lambda>p. (poi_id_of p, p)) pois" k p] by auto

lemma poi_table_None: "map_of (poi_table pois) x \<noteq> None \<longleftrightarrow> x \<in> poi_id_of ` set pois"
  using dom_dict_of [of "map (\<lambda>p. (poi_id_of p, p)) pois"] by (auto simp: dom_def image_image)

lemma first_missing_route_None:
  "first_missing_route routes qs = None \<longleftrightarrow> set (map route_key qs) \<subseteq> dom (map_of routes)"
  by (induction qs) auto

lemma materialize_candidate_days:
  "(\<exists>c. materialize_candidate metres trip rs ps routes draft = Inr c) \<longleftrightarrow>
     (\<forall>dd \<in> set (draft_days draft). \<exists>x. materialize_day metres trip rs ps routes dd = Inr x)"
  unfolding materialize_candidate_def bind_res_eq_Inr fold_res_collect
  by (simp add: Let_def list_all2_Inr_total)

lemma materialize_candidate_result:
  assumes "materialize_candidate metres trip rs ps routes draft = Inr c"
  shows "list_all2 (\<lambda>dd day. \<exists>sc. schedule_loop metres trip rs ps routes (dd_date dd) (poi_ids dd)
      (start_schedule trip (dd_date dd)) = Inr sc \<and> day = day_plan_of trip (dd_date dd) sc) (draft_days draft) (days c)"
proof -
  obtain ys where ys: "list_all2 (\<lambda>dd y. materialize_day metres trip rs ps routes dd = Inr y) (draft_days draft) ys"
    and c: "days c = map fst ys"
    using assms unfolding materialize_candidate_def bind_res_eq_Inr fold_res_collect by (auto simp: Let_def)
  show ?thesis
    unfolding c list_all2_map2 using ys
    by (rule list_all2_mono) (auto simp: materialize_day_def)
qed

lemma materialize_candidates_result:
  assumes "materialize_candidates metres trip drafts pois routes rs = Inr cs" and "c \<in> set cs"
  shows "\<exists>draft \<in> set drafts. materialize_candidate metres trip rs (poi_table pois) routes draft = Inr c"
proof -
  obtain qs where "collect_route_queries metres trip drafts pois rs = Inr qs" "first_missing_route routes qs = None"
    using assms(1) by (auto simp: materialize_candidates_def split: sum.splits missing_planning_poi.splits option.splits)
  then have "list_all2 (\<lambda>draft c. materialize_candidate metres trip rs (poi_table pois) routes draft = Inr c) drafts cs"
    using assms(1) by (simp add: materialize_candidates_def fold_res_collect Let_def)
  then show ?thesis using assms(2) by (rule list_all2_in)
qed

lemma materialize_candidates_all:
  assumes "materialize_candidates metres trip drafts pois routes rs = Inr cs"
  shows "list_all2 (\<lambda>draft c. materialize_candidate metres trip rs (poi_table pois) routes draft = Inr c) drafts cs"
  using assms by (auto simp: materialize_candidates_def fold_res_collect Let_def split: sum.splits missing_planning_poi.splits option.splits)

lemma materialize_candidates_iff:
  assumes modes: "Driving \<in> set (active_modes rs)"
    and windows: "\<forall>p \<in> set pois. \<forall>d \<in> set drafts. \<forall>day \<in> set (draft_days d).
        map_of (opening_windows p) (dd_date day) \<noteq> None"
    and sound: "\<forall>p \<in> set pois. poi_sound p"
    and valid: "\<forall>d \<in> set drafts. \<forall>k \<in> set (draft_route_keys metres trip pois rs d). \<forall>r. map_of routes k = Some r \<longrightarrow> route_sound r"
  shows "(\<exists>cs. materialize_candidates metres trip drafts pois routes rs = Inr cs) \<longleftrightarrow>
    (\<forall>d \<in> set drafts. \<forall>day \<in> set (draft_days d). set (poi_ids day) \<subseteq> poi_id_of ` set pois) \<and>
    (\<forall>d \<in> set drafts. set (draft_route_keys metres trip pois rs d) \<subseteq> dom (map_of routes))"
proof (cases "collect_route_queries metres trip drafts pois rs")
  case (Inl e)
  then have "\<not> (\<exists>qs. collect_route_queries metres trip drafts pois rs = Inr qs)" by simp
  then have "\<not> (\<forall>d \<in> set drafts. \<forall>day \<in> set (draft_days d). set (poi_ids day) \<subseteq> poi_id_of ` set pois)"
    unfolding collect_route_queries_total by simp
  then show ?thesis
    using Inl by (cases e) (simp add: materialize_candidates_def)
next
  case (Inr qs)
  then have "\<exists>qs. collect_route_queries metres trip drafts pois rs = Inr qs" by simp
  then have known: "\<forall>d \<in> set drafts. \<forall>day \<in> set (draft_days d). set (poi_ids day) \<subseteq> poi_id_of ` set pois"
    unfolding collect_route_queries_total by simp
  have keys: "first_missing_route routes qs = None \<longleftrightarrow>
      (\<forall>d \<in> set drafts. set (draft_route_keys metres trip pois rs d) \<subseteq> dom (map_of routes))"
    unfolding first_missing_route_None conjunct2 [OF collect_route_queries_keys [OF Inr]] by blast
  show ?thesis
  proof (cases "first_missing_route routes qs")
    case (Some k)
    then show ?thesis using Inr keys by (simp add: materialize_candidates_def)
  next
    case None
    have day: "\<exists>x. materialize_day metres trip rs (poi_table pois) routes dd = Inr x"
      if d: "d \<in> set drafts" "dd \<in> set (draft_days d)" for d dd
    proof -
      have "\<exists>sc. schedule_loop metres trip rs (poi_table pois) routes (dd_date dd) (poi_ids dd)
          (start_schedule trip (dd_date dd)) = Inr sc"
      proof (rule schedule_loop_total [OF _ _ modes])
        show "\<forall>x \<in> set (poi_ids dd). map_of (poi_table pois) x \<noteq> None"
          using known d unfolding poi_table_None by blast
        have "set (draft_route_keys metres trip pois rs d) \<subseteq> dom (map_of routes)" using None keys d by blast
        then have "\<forall>k \<in> set (draft_route_keys metres trip pois rs d). \<exists>r. map_of routes k = Some r \<and> route_sound r"
          using valid d(1) by blast
        then show "\<forall>leg \<in> set (day_legs (poi_table pois) (sc_coordinate (start_schedule trip (dd_date dd)))
            (sc_poi_id (start_schedule trip (dd_date dd))) (poi_ids dd)).
            \<forall>k \<in> set (leg_keys metres rs leg). \<exists>r. map_of routes k = Some r \<and> route_sound r"
          using d(2) by (simp add: draft_route_keys_def start_schedule_def)
        show "k = poi_id_of p \<and> poi_sound p \<and> map_of (opening_windows p) (dd_date dd) \<noteq> None"
          if "map_of (poi_table pois) k = Some p" for k p
          using poi_tableD [OF that] windows sound d by blast
      qed
      then show ?thesis by (auto simp: materialize_day_def)
    qed
    then have "\<exists>cs. materialize_candidates metres trip drafts pois routes rs = Inr cs"
      using Inr None
      by (simp add: materialize_candidates_def fold_res_collect list_all2_Inr_total materialize_candidate_days Let_def)
    then show ?thesis using None keys known by blast
  qed
qed

text \<open>
  A candidate made from a draft: its id and style, and for each day of the draft a day of the same date
  that visits the first places of the draft's day, in that order.
\<close>

definition made_from :: "candidate_draft \<Rightarrow> plan_candidate \<Rightarrow> bool" where
  "made_from draft c \<longleftrightarrow> cand_id c = draft_id draft \<and> cand_style c = draft_style draft \<and>
     list_all2 (\<lambda>dd day. day_date day = dd_date dd \<and> prefix (map item_poi_id (items day)) (map Some (poi_ids dd)))
       (draft_days draft) (days c)"

lemma materialize_candidate_made:
  assumes "materialize_candidate metres trip rs (poi_table pois) routes draft = Inr c"
  shows "made_from draft c"
proof -
  have "prefix (map item_poi_id (sc_items sc)) (map Some pids)"
    if run: "schedule_loop metres trip rs (poi_table pois) routes d pids (start_schedule trip d) = Inr sc" for sc pids d
  proof -
    obtain n where "map item_poi_id (sc_items sc) = map Some (take n pids)"
      using schedule_loop_prefix [OF run] poi_tableD by (fastforce simp: start_schedule_def)
    then show ?thesis by (simp add: take_map [symmetric] take_is_prefix)
  qed
  then have "list_all2 (\<lambda>dd day. day_date day = dd_date dd \<and> prefix (map item_poi_id (items day)) (map Some (poi_ids dd)))
       (draft_days draft) (days c)"
    using materialize_candidate_result [OF assms]
    by (elim list_all2_mono) (auto simp: day_plan_of_def Let_def)
  moreover have "cand_id c = draft_id draft \<and> cand_style c = draft_style draft"
    using assms by (auto simp: materialize_candidate_def Let_def)
  ultimately show ?thesis by (simp add: made_from_def)
qed

text \<open>
  C24. The planner is complete for the routes it asked for. Let driving be among the modes, every place
  be open on every draft date with a positive duration and no negative cost, and the loaded routes have no negative
  length or time. If all places of the drafts are known and the result of every
  route the drafts need, the ones \<open>collect_route_queries\<close> asks for, has been loaded, then scheduling
  the drafts succeeds and gives one candidate per draft, in order: with the draft's id and style, the
  draft's dates, and on each of them the first places of the draft's day. Otherwise it fails.
\<close>

theorem materialize_candidates_total:
  assumes modes: "Driving \<in> set (active_modes rs)"
    and windows: "\<forall>p \<in> set pois. \<forall>d \<in> set drafts. \<forall>day \<in> set (draft_days d).
        map_of (opening_windows p) (dd_date day) \<noteq> None"
    and sound: "\<forall>p \<in> set pois. poi_sound p" and valid: "\<forall>(k, r) \<in> set routes. route_sound r"
  shows "if (\<forall>d \<in> set drafts. \<forall>day \<in> set (draft_days d). set (poi_ids day) \<subseteq> poi_id_of ` set pois) \<and>
       (\<forall>d \<in> set drafts. set (draft_route_keys metres trip pois rs d) \<subseteq> dom (map_of routes))
     then \<exists>cs. materialize_candidates metres trip drafts pois routes rs = Inr cs \<and> list_all2 made_from drafts cs
     else \<exists>e. materialize_candidates metres trip drafts pois routes rs = Inl e"
proof -
  have "route_sound r" if "map_of routes k = Some r" for k r using valid map_of_SomeD [OF that] by blast
  then have "(\<exists>cs. materialize_candidates metres trip drafts pois routes rs = Inr cs) \<longleftrightarrow>
    (\<forall>d \<in> set drafts. \<forall>day \<in> set (draft_days d). set (poi_ids day) \<subseteq> poi_id_of ` set pois) \<and>
    (\<forall>d \<in> set drafts. set (draft_route_keys metres trip pois rs d) \<subseteq> dom (map_of routes))"
    by (intro materialize_candidates_iff [OF modes windows sound]) blast
  moreover have "list_all2 made_from drafts cs" if "materialize_candidates metres trip drafts pois routes rs = Inr cs" for cs
    using materialize_candidates_all [OF that] by (rule list_all2_mono) (rule materialize_candidate_made)
  ultimately show ?thesis by (cases "materialize_candidates metres trip drafts pois routes rs") simp_all
qed

text \<open>A draft with one visit, and the one driving route it needs.\<close>

definition one_visit_draft :: candidate_draft where
  "one_visit_draft = \<lparr>draft_id = ''balanced-r0'', draft_style = Style_balanced,
     draft_days = [\<lparr>dd_date = 739892, poi_ids = [''p1'']\<rparr>]\<rparr>"

definition driving_settings :: route_settings where
  "driving_settings = \<lparr>rs_strategy = 32, rs_mode = Driving, rs_modes = None, rs_max_walking_leg = 1500\<rparr>"

definition one_route :: "(string \<times> route_result) list" where
  "one_route = [(route_key (leg_query driving_settings sample_coordinate None (sample_poi ''p1'' ''Lt'') Driving),
     \<lparr>distance_meters = 1200, rr_duration_minutes = 15, rr_mode = Driving, rr_provider = ''mock'',
      rr_data_confidence = 1, rr_fetched_at = at_time 739890 8 0\<rparr>)]"

lemma one_visit_facts:
  "Driving \<in> set (active_modes driving_settings)"
  "\<forall>p \<in> set sample_pois. \<forall>d \<in> set [one_visit_draft]. \<forall>day \<in> set (draft_days d).
     map_of (opening_windows p) (dd_date day) \<noteq> None"
  "set (draft_route_keys metres sample_trip sample_pois driving_settings one_visit_draft) \<subseteq> dom (map_of one_route)"
  "\<forall>d \<in> set [one_visit_draft]. \<forall>day \<in> set (draft_days d). set (poi_ids day) \<subseteq> poi_id_of ` set sample_pois"
  "\<forall>p \<in> set sample_pois. poi_sound p" "\<forall>(k, r) \<in> set one_route. route_sound r"
proof -
  have p: "map_of (poi_table sample_pois) ''p1'' = Some (sample_poi ''p1'' ''Lt'')"
    by (simp add: dict_of_def sample_pois_def sample_poi_def sample_facts_def del: map_of_eq_Some_iff)
  show "set (draft_route_keys metres sample_trip sample_pois driving_settings one_visit_draft) \<subseteq> dom (map_of one_route)"
    by (simp add: draft_route_keys_def one_visit_draft_def p leg_keys_def active_modes_def driving_settings_def
        leg_too_far_def start_coordinate_def sample_trip_def one_route_def del: map_of_eq_Some_iff)
qed (simp_all add: driving_settings_def active_modes_def sample_pois_def sample_poi_def sample_facts_def one_visit_draft_def
    one_route_def poi_sound_def route_sound_def)

theorem materialize_candidates_total_witness:
  "\<exists>cs. materialize_candidates (\<lambda>_ _. 7) sample_trip [one_visit_draft] sample_pois one_route driving_settings = Inr cs \<and>
     list_all2 made_from [one_visit_draft] cs"
  using materialize_candidates_total [OF one_visit_facts(1,2,5,6), of "\<lambda>_ _. 7" sample_trip] one_visit_facts(3,4) by simp

section \<open>Scheduled plans against the validator\<close>

lemma in_sequence_sorted:
  assumes "in_sequence xs" and "\<forall>i \<in> set xs. instant (start_at i) < instant (end_at i)"
  shows "sorted (map (\<lambda>i. instant (start_at i)) xs)"
proof -
  have "successively (\<lambda>a b. instant (start_at a) \<le> instant (start_at b)) xs"
    by (rule successively_mono [OF assms(1) [unfolded in_sequence_def]]) (use assms(2) in force)
  then show ?thesis
    by (simp add: sorted_map successively_conv_sorted_wrt [of "\<lambda>a b. instant (start_at a) \<le> instant (start_at b)"] transp_def)
qed

lemma any_poi_table:
  "map_of (rev (map (\<lambda>p. (any_poi_id p, p)) (map Planning_poi pois))) k
     = map_option Planning_poi (map_of (poi_table pois) k)"
proof -
  have "map_of (map (\<lambda>p. (any_poi_id p, p)) (map Planning_poi qs)) k
      = map_option Planning_poi (map_of (map (\<lambda>p. (poi_id_of p, p)) qs) k)" for qs
    by (induction qs) auto
  from this [of "rev pois"] show ?thesis by (simp add: map_of_dict_of rev_map)
qed

lemma timely_item_checks:
  assumes "item_timely trip (poi_table pois) d i"
  shows "item_checks_ok trip (dict_of (map (\<lambda>p. (any_poi_id p, p)) (map Planning_poi pois))) d i"
proof -
  obtain p w where p: "item_poi_id i = Some (poi_id_of p)" "map_of (poi_table pois) (poi_id_of p) = Some p"
    "map_of (opening_windows p) d = Some w"
    "d * day_us + tw_start w - arrival_zone trip \<le> instant (start_at i)"
    "instant (end_at i) \<le> d * day_us + tw_end w - arrival_zone trip"
    using assms by (auto simp: item_timely_def)
  have "dt_tz (start_at i) = arrival_zone trip" using assms by (simp add: item_timely_def)
  then have "in_opening_hours (map Planning_poi pois) d i"
    using p(2-5) unfolding in_opening_hours_def any_poi_table p(1) by (simp del: map_of_eq_Some_iff)
  moreover have "d * day_us + daily_start trip - arrival_zone trip \<le> instant (day_start_at trip d)"
    "d = date_of (ta_at (arrival trip)) \<Longrightarrow> instant (ta_at (arrival trip)) + 60 * minute \<le> instant (day_start_at trip d)"
    "instant (day_end_at trip d) \<le> d * day_us + daily_end trip - arrival_zone trip"
    "d = date_of (ta_at (departure trip)) \<Longrightarrow> instant (day_end_at trip d) \<le> instant (ta_at (departure trip)) - 90 * minute"
    by (simp_all add: day_start_at_def day_end_at_def arrival_zone_def Let_def)
  ultimately show ?thesis
    using assms
    unfolding item_checks_ok_def daily_window_check_ok buffer_checks_ok opening_check_ok
    by (auto simp: item_timely_def arrival_zone_def)
qed

definition error_types :: "violation list \<Rightarrow> string set" where
  "error_types vs = v_type ` {v \<in> set vs. severity v = Error}"

lemma error_types_simps [simp]:
  "error_types [] = {}"
  "error_types (xs @ ys) = error_types xs \<union> error_types ys"
  by (auto simp: error_types_def)

lemma error_types_free: "error_free vs \<Longrightarrow> error_types vs = {}"
  by (auto simp: error_types_def)

lemma day_limits_types:
  "error_types (day_limits trip day xs) \<subseteq> {''activity_time_limit''}
     \<union> (if walking_distance_meters day \<le> max_daily_walking_meters (mobility trip) then {} else {''walking_limit''})"
  by (auto simp: day_limits_def error_types_def day_error_def Let_def)

lemma scheduled_day_types:
  assumes "schedule_ok trip rs (poi_table pois) d sc"
  shows "error_types (fst (day_check trip (dict_of (map (\<lambda>p. (any_poi_id p, p)) (map Planning_poi pois))) (day_plan_of trip d sc)))
     \<subseteq> {''activity_time_limit''}
        \<union> (if hybrid_routes_enabled rs \<and> Driving \<in> set (active_modes rs) then {} else {''walking_limit''})"
proof -
  let ?ps = "dict_of (map (\<lambda>p. (any_poi_id p, p)) (map Planning_poi pois))"
  let ?day = "day_plan_of trip d sc"
  have day: "items ?day = sc_items sc" "day_date ?day = d" "walking_distance_meters ?day = sc_walking sc"
    by (simp_all add: day_plan_of_def Let_def)
  have timely: "\<forall>i \<in> set (sc_items sc). item_timely trip (poi_table pois) d i" and seq: "in_sequence (sc_items sc)"
    using assms by (simp_all add: schedule_ok_def)
  then have "sorted (map (\<lambda>i. instant (start_at i)) (sc_items sc))"
    by (intro in_sequence_sorted) (auto simp: item_timely_def)
  then have sort: "sort_key (\<lambda>i. instant (start_at i)) (items ?day) = sc_items sc"
    by (simp add: day sort_key_id_if_sorted)
  have "error_free (fst (item_loop trip ?ps d None (sc_items sc)))"
    unfolding item_loop_ok using timely seq timely_item_checks [of trip pois d]
    by (simp add: in_sequence_def)
  then have "error_types (fst (day_check trip ?ps ?day)) \<subseteq> error_types (day_limits trip ?day (sc_items sc))"
    unfolding day_check_def Let_def sort unfolding day
    by (auto simp: error_types_free split: prod.splits)
  then show ?thesis
    using day_limits_types [of trip ?day "sc_items sc"] assms
    by (auto simp: day schedule_ok_def split: if_splits)
qed

text \<open>
  C25. What the scheduler produces, the validator can only reject for the outline of the
  plan: the validation of a materialised candidate against the same places never reports an
  overlap, a visit outside the daily window, the arrival or departure buffer or the opening
  hours; and when walking and driving routes are both enabled, it never reports too much
  walking either.
\<close>

theorem materialized_plans_are_timely:
  assumes mat: "materialize_candidates metres trip drafts pois routes rs = Inr cs" and c: "c \<in> set cs"
    and limit: "0 \<le> max_daily_walking_meters (mobility trip)"
  shows "error_types (violations (validate_candidate trip c (map Planning_poi pois)))
    \<subseteq> {''empty_plan'', ''missing_must_visit'', ''activity_time_limit'', ''budget_exceeded''}
      \<union> (if hybrid_routes_enabled rs \<and> Driving \<in> set (active_modes rs) then {} else {''walking_limit''})"
proof -
  let ?ps = "dict_of (map (\<lambda>p. (any_poi_id p, p)) (map Planning_poi pois))"
  let ?W = "if hybrid_routes_enabled rs \<and> Driving \<in> set (active_modes rs) then {} else {''walking_limit''}"
  obtain draft where draft: "materialize_candidate metres trip rs (poi_table pois) routes draft = Inr c"
    using materialize_candidates_result [OF mat c] by auto
  have day: "error_types (fst (day_check trip ?ps day)) \<subseteq> {''activity_time_limit''} \<union> ?W" if elem: "day \<in> set (days c)" for day
  proof -
    have "\<exists>dd \<in> set (draft_days draft). \<exists>sc. schedule_loop metres trip rs (poi_table pois) routes (dd_date dd)
        (poi_ids dd) (start_schedule trip (dd_date dd)) = Inr sc \<and> day = day_plan_of trip (dd_date dd) sc"
      by (rule list_all2_in [OF materialize_candidate_result [OF draft] elem])
    then obtain dd :: draft_day and sc :: schedule where sc: "schedule_loop metres trip rs (poi_table pois) routes (dd_date dd) (poi_ids dd)
        (start_schedule trip (dd_date dd)) = Inr sc" "day = day_plan_of trip (dd_date dd) sc"
      by blast
    have "schedule_ok trip rs (poi_table pois) (dd_date dd) sc"
    proof (rule schedule_loop_ok [OF sc(1) start_schedule_ok [OF limit]])
      show "k = poi_id_of p" if "map_of (poi_table pois) k = Some p" for k p
        using poi_tableD [OF that] by blast
    qed
    then show ?thesis unfolding sc(2) by (rule scheduled_day_types)
  qed
  have "error_types (fst (day_loop trip ?ps ds)) \<subseteq> {''activity_time_limit''} \<union> ?W"
    if "set ds \<subseteq> set (days c)" for ds
    using that
  proof (induction ds)
    case (Cons x ds)
    have "fst (day_loop trip ?ps (x # ds)) = fst (day_check trip ?ps x) @ fst (day_loop trip ?ps ds)"
      by (simp split: prod.splits)
    moreover have "x \<in> set (days c)" "set ds \<subseteq> set (days c)" using Cons.prems by simp_all
    ultimately show ?case
      using day [of x] Cons.IH by (simp only: error_types_simps Un_subset_iff simp_thms)
  qed simp
  then have days: "error_types (fst (day_loop trip ?ps (days c))) \<subseteq> {''activity_time_limit''} \<union> ?W" by simp
  have coverage: "error_types (coverage_checks trip c) \<subseteq> {''empty_plan'', ''missing_must_visit''}"
    by (auto simp: coverage_checks_def error_types_def plan_error_def split: if_splits)
  have budget: "error_types (budget_checks trip c) \<subseteq> {''budget_exceeded''}"
    by (auto simp: budget_checks_def error_types_def plan_error_def Let_def split: option.splits if_splits)
  obtain u where viol: "violations (validate_candidate trip c (map Planning_poi pois)) = coverage_checks trip c
      @ fst (day_loop trip ?ps (days c)) @ budget_checks trip c @ assumption_warnings c u"
    by (cases "day_loop trip ?ps (days c)") (simp add: validate_candidate_def from_violations_def del: map_map)
  have combine: "A \<subseteq> {a, b} \<Longrightarrow> B \<subseteq> {x} \<union> W \<Longrightarrow> C \<subseteq> {y} \<Longrightarrow> A \<union> (B \<union> (C \<union> {})) \<subseteq> {a, b, x, y} \<union> W"
    for A B C W and a b x y :: string by blast
  show ?thesis
    unfolding viol error_types_simps error_types_free [OF assumption_warnings_error_free]
    by (rule combine [OF coverage days budget])
qed

theorem materialized_plans_are_timely_witness:
  "\<exists>cs c. materialize_candidates (\<lambda>_ _. 7) sample_trip [one_visit_draft] sample_pois one_route driving_settings = Inr cs
     \<and> c \<in> set cs \<and> error_types (violations (validate_candidate sample_trip c (map Planning_poi sample_pois)))
        \<subseteq> {''empty_plan'', ''missing_must_visit'', ''activity_time_limit'', ''budget_exceeded'', ''walking_limit''}"
proof -
  have "\<exists>cs. materialize_candidates (\<lambda>_ _. 7) sample_trip [one_visit_draft] sample_pois one_route driving_settings = Inr cs"
    using materialize_candidates_iff [OF one_visit_facts(1,2,5), of "\<lambda>_ _. 7" sample_trip one_route] one_visit_facts(3,4,6)
    by (force dest: map_of_SomeD)
  then obtain cs where cs: "materialize_candidates (\<lambda>_ _. 7) sample_trip [one_visit_draft] sample_pois one_route driving_settings = Inr cs" ..
  then obtain c where c: "c \<in> set cs"
    by (cases cs) (auto simp: materialize_candidates_def fold_res_collect Let_def split: sum.splits
        missing_planning_poi.splits option.splits)
  have "error_types (violations (validate_candidate sample_trip c (map Planning_poi sample_pois)))
    \<subseteq> {''empty_plan'', ''missing_must_visit'', ''activity_time_limit'', ''budget_exceeded''}
      \<union> (if hybrid_routes_enabled driving_settings \<and> Driving \<in> set (active_modes driving_settings) then {} else {''walking_limit''})"
    by (rule materialized_plans_are_timely [OF cs c])
      (simp add: sample_trip_def default_mobility_def)
  also have "\<dots> \<subseteq> {''empty_plan'', ''missing_must_visit'', ''activity_time_limit'', ''budget_exceeded'', ''walking_limit''}"
    by auto
  finally show ?thesis using cs c by blast
qed

section \<open>Resolved places\<close>

text \<open>
  The default policy leaves nothing unsaid: it refuses a place exactly when the policy is
  strict and a fact is missing, and then names the missing facts. Otherwise the resolved
  place has an opening window for exactly the dates of the trip, marked as the provider's
  exactly where the provider gave one; there is one default assumption per missing fact, in
  the same order; and the confidence falls by 0.15 for each of them, but not below 0.1.
\<close>

lemma resolve_poi_accounts_for_defaults:
  "case resolved_poi (resolve_poi policy f trip) of
     None \<Rightarrow> policy = Strict \<and> missing_fields (resolve_poi policy f trip) = facts_missing_fields f trip
       \<and> facts_missing_fields f trip \<noteq> []
   | Some p \<Rightarrow> \<not> (policy = Strict \<and> facts_missing_fields f trip \<noteq> []) \<and> facts p = f
       \<and> dom (map_of (opening_windows p)) = {start_date trip..end_date trip}
       \<and> {d. map_of (opening_window_sources p) d = Some Provider}
           = {d \<in> {start_date trip..end_date trip}. known_opening_window f d \<noteq> None}
       \<and> map a_field (poi_assumptions p) = facts_missing_fields f trip
       \<and> set (map a_source (poi_assumptions p)) \<subseteq> {Default}
       \<and> data_confidence p = max (1 / 10) (f_data_confidence f - 15 / 100 * of_nat (length (facts_missing_fields f trip)))"
proof (cases "policy = Strict \<and> facts_missing_fields f trip \<noteq> []")
  case True
  then show ?thesis by (simp add: resolve_poi_def resolve_opening_windows_def Let_def)
next
  case False
  let ?ds = "[start_date trip..end_date trip]"
  have tabulate: "map_of (map (\<lambda>d. (d, g d)) ds) d = (if d \<in> set ds then Some (g d) else None)"
    for g :: "py_date \<Rightarrow> 'b" and ds d
    by (induction ds) auto
  show ?thesis
    using False
    by (auto simp: resolve_poi_def resolve_opening_windows_def build_assumptions_def tabulate comp_def dom_def
        minimum_confidence_def confidence_deduction_per_assumption_def Let_def
        split: if_splits simp del: map_of_eq_Some_iff)
qed

end
