(* ===== verification/Calendar.thy ===== *)
theory Calendar
  imports Prelude
begin

text \<open>
  Python's \<open>date.fromisoformat\<close> on the \<open>YYYY-MM-DD\<close> form, the only one the code parses
  (it parses back what \<open>isoformat\<close> wrote), and the fact that it inverts \<open>isoformat\<close> on all
  dates Python has, the ordinals 1 to 3652059.
\<close>

definition is_leap :: "int \<Rightarrow> bool" where
  "is_leap y \<longleftrightarrow> y mod 4 = 0 \<and> (y mod 100 \<noteq> 0 \<or> y mod 400 = 0)"

definition days_before_year :: "int \<Rightarrow> int" where
  "days_before_year y = (y - 1) * 365 + (y - 1) div 4 - (y - 1) div 100 + (y - 1) div 400"

definition days_before :: "int \<Rightarrow> int \<Rightarrow> int" where
  "days_before y m = days_before_month (nat m) + (if m > 2 \<and> is_leap y then 1 else 0)"

definition days_in_month :: "int \<Rightarrow> int \<Rightarrow> int" where
  "days_in_month y m = (if m = 2 \<and> is_leap y then 29
     else [0, 31, 28, 31, 30, 31, 30, 31, 31, 30, 31, 30, 31] ! nat m)"

definition ymd2ord :: "int \<Rightarrow> int \<Rightarrow> int \<Rightarrow> py_date option" where
  "ymd2ord y m d =
     (if 1 \<le> y \<and> y \<le> 9999 \<and> 1 \<le> m \<and> m \<le> 12 \<and> 1 \<le> d \<and> d \<le> days_in_month y m
      then Some (days_before_year y + days_before y m + d) else None)"

definition is_digit :: "char \<Rightarrow> bool" where
  "is_digit c \<longleftrightarrow> 48 \<le> (of_char c :: nat) \<and> (of_char c :: nat) \<le> 57"

definition digits_value :: "string \<Rightarrow> nat" where
  "digits_value s = foldl (\<lambda>n c. 10 * n + (of_char c - 48)) 0 s"

definition fromisoformat :: "string \<Rightarrow> py_date option" where
  "fromisoformat s =
     (if length s = 10 \<and> s ! 4 = CHR ''-'' \<and> s ! 7 = CHR ''-'' \<and>
         list_all is_digit (take 4 s @ take 2 (drop 5 s) @ drop 8 s)
      then ymd2ord (int (digits_value (take 4 s))) (int (digits_value (take 2 (drop 5 s))))
             (int (digits_value (drop 8 s)))
      else None)"

section \<open>Digits\<close>

lemma digit_char_digit: "d < 10 \<Longrightarrow> is_digit (digit_char d)"
  by (simp add: is_digit_def digit_char_def)

lemma digits_value_snoc: "digits_value (s @ [c]) = 10 * digits_value s + (of_char c - 48)"
  by (simp add: digits_value_def)

lemma show_nat_value: "digits_value (show_nat n) = n \<and> list_all is_digit (show_nat n)"
proof (induction n rule: show_nat.induct)
  case (1 n)
  show ?case
  proof (cases "n < 10")
    case True
    then show ?thesis
      by (subst (1 2) show_nat.simps) (simp add: digits_value_def digit_char_digit, simp add: digit_char_def)
  next
    case False
    with 1 show ?thesis
      by (subst (1 2) show_nat.simps)
        (simp add: digits_value_snoc digit_char_digit, simp add: digit_char_def)
  qed
qed

lemma length_show_nat: "0 < k \<Longrightarrow> n < 10 ^ k \<Longrightarrow> length (show_nat n) \<le> k"
proof (induction k arbitrary: n)
  case (Suc k)
  show ?case
  proof (cases "n < 10")
    case True
    then show ?thesis by (subst show_nat.simps) simp
  next
    case False
    then have "0 < k" using Suc.prems(2) by (cases k) auto
    moreover have "n div 10 < 10 ^ k" using Suc.prems(2) by (simp add: div_less_iff_less_mult)
    ultimately have "length (show_nat (n div 10)) \<le> k" by (rule Suc.IH)
    then show ?thesis using False by (subst show_nat.simps) simp
  qed
qed simp

lemma digits_value_zeros: "digits_value (replicate k (CHR ''0'') @ s) = digits_value s"
  by (induction k) (simp_all add: digits_value_def)

lemma pad_digits_facts:
  assumes "0 < w" and "n < 10 ^ w"
  shows "length (pad_digits w n) = w" "digits_value (pad_digits w n) = n" "list_all is_digit (pad_digits w n)"
  using length_show_nat [OF assms] show_nat_value [of n]
  by (auto simp add: pad_digits_def Let_def digits_value_zeros list_all_iff is_digit_def)

section \<open>Days\<close>

lemma days_before_year_split:
  fixes A B C D :: int
  assumes "0 \<le> B" "B \<le> 3" "0 \<le> C" "C \<le> 24" "0 \<le> D" "D \<le> 3"
  shows "days_before_year (400 * A + 100 * B + 4 * C + D + 1) = 146097 * A + 36524 * B + 1461 * C + 365 * D"
proof -
  have "(400 * A + 100 * B + 4 * C + D) div 4 = 100 * A + 25 * B + C"
    using assms by (intro int_div_pos_eq [of _ _ _ D]) simp_all
  moreover have "(400 * A + 100 * B + 4 * C + D) div 100 = 4 * A + B"
    using assms by (intro int_div_pos_eq [of _ _ _ "4 * C + D"]) simp_all
  moreover have "(400 * A + 100 * B + 4 * C + D) div 400 = A"
    using assms by (intro int_div_pos_eq [of _ _ _ "100 * B + 4 * C + D"]) simp_all
  ultimately show ?thesis by (simp add: days_before_year_def)
qed

lemma mod_eqI: "x = r + m * k \<Longrightarrow> x mod m = r mod m" for x r m k :: int
  by simp

lemma is_leap_split:
  fixes A B C D :: int
  assumes "0 \<le> B" "B \<le> 3" "0 \<le> C" "C \<le> 24" "0 \<le> D" "D \<le> 3"
  shows "is_leap (400 * A + 100 * B + 4 * C + D + 1) \<longleftrightarrow> D = 3 \<and> (C \<noteq> 24 \<or> B = 3)"
proof -
  let ?y = "400 * A + 100 * B + 4 * C + D + 1"
  have small: "r mod m = 0 \<longleftrightarrow> r = m" if "1 \<le> r" "r \<le> m" for r m :: int
    using that by (cases "r = m") auto
  have m4: "?y mod 4 = (D + 1) mod 4"
    by (rule mod_eqI [where k = "100 * A + 25 * B + C"]) simp
  have m100: "?y mod 100 = (4 * C + D + 1) mod 100"
    by (rule mod_eqI [where k = "4 * A + B"]) simp
  have m400: "?y mod 400 = (100 * B + 4 * C + D + 1) mod 400"
    by (rule mod_eqI [where k = A]) simp
  have s4: "(D + 1) mod 4 = 0 \<longleftrightarrow> D = 3"
    using small [of "D + 1" 4] assms by linarith
  have s100: "(4 * C + D + 1) mod 100 = 0 \<longleftrightarrow> 4 * C + D + 1 = 100"
    using small [of "4 * C + D + 1" 100] assms by linarith
  have s400: "(100 * B + 4 * C + D + 1) mod 400 = 0 \<longleftrightarrow> 100 * B + 4 * C + D + 1 = 400"
    using small [of "100 * B + 4 * C + D + 1" 400] assms by linarith
  have "4 * C + D + 1 = 100 \<longleftrightarrow> C = 24" and "100 * B + 4 * C + D + 1 = 400 \<longleftrightarrow> B = 3 \<and> C = 24" if "D = 3"
    using that assms by linarith+
  then show ?thesis
    unfolding is_leap_def m4 m100 m400 s4 s100 s400 by blast
qed

definition month_of :: "bool \<Rightarrow> int \<Rightarrow> int" where
  "month_of leap n =
     (let before = (\<lambda>m. days_before_month (nat m) + (if m > 2 \<and> leap then 1 else 0));
          m0 = (n + 50) div 32
      in if before m0 > n then m0 - 1 else m0)"

definition month_fits :: "bool \<Rightarrow> int \<Rightarrow> int \<Rightarrow> bool" where
  "month_fits leap n m \<longleftrightarrow> 1 \<le> m \<and> m \<le> 12 \<and>
     days_before_month (nat m) + (if m > 2 \<and> leap then 1 else 0) \<le> n \<and>
     n - (days_before_month (nat m) + (if m > 2 \<and> leap then 1 else 0)) + 1
       \<le> (if m = 2 \<and> leap then 29 else [0, 31, 28, 31, 30, 31, 30, 31, 31, 30, 31, 30, 31] ! nat m)"

lemma month_of_fits:
  assumes "0 \<le> n" "n \<le> (if leap then 365 else 364)"
  shows "month_fits leap n (month_of leap n)"
proof -
  define k where "k = (n + 50) div 32"
  have "n \<le> 365" using assms by (simp split: if_splits)
  then have "1 \<le> k" "k \<le> 12"
    using assms(1) zdiv_mono1 [of 50 "n + 50" 32] zdiv_mono1 [of "n + 50" 415 32] by (simp_all add: k_def)
  then have kset: "k \<in> {1, 2, 3, 4, 5, 6, 7, 8, 9, 10, 11, 12}" by simp presburger
  have k: "32 * k \<le> n + 50" "n + 50 < 32 * k + 32"
    unfolding k_def using pos_mod_bound [of 32 "n + 50"] pos_mod_sign [of 32 "n + 50"]
      mult_div_mod_eq [of 32 "n + 50"] by linarith+
  from kset show ?thesis
    unfolding insert_iff empty_iff
    by (elim disjE) (use assms k in \<open>auto simp: month_fits_def month_of_def days_before_month_def Let_def k_def [symmetric] split: if_splits\<close>)
qed

lemma div_step:
  fixes y k :: int
  assumes "0 < k"
  shows "y div k = (y - 1) div k + (if y mod k = 0 then 1 else 0)"
proof -
  define q r where "q = (y - 1) div k" and "r = (y - 1) mod k"
  have y: "y = k * q + r + 1" and r: "0 \<le> r" "r < k"
    using assms by (simp_all add: q_def r_def)
  show ?thesis
  proof (cases "r + 1 = k")
    case True
    then have "y = k * (q + 1)" using y by (simp add: algebra_simps)
    then have "y div k = q + 1" and "y mod k = 0" using assms by simp_all
    then show ?thesis by (simp flip: q_def)
  next
    case False
    then have "y div k = q" and "y mod k = r + 1"
      using y r int_div_pos_eq [of y k q "r + 1"] int_mod_pos_eq [of y k q "r + 1"] by simp_all
    then show ?thesis using r by (simp flip: q_def)
  qed
qed

lemma days_before_year_step:
  "days_before_year (y + 1) = days_before_year y + 365 + (if is_leap y then 1 else 0)"
proof -
  have "y mod 100 = 0" if "y mod 400 = 0"
    using that dvd_trans [of 100 400 y] by (simp add: mod_eq_0_iff_dvd)
  moreover have "y mod 4 = 0" if "y mod 100 = 0"
    using that dvd_trans [of 4 100 y] by (simp add: mod_eq_0_iff_dvd)
  ultimately have leap: "(if y mod 4 = 0 then 1 else 0) - (if y mod 100 = 0 then 1 else 0)
      + (if y mod 400 = 0 then 1 else 0) = (if is_leap y then 1 else 0 :: int)"
    unfolding is_leap_def by (cases "y mod 4 = 0"; cases "y mod 100 = 0"; cases "y mod 400 = 0") (simp_all only: simp_thms if_True if_False)
  have combine: "a * 365 + p - q + r = (a - 1) * 365 + p' - q' + r' + 365 + c"
    if "p = p' + x" "q = q' + z" "r = r' + w" "x - z + w = c" for a p q r p' q' r' x z w c :: int
    using that by simp
  have "days_before_year (y + 1) = y * 365 + y div 4 - y div 100 + y div 400"
    by (simp add: days_before_year_def)
  also note combine [OF div_step [of 4 y, OF zero_less_numeral] div_step [of 100 y, OF zero_less_numeral]
      div_step [of 400 y, OF zero_less_numeral] leap]
  finally show ?thesis unfolding days_before_year_def .
qed

lemma days_before_year_mono: "y \<le> z \<Longrightarrow> days_before_year y \<le> days_before_year z"
proof (induction z rule: int_ge_induct)
  case (step z)
  then show ?case using days_before_year_step [of z] by (cases "is_leap z") simp_all
qed simp

text \<open>The conversion of an ordinal, split as CPython does into centuries, four-year cycles and years.\<close>

lemma ymd2ord_fits:
  assumes d: "d = days_before_year y + n + 1" "1 \<le> d" "d \<le> 3652059" and y: "1 \<le> y"
    and m: "month_fits (is_leap y) n m"
  shows "ymd2ord y m (n - days_before y m + 1) = Some d"
proof -
  have before: "days_before_month (nat m) + (if m > 2 \<and> is_leap y then 1 else 0) = days_before y m"
    by (simp add: days_before_def)
  have fits: "1 \<le> m" "m \<le> 12" "days_before y m \<le> n" "n - days_before y m + 1 \<le> days_in_month y m"
    using m unfolding month_fits_def before days_in_month_def by auto
  have "0 \<le> days_before y m"
  proof -
    have "nat m < 13" using fits(1,2) by simp
    then have "0 \<le> days_before_month (nat m)"
      unfolding days_before_month_def by (auto simp: less_Suc_eq numeral_eq_Suc nth_Cons split: nat.splits)
    then show ?thesis by (simp add: days_before_def)
  qed
  moreover have "y \<le> 9999"
  proof (rule ccontr)
    assume "\<not> y \<le> 9999"
    then have "days_before_year 10000 \<le> days_before_year y" by (intro days_before_year_mono) simp
    moreover have "days_before_year 10000 = 3652059" by (simp add: days_before_year_def)
    ultimately show False using d fits(3) \<open>0 \<le> days_before y m\<close> by linarith
  qed
  ultimately show ?thesis using fits y d by (simp add: ymd2ord_def)
qed

lemma ord2ymd_inverse:
  assumes d: "1 \<le> d" "d \<le> 3652059"
  obtains y m dd where "ord2ymd d = (y, m, dd)" and "ymd2ord y m dd = Some d"
proof -
  define A a where "A = (d - 1) div 146097" and "a = (d - 1) mod 146097"
  define B b where "B = a div 36524" and "b = a mod 36524"
  define C c where "C = b div 1461" and "c = b mod 1461"
  define D n where "D = c div 365" and "n = c mod 365"
  have dA: "d - 1 = 146097 * A + a" "0 \<le> a" "a < 146097" and A0: "0 \<le> A"
    using d by (simp_all add: A_def a_def pos_imp_zdiv_nonneg_iff)
  have aB: "a = 36524 * B + b" "0 \<le> b" "b < 36524" and B0: "0 \<le> B"
    using dA by (simp_all add: B_def b_def pos_imp_zdiv_nonneg_iff)
  have bC: "b = 1461 * C + c" "0 \<le> c" "c < 1461" and C0: "0 \<le> C"
    using aB by (simp_all add: C_def c_def pos_imp_zdiv_nonneg_iff)
  have cD: "c = 365 * D + n" "0 \<le> n" "n < 365" and D0: "0 \<le> D"
    using bC by (simp_all add: D_def n_def pos_imp_zdiv_nonneg_iff)
  have C24: "C \<le> 24" using aB bC by linarith
  have B4: "B \<le> 4" using dA aB by linarith
  have D4: "D \<le> 4" using bC cD by linarith
  define Y where "Y = A * 400 + 1 + B * 100 + C * 4 + D"
  define leap where "leap = (D = 3 \<and> (C \<noteq> 24 \<or> B = 3))"
  have ord: "ord2ymd d = (if D = 4 \<or> B = 4 then (Y - 1, 12, 31)
      else (Y, month_of leap n, n - (days_before_month (nat (month_of leap n))
              + (if month_of leap n > 2 \<and> leap then 1 else 0)) + 1))"
    unfolding ord2ymd_def month_of_def Let_def
    by (simp add: A_def [symmetric] a_def [symmetric] B_def [symmetric] b_def [symmetric] C_def [symmetric]
        c_def [symmetric] D_def [symmetric] n_def [symmetric] Y_def leap_def del: mod_mult_self1 mod_mult_self2)
  consider (last_of_cycle) "D = 4" "B \<noteq> 4" | (last_of_400) "B = 4" | (inner) "D \<le> 3" "B \<le> 3"
    using B4 D4 by linarith
  then show ?thesis
  proof cases
    case last_of_cycle
    then have "n = 0" and "C \<noteq> 24" using aB bC cD by linarith+
    have y: "Y - 1 = 400 * A + 100 * B + 4 * C + 3 + 1" using last_of_cycle by (simp add: Y_def)
    have "B \<le> 3" using last_of_cycle B4 by linarith
    have leap: "is_leap (Y - 1)" and dby: "days_before_year (Y - 1) = 146097 * A + 36524 * B + 1461 * C + 365 * 3"
      unfolding y using B0 \<open>B \<le> 3\<close> C0 C24 \<open>C \<noteq> 24\<close> is_leap_split [of B C 3 A] days_before_year_split [of B C 3 A]
      by simp_all
    have "ymd2ord (Y - 1) 12 (365 - days_before (Y - 1) 12 + 1) = Some d"
      using leap dby y A0 B0 C0 d dA(1) aB(1) bC(1) cD(1) \<open>n = 0\<close> last_of_cycle
      by (intro ymd2ord_fits) (simp_all add: month_fits_def days_before_month_def)
    moreover have "days_before (Y - 1) 12 = 335"
      using leap by (simp add: days_before_def days_before_month_def)
    ultimately show ?thesis using that [of "Y - 1" 12 31] last_of_cycle by (simp add: ord)
  next
    case last_of_400
    then have zero: "b = 0" "C = 0" "D = 0" "n = 0" using dA aB bC cD C0 D0 by linarith+
    have y: "Y - 1 = 400 * A + 100 * 3 + 4 * 24 + 3 + 1" using last_of_400 zero by (simp add: Y_def)
    have leap: "is_leap (Y - 1)" and dby: "days_before_year (Y - 1) = 146097 * A + 36524 * 3 + 1461 * 24 + 365 * 3"
      unfolding y using is_leap_split [of 3 24 3 A] days_before_year_split [of 3 24 3 A] by simp_all
    have "ymd2ord (Y - 1) 12 (365 - days_before (Y - 1) 12 + 1) = Some d"
      using leap dby y A0 d dA(1) aB(1) zero last_of_400
      by (intro ymd2ord_fits) (simp_all add: month_fits_def days_before_month_def)
    moreover have "days_before (Y - 1) 12 = 335"
      using leap by (simp add: days_before_def days_before_month_def)
    ultimately show ?thesis using that [of "Y - 1" 12 31] last_of_400 by (simp add: ord)
  next
    case inner
    have y: "Y = 400 * A + 100 * B + 4 * C + D + 1" by (simp add: Y_def)
    have leap: "is_leap Y = leap"
      unfolding y leap_def using B0 C0 C24 D0 inner by (intro is_leap_split)
    have dby: "days_before_year Y = 146097 * A + 36524 * B + 1461 * C + 365 * D"
      unfolding y using B0 C0 C24 D0 inner by (intro days_before_year_split)
    have "month_fits leap n (month_of leap n)"
      using cD by (intro month_of_fits) auto
    then have "ymd2ord Y (month_of leap n) (n - days_before Y (month_of leap n) + 1) = Some d"
      using d dA(1) aB(1) bC(1) cD(1) dby leap y A0 B0 C0 D0 by (intro ymd2ord_fits) simp_all
    moreover have "n - days_before Y (month_of leap n) + 1 = n - (days_before_month (nat (month_of leap n))
        + (if month_of leap n > 2 \<and> leap then 1 else 0)) + 1"
      by (simp add: days_before_def leap)
    ultimately show ?thesis using that inner by (simp add: ord)
  qed
qed

section \<open>Round trip\<close>

lemma ymd2ord_SomeD:
  assumes "ymd2ord y m dd = Some d"
  shows "1 \<le> y" "y \<le> 9999" "1 \<le> m" "m \<le> 12" "1 \<le> dd" "dd \<le> 31"
proof -
  have in_month: "dd \<le> days_in_month y m" and range: "1 \<le> y" "y \<le> 9999" "1 \<le> m" "m \<le> 12" "1 \<le> dd"
    using assms by (auto simp: ymd2ord_def split: if_splits)
  have "nat m < 13" using range by simp
  then have "days_in_month y m \<le> 31"
    unfolding days_in_month_def by (auto simp: less_Suc_eq numeral_eq_Suc nth_Cons split: nat.splits)
  with in_month range show "1 \<le> y" "y \<le> 9999" "1 \<le> m" "m \<le> 12" "1 \<le> dd" "dd \<le> 31" by linarith+
qed

lemma fromisoformat_fields:
  assumes "ymd2ord y m dd = r" and "0 \<le> y" "y \<le> 9999" "0 \<le> m" "m \<le> 99" "0 \<le> dd" "dd \<le> 99"
  shows "fromisoformat (pad_digits 4 (nat y) @ ''-'' @ pad_digits 2 (nat m) @ ''-'' @ pad_digits 2 (nat dd)) = r"
proof -
  note Y = pad_digits_facts [of 4 "nat y"] and M = pad_digits_facts [of 2 "nat m"] and D = pad_digits_facts [of 2 "nat dd"]
  have "nat y < 10 ^ 4" "nat m < 10 ^ 2" "nat dd < 10 ^ 2" using assms by simp_all
  then show ?thesis
    using Y M D assms by (simp add: fromisoformat_def nth_append)
qed

lemma fromisoformat_isoformat:
  assumes "1 \<le> d" and "d \<le> 3652059"
  shows "fromisoformat (isoformat d) = Some d"
proof -
  obtain y m dd where ord: "ord2ymd d = (y, m, dd)" and inv: "ymd2ord y m dd = Some d"
    by (rule ord2ymd_inverse [OF assms])
  show ?thesis
    using fromisoformat_fields [OF inv] ymd2ord_SomeD [OF inv] by (simp add: isoformat_def ord)
qed

end
