(* ===== verification/Json.thy ===== *)
theory Json
  imports Calendar
begin

text \<open>
  The canonical JSON text that the code hashes,
  \<open>json.dumps(payload, ensure_ascii=False, sort_keys=True, separators=(",", ":"))\<close>, of
  payloads built from dicts, lists, strings, integers and \<open>None\<close>. Its main fact is that
  the text determines the payload up to the order of dictionary keys, so that two equal
  texts (and two equal digests, where the hash has no collision) stand for equal payloads.
\<close>

datatype json =
  J_null
| J_int int
| J_str string
| J_list "json list"
| J_obj "(string \<times> json) list"

definition j_opt :: "('a \<Rightarrow> json) \<Rightarrow> 'a option \<Rightarrow> json" where
  "j_opt f x = (case x of None \<Rightarrow> J_null | Some y \<Rightarrow> f y)"

section \<open>Printing\<close>

definition hex_digit :: "nat \<Rightarrow> char" where
  "hex_digit n = (if n < 10 then char_of (48 + n) else char_of (87 + n))"

definition esc_char :: "char \<Rightarrow> string" where
  "esc_char c =
     (let n = (of_char c :: nat)
      in if n = 34 then [CHR 0x5C, CHR 0x22]
         else if n = 92 then [CHR 0x5C, CHR 0x5C]
         else if n = 10 then [CHR 0x5C, CHR ''n'']
         else if n = 13 then [CHR 0x5C, CHR ''r'']
         else if n = 9 then [CHR 0x5C, CHR ''t'']
         else if n = 8 then [CHR 0x5C, CHR ''b'']
         else if n = 12 then [CHR 0x5C, CHR ''f'']
         else if n < 32 then [CHR 0x5C, CHR ''u'', CHR ''0'', CHR ''0'', hex_digit (n div 16), hex_digit (n mod 16)]
         else [c])"

definition json_str :: "string \<Rightarrow> string" where
  "json_str s = CHR 0x22 # concat (map esc_char s) @ [CHR 0x22]"

fun json_norm :: "json \<Rightarrow> json" where
  "json_norm (J_list xs) = J_list (map json_norm xs)"
| "json_norm (J_obj kvs) = J_obj (sort_key fst (map (\<lambda>(k, v). (k, json_norm v)) kvs))"
| "json_norm j = j"

fun json_text :: "json \<Rightarrow> string" where
  "json_text J_null = ''null''"
| "json_text (J_int i) = show_int i"
| "json_text (J_str s) = json_str s"
| "json_text (J_list xs) = ''['' @ join '','' (map json_text xs) @ '']''"
| "json_text (J_obj kvs) =
     ''{'' @ join '','' (map (\<lambda>(k, v). json_str k @ '':'' @ json_text v) kvs) @ ''}''"

definition json_dumps :: "json \<Rightarrow> string" where
  "json_dumps j = json_text (json_norm j)"

section \<open>Escaped strings\<close>

definition hex_value :: "char \<Rightarrow> nat" where
  "hex_value c = (let n = of_char c in if n < 58 then n - 48 else n - 87)"

fun unesc :: "string \<Rightarrow> char \<times> string" where
  "unesc (c # s) =
     (if c \<noteq> CHR 0x5C then (c, s)
      else if hd s = CHR ''u'' then (char_of (16 * hex_value (s ! 3) + hex_value (s ! 4)), drop 5 s)
      else (if hd s = CHR ''n'' then CHR 0x0A else if hd s = CHR ''r'' then CHR 0x0D
            else if hd s = CHR ''t'' then CHR 0x09 else if hd s = CHR ''b'' then CHR 0x08
            else if hd s = CHR ''f'' then CHR 0x0C else hd s, tl s))"
| "unesc [] = (CHR 0x00, [])"

lemma hex_value_digit: "n < 16 \<Longrightarrow> hex_value (hex_digit n) = n"
  by (simp add: hex_value_def hex_digit_def)

lemma special_chars:
  "of_char c = (34 :: nat) \<longleftrightarrow> c = CHR 0x22" "of_char c = (92 :: nat) \<longleftrightarrow> c = CHR 0x5C"
  "of_char c = (10 :: nat) \<longleftrightarrow> c = CHR 0x0A" "of_char c = (13 :: nat) \<longleftrightarrow> c = CHR 0x0D"
  "of_char c = (9 :: nat) \<longleftrightarrow> c = CHR 0x09" "of_char c = (8 :: nat) \<longleftrightarrow> c = CHR 0x08"
  "of_char c = (12 :: nat) \<longleftrightarrow> c = CHR 0x0C"
  using of_char_eq_iff [where 'a = nat, of c "CHR 0x22"] of_char_eq_iff [where 'a = nat, of c "CHR 0x5C"]
    of_char_eq_iff [where 'a = nat, of c "CHR 0x0A"] of_char_eq_iff [where 'a = nat, of c "CHR 0x0D"]
    of_char_eq_iff [where 'a = nat, of c "CHR 0x09"] of_char_eq_iff [where 'a = nat, of c "CHR 0x08"]
    of_char_eq_iff [where 'a = nat, of c "CHR 0x0C"]
  by simp_all

lemma unesc_esc: "unesc (esc_char c @ s) = (c, s)"
proof -
  let ?n = "of_char c :: nat"
  have code: "c = char_of ?n" by simp
  consider "?n = 34" | "?n = 92" | "?n = 10" | "?n = 13" | "?n = 9" | "?n = 8" | "?n = 12"
    | (control) "?n < 32" "?n \<notin> {8, 9, 10, 12, 13}" | (plain) "32 \<le> ?n" "?n \<noteq> 34" "?n \<noteq> 92"
    by (metis insertE empty_iff not_less)
  then show ?thesis
  proof cases
    case control
    moreover have "?n div 16 < 16" "?n mod 16 < 16" using control by simp_all
    moreover have "16 * (?n div 16) + ?n mod 16 = ?n" by simp
    ultimately show ?thesis by (simp add: esc_char_def Let_def hex_value_digit)
  next
    case plain
    moreover from plain have "c \<noteq> CHR 0x5C" by auto
    ultimately show ?thesis by (simp add: esc_char_def Let_def)
  qed (simp_all add: esc_char_def Let_def special_chars)
qed

lemma esc_char_code: "esc_char c @ s = esc_char d @ t \<longleftrightarrow> c = d \<and> s = t"
  by (metis unesc_esc prod.inject)

lemma esc_char_quote: "esc_char c @ s \<noteq> CHR 0x22 # t"
  by (auto simp: esc_char_def Let_def)

lemma json_str_inj: "json_str a @ s = json_str b @ t \<Longrightarrow> a = b \<and> s = t"
proof -
  have "concat (map esc_char a) @ CHR 0x22 # s = concat (map esc_char b) @ CHR 0x22 # t \<Longrightarrow> a = b \<and> s = t"
  proof (induction a arbitrary: b)
    case Nil
    then show ?case by (cases b) (auto simp: esc_char_quote dest: sym)
  next
    case (Cons c a)
    then obtain d b' where b: "b = d # b'"
      by (cases b) (auto simp: esc_char_quote)
    with Cons.prems have "esc_char c @ (concat (map esc_char a) @ CHR 0x22 # s)
        = esc_char d @ (concat (map esc_char b') @ CHR 0x22 # t)" by simp
    with Cons.IH [of b'] b show ?case unfolding esc_char_code by simp
  qed
  then show "json_str a @ s = json_str b @ t \<Longrightarrow> a = b \<and> s = t" by (simp add: json_str_def)
qed

section \<open>The text determines the payload\<close>

definition no_digit :: "string \<Rightarrow> bool" where
  "no_digit s \<longleftrightarrow> (case s of [] \<Rightarrow> True | c # _ \<Rightarrow> \<not> is_digit c)"

lemma no_digit_simps [simp]: "no_digit []" "no_digit (c # s) \<longleftrightarrow> \<not> is_digit c"
  by (simp_all add: no_digit_def)

lemma is_digit_consts [simp]:
  "\<not> is_digit CHR '',''" "\<not> is_digit CHR '']''" "\<not> is_digit CHR ''}''" "\<not> is_digit CHR ''-''"
  "\<not> is_digit CHR ''n''" "\<not> is_digit CHR 0x22" "\<not> is_digit CHR ''[''" "\<not> is_digit CHR ''{''"
  by (simp_all add: is_digit_def)

lemma digits_split:
  assumes "list_all is_digit xs" "list_all is_digit ys" "no_digit s" "no_digit t" "xs @ s = ys @ t"
  shows "xs = ys \<and> s = t"
proof -
  have "takeWhile is_digit (zs @ u) = zs" if "list_all is_digit zs" "no_digit u" for zs u
    using that by (cases u) (auto simp: list_all_iff)
  from this [of xs s] this [of ys t] assms show ?thesis by (metis append_same_eq same_append_eq)
qed

lemma show_nat_not_Nil: "show_nat n \<noteq> []"
  by (subst show_nat.simps) simp

lemma show_int_head: "\<exists>c cs. show_int i = c # cs \<and> (is_digit c \<or> c = CHR ''-'')"
  using show_nat_value [of "nat i"] show_nat_not_Nil [of "nat i"]
  by (cases "show_nat (nat i)") (auto simp: show_int_def)

lemma show_int_inj:
  assumes "show_int a @ s = show_int b @ t" "no_digit s" "no_digit t"
  shows "a = b \<and> s = t"
proof -
  have nat_case: "m = n \<and> s = t" if "show_nat m @ s = show_nat n @ t" for m n
    using digits_split [OF _ _ assms(2,3) that] show_nat_value by metis
  have nat_head: "\<exists>c cs. show_nat m = c # cs \<and> is_digit c" for m
    using show_nat_value [of m] show_nat_not_Nil [of m] by (cases "show_nat m") auto
  show ?thesis
  proof (cases "a < 0 \<longleftrightarrow> b < 0")
    case True
    then have "show_nat (nat \<bar>a\<bar>) @ s = show_nat (nat \<bar>b\<bar>) @ t"
      using assms(1) by (cases "a < 0") (simp_all add: show_int_def)
    with True nat_case [of "nat \<bar>a\<bar>" "nat \<bar>b\<bar>"] show ?thesis by (cases "a < 0") auto
  next
    case False
    then show ?thesis
      using assms(1) nat_head [of "nat a"] nat_head [of "nat b"]
      by (cases "a < 0") (auto simp: show_int_def)
  qed
qed

lemma join_Cons: "join sep (x # xs) = x @ concat (map (\<lambda>y. sep @ y) xs)"
  by (induction xs arbitrary: x) auto

lemma items_text_inj:
  assumes "\<And>x y s t. x \<in> set xs \<Longrightarrow> f x @ s = f y @ t \<Longrightarrow> no_digit s \<Longrightarrow> no_digit t \<Longrightarrow> x = y \<and> s = t"
    and "c \<noteq> CHR '',''" "\<not> is_digit c"
    and "concat (map (\<lambda>y. CHR '','' # f y) xs) @ c # s = concat (map (\<lambda>y. CHR '','' # f y) ys) @ c # t"
  shows "xs = ys \<and> s = t"
  using assms(1,4)
proof (induction xs arbitrary: ys)
  case Nil
  then show ?case using assms(2) by (cases ys) auto
next
  case (Cons x xs)
  then obtain y ys' where ys: "ys = y # ys'" using assms(2) by (cases ys) auto
  let ?rest = "\<lambda>zs u. concat (map (\<lambda>y. CHR '','' # f y) zs) @ c # u"
  have no_digit: "no_digit (?rest zs u)" for zs u
    using assms(3) by (cases zs) auto
  have "f x @ ?rest xs s = f y @ ?rest ys' t" using Cons.prems(2) ys by simp
  then have "x = y \<and> ?rest xs s = ?rest ys' t"
    by (rule Cons.prems(1) [OF _ _ no_digit no_digit, rotated]) simp
  with Cons.IH [OF Cons.prems(1)] ys show ?case by simp
qed

lemma join_text_inj:
  assumes inj: "\<And>x y s t. x \<in> set xs \<Longrightarrow> f x @ s = f y @ t \<Longrightarrow> no_digit s \<Longrightarrow> no_digit t \<Longrightarrow> x = y \<and> s = t"
    and head: "\<And>x u v. f x @ u \<noteq> c # v"
    and c: "c \<noteq> CHR '',''" "\<not> is_digit c"
    and eq: "join '','' (map f xs) @ c # s = join '','' (map f ys) @ c # t"
  shows "xs = ys \<and> s = t"
proof (cases xs)
  case Nil
  then show ?thesis using eq head by (cases ys) (auto simp: join_Cons dest: sym)
next
  case (Cons x xs')
  then obtain y ys' where ys: "ys = y # ys'"
    using eq head by (cases ys) (auto simp: join_Cons)
  let ?rest = "\<lambda>zs u. concat (map (\<lambda>y. CHR '','' # f y) zs) @ c # u"
  have no_digit: "no_digit (?rest zs u)" for zs u
    using c(2) by (cases zs) auto
  have "f x @ ?rest xs' s = f y @ ?rest ys' t"
    using eq Cons ys by (simp add: join_Cons comp_def)
  then have "x = y \<and> ?rest xs' s = ?rest ys' t"
    by (rule inj [OF _ _ no_digit no_digit, rotated]) (simp add: Cons)
  moreover have "xs' = ys' \<and> s = t" if "?rest xs' s = ?rest ys' t"
  proof (rule items_text_inj [OF _ c that])
    fix a b u v
    assume "a \<in> set xs'" "f a @ u = f b @ v" "no_digit u" "no_digit v"
    then show "a = b \<and> u = v" using Cons by (intro inj) simp_all
  qed
  ultimately show ?thesis using Cons ys by simp
qed

lemma json_text_head:
  "\<exists>c cs. json_text j = c # cs \<and> (is_digit c \<or> c \<in> {CHR ''-'', CHR ''n'', CHR 0x22, CHR ''['', CHR ''{''}) \<and>
     (case j of J_null \<Rightarrow> c = CHR ''n'' | J_int _ \<Rightarrow> is_digit c \<or> c = CHR ''-'' | J_str _ \<Rightarrow> c = CHR 0x22
      | J_list _ \<Rightarrow> c = CHR ''['' | J_obj _ \<Rightarrow> c = CHR ''{'')"
proof (cases j)
  case (J_int i)
  then show ?thesis using show_int_head [of i] by auto
qed (auto simp: json_str_def)

lemma json_text_not_close: "json_text j @ u \<noteq> CHR '']'' # v"
  using json_text_head [of j] by auto

lemma json_pair_not_close: "(case p of (k, v) \<Rightarrow> json_str k @ '':'' @ json_text v) @ u \<noteq> CHR ''}'' # w"
  by (cases p) (simp add: json_str_def)

lemma json_text_inj:
  "json_text a @ s = json_text b @ t \<Longrightarrow> no_digit s \<Longrightarrow> no_digit t \<Longrightarrow> a = b \<and> s = t"
proof (induction a arbitrary: b s t)
  case J_null
  then show ?case using json_text_head [of b] by (cases b) auto
next
  case (J_int i)
  then show ?case
    using json_text_head [of b] show_int_head [of i] by (cases b) (auto dest: show_int_inj)
next
  case (J_str x)
  then show ?case
    using json_text_head [of b] json_str_inj [of x s] by (cases b) (auto simp: json_str_def)
next
  case (J_list xs)
  have "json_text (J_list xs) @ s = CHR ''['' # join '','' (map json_text xs) @ CHR '']'' # s" for xs s by simp
  then obtain ys where b: "b = J_list ys"
    using J_list.prems(1) json_text_head [of b] by (cases b) auto
  have "xs = ys \<and> s = t"
    using J_list.prems b
    by (intro join_text_inj [where f = json_text and c = "CHR '']''"] J_list.IH json_text_not_close) auto
  then show ?case using b by simp
next
  case (J_obj kvs)
  then obtain kvs' where b: "b = J_obj kvs'"
    using json_text_head [of b] by (cases b) auto
  have "kvs = kvs' \<and> s = t"
  proof (rule join_text_inj [where f = "\<lambda>(k, v). json_str k @ '':'' @ json_text v" and c = "CHR ''}''"])
    fix x y u v
    assume x: "x \<in> set kvs" and eq: "(case x of (k, v) \<Rightarrow> json_str k @ '':'' @ json_text v) @ u
        = (case y of (k, v) \<Rightarrow> json_str k @ '':'' @ json_text v) @ v" and nd: "no_digit u" "no_digit v"
    obtain k j k' j' where xy: "x = (k, j)" "y = (k', j')" by (cases x; cases y)
    have "json_str k @ CHR '':'' # json_text j @ u = json_str k' @ CHR '':'' # json_text j' @ v"
      using eq xy by simp
    then have "k = k'" and "json_text j @ u = json_text j' @ v" by (auto dest: json_str_inj)
    with J_obj.IH [of x j] x xy nd show "x = y \<and> u = v" by auto
  qed (use J_obj.prems b json_pair_not_close in auto)
  then show ?case using b by simp
qed

lemma json_dumps_inj: "json_dumps a = json_dumps b \<longleftrightarrow> json_norm a = json_norm b"
  unfolding json_dumps_def using json_text_inj [of "json_norm a" "[]" "json_norm b" "[]"] by auto

end
