(* ===== verification/WeatherModels.thy ===== *)
theory WeatherModels
  imports DomainModels Json
begin

text \<open>
  \<open>domain/weather_models.py\<close>: the enumerations with their values, the standardised forecast,
  the risk of a day, change events with their receipts, the impact on a plan, the repair
  plan, and the monitor state that a plan session carries.
\<close>

section \<open>Enumerations\<close>

datatype weather_availability = Av_fresh | Av_stale | Av_unavailable

datatype weather_phenomenon =
  Clear | Cloudy | Rain | Heavy_rain | Thunderstorm | Snow | Ice | Fog | Dust | Unknown_phenomenon

fun phenomenon_value :: "weather_phenomenon \<Rightarrow> string" where
  "phenomenon_value Clear = ''clear''"
| "phenomenon_value Cloudy = ''cloudy''"
| "phenomenon_value Rain = ''rain''"
| "phenomenon_value Heavy_rain = ''heavy_rain''"
| "phenomenon_value Thunderstorm = ''thunderstorm''"
| "phenomenon_value Snow = ''snow''"
| "phenomenon_value Ice = ''ice''"
| "phenomenon_value Fog = ''fog''"
| "phenomenon_value Dust = ''dust''"
| "phenomenon_value Unknown_phenomenon = ''unknown''"

datatype weather_risk_kind =
  K_precipitation | K_thunderstorm | K_snow_or_ice | K_extreme_heat | K_extreme_cold
| K_strong_wind | K_low_visibility | K_unknown

fun risk_kind_value :: "weather_risk_kind \<Rightarrow> string" where
  "risk_kind_value K_precipitation = ''precipitation''"
| "risk_kind_value K_thunderstorm = ''thunderstorm''"
| "risk_kind_value K_snow_or_ice = ''snow_or_ice''"
| "risk_kind_value K_extreme_heat = ''extreme_heat''"
| "risk_kind_value K_extreme_cold = ''extreme_cold''"
| "risk_kind_value K_strong_wind = ''strong_wind''"
| "risk_kind_value K_low_visibility = ''low_visibility''"
| "risk_kind_value K_unknown = ''unknown''"

datatype weather_risk_level = L_normal | L_warning | L_severe | L_unknown

fun risk_level_value :: "weather_risk_level \<Rightarrow> string" where
  "risk_level_value L_normal = ''normal''"
| "risk_level_value L_warning = ''warning''"
| "risk_level_value L_severe = ''severe''"
| "risk_level_value L_unknown = ''unknown''"

datatype change_event_kind = Weather_alert | Weather_risk_changed | Weather_recovered

fun change_event_kind_value :: "change_event_kind \<Rightarrow> string" where
  "change_event_kind_value Weather_alert = ''weather_alert''"
| "change_event_kind_value Weather_risk_changed = ''weather_risk_changed''"
| "change_event_kind_value Weather_recovered = ''weather_recovered''"

datatype exposure_kind = Indoor | Outdoor | Mixed | Unknown_exposure

fun exposure_kind_value :: "exposure_kind \<Rightarrow> string" where
  "exposure_kind_value Indoor = ''indoor''"
| "exposure_kind_value Outdoor = ''outdoor''"
| "exposure_kind_value Mixed = ''mixed''"
| "exposure_kind_value Unknown_exposure = ''unknown''"

datatype weather_event_status =
  Ev_observed | Ev_no_plan_impact | Ev_needs_user_attention | Ev_preview_created
| Ev_approved | Ev_rejected | Ev_dismissed

datatype refresh_outcome =
  Out_no_change | Out_duplicate | Out_recovered | Out_no_plan_impact
| Out_needs_user_attention | Out_preview_created | Out_provider_failed

section \<open>Forecasts and risks\<close>

record weather_location =
  city_name :: string
  adcode :: string
  wl_timezone :: string
  wl_provider :: string
  wl_longitude :: "rat option"
  wl_latitude :: "rat option"

record daily_weather =
  w_date :: py_date
  day_phenomenon :: weather_phenomenon
  night_phenomenon :: weather_phenomenon
  high_celsius :: "int option"
  low_celsius :: "int option"
  day_wind_level :: "int option"
  night_wind_level :: "int option"

definition optional_in :: "int \<Rightarrow> int \<Rightarrow> int option \<Rightarrow> bool" where
  "optional_in lo hi x \<longleftrightarrow> (case x of None \<Rightarrow> True | Some v \<Rightarrow> lo \<le> v \<and> v \<le> hi)"

definition daily_weather_fields_ok :: "daily_weather \<Rightarrow> bool" where
  "daily_weather_fields_ok w \<longleftrightarrow> optional_in (-80) 80 (high_celsius w) \<and>
     optional_in (-80) 80 (low_celsius w) \<and> optional_in 0 17 (day_wind_level w) \<and>
     optional_in 0 17 (night_wind_level w)"

definition validate_temperature_order :: "daily_weather \<Rightarrow> (string, daily_weather) result" where
  "validate_temperature_order w =
     (case (high_celsius w, low_celsius w) of
        (Some h, Some l) \<Rightarrow>
          if h < l then Inl ''high_celsius must not be lower than low_celsius'' else Inr w
      | _ \<Rightarrow> Inr w)"

record weather_forecast =
  wf_location :: weather_location
  wf_provider :: string
  wf_reported_at :: "datetime option"
  wf_days :: "daily_weather list"

record weather_snapshot =
  ws_id :: string
  ws_location :: weather_location
  ws_provider :: string
  ws_reported_at :: "datetime option"
  ws_fetched_at :: datetime
  ws_expires_at :: datetime
  ws_days :: "daily_weather list"
  ws_fingerprint :: string

record daily_risk =
  r_date :: py_date
  r_level :: weather_risk_level
  r_kinds :: "weather_risk_kind list"
  r_evidence :: "string list"
  r_policy_version :: string
  r_fingerprint :: string

section \<open>Events, impact and repair\<close>

record change_event =
  ev_id :: string
  ev_fingerprint :: string
  ev_kind :: change_event_kind
  ev_session_id :: string
  ev_base_version_id :: string
  ev_previous_snapshot_id :: "string option"
  ev_current_snapshot_id :: string
  ev_affected_dates :: "py_date list"
  ev_before :: "string list"
  ev_after :: "string list"
  ev_created_at :: datetime

record activity_exposure =
  ex_item_id :: string
  ex_kind :: exposure_kind
  ex_rule_id :: "string option"
  ex_confidence :: rat

record weather_impact =
  wi_event_id :: string
  wi_affected_dates :: "py_date list"
  wi_affected_items :: "string list"
  wi_preserved_dates :: "py_date list"
  wi_lock_conflicts :: "string list"
  wi_unknown_items :: "string list"
  wi_attention :: bool
  wi_reasons :: "string list"

datatype weather_action_kind = Replace_with_indoor | Move_to_safe_date | Remove_optional_item

record weather_action =
  wa_kind :: weather_action_kind
  wa_item_id :: string
  wa_target_date :: "py_date option"
  wa_replacement_id :: "string option"
  wa_replacement_name :: "string option"
  wa_evidence :: "string list"

record weather_repair_plan =
  wr_event_id :: string
  wr_base_version_id :: string
  wr_affected_dates :: "py_date list"
  wr_actions :: "weather_action list"
  wr_required_tools :: "string list"
  wr_preserved_fingerprints :: "(string \<times> string) list"

record weather_receipt =
  wrc_event_id :: string
  wrc_fingerprint :: string
  wrc_status :: weather_event_status
  wrc_preview_id :: "string option"
  wrc_version_id :: "string option"

section \<open>Monitor\<close>

record weather_monitor =
  mon_location :: "weather_location option"
  availability :: weather_availability
  latest_snapshot_id :: "string option"
  previous_snapshot_id :: "string option"
  latest_event_id :: "string option"
  attention_event_id :: "string option"
  last_outcome :: "refresh_outcome option"
  last_attempt_at :: "datetime option"
  last_success_at :: "datetime option"
  last_safe_error_code :: "string option"
  uncovered_dates :: "py_date list"
  event_receipts :: "(string \<times> weather_receipt) list"

definition new_monitor :: weather_monitor where
  "new_monitor = \<lparr>mon_location = None, availability = Av_unavailable, latest_snapshot_id = None,
     previous_snapshot_id = None, latest_event_id = None, attention_event_id = None,
     last_outcome = None, last_attempt_at = None, last_success_at = None,
     last_safe_error_code = None, uncovered_dates = [], event_receipts = []\<rparr>"

record weather_state_view =
  view_monitor :: weather_monitor
  view_snapshot :: "weather_snapshot option"
  view_risks :: "daily_risk list"
  view_event :: "change_event option"

lemma inj_risk_kind_value: "risk_kind_value a = risk_kind_value b \<longleftrightarrow> a = b"
  by (cases a; cases b) simp_all

end
