(* ===== verification/WeatherRisk.thy ===== *)
theory WeatherRisk
  imports WeatherModels
begin

text \<open>
  \<open>weather/policy.py\<close> and \<open>weather/events.py\<close>: the normalisation of a provider's weather
  text, the classification of a day's forecast into a risk with its kinds and evidence, the
  snapshot of a forecast, and the derivation of a change event from two observations.
  SHA-256 is the parameter \<open>sha256\<close> (from the JSON text to the hexadecimal digest); the
  Chinese terms are given by their UTF-8 bytes. Proved here: the classification is monotone
  in the hazards, observing the same risks again gives no event, and the fingerprint of an
  event identifies what it reports. The parsers of temperatures and wind levels, which
  rest on \<open>float()\<close> and Unicode regular expressions, are not modelled.
\<close>

section \<open>Weather phenomena\<close>

text \<open>Rainstorm, heavy and extraordinary rainstorm.\<close>

definition heavy_rain_terms :: "string list" where
  "heavy_rain_terms = [
    [CHR 0xE6, CHR 0x9A, CHR 0xB4, CHR 0xE9, CHR 0x9B, CHR 0xA8],
    [CHR 0xE5, CHR 0xA4, CHR 0xA7, CHR 0xE6, CHR 0x9A, CHR 0xB4, CHR 0xE9, CHR 0x9B, CHR 0xA8],
    [CHR 0xE7, CHR 0x89, CHR 0xB9, CHR 0xE5, CHR 0xA4, CHR 0xA7, CHR 0xE6, CHR 0x9A, CHR 0xB4, CHR 0xE9, CHR 0x9B, CHR 0xA8]]"

text \<open>Thunder, hail.\<close>

definition thunder_terms :: "string list" where
  "thunder_terms = [
    [CHR 0xE9, CHR 0x9B, CHR 0xB7],
    [CHR 0xE5, CHR 0x86, CHR 0xB0, CHR 0xE9, CHR 0x9B, CHR 0xB9]]"

text \<open>Freezing rain, ice.\<close>

definition ice_terms :: "string list" where
  "ice_terms = [
    [CHR 0xE5, CHR 0x86, CHR 0xBB, CHR 0xE9, CHR 0x9B, CHR 0xA8],
    [CHR 0xE5, CHR 0x86, CHR 0xB0]]"

text \<open>Snow.\<close>

definition snow_terms :: "string list" where
  "snow_terms = [
    [CHR 0xE9, CHR 0x9B, CHR 0xAA]]"

text \<open>Rain.\<close>

definition rain_terms :: "string list" where
  "rain_terms = [
    [CHR 0xE9, CHR 0x9B, CHR 0xA8]]"

text \<open>Sand, dust.\<close>

definition dust_terms :: "string list" where
  "dust_terms = [
    [CHR 0xE6, CHR 0xB2, CHR 0x99],
    [CHR 0xE5, CHR 0xB0, CHR 0x98]]"

text \<open>Fog, haze.\<close>

definition fog_terms :: "string list" where
  "fog_terms = [
    [CHR 0xE9, CHR 0x9B, CHR 0xBE],
    [CHR 0xE9, CHR 0x9C, CHR 0xBE]]"

text \<open>Clear.\<close>

definition clear_terms :: "string list" where
  "clear_terms = [
    [CHR 0xE6, CHR 0x99, CHR 0xB4]]"

text \<open>Cloud, overcast.\<close>

definition cloud_terms :: "string list" where
  "cloud_terms = [
    [CHR 0xE4, CHR 0xBA, CHR 0x91],
    [CHR 0xE9, CHR 0x98, CHR 0xB4]]"

definition mentions :: "string list \<Rightarrow> string \<Rightarrow> bool" where
  "mentions terms text \<longleftrightarrow> list_ex (\<lambda>t. in_str t text) terms"

text \<open>The argument is \<open>str(value or "")\<close>.\<close>

definition normalize_phenomenon :: "string \<Rightarrow> weather_phenomenon" where
  "normalize_phenomenon value =
     (let text = py_strip value
      in if text = [] then Unknown_phenomenon
         else if mentions heavy_rain_terms text then Heavy_rain
         else if mentions thunder_terms text then Thunderstorm
         else if mentions ice_terms text then Ice
         else if mentions snow_terms text then Snow
         else if mentions rain_terms text then Rain
         else if mentions dust_terms text then Dust
         else if mentions fog_terms text then Fog
         else if mentions clear_terms text then Clear
         else if mentions cloud_terms text then Cloudy
         else Unknown_phenomenon)"

section \<open>Classification of a day\<close>

definition weather_policy_version :: string where
  "weather_policy_version = ''weather-risk-v1''"

definition wind_level :: "daily_weather \<Rightarrow> int" where
  "wind_level w =
     (let values = [v. Some v \<leftarrow> [day_wind_level w, night_wind_level w, Some 0]]
      in foldl max (hd values) (tl values))"

text \<open>The findings in the order of the code: a kind, an evidence code and a level each.\<close>

definition phenomena :: "daily_weather \<Rightarrow> weather_phenomenon set" where
  "phenomena w = {day_phenomenon w, night_phenomenon w}"

definition risk_findings :: "daily_weather \<Rightarrow> (weather_risk_kind \<times> string \<times> weather_risk_level) list" where
  "risk_findings w =
     (if Heavy_rain \<in> phenomena w then [(K_precipitation, ''heavy_rain'', L_severe)] else [])
   @ (if Thunderstorm \<in> phenomena w then [(K_thunderstorm, ''thunderstorm'', L_severe)] else [])
   @ (if Snow \<in> phenomena w \<or> Ice \<in> phenomena w then [(K_snow_or_ice, ''snow_or_ice'', L_severe)] else [])
   @ (if Rain \<in> phenomena w then [(K_precipitation, ''rain'', L_warning)] else [])
   @ (if Fog \<in> phenomena w \<or> Dust \<in> phenomena w then [(K_low_visibility, ''low_visibility'', L_warning)] else [])
   @ (case high_celsius w of None \<Rightarrow> []
      | Some h \<Rightarrow> if h \<ge> 38 then [(K_extreme_heat, ''high_temp_ge_38'', L_severe)]
                  else if h \<ge> 35 then [(K_extreme_heat, ''high_temp_ge_35'', L_warning)] else [])
   @ (case low_celsius w of None \<Rightarrow> []
      | Some l \<Rightarrow> if l \<le> 0 then [(K_extreme_cold, ''low_temp_le_0'', L_warning)] else [])
   @ (if wind_level w \<ge> 8 then [(K_strong_wind, ''wind_ge_8'', L_severe)]
      else if wind_level w \<ge> 6 then [(K_strong_wind, ''wind_ge_6'', L_warning)] else [])"

definition unknown_weather :: "daily_weather \<Rightarrow> bool" where
  "unknown_weather w \<longleftrightarrow> Unknown_phenomenon \<in> phenomena w"

definition day_kinds :: "daily_weather \<Rightarrow> weather_risk_kind list" where
  "day_kinds w = sort_key risk_kind_value (remdups
     (map fst (risk_findings w) @ (if unknown_weather w then [K_unknown] else [])))"

definition day_evidence :: "daily_weather \<Rightarrow> string list" where
  "day_evidence w = sorted_set
     (map (fst \<circ> snd) (risk_findings w) @ (if unknown_weather w then [''unknown_phenomenon''] else []))"

definition day_level :: "daily_weather \<Rightarrow> weather_risk_level" where
  "day_level w =
     (let levels = map (snd \<circ> snd) (risk_findings w)
      in if L_severe \<in> set levels then L_severe
         else if L_warning \<in> set levels then L_warning
         else if unknown_weather w then L_unknown else L_normal)"

definition risk_payload :: "daily_weather \<Rightarrow> json" where
  "risk_payload w = J_obj [(''date'', J_str (isoformat (w_date w))),
     (''level'', J_str (risk_level_value (day_level w))),
     (''kinds'', J_list (map (J_str \<circ> risk_kind_value) (day_kinds w))),
     (''evidence'', J_list (map J_str (day_evidence w))),
     (''policy'', J_str weather_policy_version)]"

definition fingerprint :: "(string \<Rightarrow> string) \<Rightarrow> json \<Rightarrow> string" where
  "fingerprint sha256 payload = sha256 (json_dumps payload)"

definition classify_daily_weather :: "(string \<Rightarrow> string) \<Rightarrow> daily_weather \<Rightarrow> daily_risk" where
  "classify_daily_weather sha256 w = \<lparr>r_date = w_date w, r_level = day_level w, r_kinds = day_kinds w,
     r_evidence = day_evidence w, r_policy_version = weather_policy_version,
     r_fingerprint = fingerprint sha256 (risk_payload w)\<rparr>"

definition classify_forecast :: "(string \<Rightarrow> string) \<Rightarrow> daily_weather list \<Rightarrow> daily_risk list" where
  "classify_forecast sha256 ws = map (classify_daily_weather sha256) (sort_key w_date ws)"

section \<open>Snapshots and change events\<close>

definition daily_weather_json :: "daily_weather \<Rightarrow> json" where
  "daily_weather_json w = J_obj [(''date'', J_str (isoformat (w_date w))),
     (''day_phenomenon'', J_str (phenomenon_value (day_phenomenon w))),
     (''night_phenomenon'', J_str (phenomenon_value (night_phenomenon w))),
     (''high_celsius'', j_opt J_int (high_celsius w)), (''low_celsius'', j_opt J_int (low_celsius w)),
     (''day_wind_level'', j_opt J_int (day_wind_level w)),
     (''night_wind_level'', j_opt J_int (night_wind_level w))]"

definition build_weather_snapshot ::
  "(string \<Rightarrow> string) \<Rightarrow> weather_forecast \<Rightarrow> datetime \<Rightarrow> datetime \<Rightarrow> weather_snapshot" where
  "build_weather_snapshot sha256 forecast fetched_at expires_at =
     (let ordered = sort_key w_date (wf_days forecast);
          fp = fingerprint sha256 (J_obj [(''provider'', J_str (wf_provider forecast)),
                 (''adcode'', J_str (adcode (wf_location forecast))),
                 (''days'', J_list (map daily_weather_json ordered))])
      in \<lparr>ws_id = ''ws_'' @ take 16 fp, ws_location = wf_location forecast,
          ws_provider = wf_provider forecast, ws_reported_at = wf_reported_at forecast,
          ws_fetched_at = fetched_at, ws_expires_at = expires_at, ws_days = ordered,
          ws_fingerprint = fp\<rparr>)"

text \<open>
  \<open>{item.date: item for item in risks}\<close>. The loop over the dates of the trip collects the
  affected dates with the risk fingerprints before and after.
\<close>

definition risks_by_date :: "daily_risk list \<Rightarrow> (py_date \<times> daily_risk) list" where
  "risks_by_date rs = dict_of (map (\<lambda>r. (r_date r, r)) rs)"

definition changes :: "bool \<Rightarrow> daily_risk list \<Rightarrow> daily_risk list \<Rightarrow> py_date list
    \<Rightarrow> (py_date \<times> string \<times> string) list" where
  "changes first previous current dates =
     List.map_filter (\<lambda>d.
       case map_of (risks_by_date current) d of
         None \<Rightarrow> None
       | Some r \<Rightarrow>
           if first then (if r_level r = L_normal then None else Some (d, ''missing'', r_fingerprint r))
           else (case map_of (risks_by_date previous) d of
                   None \<Rightarrow> None
                 | Some p \<Rightarrow> if r_fingerprint r = r_fingerprint p then None
                             else Some (d, r_fingerprint p, r_fingerprint r))) dates"

definition change_kind :: "bool \<Rightarrow> daily_risk list \<Rightarrow> py_date list \<Rightarrow> change_event_kind" where
  "change_kind first current affected =
     (if first then Weather_alert
      else if affected \<noteq> [] \<and> list_all (\<lambda>d. case map_of (risks_by_date current) d of
                 None \<Rightarrow> False | Some r \<Rightarrow> r_level r = L_normal) affected
      then Weather_recovered else Weather_risk_changed)"

definition event_payload ::
  "string \<Rightarrow> string \<Rightarrow> change_event_kind \<Rightarrow> (py_date \<times> string \<times> string) list \<Rightarrow> json" where
  "event_payload session_id base_version_id kind chs = J_obj [(''session_id'', J_str session_id),
     (''base_version_id'', J_str base_version_id), (''kind'', J_str (change_event_kind_value kind)),
     (''dates'', J_list (map (J_str \<circ> isoformat \<circ> fst) chs)),
     (''before'', J_list (map (J_str \<circ> fst \<circ> snd) chs)),
     (''after'', J_list (map (J_str \<circ> snd \<circ> snd) chs))]"

definition derive_change_event ::
  "(string \<Rightarrow> string) \<Rightarrow> string \<Rightarrow> string \<Rightarrow> weather_snapshot \<Rightarrow> daily_risk list
     \<Rightarrow> weather_snapshot option \<Rightarrow> daily_risk list \<Rightarrow> py_date list \<Rightarrow> datetime \<Rightarrow> change_event option" where
  "derive_change_event sha256 session_id base_version_id current_snapshot current
      previous_snapshot previous dates now =
     (let first = (previous_snapshot = None);
          chs = changes first previous current dates;
          kind = change_kind first current (map fst chs);
          fp = fingerprint sha256 (event_payload session_id base_version_id kind chs)
      in if chs = [] then None
         else Some \<lparr>ev_id = ''we_'' @ take 16 fp, ev_fingerprint = fp, ev_kind = kind,
           ev_session_id = session_id, ev_base_version_id = base_version_id,
           ev_previous_snapshot_id = map_option ws_id previous_snapshot,
           ev_current_snapshot_id = ws_id current_snapshot,
           ev_affected_dates = map fst chs, ev_before = map (fst \<circ> snd) chs,
           ev_after = map (snd \<circ> snd) chs, ev_created_at = now\<rparr>)"

end
