(* ===== verification/Critique.thy ===== *)
theory Critique
  imports PlanSchedule
begin

text \<open>
  \<open>domain/critique_models.py\<close>, \<open>critique/quality.py\<close> and \<open>critique/grounding.py\<close>: the soft
  critique of a plan, its weighted quality score, the choice of a candidate by quality,
  and the check that a critique only cites the evidence it was given. Proved: the score of
  an accepted critique lies between 0 and 100, hard validity comes before the soft score,
  and a critique that passes the grounding check cites only known evidence and never
  proposes to remove a must-visit place.
\<close>

section \<open>Models\<close>

datatype evidence_kind =
  E_trip_preference | E_candidate_metric | E_day_metric | E_poi_fact | E_schedule_fact
| E_route_fact | E_assumption

datatype evidence_value = V_str string | V_int int | V_float rat | V_bool bool

record evidence_item =
  e_id :: string
  e_kind :: evidence_kind
  e_candidate_id :: string
  e_day :: "py_date option"
  e_entity_id :: "string option"
  e_field :: string
  e_value :: evidence_value
  e_source :: string
  e_confidence :: rat

record evidence_digest =
  ed_candidate_id :: string
  ed_style :: plan_style
  evidence :: "evidence_item list"
  ed_input_chars :: int
  ed_truncated :: bool

datatype soft_dimension =
  D_pace | D_interest_coverage | D_diversity | D_rest_friendliness | D_geographic_coherence

fun soft_dimension_value :: "soft_dimension \<Rightarrow> string" where
  "soft_dimension_value D_pace = ''pace''"
| "soft_dimension_value D_interest_coverage = ''interest_coverage''"
| "soft_dimension_value D_diversity = ''diversity''"
| "soft_dimension_value D_rest_friendliness = ''rest_friendliness''"
| "soft_dimension_value D_geographic_coherence = ''geographic_coherence''"

definition all_dimensions :: "soft_dimension list" where
  "all_dimensions = [D_pace, D_interest_coverage, D_diversity, D_rest_friendliness, D_geographic_coherence]"

datatype suggested_kind = Move_optional | Reorder_optional | Remove_optional | No_action

record suggested_action =
  s_kind :: suggested_kind
  s_poi_id :: "string option"
  s_from_day :: "py_date option"
  s_to_day :: "py_date option"
  s_evidence_ids :: "string list"
  s_expected_dimension :: "soft_dimension option"

text \<open>\<open>any((self.poi_id, ...))\<close>: an empty string counts as absent; a date is always present.\<close>

definition validate_field_combination :: "suggested_action \<Rightarrow> (string, suggested_action) result" where
  "validate_field_combination a =
     (if s_kind a = No_action then
        (if (s_poi_id a \<noteq> None \<and> s_poi_id a \<noteq> Some []) \<or> s_from_day a \<noteq> None \<or> s_to_day a \<noteq> None
         then Inl ''no_action must not identify a POI or date'' else Inr a)
      else if s_poi_id a = None \<or> s_from_day a = None
        then Inl ''a soft action requires poi_id and from_day''
      else if s_kind a = Move_optional then
        (if s_to_day a = None \<or> s_to_day a = s_from_day a
         then Inl ''move_optional_poi requires a different to_day'' else Inr a)
      else if s_to_day a \<noteq> None \<and> s_to_day a \<noteq> s_from_day a
        then Inl ''non-move actions cannot target another day''
      else Inr a)"

record dimension_critique =
  dc_dimension :: soft_dimension
  dc_score :: int
  dc_summary :: string
  dc_evidence_ids :: "string list"
  dc_action :: "suggested_action option"

definition dimension_fields_ok :: "dimension_critique \<Rightarrow> bool" where
  "dimension_fields_ok d \<longleftrightarrow> 0 \<le> dc_score d \<and> dc_score d \<le> 100 \<and>
     1 \<le> length (dc_summary d) \<and> 1 \<le> length (dc_evidence_ids d) \<and> length (dc_evidence_ids d) \<le> 12"

record soft_critique =
  sc_candidate_id :: string
  sc_dimensions :: "dimension_critique list"
  sc_overall_summary :: string
  sc_tradeoff_evidence :: "string list"

datatype critic_status =
  Not_run | Critic_pending | Critic_success | Critic_unavailable | Invalid_grounding | Critic_disabled

record critic_summary =
  cs_provider :: string
  cs_model :: string
  cs_prompt_version :: string
  cs_status :: critic_status
  cs_attempts :: int
  cs_grounding_attempts :: int
  cs_elapsed_ms :: rat
  cs_input_tokens :: "int option"
  cs_output_tokens :: "int option"
  cs_input_chars :: int
  cs_error_category :: "string option"

record critic_request =
  cq_digests :: "evidence_digest list"
  cq_feedback :: "string list"

definition make_critic_request ::
  "evidence_digest list \<Rightarrow> string list \<Rightarrow> (string, critic_request) result" where
  "make_critic_request digests feedback =
     (if length digests < 1 \<or> length digests > 3 then Inl ''validation error: digests''
      else if length feedback > 20 then Inl ''validation error: grounding_feedback''
      else Inr \<lparr>cq_digests = digests, cq_feedback = feedback\<rparr>)"

definition request_input_chars :: "critic_request \<Rightarrow> int" where
  "request_input_chars q = sum_list (map ed_input_chars (cq_digests q))"

section \<open>Quality\<close>

record critic_policy =
  weights :: "(soft_dimension \<times> rat) list"
  quality_threshold :: rat
  min_improvement :: rat
  max_soft_replan_rounds :: int
  grounding_max_attempts :: int

definition default_critic_policy :: critic_policy where
  "default_critic_policy = \<lparr>weights = [(D_pace, 25 / 100), (D_interest_coverage, 25 / 100),
     (D_diversity, 15 / 100), (D_rest_friendliness, 15 / 100), (D_geographic_coherence, 20 / 100)],
     quality_threshold = 70, min_improvement = 5, max_soft_replan_rounds = 1,
     grounding_max_attempts = 2\<rparr>"

definition critic_policy_post_init :: "critic_policy \<Rightarrow> (string, critic_policy) result" where
  "critic_policy_post_init p =
     (if set (map fst (weights p)) \<noteq> set all_dimensions
        then Inl ''critic weights must cover every soft dimension''
      else if \<bar>sum_list (map snd (weights p)) - 1\<bar> > 1 / 1000000000
        then Inl ''critic weights must sum to 1''
      else if list_ex (\<lambda>w. w < 0) (map snd (weights p))
        then Inl ''critic weights must be non-negative''
      else if \<not> (0 \<le> quality_threshold p \<and> quality_threshold p \<le> 100)
        then Inl ''quality_threshold must be between 0 and 100''
      else if \<not> (0 \<le> min_improvement p \<and> min_improvement p \<le> 100)
        then Inl ''min_improvement must be between 0 and 100''
      else if \<not> (0 \<le> max_soft_replan_rounds p \<and> max_soft_replan_rounds p \<le> 1)
        then Inl ''v0.7 supports at most one soft replan round''
      else if grounding_max_attempts p < 1 \<or> grounding_max_attempts p > 2
        then Inl ''grounding_max_attempts must be 1 or 2''
      else Inr p)"

definition scores_of :: "soft_critique \<Rightarrow> (soft_dimension \<times> int) list" where
  "scores_of c = dict_of (map (\<lambda>d. (dc_dimension d, dc_score d)) (sc_dimensions c))"

definition quality_score :: "soft_critique \<Rightarrow> critic_policy \<Rightarrow> (string, rat) result" where
  "quality_score c p =
     (if set (map fst (scores_of c)) \<noteq> set all_dimensions
        then Inl ''cannot score an incomplete critique''
      else Inr (round_to 2 (sum_list (map (\<lambda>d.
             of_int (the (map_of (scores_of c) d)) * the (map_of (weights p) d)) all_dimensions))))"

definition quality_scores ::
  "soft_critique list \<Rightarrow> critic_policy \<Rightarrow> (string, (string \<times> rat) list) result" where
  "quality_scores cs p =
     fold_res (\<lambda>c acc. bind_res (quality_score c p) (\<lambda>q. Inr (AList.update (sc_candidate_id c) q acc))) cs []"

text \<open>A missing score counts as minus infinity.\<close>

definition negated_score :: "rat option \<Rightarrow> nat \<times> rat" where
  "negated_score q = (case q of Some x \<Rightarrow> (0, - x) | None \<Rightarrow> (1, 0))"

definition quality_key ::
  "(string \<times> rat) list \<Rightarrow> plan_candidate \<Rightarrow> nat \<times> (nat \<times> rat) \<times> (nat \<times> rat) \<times> string" where
  "quality_key scores c =
     ((case validation c of Some v \<Rightarrow> if status v = Valid then 0 else 1 | None \<Rightarrow> 1),
      negated_score (map_of scores (cand_id c)), negated_score (score c), cand_id c)"

definition select_by_quality ::
  "plan_candidate list \<Rightarrow> (string \<times> rat) list \<Rightarrow> plan_candidate option" where
  "select_by_quality cs scores =
     (case cs of [] \<Rightarrow> None | c # rest \<Rightarrow> Some (min_by (quality_key scores) c rest))"

section \<open>Grounding\<close>

definition dimension_set_errors :: "string \<Rightarrow> soft_dimension list \<Rightarrow> string list" where
  "dimension_set_errors cid dims =
     (if set dims \<noteq> set all_dimensions \<or> length dims \<noteq> length all_dimensions
      then [''dimension_set_invalid:'' @ cid] else [])
   @ [''duplicate_dimension:'' @ cid @ '':'' @ soft_dimension_value d.
        d \<leftarrow> first_occurrences dims, count_list dims d \<noteq> 1]"

definition unknown_evidence :: "string \<Rightarrow> string \<Rightarrow> evidence_item list \<Rightarrow> string list \<Rightarrow> string list" where
  "unknown_evidence tag cid evs ids =
     [tag @ '':'' @ cid @ '':'' @ i. i \<leftarrow> ids, i \<notin> set (map e_id evs)]"

definition show_poi :: "string option \<Rightarrow> string" where
  "show_poi p = (case p of None \<Rightarrow> ''None'' | Some x \<Rightarrow> x)"

definition action_errors :: "string \<Rightarrow> evidence_item list \<Rightarrow> soft_dimension \<Rightarrow> suggested_action \<Rightarrow> string list" where
  "action_errors cid evs d a =
     (let entity = filter (\<lambda>e. e_entity_id e = s_poi_id a) evs;
          here = '':'' @ cid @ '':'' @ show_poi (s_poi_id a)
      in (if s_evidence_ids a = [] then [''action_missing_evidence:'' @ cid @ '':'' @ soft_dimension_value d] else [])
       @ unknown_evidence ''action_unknown_evidence'' cid evs (s_evidence_ids a)
       @ (if entity = [] then [''action_unknown_poi'' @ here] else [])
       @ (if s_from_day a \<noteq> None \<and> \<not> list_ex (\<lambda>e. e_day e = s_from_day a) entity
          then [''action_invalid_from_day'' @ here] else [])
       @ (if s_kind a = Move_optional \<and> s_to_day a \<noteq> None \<and> \<not> list_ex (\<lambda>e. e_day e = s_to_day a) evs
          then [''action_invalid_to_day'' @ here] else [])
       @ (if s_kind a = Remove_optional \<and>
             list_ex (\<lambda>e. e_field e = ''must_visit'' \<and> e_value e = V_bool True) entity
          then [''action_removes_must_visit'' @ here] else []))"

definition dimension_errors :: "string \<Rightarrow> evidence_item list \<Rightarrow> dimension_critique \<Rightarrow> string list" where
  "dimension_errors cid evs d =
     (if dc_evidence_ids d = []
      then [''missing_evidence:'' @ cid @ '':'' @ soft_dimension_value (dc_dimension d)] else [])
   @ unknown_evidence ''unknown_evidence'' cid evs (dc_evidence_ids d)
   @ (case dc_action d of
        None \<Rightarrow> []
      | Some a \<Rightarrow> if s_kind a = No_action then [] else action_errors cid evs (dc_dimension d) a)"

definition critique_errors :: "(string \<times> evidence_digest) list \<Rightarrow> soft_critique \<Rightarrow> string list" where
  "critique_errors digests c =
     (let cid = sc_candidate_id c
      in case map_of digests cid of
           None \<Rightarrow> [''unknown_candidate:'' @ cid]
         | Some dg \<Rightarrow>
             dimension_set_errors cid (map dc_dimension (sc_dimensions c))
           @ concat (map (dimension_errors cid (evidence dg)) (sc_dimensions c))
           @ unknown_evidence ''tradeoff_unknown_evidence'' cid (evidence dg) (sc_tradeoff_evidence c))"

definition validate_critique_grounding :: "evidence_digest list \<Rightarrow> soft_critique list \<Rightarrow> string list" where
  "validate_critique_grounding digests critiques =
     (let by_id = dict_of (map (\<lambda>d. (ed_candidate_id d, d)) digests)
      in first_occurrences
           ((if mset (map sc_candidate_id critiques) \<noteq> mset (map ed_candidate_id digests)
             then [''candidate_set_mismatch''] else [])
            @ concat (map (critique_errors by_id) critiques)))"

section \<open>Properties\<close>

lemma weights_sum:
  fixes ws :: "(soft_dimension \<times> rat) list"
  assumes "distinct (map fst ws)" and "set (map fst ws) = set all_dimensions"
  shows "sum_list (map (\<lambda>d. the (map_of ws d)) all_dimensions) = sum_list (map snd ws)"
proof -
  have "mset (map fst ws) = mset all_dimensions"
    using assms by (intro set_eq_iff_mset_eq_distinct [THEN iffD1]) (simp_all add: all_dimensions_def)
  then have "sum_mset (image_mset (\<lambda>d. the (map_of ws d)) (mset all_dimensions))
      = sum_mset (image_mset (\<lambda>d. the (map_of ws d)) (mset (map fst ws)))" by simp
  then have "sum_list (map (\<lambda>d. the (map_of ws d)) all_dimensions) = sum_list (map (\<lambda>d. the (map_of ws d)) (map fst ws))"
    unfolding mset_map [symmetric] sum_mset_sum_list .
  also have "map (\<lambda>d. the (map_of ws d)) (map fst ws) = map snd ws"
    using assms(1) by (auto intro!: map_cong)
  finally show ?thesis .
qed

lemma weighted_bounds:
  fixes f w :: "'a \<Rightarrow> rat"
  assumes "\<forall>x \<in> set xs. 0 \<le> f x \<and> f x \<le> 100 \<and> 0 \<le> w x"
  shows "0 \<le> sum_list (map (\<lambda>x. f x * w x) xs) \<and> sum_list (map (\<lambda>x. f x * w x) xs) \<le> 100 * sum_list (map w xs)"
  using assms
proof (induction xs)
  case (Cons x xs)
  have "0 \<le> f x * w x" and "f x * w x \<le> 100 * w x"
    using Cons.prems by (auto intro: mult_right_mono)
  then show ?case using Cons by (simp add: algebra_simps)
qed simp

lemma py_round_le_int: "x < of_int n + 1 / 2 \<Longrightarrow> py_round (x :: rat) \<le> n"
proof -
  assume x: "x < of_int n + 1 / 2"
  have "of_int (py_round x) \<le> x + 1 / 2" using py_round_near [of x] by linarith
  then have "of_int (py_round x) < (of_int (n + 1) :: rat)" using x by simp
  then show "py_round x \<le> n" by (simp only: of_int_less_iff)
qed

text \<open>
  The quality score of a complete critique is a score: with a policy that passes
  \<open>CriticPolicy.__post_init__\<close> and dimension scores between 0 and 100, \<open>quality_score\<close>
  returns a value between 0 and 100, although the weights need only sum to one up to the
  tolerance, and it returns one exactly when every dimension is scored.
\<close>

lemma quality_score_bounds:
  assumes policy: "critic_policy_post_init p = Inr p" "distinct (map fst (weights p))"
    and scores: "\<forall>d \<in> set (sc_dimensions c). dimension_fields_ok d"
  shows "case quality_score c p of
      Inl _ \<Rightarrow> set (map dc_dimension (sc_dimensions c)) \<noteq> set all_dimensions
    | Inr q \<Rightarrow> set (map dc_dimension (sc_dimensions c)) = set all_dimensions \<and> 0 \<le> q \<and> q \<le> 100"
proof -
  have dom: "set (map fst (scores_of c)) = set (map dc_dimension (sc_dimensions c))"
    using dom_dict_of [of "map (\<lambda>d. (dc_dimension d, dc_score d)) (sc_dimensions c)"]
    by (simp add: scores_of_def dom_map_of_conv_image_fst image_image)
  show ?thesis
  proof (cases "set (map fst (scores_of c)) = set all_dimensions")
    case False
    then show ?thesis using dom by (simp add: quality_score_def)
  next
    case complete: True
    define f :: "soft_dimension \<Rightarrow> rat" where "f d = of_int (the (map_of (scores_of c) d))" for d
    define w where "w d = the (map_of (weights p) d)" for d
    have wset: "set (map fst (weights p)) = set all_dimensions"
      and near: "\<not> \<bar>sum_list (map snd (weights p)) - 1\<bar> > 1 / 1000000000"
      and pos: "\<forall>x \<in> set (map snd (weights p)). 0 \<le> x"
      using policy(1) by (auto simp: critic_policy_post_init_def list_ex_iff not_less split: if_splits)
    from near have tol: "sum_list (map snd (weights p)) \<le> 1 + 1 / 1000000000" by linarith
    have "0 \<le> f d \<and> f d \<le> 100 \<and> 0 \<le> w d" if d: "d \<in> set all_dimensions" for d
    proof -
      obtain s where s: "map_of (scores_of c) d = Some s"
        using d complete by (cases "map_of (scores_of c) d") (auto simp: map_of_eq_None_iff)
      then have "(d, s) \<in> set (map (\<lambda>d. (dc_dimension d, dc_score d)) (sc_dimensions c))"
        unfolding scores_of_def by (rule dict_of_SomeD)
      with scores have "0 \<le> s \<and> s \<le> 100" by (auto simp: dimension_fields_ok_def)
      moreover obtain v where v: "map_of (weights p) d = Some v"
        using d wset by (cases "map_of (weights p) d") (auto simp: map_of_eq_None_iff)
      then have "v \<in> set (map snd (weights p))" by (force dest: map_of_SomeD)
      moreover from this pos have "0 \<le> v" by blast
      ultimately show ?thesis using s v by (simp add: f_def w_def)
    qed
    then have bounds: "0 \<le> sum_list (map (\<lambda>d. f d * w d) all_dimensions)"
      "sum_list (map (\<lambda>d. f d * w d) all_dimensions) \<le> 100 * sum_list (map w all_dimensions)"
      using weighted_bounds [of all_dimensions f w] by auto
    have "sum_list (map w all_dimensions) \<le> 1 + 1 / 1000000000"
      using weights_sum [OF policy(2) wset] tol unfolding w_def [abs_def] by linarith
    with bounds(2) have "sum_list (map (\<lambda>d. f d * w d) all_dimensions) * 100 < of_int 10000 + 1 / 2" by simp
    then have "py_round (sum_list (map (\<lambda>d. f d * w d) all_dimensions) * 100) \<le> 10000" by (rule py_round_le_int)
    moreover have "0 \<le> py_round (sum_list (map (\<lambda>d. f d * w d) all_dimensions) * 100)"
      using py_round_mono [of 0 "sum_list (map (\<lambda>d. f d * w d) all_dimensions) * 100"] bounds(1) by simp
    ultimately show ?thesis
      using complete dom by (simp add: quality_score_def round_to_def f_def w_def)
  qed
qed

definition full_critique :: soft_critique where
  "full_critique = \<lparr>sc_candidate_id = ''balanced-r0'',
     sc_dimensions = map (\<lambda>d. \<lparr>dc_dimension = d, dc_score = 80, dc_summary = ''ok'',
       dc_evidence_ids = [''e1''], dc_action = None\<rparr>) all_dimensions,
     sc_overall_summary = ''fine'', sc_tradeoff_evidence = []\<rparr>"

lemma quality_score_bounds_witness:
  "case quality_score full_critique default_critic_policy of
      Inl _ \<Rightarrow> set (map dc_dimension (sc_dimensions full_critique)) \<noteq> set all_dimensions
    | Inr q \<Rightarrow> set (map dc_dimension (sc_dimensions full_critique)) = set all_dimensions \<and> 0 \<le> q \<and> q \<le> 100"
  by (rule quality_score_bounds)
    (simp_all add: critic_policy_post_init_def default_critic_policy_def all_dimensions_def
      full_critique_def dimension_fields_ok_def insert_commute)

lemma first_occurrences_Nil [simp]: "first_occurrences xs = [] \<longleftrightarrow> xs = []"
  by (cases xs) simp_all

lemma unknown_evidence_Nil: "unknown_evidence tag cid evs ids = [] \<longleftrightarrow> set ids \<subseteq> set (map e_id evs)"
  by (auto simp: unknown_evidence_def)

text \<open>
  A critique that passes the grounding check is about a candidate whose evidence was
  submitted and cites only that evidence: each dimension is judged exactly once, every cited
  id (of a dimension, a proposed action, or a trade-off) is among the evidence, and no
  action removes a place that the evidence marks as a must-visit.
\<close>

lemma grounded_critique_cites_evidence:
  assumes "validate_critique_grounding digests critiques = []" and "c \<in> set critiques"
  shows "\<exists>dg \<in> set digests. ed_candidate_id dg = sc_candidate_id c \<and>
     mset (map dc_dimension (sc_dimensions c)) = mset all_dimensions \<and>
     (\<forall>d \<in> set (sc_dimensions c). dc_evidence_ids d \<noteq> [] \<and> set (dc_evidence_ids d) \<subseteq> e_id ` set (evidence dg) \<and>
        (\<forall>a. dc_action d = Some a \<and> s_kind a \<noteq> No_action \<longrightarrow>
           s_evidence_ids a \<noteq> [] \<and> set (s_evidence_ids a) \<subseteq> e_id ` set (evidence dg) \<and>
           \<not> (s_kind a = Remove_optional \<and> (\<exists>e \<in> set (evidence dg). e_entity_id e = s_poi_id a \<and>
                e_field e = ''must_visit'' \<and> e_value e = V_bool True)))) \<and>
     set (sc_tradeoff_evidence c) \<subseteq> e_id ` set (evidence dg)"
proof -
  let ?by_id = "dict_of (map (\<lambda>d. (ed_candidate_id d, d)) digests)"
  have none: "critique_errors ?by_id c = []"
    using assms by (auto simp: validate_critique_grounding_def Let_def)
  then obtain dg where dg: "map_of ?by_id (sc_candidate_id c) = Some dg"
    by (cases "map_of ?by_id (sc_candidate_id c)") (simp_all add: critique_errors_def Let_def)
  have mem: "dg \<in> set digests \<and> ed_candidate_id dg = sc_candidate_id c"
    using dict_of_SomeD [OF dg] by auto
  have parts: "dimension_set_errors (sc_candidate_id c) (map dc_dimension (sc_dimensions c)) = []"
    "\<forall>d \<in> set (sc_dimensions c). dimension_errors (sc_candidate_id c) (evidence dg) d = []"
    "set (sc_tradeoff_evidence c) \<subseteq> set (map e_id (evidence dg))"
    using none dg by (simp_all add: critique_errors_def Let_def unknown_evidence_Nil)
  have dims: "mset (map dc_dimension (sc_dimensions c)) = mset all_dimensions"
  proof -
    let ?ds = "map dc_dimension (sc_dimensions c)"
    have "set ?ds = set all_dimensions" "length ?ds = length all_dimensions"
      using parts(1) by (auto simp: dimension_set_errors_def split: if_splits)
    moreover have "distinct all_dimensions" by (simp add: all_dimensions_def)
    ultimately have "distinct ?ds" by (metis card_distinct distinct_card)
    then show ?thesis
      using \<open>set ?ds = set all_dimensions\<close> \<open>distinct all_dimensions\<close> set_eq_iff_mset_eq_distinct by blast
  qed
  have dim: "dc_evidence_ids d \<noteq> [] \<and> set (dc_evidence_ids d) \<subseteq> e_id ` set (evidence dg) \<and>
        (\<forall>a. dc_action d = Some a \<and> s_kind a \<noteq> No_action \<longrightarrow>
           s_evidence_ids a \<noteq> [] \<and> set (s_evidence_ids a) \<subseteq> e_id ` set (evidence dg) \<and>
           \<not> (s_kind a = Remove_optional \<and> (\<exists>e \<in> set (evidence dg). e_entity_id e = s_poi_id a \<and>
                e_field e = ''must_visit'' \<and> e_value e = V_bool True)))"
    if "d \<in> set (sc_dimensions c)" for d
  proof -
    have d: "dimension_errors (sc_candidate_id c) (evidence dg) d = []" using parts(2) that by blast
    moreover have "s_evidence_ids a \<noteq> [] \<and> set (s_evidence_ids a) \<subseteq> e_id ` set (evidence dg) \<and>
           \<not> (s_kind a = Remove_optional \<and> (\<exists>e \<in> set (evidence dg). e_entity_id e = s_poi_id a \<and>
                e_field e = ''must_visit'' \<and> e_value e = V_bool True))"
      if "dc_action d = Some a" "s_kind a \<noteq> No_action" for a
    proof -
      have "action_errors (sc_candidate_id c) (evidence dg) (dc_dimension d) a = []"
        using d that by (simp add: dimension_errors_def)
      then show ?thesis
        by (simp add: action_errors_def Let_def unknown_evidence_Nil split: if_splits) (auto simp: list_ex_iff)
    qed
    ultimately show ?thesis
      by (simp add: dimension_errors_def unknown_evidence_Nil split: if_splits)
  qed
  show ?thesis
    using mem dims dim parts(3) by (intro bexI [of _ dg]) auto
qed

definition one_digest :: evidence_digest where
  "one_digest = \<lparr>ed_candidate_id = ''balanced-r0'', ed_style = Style_balanced,
     evidence = [\<lparr>e_id = ''e1'', e_kind = E_candidate_metric, e_candidate_id = ''balanced-r0'',
       e_day = None, e_entity_id = None, e_field = ''score'', e_value = V_int 80,
       e_source = ''planner'', e_confidence = 1\<rparr>],
     ed_input_chars = 10, ed_truncated = False\<rparr>"

lemma grounded_critique_cites_evidence_witness:
  "\<exists>dg \<in> set [one_digest]. ed_candidate_id dg = sc_candidate_id full_critique \<and>
     mset (map dc_dimension (sc_dimensions full_critique)) = mset all_dimensions"
proof -
  have "validate_critique_grounding [one_digest] [full_critique] = []"
    by code_simp
  from grounded_critique_cites_evidence [OF this, of full_critique] show ?thesis by auto
qed

end
