(* ===== verification/LifecycleModels.thy ===== *)
theory LifecycleModels
  imports WeatherRisk Critique
begin

text \<open>
  \<open>domain/lifecycle_models.py\<close> and \<open>lifecycle/errors.py\<close>: locks, edit operations and
  patches, the impact and the diff of an edit, versions, previews, receipts and the session
  record, the actions a user resumes a session with, and the errors of the lifecycle. An
  action is a datatype with one constructor per Pydantic class (and value of \<open>kind\<close>); a
  request id is the string \<open>str(request.request_id)\<close>; the fixed user messages are values of
  \<open>lc_message\<close>.
\<close>

section \<open>Enumerations\<close>

datatype session_status =
  Needs_requirement_clarification | Awaiting_candidate_selection | Active
| Needs_edit_clarification | Building_preview | Awaiting_change_approval
| Change_rejected | Requires_new_plan

datatype lock_kind = Lock_day | Lock_item

fun lock_kind_value :: "lock_kind \<Rightarrow> string" where
  "lock_kind_value Lock_day = ''day''"
| "lock_kind_value Lock_item = ''item''"

datatype edit_kind = Move_item | Reorder_item | Remove_item | Add_item | Replace_item

fun edit_kind_value :: "edit_kind \<Rightarrow> string" where
  "edit_kind_value Move_item = ''move_item''"
| "edit_kind_value Reorder_item = ''reorder_item''"
| "edit_kind_value Remove_item = ''remove_item''"
| "edit_kind_value Add_item = ''add_item''"
| "edit_kind_value Replace_item = ''replace_item''"

datatype impact_scope = Scope_item | Scope_day | Scope_multi_day | Scope_new_plan

datatype preview_status = Pending | Approved | Rejected | Stale_preview | Invalid_preview

datatype change_source = From_user | From_weather

section \<open>Errors\<close>

datatype lifecycle_error =
  Not_found string
| Conflict string string
| Action_error string string
| Value_error string
| Assertion_failed
| Key_error string
| Runtime_error string
| Tool_unavailable string
| Weather_unavailable string
| Missing_poi string
| Missing_route string
| Index_error
| Attribute_error string

definition conflict :: "string \<Rightarrow> lifecycle_error" where
  "conflict session_id = Conflict session_id ''plan_session_conflict''"

section \<open>Locks and edits\<close>

record change_trigger =
  ct_source :: change_source
  ct_request_id :: string
  ct_event_id :: "string option"
  ct_snapshot_id :: "string option"
  ct_policy_version :: "string option"

record plan_lock =
  lock_id :: string
  lk_kind :: lock_kind
  lk_target :: string
  expected_fingerprint :: string
  lk_created_by :: string
  lk_created_at :: datetime

record edit_operation =
  op_kind :: edit_kind
  op_item_id :: "string option"
  op_item_name :: "string option"
  op_target_date :: "py_date option"
  op_target_index :: "int option"
  op_poi_name :: "string option"
  op_reason :: "string option"

text \<open>A Python truth test of an optional string: \<open>None\<close> and the empty string are false.\<close>

definition given :: "string option \<Rightarrow> bool" where
  "given s \<longleftrightarrow> (case s of None \<Rightarrow> False | Some x \<Rightarrow> x \<noteq> [])"

definition validate_operation :: "edit_operation \<Rightarrow> (string, edit_operation) result" where
  "validate_operation op =
     (if op_kind op \<in> {Move_item, Reorder_item, Remove_item, Replace_item} \<and>
         \<not> (given (op_item_id op) \<or> given (op_item_name op))
        then Inl ''edit operation requires item_id or item_name''
      else if op_kind op \<in> {Move_item, Add_item} \<and> op_target_date op = None
        then Inl ''move/add operation requires target_date''
      else if op_kind op \<in> {Add_item, Replace_item} \<and> \<not> given (op_poi_name op)
        then Inl ''add/replace operation requires poi_name''
      else Inr op)"

definition operation_ok :: "edit_operation \<Rightarrow> bool" where
  "operation_ok op \<longleftrightarrow> validate_operation op = Inr op \<and> optional_in 0 20 (op_target_index op)"

type_synonym edit_patch = "edit_operation list"

definition edit_patch_ok :: "edit_patch \<Rightarrow> bool" where
  "edit_patch_ok ops \<longleftrightarrow> 1 \<le> length ops \<and> length ops \<le> 3 \<and> (\<forall>op \<in> set ops. operation_ok op)"

record edit_item_context =
  ic_item_id :: string
  ic_poi_id :: "string option"
  ic_name :: string
  ic_day :: py_date
  ic_index :: int
  ic_locked :: bool

record edit_model_input =
  mi_text :: string
  mi_trip_start :: py_date
  mi_trip_end :: py_date
  mi_items :: "edit_item_context list"

record edit_summary =
  es_provider :: string
  es_model :: string
  es_prompt_version :: string
  es_attempt_count :: int
  es_elapsed_ms :: rat
  es_input_tokens :: "int option"
  es_output_tokens :: "int option"

section \<open>Impact and diff\<close>

record impact_result =
  ir_scope :: impact_scope
  ir_affected_dates :: "py_date list"
  ir_affected_items :: "string list"
  ir_preserved_dates :: "py_date list"
  ir_invalidated_keys :: "string list"
  ir_required_tools :: "string list"
  ir_lock_conflicts :: "string list"
  ir_reasons :: "string list"

record item_diff =
  id_item_id :: string
  id_name :: string
  from_date :: "py_date option"
  to_date :: "py_date option"
  from_index :: "int option"
  to_index :: "int option"

record time_diff =
  td_item_id :: string
  before_start :: datetime
  after_start :: datetime
  before_end :: datetime
  after_end :: datetime

record route_diff =
  rd_item_id :: string
  before_minutes :: int
  after_minutes :: int
  before_meters :: int
  after_meters :: int

record day_metric_diff =
  dm_day :: py_date
  travel_minutes_delta :: int
  walking_meters_delta :: int
  known_cost_delta :: rat

record plan_diff =
  from_version_id :: string
  to_id :: string
  added_items :: "item_diff list"
  removed_items :: "item_diff list"
  moved_items :: "item_diff list"
  reordered_items :: "item_diff list"
  time_changes :: "time_diff list"
  route_changes :: "route_diff list"
  day_metric_changes :: "day_metric_diff list"
  hard_status_before :: "validation_status option"
  hard_status_after :: "validation_status option"
  soft_quality_before :: "rat option"
  soft_quality_after :: "rat option"

section \<open>Versions, previews and the session\<close>

type_synonym route_table = "(string \<times> route_result) list"

record planning_snapshot =
  ps_trip :: trip_spec
  ps_candidates :: "plan_candidate list"
  ps_recommended :: string
  ps_drafts :: "candidate_draft list"
  ps_pois :: "planning_poi list"
  ps_routes :: route_table
  ps_critic_status :: critic_status

record plan_version =
  version_id :: string
  pv_number :: nat
  parent_version_id :: "string option"
  pv_request_id :: string
  selected_candidate_id :: string
  pv_candidate :: plan_candidate
  pv_draft :: candidate_draft
  pv_pois :: "planning_poi list"
  pv_routes :: route_table
  pv_fingerprint :: string
  pv_trigger :: "change_trigger option"
  pv_critic_status :: critic_status
  pv_created_at :: datetime

record plan_preview =
  preview_id :: string
  base_version_id :: string
  base_revision :: int
  pp_request_id :: string
  pp_candidate :: plan_candidate
  pp_draft :: candidate_draft
  pp_pois :: "planning_poi list"
  pp_routes :: route_table
  pp_impact :: impact_result
  pp_diff :: plan_diff
  pp_status :: preview_status
  hard_validation :: validation_result
  pp_critic_status :: critic_status
  pp_critic_summary :: "critic_summary option"
  pp_soft_critique :: "soft_critique option"
  approval_token_hash :: string
  pp_trigger :: "change_trigger option"
  pp_created_at :: datetime

record action_receipt =
  rc_request_id :: string
  action_kind :: string
  resulting_revision :: int
  resulting_version_id :: "string option"
  resulting_preview_id :: "string option"
  resulting_event_id :: "string option"

record plan_session =
  session_id :: string
  lifecycle_thread_id :: string
  intake_thread_id :: "string option"
  ss_status :: session_status
  tenant_id :: string
  user_id :: string
  revision :: int
  snapshot :: "planning_snapshot option"
  active_version_id :: "string option"
  pending_preview_id :: "string option"
  versions :: "(string \<times> plan_version) list"
  previews :: "(string \<times> plan_preview) list"
  locks :: "(string \<times> plan_lock) list"
  receipts :: "(string \<times> action_receipt) list"
  monitor :: weather_monitor
  weather_snapshots :: "(string \<times> weather_snapshot) list"
  weather_risks :: "(string \<times> daily_risk list) list"
  weather_events :: "(string \<times> change_event) list"
  external_interrupt :: "(string \<times> json) option"
  ss_created_at :: datetime
  ss_updated_at :: datetime

section \<open>Actions and responses\<close>

datatype lifecycle_action =
  Accept_recommendation
| Select_candidate string
| Lock_action lock_kind string
| Unlock_action lock_kind string
| Structured_edit edit_patch
| Text_edit string
| Approve_preview string string
| Reject_preview string
| Clarify_requirement string
| Clarify_edit string
| Refresh_weather
| Dismiss_weather_event string

fun kind_of_action :: "lifecycle_action \<Rightarrow> string" where
  "kind_of_action Accept_recommendation = ''accept_recommendation''"
| "kind_of_action (Select_candidate _) = ''select_candidate''"
| "kind_of_action (Lock_action _ _) = ''lock''"
| "kind_of_action (Unlock_action _ _) = ''unlock''"
| "kind_of_action (Structured_edit _) = ''edit''"
| "kind_of_action (Text_edit _) = ''edit_text''"
| "kind_of_action (Approve_preview _ _) = ''approve_preview''"
| "kind_of_action (Reject_preview _) = ''reject_preview''"
| "kind_of_action (Clarify_requirement _) = ''clarify_requirement''"
| "kind_of_action (Clarify_edit _) = ''clarify_edit''"
| "kind_of_action Refresh_weather = ''refresh_weather''"
| "kind_of_action (Dismiss_weather_event _) = ''dismiss_weather_event''"

record resume_request =
  interrupt_id :: string
  request_id :: string
  expected_version :: "string option"
  expected_revision :: "int option"
  action :: lifecycle_action

datatype lc_message =
  Msg_new_plan_needed | Msg_invalid_preview | Msg_no_change | Msg_duplicate_event
| Msg_recovered | Msg_no_plan_impact | Msg_attention | Msg_no_alternative | Msg_dismissed
| Msg_clarify string

datatype interrupt_payload =
  Candidate_selection string "string list" int
| Change_approval string string int "string option" "string list" "(change_source \<times> string option) option"
| Edit_clarification int "edit_item_context list" int
| Plan_change "string option" int "string list" "string option"
| External_payload json

record plan_response =
  rs_session_id :: string
  rs_status :: session_status
  rs_revision :: int
  rs_active_version :: "plan_version option"
  rs_pending_preview :: "plan_preview option"
  rs_candidates :: "plan_candidate list"
  rs_locks :: "plan_lock list"
  rs_allowed_actions :: "string list"
  rs_interrupt :: "(string \<times> interrupt_payload) option"
  rs_weather :: weather_state_view
  rs_message :: "lc_message option"

end
