(* ===== verification/LifecycleEdit.thy ===== *)
theory LifecycleEdit
  imports LifecycleModels
begin

text \<open>
  \<open>lifecycle/fingerprints.py\<close>, \<open>lifecycle/actions.py\<close>, \<open>lifecycle/impact.py\<close> and
  \<open>lifecycle/diff.py\<close>: the content fingerprints, the grounding and the application of an
  edit patch, the impact of a patch on days, items and locks, and the diff of two plans.
  The digest functions take the parameters \<open>hashing\<close>: SHA-256 and the text of a \<open>Decimal\<close>
  (the model keeps its value only).
\<close>

section \<open>Fingerprints\<close>

record hashing =
  sha256 :: "string \<Rightarrow> string"
  decimal_text :: "rat \<Rightarrow> string"

definition digest :: "hashing \<Rightarrow> json \<Rightarrow> string" where
  "digest h payload = sha256 h (json_dumps payload)"

text \<open>\<open>datetime.isoformat()\<close> with its offset.\<close>

definition clock_text :: "int \<Rightarrow> string" where
  "clock_text us = pad_digits 2 (nat (us div (60 * minute))) @ '':'' @ pad_digits 2 (nat (us div minute mod 60))"

definition seconds_text :: "int \<Rightarrow> string" where
  "seconds_text us = pad_digits 2 (nat (us div second mod 60))
     @ (if us mod second = 0 then [] else ''.'' @ pad_digits 6 (nat (us mod second)))"

definition offset_text :: "int \<Rightarrow> string" where
  "offset_text z = (if z < 0 then ''-'' else ''+'') @ clock_text \<bar>z\<bar>
     @ (if \<bar>z\<bar> mod minute = 0 then [] else '':'' @ seconds_text \<bar>z\<bar>)"

definition dt_isoformat :: "datetime \<Rightarrow> string" where
  "dt_isoformat d = isoformat (date_of d) @ ''T'' @ clock_text (dt_local d mod day_us) @ '':''
     @ seconds_text (dt_local d mod day_us) @ offset_text (dt_tz d)"

definition poi_or_name :: "plan_item \<Rightarrow> string" where
  "poi_or_name i = (if given (item_poi_id i) then the (item_poi_id i) else normalize (item_name i))"

definition item_identity :: "string \<Rightarrow> string \<Rightarrow> plan_item \<Rightarrow> py_date \<Rightarrow> int \<Rightarrow> json" where
  "item_identity sid cid i d occurrence =
     J_list [J_str sid, J_str cid, J_str (poi_or_name i), J_str (isoformat d), J_int occurrence]"

definition stable_item_id :: "hashing \<Rightarrow> string \<Rightarrow> string \<Rightarrow> plan_item \<Rightarrow> py_date \<Rightarrow> int \<Rightarrow> string" where
  "stable_item_id h sid cid i d occurrence = ''item_'' @ take 20 (digest h (item_identity sid cid i d occurrence))"

definition new_item_id :: "hashing \<Rightarrow> string \<Rightarrow> string \<Rightarrow> int \<Rightarrow> string" where
  "new_item_id h sid rid index =
     ''item_'' @ take 20 (digest h (J_list [J_str sid, J_str rid, J_int index]))"

type_synonym occurrences = "((string \<times> string) \<times> int) list"

definition occurrence_of :: "occurrences \<Rightarrow> string \<times> string \<Rightarrow> int" where
  "occurrence_of occ key = (case map_of occ key of None \<Rightarrow> 0 | Some n \<Rightarrow> n)"

fun stable_items ::
  "hashing \<Rightarrow> string \<Rightarrow> string \<Rightarrow> py_date \<Rightarrow> plan_item list \<Rightarrow> occurrences \<Rightarrow> plan_item list \<times> occurrences" where
  "stable_items h sid cid d [] occ = ([], occ)"
| "stable_items h sid cid d (i # is) occ =
     (let key = (isoformat d, poi_or_name i);
          n = occurrence_of occ key;
          new_id = (if given (item_id i) then item_id i else Some (stable_item_id h sid cid i d n));
          (rest, occ') = stable_items h sid cid d is (AList.update key (n + 1) occ)
      in (i\<lparr>item_id := new_id, locked := False\<rparr> # rest, occ'))"

fun stable_days ::
  "hashing \<Rightarrow> string \<Rightarrow> string \<Rightarrow> day_plan list \<Rightarrow> occurrences \<Rightarrow> day_plan list" where
  "stable_days h sid cid [] occ = []"
| "stable_days h sid cid (d # ds) occ =
     (let (is, occ') = stable_items h sid cid (day_date d) (items d) occ
      in d\<lparr>items := is\<rparr> # stable_days h sid cid ds occ')"

definition with_stable_item_ids :: "hashing \<Rightarrow> string \<Rightarrow> plan_candidate \<Rightarrow> plan_candidate" where
  "with_stable_item_ids h sid c = c\<lparr>days := stable_days h sid (cand_id c) (days c) []\<rparr>"

definition item_payload :: "plan_item \<Rightarrow> py_date \<Rightarrow> json" where
  "item_payload i d = J_obj [(''item_id'', j_opt J_str (item_id i)), (''poi_id'', j_opt J_str (item_poi_id i)),
     (''name'', J_str (item_name i)), (''day'', J_str (isoformat d)),
     (''start'', J_str (dt_isoformat (start_at i))), (''end'', J_str (dt_isoformat (end_at i))),
     (''type'', J_str (item_type_value (item_type i)))]"

definition item_fingerprint :: "hashing \<Rightarrow> plan_item \<Rightarrow> py_date \<Rightarrow> string" where
  "item_fingerprint h i d = digest h (item_payload i d)"

definition day_item_payload :: "plan_item \<Rightarrow> json" where
  "day_item_payload i = J_obj [(''id'', j_opt J_str (item_id i)), (''poi'', j_opt J_str (item_poi_id i)),
     (''name'', J_str (item_name i)), (''start'', J_str (dt_isoformat (start_at i))),
     (''end'', J_str (dt_isoformat (end_at i))), (''travel'', J_int (travel_from_previous_minutes i)),
     (''distance'', J_int (distance_from_previous_meters i))]"

definition day_payload :: "(rat \<Rightarrow> string) \<Rightarrow> day_plan \<Rightarrow> json" where
  "day_payload dec d = J_obj [(''date'', J_str (isoformat (day_date d))), (''theme'', J_str (theme d)),
     (''area'', J_str (primary_area d)), (''items'', J_list (map day_item_payload (items d))),
     (''cost'', J_str (dec (known_estimated_cost d))), (''travel'', J_int (total_travel_minutes d)),
     (''walking'', J_int (walking_distance_meters d))]"

definition day_fingerprint :: "hashing \<Rightarrow> day_plan \<Rightarrow> string" where
  "day_fingerprint h d = digest h (day_payload (decimal_text h) d)"

definition plan_fingerprint :: "hashing \<Rightarrow> plan_candidate \<Rightarrow> string" where
  "plan_fingerprint h c = digest h (J_list (map (J_str \<circ> day_fingerprint h) (days c)))"

section \<open>Grounding\<close>

definition edit_item_contexts :: "plan_candidate \<Rightarrow> edit_item_context list" where
  "edit_item_contexts c = concat (map (\<lambda>d. List.map_filter (\<lambda>(k, i).
     case item_id i of None \<Rightarrow> None
     | Some x \<Rightarrow> Some \<lparr>ic_item_id = x, ic_poi_id = item_poi_id i, ic_name = item_name i,
                   ic_day = day_date d, ic_index = int k, ic_locked = locked i\<rparr>)
     (enumerate 0 (items d))) (days c))"

text \<open>The items with a stable id, with their dates.\<close>

definition identified_items :: "plan_candidate \<Rightarrow> (py_date \<times> plan_item) list" where
  "identified_items c = filter (\<lambda>(d, i). item_id i \<noteq> None) (dated_items c)"

definition item_ids :: "plan_candidate \<Rightarrow> string list" where
  "item_ids c = map (\<lambda>(d, i). the (item_id i)) (identified_items c)"

definition ground_operation ::
  "string \<Rightarrow> plan_candidate \<Rightarrow> edit_operation \<Rightarrow> (lifecycle_error, edit_operation) result" where
  "ground_operation sid c op =
     (case op_item_id op of
        Some x \<Rightarrow> if x \<notin> set (item_ids c) then Inl (Action_error sid ''unknown_item'') else Inr op
      | None \<Rightarrow>
          if given (op_item_name op) then
            (let matches = filter (\<lambda>(d, i). names_match (the (op_item_name op)) (item_name i)) (identified_items c)
             in case matches of
                  [(d, i)] \<Rightarrow> Inr (op\<lparr>op_item_id := item_id i\<rparr>)
                | [] \<Rightarrow> Inl (Action_error sid ''unknown_item'')
                | _ \<Rightarrow> Inl (Action_error sid ''ambiguous_item''))
          else Inr op)"

definition ground_edit_patch ::
  "string \<Rightarrow> plan_candidate \<Rightarrow> edit_patch \<Rightarrow> (lifecycle_error, edit_patch) result" where
  "ground_edit_patch sid c ops =
     fold_res (\<lambda>op acc. bind_res (ground_operation sid c op) (\<lambda>op'. Inr (acc @ [op']))) ops []"

section \<open>Applying a patch\<close>

type_synonym edit_days = "(py_date \<times> string list) list"

type_synonym edit_state = "edit_days \<times> (string \<times> string) list"

definition resolve_poi_name ::
  "string \<Rightarrow> planning_poi list \<Rightarrow> string \<Rightarrow> (lifecycle_error, string) result" where
  "resolve_poi_name sid pois name =
     (case filter (\<lambda>p. names_match name (poi_name_of p)) pois of
        [p] \<Rightarrow> Inr (poi_id_of p)
      | _ \<Rightarrow> Inl (Action_error sid ''poi_not_in_planning_context''))"

text \<open>\<open>list.insert(i, x)\<close>.\<close>

definition py_insert :: "int \<Rightarrow> 'a \<Rightarrow> 'a list \<Rightarrow> 'a list" where
  "py_insert i x xs =
     (let k = nat (min (if i < 0 then max 0 (i + int (length xs)) else i) (int (length xs)))
      in take k xs @ [x] @ drop k xs)"

text \<open>\<open>days[d].remove(x)\<close>.\<close>

definition remove_from_day :: "py_date \<Rightarrow> string \<Rightarrow> edit_days \<Rightarrow> (lifecycle_error, edit_days) result" where
  "remove_from_day d x ds =
     (case map_of ds d of
        None \<Rightarrow> Inl (Key_error (isoformat d))
      | Some xs \<Rightarrow> if x \<in> set xs then Inr (AList.update d (remove1 x xs) ds)
                   else Inl (Value_error ''list.remove(x): x not in list''))"

definition insert_in_day ::
  "string \<Rightarrow> py_date \<Rightarrow> int option \<Rightarrow> string \<Rightarrow> edit_days \<Rightarrow> (lifecycle_error, edit_days) result" where
  "insert_in_day sid d index x ds =
     (case map_of ds d of
        None \<Rightarrow> Inl (Action_error sid ''date_out_of_range'')
      | Some xs \<Rightarrow>
          (let k = (case index of None \<Rightarrow> int (length xs) | Some i \<Rightarrow> i)
           in Inr (AList.update d (py_insert (min k (int (length xs))) x xs) ds)))"

text \<open>\<open>days[d][days[d].index(x)] = y\<close>.\<close>

fun replace_first :: "'a \<Rightarrow> 'a \<Rightarrow> 'a list \<Rightarrow> 'a list" where
  "replace_first x y [] = []"
| "replace_first x y (z # zs) = (if z = x then y # zs else z # replace_first x y zs)"

definition replace_in_day :: "py_date \<Rightarrow> string \<Rightarrow> string \<Rightarrow> edit_days \<Rightarrow> (lifecycle_error, edit_days) result" where
  "replace_in_day d x y ds =
     (case map_of ds d of
        None \<Rightarrow> Inl (Key_error (isoformat d))
      | Some xs \<Rightarrow> if x \<in> set xs then Inr (AList.update d (replace_first x y xs) ds)
                   else Inl (Value_error ''x is not in list''))"

definition candidate_items :: "plan_candidate \<Rightarrow> (string \<times> py_date \<times> plan_item) list" where
  "candidate_items c = dict_of (map (\<lambda>(d, i). (the (item_id i), d, i)) (identified_items c))"

definition item_entry :: "plan_candidate \<Rightarrow> edit_operation \<Rightarrow> (py_date \<times> plan_item) option" where
  "item_entry c op = (if given (op_item_id op) then map_of (candidate_items c) (the (op_item_id op)) else None)"

text \<open>The source of an item operation: the assertion that it has a day, an item and a place.\<close>

definition source_of :: "(py_date \<times> plan_item) option \<Rightarrow> (lifecycle_error, py_date \<times> string) result" where
  "source_of entry =
     (case entry of
        Some (d, i) \<Rightarrow> if given (item_poi_id i) then Inr (d, the (item_poi_id i)) else Inl Assertion_failed
      | None \<Rightarrow> Inl Assertion_failed)"

definition poi_name_arg :: "edit_operation \<Rightarrow> string" where
  "poi_name_arg op = (case op_poi_name op of None \<Rightarrow> [] | Some n \<Rightarrow> n)"

definition apply_kind ::
  "hashing \<Rightarrow> string \<Rightarrow> string \<Rightarrow> planning_poi list \<Rightarrow> int \<Rightarrow> edit_operation
     \<Rightarrow> (py_date \<times> plan_item) option \<Rightarrow> edit_state \<Rightarrow> (lifecycle_error, edit_state) result" where
  "apply_kind h sid rid pois index op entry st =
     (case op_kind op of
        Remove_item \<Rightarrow> bind_res (source_of entry) (\<lambda>(d, x).
          bind_res (remove_from_day d x (fst st)) (\<lambda>ds. Inr (ds, snd st)))
      | Move_item \<Rightarrow> bind_res (source_of entry) (\<lambda>(d, x).
          bind_res (remove_from_day d x (fst st)) (\<lambda>ds.
          bind_res (insert_in_day sid (case op_target_date op of None \<Rightarrow> d | Some t \<Rightarrow> t) (op_target_index op) x ds)
            (\<lambda>ds. Inr (ds, snd st))))
      | Reorder_item \<Rightarrow> bind_res (source_of entry) (\<lambda>(d, x).
          bind_res (remove_from_day d x (fst st)) (\<lambda>ds.
          bind_res (insert_in_day sid (case op_target_date op of None \<Rightarrow> d | Some t \<Rightarrow> t) (op_target_index op) x ds)
            (\<lambda>ds. Inr (ds, snd st))))
      | Replace_item \<Rightarrow> bind_res (source_of entry) (\<lambda>(d, x).
          bind_res (resolve_poi_name sid pois (poi_name_arg op)) (\<lambda>y.
          bind_res (replace_in_day d x y (fst st)) (\<lambda>ds.
            Inr (ds, AList.update y (new_item_id h sid rid index) (snd st)))))
      | Add_item \<Rightarrow>
          (case op_target_date op of
             None \<Rightarrow> Inl Assertion_failed
           | Some t \<Rightarrow>
               if map_of (fst st) t = None then Inl (Action_error sid ''date_out_of_range'')
               else bind_res (resolve_poi_name sid pois (poi_name_arg op)) (\<lambda>y.
                 if y \<notin> set (map poi_id_of pois) then Inl (Action_error sid ''unknown_poi'')
                 else bind_res (insert_in_day sid t (op_target_index op) y (fst st)) (\<lambda>ds.
                   Inr (ds, AList.update y (new_item_id h sid rid index) (snd st))))))"

definition apply_operation ::
  "hashing \<Rightarrow> string \<Rightarrow> string \<Rightarrow> trip_spec \<Rightarrow> plan_candidate \<Rightarrow> planning_poi list
     \<Rightarrow> int \<times> edit_operation \<Rightarrow> edit_state \<Rightarrow> (lifecycle_error, edit_state) result" where
  "apply_operation h sid rid trip c pois iop st =
     (case iop of (index, op) \<Rightarrow>
        let entry = item_entry c op
        in case entry of
             Some (d, i) \<Rightarrow>
               if item_poi_id i = None then Inl (Action_error sid ''unsupported_item'')
               else if is_must_visit (item_name i) trip \<and> op_kind op \<in> {Remove_item, Replace_item}
                 then Inl (Action_error sid ''must_visit_protected'')
               else apply_kind h sid rid pois index op entry st
           | None \<Rightarrow> apply_kind h sid rid pois index op entry st)"

definition initial_edit_state :: "plan_candidate \<Rightarrow> candidate_draft \<Rightarrow> edit_state" where
  "initial_edit_state c draft =
     (dict_of (map (\<lambda>d. (dd_date d, poi_ids d)) (draft_days draft)),
      dict_of (List.map_filter (\<lambda>(x, d, i). case item_poi_id i of None \<Rightarrow> None | Some p \<Rightarrow> Some (p, x))
        (candidate_items c)))"

definition edited_draft :: "candidate_draft \<Rightarrow> edit_days \<Rightarrow> candidate_draft" where
  "edited_draft draft ds = draft\<lparr>draft_days :=
     map (\<lambda>d. \<lparr>dd_date = dd_date d, poi_ids = the (map_of ds (dd_date d))\<rparr>) (draft_days draft)\<rparr>"

definition apply_edit_patch ::
  "hashing \<Rightarrow> string \<Rightarrow> string \<Rightarrow> trip_spec \<Rightarrow> plan_candidate \<Rightarrow> candidate_draft \<Rightarrow> planning_poi list
     \<Rightarrow> edit_patch \<Rightarrow> (lifecycle_error, candidate_draft \<times> (string \<times> string) list) result" where
  "apply_edit_patch h sid rid trip c draft pois ops =
     bind_res (fold_res (apply_operation h sid rid trip c pois)
         (map (\<lambda>(k, op). (int k, op)) (enumerate 0 ops)) (initial_edit_state c draft))
       (\<lambda>(ds, ids). Inr (edited_draft draft ds, filter (\<lambda>(k, v). k \<noteq> [] \<and> v \<noteq> []) ids))"

section \<open>Impact\<close>

definition item_locations :: "plan_candidate \<Rightarrow> (string \<times> py_date) list" where
  "item_locations c = dict_of (List.map_filter (\<lambda>(d, i).
     if given (item_id i) then Some (the (item_id i), d) else None) (dated_items c))"

definition source_day :: "plan_candidate \<Rightarrow> edit_operation \<Rightarrow> py_date option" where
  "source_day c op = (if given (op_item_id op) then map_of (item_locations c) (the (op_item_id op)) else None)"

definition touched_dates :: "plan_candidate \<Rightarrow> edit_patch \<Rightarrow> py_date list" where
  "touched_dates c ops = concat (map (\<lambda>op.
     (case source_day c op of None \<Rightarrow> [] | Some d \<Rightarrow> [d])
   @ (case op_target_date op of None \<Rightarrow> [] | Some d \<Rightarrow> [d])) ops)"

definition touched_items :: "plan_candidate \<Rightarrow> edit_patch \<Rightarrow> string list" where
  "touched_items c ops = concat (map (\<lambda>op.
     case source_day c op of None \<Rightarrow> [] | Some _ \<Rightarrow> [the (op_item_id op)]) ops)"

definition lock_hit :: "py_date list \<Rightarrow> string list \<Rightarrow> plan_lock \<Rightarrow> bool" where
  "lock_hit dates ids lock \<longleftrightarrow>
     (case lk_kind lock of
        Lock_day \<Rightarrow> lk_target lock \<in> set (map isoformat dates)
      | Lock_item \<Rightarrow> lk_target lock \<in> set ids)"

definition analyze_change_impact ::
  "plan_candidate \<Rightarrow> edit_patch \<Rightarrow> plan_lock list \<Rightarrow> int \<Rightarrow> impact_result" where
  "analyze_change_impact c ops lks max_affected_days =
     (let dates = sorted_set (touched_dates c ops);
          ids = sorted_set (touched_items c ops);
          over = int (length dates) > max_affected_days
      in \<lparr>ir_scope = (if over then Scope_new_plan
                      else if length dates > 1 then Scope_multi_day
                      else if dates \<noteq> [] then Scope_day else Scope_item),
          ir_affected_dates = dates, ir_affected_items = ids,
          ir_preserved_dates = sorted_set (filter (\<lambda>d. d \<notin> set dates) (map day_date (days c))),
          ir_invalidated_keys = [],
          ir_required_tools = sorted_set (concat (map (\<lambda>op.
            (if op_kind op \<in> {Add_item, Replace_item} then [''poi.resolve''] else [])
          @ (if op_kind op \<noteq> Remove_item then [''route.delta''] else [])) ops)),
          ir_lock_conflicts = sort (map lock_id (filter (lock_hit dates ids) lks)),
          ir_reasons = map (edit_kind_value \<circ> op_kind) ops
            @ (if over then [''affected_day_budget_exceeded''] else [])\<rparr>)"

section \<open>Diff\<close>

type_synonym item_index = "(string \<times> py_date \<times> nat \<times> plan_item) list"

definition day_positions :: "day_plan \<Rightarrow> (py_date \<times> nat \<times> plan_item) list" where
  "day_positions d = map (\<lambda>(k, i). (day_date d, k, i)) (enumerate 0 (items d))"

definition index_items :: "plan_candidate \<Rightarrow> (lifecycle_error, item_index) result" where
  "index_items c =
     fold_res (\<lambda>(d, k, i) acc. case item_id i of
         None \<Rightarrow> Inl (Value_error ''versioned plan items require item_id'')
       | Some x \<Rightarrow> Inr (AList.update x (d, k, i) acc))
       (concat (map day_positions (days c))) []"

definition item_ref :: "string \<Rightarrow> plan_item \<Rightarrow> (py_date \<times> nat) option \<Rightarrow> (py_date \<times> nat) option \<Rightarrow> item_diff" where
  "item_ref x i before after = \<lparr>id_item_id = x, id_name = item_name i,
     from_date = map_option fst before, to_date = map_option fst after,
     from_index = map_option (int \<circ> snd) before, to_index = map_option (int \<circ> snd) after\<rparr>"

definition place :: "item_index \<Rightarrow> string \<Rightarrow> (py_date \<times> nat) option" where
  "place m x = map_option (\<lambda>(d, k, i). (d, k)) (map_of m x)"

definition indexed_item :: "item_index \<Rightarrow> string \<Rightarrow> plan_item" where
  "indexed_item m x = snd (snd (the (map_of m x)))"

definition keys_of :: "('k::linorder \<times> 'v) list \<Rightarrow> 'k list" where
  "keys_of m = sorted_set (map fst m)"

definition common_ids :: "item_index \<Rightarrow> item_index \<Rightarrow> string list" where
  "common_ids old new = filter (\<lambda>x. x \<in> set (map fst new)) (keys_of old)"

definition time_diffs :: "item_index \<Rightarrow> item_index \<Rightarrow> time_diff list" where
  "time_diffs old new = [\<lparr>td_item_id = x, before_start = start_at a, after_start = start_at b,
       before_end = end_at a, after_end = end_at b\<rparr>.
     x \<leftarrow> common_ids old new, a \<leftarrow> [indexed_item old x], b \<leftarrow> [indexed_item new x],
     instant (start_at a) \<noteq> instant (start_at b) \<or> instant (end_at a) \<noteq> instant (end_at b)]"

definition route_diffs :: "item_index \<Rightarrow> item_index \<Rightarrow> route_diff list" where
  "route_diffs old new = [\<lparr>rd_item_id = x, before_minutes = travel_from_previous_minutes a,
       after_minutes = travel_from_previous_minutes b,
       before_meters = distance_from_previous_meters a, after_meters = distance_from_previous_meters b\<rparr>.
     x \<leftarrow> common_ids old new, a \<leftarrow> [indexed_item old x], b \<leftarrow> [indexed_item new x],
     travel_from_previous_minutes a \<noteq> travel_from_previous_minutes b
       \<or> distance_from_previous_meters a \<noteq> distance_from_previous_meters b]"

definition day_diffs :: "plan_candidate \<Rightarrow> plan_candidate \<Rightarrow> day_metric_diff list" where
  "day_diffs before after =
     (let old = dict_of (map (\<lambda>d. (day_date d, d)) (days before));
          new = dict_of (map (\<lambda>d. (day_date d, d)) (days after))
      in [\<lparr>dm_day = d, travel_minutes_delta = total_travel_minutes b - total_travel_minutes a,
           walking_meters_delta = walking_distance_meters b - walking_distance_meters a,
           known_cost_delta = known_estimated_cost b - known_estimated_cost a\<rparr>.
         d \<leftarrow> filter (\<lambda>d. d \<in> set (map fst new)) (keys_of old),
         a \<leftarrow> [the (map_of old d)], b \<leftarrow> [the (map_of new d)],
         total_travel_minutes a \<noteq> total_travel_minutes b
           \<or> walking_distance_meters a \<noteq> walking_distance_meters b
           \<or> known_estimated_cost a \<noteq> known_estimated_cost b])"

definition build_plan_diff ::
  "plan_candidate \<Rightarrow> plan_candidate \<Rightarrow> string \<Rightarrow> string \<Rightarrow> rat option \<Rightarrow> rat option
     \<Rightarrow> (lifecycle_error, plan_diff) result" where
  "build_plan_diff before after from_id to_version soft_before soft_after =
     bind_res (index_items before) (\<lambda>old.
     bind_res (index_items after) (\<lambda>new.
       let place_change = (\<lambda>x. item_ref x (indexed_item new x) (place old x) (place new x));
           same_day = (\<lambda>x. map_option fst (place old x) = map_option fst (place new x))
       in Inr \<lparr>from_version_id = from_id, to_id = to_version,
         added_items = map (\<lambda>x. item_ref x (indexed_item new x) None (place new x))
           (filter (\<lambda>x. x \<notin> set (map fst old)) (keys_of new)),
         removed_items = map (\<lambda>x. item_ref x (indexed_item old x) (place old x) None)
           (filter (\<lambda>x. x \<notin> set (map fst new)) (keys_of old)),
         moved_items = map place_change (filter (\<lambda>x. \<not> same_day x) (common_ids old new)),
         reordered_items = map place_change
           (filter (\<lambda>x. same_day x \<and> place old x \<noteq> place new x) (common_ids old new)),
         time_changes = time_diffs old new, route_changes = route_diffs old new,
         day_metric_changes = day_diffs before after,
         hard_status_before = map_option status (validation before),
         hard_status_after = map_option status (validation after),
         soft_quality_before = soft_before, soft_quality_after = soft_after\<rparr>))"

end
