(* ===== verification/LifecycleEditFacts.thy ===== *)
theory LifecycleEditFacts
  imports LifecycleEdit Samples
begin

text \<open>
  What an edit patch does to a draft: it changes only the days the impact analysis names,
  keeps every locked day and item in place, drops only optional places, and fails only with
  the errors of the domain; and what the diff of two plans reports.
\<close>

section \<open>Days of a draft\<close>

definition draft_table :: "candidate_draft \<Rightarrow> edit_days" where
  "draft_table draft = dict_of (map (\<lambda>d. (dd_date d, poi_ids d)) (draft_days draft))"

definition on_day :: "edit_days \<Rightarrow> py_date \<Rightarrow> string \<Rightarrow> bool" where
  "on_day ds d p \<longleftrightarrow> (\<exists>xs. map_of ds d = Some xs \<and> p \<in> set xs)"

lemma on_day_update:
  "on_day (AList.update d' xs ds) d p \<longleftrightarrow> (if d = d' then p \<in> set xs else on_day ds d p)"
  by (auto simp: on_day_def update_conv')

lemma set_py_insert [simp]: "set (py_insert i x xs) = insert x (set xs)"
proof -
  have "set (take k xs) \<union> set (drop k xs) = set xs" for k by (metis append_take_drop_id set_append)
  then show ?thesis by (auto simp: py_insert_def Let_def)
qed

lemma in_replace_first: "p \<in> set xs \<Longrightarrow> p \<noteq> x \<Longrightarrow> p \<in> set (replace_first x y xs)"
  by (induction xs) auto

lemma remove_from_day_Inr:
  "remove_from_day d x ds = Inr ds' \<longleftrightarrow> (\<exists>xs. map_of ds d = Some xs \<and> x \<in> set xs \<and> ds' = AList.update d (remove1 x xs) ds)"
  by (auto simp: remove_from_day_def split: option.splits)

lemma insert_in_day_Inr:
  "insert_in_day sid d k x ds = Inr ds' \<longleftrightarrow> (\<exists>xs. map_of ds d = Some xs \<and>
     ds' = AList.update d (py_insert (min (case k of None \<Rightarrow> int (length xs) | Some i \<Rightarrow> i) (int (length xs))) x xs) ds)"
  by (auto simp: insert_in_day_def Let_def split: option.splits)

lemma replace_in_day_Inr:
  "replace_in_day d x y ds = Inr ds' \<longleftrightarrow> (\<exists>xs. map_of ds d = Some xs \<and> x \<in> set xs \<and> ds' = AList.update d (replace_first x y xs) ds)"
  by (auto simp: replace_in_day_def split: option.splits)

lemma source_of_Inr:
  "source_of entry = Inr (d, x) \<longleftrightarrow> (\<exists>i. entry = Some (d, i) \<and> item_poi_id i = Some x \<and> x \<noteq> [])"
  by (auto simp: source_of_def given_def split: option.splits)

lemmas day_op_Inr = remove_from_day_Inr insert_in_day_Inr replace_in_day_Inr source_of_Inr

text \<open>The steps of a patch as moves of one place: where it leaves and where it arrives.\<close>

lemma apply_kind_cases:
  assumes "apply_kind h sid rid pois k op entry st = Inr st'"
  obtains
    (remove) d i x xs where "op_kind op = Remove_item" "entry = Some (d, i)" "item_poi_id i = Some x"
      "map_of (fst st) d = Some xs" "x \<in> set xs" "fst st' = AList.update d (remove1 x xs) (fst st)"
  | (move) d i x xs t ys n where "op_kind op \<in> {Move_item, Reorder_item}" "entry = Some (d, i)"
      "item_poi_id i = Some x" "t = (case op_target_date op of None \<Rightarrow> d | Some t \<Rightarrow> t)"
      "map_of (fst st) d = Some xs" "x \<in> set xs"
      "map_of (AList.update d (remove1 x xs) (fst st)) t = Some ys"
      "fst st' = AList.update t (py_insert n x ys) (AList.update d (remove1 x xs) (fst st))"
  | (replace) d i x xs y where "op_kind op = Replace_item" "entry = Some (d, i)" "item_poi_id i = Some x"
      "map_of (fst st) d = Some xs" "x \<in> set xs" "fst st' = AList.update d (replace_first x y xs) (fst st)"
  | (add) t ys n y where "op_kind op = Add_item" "op_target_date op = Some t" "map_of (fst st) t = Some ys"
      "fst st' = AList.update t (py_insert n y ys) (fst st)"
proof (cases "op_kind op")
  case Move_item
  with assms move show ?thesis by (auto simp: apply_kind_def day_op_Inr)
next
  case Reorder_item
  with assms move show ?thesis by (auto simp: apply_kind_def day_op_Inr)
next
  case Remove_item
  with assms remove show ?thesis by (auto simp: apply_kind_def day_op_Inr)
next
  case Add_item
  with assms add show ?thesis by (auto simp: apply_kind_def day_op_Inr split: option.splits if_splits)
next
  case Replace_item
  with assms replace show ?thesis by (auto simp: apply_kind_def day_op_Inr)
qed

lemma apply_operation_kind:
  assumes "apply_operation h sid rid trip c pois (k, op) st = Inr st'"
  shows "apply_kind h sid rid pois k op (item_entry c op) st = Inr st'"
    and "item_entry c op = Some (d, i) \<Longrightarrow> op_kind op \<in> {Remove_item, Replace_item} \<Longrightarrow> \<not> is_must_visit (item_name i) trip"
  using assms by (auto simp: apply_operation_def Let_def split: option.splits if_splits prod.splits)

lemma apply_kind_keeps:
  assumes "apply_kind h sid rid pois k op entry st = Inr st'" and "on_day (fst st) d p"
    and "\<And>d' i. entry = Some (d', i) \<Longrightarrow> item_poi_id i \<noteq> Some p"
  shows "on_day (fst st') d p"
  using assms(1)
proof (cases rule: apply_kind_cases)
  case (remove d' i x xs)
  with assms(2,3) show ?thesis by (auto simp: on_day_def update_conv')
next
  case (move d' i x xs t ys n)
  then have "p \<noteq> x" using assms(3) by auto
  with move assms(2) show ?thesis
    by (auto simp: on_day_def update_conv' split: if_splits)
next
  case (replace d' i x xs y)
  then have "p \<noteq> x" using assms(3) by auto
  with replace assms(2) show ?thesis by (auto simp: on_day_def update_conv' in_replace_first)
next
  case (add t ys n y)
  with assms(2) show ?thesis by (auto simp: on_day_def update_conv')
qed

lemma apply_kind_local:
  assumes "apply_kind h sid rid pois k op entry st = Inr st'"
    and "\<And>d' i. entry = Some (d', i) \<Longrightarrow> d \<noteq> d'" and "op_target_date op \<noteq> Some d"
  shows "map_of (fst st') d = map_of (fst st) d"
  using assms(1)
proof (cases rule: apply_kind_cases)
  case (move d' i x xs t ys n)
  moreover have "d \<noteq> d'" "d \<noteq> t" using assms(2,3) move by (auto split: option.splits)
  ultimately show ?thesis by (simp add: update_conv')
qed (use assms(2,3) in \<open>auto simp: update_conv'\<close>)

lemma apply_kind_dates:
  assumes "apply_kind h sid rid pois k op entry st = Inr st'"
  shows "dom (map_of (fst st')) = dom (map_of (fst st))"
  using assms
proof (cases rule: apply_kind_cases)
  case (move d i x xs t ys n)
  then show ?thesis by (auto simp: update_conv' split: if_splits)
qed (auto simp: update_conv')

section \<open>The source day of an operation\<close>

lemma rev_map_filter: "rev (List.map_filter f xs) = List.map_filter f (rev xs)"
  by (simp add: List.map_filter_def rev_map rev_filter)

lemma map_filter_Cons:
  "List.map_filter f (x # xs) = (case f x of None \<Rightarrow> List.map_filter f xs | Some y \<Rightarrow> y # List.map_filter f xs)"
  by (simp add: List.map_filter_def split: option.splits)

lemma locations_of_items:
  assumes "k \<noteq> []"
  shows "map_of (item_locations c) k = map_option fst (map_of (candidate_items c) k)"
proof -
  have "map_of (List.map_filter (\<lambda>(d, i). if given (item_id i) then Some (the (item_id i), d) else None) xs) k
      = map_option fst (map_of (map (\<lambda>(d, i). (the (item_id i), d, i)) (filter (\<lambda>(d, i). item_id i \<noteq> None) xs)) k)"
    for xs :: "(py_date \<times> plan_item) list"
  proof (induction xs)
    case (Cons x xs)
    then show ?case
      using assms by (cases x; cases "item_id (snd x)") (auto simp: map_filter_Cons given_def)
  qed (simp add: List.map_filter_def)
  then show ?thesis
    by (simp add: item_locations_def candidate_items_def identified_items_def map_of_dict_of
        rev_map_filter rev_map rev_filter del: map_of_eq_Some_iff)
qed

lemma source_day_entry: "source_day c op = map_option fst (item_entry c op)"
  by (auto simp: source_day_def item_entry_def locations_of_items given_def split: option.splits)

lemma touched_datesI:
  assumes "op \<in> set ops"
  shows "item_entry c op = Some (d, i) \<Longrightarrow> d \<in> set (touched_dates c ops)"
    and "op_target_date op = Some d \<Longrightarrow> d \<in> set (touched_dates c ops)"
  using assms by (force simp: touched_dates_def source_day_entry)+

lemma touched_itemsI:
  "op \<in> set ops \<Longrightarrow> item_entry c op = Some (d, i) \<Longrightarrow> the (op_item_id op) \<in> set (touched_items c ops)"
  by (force simp: touched_items_def source_day_entry)

section \<open>A whole patch\<close>

lemma edited_draft_table:
  assumes "fst ` set (map (\<lambda>d. (dd_date d, poi_ids d)) (draft_days draft)) \<subseteq> dom (map_of ds)"
  shows "map_of (draft_table (edited_draft draft ds)) d
     = (if d \<in> dd_date ` set (draft_days draft) then map_of ds d else None)"
proof -
  have "map_of (map (\<lambda>d. (dd_date d, the (map_of ds (dd_date d)))) xs) d
      = (if d \<in> dd_date ` set xs then Some (the (map_of ds d)) else None)" for xs :: "draft_day list"
    by (induction xs) auto
  from this [of "rev (draft_days draft)"]
  have "map_of (draft_table (edited_draft draft ds)) d
      = (if d \<in> dd_date ` set (draft_days draft) then Some (the (map_of ds d)) else None)"
    by (simp add: draft_table_def edited_draft_def map_of_dict_of comp_def rev_map del: map_of_eq_Some_iff)
  moreover have "map_of ds d \<noteq> None" if "d \<in> dd_date ` set (draft_days draft)"
    using assms that by (force simp: dom_def)
  ultimately show ?thesis by (auto simp del: map_of_eq_Some_iff)
qed

lemma apply_edit_patch_run:
  assumes "apply_edit_patch h sid rid trip c draft pois ops = Inr (draft', ids)"
  obtains ds where "fold_res (apply_operation h sid rid trip c pois)
      (map (\<lambda>(k, op). (int k, op)) (enumerate 0 ops)) (initial_edit_state c draft) = Inr ds"
    and "dom (map_of (fst ds)) = dom (map_of (draft_table draft))"
    and "\<And>d. map_of (draft_table draft') d = map_of (fst ds) d"
proof -
  obtain ds where run: "fold_res (apply_operation h sid rid trip c pois)
      (map (\<lambda>(k, op). (int k, op)) (enumerate 0 ops)) (initial_edit_state c draft) = Inr ds"
    and draft': "draft' = edited_draft draft (fst ds)"
    using assms by (auto simp: apply_edit_patch_def)
  have start: "fst (initial_edit_state c draft) = draft_table draft"
    by (simp add: initial_edit_state_def draft_table_def)
  have dom: "dom (map_of (fst ds)) = dom (map_of (draft_table draft))"
  proof (rule fold_res_invariant [where P = "\<lambda>st. dom (map_of (fst st)) = dom (map_of (draft_table draft))", OF run])
    fix kop s t
    assume "dom (map_of (fst s)) = dom (map_of (draft_table draft))"
      and "apply_operation h sid rid trip c pois kop s = Inr t"
    then show "dom (map_of (fst t)) = dom (map_of (draft_table draft))"
      by (cases kop) (simp add: apply_kind_dates [OF apply_operation_kind(1)])
  qed (simp add: start)
  have "dom (map_of (draft_table draft)) = dd_date ` set (draft_days draft)"
    by (simp add: draft_table_def dom_dict_of image_image)
  with dom have dates: "dom (map_of (fst ds)) = dd_date ` set (draft_days draft)" by simp
  have "map_of (draft_table draft') d = map_of (fst ds) d" for d
  proof -
    have "map_of (draft_table draft') d = (if d \<in> dd_date ` set (draft_days draft) then map_of (fst ds) d else None)"
      unfolding draft' by (rule edited_draft_table) (simp add: dates image_image)
    also have "\<dots> = map_of (fst ds) d"
      using dates by (metis domIff)
    finally show ?thesis .
  qed
  with run dom that show ?thesis by blast
qed

lemma initial_days: "fst (initial_edit_state c draft) = draft_table draft"
  by (simp add: initial_edit_state_def draft_table_def)

lemma in_enumerated: "(k, op) \<in> set (map (\<lambda>(k, op). (int k, op)) (enumerate n ops)) \<Longrightarrow> op \<in> set ops"
  by (auto simp: set_zip enumerate_eq_zip)

lemma patch_local:
  assumes "apply_edit_patch h sid rid trip c draft pois ops = Inr (draft', ids)"
    and "d \<notin> set (touched_dates c ops)"
  shows "map_of (draft_table draft') d = map_of (draft_table draft) d"
proof -
  obtain ds where run: "fold_res (apply_operation h sid rid trip c pois)
      (map (\<lambda>(k, op). (int k, op)) (enumerate 0 ops)) (initial_edit_state c draft) = Inr ds"
    and table: "\<And>d. map_of (draft_table draft') d = map_of (fst ds) d"
    using apply_edit_patch_run [OF assms(1)] by metis
  have "map_of (fst ds) d = map_of (draft_table draft) d"
  proof (rule fold_res_invariant [where P = "\<lambda>st. map_of (fst st) d = map_of (draft_table draft) d", OF run])
    fix kop s t
    assume mem: "kop \<in> set (map (\<lambda>(k, op). (int k, op)) (enumerate 0 ops))"
      and s: "map_of (fst s) d = map_of (draft_table draft) d"
      and step: "apply_operation h sid rid trip c pois kop s = Inr t"
    obtain k op where kop: "kop = (k, op)" by (cases kop)
    have op: "op \<in> set ops" by (rule in_enumerated [OF mem [unfolded kop]])
    have "map_of (fst t) d = map_of (fst s) d"
      using assms(2) touched_datesI [OF op]
      by (intro apply_kind_local [OF apply_operation_kind(1) [OF step [unfolded kop]]]) blast+
    with s show "map_of (fst t) d = map_of (draft_table draft) d" by simp
  qed (simp add: initial_days)
  with table show ?thesis by simp
qed

lemma patch_keeps:
  assumes "apply_edit_patch h sid rid trip c draft pois ops = Inr (draft', ids)"
    and "on_day (draft_table draft) d p"
    and "\<And>op d' i. op \<in> set ops \<Longrightarrow> item_entry c op = Some (d', i) \<Longrightarrow> item_poi_id i \<noteq> Some p"
  shows "on_day (draft_table draft') d p"
proof -
  obtain ds where run: "fold_res (apply_operation h sid rid trip c pois)
      (map (\<lambda>(k, op). (int k, op)) (enumerate 0 ops)) (initial_edit_state c draft) = Inr ds"
    and table: "\<And>d. map_of (draft_table draft') d = map_of (fst ds) d"
    using apply_edit_patch_run [OF assms(1)] by metis
  have "on_day (fst ds) d p"
  proof (rule fold_res_invariant [where P = "\<lambda>st. on_day (fst st) d p", OF run])
    fix kop s t
    assume mem: "kop \<in> set (map (\<lambda>(k, op). (int k, op)) (enumerate 0 ops))"
      and s: "on_day (fst s) d p" and step: "apply_operation h sid rid trip c pois kop s = Inr t"
    obtain k op where kop: "kop = (k, op)" by (cases kop)
    have op: "op \<in> set ops" by (rule in_enumerated [OF mem [unfolded kop]])
    show "on_day (fst t) d p"
      by (rule apply_kind_keeps [OF apply_operation_kind(1) [OF step [unfolded kop]] s]) (rule assms(3) [OF op])
  qed (simp add: initial_days assms(2))
  with table show ?thesis by (simp add: on_day_def del: map_of_eq_Some_iff)
qed

section \<open>Locks and required places\<close>

lemma no_conflict_no_hit:
  assumes "ir_lock_conflicts (analyze_change_impact c ops lks m) = []" and "lock \<in> set lks"
  shows "\<not> lock_hit (sorted_set (touched_dates c ops)) (sorted_set (touched_items c ops)) lock"
proof -
  have "sort (map lock_id (filter (lock_hit (sorted_set (touched_dates c ops)) (sorted_set (touched_items c ops))) lks)) = []"
    using assms(1) by (simp add: analyze_change_impact_def Let_def)
  then have "filter (lock_hit (sorted_set (touched_dates c ops)) (sorted_set (touched_items c ops))) lks = []"
    by (metis Nil_is_map_conv length_0_conv length_sort)
  with assms(2) show ?thesis by (simp add: filter_empty_conv)
qed

text \<open>The ids of the places: an operation renames only the place it brings in.\<close>

definition brings :: "string \<Rightarrow> planning_poi list \<Rightarrow> edit_operation \<Rightarrow> string \<Rightarrow> bool" where
  "brings sid pois op p \<longleftrightarrow> op_kind op \<in> {Add_item, Replace_item} \<and> resolve_poi_name sid pois (poi_name_arg op) = Inr p"

lemma apply_kind_ids:
  assumes "apply_kind h sid rid pois k op entry st = Inr st'" and "\<not> brings sid pois op p"
  shows "map_of (snd st') p = map_of (snd st) p"
  using assms
  by (cases "op_kind op") (auto simp: apply_kind_def brings_def update_conv' split: option.splits if_splits)

lemma map_of_filter_Some: "map_of xs k = Some v \<Longrightarrow> P (k, v) \<Longrightarrow> map_of (filter P xs) k = Some v"
  by (induction xs) (auto split: if_splits)

lemma map_of_only:
  assumes "(k, v) \<in> set kvs" and "\<forall>w. (k, w) \<in> set kvs \<longrightarrow> w = v"
  shows "map_of kvs k = Some v"
proof -
  have "map_of kvs k \<noteq> None" using assms(1) by (metis fst_conv imageI map_of_eq_None_iff)
  then show ?thesis using assms(2) map_of_SomeD [of kvs k] by fastforce
qed

lemma initial_id:
  assumes item: "map_of (candidate_items c) x = Some (d, i)" "item_poi_id i = Some p"
    and only: "\<forall>y d' i'. map_of (candidate_items c) y = Some (d', i') \<and> item_poi_id i' = Some p \<longrightarrow> y = x"
  shows "map_of (snd (initial_edit_state c draft)) p = Some x"
proof -
  let ?kvs = "List.map_filter (\<lambda>(x, d, i). case item_poi_id i of None \<Rightarrow> None | Some p \<Rightarrow> Some (p, x)) (candidate_items c)"
  have keys: "distinct (map fst (candidate_items c))" by (simp add: candidate_items_def)
  have "map_of (rev ?kvs) p = Some x"
  proof (rule map_of_only)
    show "(p, x) \<in> set (rev ?kvs)"
      using map_of_SomeD [OF item(1)] item(2) by (force simp: List.map_filter_def)
    show "\<forall>w. (p, w) \<in> set (rev ?kvs) \<longrightarrow> w = x"
      using only keys by (force simp: List.map_filter_def split: option.splits)
  qed
  then show ?thesis by (simp add: initial_edit_state_def map_of_dict_of del: map_of_eq_Some_iff)
qed

lemma patch_keeps_id:
  assumes edit: "apply_edit_patch h sid rid trip c draft pois ops = Inr (draft', ids)"
    and item: "map_of (candidate_items c) x = Some (d, i)" "item_poi_id i = Some p"
    and only: "\<forall>y d' i'. map_of (candidate_items c) y = Some (d', i') \<and> item_poi_id i' = Some p \<longrightarrow> y = x"
    and fresh: "\<forall>op \<in> set ops. \<not> brings sid pois op p" and given: "x \<noteq> []" "p \<noteq> []"
  shows "map_of ids p = Some x"
proof -
  obtain ds where run: "fold_res (apply_operation h sid rid trip c pois)
      (map (\<lambda>(k, op). (int k, op)) (enumerate 0 ops)) (initial_edit_state c draft) = Inr ds"
    and ids: "ids = filter (\<lambda>(k, v). k \<noteq> [] \<and> v \<noteq> []) (snd ds)"
    using edit by (auto simp: apply_edit_patch_def)
  have "map_of (snd ds) p = Some x"
  proof (rule fold_res_invariant [where P = "\<lambda>st. map_of (snd st) p = Some x", OF run])
    show "map_of (snd (initial_edit_state c draft)) p = Some x" by (rule initial_id [OF item only])
    fix kop s t
    assume mem: "kop \<in> set (map (\<lambda>(k, op). (int k, op)) (enumerate 0 ops))"
      and s: "map_of (snd s) p = Some x" and step: "apply_operation h sid rid trip c pois kop s = Inr t"
    obtain k op where kop: "kop = (k, op)" by (cases kop)
    have "\<not> brings sid pois op p" using fresh in_enumerated [OF mem [unfolded kop]] by blast
    from apply_kind_ids [OF apply_operation_kind(1) [OF step [unfolded kop]] this] s
    show "map_of (snd t) p = Some x" by simp
  qed
  then show ?thesis unfolding ids using given by (intro map_of_filter_Some) auto
qed

text \<open>
  C26. An edit that the impact analysis accepts respects every lock in the draft it makes: if no
  conflict is reported, then a locked day lists exactly the places it listed before, and
  the place of a locked item that no other item plans is still on that item's day. The place
  also keeps the item's id, except when an operation of the patch brings in this very place, by adding it or
  as a replacement.
\<close>

theorem accepted_edit_respects_locks:
  assumes edit: "apply_edit_patch h sid rid trip c draft pois ops = Inr (draft', ids)"
    and accepted: "ir_lock_conflicts (analyze_change_impact c ops lks max_days) = []"
    and lock: "lock \<in> set lks"
  shows "case lk_kind lock of
      Lock_day \<Rightarrow> \<forall>d. isoformat d = lk_target lock \<longrightarrow> map_of (draft_table draft') d = map_of (draft_table draft) d
    | Lock_item \<Rightarrow> \<forall>d i p. map_of (candidate_items c) (lk_target lock) = Some (d, i) \<and> item_poi_id i = Some p
        \<and> (\<forall>x d' i'. map_of (candidate_items c) x = Some (d', i') \<and> item_poi_id i' = Some p \<longrightarrow> x = lk_target lock)
        \<longrightarrow> (on_day (draft_table draft) d p \<longrightarrow> on_day (draft_table draft') d p)
          \<and> (lk_target lock \<noteq> [] \<and> p \<noteq> [] \<and> (\<forall>op \<in> set ops. \<not> brings sid pois op p) \<longrightarrow> map_of ids p = Some (lk_target lock))"
proof (cases "lk_kind lock")
  case Lock_day
  have "d \<notin> set (touched_dates c ops)" if "isoformat d = lk_target lock" for d
    using no_conflict_no_hit [OF accepted lock] Lock_day that by (force simp: lock_hit_def)
  with Lock_day show ?thesis by (simp add: patch_local [OF edit] del: map_of_eq_Some_iff)
next
  case Lock_item
  have free: "lk_target lock \<notin> set (touched_items c ops)"
    using no_conflict_no_hit [OF accepted lock] Lock_item by (simp add: lock_hit_def)
  have "on_day (draft_table draft') d p"
    if planned: "\<forall>x d' i'. map_of (candidate_items c) x = Some (d', i') \<and> item_poi_id i' = Some p \<longrightarrow> x = lk_target lock"
      and on: "on_day (draft_table draft) d p" for d p
  proof (rule patch_keeps [OF edit on])
    fix op d' i'
    assume op: "op \<in> set ops" and entry: "item_entry c op = Some (d', i')"
    then have "the (op_item_id op) \<in> set (touched_items c ops)" by (rule touched_itemsI)
    with free have "the (op_item_id op) \<noteq> lk_target lock" by auto
    moreover have "map_of (candidate_items c) (the (op_item_id op)) = Some (d', i')"
      using entry by (simp add: item_entry_def split: if_splits)
    ultimately show "item_poi_id i' \<noteq> Some p" using planned by blast
  qed
  moreover note patch_keeps_id [OF edit]
  ultimately show ?thesis unfolding Lock_item lock_kind.case by blast
qed

definition edit_op :: "edit_kind \<Rightarrow> string option \<Rightarrow> py_date option \<Rightarrow> string option \<Rightarrow> edit_operation" where
  "edit_op k x d name = \<lparr>op_kind = k, op_item_id = x, op_item_name = None, op_target_date = d,
     op_target_index = None, op_poi_name = name, op_reason = None\<rparr>"

definition plain_hashing :: hashing where
  "plain_hashing = \<lparr>sha256 = (\<lambda>s. s), decimal_text = (\<lambda>x. show_int (py_round x))\<rparr>"

definition sample_draft :: candidate_draft where
  "sample_draft = \<lparr>draft_id = ''balanced-r0'', draft_style = Style_balanced,
     draft_days = [\<lparr>dd_date = 739891, poi_ids = [''p1'']\<rparr>, \<lparr>dd_date = 739892, poi_ids = [''p2'', ''p3'']\<rparr>]\<rparr>"

definition sample_lock :: "lock_kind \<Rightarrow> string \<Rightarrow> plan_lock" where
  "sample_lock k x = \<lparr>lock_id = lock_kind_value k @ '':'' @ x, lk_kind = k, lk_target = x,
     expected_fingerprint = [], lk_created_by = ''r0'', lk_created_at = at_time 739890 9 0\<rparr>"

lemma sample_items:
  "candidate_items sample_plan = [(''item_p1'', 739891, sample_item ''p1'' ''Lt'' 739891 12 14 50),
     (''item_p2'', 739892, sample_item ''p2'' ''Su'' 739892 14 16 0), (''item_p3'', 739892, sample_item ''p3'' ''Mu'' 739892 10 12 20)]"
  by (simp add: candidate_items_def identified_items_def dated_items_def sample_plan_def sample_candidate_def
      sample_day_def sample_item_def dict_of_def)

definition move_op :: edit_operation where
  "move_op = edit_op Move_item (Some ''item_p3'') (Some 739891) None"

lemma sample_move:
  "apply_edit_patch plain_hashing ''s'' ''r'' sample_trip sample_plan sample_draft sample_pois [move_op]
     = Inr (sample_draft\<lparr>draft_days := [\<lparr>dd_date = 739891, poi_ids = [''p1'', ''p3'']\<rparr>, \<lparr>dd_date = 739892, poi_ids = [''p2'']\<rparr>]\<rparr>,
         [(''p1'', ''item_p1''), (''p2'', ''item_p2''), (''p3'', ''item_p3'')])"
  by code_simp

theorem accepted_edit_respects_locks_witness:
  "\<exists>d i. map_of (candidate_items sample_plan) ''item_p2'' = Some (d, i) \<and> item_poi_id i = Some ''p2''
     \<and> on_day (draft_table (sample_draft\<lparr>draft_days := [\<lparr>dd_date = 739891, poi_ids = [''p1'', ''p3'']\<rparr>, \<lparr>dd_date = 739892, poi_ids = [''p2'']\<rparr>]\<rparr>)) d ''p2''
     \<and> map_of [(''p1'', ''item_p1''), (''p2'', ''item_p2''), (''p3'', ''item_p3'')] ''p2'' = Some ''item_p2''"
proof -
  have "ir_lock_conflicts (analyze_change_impact sample_plan [move_op] [sample_lock Lock_item ''item_p2''] 2) = []"
    by code_simp
  note kept = accepted_edit_respects_locks [OF sample_move this, of "sample_lock Lock_item ''item_p2''"]
  have "on_day (draft_table (sample_draft\<lparr>draft_days := [\<lparr>dd_date = 739891, poi_ids = [''p1'', ''p3'']\<rparr>,
      \<lparr>dd_date = 739892, poi_ids = [''p2'']\<rparr>]\<rparr>)) 739892 ''p2''
     \<and> map_of [(''p1'', ''item_p1''), (''p2'', ''item_p2''), (''p3'', ''item_p3'')] ''p2'' = Some ''item_p2''"
    using kept [simplified sample_lock_def plan_lock.simps lock_kind.case, THEN spec, THEN spec, THEN spec,
      of 739892 "sample_item ''p2'' ''Su'' 739892 14 16 0" "''p2''"]
    by (simp add: sample_items sample_item_def on_day_def draft_table_def sample_draft_def dict_of_def brings_def move_op_def
        edit_op_def split: if_splits)
  then show ?thesis by (simp add: sample_items sample_item_def)
qed

text \<open>
  The exception is real: adding a place that a locked item already plans is accepted without a conflict,
  but the place then carries the new id, on both days, and no item has the locked one.
\<close>

lemma adding_planned_place_takes_id:
  "ir_lock_conflicts (analyze_change_impact sample_plan [edit_op Add_item None (Some 739891) (Some ''Su'')]
      [sample_lock Lock_item ''item_p2''] 2) = []
   \<and> apply_edit_patch plain_hashing ''s'' ''r'' sample_trip sample_plan sample_draft sample_pois
       [edit_op Add_item None (Some 739891) (Some ''Su'')]
     = Inr (sample_draft\<lparr>draft_days := [\<lparr>dd_date = 739891, poi_ids = [''p1'', ''p2'']\<rparr>, \<lparr>dd_date = 739892, poi_ids = [''p2'', ''p3'']\<rparr>]\<rparr>,
         [(''p1'', ''item_p1''), (''p2'', new_item_id plain_hashing ''s'' ''r'' 0), (''p3'', ''item_p3'')])
   \<and> new_item_id plain_hashing ''s'' ''r'' 0 \<noteq> ''item_p2''"
  by code_simp

text \<open>
  Edits never drop a required place: a place that some day of the draft lists before a
  successful patch and no day lists after it belongs to an item whose name is not a
  must-visit and which the patch explicitly removes or replaces.
\<close>

lemma edit_drops_only_optional_places:
  assumes edit: "apply_edit_patch h sid rid trip c draft pois ops = Inr (draft', ids)"
    and before: "on_day (draft_table draft) d p" and gone: "\<forall>d'. \<not> on_day (draft_table draft') d' p"
  shows "\<exists>op \<in> set ops. op_kind op \<in> {Remove_item, Replace_item} \<and>
     (\<exists>d' i. item_entry c op = Some (d', i) \<and> item_poi_id i = Some p \<and> \<not> is_must_visit (item_name i) trip)"
proof (rule ccontr)
  assume none: "\<not> ?thesis"
  obtain ds where run: "fold_res (apply_operation h sid rid trip c pois)
      (map (\<lambda>(k, op). (int k, op)) (enumerate 0 ops)) (initial_edit_state c draft) = Inr ds"
    and table: "\<And>d. map_of (draft_table draft') d = map_of (fst ds) d"
    using apply_edit_patch_run [OF edit] by metis
  have "\<exists>d. on_day (fst ds) d p"
  proof (rule fold_res_invariant [where P = "\<lambda>st. \<exists>d. on_day (fst st) d p", OF run])
    fix kop s t
    assume mem: "kop \<in> set (map (\<lambda>(k, op). (int k, op)) (enumerate 0 ops))"
      and s: "\<exists>d. on_day (fst s) d p" and step: "apply_operation h sid rid trip c pois kop s = Inr t"
    obtain k op where kop: "kop = (k, op)" by (cases kop)
    have op: "op \<in> set ops" by (rule in_enumerated [OF mem [unfolded kop]])
    note kind = apply_operation_kind [OF step [unfolded kop]]
    from kind(1) show "\<exists>d. on_day (fst t) d p"
    proof (cases rule: apply_kind_cases)
      case (move d i x xs td ys n)
      show ?thesis
      proof (cases "x = p")
        case True
        with move show ?thesis by (auto simp: on_day_update intro!: exI [of _ td])
      next
        case False
        with move(2,3) s show ?thesis using apply_kind_keeps [OF kind(1)] by fastforce
      qed
    next
      case (remove d i x xs)
      then have "item_poi_id i \<noteq> Some p" using none op kind(2) by blast
      with remove(2) s show ?thesis using apply_kind_keeps [OF kind(1)] by fastforce
    next
      case (replace d i x xs y)
      then have "item_poi_id i \<noteq> Some p" using none op kind(2) by blast
      with replace(2) s show ?thesis using apply_kind_keeps [OF kind(1)] by fastforce
    next
      case (add td ys n y)
      obtain d where "on_day (fst s) d p" using s by blast
      then have "on_day (fst t) d p" using add by (auto simp: on_day_def update_conv')
      then show ?thesis by blast
    qed
  qed (use before initial_days in auto)
  with table gone show False by (auto simp: on_day_def simp del: map_of_eq_Some_iff)
qed

lemma sample_removal:
  "apply_edit_patch plain_hashing ''s'' ''r'' sample_trip sample_plan sample_draft sample_pois
       [edit_op Remove_item (Some ''item_p3'') None None]
     = Inr (sample_draft\<lparr>draft_days := [\<lparr>dd_date = 739891, poi_ids = [''p1'']\<rparr>, \<lparr>dd_date = 739892, poi_ids = [''p2'']\<rparr>]\<rparr>,
         [(''p1'', ''item_p1''), (''p2'', ''item_p2''), (''p3'', ''item_p3'')])"
  by code_simp

lemma edit_drops_only_optional_places_witness:
  "\<exists>d i. item_entry sample_plan (edit_op Remove_item (Some ''item_p3'') None None) = Some (d, i)
     \<and> item_poi_id i = Some ''p3'' \<and> \<not> is_must_visit (item_name i) sample_trip"
proof -
  have "on_day (draft_table sample_draft) 739892 ''p3''"
    by (simp add: on_day_def draft_table_def sample_draft_def dict_of_def)
  moreover have "\<forall>d'. \<not> on_day (draft_table (sample_draft\<lparr>draft_days := [\<lparr>dd_date = 739891, poi_ids = [''p1'']\<rparr>,
      \<lparr>dd_date = 739892, poi_ids = [''p2'']\<rparr>]\<rparr>)) d' ''p3''"
    by (simp add: on_day_def draft_table_def sample_draft_def dict_of_def)
  ultimately show ?thesis
    using edit_drops_only_optional_places [OF sample_removal, of 739892 "''p3''"] by simp
qed

section \<open>Errors\<close>

definition op_places :: "plan_candidate \<Rightarrow> edit_operation \<Rightarrow> string list" where
  "op_places c op = (case item_entry c op of
     Some (d, i) \<Rightarrow> (case item_poi_id i of None \<Rightarrow> [] | Some p \<Rightarrow> [p]) | None \<Rightarrow> [])"

definition domain_outcome :: "string \<Rightarrow> (lifecycle_error, 'a) result \<Rightarrow> bool" where
  "domain_outcome sid r \<longleftrightarrow> (\<forall>e. r = Inl e \<longrightarrow> (\<exists>code. e = Action_error sid code))"

lemma domain_outcome_simps [simp]:
  "domain_outcome sid (Inr x)" "domain_outcome sid (Inl (Action_error sid code))"
  by (simp_all add: domain_outcome_def)

lemma domain_outcome_bind:
  "domain_outcome sid r \<Longrightarrow> (\<And>x. r = Inr x \<Longrightarrow> domain_outcome sid (f x)) \<Longrightarrow> domain_outcome sid (bind_res r f)"
  by (cases r) (simp_all add: domain_outcome_def)

lemma insert_in_day_outcome: "domain_outcome sid (insert_in_day sid d k x ds)"
  by (auto simp: insert_in_day_def Let_def domain_outcome_def split: option.splits)

lemma resolve_poi_outcome: "domain_outcome sid (resolve_poi_name sid pois name)"
  by (auto simp: resolve_poi_name_def domain_outcome_def split: list.splits)

lemma apply_operation_outcome:
  assumes op: "operation_ok op" and item: "op_kind op \<noteq> Add_item \<Longrightarrow> item_entry c op \<noteq> None"
    and placed: "\<And>d i p. item_entry c op = Some (d, i) \<Longrightarrow> item_poi_id i = Some p \<Longrightarrow> p \<noteq> [] \<and> on_day (fst st) d p"
  shows "domain_outcome sid (apply_operation h sid rid trip c pois (k, op) st)"
proof -
  have kind: "domain_outcome sid (apply_kind h sid rid pois k op entry st)"
    if entry: "op_kind op \<noteq> Add_item \<Longrightarrow> \<exists>d i p. entry = Some (d, i) \<and> item_poi_id i = Some p \<and> p \<noteq> [] \<and> on_day (fst st) d p"
    for entry
  proof (cases "op_kind op = Add_item")
    case True
    then show ?thesis
      using op by (auto simp: apply_kind_def operation_ok_def validate_operation_def
          intro!: domain_outcome_bind resolve_poi_outcome insert_in_day_outcome split: option.splits if_splits)
  next
    case False
    then obtain d i p where e: "entry = Some (d, i)" "item_poi_id i = Some p" "p \<noteq> []" "on_day (fst st) d p"
      using entry by blast
    have src: "source_of entry = Inr (d, p)" using e by (simp add: source_of_def given_def)
    obtain ds where rm: "remove_from_day d p (fst st) = Inr ds"
      using e(4) by (auto simp: remove_from_day_def on_day_def split: option.splits)
    have rp: "domain_outcome sid (bind_res (replace_in_day d p y (fst st)) f)" if "\<And>x. domain_outcome sid (f x)" for y f
      using e(4) that by (auto simp: replace_in_day_def on_day_def split: option.splits)
    show ?thesis
      using False by (cases "op_kind op") (auto simp: apply_kind_def src rm
          intro!: domain_outcome_bind [OF insert_in_day_outcome] domain_outcome_bind [OF resolve_poi_outcome] rp)
  qed
  show ?thesis
  proof (cases "item_entry c op")
    case None
    then have "op_kind op = Add_item" using item by blast
    with None show ?thesis using kind [of None] by (simp add: apply_operation_def)
  next
    case (Some di)
    then show ?thesis
      using kind placed by (cases di) (auto simp: apply_operation_def)
  qed
qed

lemma fold_outcome:
  assumes "\<And>op. op \<in> set ops \<Longrightarrow> operation_ok op \<and> (op_kind op \<noteq> Add_item \<longrightarrow> item_entry c op \<noteq> None)"
    and "\<And>op d i p. op \<in> set ops \<Longrightarrow> item_entry c op = Some (d, i) \<Longrightarrow> item_poi_id i = Some p
        \<Longrightarrow> p \<noteq> [] \<and> on_day (fst st) d p"
    and "distinct (concat (map (op_places c) ops))"
  shows "domain_outcome sid (fold_res (apply_operation h sid rid trip c pois)
      (map (\<lambda>(k, op). (int k, op)) (enumerate n ops)) st)"
  using assms
proof (induction ops arbitrary: n st)
  case (Cons op ops)
  have "domain_outcome sid (apply_operation h sid rid trip c pois (int n, op) st)"
    using Cons.prems(1,2) [of op] by (intro apply_operation_outcome) simp_all
  then show ?case
  proof (simp, elim domain_outcome_bind)
    fix st'
    assume step: "apply_operation h sid rid trip c pois (int n, op) st = Inr st'"
    show "domain_outcome sid (fold_res (apply_operation h sid rid trip c pois)
        (map (\<lambda>(k, op). (int k, op)) (enumerate (Suc n) ops)) st')"
    proof (rule Cons.IH)
      fix op' d i p
      assume op': "op' \<in> set ops" "item_entry c op' = Some (d, i)" "item_poi_id i = Some p"
      then have "p \<in> set (concat (map (op_places c) ops))" by (force simp: op_places_def)
      with Cons.prems(3) have fresh: "p \<notin> set (op_places c op)" by auto
      have "on_day (fst st') d p"
      proof (rule apply_kind_keeps [OF apply_operation_kind(1) [OF step]])
        show "on_day (fst st) d p" using Cons.prems(2) [OF _ op'(2,3)] op'(1) by simp
        show "item_poi_id i' \<noteq> Some p" if "item_entry c op = Some (d', i')" for d' i'
          using fresh that by (auto simp: op_places_def)
      qed
      then show "p \<noteq> [] \<and> on_day (fst st') d p" using Cons.prems(2) [OF _ op'(2,3)] op'(1) by simp
    qed (use Cons.prems in auto)
  qed
qed simp

text \<open>
  C31. A patch fails only with the errors meant for the user. If the operations are well
  formed and grounded, they touch different places, and the places of the edited items
  are where the draft says, then applying the patch either succeeds or raises a
  \<open>LifecycleActionError\<close>: none of the assertions, list removals and look-ups in it fails.
\<close>

theorem edit_patch_errors_are_domain_errors:
  assumes ops: "\<forall>op \<in> set ops. operation_ok op \<and> (op_kind op \<noteq> Add_item \<longrightarrow> item_entry c op \<noteq> None)"
    and places: "distinct (concat (map (op_places c) ops))"
    and consistent: "\<forall>x d i p. map_of (candidate_items c) x = Some (d, i) \<and> item_poi_id i = Some p
        \<longrightarrow> p \<noteq> [] \<and> on_day (draft_table draft) d p"
    and failed: "apply_edit_patch h sid rid trip c draft pois ops = Inl e"
  shows "\<exists>code. e = Action_error sid code"
proof -
  have "domain_outcome sid (fold_res (apply_operation h sid rid trip c pois)
      (map (\<lambda>(k, op). (int k, op)) (enumerate 0 ops)) (initial_edit_state c draft))"
  proof (rule fold_outcome)
    fix op d i p
    assume "item_entry c op = Some (d, i)" and "item_poi_id i = Some p"
    then show "p \<noteq> [] \<and> on_day (fst (initial_edit_state c draft)) d p"
      using consistent by (auto simp: initial_days item_entry_def simp del: map_of_eq_Some_iff split: if_splits)
  qed (use ops places in auto)
  with failed show ?thesis
    by (cases "fold_res (apply_operation h sid rid trip c pois)
      (map (\<lambda>(k, op). (int k, op)) (enumerate 0 ops)) (initial_edit_state c draft)")
      (auto simp: apply_edit_patch_def domain_outcome_def)
qed

text \<open>
  The hypothesis that the operations touch different places is needed: a patch of two
  removals of one item is accepted by the validators of the models and then fails with the
  \<open>ValueError\<close> of \<open>list.remove\<close>.
\<close>

lemma removing_an_item_twice_raises_value_error:
  "edit_patch_ok [edit_op Remove_item (Some ''item_p3'') None None, edit_op Remove_item (Some ''item_p3'') None None] \<and>
   apply_edit_patch plain_hashing ''s'' ''r'' sample_trip sample_plan sample_draft sample_pois
     [edit_op Remove_item (Some ''item_p3'') None None, edit_op Remove_item (Some ''item_p3'') None None]
     = Inl (Value_error ''list.remove(x): x not in list'')"
proof
  show "edit_patch_ok [edit_op Remove_item (Some ''item_p3'') None None, edit_op Remove_item (Some ''item_p3'') None None]"
    by (simp add: edit_patch_ok_def operation_ok_def validate_operation_def edit_op_def given_def optional_in_def)
qed code_simp

theorem edit_patch_errors_are_domain_errors_witness:
  "apply_edit_patch plain_hashing ''s'' ''r'' sample_trip sample_plan sample_draft sample_pois
      [edit_op Remove_item (Some ''item_p1'') None None] = Inl (Action_error ''s'' ''must_visit_protected'')
   \<and> (\<exists>code. Action_error ''s'' ''must_visit_protected'' = Action_error ''s'' code)"
proof
  show failed: "apply_edit_patch plain_hashing ''s'' ''r'' sample_trip sample_plan sample_draft sample_pois
      [edit_op Remove_item (Some ''item_p1'') None None] = Inl (Action_error ''s'' ''must_visit_protected'')"
    by code_simp
  have "\<forall>x d i p. map_of (candidate_items sample_plan) x = Some (d, i) \<and> item_poi_id i = Some p
        \<longrightarrow> p \<noteq> [] \<and> on_day (draft_table sample_draft) d p"
    by (simp add: sample_items sample_item_def on_day_def draft_table_def sample_draft_def dict_of_def split: if_splits)
  then show "\<exists>code. Action_error ''s'' ''must_visit_protected'' = Action_error ''s'' code"
    by (intro edit_patch_errors_are_domain_errors [OF _ _ _ failed])
      (simp_all add: operation_ok_def validate_operation_def edit_op_def given_def optional_in_def
        item_entry_def sample_items op_places_def sample_item_def)
qed

end
