(* ===== verification/LifecycleDiff.thy ===== *)
theory LifecycleDiff
  imports LifecycleEditFacts
begin

text \<open>
  The identity of plan items: the stable ids a selected candidate gets are distinct, and the
  diff of two plans reports exactly the items that were added, removed, moved to another day
  or moved within their day.
\<close>

section \<open>Positions\<close>

text \<open>Every item of a plan with its id, its date and its position in the day.\<close>

definition positions :: "plan_candidate \<Rightarrow> (py_date \<times> nat \<times> plan_item) list" where
  "positions c = concat (map day_positions (days c))"

definition placed_at :: "plan_candidate \<Rightarrow> string \<Rightarrow> py_date \<times> nat \<Rightarrow> bool" where
  "placed_at c x dk \<longleftrightarrow> (\<exists>i. (fst dk, snd dk, i) \<in> set (positions c) \<and> item_id i = Some x)"

definition plan_ids :: "plan_candidate \<Rightarrow> string set" where
  "plan_ids c = {x. \<exists>dk. placed_at c x dk}"

definition position_ids :: "plan_candidate \<Rightarrow> string option list" where
  "position_ids c = map (\<lambda>(d, k, i). item_id i) (positions c)"

lemma index_items_fold:
  assumes "fold_res (\<lambda>(d, k, i) acc. case item_id i of
         None \<Rightarrow> Inl (Value_error ''versioned plan items require item_id'')
       | Some x \<Rightarrow> Inr (AList.update x (d, k, i) acc)) ps acc = Inr m"
  shows "(\<forall>(d, k, i) \<in> set ps. item_id i \<noteq> None) \<and>
     m = foldl (\<lambda>a (x, v). AList.update x v a) acc (map (\<lambda>(d, k, i). (the (item_id i), d, k, i)) ps)"
  using assms
proof (induction ps arbitrary: acc)
  case (Cons p ps)
  obtain d k i where p: "p = (d, k, i)" by (cases p)
  with Cons.prems obtain x where x: "item_id i = Some x" by (cases "item_id i") auto
  with Cons.prems p have "fold_res (\<lambda>(d, k, i) acc. case item_id i of
         None \<Rightarrow> Inl (Value_error ''versioned plan items require item_id'')
       | Some x \<Rightarrow> Inr (AList.update x (d, k, i) acc)) ps (AList.update x (d, k, i) acc) = Inr m" by simp
  from Cons.IH [OF this] p x show ?case by simp
qed simp

lemma index_items_Inr:
  assumes "index_items c = Inr m"
  shows "\<forall>(d, k, i) \<in> set (positions c). item_id i \<noteq> None"
    and "m = dict_of (map (\<lambda>(d, k, i). (the (item_id i), d, k, i)) (positions c))"
  using index_items_fold [OF assms [unfolded index_items_def, folded positions_def]]
  by (simp_all add: dict_of_def)

text \<open>With distinct ids the index holds exactly the positions of the plan.\<close>

lemma index_places:
  assumes m: "index_items c = Inr m" and distinct: "distinct (position_ids c)"
  shows "map_of m x = Some (d, k, i) \<longleftrightarrow> (d, k, i) \<in> set (positions c) \<and> item_id i = Some x"
proof -
  let ?kvs = "map (\<lambda>(d, k, i). (the (item_id i), d, k, i)) (positions c)"
  note ids = index_items_Inr(1) [OF m]
  have "map the (position_ids c) = map fst ?kvs" by (simp add: position_ids_def case_prod_unfold comp_def)
  moreover have "distinct (map the (position_ids c))"
  proof (intro distinct_map [THEN iffD2] conjI inj_onI)
    fix a b
    assume "a \<in> set (position_ids c)" "b \<in> set (position_ids c)" "the a = the b"
    moreover have "None \<notin> set (position_ids c)" using ids by (force simp: position_ids_def)
    ultimately show "a = b" by (metis option.exhaust_sel)
  qed (rule distinct)
  ultimately have "distinct (map fst (rev ?kvs))" by (simp add: rev_map [symmetric])
  then have "map_of (rev ?kvs) x = Some (d, k, i) \<longleftrightarrow> (x, d, k, i) \<in> set (rev ?kvs)"
    by (rule map_of_eq_Some_iff)
  then show ?thesis
    unfolding index_items_Inr(2) [OF m] map_of_dict_of using ids by force
qed

lemma place_Some:
  assumes "index_items c = Inr m" "distinct (position_ids c)"
  shows "place m x = Some dk \<longleftrightarrow> placed_at c x dk"
  using index_places [OF assms] by (auto simp: place_def placed_at_def split: prod.splits) (metis prod.collapse)

lemma keys_are_ids:
  assumes "index_items c = Inr m" "distinct (position_ids c)"
  shows "set (map fst m) = plan_ids c"
proof -
  have "x \<in> set (map fst m) \<longleftrightarrow> place m x \<noteq> None" for x
    by (simp add: place_def map_of_eq_None_iff)
  then show ?thesis unfolding plan_ids_def using place_Some [OF assms] by blast
qed

text \<open>
  C32. The diff of two versioned plans, each with distinct item ids, accounts for every item: the
  added and removed items are the differences of the id sets, an item is reported as moved
  exactly when both plans have it on different days and as reordered exactly when it is on
  the same day at another position, and each list is sorted without repetition. (With two items of
  one id, which adding a planned place makes, the diff misses changes: \<open>shared_id_hides_removal\<close>.)
\<close>

theorem plan_diff_accounts_for_every_item:
  assumes diff: "build_plan_diff before after v w sb sa = Inr diff"
    and distinct: "distinct (position_ids before)" "distinct (position_ids after)"
  shows "set (map id_item_id (added_items diff)) = plan_ids after - plan_ids before
    \<and> set (map id_item_id (removed_items diff)) = plan_ids before - plan_ids after
    \<and> set (map id_item_id (moved_items diff)) = {x. \<exists>p q. placed_at before x p \<and> placed_at after x q \<and> fst p \<noteq> fst q}
    \<and> set (map id_item_id (reordered_items diff)) = {x. \<exists>p q. placed_at before x p \<and> placed_at after x q \<and> fst p = fst q \<and> snd p \<noteq> snd q}
    \<and> list_all (\<lambda>xs. sorted xs \<and> distinct xs) (map (map id_item_id)
           [added_items diff, removed_items diff, moved_items diff, reordered_items diff])"
proof -
  obtain old new where old: "index_items before = Inr old" and new: "index_items after = Inr new"
    using diff by (auto simp: build_plan_diff_def)
  note po = place_Some [OF old distinct(1)] and pn = place_Some [OF new distinct(2)]
  note ko = keys_are_ids [OF old distinct(1)] and kn = keys_are_ids [OF new distinct(2)]
  have ids: "id_item_id (item_ref x i p q) = x" for x i p q by (simp add: item_ref_def)
  have lists: "map id_item_id (added_items diff) = filter (\<lambda>x. x \<notin> set (map fst old)) (keys_of new)"
    "map id_item_id (removed_items diff) = filter (\<lambda>x. x \<notin> set (map fst new)) (keys_of old)"
    "map id_item_id (moved_items diff) = filter (\<lambda>x. map_option fst (place old x) \<noteq> map_option fst (place new x)) (common_ids old new)"
    "map id_item_id (reordered_items diff) = filter (\<lambda>x. map_option fst (place old x) = map_option fst (place new x) \<and> place old x \<noteq> place new x) (common_ids old new)"
    using diff old new by (auto simp: build_plan_diff_def Let_def comp_def ids)
  have common: "x \<in> set (common_ids old new) \<longleftrightarrow> (\<exists>p q. place old x = Some p \<and> place new x = Some q)" for x
    using ko kn by (auto simp: common_ids_def keys_of_def plan_ids_def po pn)
  have 1: "set (map id_item_id (added_items diff)) = plan_ids after - plan_ids before"
    "set (map id_item_id (removed_items diff)) = plan_ids before - plan_ids after"
    unfolding lists using ko kn by (auto simp: keys_of_def)
  have 2: "set (map id_item_id (moved_items diff)) = {x. \<exists>p q. placed_at before x p \<and> placed_at after x q \<and> fst p \<noteq> fst q}"
    unfolding lists po [symmetric] pn [symmetric] using common by fastforce
  have 3: "set (map id_item_id (reordered_items diff)) = {x. \<exists>p q. placed_at before x p \<and> placed_at after x q \<and> fst p = fst q \<and> snd p \<noteq> snd q}"
    unfolding lists po [symmetric] pn [symmetric] using common by (fastforce simp: prod_eq_iff)
  have 4: "list_all (\<lambda>xs. sorted xs \<and> distinct xs) (map (map id_item_id)
           [added_items diff, removed_items diff, moved_items diff, reordered_items diff])"
    by (simp add: lists keys_of_def common_ids_def sorted_wrt_filter del: map_map)
  from 1 2 3 4 show ?thesis by blast
qed

definition moved_plan :: plan_candidate where
  "moved_plan = sample_candidate
     [sample_day 739891 [sample_item ''p1'' ''Lt'' 739891 12 14 50, sample_item ''p3'' ''Mu'' 739891 16 17 20],
      sample_day 739892 [sample_item ''p4'' ''Pa'' 739892 10 12 0]]"

theorem plan_diff_accounts_for_every_item_witness:
  "\<exists>diff. build_plan_diff sample_plan moved_plan ''V1'' ''P1'' None None = Inr diff \<and>
     set (map id_item_id (removed_items diff)) = plan_ids sample_plan - plan_ids moved_plan \<and>
     set (map id_item_id (moved_items diff)) = {x. \<exists>p q. placed_at sample_plan x p \<and> placed_at moved_plan x q \<and> fst p \<noteq> fst q}"
proof -
  have distinct: "distinct (position_ids sample_plan)" "distinct (position_ids moved_plan)"
    by (simp_all add: position_ids_def positions_def day_positions_def sample_plan_def moved_plan_def
        sample_candidate_def sample_day_def sample_item_def)
  obtain diff where diff: "build_plan_diff sample_plan moved_plan ''V1'' ''P1'' None None = Inr diff"
    by (simp add: build_plan_diff_def index_items_def day_positions_def sample_plan_def moved_plan_def
        sample_candidate_def sample_day_def sample_item_def Let_def)
  from plan_diff_accounts_for_every_item [OF diff distinct] diff show ?thesis by blast
qed

definition doubled_plan :: plan_candidate where
  "doubled_plan = sample_candidate
     [sample_day 739891 [sample_item ''p2'' ''Su'' 739891 12 14 50],
      sample_day 739892 [sample_item ''p2'' ''Su'' 739892 14 16 0]]"

definition single_plan :: plan_candidate where
  "single_plan = sample_candidate
     [sample_day 739891 [], sample_day 739892 [sample_item ''p2'' ''Su'' 739892 14 16 0]]"

lemma shared_id_hides_removal:
  "\<exists>diff. build_plan_diff doubled_plan single_plan ''V1'' ''P1'' None None = Inr diff \<and> removed_items diff = [] \<and>
     moved_items diff = [] \<and> reordered_items diff = []"
  by (simp add: build_plan_diff_def index_items_def day_positions_def doubled_plan_def single_plan_def
      sample_candidate_def sample_day_def sample_item_def Let_def keys_of_def common_ids_def sorted_set_def place_def)

section \<open>Stable ids\<close>

text \<open>The occurrence counters of \<open>with_stable_item_ids\<close>, on the keys alone.\<close>

fun label :: "(string \<times> string) list \<Rightarrow> occurrences \<Rightarrow> ((string \<times> string) \<times> int) list" where
  "label [] occ = []"
| "label (k # ks) occ = (k, occurrence_of occ k) # label ks (AList.update k (occurrence_of occ k + 1) occ)"

fun occurrences_after :: "(string \<times> string) list \<Rightarrow> occurrences \<Rightarrow> occurrences" where
  "occurrences_after [] occ = occ"
| "occurrences_after (k # ks) occ = occurrences_after ks (AList.update k (occurrence_of occ k + 1) occ)"

lemma label_append: "label (ks @ ls) occ = label ks occ @ label ls (occurrences_after ks occ)"
  by (induction ks arbitrary: occ) auto

lemma occurrence_update: "occurrence_of (AList.update k n occ) l = (if l = k then n else occurrence_of occ l)"
  by (simp add: occurrence_of_def update_conv')

lemma label_from: "(k, n) \<in> set (label ks occ) \<Longrightarrow> occurrence_of occ k \<le> n"
  by (induction ks arbitrary: occ) (force simp: occurrence_update split: if_splits)+

lemma distinct_label: "distinct (label ks occ)"
proof (induction ks arbitrary: occ)
  case (Cons k ks)
  have "(k, occurrence_of occ k) \<notin> set (label ks (AList.update k (occurrence_of occ k + 1) occ))"
    using label_from [of k "occurrence_of occ k" ks "AList.update k (occurrence_of occ k + 1) occ"]
    by (auto simp: occurrence_update)
  with Cons show ?case by simp
qed simp

definition identity_text :: "string \<Rightarrow> string \<Rightarrow> (string \<times> string) \<times> int \<Rightarrow> string" where
  "identity_text sid cid = (\<lambda>((date, name), n).
     json_dumps (J_list [J_str sid, J_str cid, J_str name, J_str date, J_int n]))"

lemma identity_text_inj: "identity_text sid cid a = identity_text sid cid b \<longleftrightarrow> a = b"
  by (cases a; cases b) (auto simp: identity_text_def json_dumps_inj split: prod.splits)

definition item_key :: "py_date \<times> nat \<times> plan_item \<Rightarrow> string \<times> string" where
  "item_key = (\<lambda>(d, k, i). (isoformat d, poi_or_name i))"

definition plan_labels :: "plan_candidate \<Rightarrow> ((string \<times> string) \<times> int) list" where
  "plan_labels c = label (map item_key (positions c)) []"

definition id_of_label :: "hashing \<Rightarrow> string \<Rightarrow> string \<Rightarrow> (string \<times> string) \<times> int \<Rightarrow> string option" where
  "id_of_label h sid cid l = Some (''item_'' @ take 20 (sha256 h (identity_text sid cid l)))"

lemma stable_item_id_label:
  "Some (stable_item_id h sid cid i d n) = id_of_label h sid cid ((isoformat d, poi_or_name i), n)"
  by (simp add: stable_item_id_def id_of_label_def identity_text_def digest_def item_identity_def)

lemma stable_items_ids:
  assumes "\<forall>i \<in> set is. \<not> given (item_id i)"
  shows "map item_id (fst (stable_items h sid cid d is occ))
      = map (id_of_label h sid cid) (label (map (\<lambda>i. (isoformat d, poi_or_name i)) is) occ)"
    and "snd (stable_items h sid cid d is occ) = occurrences_after (map (\<lambda>i. (isoformat d, poi_or_name i)) is) occ"
  using assms
  by (induction "is" arbitrary: occ) (auto simp: Let_def stable_item_id_label case_prod_unfold)

lemma map_enumerate_snd: "map (\<lambda>(k, i). f i) (enumerate n xs) = map f xs"
  by (induction xs arbitrary: n) auto

lemma day_position_ids: "map (\<lambda>(d, k, i). f d i) (day_positions day) = map (f (day_date day)) (items day)"
  by (simp add: day_positions_def comp_def case_prod_unfold map_enumerate_snd [unfolded case_prod_unfold])

lemma stable_days_ids:
  assumes "\<forall>d \<in> set ds. \<forall>i \<in> set (items d). \<not> given (item_id i)"
  shows "map (\<lambda>(d, k, i). item_id i) (concat (map day_positions (stable_days h sid cid ds occ)))
      = map (id_of_label h sid cid) (label (map item_key (concat (map day_positions ds))) occ)"
  using assms
proof (induction ds arbitrary: occ)
  case (Cons d ds)
  obtain "is" occ' where s: "stable_items h sid cid (day_date d) (items d) occ = (is, occ')"
    by (cases "stable_items h sid cid (day_date d) (items d) occ")
  have none: "\<forall>i \<in> set (items d). \<not> given (item_id i)" using Cons.prems by simp
  have keys: "map item_key (day_positions d) = map (\<lambda>i. (isoformat (day_date d), poi_or_name i)) (items d)"
    unfolding item_key_def using day_position_ids [of "\<lambda>d i. (isoformat d, poi_or_name i)" d] by simp
  have first: "map item_id is = map (id_of_label h sid cid) (label (map item_key (day_positions d)) occ)"
    and after: "occ' = occurrences_after (map item_key (day_positions d)) occ"
    using stable_items_ids [OF none, of h sid cid "day_date d" occ] s keys by simp_all
  have "map (\<lambda>(d, k, i). item_id i) (day_positions (d\<lparr>items := is\<rparr>)) = map item_id is"
    using day_position_ids [of "\<lambda>d i. item_id i" "d\<lparr>items := is\<rparr>"] by simp
  with Cons first after s show ?case by (simp add: label_append)
qed simp

text \<open>
  The ids that a selected candidate gets identify its items: if no item has an id yet
  and the truncated digests of the items' identities (session, candidate, place or name,
  date, occurrence) do not collide, \<open>with_stable_item_ids\<close> gives every item an id and no two
  items the same one, although a day may visit one place twice.
\<close>

lemma stable_item_ids_identify_items:
  assumes fresh: "\<forall>d \<in> set (days c). \<forall>i \<in> set (items d). \<not> given (item_id i)"
    and no_collision: "inj_on (\<lambda>text. take 20 (sha256 h text)) (identity_text sid (cand_id c) ` set (plan_labels c))"
  shows "distinct (position_ids (with_stable_item_ids h sid c)) \<and>
     None \<notin> set (position_ids (with_stable_item_ids h sid c))"
proof -
  have ids: "position_ids (with_stable_item_ids h sid c) = map (id_of_label h sid (cand_id c)) (plan_labels c)"
    using stable_days_ids [OF fresh, of h sid "cand_id c" "[]"]
    by (simp add: position_ids_def positions_def with_stable_item_ids_def plan_labels_def)
  have "inj_on (id_of_label h sid (cand_id c)) (set (plan_labels c))"
  proof (rule inj_onI)
    fix a b
    assume ab: "a \<in> set (plan_labels c)" "b \<in> set (plan_labels c)"
      and "id_of_label h sid (cand_id c) a = id_of_label h sid (cand_id c) b"
    then have "take 20 (sha256 h (identity_text sid (cand_id c) a)) = take 20 (sha256 h (identity_text sid (cand_id c) b))"
      by (simp add: id_of_label_def)
    then have "identity_text sid (cand_id c) a = identity_text sid (cand_id c) b"
      by (rule inj_onD [OF no_collision]) (use ab in auto)
    then show "a = b" by (simp add: identity_text_inj)
  qed
  then show ?thesis
    unfolding ids by (auto simp: distinct_map plan_labels_def distinct_label id_of_label_def)
qed

definition unnamed_plan :: plan_candidate where
  "unnamed_plan = sample_candidate [sample_day 739891
     [(sample_item ''p1'' ''Lt'' 739891 12 14 50)\<lparr>item_id := None\<rparr>, (sample_item ''p1'' ''Lt'' 739891 16 17 0)\<lparr>item_id := None\<rparr>]]"

definition reversing :: hashing where
  "reversing = \<lparr>sha256 = rev, decimal_text = (\<lambda>x. show_int (py_round x))\<rparr>"

lemma stable_item_ids_identify_items_witness:
  "distinct (position_ids (with_stable_item_ids reversing ''s'' unnamed_plan)) \<and>
     None \<notin> set (position_ids (with_stable_item_ids reversing ''s'' unnamed_plan))"
proof (rule stable_item_ids_identify_items)
  have labels: "plan_labels unnamed_plan = [((isoformat 739891, ''p1''), 0), ((isoformat 739891, ''p1''), 1)]"
    by (simp add: plan_labels_def positions_def day_positions_def unnamed_plan_def sample_candidate_def
        sample_day_def sample_item_def item_key_def poi_or_name_def given_def occurrence_of_def)
  have "take 20 (rev (identity_text ''s'' ''balanced-r0'' ((isoformat 739891, ''p1''), 0)))
      \<noteq> take 20 (rev (identity_text ''s'' ''balanced-r0'' ((isoformat 739891, ''p1''), 1)))"
    by code_simp
  then show "inj_on (\<lambda>text. take 20 (sha256 reversing text))
      (identity_text ''s'' (cand_id unnamed_plan) ` set (plan_labels unnamed_plan))"
    unfolding labels by (auto simp: reversing_def unnamed_plan_def sample_candidate_def inj_on_def)
qed (simp add: unnamed_plan_def sample_candidate_def sample_day_def given_def)

end
