(* ===== verification/ToolResults.thy ===== *)
theory ToolResults
  imports DomainModels
begin

text \<open>
  The standardised tool results of \<open>domain/tool_models.py\<close> that all workflows consume: the
  error information, the result with its shape validator, and the queries for places.
\<close>

datatype tool_status = Tool_success | Tool_failed

datatype tool_error_category =
  Cat_timeout | Cat_connection | Cat_rate_limit | Cat_authentication | Cat_permission
| Cat_invalid_request | Cat_invalid_response | Cat_upstream_unavailable

record tool_error =
  te_category :: tool_error_category
  te_code :: string
  te_operation :: string
  te_retryable :: bool

record 'a tool_result =
  tr_status :: tool_status
  tr_data :: "'a option"
  tr_provider :: string
  tr_fetched_at :: "datetime option"
  tr_expires_at :: "datetime option"
  tr_cache_hit :: bool
  tr_attempt_count :: int
  tr_elapsed_ms :: "rat option"
  tr_error :: "tool_error option"

definition validate_result_shape :: "'a tool_result \<Rightarrow> (string, 'a tool_result) result" where
  "validate_result_shape r =
     (if tr_status r = Tool_success \<and> tr_data r = None
        then Inl ''data is required when status is success''
      else if tr_status r = Tool_failed \<and> tr_error r = None
        then Inl ''error is required when status is failed''
      else Inr r)"

definition tool_success ::
  "'a \<Rightarrow> string \<Rightarrow> datetime option \<Rightarrow> datetime option \<Rightarrow> bool \<Rightarrow> int \<Rightarrow> rat option \<Rightarrow> 'a tool_result" where
  "tool_success x provider fetched expires hit attempts elapsed =
     \<lparr>tr_status = Tool_success, tr_data = Some x, tr_provider = provider, tr_fetched_at = fetched,
      tr_expires_at = expires, tr_cache_hit = hit, tr_attempt_count = attempts,
      tr_elapsed_ms = elapsed, tr_error = None\<rparr>"

definition tool_failure ::
  "string \<Rightarrow> tool_error \<Rightarrow> datetime option \<Rightarrow> datetime option \<Rightarrow> bool \<Rightarrow> int \<Rightarrow> rat option \<Rightarrow> 'a tool_result" where
  "tool_failure provider e fetched expires hit attempts elapsed =
     \<lparr>tr_status = Tool_failed, tr_data = None, tr_provider = provider, tr_fetched_at = fetched,
      tr_expires_at = expires, tr_cache_hit = hit, tr_attempt_count = attempts,
      tr_elapsed_ms = elapsed, tr_error = Some e\<rparr>"

lemma tool_result_shapes [simp]:
  "validate_result_shape (tool_success x p f e h a t) = Inr (tool_success x p f e h a t)"
  "validate_result_shape (tool_failure p er f e h a t) = Inr (tool_failure p er f e h a t)"
  by (simp_all add: validate_result_shape_def tool_success_def tool_failure_def)

record poi_search_query =
  q_city :: string
  q_keyword :: string
  q_exact_match :: bool
  q_limit :: int
  q_priority :: int

text \<open>\<open>result.data or []\<close>.\<close>

definition facts_of :: "poi_facts list tool_result \<Rightarrow> poi_facts list" where
  "facts_of r = (case tr_data r of None \<Rightarrow> [] | Some fs \<Rightarrow> fs)"

end
