(* ===== verification/WeatherPlan.thy ===== *)
theory WeatherPlan
  imports LifecycleEdit ToolResults
begin

text \<open>
  \<open>weather/exposure.py\<close>, \<open>weather/impact.py\<close>, \<open>weather/repair.py\<close> and
  \<open>weather/workflow.py\<close>: how exposed an activity is to the weather, which items of a plan a
  weather event affects, the indoor alternatives, and the repair plan with its translation
  into an edit patch. The terms are given by their UTF-8 bytes. The search for places is the
  parameter \<open>search\<close>, the tool gateway's answer to a list of queries.
\<close>

section \<open>Exposure\<close>

text \<open>Museums, galleries, exhibition halls, malls, indoor, theatres, science museums.\<close>

definition indoor_terms :: "string list" where
  "indoor_terms = [
    [CHR 0xE5, CHR 0x8D, CHR 0x9A, CHR 0xE7, CHR 0x89, CHR 0xA9, CHR 0xE9, CHR 0xA6, CHR 0x86],
    [CHR 0xE7, CHR 0xBE, CHR 0x8E, CHR 0xE6, CHR 0x9C, CHR 0xAF, CHR 0xE9, CHR 0xA6, CHR 0x86],
    [CHR 0xE5, CHR 0xB1, CHR 0x95, CHR 0xE8, CHR 0xA7, CHR 0x88, CHR 0xE9, CHR 0xA6, CHR 0x86],
    [CHR 0xE5, CHR 0xB1, CHR 0x95, CHR 0xE9, CHR 0xA6, CHR 0x86],
    [CHR 0xE5, CHR 0x95, CHR 0x86, CHR 0xE5, CHR 0x9C, CHR 0xBA],
    [CHR 0xE8, CHR 0xB4, CHR 0xAD, CHR 0xE7, CHR 0x89, CHR 0xA9, CHR 0xE4, CHR 0xB8, CHR 0xAD, CHR 0xE5, CHR 0xBF, CHR 0x83],
    [CHR 0xE5, CHR 0xAE, CHR 0xA4, CHR 0xE5, CHR 0x86, CHR 0x85],
    [CHR 0xE5, CHR 0x89, CHR 0xA7, CHR 0xE9, CHR 0x99, CHR 0xA2],
    [CHR 0xE7, CHR 0xA7, CHR 0x91, CHR 0xE6, CHR 0x8A, CHR 0x80, CHR 0xE9, CHR 0xA6, CHR 0x86]]"

text \<open>Nature, parks, wetlands, mountains, botanical gardens, zoos, squares.\<close>

definition outdoor_terms :: "string list" where
  "outdoor_terms = [
    [CHR 0xE8, CHR 0x87, CHR 0xAA, CHR 0xE7, CHR 0x84, CHR 0xB6],
    [CHR 0xE5, CHR 0x85, CHR 0xAC, CHR 0xE5, CHR 0x9B, CHR 0xAD],
    [CHR 0xE6, CHR 0xB9, CHR 0xBF, CHR 0xE5, CHR 0x9C, CHR 0xB0],
    [CHR 0xE5, CHR 0xB1, CHR 0xB1, CHR 0xE5, CHR 0xB2, CHR 0xB3],
    [CHR 0xE6, CHR 0xA4, CHR 0x8D, CHR 0xE7, CHR 0x89, CHR 0xA9, CHR 0xE5, CHR 0x9B, CHR 0xAD],
    [CHR 0xE5, CHR 0x8A, CHR 0xA8, CHR 0xE7, CHR 0x89, CHR 0xA9, CHR 0xE5, CHR 0x9B, CHR 0xAD],
    [CHR 0xE5, CHR 0xB9, CHR 0xBF, CHR 0xE5, CHR 0x9C, CHR 0xBA]]"

text \<open>Temples, quarters, old towns, scenic areas, campuses.\<close>

definition mixed_terms :: "string list" where
  "mixed_terms = [
    [CHR 0xE5, CHR 0xAF, CHR 0xBA, CHR 0xE5, CHR 0xBA, CHR 0x99],
    [CHR 0xE8, CHR 0xA1, CHR 0x97, CHR 0xE5, CHR 0x8C, CHR 0xBA],
    [CHR 0xE5, CHR 0x8F, CHR 0xA4, CHR 0xE9, CHR 0x95, CHR 0x87],
    [CHR 0xE6, CHR 0x99, CHR 0xAF, CHR 0xE5, CHR 0x8C, CHR 0xBA],
    [CHR 0xE6, CHR 0xA0, CHR 0xA1, CHR 0xE5, CHR 0x9B, CHR 0xAD]]"

definition has_category :: "string list \<Rightarrow> planning_poi \<Rightarrow> bool" where
  "has_category terms p \<longleftrightarrow> list_ex (\<lambda>c. py_strip c \<in> set terms) (f_categories (facts p))"

definition name_mentions :: "string list \<Rightarrow> planning_poi \<Rightarrow> bool" where
  "name_mentions terms p \<longleftrightarrow> mentions terms (py_strip (poi_name_of p))"

definition classify_planning_poi :: "planning_poi \<Rightarrow> string \<Rightarrow> activity_exposure" where
  "classify_planning_poi p x =
     (if has_category indoor_terms p \<or> name_mentions indoor_terms p then
        \<lparr>ex_item_id = x, ex_kind = Indoor, ex_rule_id = Some ''category.indoor.v1'',
         ex_confidence = (if has_category indoor_terms p then 95 / 100 else 8 / 10)\<rparr>
      else if has_category outdoor_terms p \<or> name_mentions outdoor_terms p then
        \<lparr>ex_item_id = x, ex_kind = Outdoor, ex_rule_id = Some ''category.outdoor.v1'',
         ex_confidence = (if has_category outdoor_terms p then 95 / 100 else 8 / 10)\<rparr>
      else if has_category mixed_terms p \<or> name_mentions mixed_terms p then
        \<lparr>ex_item_id = x, ex_kind = Mixed, ex_rule_id = Some ''category.mixed.v1'',
         ex_confidence = 85 / 100\<rparr>
      else \<lparr>ex_item_id = x, ex_kind = Unknown_exposure, ex_rule_id = None, ex_confidence = 0\<rparr>)"

definition indoor_alternatives ::
  "planning_poi list \<Rightarrow> string list \<Rightarrow> rat \<Rightarrow> planning_poi list" where
  "indoor_alternatives pois excluded min_confidence =
     sort_key (\<lambda>p. (- data_confidence p, poi_id_of p))
       (filter (\<lambda>p. poi_id_of p \<notin> set excluded \<and>
          (let e = classify_planning_poi p (poi_id_of p)
           in ex_kind e = Indoor \<and> min_confidence \<le> ex_confidence e)) pois)"

section \<open>Impact\<close>

text \<open>The findings of the loop: affected items with their day, unknown items and reasons.\<close>

record impact_findings =
  if_items :: "string list"
  if_dates :: "py_date list"
  if_unknown :: "string list"
  if_reasons :: "string list"

definition no_findings :: impact_findings where
  "no_findings = \<lparr>if_items = [], if_dates = [], if_unknown = [], if_reasons = []\<rparr>"

definition item_finding ::
  "(string \<times> planning_poi) list \<Rightarrow> py_date \<Rightarrow> plan_item \<Rightarrow> impact_findings \<Rightarrow> impact_findings" where
  "item_finding pois d i f =
     (case (item_id i, item_poi_id i) of
        (Some x, Some pid) \<Rightarrow>
          (case map_of pois pid of
             None \<Rightarrow> f\<lparr>if_unknown := if_unknown f @ [x], if_reasons := if_reasons f @ [''planning_poi_missing'']\<rparr>
           | Some p \<Rightarrow>
               (let e = ex_kind (classify_planning_poi p x)
                in if e \<in> {Outdoor, Mixed} then
                     f\<lparr>if_items := if_items f @ [x], if_dates := if_dates f @ [d],
                       if_reasons := if_reasons f @ [''exposure_'' @ exposure_kind_value e]\<rparr>
                   else if e = Unknown_exposure then
                     f\<lparr>if_unknown := if_unknown f @ [x],
                       if_reasons := if_reasons f @ [''activity_exposure_unknown'']\<rparr>
                   else f))
      | _ \<Rightarrow> f)"

definition day_finding ::
  "py_date list \<Rightarrow> (string \<times> planning_poi) list \<Rightarrow> (py_date \<times> daily_risk) list \<Rightarrow> day_plan
     \<Rightarrow> impact_findings \<Rightarrow> impact_findings" where
  "day_finding dates pois risks day f =
     (if day_date day \<notin> set dates then f
      else case map_of risks (day_date day) of
             None \<Rightarrow> f
           | Some r \<Rightarrow>
               if r_level r = L_normal then f
               else if r_level r = L_unknown then
                 f\<lparr>if_unknown := if_unknown f @ [x. Some x \<leftarrow> map item_id (items day)],
                   if_reasons := if_reasons f @ [''weather_risk_unknown'']\<rparr>
               else fold (item_finding pois (day_date day)) (items day) f)"

definition weather_findings ::
  "change_event \<Rightarrow> plan_candidate \<Rightarrow> planning_poi list \<Rightarrow> daily_risk list \<Rightarrow> impact_findings" where
  "weather_findings event c pois risks =
     fold (day_finding (ev_affected_dates event) (dict_of (map (\<lambda>p. (poi_id_of p, p)) pois)) (risks_by_date risks))
       (days c) no_findings"

definition analyze_weather_impact ::
  "change_event \<Rightarrow> plan_candidate \<Rightarrow> planning_poi list \<Rightarrow> daily_risk list \<Rightarrow> plan_lock list \<Rightarrow> int
     \<Rightarrow> weather_impact" where
  "analyze_weather_impact event c pois risks lks max_affected_days =
     (let f = weather_findings event c pois risks;
          dates = sorted_set (if_dates f); ids = sorted_set (if_items f);
          unknown = sorted_set (if_unknown f);
          conflicts = sorted_set (map lock_id (filter (lock_hit dates ids) lks));
          too_wide = int (length dates) > max_affected_days;
          too_many = length ids > 3
      in \<lparr>wi_event_id = ev_id event, wi_affected_dates = dates, wi_affected_items = ids,
          wi_preserved_dates = sorted_set (filter (\<lambda>d. d \<notin> set dates) (map day_date (days c))),
          wi_lock_conflicts = conflicts, wi_unknown_items = unknown,
          wi_attention = (conflicts \<noteq> [] \<or> unknown \<noteq> [] \<or> too_wide \<or> too_many),
          wi_reasons = sorted_set (if_reasons f
            @ (if too_wide then [''affected_day_budget_exceeded''] else [])
            @ (if too_many then [''operation_budget_exceeded''] else []))\<rparr>)"

section \<open>Alternatives\<close>

text \<open>The keywords searched for, in order.\<close>

definition alternative_keywords :: "string list" where
  "alternative_keywords = [
    [CHR 0xE5, CHR 0x8D, CHR 0x9A, CHR 0xE7, CHR 0x89, CHR 0xA9, CHR 0xE9, CHR 0xA6, CHR 0x86],
    [CHR 0xE7, CHR 0xBE, CHR 0x8E, CHR 0xE6, CHR 0x9C, CHR 0xAF, CHR 0xE9, CHR 0xA6, CHR 0x86],
    [CHR 0xE7, CHR 0xA7, CHR 0x91, CHR 0xE6, CHR 0x8A, CHR 0x80, CHR 0xE9, CHR 0xA6, CHR 0x86],
    [CHR 0xE5, CHR 0xB1, CHR 0x95, CHR 0xE8, CHR 0xA7, CHR 0x88, CHR 0xE9, CHR 0xA6, CHR 0x86],
    [CHR 0xE5, CHR 0xAE, CHR 0xA4, CHR 0xE5, CHR 0x86, CHR 0x85, CHR 0xE6, CHR 0x99, CHR 0xAF, CHR 0xE7, CHR 0x82, CHR 0xB9],
    [CHR 0xE8, CHR 0xB4, CHR 0xAD, CHR 0xE7, CHR 0x89, CHR 0xA9, CHR 0xE4, CHR 0xB8, CHR 0xAD, CHR 0xE5, CHR 0xBF, CHR 0x83],
    [CHR 0xE5, CHR 0x89, CHR 0xA7, CHR 0xE9, CHR 0x99, CHR 0xA2],
    [CHR 0xE6, CHR 0x96, CHR 0x87, CHR 0xE5, CHR 0x8C, CHR 0x96, CHR 0xE9, CHR 0xA6, CHR 0x86],
    [CHR 0xE5, CHR 0x9B, CHR 0xBE, CHR 0xE4, CHR 0xB9, CHR 0xA6, CHR 0xE9, CHR 0xA6, CHR 0x86],
    [CHR 0xE5, CHR 0x95, CHR 0x86, CHR 0xE5, CHR 0x9C, CHR 0xBA]]"

text \<open>\<open>keywords[:n]\<close>.\<close>

definition py_take :: "int \<Rightarrow> 'a list \<Rightarrow> 'a list" where
  "py_take n xs = take (nat (if n < 0 then int (length xs) + n else n)) xs"

definition alternative_queries :: "trip_spec \<Rightarrow> int \<Rightarrow> int \<Rightarrow> int \<Rightarrow> poi_search_query list" where
  "alternative_queries trip max_searches max_alternatives poi_limit =
     map (\<lambda>(k, w). \<lparr>q_city = destination trip, q_keyword = w, q_exact_match = False,
            q_limit = min max_alternatives poi_limit, q_priority = 100 - int k\<rparr>)
       (enumerate 0 (py_take max_searches alternative_keywords))"

definition merge_facts ::
  "unknown_fact_policy \<Rightarrow> trip_spec \<Rightarrow> poi_facts \<Rightarrow> (string \<times> planning_poi) list \<Rightarrow> (string \<times> planning_poi) list" where
  "merge_facts policy trip f merged =
     (if map_of merged (f_id f) \<noteq> None then merged
      else case resolved_poi (resolve_poi policy f trip) of
             None \<Rightarrow> merged | Some p \<Rightarrow> AList.update (f_id f) p merged)"

definition merge_results ::
  "string \<Rightarrow> unknown_fact_policy \<Rightarrow> trip_spec \<Rightarrow> poi_facts list tool_result list
     \<Rightarrow> (string \<times> planning_poi) list \<Rightarrow> (lifecycle_error, (string \<times> planning_poi) list) result" where
  "merge_results thread policy trip =
     fold_res (\<lambda>r merged. if tr_status r = Tool_failed then Inl (Tool_unavailable thread)
                else Inr (fold (merge_facts policy trip) (facts_of r) merged))"

definition resolve_indoor_alternatives ::
  "(poi_search_query list \<Rightarrow> poi_facts list tool_result list) \<Rightarrow> string \<Rightarrow> unknown_fact_policy \<Rightarrow> trip_spec
     \<Rightarrow> plan_candidate \<Rightarrow> planning_poi list \<Rightarrow> int \<Rightarrow> int \<Rightarrow> int \<Rightarrow> rat
     \<Rightarrow> (lifecycle_error, planning_poi list) result" where
  "resolve_indoor_alternatives search thread policy trip c pois poi_limit max_searches max_alternatives
      min_confidence =
     bind_res (merge_results thread policy trip
         (search (alternative_queries trip max_searches max_alternatives poi_limit))
         (dict_of (map (\<lambda>p. (poi_id_of p, p)) pois)))
       (\<lambda>merged. Inr (py_take max_alternatives (indoor_alternatives (map snd merged)
          [x. Some x \<leftarrow> map item_poi_id (all_items c)] min_confidence)))"

section \<open>Repair\<close>

definition weather_action_for ::
  "trip_spec \<Rightarrow> (string \<times> py_date \<times> plan_item) list \<Rightarrow> py_date list \<Rightarrow> string
     \<Rightarrow> weather_action list \<times> planning_poi list \<Rightarrow> (weather_action list \<times> planning_poi list) option" where
  "weather_action_for trip by_id safe_dates x st =
     (case map_of by_id x of
        None \<Rightarrow> None
      | Some (d, i) \<Rightarrow>
          if is_must_visit (item_name i) trip then
            (case filter (\<lambda>t. t \<noteq> d) safe_dates of
               [] \<Rightarrow> None
             | t # _ \<Rightarrow> Some (fst st @ [\<lparr>wa_kind = Move_to_safe_date, wa_item_id = x, wa_target_date = Some t,
                 wa_replacement_id = None, wa_replacement_name = None,
                 wa_evidence = [''must_visit_preserved'', ''target_weather_normal'']\<rparr>], snd st))
          else (case snd st of
               a # rest \<Rightarrow> Some (fst st @ [\<lparr>wa_kind = Replace_with_indoor, wa_item_id = x, wa_target_date = None,
                 wa_replacement_id = Some (poi_id_of a), wa_replacement_name = Some (poi_name_of a),
                 wa_evidence = [''indoor_alternative'']\<rparr>], rest)
             | [] \<Rightarrow> Some (fst st @ [\<lparr>wa_kind = Remove_optional_item, wa_item_id = x, wa_target_date = None,
                 wa_replacement_id = None, wa_replacement_name = None,
                 wa_evidence = [''no_safe_indoor_alternative'']\<rparr>], [])))"

fun weather_actions ::
  "trip_spec \<Rightarrow> (string \<times> py_date \<times> plan_item) list \<Rightarrow> py_date list \<Rightarrow> string list
     \<Rightarrow> weather_action list \<times> planning_poi list \<Rightarrow> (weather_action list \<times> planning_poi list) option" where
  "weather_actions trip by_id safe_dates [] st = Some st"
| "weather_actions trip by_id safe_dates (x # xs) st =
     (case weather_action_for trip by_id safe_dates x st of
        None \<Rightarrow> None | Some st' \<Rightarrow> weather_actions trip by_id safe_dates xs st')"

definition safe_dates :: "daily_risk list \<Rightarrow> plan_lock list \<Rightarrow> py_date list" where
  "safe_dates risks lks = [r_date r. r \<leftarrow> risks, r_level r = L_normal,
     isoformat (r_date r) \<notin> set (map lk_target (filter (\<lambda>l. lk_kind l = Lock_day) lks))]"

definition build_weather_repair_plan ::
  "hashing \<Rightarrow> string \<Rightarrow> string \<Rightarrow> trip_spec \<Rightarrow> plan_candidate \<Rightarrow> weather_impact \<Rightarrow> daily_risk list
     \<Rightarrow> planning_poi list \<Rightarrow> plan_lock list \<Rightarrow> weather_repair_plan option" where
  "build_weather_repair_plan h event_id base_id trip c impact risks alternatives lks =
     (case weather_actions trip (candidate_items c) (safe_dates risks lks) (wi_affected_items impact) ([], alternatives) of
        None \<Rightarrow> None
      | Some (actions, _) \<Rightarrow>
          if actions = [] \<or> length actions > 3 then None
          else Some \<lparr>wr_event_id = event_id, wr_base_version_id = base_id,
            wr_affected_dates = wi_affected_dates impact, wr_actions = actions,
            wr_required_tools = [''poi.search'', ''route.delta''],
            wr_preserved_fingerprints = dict_of (map (\<lambda>d. (isoformat (day_date d), day_fingerprint h d))
              (filter (\<lambda>d. day_date d \<in> set (wi_preserved_dates impact)) (days c)))\<rparr>)"

definition weather_operation :: "weather_action \<Rightarrow> edit_operation" where
  "weather_operation a =
     (case wa_kind a of
        Replace_with_indoor \<Rightarrow> \<lparr>op_kind = Replace_item, op_item_id = Some (wa_item_id a), op_item_name = None,
          op_target_date = None, op_target_index = None, op_poi_name = wa_replacement_name a,
          op_reason = Some ''weather_event''\<rparr>
      | Move_to_safe_date \<Rightarrow> \<lparr>op_kind = Move_item, op_item_id = Some (wa_item_id a), op_item_name = None,
          op_target_date = wa_target_date a, op_target_index = None, op_poi_name = None,
          op_reason = Some ''weather_event''\<rparr>
      | Remove_optional_item \<Rightarrow> \<lparr>op_kind = Remove_item, op_item_id = Some (wa_item_id a), op_item_name = None,
          op_target_date = None, op_target_index = None, op_poi_name = None,
          op_reason = Some ''weather_event''\<rparr>)"

definition repair_plan_to_edit_patch :: "weather_repair_plan \<Rightarrow> edit_patch" where
  "repair_plan_to_edit_patch plan = map weather_operation (wr_actions plan)"

end
