(* ===== verification/WeatherFacts.thy ===== *)
theory WeatherFacts
  imports WeatherPlan LifecycleEditFacts
begin

text \<open>
  What the weather component promises: worse weather is never classified as less risky, a
  change event reports exactly the dates whose risk changed and its fingerprint identifies
  it, and a weather repair touches neither a locked day or item nor a required place.
\<close>

section \<open>Classification\<close>

fun risk_rank :: "weather_risk_level \<Rightarrow> nat" where
  "risk_rank L_normal = 0"
| "risk_rank L_unknown = 1"
| "risk_rank L_warning = 2"
| "risk_rank L_severe = 3"

definition at_least :: "int option \<Rightarrow> int option \<Rightarrow> bool" where
  "at_least a b \<longleftrightarrow> (case a of None \<Rightarrow> True | Some x \<Rightarrow> (case b of None \<Rightarrow> False | Some y \<Rightarrow> x \<le> y))"

definition at_most :: "int option \<Rightarrow> int option \<Rightarrow> bool" where
  "at_most a b \<longleftrightarrow> (case a of None \<Rightarrow> True | Some x \<Rightarrow> (case b of None \<Rightarrow> False | Some y \<Rightarrow> y \<le> x))"

text \<open>\<open>no_milder w w'\<close>: the forecast \<open>w'\<close> has every hazard of \<open>w\<close>, at least as strong.\<close>

definition no_milder :: "daily_weather \<Rightarrow> daily_weather \<Rightarrow> bool" where
  "no_milder w w' \<longleftrightarrow> phenomena w \<subseteq> phenomena w' \<and> at_least (high_celsius w) (high_celsius w') \<and>
     at_most (low_celsius w) (low_celsius w') \<and> at_least (day_wind_level w) (day_wind_level w') \<and>
     at_least (night_wind_level w) (night_wind_level w')"

lemma wind_level_mono: "no_milder w w' \<Longrightarrow> wind_level w \<le> wind_level w'"
  by (auto simp: no_milder_def at_least_def wind_level_def Let_def split: option.splits)

definition reported :: "daily_weather \<Rightarrow> weather_risk_kind \<Rightarrow> weather_risk_level \<Rightarrow> bool" where
  "reported w k l \<longleftrightarrow> (\<exists>e. (k, e, l) \<in> set (risk_findings w))"

lemma in_guarded:
  "x \<in> set (if b then xs else []) \<longleftrightarrow> b \<and> x \<in> set xs"
  "x \<in> set (case m of None \<Rightarrow> [] | Some h \<Rightarrow> f h) \<longleftrightarrow> (\<exists>h. m = Some h \<and> x \<in> set (f h))"
  by (auto split: option.splits)

text \<open>The guard of each finding, kind by kind.\<close>

fun hazard :: "daily_weather \<Rightarrow> weather_risk_kind \<Rightarrow> weather_risk_level \<Rightarrow> bool" where
  "hazard w K_precipitation l \<longleftrightarrow>
     l = L_severe \<and> Heavy_rain \<in> phenomena w \<or> l = L_warning \<and> Rain \<in> phenomena w"
| "hazard w K_thunderstorm l \<longleftrightarrow> l = L_severe \<and> Thunderstorm \<in> phenomena w"
| "hazard w K_snow_or_ice l \<longleftrightarrow> l = L_severe \<and> (Snow \<in> phenomena w \<or> Ice \<in> phenomena w)"
| "hazard w K_low_visibility l \<longleftrightarrow> l = L_warning \<and> (Fog \<in> phenomena w \<or> Dust \<in> phenomena w)"
| "hazard w K_extreme_heat l \<longleftrightarrow>
     (\<exists>h. high_celsius w = Some h \<and> 35 \<le> h \<and> l = (if 38 \<le> h then L_severe else L_warning))"
| "hazard w K_extreme_cold l \<longleftrightarrow> (\<exists>t. low_celsius w = Some t \<and> t \<le> 0 \<and> l = L_warning)"
| "hazard w K_strong_wind l \<longleftrightarrow>
     6 \<le> wind_level w \<and> l = (if 8 \<le> wind_level w then L_severe else L_warning)"
| "hazard w K_unknown l \<longleftrightarrow> False"

lemma in_heat_finding:
  "x \<in> set (if h \<ge> 38 then [(K_extreme_heat, e, L_severe)]
     else if h \<ge> 35 then [(K_extreme_heat, e', L_warning)] else [])
   \<longleftrightarrow> (h \<ge> 38 \<and> x = (K_extreme_heat, e, L_severe)) \<or> (35 \<le> h \<and> h < 38 \<and> x = (K_extreme_heat, e', L_warning))"
  for h :: int
  by auto

lemma in_wind_finding:
  "x \<in> set (if h \<ge> 8 then [(K_strong_wind, e, L_severe)]
     else if h \<ge> 6 then [(K_strong_wind, e', L_warning)] else [])
   \<longleftrightarrow> (h \<ge> 8 \<and> x = (K_strong_wind, e, L_severe)) \<or> (6 \<le> h \<and> h < 8 \<and> x = (K_strong_wind, e', L_warning))"
  for h :: int
  by auto

lemma reported_iff: "reported w k l \<longleftrightarrow> hazard w k l"
  unfolding reported_def risk_findings_def set_append Un_iff
  by (cases k) (simp_all only: in_wind_finding in_guarded in_heat_finding, auto)

lemma reported_mono:
  assumes mild: "no_milder w w'" and "reported w k l"
  shows "\<exists>l'. reported w' k l' \<and> risk_rank l \<le> risk_rank l'"
proof -
  have ph: "phenomena w \<subseteq> phenomena w'" and hi: "at_least (high_celsius w) (high_celsius w')"
    and lo: "at_most (low_celsius w) (low_celsius w')" and wi: "wind_level w \<le> wind_level w'"
    using mild wind_level_mono by (auto simp: no_milder_def)
  have hz: "hazard w k l" using assms(2) by (simp add: reported_iff)
  have "\<exists>l'. hazard w' k l' \<and> risk_rank l \<le> risk_rank l'"
  proof (cases k)
    case K_extreme_heat
    then obtain h h' where "high_celsius w = Some h" "35 \<le> h" "l = (if 38 \<le> h then L_severe else L_warning)"
        "high_celsius w' = Some h'" "h \<le> h'"
      using hz hi by (auto simp: at_least_def split: option.splits)
    then show ?thesis by (auto simp: K_extreme_heat)
  next
    case K_extreme_cold
    then obtain t t' where "low_celsius w = Some t" "t \<le> 0" "l = L_warning"
        "low_celsius w' = Some t'" "t' \<le> t"
      using hz lo by (auto simp: at_most_def split: option.splits)
    then show ?thesis by (auto simp: K_extreme_cold)
  next
    case K_strong_wind
    then show ?thesis using hz wi by auto
  qed (use hz ph in auto)
  then show ?thesis by (simp add: reported_iff)
qed

text \<open>
  Worse weather is never classified as less risky: if a second forecast has every
  phenomenon of a first one, is at least as hot, as cold and as windy wherever the first
  says so, then its level ranks at least as high (normal, unknown, warning, severe) and it
  reports every kind of risk the first reports.
\<close>

lemma classification_is_monotone:
  assumes "no_milder w w'"
  shows "risk_rank (r_level (classify_daily_weather hash w)) \<le> risk_rank (r_level (classify_daily_weather hash w'))
     \<and> set (r_kinds (classify_daily_weather hash w)) \<subseteq> set (r_kinds (classify_daily_weather hash w'))"
proof -
  have level: "day_level v = (if \<exists>k. reported v k L_severe then L_severe
      else if \<exists>k. reported v k L_warning then L_warning else if unknown_weather v then L_unknown else L_normal)" for v
    by (force simp: day_level_def Let_def reported_def)
  have kinds: "set (day_kinds v) = {k. \<exists>l. reported v k l} \<union> (if unknown_weather v then {K_unknown} else {})" for v
    by (force simp: day_kinds_def reported_def)
  have unk: "unknown_weather w \<Longrightarrow> unknown_weather w'"
    using assms by (auto simp: unknown_weather_def no_milder_def)
  have rank3: "risk_rank L_severe \<le> risk_rank l \<Longrightarrow> l = L_severe" for l by (cases l) simp_all
  have rank2: "risk_rank L_warning \<le> risk_rank l \<Longrightarrow> l = L_severe \<or> l = L_warning" for l by (cases l) simp_all
  have severe: "\<exists>k. reported w' k L_severe" if "\<exists>k. reported w k L_severe"
    using that reported_mono [OF assms] rank3 by metis
  have warning: "(\<exists>k. reported w' k L_severe) \<or> (\<exists>k. reported w' k L_warning)" if "\<exists>k. reported w k L_warning"
    using that reported_mono [OF assms] rank2 by metis
  have "risk_rank (day_level w) \<le> risk_rank (day_level w')"
    unfolding level using severe warning unk by auto
  moreover have "set (day_kinds w) \<subseteq> set (day_kinds w')"
    unfolding kinds using reported_mono [OF assms] unk by auto
  ultimately show ?thesis by (simp add: classify_daily_weather_def)
qed

definition some_weather :: "weather_phenomenon \<Rightarrow> int \<Rightarrow> daily_weather" where
  "some_weather p h = \<lparr>w_date = 739891, day_phenomenon = p, night_phenomenon = Cloudy,
     high_celsius = Some h, low_celsius = Some 20, day_wind_level = Some 3, night_wind_level = None\<rparr>"

lemma classification_is_monotone_witness:
  "risk_rank (r_level (classify_daily_weather id (some_weather Rain 30))) \<le> risk_rank (r_level (classify_daily_weather id (some_weather Rain 39)))
     \<and> set (r_kinds (classify_daily_weather id (some_weather Rain 30))) \<subseteq> set (r_kinds (classify_daily_weather id (some_weather Rain 39)))"
  by (rule classification_is_monotone) (simp add: no_milder_def at_least_def at_most_def phenomena_def some_weather_def)

section \<open>Change events\<close>

text \<open>The risk fingerprint of a date, and whether an observation differs from the last one.\<close>

definition risk_fp :: "daily_risk list \<Rightarrow> py_date \<Rightarrow> string option" where
  "risk_fp rs d = map_option r_fingerprint (map_of (risks_by_date rs) d)"

definition news_on :: "bool \<Rightarrow> daily_risk list \<Rightarrow> daily_risk list \<Rightarrow> py_date \<Rightarrow> bool" where
  "news_on first previous current d \<longleftrightarrow>
     (if first then \<exists>r. map_of (risks_by_date current) d = Some r \<and> r_level r \<noteq> L_normal
      else risk_fp current d \<noteq> None \<and> risk_fp previous d \<noteq> None \<and> risk_fp current d \<noteq> risk_fp previous d)"

lemma set_map_filter: "set (List.map_filter f xs) = {y. \<exists>x \<in> set xs. f x = Some y}"
  by (force simp: List.map_filter_def)

lemma changed_dates: "fst ` set (changes first previous current dates) = {d \<in> set dates. news_on first previous current d}"
proof -
  have "fst ` set (List.map_filter (\<lambda>d. map_option (Pair d) (f d)) dates) = {d \<in> set dates. f d \<noteq> None}"
    for f :: "py_date \<Rightarrow> (string \<times> string) option"
    by (force simp: set_map_filter)
  note this [of "\<lambda>d. case map_of (risks_by_date current) d of None \<Rightarrow> None
    | Some r \<Rightarrow> if first then (if r_level r = L_normal then None else Some (''missing'', r_fingerprint r))
               else (case map_of (risks_by_date previous) d of None \<Rightarrow> None
                     | Some p \<Rightarrow> if r_fingerprint r = r_fingerprint p then None
                                 else Some (r_fingerprint p, r_fingerprint r))"]
  moreover have "(case map_of (risks_by_date current) d of None \<Rightarrow> None
    | Some r \<Rightarrow> if first then (if r_level r = L_normal then None else Some (''missing'', r_fingerprint r))
               else (case map_of (risks_by_date previous) d of None \<Rightarrow> None
                     | Some p \<Rightarrow> if r_fingerprint r = r_fingerprint p then None
                                 else Some (r_fingerprint p, r_fingerprint r))) \<noteq> None
      \<longleftrightarrow> news_on first previous current d" for d
    by (cases "map_of (risks_by_date current) d"; cases "map_of (risks_by_date previous) d")
       (simp_all add: news_on_def risk_fp_def)
  moreover have "changes first previous current dates = List.map_filter (\<lambda>d. map_option (Pair d)
    (case map_of (risks_by_date current) d of None \<Rightarrow> None
    | Some r \<Rightarrow> if first then (if r_level r = L_normal then None else Some (''missing'', r_fingerprint r))
               else (case map_of (risks_by_date previous) d of None \<Rightarrow> None
                     | Some p \<Rightarrow> if r_fingerprint r = r_fingerprint p then None
                                 else Some (r_fingerprint p, r_fingerprint r)))) dates"
    unfolding changes_def
    by (rule arg_cong2 [where f = List.map_filter]) (auto simp: fun_eq_iff split: option.splits)
  ultimately show ?thesis by simp
qed

text \<open>
  A refresh reports exactly what is new: compared with a previous snapshot, the affected
  dates of the change event are the dates of the trip whose risk fingerprint changed, and on
  the first snapshot the dates whose risk is not normal; there is no event at all exactly if
  there is no such date. In particular the same risks observed again give no event.
\<close>

lemma change_event_reports_what_is_new:
  "case derive_change_event hash sid vid snap current prev_snap previous dates now of
     None \<Rightarrow> {d \<in> set dates. news_on (prev_snap = None) previous current d} = {}
   | Some ev \<Rightarrow> set (ev_affected_dates ev) = {d \<in> set dates. news_on (prev_snap = None) previous current d}
       \<and> ev_affected_dates ev \<noteq> []"
proof (cases "changes (prev_snap = None) previous current dates = []")
  case True
  then show ?thesis
    using changed_dates [of "prev_snap = None" previous current dates] by (simp add: derive_change_event_def)
next
  case False
  then show ?thesis
    using changed_dates [of "prev_snap = None" previous current dates]
    by (simp add: derive_change_event_def Let_def)
qed

lemma isoformat_inj:
  assumes "1 \<le> a" "a \<le> 3652059" "1 \<le> b" "b \<le> 3652059" and eq: "isoformat a = isoformat b"
  shows "a = b"
  using fromisoformat_isoformat [OF assms(1,2)] fromisoformat_isoformat [OF assms(3,4)] eq by (metis option.inject)

definition event_text :: "change_event \<Rightarrow> string" where
  "event_text e = json_dumps (event_payload (ev_session_id e) (ev_base_version_id e) (ev_kind e)
     (zip (ev_affected_dates e) (zip (ev_before e) (ev_after e))))"

definition same_news :: "change_event \<Rightarrow> change_event \<Rightarrow> bool" where
  "same_news a b \<longleftrightarrow> ev_session_id a = ev_session_id b \<and> ev_base_version_id a = ev_base_version_id b \<and>
     ev_kind a = ev_kind b \<and> ev_affected_dates a = ev_affected_dates b \<and>
     ev_before a = ev_before b \<and> ev_after a = ev_after b"

lemma derived_event:
  assumes "derive_change_event hash sid vid snap current prev_snap previous dates now = Some e"
  shows "ev_fingerprint e = hash (event_text e)"
    and "length (ev_before e) = length (ev_affected_dates e)"
    and "length (ev_after e) = length (ev_affected_dates e)"
    and "set (ev_affected_dates e) \<subseteq> set dates"
proof -
  let ?chs = "changes (prev_snap = None) previous current dates"
  have split: "zip (map fst xs) (zip (map (fst \<circ> snd) xs) (map (snd \<circ> snd) xs)) = xs" for xs :: "('a \<times> 'b \<times> 'c) list"
    by (induction xs) auto
  note def = assms [unfolded derive_change_event_def Let_def]
  show "ev_fingerprint e = hash (event_text e)"
    using def by (auto simp: event_text_def fingerprint_def split split: if_splits)
  show "length (ev_before e) = length (ev_affected_dates e)" "length (ev_after e) = length (ev_affected_dates e)"
    using def by (auto split: if_splits)
  have "ev_affected_dates e = map fst ?chs" using def by (auto split: if_splits)
  then have "set (ev_affected_dates e) = fst ` set ?chs" by simp
  then show "set (ev_affected_dates e) \<subseteq> set dates" unfolding changed_dates by simp
qed

lemma event_text_inj:
  assumes ea: "derive_change_event hash sid vid sn cur ps prev dates now = Some a"
    and eb: "derive_change_event hash' sid' vid' sn' cur' ps' prev' dates' now' = Some b"
    and valid: "\<forall>d \<in> set dates \<union> set dates'. 1 \<le> d \<and> d \<le> 3652059"
    and eq: "event_text a = event_text b"
  shows "same_news a b"
proof -
  have norms: "map json_norm (map J_str xs) = map J_str xs" for xs by simp
  have zip3: "map fst (zip ds (zip xs ys)) = ds" "map (fst \<circ> snd) (zip ds (zip xs ys)) = xs"
      "map (snd \<circ> snd) (zip ds (zip xs ys)) = ys"
    if "length xs = length ds" "length ys = length ds" for ds :: "int list" and xs ys :: "string list"
    using that by (simp_all add: map_fst_zip flip: map_map)
  have strs: "map J_str xs = map J_str ys \<longleftrightarrow> xs = ys" for xs ys by (simp add: inj_map_eq_map inj_def)
  note len = derived_event(2,3) [OF ea] derived_event(2,3) [OF eb]
  have "json_norm (event_payload (ev_session_id a) (ev_base_version_id a) (ev_kind a)
      (zip (ev_affected_dates a) (zip (ev_before a) (ev_after a))))
    = json_norm (event_payload (ev_session_id b) (ev_base_version_id b) (ev_kind b)
      (zip (ev_affected_dates b) (zip (ev_before b) (ev_after b))))"
    using eq by (simp add: event_text_def json_dumps_inj)
  then have fields: "ev_session_id a = ev_session_id b" "ev_base_version_id a = ev_base_version_id b"
      "change_event_kind_value (ev_kind a) = change_event_kind_value (ev_kind b)"
      "map isoformat (ev_affected_dates a) = map isoformat (ev_affected_dates b)"
      "ev_before a = ev_before b" "ev_after a = ev_after b"
    using len by (simp_all add: event_payload_def comp_assoc [symmetric] zip3 norms strs flip: map_map)
  have "inj_on isoformat (set (ev_affected_dates a) \<union> set (ev_affected_dates b))"
    using valid derived_event(4) [OF ea] derived_event(4) [OF eb] by (intro inj_onI isoformat_inj) auto
  then have "ev_affected_dates a = ev_affected_dates b" using fields(4) by (simp add: inj_on_map_eq_map)
  moreover have "ev_kind a = ev_kind b" using fields(3) by (cases "ev_kind a"; cases "ev_kind b") simp_all
  ultimately show ?thesis using fields by (simp add: same_news_def)
qed

text \<open>
  The fingerprint identifies what a change event reports: two derived events whose texts
  the hash does not confuse have the same fingerprint exactly if they report the same news
  (session, base version, kind, dates, and the risk fingerprints before and after).
\<close>

lemma event_fingerprint_identifies_news:
  assumes "derive_change_event hash sid vid sn cur ps prev dates now = Some a"
    and "derive_change_event hash sid' vid' sn' cur' ps' prev' dates' now' = Some b"
    and "\<forall>d \<in> set dates \<union> set dates'. 1 \<le> d \<and> d \<le> 3652059"
    and "inj_on hash {event_text a, event_text b}"
  shows "ev_fingerprint a = ev_fingerprint b \<longleftrightarrow> same_news a b"
proof
  assume "ev_fingerprint a = ev_fingerprint b"
  then have "event_text a = event_text b"
    using derived_event(1) [OF assms(1)] derived_event(1) [OF assms(2)] inj_onD [OF assms(4)]
    by (metis insertI1 insertI2)
  then show "same_news a b" using event_text_inj [OF assms(1-3)] by blast
next
  assume "same_news a b"
  then have "event_text a = event_text b" by (simp add: same_news_def event_text_def)
  then show "ev_fingerprint a = ev_fingerprint b"
    using derived_event(1) [OF assms(1)] derived_event(1) [OF assms(2)] by simp
qed

definition some_location :: weather_location where
  "some_location = \<lparr>city_name = ''Nanjing'', adcode = ''320100'', wl_timezone = ''Asia/Shanghai'',
     wl_provider = ''amap'', wl_longitude = None, wl_latitude = None\<rparr>"

definition some_forecast :: "int \<Rightarrow> weather_forecast" where
  "some_forecast h = \<lparr>wf_location = some_location, wf_provider = ''amap'', wf_reported_at = None,
     wf_days = [some_weather Rain h]\<rparr>"

definition some_event :: "int \<Rightarrow> change_event option" where
  "some_event h = derive_change_event id ''s'' ''V1'' (build_weather_snapshot id (some_forecast h) (at_time 739890 8 0) (at_time 739890 9 0))
     (classify_forecast id [some_weather Rain h]) None [] [739891] (at_time 739890 8 0)"

lemma event_fingerprint_identifies_news_witness:
  "ev_fingerprint (the (some_event 30)) = ev_fingerprint (the (some_event 39))
     \<longleftrightarrow> same_news (the (some_event 30)) (the (some_event 39))"
proof -
  have "some_event 30 \<noteq> None" "some_event 39 \<noteq> None"
    by (simp_all add: some_event_def derive_change_event_def changes_def classify_forecast_def
        risks_by_date_def dict_of_def classify_daily_weather_def some_weather_def Let_def List.map_filter_def
        day_level_def risk_findings_def phenomena_def)
  then show ?thesis
    by (intro event_fingerprint_identifies_news [where hash = id, OF _ _ _ inj_on_id]) (auto simp: some_event_def)
qed

section \<open>Impact and repair\<close>

definition located :: "plan_candidate \<Rightarrow> impact_findings \<Rightarrow> bool" where
  "located c f \<longleftrightarrow> (\<forall>x \<in> set (if_items f). \<exists>d i.
     (d, i) \<in> set (dated_items c) \<and> item_id i = Some x \<and> d \<in> set (if_dates f))"

lemma located_keep:
  "located c f \<Longrightarrow> if_items g = if_items f \<Longrightarrow> if_dates g = if_dates f \<Longrightarrow> located c g"
  by (simp add: located_def)

lemma item_finding_located:
  assumes "(d, i) \<in> set (dated_items c)" and "located c f"
  shows "located c (item_finding pois d i f)"
proof (cases "\<exists>x pid p. item_id i = Some x \<and> item_poi_id i = Some pid \<and> map_of pois pid = Some p
    \<and> ex_kind (classify_planning_poi p x) \<in> {Outdoor, Mixed}")
  case True
  then show ?thesis using assms by (fastforce simp: located_def item_finding_def)
next
  case False
  then show ?thesis
    by (intro located_keep [OF assms(2)])
       (auto simp: item_finding_def Let_def simp del: map_of_eq_Some_iff split: option.splits)
qed

lemma weather_findings_located: "located c (weather_findings ev c pois risks)"
  unfolding weather_findings_def
proof (rule fold_invariant [where Q = "\<lambda>day. day \<in> set (days c)"])
  fix day f
  assume day: "day \<in> set (days c)" and f: "located c f"
  let ?pois = "dict_of (map (\<lambda>p. (poi_id_of p, p)) pois)"
  have "located c (fold (item_finding ?pois (day_date day)) (items day) f)"
  proof (rule fold_invariant [where Q = "\<lambda>i. (day_date day, i) \<in> set (dated_items c)"])
    show "(day_date day, i) \<in> set (dated_items c)" if "i \<in> set (items day)" for i
      using that day by (auto simp: dated_items_def)
  qed (use f item_finding_located in auto)
  then show "located c (day_finding (ev_affected_dates ev) ?pois (risks_by_date risks) day f)"
    using f located_keep [OF f]
    by (cases "map_of (risks_by_date risks) (day_date day)") (simp_all add: day_finding_def)
qed (simp_all add: located_def no_findings_def)

lemma candidate_item_days:
  assumes "distinct (item_ids c)" and "(d, i) \<in> set (dated_items c)" and "item_id i = Some x"
  shows "map_of (candidate_items c) x = Some (d, i)"
proof -
  let ?kvs = "map (\<lambda>(d, i). (the (item_id i), d, i)) (identified_items c)"
  have "map fst ?kvs = item_ids c" by (simp add: item_ids_def comp_def split_def)
  then have "distinct (map fst (rev ?kvs))" using assms(1) by (metis distinct_rev rev_map)
  moreover have "(x, d, i) \<in> set (rev ?kvs)"
    using assms(2,3) by (force simp: identified_items_def)
  ultimately show ?thesis by (simp add: candidate_items_def map_of_dict_of)
qed

definition action_ok :: "trip_spec \<Rightarrow> (string \<times> py_date \<times> plan_item) list \<Rightarrow> py_date list \<Rightarrow> weather_action \<Rightarrow> bool" where
  "action_ok trip by_id safe a \<longleftrightarrow> (\<exists>d i. map_of by_id (wa_item_id a) = Some (d, i) \<and>
     (if is_must_visit (item_name i) trip
      then wa_kind a = Move_to_safe_date \<and> (\<exists>t. wa_target_date a = Some t \<and> t \<in> set safe \<and> t \<noteq> d)
      else wa_kind a \<in> {Replace_with_indoor, Remove_optional_item} \<and> wa_target_date a = None))"

lemma weather_action_for_ok:
  assumes "weather_action_for trip by_id safe x st = Some st'"
  shows "\<exists>a. fst st' = fst st @ [a] \<and> wa_item_id a = x \<and> action_ok trip by_id safe a"
proof -
  obtain d i where entry: "map_of by_id x = Some (d, i)"
    using assms by (cases "map_of by_id x") (auto simp: weather_action_for_def simp del: map_of_eq_Some_iff)
  show ?thesis
  proof (cases "is_must_visit (item_name i) trip")
    case True
    obtain t ts where "filter (\<lambda>t. t \<noteq> d) safe = t # ts"
      using assms entry True by (cases "filter (\<lambda>t. t \<noteq> d) safe") (simp_all add: weather_action_for_def)
    moreover have "t \<in> set (filter (\<lambda>t. t \<noteq> d) safe)" using calculation by simp
    then have "t \<in> set safe" "t \<noteq> d" by simp_all
    ultimately show ?thesis
      using assms entry True unfolding action_ok_def by (force simp: weather_action_for_def)
  next
    case False
    then show ?thesis
      using assms entry unfolding action_ok_def
      by (cases "snd st") (force simp: weather_action_for_def)+
  qed
qed

lemma weather_actions_ok:
  "weather_actions trip by_id safe xs st = Some st' \<Longrightarrow>
     \<exists>new. fst st' = fst st @ new \<and> map wa_item_id new = xs \<and> (\<forall>a \<in> set new. action_ok trip by_id safe a)"
proof (induction xs arbitrary: st)
  case (Cons x xs)
  obtain st1 where step: "weather_action_for trip by_id safe x st = Some st1"
    and rest: "weather_actions trip by_id safe xs st1 = Some st'"
    using Cons.prems by (auto split: option.splits)
  obtain a where "fst st1 = fst st @ [a]" "wa_item_id a = x" "action_ok trip by_id safe a"
    using weather_action_for_ok [OF step] by blast
  moreover obtain new where "fst st' = fst st1 @ new" "map wa_item_id new = xs" "\<forall>b \<in> set new. action_ok trip by_id safe b"
    using Cons.IH [OF rest] by blast
  ultimately show ?case by (intro exI [of _ "a # new"]) simp
qed simp

lemma repair_plan_actions:
  assumes "build_weather_repair_plan h eid bid trip c impact risks alts lks = Some plan"
  shows "map wa_item_id (wr_actions plan) = wi_affected_items impact"
    and "\<forall>a \<in> set (wr_actions plan). action_ok trip (candidate_items c) (safe_dates risks lks) a"
    and "wr_actions plan \<noteq> []" and "length (wr_actions plan) \<le> 3"
proof -
  obtain st where run: "weather_actions trip (candidate_items c) (safe_dates risks lks) (wi_affected_items impact) ([], alts) = Some st"
    using assms by (auto simp: build_weather_repair_plan_def split: option.splits)
  have plan: "wr_actions plan = fst st" "fst st \<noteq> []" "length (fst st) \<le> 3"
    using assms run by (auto simp: build_weather_repair_plan_def case_prod_beta split: if_splits)
  then show "map wa_item_id (wr_actions plan) = wi_affected_items impact"
      "\<forall>a \<in> set (wr_actions plan). action_ok trip (candidate_items c) (safe_dates risks lks) a"
      "wr_actions plan \<noteq> []" "length (wr_actions plan) \<le> 3"
    using weather_actions_ok [OF run] by auto
qed

lemma weather_operation_target: "op_target_date (weather_operation a) = (if wa_kind a = Move_to_safe_date then wa_target_date a else None)"
  and weather_operation_item: "op_item_id (weather_operation a) = Some (wa_item_id a)"
  by (cases "wa_kind a"; simp add: weather_operation_def)+

text \<open>
  C27. For a plan whose item ids are distinct, a weather repair respects locks and required
  places: if the impact of a change event needs no attention and a repair plan is built from
  it, then its edit patch has one to three operations and conflicts with no lock of the
  session, and it removes or replaces no item whose name is a must-visit. Candidates get
  distinct ids (\<open>stable_item_ids_identify_items\<close>), but an edit that adds an already planned place
  gives two items one id (\<open>adding_planned_place_takes_id\<close>); such plans are excluded.
\<close>

theorem weather_repair_respects_locks:
  assumes distinct: "distinct (item_ids c)"
    and calm: "\<not> wi_attention (analyze_weather_impact ev c pois risks lks n)"
    and built: "build_weather_repair_plan h eid bid trip c (analyze_weather_impact ev c pois risks lks n) risks alts lks = Some plan"
  shows "ir_lock_conflicts (analyze_change_impact c (repair_plan_to_edit_patch plan) lks m) = []
     \<and> length (repair_plan_to_edit_patch plan) \<in> {1..3}
     \<and> (\<forall>op \<in> set (repair_plan_to_edit_patch plan). op_kind op \<in> {Remove_item, Replace_item} \<longrightarrow>
          (\<forall>d i. map_of (candidate_items c) (the (op_item_id op)) = Some (d, i) \<longrightarrow> \<not> is_must_visit (item_name i) trip))"
proof -
  let ?f = "weather_findings ev c pois risks" and ?ops = "repair_plan_to_edit_patch plan"
  note acts = repair_plan_actions [OF built]
  have ids: "wa_item_id ` set (wr_actions plan) = set (if_items ?f)"
    using arg_cong [OF acts(1), of set] by (simp add: analyze_weather_impact_def Let_def)
  have unhit: "\<not> lock_hit (sorted_set (if_dates ?f)) (sorted_set (if_items ?f)) l" if "l \<in> set lks" for l
    using calm that by (auto simp: analyze_weather_impact_def Let_def filter_empty_conv)
  have entry: "d \<in> set (if_dates ?f)"
    if a: "a \<in> set (wr_actions plan)" and e: "map_of (candidate_items c) (wa_item_id a) = Some (d, i)" for a d i
  proof -
    have "wa_item_id a \<in> set (if_items ?f)" using ids a by blast
    then obtain d' i' where "(d', i') \<in> set (dated_items c)" "item_id i' = Some (wa_item_id a)" "d' \<in> set (if_dates ?f)"
      using weather_findings_located [of c ev pois risks] by (auto simp: located_def)
    then show ?thesis using candidate_item_days [OF distinct] e by fastforce
  qed
  have dates: "d \<in> set (if_dates ?f) \<union> set (safe_dates risks lks)" if "d \<in> set (touched_dates c ?ops)" for d
    using that acts(2) entry
    by (fastforce simp: touched_dates_def source_day_entry item_entry_def repair_plan_to_edit_patch_def
        weather_operation_target weather_operation_item action_ok_def split: option.splits if_splits)
  have items: "x \<in> set (if_items ?f)" if "x \<in> set (touched_items c ?ops)" for x
    using that ids
    by (auto simp: touched_items_def repair_plan_to_edit_patch_def weather_operation_item split: option.splits)
  have "\<not> lock_hit (sorted_set (touched_dates c ?ops)) (sorted_set (touched_items c ?ops)) l" if l: "l \<in> set lks" for l
  proof (cases "lk_kind l")
    case Lock_day
    have "lk_target l \<notin> isoformat ` set (safe_dates risks lks)"
      using l Lock_day by (force simp: safe_dates_def)
    then show ?thesis using unhit [OF l] dates Lock_day by (fastforce simp: lock_hit_def)
  next
    case Lock_item
    then show ?thesis using unhit [OF l] items by (auto simp: lock_hit_def)
  qed
  then have "ir_lock_conflicts (analyze_change_impact c ?ops lks m) = []"
    by (simp add: analyze_change_impact_def Let_def filter_empty_conv)
  moreover have "length ?ops \<in> {1..3}"
    using acts(3,4) by (cases "wr_actions plan") (simp_all add: repair_plan_to_edit_patch_def)
  moreover have "\<not> is_must_visit (item_name i) trip"
    if "op \<in> set ?ops" "op_kind op \<in> {Remove_item, Replace_item}"
      "map_of (candidate_items c) (the (op_item_id op)) = Some (d, i)" for op d i
    using that acts(2)
    by (fastforce simp: repair_plan_to_edit_patch_def weather_operation_def action_ok_def split: weather_action_kind.splits)
  ultimately show ?thesis by blast
qed

definition day_risk :: "py_date \<Rightarrow> weather_risk_level \<Rightarrow> daily_risk" where
  "day_risk d l = \<lparr>r_date = d, r_level = l, r_kinds = [], r_evidence = [], r_policy_version = ''v1'', r_fingerprint = ''f''\<rparr>"

definition storm_risks :: "daily_risk list" where
  "storm_risks = [day_risk 739891 L_severe, day_risk 739892 L_normal]"

definition storm_event :: change_event where
  "storm_event = \<lparr>ev_id = ''we_1'', ev_fingerprint = ''f'', ev_kind = Weather_alert, ev_session_id = ''s'',
     ev_base_version_id = ''V1'', ev_previous_snapshot_id = None, ev_current_snapshot_id = ''ws_1'',
     ev_affected_dates = [739891], ev_before = [''missing''], ev_after = [''g''], ev_created_at = at_time 739890 8 0\<rparr>"

definition park_pois :: "planning_poi list" where
  "park_pois = map (\<lambda>p. p\<lparr>facts := (facts p)\<lparr>f_categories := [hd outdoor_terms]\<rparr>\<rparr>) sample_pois"

definition storm_impact :: weather_impact where
  "storm_impact = analyze_weather_impact storm_event sample_plan park_pois storm_risks [sample_lock Lock_item ''item_p2''] 2"

lemma storm_findings: "weather_findings storm_event sample_plan park_pois storm_risks
   = \<lparr>if_items = [''item_p1''], if_dates = [739891], if_unknown = [], if_reasons = [''exposure_outdoor'']\<rparr>"
  by code_simp

theorem weather_repair_respects_locks_witness:
  "\<exists>plan. build_weather_repair_plan plain_hashing ''we_1'' ''V1'' sample_trip sample_plan storm_impact storm_risks []
        [sample_lock Lock_item ''item_p2''] = Some plan \<and>
     ir_lock_conflicts (analyze_change_impact sample_plan (repair_plan_to_edit_patch plan) [sample_lock Lock_item ''item_p2''] 2) = []"
proof -
  have ids: "distinct (item_ids sample_plan)" by code_simp
  have calm: "\<not> wi_attention storm_impact"
    by (simp add: storm_impact_def analyze_weather_impact_def storm_findings sorted_set_def lock_hit_def sample_lock_def)
  have safe: "safe_dates storm_risks [sample_lock Lock_item ''item_p2''] = [739892]" by code_simp
  have hit: "wi_affected_items storm_impact = [''item_p1'']"
    by (simp add: storm_impact_def analyze_weather_impact_def storm_findings sorted_set_def Let_def)
  have must: "is_must_visit ''Lt'' sample_trip" by code_simp
  have "build_weather_repair_plan plain_hashing ''we_1'' ''V1'' sample_trip sample_plan storm_impact storm_risks []
        [sample_lock Lock_item ''item_p2''] \<noteq> None"
    using must by (simp add: build_weather_repair_plan_def safe hit sample_items weather_action_for_def sample_item_def)
  then obtain plan where plan: "build_weather_repair_plan plain_hashing ''we_1'' ''V1'' sample_trip sample_plan storm_impact
      storm_risks [] [sample_lock Lock_item ''item_p2''] = Some plan"
    by blast
  then show ?thesis
    using weather_repair_respects_locks [OF ids calm [unfolded storm_impact_def] plan [unfolded storm_impact_def], of 2] by blast
qed

end
