(* ===== verification/SessionStore.thy ===== *)
theory SessionStore
  imports LifecycleModels
begin

text \<open>
  \<open>lifecycle/repository.py\<close>: the repository of plan sessions with its compare-and-swap save,
  in memory and on SQLite. The interface is the locale \<open>session_repository\<close>; its clients rely
  on the laws of create, get and save and get from them that no update is lost. The locks
  make each operation atomic; \<open>model_copy(deep=True)\<close> makes the stored value independent of
  the caller's, so a session is a value here. The texts of the SQLite rows come from the
  parameters \<open>dump\<close> and \<open>load\<close> (Pydantic's JSON of a session and its parser).
\<close>

section \<open>Injected faults\<close>

datatype fault_mode =
  Fault_timeout | Fault_rate_limit | Fault_auth | Fault_connection | Fault_schema | Fault_empty | Fault_write

fun fault_mode_value :: "fault_mode \<Rightarrow> string" where
  "fault_mode_value Fault_timeout = ''timeout''"
| "fault_mode_value Fault_rate_limit = ''rate_limit''"
| "fault_mode_value Fault_auth = ''auth_error''"
| "fault_mode_value Fault_connection = ''connection_error''"
| "fault_mode_value Fault_schema = ''invalid_schema''"
| "fault_mode_value Fault_empty = ''empty_business_result''"
| "fault_mode_value Fault_write = ''write_failure''"

definition inject_repository_fault :: "fault_mode option \<Rightarrow> (lifecycle_error, unit) result" where
  "inject_repository_fault mode =
     (case mode of
        None \<Rightarrow> Inr ()
      | Some m \<Rightarrow> if m \<in> {Fault_write, Fault_connection, Fault_timeout}
                 then Inl (Runtime_error (''injected plan repository failure: '' @ fault_mode_value m))
                 else Inr ())"

section \<open>In memory\<close>

type_synonym memory_store = "(string \<times> plan_session) list"

definition mem_create :: "plan_session \<Rightarrow> memory_store \<Rightarrow> (lifecycle_error, memory_store) result" where
  "mem_create x st =
     (if map_of st (session_id x) \<noteq> None then Inl (conflict (session_id x))
      else Inr (AList.update (session_id x) x st))"

definition mem_get :: "string \<Rightarrow> memory_store \<Rightarrow> (lifecycle_error, plan_session) result" where
  "mem_get sid st = (case map_of st sid of None \<Rightarrow> Inl (Not_found sid) | Some x \<Rightarrow> Inr x)"

definition mem_save ::
  "datetime \<Rightarrow> plan_session \<Rightarrow> int \<Rightarrow> memory_store \<Rightarrow> (lifecycle_error, memory_store) result" where
  "mem_save now x expected st =
     (case map_of st (session_id x) of
        None \<Rightarrow> Inl (Not_found (session_id x))
      | Some current \<Rightarrow>
          if revision current \<noteq> expected then Inl (Conflict (session_id x) ''stale_revision'')
          else Inr (AList.update (session_id x) (x\<lparr>ss_updated_at := now\<rparr>) st))"

section \<open>On SQLite\<close>







section \<open>The interface\<close>

locale session_repository =
  fixes valid :: "'s \<Rightarrow> bool"
    and find :: "'s \<Rightarrow> string \<Rightarrow> plan_session option"
    and create :: "plan_session \<Rightarrow> 's \<Rightarrow> (lifecycle_error, 's) result"
    and get :: "string \<Rightarrow> 's \<Rightarrow> (lifecycle_error, plan_session) result"
    and save :: "datetime \<Rightarrow> plan_session \<Rightarrow> int \<Rightarrow> 's \<Rightarrow> (lifecycle_error, 's) result"
  assumes find_id: "valid s \<Longrightarrow> find s sid = Some x \<Longrightarrow> session_id x = sid"
    and get_find: "valid s \<Longrightarrow> get sid s = (case find s sid of None \<Rightarrow> Inl (Not_found sid) | Some x \<Rightarrow> Inr x)"
    and create_taken: "valid s \<Longrightarrow> find s (session_id x) \<noteq> None \<Longrightarrow> create x s = Inl (conflict (session_id x))"
    and create_free: "valid s \<Longrightarrow> find s (session_id x) = None \<Longrightarrow>
      \<exists>s'. create x s = Inr s' \<and> valid s' \<and> find s' = (find s)(session_id x \<mapsto> x)"
    and save_missing: "valid s \<Longrightarrow> find s (session_id x) = None \<Longrightarrow> save now x r s = Inl (Not_found (session_id x))"
    and save_stale: "valid s \<Longrightarrow> find s (session_id x) = Some y \<Longrightarrow> revision y \<noteq> r \<Longrightarrow>
      save now x r s = Inl (Conflict (session_id x) ''stale_revision'')"
    and save_current: "valid s \<Longrightarrow> find s (session_id x) = Some y \<Longrightarrow> revision y = r \<Longrightarrow>
      \<exists>s'. save now x r s = Inr s' \<and> valid s' \<and> find s' = (find s)(session_id x \<mapsto> x\<lparr>ss_updated_at := now\<rparr>)"

text \<open>
  A client's calls, and what it observes: the state afterwards, the answers and the sessions
  read. A writer follows the protocol of the workflow if the session it saves has the
  revision after the one it expects.
\<close>

datatype store_call = Call_create plan_session | Call_get string | Call_save datetime plan_session int

fun follows_protocol :: "store_call \<Rightarrow> bool" where
  "follows_protocol (Call_save now x r) \<longleftrightarrow> revision x = r + 1"
| "follows_protocol _ \<longleftrightarrow> True"

datatype store_answer = Answer_done | Answer_session plan_session | Answer_error lifecycle_error

definition state_after :: "('e, 's) result \<Rightarrow> 's \<Rightarrow> 's" where
  "state_after r s = (case r of Inl _ \<Rightarrow> s | Inr s' \<Rightarrow> s')"

definition answer_of :: "('s \<Rightarrow> store_answer) \<Rightarrow> (lifecycle_error, 's) result \<Rightarrow> store_answer" where
  "answer_of f r = (case r of Inl e \<Rightarrow> Answer_error e | Inr x \<Rightarrow> f x)"

lemma state_after_simps [simp]: "state_after (Inl e) s = s" "state_after (Inr s') s = s'"
  by (simp_all add: state_after_def)

lemma answer_of_simps [simp]: "answer_of f (Inl e) = Answer_error e" "answer_of f (Inr x) = f x"
  by (simp_all add: answer_of_def)

definition perform ::
  "(plan_session \<Rightarrow> 's \<Rightarrow> (lifecycle_error, 's) result) \<Rightarrow> (string \<Rightarrow> 's \<Rightarrow> (lifecycle_error, plan_session) result)
     \<Rightarrow> (datetime \<Rightarrow> plan_session \<Rightarrow> int \<Rightarrow> 's \<Rightarrow> (lifecycle_error, 's) result)
     \<Rightarrow> store_call \<Rightarrow> 's \<Rightarrow> 's \<times> store_answer" where
  "perform create get save call s =
     (case call of
        Call_create x \<Rightarrow> (state_after (create x s) s, answer_of (\<lambda>_. Answer_done) (create x s))
      | Call_get sid \<Rightarrow> (s, answer_of Answer_session (get sid s))
      | Call_save now x r \<Rightarrow> (state_after (save now x r s) s, answer_of (\<lambda>_. Answer_done) (save now x r s)))"

fun perform_all ::
  "(store_call \<Rightarrow> 's \<Rightarrow> 's \<times> store_answer) \<Rightarrow> store_call list \<Rightarrow> 's \<Rightarrow> 's \<times> store_answer list" where
  "perform_all f [] s = (s, [])"
| "perform_all f (c # cs) s =
     (let (s1, a) = f c s; (s2, as) = perform_all f cs s1 in (s2, a # as))"

context session_repository
begin

text \<open>A session once read is either still stored, or what is stored has a later revision.\<close>

definition up_to_date :: "plan_session \<Rightarrow> 's \<Rightarrow> bool" where
  "up_to_date x s \<longleftrightarrow> (\<exists>y. find s (session_id x) = Some y \<and> revision x \<le> revision y \<and>
     (revision x = revision y \<longrightarrow> x = y))"

lemma save_cases:
  assumes "valid s"
  obtains s' y where "find s (session_id x) = Some y" "revision y = r" "save now x r s = Inr s'" "valid s'"
      "find s' = (find s)(session_id x \<mapsto> x\<lparr>ss_updated_at := now\<rparr>)"
  | e where "save now x r s = Inl e"
proof (cases "find s (session_id x)")
  case None
  then show ?thesis using save_missing [OF assms] that(2) by blast
next
  case (Some y)
  then show ?thesis
  proof (cases "revision y = r")
    case True
    from save_current [OF assms Some True, of now] obtain s' where
      s': "save now x r s = Inr s' \<and> valid s' \<and> find s' = (find s)(session_id x \<mapsto> x\<lparr>ss_updated_at := now\<rparr>)" ..
    show ?thesis
      by (rule that(1) [OF Some True s' [THEN conjunct1] s' [THEN conjunct2, THEN conjunct1] s' [THEN conjunct2, THEN conjunct2]])
  next
    case False
    show ?thesis by (rule that(2) [OF save_stale [OF assms Some False]])
  qed
qed

lemma create_cases:
  assumes "valid s"
  obtains s' where "find s (session_id x) = None" "create x s = Inr s'" "valid s'" "find s' = (find s)(session_id x \<mapsto> x)"
  | e where "create x s = Inl e"
proof (cases "find s (session_id x)")
  case None
  then show ?thesis using create_free [OF assms None] that(1) by blast
next
  case (Some y)
  then show ?thesis using create_taken [OF assms, of x] that(2) by blast
qed

lemma perform_valid:
  assumes "valid s"
  shows "valid (fst (perform create get save call s))"
proof (cases call)
  case (Call_create x)
  then show ?thesis by (cases rule: create_cases [OF assms, of x]) (simp_all add: perform_def assms)
next
  case (Call_save now x r)
  then show ?thesis by (cases rule: save_cases [OF assms, of x r now]) (simp_all add: perform_def assms)
qed (simp add: perform_def assms)

lemma perform_up_to_date:
  assumes "valid s" and "follows_protocol call" and "up_to_date x s"
  shows "up_to_date x (fst (perform create get save call s))"
proof (cases call)
  case (Call_create y)
  then show ?thesis
    by (cases rule: create_cases [OF assms(1), of y]) (use assms(3) in \<open>auto simp: perform_def up_to_date_def\<close>)
next
  case (Call_save now y r)
  obtain w where w: "find s (session_id x) = Some w" "revision x \<le> revision w" "revision x = revision w \<longrightarrow> x = w"
    using assms(3) by (auto simp: up_to_date_def)
  have rev: "revision y = r + 1" using assms(2) Call_save by simp
  show ?thesis
  proof (cases rule: save_cases [OF assms(1), of y r now])
    case (1 s' z)
    have state_after: "fst (perform create get save call s) = s'" using 1(3) Call_save by (simp add: perform_def)
    show ?thesis
    proof (cases "session_id x = session_id y")
      case True
      then have "revision w = r" using w(1) 1(1,2) by simp
      then show ?thesis using True w(2) rev unfolding up_to_date_def state_after 1(5) by simp
    next
      case False
      then show ?thesis using w unfolding up_to_date_def state_after 1(5) by simp
    qed
  next
    case (2 e)
    then show ?thesis using assms(3) Call_save by (simp add: perform_def)
  qed
qed (use assms in \<open>simp add: perform_def\<close>)

lemma perform_all_valid: "valid s \<Longrightarrow> valid (fst (perform_all (perform create get save) cs s))"
  by (induction cs arbitrary: s) (auto simp: Let_def split_def dest: perform_valid)

lemma perform_all_up_to_date:
  "valid s \<Longrightarrow> \<forall>c \<in> set cs. follows_protocol c \<Longrightarrow> up_to_date x s \<Longrightarrow>
     up_to_date x (fst (perform_all (perform create get save) cs s))"
  by (induction cs arbitrary: s) (auto simp: Let_def split_def perform_valid perform_up_to_date)

lemma read_up_to_date: "valid s \<Longrightarrow> get sid s = Inr x \<Longrightarrow> up_to_date x s \<and> session_id x = sid"
  using get_find [of s sid] find_id [of s sid] by (auto simp: up_to_date_def split: option.splits)

text \<open>
  A writer that read \<open>x\<close>, computed an update and saves it expecting the revision of \<open>x\<close>, while
  others made any calls of the protocol in between, overwrites nothing but \<open>x\<close> itself.
\<close>

lemma successful_save_replaces_what_was_read:
  assumes "valid s" and "get sid s = Inr x" and "\<forall>c \<in> set cs. follows_protocol c" and "session_id x' = sid"
    and "save now x' (revision x) (fst (perform_all (perform create get save) cs s)) = Inr s'"
  shows "get sid (fst (perform_all (perform create get save) cs s)) = Inr x
     \<and> get sid s' = Inr (x'\<lparr>ss_updated_at := now\<rparr>)"
proof -
  let ?t = "fst (perform_all (perform create get save) cs s)"
  have t: "valid ?t" using assms(1) by (rule perform_all_valid)
  have "up_to_date x ?t" and sid: "session_id x = sid"
    using perform_all_up_to_date [OF assms(1,3)] read_up_to_date [OF assms(1,2)] by blast+
  then obtain y where y: "find ?t sid = Some y" "revision x = revision y \<longrightarrow> x = y"
    by (auto simp: up_to_date_def)
  have "revision y = revision x"
    using save_stale [OF t, of x' y "revision x" now] assms(4,5) y(1) by auto
  then have "x = y" using y(2) by simp
  moreover obtain s'' where "save now x' (revision x) ?t = Inr s''" "valid s''"
      "find s'' = (find ?t)(session_id x' \<mapsto> x'\<lparr>ss_updated_at := now\<rparr>)"
    using save_current [OF t, of x' y "revision x" now] y(1) assms(4) \<open>revision y = revision x\<close> by auto
  ultimately show ?thesis using assms(4,5) get_find t y(1) by auto
qed

end

section \<open>The in-memory repository provides it\<close>

definition mem_valid :: "memory_store \<Rightarrow> bool" where
  "mem_valid st \<longleftrightarrow> (\<forall>(k, x) \<in> set st. session_id x = k)"

lemma mem_valid_update: "mem_valid st \<Longrightarrow> session_id x = k \<Longrightarrow> mem_valid (AList.update k x st)"
  by (induction st) (auto simp: mem_valid_def)

interpretation memory: session_repository mem_valid map_of mem_create mem_get mem_save
proof
  fix s :: memory_store and sid x
  show "mem_valid s \<Longrightarrow> map_of s sid = Some x \<Longrightarrow> session_id x = sid"
    by (auto simp: mem_valid_def dest: map_of_SomeD)
qed (auto simp: mem_get_def mem_create_def mem_save_def mem_valid_update update_conv' split: option.splits)

abbreviation memory_call :: "store_call \<Rightarrow> memory_store \<Rightarrow> memory_store \<times> store_answer" where
  "memory_call \<equiv> perform mem_create mem_get mem_save"

lemma mem_valid_Nil [simp]: "mem_valid []"
  by (simp add: mem_valid_def)

text \<open>
  C4. No update is lost: take any calls that bring the repository to a state, a session read
  there, and any further calls of writers that save revision \<open>r + 1\<close> expecting \<open>r\<close>. If a save
  that expects the revision of the session read then succeeds, the repository still held
  exactly that session, so the save overwrites nothing that its writer has not seen.
\<close>

theorem no_lost_update:
  assumes "s = fst (perform_all memory_call earlier [])" and "mem_get sid s = Inr x"
    and "\<forall>c \<in> set between. follows_protocol c" and "session_id x' = sid"
    and "mem_save now x' (revision x) (fst (perform_all memory_call between s)) = Inr s'"
  shows "mem_get sid (fst (perform_all memory_call between s)) = Inr x"
proof -
  have "mem_valid s" using assms(1) memory.perform_all_valid by simp
  from memory.successful_save_replaces_what_was_read [OF this assms(2-5)] show ?thesis by blast
qed

definition blank_session :: "int \<Rightarrow> plan_session" where
  "blank_session r = \<lparr>session_id = ''s'', lifecycle_thread_id = ''lifecycle:s'', intake_thread_id = None,
     ss_status = Awaiting_candidate_selection, tenant_id = ''local'', user_id = ''demo'', revision = r,
     snapshot = None, active_version_id = None, pending_preview_id = None, versions = [], previews = [],
     locks = [], receipts = [], monitor = new_monitor, weather_snapshots = [], weather_risks = [],
     weather_events = [], external_interrupt = None, ss_created_at = \<lparr>dt_local = 0, dt_tz = 0\<rparr>,
     ss_updated_at = \<lparr>dt_local = 0, dt_tz = 0\<rparr>\<rparr>"

theorem no_lost_update_witness:
  "mem_get ''s'' (fst (perform_all memory_call [Call_save (ss_created_at (blank_session 0)) (blank_session 6) 5, Call_get ''s'']
     [(''s'', blank_session 0)])) = Inr (blank_session 0)"
  by (rule no_lost_update [where earlier = "[Call_create (blank_session 0)]" and x' = "blank_session 1"
        and now = "ss_created_at (blank_session 0)" and s' = "[(''s'', blank_session 1)]"])
    (simp_all add: perform_def mem_create_def mem_get_def mem_save_def blank_session_def)

section \<open>SQLite implements the in-memory repository\<close>










end
