(* ===== verification/CritiqueEvidence.thy ===== *)
theory CritiqueEvidence
  imports LifecycleEdit
begin

text \<open>
  \<open>critique/evidence.py\<close>: the bounded evidence digests that a soft critic is shown. The length
  of the JSON text of a list of evidence items, which contains floats, is the parameter
  \<open>chars\<close>. Proved: the digests stay within the budgets on candidates, items and characters,
  and each shows a nonempty prefix of its candidate's facts.
\<close>

record evidence_budget =
  max_candidates :: int
  max_items_per_candidate :: int
  max_input_chars :: int

definition default_evidence_budget :: evidence_budget where
  "default_evidence_budget = \<lparr>max_candidates = 3, max_items_per_candidate = 48, max_input_chars = 24000\<rparr>"

definition evidence_budget_post_init :: "evidence_budget \<Rightarrow> (string, evidence_budget) result" where
  "evidence_budget_post_init b =
     (if max_candidates b < 1 \<or> max_items_per_candidate b < 1
        then Inl ''evidence count budgets must be positive''
      else if max_input_chars b < 1 then Inl ''max_input_chars must be positive''
      else Inr b)"

fun evidence_kind_value :: "evidence_kind \<Rightarrow> string" where
  "evidence_kind_value E_trip_preference = ''trip_preference''"
| "evidence_kind_value E_candidate_metric = ''candidate_metric''"
| "evidence_kind_value E_day_metric = ''day_metric''"
| "evidence_kind_value E_poi_fact = ''poi_fact''"
| "evidence_kind_value E_schedule_fact = ''schedule_fact''"
| "evidence_kind_value E_route_fact = ''route_fact''"
| "evidence_kind_value E_assumption = ''assumption''"

fun pace_value :: "pace \<Rightarrow> string" where
  "pace_value Pace_relaxed = ''relaxed''"
| "pace_value Pace_balanced = ''balanced''"
| "pace_value Pace_intensive = ''intensive''"

fun value_source_value :: "value_source \<Rightarrow> string" where
  "value_source_value Provider = ''provider''"
| "value_source_value Derived = ''derived''"
| "value_source_value Default = ''default''"
| "value_source_value User_confirmed = ''user_confirmed''"

section \<open>The facts of a candidate\<close>

definition make_evidence_id ::
  "(string \<Rightarrow> string) \<Rightarrow> string \<Rightarrow> evidence_kind \<Rightarrow> py_date option \<Rightarrow> string option \<Rightarrow> string \<Rightarrow> string" where
  "make_evidence_id hash cid kind d entity f =
     ''ev_'' @ take 20 (hash (join ''|'' [cid, evidence_kind_value kind,
       (case d of None \<Rightarrow> [] | Some x \<Rightarrow> isoformat x), (case entity of None \<Rightarrow> [] | Some x \<Rightarrow> x), f]))"

definition make_evidence ::
  "(string \<Rightarrow> string) \<Rightarrow> string \<Rightarrow> evidence_kind \<Rightarrow> py_date option \<Rightarrow> string option \<Rightarrow> string \<Rightarrow> rat
     \<Rightarrow> string \<times> evidence_value \<Rightarrow> evidence_item" where
  "make_evidence hash cid kind d entity source conf fv =
     \<lparr>e_id = make_evidence_id hash cid kind d entity (fst fv), e_kind = kind, e_candidate_id = cid,
      e_day = d, e_entity_id = entity, e_field = fst fv, e_value = snd fv, e_source = source,
      e_confidence = conf\<rparr>"

text \<open>\<open>",".join(xs) or default\<close>.\<close>

definition joined_or :: "string \<Rightarrow> string list \<Rightarrow> evidence_value" where
  "joined_or empty_text xs = V_str (if join '','' xs = [] then empty_text else join '','' xs)"

definition preference_facts :: "trip_spec \<Rightarrow> (string \<times> evidence_value) list" where
  "preference_facts trip = [(''pace'', V_str (pace_value (trip_pace trip))),
     (''interests'', joined_or ''none'' (interests trip)), (''avoid'', joined_or ''none'' (avoid trip)),
     (''must_visit'', joined_or ''none'' (must_visit trip)),
     (''needs_frequent_rest'', V_bool (needs_frequent_rest (mobility trip))),
     (''max_daily_activity_minutes'', V_int (max_daily_activity_minutes (mobility trip))),
     (''max_daily_walking_meters'', V_int (max_daily_walking_meters (mobility trip)))]"

definition metric_facts :: "plan_metrics \<Rightarrow> (string \<times> evidence_value) list" where
  "metric_facts m = [(''preference_match'', V_float (preference_match m)),
     (''diversity'', V_float (diversity m)), (''fatigue_score'', V_float (m_fatigue_score m)),
     (''data_confidence'', V_float (m_data_confidence m)),
     (''total_travel_minutes'', V_int (m_total_travel_minutes m)),
     (''walking_distance_meters'', V_int (m_walking_distance_meters m)),
     (''known_estimated_cost'', V_float (m_known_estimated_cost m)),
     (''unknown_cost_item_count'', V_int (m_unknown_cost_item_count m))]"

definition minutes_between :: "datetime \<Rightarrow> datetime \<Rightarrow> int" where
  "minutes_between a b = (instant b - instant a) div minute"

definition day_facts :: "day_plan \<Rightarrow> (string \<times> evidence_value) list" where
  "day_facts d = [(''activity_count'', V_int (int (length (items d)))),
     (''activity_minutes'', V_int (sum_list (map (\<lambda>i. minutes_between (start_at i) (end_at i)) (items d)))),
     (''occupied_span_minutes'', V_int (if items d = [] then 0
        else minutes_between (start_at (hd (items d))) (end_at (last (items d))))),
     (''total_travel_minutes'', V_int (total_travel_minutes d)),
     (''walking_distance_meters'', V_int (walking_distance_meters d)),
     (''fatigue_score'', V_float (fatigue_score d))]"

text \<open>The scheduled items with a place: day, position and item.\<close>

definition placed_items :: "plan_candidate \<Rightarrow> (py_date \<times> nat \<times> plan_item) list" where
  "placed_items c = concat (map (\<lambda>d. map (\<lambda>(k, i). (day_date d, k, i))
     (filter (\<lambda>(k, i). item_poi_id i \<noteq> None) (enumerate 0 (items d)))) (days c))"

definition schedule_facts :: "(string \<Rightarrow> string) \<Rightarrow> trip_spec \<Rightarrow> string \<Rightarrow> py_date \<times> nat \<times> plan_item \<Rightarrow> evidence_item list" where
  "schedule_facts hash trip cid p = (case p of (d, k, i) \<Rightarrow>
     map (make_evidence hash cid E_schedule_fact (Some d) (item_poi_id i) ''candidate_schedule'' 1)
       [(''name'', V_str (item_name i)), (''must_visit'', V_bool (is_must_visit (item_name i) trip))])"

definition schedule_details :: "(string \<Rightarrow> string) \<Rightarrow> string \<Rightarrow> py_date \<times> nat \<times> plan_item \<Rightarrow> evidence_item list" where
  "schedule_details hash cid p = (case p of (d, k, i) \<Rightarrow>
     map (make_evidence hash cid E_schedule_fact (Some d) (item_poi_id i) ''candidate_schedule'' 1)
       [(''position'', V_int (int k)), (''start_at'', V_str (dt_isoformat (start_at i))),
        (''end_at'', V_str (dt_isoformat (end_at i)))])"

definition route_facts :: "(string \<Rightarrow> string) \<Rightarrow> string \<Rightarrow> py_date \<times> nat \<times> plan_item \<Rightarrow> evidence_item list" where
  "route_facts hash cid p = (case p of (d, k, i) \<Rightarrow>
     map (make_evidence hash cid E_route_fact (Some d) (item_poi_id i) ''route_gateway'' 1)
       [(''travel_minutes_from_previous'', V_int (travel_from_previous_minutes i)),
        (''distance_meters_from_previous'', V_int (distance_from_previous_meters i))])"

definition poi_fact_items ::
  "(string \<Rightarrow> string) \<Rightarrow> string \<Rightarrow> (string \<times> planning_poi) list \<Rightarrow> py_date \<times> nat \<times> plan_item \<Rightarrow> evidence_item list" where
  "poi_fact_items hash cid pois p = (case p of (d, k, i) \<Rightarrow>
     (case map_of pois (the (item_poi_id i)) of
        None \<Rightarrow> []
      | Some poi \<Rightarrow> map (make_evidence hash cid E_poi_fact None (Some (poi_id_of poi)) (f_provider (facts poi)) (data_confidence poi))
          [(''categories'', joined_or ''unknown'' (f_categories (facts poi))),
           (''duration_minutes'', V_int (duration_minutes poi)),
           (''data_confidence'', V_float (data_confidence poi))]))"

definition assumption_item :: "(string \<Rightarrow> string) \<Rightarrow> string \<Rightarrow> planning_assumption \<Rightarrow> evidence_item" where
  "assumption_item hash cid a =
     make_evidence hash cid E_assumption None None (value_source_value (a_source a)) (1 / 2) (a_field a, V_str (a_value a))"

definition candidate_evidence ::
  "(string \<Rightarrow> string) \<Rightarrow> trip_spec \<Rightarrow> plan_candidate \<Rightarrow> planning_poi list \<Rightarrow> evidence_item list" where
  "candidate_evidence hash trip c pois =
     (let cid = cand_id c; placed = placed_items c; by_id = dict_of (map (\<lambda>p. (poi_id_of p, p)) pois)
      in map (make_evidence hash cid E_trip_preference None None ''normalized'' 1) (preference_facts trip)
       @ map (make_evidence hash cid E_candidate_metric None None ''normalized'' 1) (metric_facts (metrics c))
       @ concat (map (\<lambda>d. map (make_evidence hash cid E_day_metric (Some (day_date d)) None ''normalized'' 1) (day_facts d)) (days c))
       @ concat (map (schedule_facts hash trip cid) placed)
       @ concat (map (poi_fact_items hash cid by_id) placed)
       @ concat (map (schedule_details hash cid) placed)
       @ concat (map (route_facts hash cid) placed)
       @ map (assumption_item hash cid) (cand_assumptions c))"

section \<open>Digests\<close>

text \<open>The loop over the items of a candidate: the selected prefix, and whether it was cut short.\<close>

fun select_evidence ::
  "(evidence_item list \<Rightarrow> int) \<Rightarrow> int \<Rightarrow> evidence_item list \<Rightarrow> evidence_item list \<Rightarrow> evidence_item list \<times> bool" where
  "select_evidence chars remaining selected [] = (selected, False)"
| "select_evidence chars remaining selected (e # es) =
     (if chars (selected @ [e]) > remaining then (selected, True)
      else select_evidence chars remaining (selected @ [e]) es)"

fun digest_loop ::
  "(string \<Rightarrow> string) \<Rightarrow> (evidence_item list \<Rightarrow> int) \<Rightarrow> trip_spec \<Rightarrow> planning_poi list \<Rightarrow> evidence_budget \<Rightarrow> int
     \<Rightarrow> plan_candidate list \<Rightarrow> evidence_digest list" where
  "digest_loop hash chars trip pois b remaining [] = []"
| "digest_loop hash chars trip pois b remaining (c # cs) =
     (let all_facts = candidate_evidence hash trip c pois;
          (selected, stopped) = select_evidence chars remaining [] (take (nat (max_items_per_candidate b)) all_facts)
      in if selected = [] then []
         else \<lparr>ed_candidate_id = cand_id c, ed_style = cand_style c, evidence = selected,
                ed_input_chars = chars selected,
                ed_truncated = (stopped \<or> int (length all_facts) > max_items_per_candidate b)\<rparr>
              # digest_loop hash chars trip pois b (remaining - chars selected) cs)"

definition build_evidence_digests ::
  "(string \<Rightarrow> string) \<Rightarrow> (evidence_item list \<Rightarrow> int) \<Rightarrow> trip_spec \<Rightarrow> plan_candidate list \<Rightarrow> planning_poi list
     \<Rightarrow> evidence_budget \<Rightarrow> evidence_digest list" where
  "build_evidence_digests hash chars trip cs pois b =
     digest_loop hash chars trip pois b (max_input_chars b) (take (nat (max_candidates b)) cs)"

section \<open>Within the budget\<close>

lemma select_evidence_prefix:
  assumes "select_evidence chars remaining sel es = (sel', stopped)"
  shows "\<exists>k \<le> length es. sel' = sel @ take k es"
    and "sel' = sel \<or> chars sel' \<le> remaining"
    and "\<not> stopped \<Longrightarrow> sel' = sel @ es"
proof -
  have "(\<exists>k \<le> length es. sel' = sel @ take k es) \<and> (sel' = sel \<or> chars sel' \<le> remaining) \<and> (\<not> stopped \<longrightarrow> sel' = sel @ es)"
    using assms
  proof (induction es arbitrary: sel)
    case (Cons e es)
    show ?case
    proof (cases "chars (sel @ [e]) > remaining")
      case False
      then have "select_evidence chars remaining (sel @ [e]) es = (sel', stopped)" using Cons.prems by simp
      from Cons.IH [OF this] obtain k where "k \<le> length es" "sel' = (sel @ [e]) @ take k es"
          "sel' = sel @ [e] \<or> chars sel' \<le> remaining" "\<not> stopped \<longrightarrow> sel' = (sel @ [e]) @ es"
        by blast
      then show ?thesis using False by (auto intro!: exI [of _ "Suc k"])
    qed (use Cons.prems in \<open>auto intro: exI [of _ 0]\<close>)
  qed simp
  then show "\<exists>k \<le> length es. sel' = sel @ take k es" "sel' = sel \<or> chars sel' \<le> remaining" "\<not> stopped \<Longrightarrow> sel' = sel @ es"
    by blast+
qed

definition shows_prefix_of :: "evidence_digest \<Rightarrow> evidence_item list \<Rightarrow> nat \<Rightarrow> bool" where
  "shows_prefix_of d all_facts n \<longleftrightarrow> evidence d \<noteq> [] \<and> length (evidence d) \<le> n \<and>
     (\<exists>k. evidence d = take k all_facts) \<and> (ed_truncated d \<or> evidence d = all_facts)"

lemma digest_loop_ok:
  "0 \<le> remaining \<Longrightarrow>
     sum_list (map ed_input_chars (digest_loop hash chars trip pois b remaining cs)) \<le> remaining \<and>
     (\<exists>m \<le> length cs. list_all2 (\<lambda>d c. ed_candidate_id d = cand_id c \<and>
        shows_prefix_of d (candidate_evidence hash trip c pois) (nat (max_items_per_candidate b)))
        (digest_loop hash chars trip pois b remaining cs) (take m cs))"
proof (induction cs arbitrary: remaining)
  case (Cons c cs)
  let ?n = "nat (max_items_per_candidate b)"
  let ?facts = "candidate_evidence hash trip c pois"
  obtain sel stopped where sel: "select_evidence chars remaining [] (take ?n ?facts) = (sel, stopped)" by force
  show ?case
  proof (cases "sel = []")
    case True
    then show ?thesis using sel Cons.prems by (auto intro!: exI [of _ 0])
  next
    case False
    note pre = select_evidence_prefix [OF sel]
    have room: "chars sel \<le> remaining" using pre(2) False by simp
    obtain k where k: "k \<le> length (take ?n ?facts)" "sel = take k (take ?n ?facts)" using pre(1) by auto
    let ?d = "\<lparr>ed_candidate_id = cand_id c, ed_style = cand_style c, evidence = sel, ed_input_chars = chars sel,
                ed_truncated = (stopped \<or> int (length ?facts) > max_items_per_candidate b)\<rparr>"
    have all: "sel = ?facts" if "\<not> stopped" "int (length ?facts) \<le> max_items_per_candidate b"
      using pre(3) that by (simp add: le_nat_iff)
    have "\<exists>k. sel = take k ?facts" using k(2) by (metis take_take)
    then have "shows_prefix_of ?d ?facts ?n"
      using False k all
      by (cases "int (length ?facts) \<le> max_items_per_candidate b"; cases stopped) (auto simp: shows_prefix_of_def)
    moreover obtain m where "m \<le> length cs" "list_all2 (\<lambda>d c. ed_candidate_id d = cand_id c \<and>
        shows_prefix_of d (candidate_evidence hash trip c pois) ?n)
        (digest_loop hash chars trip pois b (remaining - chars sel) cs) (take m cs)"
      using Cons.IH [of "remaining - chars sel"] room by auto
    moreover have "sum_list (map ed_input_chars (digest_loop hash chars trip pois b (remaining - chars sel) cs)) \<le> remaining - chars sel"
      using Cons.IH [of "remaining - chars sel"] room by auto
    ultimately show ?thesis using sel False by (auto intro!: exI [of _ "Suc m"])
  qed
qed simp

text \<open>
  The evidence digests respect their budget: for a valid budget there are at most
  \<open>max_candidates\<close> digests, of the first candidates in order; each shows a nonempty prefix of
  its candidate's facts with at most \<open>max_items_per_candidate\<close> items, and all of them unless
  it is marked truncated; and together they have at most \<open>max_input_chars\<close> characters.
\<close>

lemma evidence_digests_within_budget:
  assumes "evidence_budget_post_init b = Inr b"
  shows "sum_list (map ed_input_chars (build_evidence_digests hash chars trip cs pois b)) \<le> max_input_chars b \<and>
     (\<exists>m \<le> nat (max_candidates b). list_all2 (\<lambda>d c. ed_candidate_id d = cand_id c \<and>
        shows_prefix_of d (candidate_evidence hash trip c pois) (nat (max_items_per_candidate b)))
        (build_evidence_digests hash chars trip cs pois b) (take m cs))"
proof -
  have "0 \<le> max_input_chars b" using assms by (auto simp: evidence_budget_post_init_def split: if_splits)
  from digest_loop_ok [OF this, of hash chars trip pois b "take (nat (max_candidates b)) cs"]
  show ?thesis by (auto simp: build_evidence_digests_def min_def split: if_splits)
qed

lemma evidence_digests_within_budget_witness:
  "sum_list (map ed_input_chars (build_evidence_digests (\<lambda>s. s) (\<lambda>es. 100 * int (length es)) sample_trip [sample_plan]
     sample_pois default_evidence_budget)) \<le> 24000"
  using evidence_digests_within_budget [of default_evidence_budget "\<lambda>s. s" "\<lambda>es. 100 * int (length es)" sample_trip "[sample_plan]" sample_pois]
  by (simp add: evidence_budget_post_init_def default_evidence_budget_def)

end
