(* ===== verification/LifecycleSession.thy ===== *)
theory LifecycleSession
  imports SessionStore WeatherPlan PlanValidator CritiqueEvidence
begin

text \<open>
  What the lifecycle nodes do to a session record and show of it: \<open>weather/persistence.py\<close>
  (recording an observation, a failed refresh, the view of the weather), the guards and
  receipts of \<open>lifecycle/workflow.py\<close>, and the response built from a session.
\<close>

section \<open>Recording the weather\<close>

definition observe_monitor ::
  "weather_snapshot \<Rightarrow> refresh_outcome \<Rightarrow> weather_monitor \<Rightarrow> weather_monitor" where
  "observe_monitor snap outcome m = m\<lparr>
     previous_snapshot_id := (if latest_snapshot_id m \<noteq> Some (ws_id snap) then latest_snapshot_id m
                              else previous_snapshot_id m),
     latest_snapshot_id := Some (ws_id snap), mon_location := Some (ws_location snap),
     availability := Av_fresh, last_attempt_at := Some (ws_fetched_at snap),
     last_success_at := Some (ws_fetched_at snap), last_safe_error_code := None,
     last_outcome := Some outcome\<rparr>"

definition retained_ids :: "(string \<times> weather_snapshot) list \<Rightarrow> string list" where
  "retained_ids snaps = map ws_id (take 2 (sort_key_reverse (instant \<circ> ws_fetched_at) (map snd snaps)))"

definition keep_keys :: "string list \<Rightarrow> (string \<times> 'a) list \<Rightarrow> (string \<times> 'a) list" where
  "keep_keys ks = filter (\<lambda>(k, v). k \<in> set ks)"

definition store_snapshot ::
  "weather_snapshot \<Rightarrow> daily_risk list \<Rightarrow> plan_session \<Rightarrow> plan_session" where
  "store_snapshot snap risks s =
     (let snaps = AList.update (ws_id snap) snap (weather_snapshots s);
          ids = retained_ids snaps
      in s\<lparr>weather_snapshots := keep_keys ids snaps,
           weather_risks := keep_keys ids (AList.update (ws_id snap) risks (weather_risks s)),
           monitor := (monitor s)\<lparr>previous_snapshot_id :=
             (case previous_snapshot_id (monitor s) of
                None \<Rightarrow> None | Some x \<Rightarrow> if x \<in> set ids then Some x else None)\<rparr>\<rparr>)"

definition note_uncovered :: "weather_snapshot \<Rightarrow> plan_session \<Rightarrow> plan_session" where
  "note_uncovered snap s =
     (case snapshot s of
        None \<Rightarrow> s
      | Some ps \<Rightarrow> s\<lparr>monitor := (monitor s)\<lparr>uncovered_dates :=
          filter (\<lambda>d. d \<notin> set (map w_date (ws_days snap)))
            [start_date (ps_trip ps)..end_date (ps_trip ps)]\<rparr>\<rparr>)"

definition new_receipt :: "change_event \<Rightarrow> weather_event_status \<Rightarrow> weather_receipt" where
  "new_receipt e evst = \<lparr>wrc_event_id = ev_id e, wrc_fingerprint = ev_fingerprint e, wrc_status = evst,
     wrc_preview_id = None, wrc_version_id = None\<rparr>"

definition store_event ::
  "change_event option \<Rightarrow> weather_event_status option \<Rightarrow> plan_session \<Rightarrow> plan_session" where
  "store_event event evst s =
     (case event of
        None \<Rightarrow> s
      | Some e \<Rightarrow>
          (let m = (monitor s)\<lparr>latest_event_id := Some (ev_id e)\<rparr>
           in s\<lparr>weather_events := AList.update (ev_id e) e (weather_events s),
                monitor := (case evst of
                  None \<Rightarrow> m
                | Some st \<Rightarrow> m\<lparr>event_receipts := AList.update (ev_id e) (new_receipt e st) (event_receipts m),
                      attention_event_id := (if st = Ev_needs_user_attention then Some (ev_id e) else None)\<rparr>)\<rparr>))"

definition trim_events :: "int \<Rightarrow> plan_session \<Rightarrow> plan_session" where
  "trim_events max_events s =
     (if int (length (weather_events s)) > max_events then
        (let ids = map ev_id (py_take max_events
                     (sort_key_reverse (instant \<circ> ev_created_at) (map snd (weather_events s))))
         in s\<lparr>weather_events := keep_keys ids (weather_events s),
              monitor := (monitor s)\<lparr>event_receipts := keep_keys ids (event_receipts (monitor s))\<rparr>\<rparr>)
      else s)"

definition persist_weather_observation ::
  "weather_snapshot \<Rightarrow> daily_risk list \<Rightarrow> refresh_outcome \<Rightarrow> change_event option \<Rightarrow> weather_event_status option
     \<Rightarrow> int \<Rightarrow> plan_session \<Rightarrow> plan_session" where
  "persist_weather_observation snap risks outcome event evst max_events s =
     trim_events max_events (store_event event evst (note_uncovered snap (store_snapshot snap risks
       (s\<lparr>monitor := observe_monitor snap outcome (monitor s)\<rparr>))))"

definition mark_weather_failed :: "string \<Rightarrow> datetime \<Rightarrow> plan_session \<Rightarrow> plan_session" where
  "mark_weather_failed code now s = s\<lparr>monitor := (monitor s)\<lparr>last_attempt_at := Some now,
     last_safe_error_code := Some code, last_outcome := Some Out_provider_failed,
     availability := Av_unavailable\<rparr>\<rparr>"

text \<open>\<open>d.get(key) if key else None\<close>.\<close>

definition get_given :: "string option \<Rightarrow> (string \<times> 'a) list \<Rightarrow> 'a option" where
  "get_given k d = (if given k then map_of d (the k) else None)"

definition view_availability ::
  "int \<Rightarrow> datetime \<Rightarrow> weather_monitor \<Rightarrow> weather_snapshot \<Rightarrow> weather_availability" where
  "view_availability stale_max_seconds now m latest =
     (let stale_until = instant (ws_fetched_at latest) + stale_max_seconds * second
      in if last_outcome m = Some Out_provider_failed then
           (if instant now \<le> stale_until then Av_stale else Av_unavailable)
         else if instant now \<le> instant (ws_expires_at latest) then Av_fresh
         else if instant now \<le> stale_until then Av_stale
         else Av_unavailable)"

definition weather_view :: "int \<Rightarrow> datetime \<Rightarrow> plan_session \<Rightarrow> weather_state_view" where
  "weather_view stale_max_seconds now s =
     (let m = monitor s; latest = get_given (latest_snapshot_id m) (weather_snapshots s)
      in \<lparr>view_monitor = (case latest of None \<Rightarrow> m
              | Some l \<Rightarrow> m\<lparr>availability := view_availability stale_max_seconds now m l\<rparr>),
          view_snapshot = latest,
          view_risks = (case latest of None \<Rightarrow> []
              | Some l \<Rightarrow> (case map_of (weather_risks s) (ws_id l) of None \<Rightarrow> [] | Some rs \<Rightarrow> rs)),
          view_event = get_given (latest_event_id m) (weather_events s)\<rparr>)"

definition find_event_by_fingerprint :: "plan_session \<Rightarrow> string \<Rightarrow> change_event option" where
  "find_event_by_fingerprint s fp = List.find (\<lambda>e. ev_fingerprint e = fp) (map snd (weather_events s))"

section \<open>Guards and receipts\<close>

definition ensure_expected :: "plan_session \<Rightarrow> resume_request \<Rightarrow> (lifecycle_error, unit) result" where
  "ensure_expected s r =
     (if expected_revision r \<noteq> None \<and> expected_revision r \<noteq> Some (revision s)
        then Inl (Conflict (session_id s) ''stale_revision'')
      else if expected_version r \<noteq> None \<and> expected_version r \<noteq> active_version_id s
        then Inl (Conflict (session_id s) ''stale_version'')
      else Inr ())"

definition active_version :: "plan_session \<Rightarrow> (lifecycle_error, plan_version) result" where
  "active_version s =
     (case active_version_id s of
        None \<Rightarrow> Inl (Action_error (session_id s) ''plan_not_selected'')
      | Some v \<Rightarrow> (case map_of (versions s) v of None \<Rightarrow> Inl (Key_error v) | Some pv \<Rightarrow> Inr pv))"

definition receipt ::
  "resume_request \<Rightarrow> int \<Rightarrow> string option \<Rightarrow> string option \<Rightarrow> string option \<Rightarrow> action_receipt" where
  "receipt r rv version preview event = \<lparr>rc_request_id = request_id r,
     action_kind = kind_of_action (action r), resulting_revision = rv, resulting_version_id = version,
     resulting_preview_id = preview, resulting_event_id = event\<rparr>"

text \<open>
  Every node commits its work in the same way: it bumps the revision and files a receipt under
  the id of the request, then saves the session.
\<close>

definition commit ::
  "resume_request \<Rightarrow> string option \<Rightarrow> string option \<Rightarrow> string option \<Rightarrow> plan_session \<Rightarrow> plan_session" where
  "commit r version preview event s =
     s\<lparr>revision := revision s + 1,
       receipts := AList.update (request_id r) (receipt r (revision s + 1) version preview event) (receipts s)\<rparr>"

definition approval_hash :: "hashing \<Rightarrow> string \<Rightarrow> string" where
  "approval_hash h token = sha256 h token"

section \<open>Responses\<close>

definition allowed_actions :: "plan_session \<Rightarrow> string list" where
  "allowed_actions s =
     (if ss_status s = Awaiting_candidate_selection then [''accept_recommendation'', ''select_candidate'']
      else if ss_status s = Awaiting_change_approval then [''approve_preview'', ''reject_preview'']
      else if ss_status s = Needs_requirement_clarification then [''clarify_requirement'']
      else if ss_status s = Needs_edit_clarification then [''clarify_edit'']
      else [''lock'', ''unlock'', ''edit'', ''edit_text'', ''refresh_weather'']
        @ (if attention_event_id (monitor s) \<noteq> None then [''dismiss_weather_event''] else []))"

definition response_from_session ::
  "int \<Rightarrow> datetime \<Rightarrow> (string \<times> interrupt_payload) option \<Rightarrow> lc_message option \<Rightarrow> plan_session \<Rightarrow> plan_response" where
  "response_from_session stale_max_seconds now interruption message s =
     \<lparr>rs_session_id = session_id s, rs_status = ss_status s, rs_revision = revision s,
      rs_active_version = get_given (active_version_id s) (versions s),
      rs_pending_preview = get_given (pending_preview_id s) (previews s),
      rs_candidates = (case snapshot s of None \<Rightarrow> [] | Some ps \<Rightarrow> ps_candidates ps),
      rs_locks = map snd (locks s), rs_allowed_actions = allowed_actions s,
      rs_interrupt = (case interruption of
          Some i \<Rightarrow> Some i
        | None \<Rightarrow> map_option (\<lambda>(k, j). (k, External_payload j)) (external_interrupt s)),
      rs_weather = weather_view stale_max_seconds now s, rs_message = message\<rparr>"

end
