(* ===== verification/LifecycleNodes.thy ===== *)
theory LifecycleNodes
  imports LifecycleSession
begin

text \<open>
  The nodes of \<open>lifecycle/workflow.py\<close>. A node takes the request, the graph state and the session
  that the repository holds, and gives the session it saves, if any, together with the updated
  graph state or the error it raises (a failed weather refresh saves and then raises). The
  gateways that \<open>build_lifecycle_workflow\<close> receives are the record \<open>services\<close>, its other
  arguments the record \<open>config\<close>; the time and the secret token are among the services.
\<close>

section \<open>Configuration, services and graph state\<close>

record config =
  cf_hash :: hashing
  cf_chars :: "evidence_item list \<Rightarrow> int"
  cf_metres :: "coordinate \<Rightarrow> coordinate \<Rightarrow> int"
  cf_routes :: route_settings
  cf_poi_limit :: int
  cf_defaults :: unknown_fact_policy
  cf_critic :: critic_policy
  cf_evidence :: evidence_budget
  cf_max_days :: int
  cf_max_versions :: int
  cf_max_events :: int
  cf_max_searches :: int
  cf_max_alternatives :: int
  cf_min_confidence :: rat

datatype critic_answer = Critic_result "soft_critique list" critic_summary | Critic_over_budget | Critic_down

record weather_gateway =
  wg_locate :: "string \<Rightarrow> weather_location tool_result"
  wg_forecast :: "weather_location \<Rightarrow> py_date \<Rightarrow> py_date \<Rightarrow> weather_forecast tool_result"

record services =
  sv_search :: "poi_search_query list \<Rightarrow> poi_facts list tool_result list"
  sv_routes :: "route_query list \<Rightarrow> (string \<times> route_result tool_result) list"
  sv_parse :: "edit_model_input \<Rightarrow> (lifecycle_error, edit_patch \<times> edit_summary) result"
  sv_critic :: "(critic_request \<Rightarrow> critic_answer) option"
  sv_weather :: "weather_gateway option"
  sv_token :: string
  sv_now :: datetime

datatype weather_decision = Dec_terminal | Dec_analyze | Dec_repair | Dec_local_replan

record lc_state =
  st_session_id :: string
  st_thread_id :: string
  st_status :: session_status
  st_resume_value :: "resume_request option"
  st_action :: "resume_request option"
  st_edit_patch :: "edit_patch option"
  st_edit_summary :: "edit_summary option"
  st_impact :: "impact_result option"
  st_location :: "weather_location option"
  st_snapshot :: "weather_snapshot option"
  st_risks :: "daily_risk list option"
  st_event :: "change_event option"
  st_weather_impact :: "weather_impact option"
  st_repair_plan :: "weather_repair_plan option"
  st_alternatives :: "planning_poi list option"
  st_decision :: "weather_decision option"
  st_round :: int
  st_token :: "string option"
  st_message :: "lc_message option"
  st_transitions :: nat

definition initial_lifecycle_state :: "plan_session \<Rightarrow> lc_state" where
  "initial_lifecycle_state s = \<lparr>st_session_id = session_id s, st_thread_id = lifecycle_thread_id s,
     st_status = ss_status s, st_resume_value = None, st_action = None, st_edit_patch = None,
     st_edit_summary = None, st_impact = None, st_location = None, st_snapshot = None, st_risks = None,
     st_event = None, st_weather_impact = None, st_repair_plan = None, st_alternatives = None,
     st_decision = None, st_round = 0, st_token = None, st_message = None, st_transitions = 0\<rparr>"

section \<open>Outcomes of a node\<close>

type_synonym outcome = "plan_session option \<times> (lifecycle_error, lc_state) result"

definition raises :: "lifecycle_error \<Rightarrow> outcome" where "raises e = (None, Inl e)"
definition yields :: "lc_state \<Rightarrow> outcome" where "yields st = (None, Inr st)"
definition saves :: "plan_session \<Rightarrow> lc_state \<Rightarrow> outcome" where "saves s st = (Some s, Inr st)"

definition attempt :: "(lifecycle_error, 'a) result \<Rightarrow> ('a \<Rightarrow> outcome) \<Rightarrow> outcome" where
  "attempt r f = (case r of Inl e \<Rightarrow> raises e | Inr x \<Rightarrow> f x)"

lemma attempt_simps [simp]: "attempt (Inl e) f = raises e" "attempt (Inr x) f = f x"
  by (simp_all add: attempt_def)

text \<open>\<open>assert x is not None\<close>, and the validation of a state entry.\<close>

definition asserted :: "'a option \<Rightarrow> (lifecycle_error, 'a) result" where
  "asserted x = (case x of None \<Rightarrow> Inl Assertion_failed | Some y \<Rightarrow> Inr y)"

definition validated :: "'a option \<Rightarrow> (lifecycle_error, 'a) result" where
  "validated x = (case x of None \<Rightarrow> Inl (Value_error ''validation error'') | Some y \<Rightarrow> Inr y)"

definition or_empty :: "'a list option \<Rightarrow> 'a list" where
  "or_empty xs = (case xs of None \<Rightarrow> [] | Some ys \<Rightarrow> ys)"

definition editable :: "session_status set" where
  "editable = {Active, Change_rejected, Requires_new_plan}"

section \<open>Waiting for the user and dispatching\<close>

definition interrupt_of :: "lc_state \<Rightarrow> plan_session \<Rightarrow> (lifecycle_error, interrupt_payload) result" where
  "interrupt_of st s =
     (case ss_status s of
        Awaiting_candidate_selection \<Rightarrow>
          bind_res (asserted (snapshot s)) (\<lambda>ps.
            Inr (Candidate_selection (ps_recommended ps) (map cand_id (ps_candidates ps)) (revision s)))
      | Awaiting_change_approval \<Rightarrow>
          (case pending_preview_id s of
             None \<Rightarrow> Inl (Key_error ''None'')
           | Some k \<Rightarrow> (case map_of (previews s) k of
               None \<Rightarrow> Inl (Key_error k)
             | Some p \<Rightarrow> Inr (Change_approval (preview_id p) (base_version_id p) (revision s) (st_token st)
                 (map isoformat (ir_affected_dates (pp_impact p)))
                 (map_option (\<lambda>t. (ct_source t, ct_event_id t)) (pp_trigger p)))))
      | Needs_edit_clarification \<Rightarrow>
          bind_res (active_version s) (\<lambda>v.
            Inr (Edit_clarification (st_round st) (edit_item_contexts (pv_candidate v)) (revision s)))
      | _ \<Rightarrow> Inr (Plan_change (active_version_id s) (revision s) (allowed_actions s)
               (attention_event_id (monitor s))))"

definition await_user_action :: "resume_request \<Rightarrow> lc_state \<Rightarrow> plan_session \<Rightarrow> outcome" where
  "await_user_action value st s =
     attempt (interrupt_of st s) (\<lambda>_. yields (st\<lparr>st_resume_value := Some value, st_status := ss_status s,
       st_transitions := st_transitions st + 1\<rparr>))"

definition dispatch_action :: "lc_state \<Rightarrow> (lifecycle_error, lc_state) result" where
  "dispatch_action st =
     (case st_resume_value st of
        None \<Rightarrow> Inl (Value_error ''lifecycle resume value must be an object'')
      | Some r \<Rightarrow> Inr (st\<lparr>st_action := Some r, st_resume_value := None, st_token := None, st_message := None,
          st_location := None, st_snapshot := None, st_risks := None, st_event := None,
          st_weather_impact := None, st_repair_plan := None, st_alternatives := None, st_decision := None\<rparr>))"

section \<open>Refreshing the weather\<close>

definition weather_terminal ::
  "config \<Rightarrow> resume_request \<Rightarrow> weather_snapshot \<Rightarrow> daily_risk list \<Rightarrow> refresh_outcome \<Rightarrow> change_event option
     \<Rightarrow> weather_event_status option \<Rightarrow> lc_message \<Rightarrow> lc_state \<Rightarrow> plan_session \<Rightarrow> outcome" where
  "weather_terminal cf r snap risks outcome event evst msg st s =
     saves (commit r None None (map_option ev_id event)
         ((persist_weather_observation snap risks outcome event evst (cf_max_events cf) s)\<lparr>ss_status := Active\<rparr>))
       (st\<lparr>st_status := Active, st_action := None, st_decision := Some Dec_terminal, st_message := Some msg\<rparr>)"

definition weather_failure :: "services \<Rightarrow> 'a tool_result \<Rightarrow> (tool_error \<Rightarrow> lifecycle_error) \<Rightarrow> plan_session \<Rightarrow> outcome" where
  "weather_failure sv res err s =
     (case tr_error res of
        None \<Rightarrow> raises Assertion_failed
      | Some e \<Rightarrow> (Some ((mark_weather_failed (te_code e) (sv_now sv) s)\<lparr>revision := revision s + 1\<rparr>), Inl (err e)))"

definition resolve_weather_location ::
  "config \<Rightarrow> services \<Rightarrow> resume_request \<Rightarrow> lc_state \<Rightarrow> plan_session \<Rightarrow> outcome" where
  "resolve_weather_location cf sv r st s =
     attempt (ensure_expected s r) (\<lambda>_.
       case sv_weather sv of
         None \<Rightarrow> raises (Action_error (session_id s) ''weather_not_configured'')
       | Some gw \<Rightarrow>
           if ss_status s \<notin> editable then
             raises (Conflict (session_id s) (if ss_status s = Awaiting_change_approval
                       then ''pending_preview_exists'' else ''invalid_lifecycle_state''))
           else attempt (active_version s) (\<lambda>_. attempt (asserted (snapshot s)) (\<lambda>ps.
             case mon_location (monitor s) of
               Some loc \<Rightarrow> yields (st\<lparr>st_location := Some loc, st_decision := None\<rparr>)
             | None \<Rightarrow>
                 (let res = wg_locate gw (destination (ps_trip ps))
                  in if tr_status res = Tool_failed then
                       weather_failure sv res (\<lambda>e. if te_code e = ''weather_location_unresolved''
                         then Action_error (session_id s) ''weather_location_unresolved''
                         else Weather_unavailable (session_id s)) s
                     else attempt (asserted (tr_data res))
                       (\<lambda>loc. yields (st\<lparr>st_location := Some loc, st_decision := None\<rparr>))))))"

definition fetch_weather_snapshot ::
  "config \<Rightarrow> services \<Rightarrow> resume_request \<Rightarrow> lc_state \<Rightarrow> plan_session \<Rightarrow> outcome" where
  "fetch_weather_snapshot cf sv r st s =
     attempt (ensure_expected s r) (\<lambda>_. attempt (asserted (sv_weather sv)) (\<lambda>gw.
     attempt (asserted (snapshot s)) (\<lambda>ps. attempt (validated (st_location st)) (\<lambda>loc.
       let res = wg_forecast gw loc (start_date (ps_trip ps)) (end_date (ps_trip ps))
       in if tr_status res = Tool_failed then weather_failure sv res (\<lambda>e. Weather_unavailable (session_id s)) s
          else attempt (asserted (tr_data res)) (\<lambda>forecast.
            let fetched = (case tr_fetched_at res of None \<Rightarrow> sv_now sv | Some t \<Rightarrow> t);
                expires = (case tr_expires_at res of None \<Rightarrow> fetched | Some t \<Rightarrow> t)
            in yields (st\<lparr>st_snapshot := Some (build_weather_snapshot (sha256 (cf_hash cf)) forecast fetched expires)\<rparr>))))))"

definition classify_weather_risks :: "config \<Rightarrow> lc_state \<Rightarrow> (lifecycle_error, lc_state) result" where
  "classify_weather_risks cf st =
     bind_res (validated (st_snapshot st)) (\<lambda>snap.
       Inr (st\<lparr>st_risks := Some (classify_forecast (sha256 (cf_hash cf)) (ws_days snap))\<rparr>))"

definition derive_weather_change ::
  "config \<Rightarrow> services \<Rightarrow> lc_state \<Rightarrow> plan_session \<Rightarrow> outcome" where
  "derive_weather_change cf sv st s =
     attempt (asserted (snapshot s)) (\<lambda>_. attempt (active_version s) (\<lambda>v.
     attempt (validated (st_snapshot st)) (\<lambda>snap.
       let prev = get_given (latest_snapshot_id (monitor s)) (weather_snapshots s);
           prev_risks = (case prev of None \<Rightarrow> [] | Some p \<Rightarrow> or_empty (map_of (weather_risks s) (ws_id p)))
       in yields (st\<lparr>st_event := derive_change_event (sha256 (cf_hash cf)) (session_id s) (version_id v) snap
            (or_empty (st_risks st)) prev prev_risks (map day_date (days (pv_candidate v))) (sv_now sv)\<rparr>))))"

definition deduplicate_weather_event ::
  "config \<Rightarrow> resume_request \<Rightarrow> lc_state \<Rightarrow> plan_session \<Rightarrow> outcome" where
  "deduplicate_weather_event cf r st s =
     attempt (ensure_expected s r) (\<lambda>_. attempt (validated (st_snapshot st)) (\<lambda>snap.
       let risks = or_empty (st_risks st)
       in case st_event st of
            None \<Rightarrow> weather_terminal cf r snap risks Out_no_change None None Msg_no_change st s
          | Some e \<Rightarrow>
              (case find_event_by_fingerprint s (ev_fingerprint e) of
                 Some old \<Rightarrow> weather_terminal cf r snap risks Out_duplicate (Some old) None Msg_duplicate_event st s
               | None \<Rightarrow>
                   if ev_kind e = Weather_recovered then
                     weather_terminal cf r snap risks Out_recovered (Some e) (Some Ev_no_plan_impact) Msg_recovered st s
                   else yields (st\<lparr>st_decision := Some Dec_analyze\<rparr>))))"

definition analyze_weather_change_impact ::
  "config \<Rightarrow> resume_request \<Rightarrow> lc_state \<Rightarrow> plan_session \<Rightarrow> outcome" where
  "analyze_weather_change_impact cf r st s =
     attempt (active_version s) (\<lambda>v. attempt (validated (st_snapshot st)) (\<lambda>snap.
     attempt (validated (st_event st)) (\<lambda>e.
       let risks = or_empty (st_risks st);
           impact = analyze_weather_impact e (pv_candidate v) (pv_pois v) risks (map snd (locks s)) (cf_max_days cf)
       in if wi_affected_items impact = [] \<and> \<not> wi_attention impact then
            weather_terminal cf r snap risks Out_no_plan_impact (Some e) (Some Ev_no_plan_impact) Msg_no_plan_impact st s
          else if wi_attention impact then
            weather_terminal cf r snap risks Out_needs_user_attention (Some e) (Some Ev_needs_user_attention) Msg_attention st s
          else yields (st\<lparr>st_weather_impact := Some impact, st_decision := Some Dec_repair\<rparr>))))"

definition build_weather_repair ::
  "config \<Rightarrow> services \<Rightarrow> resume_request \<Rightarrow> lc_state \<Rightarrow> plan_session \<Rightarrow> outcome" where
  "build_weather_repair cf sv r st s =
     attempt (ensure_expected s r) (\<lambda>_. attempt (asserted (snapshot s)) (\<lambda>ps.
     attempt (active_version s) (\<lambda>v. attempt (validated (st_snapshot st)) (\<lambda>snap.
     attempt (validated (st_event st)) (\<lambda>e. attempt (validated (st_weather_impact st)) (\<lambda>impact.
     attempt (resolve_indoor_alternatives (sv_search sv) (lifecycle_thread_id s) (cf_defaults cf) (ps_trip ps)
         (pv_candidate v) (pv_pois v) (cf_poi_limit cf) (cf_max_searches cf) (cf_max_alternatives cf)
         (cf_min_confidence cf)) (\<lambda>alternatives.
       let risks = or_empty (st_risks st)
       in case build_weather_repair_plan (cf_hash cf) (ev_id e) (version_id v) (ps_trip ps) (pv_candidate v) impact
                 risks alternatives (map snd (locks s)) of
            None \<Rightarrow> weather_terminal cf r snap risks Out_needs_user_attention (Some e)
                      (Some Ev_needs_user_attention) Msg_no_alternative st s
          | Some plan \<Rightarrow> yields (st\<lparr>st_repair_plan := Some plan, st_alternatives := Some alternatives,
              st_edit_patch := Some (repair_plan_to_edit_patch plan), st_decision := Some Dec_local_replan\<rparr>))))))))"

definition dismiss_weather_event :: "resume_request \<Rightarrow> lc_state \<Rightarrow> plan_session \<Rightarrow> outcome" where
  "dismiss_weather_event r st s =
     (case action r of
        Dismiss_weather_event eid \<Rightarrow>
          attempt (ensure_expected s r) (\<lambda>_.
            case (map_of (weather_events s) eid, map_of (event_receipts (monitor s)) eid) of
              (Some e, Some rc) \<Rightarrow>
                if wrc_status rc \<notin> {Ev_needs_user_attention, Ev_observed} then
                  raises (Conflict (session_id s) ''weather_event_already_resolved'')
                else saves (commit r None None (Some (ev_id e)) (s\<lparr>ss_status := Active,
                    monitor := (monitor s)\<lparr>event_receipts :=
                        AList.update eid (rc\<lparr>wrc_status := Ev_dismissed\<rparr>) (event_receipts (monitor s)),
                      attention_event_id := None\<rparr>\<rparr>))
                  (st\<lparr>st_status := Active, st_action := None, st_message := Some Msg_dismissed\<rparr>)
            | _ \<Rightarrow> raises (Action_error (session_id s) ''weather_event_not_found''))
      | _ \<Rightarrow> raises (Attribute_error ''event_id''))"

section \<open>Selecting a candidate and locking\<close>

definition candidate_choice :: "planning_snapshot \<Rightarrow> lifecycle_action \<Rightarrow> (lifecycle_error, string) result" where
  "candidate_choice ps a =
     (case a of
        Accept_recommendation \<Rightarrow> Inr (ps_recommended ps)
      | Select_candidate cid \<Rightarrow> Inr cid
      | _ \<Rightarrow> Inl (Attribute_error ''candidate_id''))"

definition first_version ::
  "config \<Rightarrow> services \<Rightarrow> resume_request \<Rightarrow> plan_session \<Rightarrow> planning_snapshot \<Rightarrow> string
     \<Rightarrow> (lifecycle_error, plan_version) result" where
  "first_version cf sv r s ps cid =
     (case List.find (\<lambda>c. cand_id c = cid) (ps_candidates ps) of
        None \<Rightarrow> Inl (Action_error (session_id s) ''unknown_candidate'')
      | Some c \<Rightarrow>
          if validation c = None \<or> map_option status (validation c) = Some Invalid
          then Inl (Action_error (session_id s) ''invalid_candidate'')
          else (case List.find (\<lambda>d. draft_id d = cid) (ps_drafts ps) of
                  None \<Rightarrow> Inl (Action_error (session_id s) ''missing_candidate_draft'')
                | Some d \<Rightarrow>
                    (let versioned = with_stable_item_ids (cf_hash cf) (session_id s) c
                     in Inr \<lparr>version_id = ''V1'', pv_number = 1, parent_version_id = None,
                       pv_request_id = request_id r, selected_candidate_id = cid, pv_candidate = versioned,
                       pv_draft = d, pv_pois = ps_pois ps, pv_routes = ps_routes ps,
                       pv_fingerprint = plan_fingerprint (cf_hash cf) versioned, pv_trigger = None,
                       pv_critic_status = ps_critic_status ps, pv_created_at = sv_now sv\<rparr>)))"

definition select_candidate ::
  "config \<Rightarrow> services \<Rightarrow> resume_request \<Rightarrow> lc_state \<Rightarrow> plan_session \<Rightarrow> outcome" where
  "select_candidate cf sv r st s =
     attempt (ensure_expected s r) (\<lambda>_.
       if ss_status s \<noteq> Awaiting_candidate_selection then raises (conflict (session_id s))
       else attempt (asserted (snapshot s)) (\<lambda>ps. attempt (candidate_choice ps (action r)) (\<lambda>cid.
         attempt (first_version cf sv r s ps cid) (\<lambda>v.
           saves (commit r (Some (version_id v)) None None (s\<lparr>versions := AList.update (version_id v) v (versions s),
               active_version_id := Some (version_id v), ss_status := Active\<rparr>))
             (st\<lparr>st_status := Active, st_action := None\<rparr>)))))"

definition lock_key :: "lock_kind \<Rightarrow> string \<Rightarrow> string" where
  "lock_key k x = lock_kind_value k @ '':'' @ x"

definition lock_fingerprint ::
  "hashing \<Rightarrow> string \<Rightarrow> plan_candidate \<Rightarrow> lock_kind \<Rightarrow> string \<Rightarrow> (lifecycle_error, string) result" where
  "lock_fingerprint h sid c k x =
     (case k of
        Lock_day \<Rightarrow> (case List.find (\<lambda>d. isoformat (day_date d) = x) (days c) of
            None \<Rightarrow> Inl (Action_error sid ''unknown_day'')
          | Some d \<Rightarrow> Inr (day_fingerprint h d))
      | Lock_item \<Rightarrow> (case List.find (\<lambda>(d, i). item_id i = Some x) (dated_items c) of
            None \<Rightarrow> Inl (Action_error sid ''unknown_item'')
          | Some (d, i) \<Rightarrow> Inr (item_fingerprint h i d)))"

definition changed_locks ::
  "config \<Rightarrow> services \<Rightarrow> resume_request \<Rightarrow> plan_session \<Rightarrow> plan_candidate
     \<Rightarrow> (lifecycle_error, (string \<times> plan_lock) list) result" where
  "changed_locks cf sv r s c =
     (case action r of
        Lock_action k x \<Rightarrow> bind_res (lock_fingerprint (cf_hash cf) (session_id s) c k x) (\<lambda>fp.
          Inr (AList.update (lock_key k x) \<lparr>lock_id = lock_key k x, lk_kind = k, lk_target = x,
            expected_fingerprint = fp, lk_created_by = request_id r, lk_created_at = sv_now sv\<rparr> (locks s)))
      | Unlock_action k x \<Rightarrow>
          if map_of (locks s) (lock_key k x) = None then Inl (Action_error (session_id s) ''lock_not_found'')
          else Inr (AList.delete (lock_key k x) (locks s))
      | _ \<Rightarrow> Inl (Attribute_error ''lock_kind''))"

definition change_lock ::
  "config \<Rightarrow> services \<Rightarrow> resume_request \<Rightarrow> lc_state \<Rightarrow> plan_session \<Rightarrow> outcome" where
  "change_lock cf sv r st s =
     attempt (ensure_expected s r) (\<lambda>_.
       if ss_status s \<notin> editable then raises (conflict (session_id s))
       else attempt (active_version s) (\<lambda>v. attempt (changed_locks cf sv r s (pv_candidate v)) (\<lambda>ls.
         saves (commit r None None None (s\<lparr>locks := ls, ss_status := Active\<rparr>))
           (st\<lparr>st_status := Active, st_action := None\<rparr>))))"

section \<open>Edits\<close>

definition parse_edit :: "services \<Rightarrow> resume_request \<Rightarrow> lc_state \<Rightarrow> plan_session \<Rightarrow> outcome" where
  "parse_edit sv r st s =
     attempt (ensure_expected s r) (\<lambda>_.
       if ss_status s \<notin> editable then raises (conflict (session_id s))
       else attempt (active_version s) (\<lambda>v.
         case action r of
           Structured_edit ops \<Rightarrow> yields (st\<lparr>st_edit_patch := Some ops, st_edit_summary := None\<rparr>)
         | Text_edit text \<Rightarrow>
             (case snapshot s of
                None \<Rightarrow> raises (Attribute_error ''trip'')
              | Some ps \<Rightarrow> attempt (sv_parse sv \<lparr>mi_text = text, mi_trip_start = start_date (ps_trip ps),
                    mi_trip_end = end_date (ps_trip ps), mi_items = edit_item_contexts (pv_candidate v)\<rparr>)
                  (\<lambda>(ops, summary). yields (st\<lparr>st_edit_patch := Some ops, st_edit_summary := Some summary\<rparr>)))
         | _ \<Rightarrow> raises (Attribute_error ''text'')))"

fun set_first_item :: "string \<Rightarrow> edit_patch \<Rightarrow> edit_patch option" where
  "set_first_item x [] = None"
| "set_first_item x (op # ops) =
     (if op_item_id op = None then Some (op\<lparr>op_item_id := Some x\<rparr> # ops)
      else map_option ((#) op) (set_first_item x ops))"

definition apply_edit_clarification :: "resume_request \<Rightarrow> lc_state \<Rightarrow> plan_session \<Rightarrow> outcome" where
  "apply_edit_clarification r st s =
     (case action r of
        Clarify_edit x \<Rightarrow>
          attempt (ensure_expected s r) (\<lambda>_.
            if ss_status s \<noteq> Needs_edit_clarification then raises (conflict (session_id s))
            else attempt (active_version s) (\<lambda>v.
              if x \<notin> set (item_ids (pv_candidate v)) then raises (Action_error (session_id s) ''unknown_item'')
              else attempt (validated (st_edit_patch st)) (\<lambda>ops.
                case set_first_item x ops of
                  None \<Rightarrow> raises (Action_error (session_id s) ''clarification_not_needed'')
                | Some ops' \<Rightarrow> yields (st\<lparr>st_edit_patch := Some ops', st_status := Building_preview\<rparr>))))
      | _ \<Rightarrow> raises (Attribute_error ''item_id''))"

definition analyze_impact :: "config \<Rightarrow> resume_request \<Rightarrow> lc_state \<Rightarrow> plan_session \<Rightarrow> outcome" where
  "analyze_impact cf r st s =
     attempt (active_version s) (\<lambda>v. attempt (validated (st_edit_patch st)) (\<lambda>patch.
       case ground_edit_patch (session_id s) (pv_candidate v) patch of
         Inl e \<Rightarrow>
           (case e of
              Action_error sid code \<Rightarrow>
                if code \<notin> {''ambiguous_item'', ''unknown_item''} then raises e
                else if st_round st \<ge> 2 then raises (Action_error (session_id s) ''edit_clarification_exhausted'')
                else saves (commit r None None None (s\<lparr>ss_status := Needs_edit_clarification\<rparr>))
                  (st\<lparr>st_status := Needs_edit_clarification, st_round := st_round st + 1, st_message := Some (Msg_clarify code)\<rparr>)
            | _ \<Rightarrow> raises e)
       | Inr ops \<Rightarrow>
           (let impact = analyze_change_impact (pv_candidate v) ops (map snd (locks s)) (cf_max_days cf)
            in if ir_lock_conflicts impact \<noteq> [] then raises (Action_error (session_id s) ''lock_conflict'')
               else if ir_scope impact = Scope_new_plan then
                 saves (commit r None None None (s\<lparr>ss_status := Requires_new_plan\<rparr>))
                   (st\<lparr>st_edit_patch := Some ops, st_impact := Some impact, st_status := Requires_new_plan,
                       st_message := Some Msg_new_plan_needed\<rparr>)
               else yields (st\<lparr>st_edit_patch := Some ops, st_impact := Some impact, st_status := Building_preview\<rparr>))))"

end
