(* ===== verification/LifecyclePreview.thy ===== *)
theory LifecyclePreview
  imports LifecycleNodes
begin

text \<open>
  The node \<open>build_local_preview\<close> of \<open>lifecycle/workflow.py\<close>, which applies a grounded edit to the
  active version, replans locally, checks locality and locks and files a preview, and the
  node \<open>resolve_approval\<close>, which turns a preview into a version or rejects it.
\<close>

section \<open>Places and routes of a preview\<close>

definition add_poi :: "planning_poi \<Rightarrow> planning_poi list \<Rightarrow> planning_poi list" where
  "add_poi p ps = (if poi_id_of p \<in> set (map poi_id_of ps) then ps else ps @ [p])"

definition edit_queries :: "config \<Rightarrow> trip_spec \<Rightarrow> planning_poi list \<Rightarrow> edit_patch \<Rightarrow> poi_search_query list" where
  "edit_queries cf trip pois ops =
     [\<lparr>q_city = destination trip, q_keyword = poi_name_arg op, q_exact_match = False,
       q_limit = min 5 (cf_poi_limit cf), q_priority = 100\<rparr>.
      op \<leftarrow> ops, op_kind op \<in> {Add_item, Replace_item} \<and> given (op_poi_name op)
        \<and> \<not> list_ex (\<lambda>p. names_match (poi_name_arg op) (poi_name_of p)) pois]"

definition add_facts :: "config \<Rightarrow> trip_spec \<Rightarrow> poi_facts \<Rightarrow> planning_poi list \<Rightarrow> planning_poi list" where
  "add_facts cf trip f ps =
     (if f_id f \<in> set (map poi_id_of ps) then ps
      else case resolved_poi (resolve_poi (cf_defaults cf) f trip) of None \<Rightarrow> ps | Some p \<Rightarrow> ps @ [p])"

definition preview_pois ::
  "config \<Rightarrow> services \<Rightarrow> plan_session \<Rightarrow> trip_spec \<Rightarrow> plan_version \<Rightarrow> planning_poi list \<Rightarrow> edit_patch
     \<Rightarrow> (lifecycle_error, planning_poi list) result" where
  "preview_pois cf sv s trip v alternatives ops =
     (let pois = fold add_poi alternatives (pv_pois v);
          queries = edit_queries cf trip pois ops
      in if queries = [] then Inr pois
         else fold_res (\<lambda>res ps. if tr_status res = Tool_failed then Inl (Tool_unavailable (lifecycle_thread_id s))
                else Inr (fold (add_facts cf trip) (facts_of res) ps)) (sv_search sv queries) pois)"

definition lift_missing_poi :: "(missing_planning_poi, 'a) result \<Rightarrow> (lifecycle_error, 'a) result" where
  "lift_missing_poi r = (case r of Inl (Missing_planning_poi p) \<Rightarrow> Inl (Missing_poi p) | Inr x \<Rightarrow> Inr x)"

definition lift_planner :: "(planner_error, 'a) result \<Rightarrow> (lifecycle_error, 'a) result" where
  "lift_planner r =
     (case r of
        Inl (Planner_unknown_poi p) \<Rightarrow> Inl (Missing_poi p)
      | Inl (Missing_route_result k) \<Rightarrow> Inl (Missing_route k)
      | Inl (Opening_key_error d) \<Rightarrow> Inl (Key_error (isoformat d))
      | Inl No_route_assertion \<Rightarrow> Inl Assertion_failed
      | Inl (Invalid_plan_item m) \<Rightarrow> Inl (Value_error m)
      | Inr x \<Rightarrow> Inr x)"

definition load_routes ::
  "services \<Rightarrow> string \<Rightarrow> route_query list \<Rightarrow> route_table \<Rightarrow> (lifecycle_error, route_table) result" where
  "load_routes sv thread queries routes =
     (if queries = [] then Inr routes
      else fold_res (\<lambda>(k, res) rs. if tr_status res = Tool_failed then Inl (Tool_unavailable thread)
             else bind_res (asserted (tr_data res)) (\<lambda>x. Inr (AList.update k x rs))) (sv_routes sv queries) routes)"

text \<open>The routes of the preview, with the keys of the invalidated ones.\<close>

definition preview_routes ::
  "config \<Rightarrow> services \<Rightarrow> plan_session \<Rightarrow> trip_spec \<Rightarrow> plan_version \<Rightarrow> candidate_draft \<Rightarrow> planning_poi list
     \<Rightarrow> (lifecycle_error, route_table \<times> string list) result" where
  "preview_routes cf sv s trip v draft pois =
     bind_res (lift_missing_poi (invalidated_route_keys (cf_metres cf) trip (pv_draft v) draft pois (cf_routes cf))) (\<lambda>gone.
     let kept = filter (\<lambda>(k, x). k \<notin> set gone) (pv_routes v)
     in bind_res (lift_missing_poi (collect_route_delta (cf_metres cf) trip draft pois kept (cf_routes cf))) (\<lambda>delta.
        bind_res (load_routes sv (lifecycle_thread_id s) (missing_queries delta) kept) (\<lambda>routes. Inr (routes, gone))))"

section \<open>The edited candidate\<close>

definition item_locks :: "plan_session \<Rightarrow> string list" where
  "item_locks s = map lk_target (filter (\<lambda>l. lk_kind l = Lock_item) (map snd (locks s)))"

definition label_item :: "(string \<times> string) list \<Rightarrow> string list \<Rightarrow> plan_item \<Rightarrow> plan_item" where
  "label_item ids locked_ids i =
     (let x = map_of ids (case item_poi_id i of None \<Rightarrow> [] | Some p \<Rightarrow> p)
      in i\<lparr>item_id := x, locked := (case x of None \<Rightarrow> False | Some y \<Rightarrow> y \<in> set locked_ids)\<rparr>)"

definition label_candidate :: "(string \<times> string) list \<Rightarrow> string list \<Rightarrow> plan_candidate \<Rightarrow> plan_candidate" where
  "label_candidate ids locked_ids c =
     c\<lparr>days := map (\<lambda>d. d\<lparr>items := map (label_item ids locked_ids) (items d)\<rparr>) (days c)\<rparr>"

definition edited_candidate ::
  "config \<Rightarrow> plan_session \<Rightarrow> trip_spec \<Rightarrow> candidate_draft \<Rightarrow> (string \<times> string) list \<Rightarrow> planning_poi list
     \<Rightarrow> route_table \<Rightarrow> (lifecycle_error, plan_candidate) result" where
  "edited_candidate cf s trip draft ids pois routes =
     bind_res (lift_planner (materialize_candidates (cf_metres cf) trip [draft] pois routes (cf_routes cf))) (\<lambda>cs.
       case cs of
         [] \<Rightarrow> Inl Index_error
       | raw # _ \<Rightarrow>
           (let c = label_candidate ids (item_locks s) raw
            in Inr (c\<lparr>validation := Some (validate_candidate trip c (map Planning_poi pois))\<rparr>)))"

section \<open>Locality and locks\<close>

definition days_by_date :: "plan_candidate \<Rightarrow> (py_date \<times> day_plan) list" where
  "days_by_date c = dict_of (map (\<lambda>d. (day_date d, d)) (days c))"

definition check_preserved ::
  "hashing \<Rightarrow> plan_candidate \<Rightarrow> plan_candidate \<Rightarrow> py_date list \<Rightarrow> (lifecycle_error, unit) result" where
  "check_preserved h before after dates =
     fold_res (\<lambda>d u. case (map_of (days_by_date before) d, map_of (days_by_date after) d) of
         (Some x, Some y) \<Rightarrow> if day_fingerprint h x \<noteq> day_fingerprint h y
             then Inl (Runtime_error ''unaffected day changed during local edit'') else Inr ()
       | _ \<Rightarrow> Inl (Key_error (isoformat d))) dates ()"

definition check_lock :: "hashing \<Rightarrow> plan_candidate \<Rightarrow> plan_lock \<Rightarrow> (lifecycle_error, unit) result" where
  "check_lock h c l =
     (case lk_kind l of
        Lock_day \<Rightarrow>
          (case fromisoformat (lk_target l) of
             None \<Rightarrow> Inl (Value_error ''Invalid isoformat string'')
           | Some d \<Rightarrow> (case map_of (days_by_date c) d of
               None \<Rightarrow> Inl (Runtime_error ''locked day changed during local edit'')
             | Some day \<Rightarrow> if day_fingerprint h day \<noteq> expected_fingerprint l
                 then Inl (Runtime_error ''locked day changed during local edit'') else Inr ()))
      | Lock_item \<Rightarrow>
          (case List.find (\<lambda>(d, i). item_id i = Some (lk_target l)) (dated_items c) of
             None \<Rightarrow> Inl (Runtime_error ''locked item changed during local edit'')
           | Some (d, i) \<Rightarrow> if item_fingerprint h i d \<noteq> expected_fingerprint l
               then Inl (Runtime_error ''locked item changed during local edit'') else Inr ()))"

definition check_locks :: "hashing \<Rightarrow> plan_candidate \<Rightarrow> plan_session \<Rightarrow> (lifecycle_error, unit) result" where
  "check_locks h c s = fold_res (\<lambda>l u. check_lock h c l) (map snd (locks s)) ()"

section \<open>The critic\<close>

type_synonym critic_view = "critic_status \<times> critic_summary option \<times> soft_critique option \<times> rat option"

definition judged ::
  "config \<Rightarrow> evidence_digest list \<Rightarrow> critic_answer \<Rightarrow> (lifecycle_error, critic_view) result" where
  "judged cf digests answer =
     (case answer of
        Critic_over_budget \<Rightarrow> Inr (Critic_unavailable, None, None, None)
      | Critic_down \<Rightarrow> Inr (Critic_unavailable, None, None, None)
      | Critic_result critiques summary \<Rightarrow>
          if validate_critique_grounding digests critiques \<noteq> [] then Inr (Invalid_grounding, None, None, None)
          else (case critiques of
                  [] \<Rightarrow> Inl Index_error
                | c # _ \<Rightarrow> (case quality_score c (cf_critic cf) of
                    Inl msg \<Rightarrow> Inl (Value_error msg)
                  | Inr q \<Rightarrow> Inr (Critic_success, Some summary, Some c, Some q))))"

definition critique_preview ::
  "config \<Rightarrow> services \<Rightarrow> trip_spec \<Rightarrow> plan_candidate \<Rightarrow> planning_poi list \<Rightarrow> validation_result
     \<Rightarrow> (lifecycle_error, critic_view) result" where
  "critique_preview cf sv trip c pois val =
     (case sv_critic sv of
        None \<Rightarrow> Inr (Critic_disabled, None, None, None)
      | Some critic \<Rightarrow>
          if status val = Invalid then Inr (Critic_pending, None, None, None)
          else (let digests = build_evidence_digests (sha256 (cf_hash cf)) (cf_chars cf) trip [c] pois (cf_evidence cf)
                in case make_critic_request digests [] of
                     Inl msg \<Rightarrow> Inl (Value_error msg)
                   | Inr q \<Rightarrow> judged cf digests (critic q)))"

section \<open>Filing the preview\<close>

definition preview_valid :: "validation_result \<Rightarrow> bool" where
  "preview_valid val \<longleftrightarrow> status val \<noteq> Invalid \<and> \<not> list_ex (\<lambda>x. severity x = Error) (violations val)"

definition preview_trigger :: "resume_request \<Rightarrow> lc_state \<Rightarrow> change_trigger" where
  "preview_trigger r st =
     \<lparr>ct_source = (if st_event st = None then From_user else From_weather), ct_request_id = request_id r,
      ct_event_id = map_option ev_id (st_event st), ct_snapshot_id = map_option ws_id (st_snapshot st),
      ct_policy_version = (if st_event st = None then None else Some weather_policy_version)\<rparr>"

definition preview_key :: "plan_session \<Rightarrow> string" where
  "preview_key s = ''P'' @ show_nat (length (previews s) + 1)"

definition preview_token :: "services \<Rightarrow> validation_result \<Rightarrow> string" where
  "preview_token sv val = (if preview_valid val then sv_token sv else [])"

definition make_preview ::
  "config \<Rightarrow> services \<Rightarrow> resume_request \<Rightarrow> lc_state \<Rightarrow> plan_session \<Rightarrow> trip_spec \<Rightarrow> plan_version \<Rightarrow> edit_patch
     \<Rightarrow> (lifecycle_error, plan_preview) result" where
  "make_preview cf sv r st s trip v ops =
     bind_res (preview_pois cf sv s trip v (or_empty (st_alternatives st)) ops) (\<lambda>pois.
     let impact = analyze_change_impact (pv_candidate v) ops (map snd (locks s)) (cf_max_days cf)
     in bind_res (apply_edit_patch (cf_hash cf) (session_id s) (request_id r) trip (pv_candidate v) (pv_draft v) pois ops)
          (\<lambda>(draft, ids).
     bind_res (preview_routes cf sv s trip v draft pois) (\<lambda>(routes, gone).
     bind_res (edited_candidate cf s trip draft ids pois routes) (\<lambda>c.
     bind_res (check_preserved (cf_hash cf) (pv_candidate v) c (ir_preserved_dates impact)) (\<lambda>_.
     bind_res (check_locks (cf_hash cf) c s) (\<lambda>_.
     let val = the (validation c)
     in bind_res (critique_preview cf sv trip c pois val) (\<lambda>(cst, summary, critique, soft_after).
     bind_res (build_plan_diff (pv_candidate v) c (version_id v) (preview_key s) None soft_after) (\<lambda>dif.
       Inr \<lparr>preview_id = preview_key s, base_version_id = version_id v, base_revision = revision s + 1,
         pp_request_id = request_id r, pp_candidate = c, pp_draft = draft, pp_pois = pois, pp_routes = routes,
         pp_impact = impact\<lparr>ir_invalidated_keys := gone\<rparr>, pp_diff = dif,
         pp_status = (if preview_valid val then Pending else Invalid_preview), hard_validation = val,
         pp_critic_status = cst, pp_critic_summary = summary, pp_soft_critique = critique,
         approval_token_hash = approval_hash (cf_hash cf) (preview_token sv val),
         pp_trigger = Some (preview_trigger r st), pp_created_at = sv_now sv\<rparr>))))))))"

text \<open>The observation is recorded with the preview if the graph state holds an event and a snapshot.\<close>

definition record_trigger ::
  "config \<Rightarrow> lc_state \<Rightarrow> bool \<Rightarrow> plan_session \<Rightarrow> plan_session" where
  "record_trigger cf st ok s =
     (case (st_event st, st_snapshot st) of
        (Some e, Some snap) \<Rightarrow> persist_weather_observation snap (or_empty (st_risks st))
            (if ok then Out_preview_created else Out_needs_user_attention) (Some e)
            (Some (if ok then Ev_preview_created else Ev_needs_user_attention)) (cf_max_events cf) s
      | _ \<Rightarrow> s)"

definition link_receipt :: "lc_state \<Rightarrow> string \<Rightarrow> plan_session \<Rightarrow> (lifecycle_error, plan_session) result" where
  "link_receipt st pid s =
     (case st_event st of
        None \<Rightarrow> Inr s
      | Some e \<Rightarrow> (case map_of (event_receipts (monitor s)) (ev_id e) of
          None \<Rightarrow> Inl (Key_error (ev_id e))
        | Some rc \<Rightarrow> Inr (s\<lparr>monitor := (monitor s)\<lparr>event_receipts :=
            AList.update (ev_id e) (rc\<lparr>wrc_preview_id := Some pid\<rparr>) (event_receipts (monitor s))\<rparr>\<rparr>)))"

definition file_preview ::
  "config \<Rightarrow> resume_request \<Rightarrow> lc_state \<Rightarrow> plan_preview \<Rightarrow> plan_session \<Rightarrow> plan_session" where
  "file_preview cf r st p s =
     (let ok = preview_valid (hard_validation p); s' = record_trigger cf st ok s
      in commit r None (Some (preview_id p)) (map_option ev_id (st_event st))
           (s'\<lparr>previews := AList.update (preview_id p) p (previews s'), pending_preview_id := Some (preview_id p),
               ss_status := (if ok then Awaiting_change_approval else Change_rejected)\<rparr>))"

definition build_preview ::
  "config \<Rightarrow> services \<Rightarrow> resume_request \<Rightarrow> lc_state \<Rightarrow> plan_session \<Rightarrow> outcome" where
  "build_preview cf sv r st s =
     attempt (ensure_expected s r) (\<lambda>_. attempt (asserted (snapshot s)) (\<lambda>ps. attempt (active_version s) (\<lambda>v.
     attempt (validated (st_edit_patch st)) (\<lambda>ops.
     attempt (make_preview cf sv r st s (ps_trip ps) v ops) (\<lambda>p.
     attempt (link_receipt st (preview_id p) (file_preview cf r st p s)) (\<lambda>s'.
       let token = preview_token sv (hard_validation p)
       in saves s' (st\<lparr>st_status := ss_status s', st_token := (if token = [] then None else Some token), st_action := None,
            st_message := (if preview_valid (hard_validation p) then None else Some Msg_invalid_preview)\<rparr>)))))))"

section \<open>Approval\<close>

definition update_event_receipt ::
  "plan_preview \<Rightarrow> weather_event_status \<Rightarrow> string option \<Rightarrow> plan_session \<Rightarrow> plan_session" where
  "update_event_receipt p evst version s =
     (case pp_trigger p of
        None \<Rightarrow> s
      | Some t \<Rightarrow> (case ct_event_id t of
          None \<Rightarrow> s
        | Some eid \<Rightarrow> (case map_of (event_receipts (monitor s)) eid of
            None \<Rightarrow> s
          | Some rc \<Rightarrow> s\<lparr>monitor := (monitor s)\<lparr>event_receipts :=
              AList.update eid (rc\<lparr>wrc_status := evst, wrc_preview_id := Some (preview_id p),
                wrc_version_id := (case version of None \<Rightarrow> wrc_version_id rc | Some x \<Rightarrow> Some x)\<rparr>)
                (event_receipts (monitor s))\<rparr>\<rparr>)))"

definition version_key :: "nat \<Rightarrow> string" where
  "version_key n = ''V'' @ show_nat n"

definition next_version ::
  "config \<Rightarrow> services \<Rightarrow> resume_request \<Rightarrow> plan_session \<Rightarrow> plan_preview \<Rightarrow> plan_version" where
  "next_version cf sv r s p = \<lparr>version_id = version_key (length (versions s) + 1), pv_number = length (versions s) + 1,
     parent_version_id = Some (base_version_id p), pv_request_id = request_id r,
     selected_candidate_id = cand_id (pp_candidate p), pv_candidate = pp_candidate p, pv_draft = pp_draft p,
     pv_pois = pp_pois p, pv_routes = pp_routes p, pv_fingerprint = plan_fingerprint (cf_hash cf) (pp_candidate p),
     pv_trigger = pp_trigger p, pv_critic_status = pp_critic_status p, pv_created_at = sv_now sv\<rparr>"

definition set_preview_status :: "string \<Rightarrow> plan_preview \<Rightarrow> preview_status \<Rightarrow> plan_session \<Rightarrow> plan_session" where
  "set_preview_status k p x s = s\<lparr>previews := AList.update k (p\<lparr>pp_status := x\<rparr>) (previews s)\<rparr>"

definition reject_preview ::
  "resume_request \<Rightarrow> lc_state \<Rightarrow> plan_session \<Rightarrow> string \<Rightarrow> plan_preview \<Rightarrow> outcome" where
  "reject_preview r st s k p =
     saves (commit r None (Some (preview_id p)) None
         (update_event_receipt p Ev_rejected None (set_preview_status k p Rejected s)\<lparr>ss_status := Active\<rparr>))
       (st\<lparr>st_status := Active, st_action := None\<rparr>)"

definition approve_preview ::
  "config \<Rightarrow> services \<Rightarrow> resume_request \<Rightarrow> lc_state \<Rightarrow> plan_session \<Rightarrow> string \<Rightarrow> plan_preview \<Rightarrow> string \<Rightarrow> outcome" where
  "approve_preview cf sv r st s k p token =
     (if approval_hash (cf_hash cf) token \<noteq> approval_token_hash p
        then raises (Conflict (session_id s) ''stale_approval_token'')
      else if Some (base_version_id p) \<noteq> active_version_id s \<or> base_revision p \<noteq> revision s
        then raises (Conflict (session_id s) ''stale_preview'')
      else if int (length (versions s)) \<ge> cf_max_versions cf
        then raises (Action_error (session_id s) ''version_budget_exhausted'')
      else
        (let v = next_version cf sv r s p
         in saves (update_event_receipt p Ev_approved (Some (version_id v))
              (commit r (Some (version_id v)) (Some (preview_id p))
                (case pp_trigger p of None \<Rightarrow> None | Some t \<Rightarrow> ct_event_id t)
                (set_preview_status k p Approved s\<lparr>versions := AList.update (version_id v) v (versions s),
                   active_version_id := Some (version_id v), ss_status := Active\<rparr>)))
            (st\<lparr>st_status := Active, st_action := None\<rparr>)))"

definition resolve_approval ::
  "config \<Rightarrow> services \<Rightarrow> resume_request \<Rightarrow> lc_state \<Rightarrow> plan_session \<Rightarrow> outcome" where
  "resolve_approval cf sv r st s =
     attempt (ensure_expected s r) (\<lambda>_.
       if ss_status s \<noteq> Awaiting_change_approval then raises (conflict (session_id s))
       else case pending_preview_id s of
         None \<Rightarrow> raises (Key_error ''None'')
       | Some k \<Rightarrow> (case map_of (previews s) k of
           None \<Rightarrow> raises (Key_error k)
         | Some p \<Rightarrow> (case action r of
             Approve_preview pid token \<Rightarrow>
               if pid \<noteq> preview_id p then raises (Conflict (session_id s) ''stale_preview'')
               else approve_preview cf sv r st s k p token
           | Reject_preview pid \<Rightarrow>
               if pid \<noteq> preview_id p then raises (Conflict (session_id s) ''stale_preview'')
               else reject_preview r st s k p
           | _ \<Rightarrow> raises (Attribute_error ''preview_id''))))"

end
