(* ===== verification/LifecycleGraph.thy ===== *)
theory LifecycleGraph
  imports LifecyclePreview
begin

text \<open>
  The graph of \<open>build_lifecycle_workflow\<close>: its nodes run against the repository, its routes,
  and the functions that start and resume a lifecycle. A run is bounded by fuel, the graph's
  \<open>recursion_limit\<close>; it is shown that no run needs more than eleven steps. LangGraph's
  checkpoint of a thread is the argument \<open>thread\<close>: its graph state and pending interrupts.
\<close>

section \<open>Nodes against the repository\<close>

datatype node =
  N_await | N_dispatch | N_select | N_lock | N_parse | N_clarify | N_impact | N_preview | N_approval
| N_locate | N_fetch | N_classify | N_derive | N_dedup | N_weather_impact | N_weather_repair | N_dismiss

fun node_body :: "config \<Rightarrow> services \<Rightarrow> node \<Rightarrow> resume_request \<Rightarrow> lc_state \<Rightarrow> plan_session \<Rightarrow> outcome" where
  "node_body cf sv N_await r st s = await_user_action r st s"
| "node_body cf sv N_dispatch r st s = (None, dispatch_action st)"
| "node_body cf sv N_select r st s = select_candidate cf sv r st s"
| "node_body cf sv N_lock r st s = change_lock cf sv r st s"
| "node_body cf sv N_parse r st s = parse_edit sv r st s"
| "node_body cf sv N_clarify r st s = apply_edit_clarification r st s"
| "node_body cf sv N_impact r st s = analyze_impact cf r st s"
| "node_body cf sv N_preview r st s = build_preview cf sv r st s"
| "node_body cf sv N_approval r st s = resolve_approval cf sv r st s"
| "node_body cf sv N_locate r st s = resolve_weather_location cf sv r st s"
| "node_body cf sv N_fetch r st s = fetch_weather_snapshot cf sv r st s"
| "node_body cf sv N_classify r st s = (None, classify_weather_risks cf st)"
| "node_body cf sv N_derive r st s = derive_weather_change cf sv st s"
| "node_body cf sv N_dedup r st s = deduplicate_weather_event cf r st s"
| "node_body cf sv N_weather_impact r st s = analyze_weather_change_impact cf r st s"
| "node_body cf sv N_weather_repair r st s = build_weather_repair cf sv r st s"
| "node_body cf sv N_dismiss r st s = dismiss_weather_event r st s"

type_synonym run_result = "memory_store \<times> (lifecycle_error, lc_state) result"

definition with_session ::
  "services \<Rightarrow> string \<Rightarrow> (plan_session \<Rightarrow> outcome) \<Rightarrow> memory_store \<Rightarrow> run_result" where
  "with_session sv sid body store =
     (case mem_get sid store of
        Inl e \<Rightarrow> (store, Inl e)
      | Inr s \<Rightarrow> (case body s of
          (None, res) \<Rightarrow> (store, res)
        | (Some s', res) \<Rightarrow> (case mem_save (sv_now sv) s' (revision s) store of
            Inl e \<Rightarrow> (store, Inl e)
          | Inr store' \<Rightarrow> (store', res))))"

definition run_node :: "config \<Rightarrow> services \<Rightarrow> node \<Rightarrow> lc_state \<Rightarrow> memory_store \<Rightarrow> run_result" where
  "run_node cf sv n st store =
     (if n = N_dispatch then (store, dispatch_action st)
      else if n = N_classify then (store, classify_weather_risks cf st)
      else if n = N_derive then with_session sv (st_session_id st) (derive_weather_change cf sv st) store
      else case st_action st of
        None \<Rightarrow> (store, Inl (Runtime_error ''lifecycle action is missing''))
      | Some r \<Rightarrow> with_session sv (st_session_id st) (node_body cf sv n r st) store)"

section \<open>Routes\<close>

definition route_action :: "lc_state \<Rightarrow> (lifecycle_error, node) result" where
  "route_action st =
     (case st_action st of
        None \<Rightarrow> Inl (Runtime_error ''lifecycle action is missing'')
      | Some r \<Rightarrow> (case action r of
          Accept_recommendation \<Rightarrow> Inr N_select
        | Select_candidate _ \<Rightarrow> Inr N_select
        | Lock_action _ _ \<Rightarrow> Inr N_lock
        | Unlock_action _ _ \<Rightarrow> Inr N_lock
        | Structured_edit _ \<Rightarrow> Inr N_parse
        | Text_edit _ \<Rightarrow> Inr N_parse
        | Clarify_edit _ \<Rightarrow> Inr N_clarify
        | Approve_preview _ _ \<Rightarrow> Inr N_approval
        | Reject_preview _ \<Rightarrow> Inr N_approval
        | Refresh_weather \<Rightarrow> Inr N_locate
        | Dismiss_weather_event _ \<Rightarrow> Inr N_dismiss
        | Clarify_requirement _ \<Rightarrow> Inl (Action_error (st_session_id st) ''invalid_action'')))"

definition route_impact :: "lc_state \<Rightarrow> node" where
  "route_impact st = (if st_status st \<in> {Requires_new_plan, Needs_edit_clarification} then N_await else N_preview)"

definition route_weather_event :: "lc_state \<Rightarrow> node" where
  "route_weather_event st = (if st_decision st = Some Dec_analyze then N_weather_impact else N_await)"

definition route_weather_impact :: "lc_state \<Rightarrow> node" where
  "route_weather_impact st = (if st_decision st = Some Dec_repair then N_weather_repair else N_await)"

definition route_weather_repair :: "lc_state \<Rightarrow> node" where
  "route_weather_repair st = (if st_decision st = Some Dec_local_replan then N_impact else N_await)"

fun next_node :: "node \<Rightarrow> lc_state \<Rightarrow> (lifecycle_error, node) result" where
  "next_node N_await st = Inr N_dispatch"
| "next_node N_dispatch st = route_action st"
| "next_node N_select st = Inr N_await"
| "next_node N_lock st = Inr N_await"
| "next_node N_parse st = Inr N_impact"
| "next_node N_clarify st = Inr N_impact"
| "next_node N_impact st = Inr (route_impact st)"
| "next_node N_preview st = Inr N_await"
| "next_node N_approval st = Inr N_await"
| "next_node N_locate st = Inr N_fetch"
| "next_node N_fetch st = Inr N_classify"
| "next_node N_classify st = Inr N_derive"
| "next_node N_derive st = Inr N_dedup"
| "next_node N_dedup st = Inr (route_weather_event st)"
| "next_node N_weather_impact st = Inr (route_weather_impact st)"
| "next_node N_weather_repair st = Inr (route_weather_repair st)"
| "next_node N_dismiss st = Inr N_await"

text \<open>\<open>None\<close>: the recursion limit is hit. The services may answer differently in every step.\<close>

fun run_graph ::
  "nat \<Rightarrow> config \<Rightarrow> (nat \<Rightarrow> services) \<Rightarrow> node \<Rightarrow> lc_state \<Rightarrow> memory_store \<Rightarrow> run_result option" where
  "run_graph 0 cf svs n st store = None"
| "run_graph (Suc k) cf svs n st store =
     (if n = N_await then Some (store, Inr st)
      else case run_node cf (svs k) n st store of
             (store', Inl e) \<Rightarrow> Some (store', Inl e)
           | (store', Inr st') \<Rightarrow> (case next_node n st' of
               Inl e \<Rightarrow> Some (store', Inl e)
             | Inr n' \<Rightarrow> run_graph k cf svs n' st' store'))"

fun steps_left :: "node \<Rightarrow> nat" where
  "steps_left N_await = 1"
| "steps_left N_dispatch = 11"
| "steps_left N_locate = 10"
| "steps_left N_fetch = 9"
| "steps_left N_classify = 8"
| "steps_left N_derive = 7"
| "steps_left N_dedup = 6"
| "steps_left N_weather_impact = 5"
| "steps_left N_weather_repair = 4"
| "steps_left N_parse = 4"
| "steps_left N_clarify = 4"
| "steps_left N_impact = 3"
| "steps_left n = 2"

lemma next_node_closer: "next_node n st = Inr n' \<Longrightarrow> n \<noteq> N_await \<Longrightarrow> steps_left n' < steps_left n"
  by (cases n)
    (auto simp: route_action_def route_impact_def route_weather_event_def route_weather_impact_def
      route_weather_repair_def split: option.splits lifecycle_action.splits if_splits)

lemma steps_left_pos: "0 < steps_left n"
  by (cases n) simp_all

lemma run_graph_fuel: "steps_left n \<le> k \<Longrightarrow> run_graph k cf svs n st store \<noteq> None"
proof (induction k arbitrary: n st store)
  case 0
  then show ?case using steps_left_pos [of n] by simp
next
  case (Suc k)
  have "run_graph k cf svs n' st' store' \<noteq> None" if "next_node n st' = Inr n'" "n \<noteq> N_await" for n' st' store'
    using Suc.IH [of n'] next_node_closer [OF that] Suc.prems by simp
  then show ?case
    by (cases "run_node cf (svs k) n st store"; cases "snd (run_node cf (svs k) n st store)")
      (auto split: sum.splits)
qed

text \<open>
  C33. Every resumed action comes to rest: from its dispatch the graph reaches the next
  interrupt, or an error, within eleven steps whatever the services answer, so the recursion
  limit of 40 is never hit.
\<close>

theorem action_comes_to_rest: "run_graph (11 + k) cf svs N_dispatch st store \<noteq> None"
  using run_graph_fuel [of N_dispatch "11 + k"] by simp

section \<open>Starting and resuming\<close>

record thread =
  th_state :: "lc_state option"
  th_interrupts :: "(string \<times> interrupt_payload) list"

definition first_interrupt :: "(string \<times> interrupt_payload) list \<Rightarrow> (string \<times> interrupt_payload) option" where
  "first_interrupt xs = (case xs of [] \<Rightarrow> None | x # _ \<Rightarrow> Some x)"

text \<open>
  A run that reaches \<open>await_user_action\<close> interrupts there; LangGraph names the interrupt, the
  parameter \<open>new_id\<close>. The recursion limit is 40: the resumed node takes the first step.
\<close>

definition recursion_limit :: nat where
  "recursion_limit = 40"

definition interrupt_response ::
  "int \<Rightarrow> datetime \<Rightarrow> string \<Rightarrow> string \<Rightarrow> run_result \<Rightarrow> memory_store \<times> (lifecycle_error, plan_response) result" where
  "interrupt_response stale now new_id sid rr =
     (fst rr, bind_res (snd rr) (\<lambda>st.
       bind_res (mem_get (st_session_id st) (fst rr)) (\<lambda>s.
       bind_res (interrupt_of st s) (\<lambda>payload.
       bind_res (mem_get sid (fst rr)) (\<lambda>stored.
         Inr (response_from_session stale now (Some (new_id, payload)) (st_message st) stored))))))"

definition start_lifecycle ::
  "int \<Rightarrow> datetime \<Rightarrow> string \<Rightarrow> plan_session \<Rightarrow> memory_store \<Rightarrow> memory_store \<times> (lifecycle_error, plan_response) result" where
  "start_lifecycle stale now new_id s store =
     interrupt_response stale now new_id (session_id s) (store, Inr (initial_lifecycle_state s))"

definition run_action ::
  "config \<Rightarrow> (nat \<Rightarrow> services) \<Rightarrow> resume_request \<Rightarrow> lc_state \<Rightarrow> memory_store \<Rightarrow> run_result" where
  "run_action cf svs r st store =
     (case with_session (svs recursion_limit) (st_session_id st) (await_user_action r st) store of
        (store', Inl e) \<Rightarrow> (store', Inl e)
      | (store', Inr st') \<Rightarrow> (case run_graph (recursion_limit - 1) cf svs N_dispatch st' store' of
          None \<Rightarrow> (store', Inl (Runtime_error ''GraphRecursionError''))
        | Some rr \<Rightarrow> rr))"

definition resume_lifecycle ::
  "config \<Rightarrow> (nat \<Rightarrow> services) \<Rightarrow> int \<Rightarrow> datetime \<Rightarrow> string \<Rightarrow> string \<Rightarrow> thread \<Rightarrow> resume_request
     \<Rightarrow> memory_store \<Rightarrow> memory_store \<times> (lifecycle_error, plan_response) result" where
  "resume_lifecycle cf svs stale now new_id sid th r store =
     (case mem_get sid store of
        Inl e \<Rightarrow> (store, Inl e)
      | Inr s \<Rightarrow>
          if map_of (receipts s) (request_id r) \<noteq> None then
            (store, Inr (response_from_session stale now (first_interrupt (th_interrupts th)) None s))
          else (case th_state th of
              None \<Rightarrow> (store, Inl (Not_found sid))
            | Some st \<Rightarrow>
                if interrupt_id r \<notin> set (map fst (th_interrupts th))
                then (store, Inl (Conflict sid ''stale_interrupt''))
                else interrupt_response stale now new_id sid (run_action cf svs r st store)))"

end
