(* ===== verification/LifecycleService.thy ===== *)
theory LifecycleService
  imports LifecycleGraph
begin

text \<open>
  \<open>lifecycle/service.py\<close>: creating sessions, the requirement dialogue before planning, resuming,
  and the queries on versions, diffs and weather events. The planning and requirement
  workflows that the service calls are given by their responses.
\<close>

section \<open>Creating a session\<close>

definition new_session ::
  "string \<Rightarrow> string \<Rightarrow> string \<Rightarrow> string option \<Rightarrow> session_status \<Rightarrow> planning_snapshot option
     \<Rightarrow> (string \<times> json) option \<Rightarrow> datetime \<Rightarrow> plan_session" where
  "new_session sid tenant user intake st snap ext now =
     \<lparr>session_id = sid, lifecycle_thread_id = ''lifecycle:'' @ sid, intake_thread_id = intake, ss_status = st,
      tenant_id = tenant, user_id = user, revision = 0, snapshot = snap, active_version_id = None,
      pending_preview_id = None, versions = [], previews = [], locks = [], receipts = [],
      monitor = new_monitor, weather_snapshots = [], weather_risks = [], weather_events = [],
      external_interrupt = ext, ss_created_at = now, ss_updated_at = now\<rparr>"

text \<open>What planning came to: a snapshot, a question to the user, or neither.\<close>

datatype intake_answer =
  Intake_done planning_snapshot
| Intake_question "(string \<times> json) option" "lc_message option"
| Intake_failed

definition create_session ::
  "int \<Rightarrow> datetime \<Rightarrow> string \<Rightarrow> string \<Rightarrow> string \<Rightarrow> string \<Rightarrow> intake_answer
     \<Rightarrow> memory_store \<Rightarrow> memory_store \<times> (lifecycle_error, plan_response) result" where
  "create_session stale now new_id sid tenant user answer store =
     (case answer of
        Intake_done snap \<Rightarrow>
          (let s = new_session sid tenant user None Awaiting_candidate_selection (Some snap) None now
           in case mem_create s store of
                Inl e \<Rightarrow> (store, Inl e)
              | Inr store' \<Rightarrow> start_lifecycle stale now new_id s store')
      | _ \<Rightarrow> (store, Inl (Action_error sid ''planning_not_completed'')))"

definition intake_thread :: "string \<Rightarrow> string" where
  "intake_thread sid = ''intake:'' @ sid"

definition create_from_text ::
  "int \<Rightarrow> datetime \<Rightarrow> string \<Rightarrow> string \<Rightarrow> string \<Rightarrow> string \<Rightarrow> intake_answer option
     \<Rightarrow> memory_store \<Rightarrow> memory_store \<times> (lifecycle_error, plan_response) result" where
  "create_from_text stale now new_id sid tenant user response store =
     (case response of
        None \<Rightarrow> (store, Inl (Runtime_error ''natural-language planning is not configured''))
      | Some Intake_failed \<Rightarrow> (store, Inl (Action_error sid ''planning_not_completed''))
      | Some (Intake_question ext msg) \<Rightarrow>
          (let s = new_session sid tenant user (Some (intake_thread sid)) Needs_requirement_clarification None ext now
           in case mem_create s store of
                Inl e \<Rightarrow> (store, Inl e)
              | Inr store' \<Rightarrow> (store', Inr (response_from_session stale now None msg s)))
      | Some (Intake_done snap) \<Rightarrow>
          (let s = new_session sid tenant user (Some (intake_thread sid)) Awaiting_candidate_selection (Some snap) None now
           in case mem_create s store of
                Inl e \<Rightarrow> (store, Inl e)
              | Inr store' \<Rightarrow> start_lifecycle stale now new_id s store'))"

section \<open>The requirement dialogue\<close>

text \<open>The session to save after an answer; \<open>None\<close> without an answer of the workflow to use.\<close>

definition answered_session :: "intake_answer \<Rightarrow> resume_request \<Rightarrow> plan_session \<Rightarrow> plan_session option" where
  "answered_session answer r s =
     (case answer of
        Intake_failed \<Rightarrow> None
      | Intake_question ext msg \<Rightarrow> Some (commit r None None None s\<lparr>external_interrupt := ext\<rparr>)
      | Intake_done snap \<Rightarrow> Some (commit r None None None s\<lparr>snapshot := Some snap,
          ss_status := Awaiting_candidate_selection, external_interrupt := None\<rparr>))"

definition resume_requirement ::
  "intake_answer option \<Rightarrow> int \<Rightarrow> datetime \<Rightarrow> string \<Rightarrow> plan_session \<Rightarrow> resume_request
     \<Rightarrow> memory_store \<Rightarrow> memory_store \<times> (lifecycle_error, plan_response) result" where
  "resume_requirement response stale now new_id s r store =
     (if kind_of_action (action r) \<noteq> ''clarify_requirement''
        then (store, Inl (Action_error (session_id s) ''invalid_action''))
      else if map_option fst (external_interrupt s) \<noteq> Some (interrupt_id r)
        then (store, Inl (Conflict (session_id s) ''stale_interrupt''))
      else case response of
        None \<Rightarrow> (store, Inl Assertion_failed)
      | Some answer \<Rightarrow> (case answered_session answer r s of
          None \<Rightarrow> (store, Inl (Action_error (session_id s) ''planning_not_completed''))
        | Some s' \<Rightarrow> (case mem_save now s' (revision s) store of
            Inl e \<Rightarrow> (store, Inl e)
          | Inr store' \<Rightarrow> (case answer of
              Intake_question ext msg \<Rightarrow>
                (store', Inr (response_from_session stale now None msg (s'\<lparr>ss_updated_at := now\<rparr>)))
            | _ \<Rightarrow> start_lifecycle stale now new_id (s'\<lparr>ss_updated_at := now\<rparr>) store'))))"

section \<open>Resuming\<close>

definition service_resume ::
  "config \<Rightarrow> (nat \<Rightarrow> services) \<Rightarrow> intake_answer option \<Rightarrow> int \<Rightarrow> datetime \<Rightarrow> string \<Rightarrow> string \<Rightarrow> thread
     \<Rightarrow> resume_request \<Rightarrow> memory_store \<Rightarrow> memory_store \<times> (lifecycle_error, plan_response) result" where
  "service_resume cf svs response stale now new_id sid th r store =
     (case mem_get sid store of
        Inl e \<Rightarrow> (store, Inl e)
      | Inr s \<Rightarrow>
          if map_of (receipts s) (request_id r) \<noteq> None then
            (if ss_status s = Needs_requirement_clarification
             then (store, Inr (response_from_session stale now None None s))
             else resume_lifecycle cf svs stale now new_id sid th r store)
          else if ss_status s = Needs_requirement_clarification
            then resume_requirement response stale now new_id s r store
          else resume_lifecycle cf svs stale now new_id sid th r store)"

definition service_get ::
  "int \<Rightarrow> datetime \<Rightarrow> thread \<Rightarrow> string \<Rightarrow> memory_store \<Rightarrow> (lifecycle_error, plan_response) result" where
  "service_get stale now th sid store =
     bind_res (mem_get sid store) (\<lambda>s.
       if external_interrupt s \<noteq> None then Inr (response_from_session stale now None None s)
       else Inr (response_from_session stale now (first_interrupt (th_interrupts th)) None s))"

definition refresh_weather ::
  "config \<Rightarrow> (nat \<Rightarrow> services) \<Rightarrow> intake_answer option \<Rightarrow> int \<Rightarrow> datetime \<Rightarrow> string \<Rightarrow> string \<Rightarrow> thread
     \<Rightarrow> string \<Rightarrow> string option \<Rightarrow> int option \<Rightarrow> memory_store
     \<Rightarrow> memory_store \<times> (lifecycle_error, plan_response) result" where
  "refresh_weather cf svs response stale now new_id sid th rid version rv store =
     (case service_get stale now th sid store of
        Inl e \<Rightarrow> (store, Inl e)
      | Inr current \<Rightarrow> (case rs_interrupt current of
          None \<Rightarrow> (store, Inl (Conflict sid ''weather_refresh_not_resumable''))
        | Some (i, payload) \<Rightarrow> service_resume cf svs response stale now new_id sid th
            \<lparr>interrupt_id = i, request_id = rid, expected_version = version, expected_revision = rv,
             action = Refresh_weather\<rparr> store))"

section \<open>Queries\<close>

definition service_weather :: "int \<Rightarrow> datetime \<Rightarrow> string \<Rightarrow> memory_store \<Rightarrow> (lifecycle_error, weather_state_view) result" where
  "service_weather stale now sid store = bind_res (mem_get sid store) (\<lambda>s. Inr (weather_view stale now s))"

type_synonym weather_event_view = "change_event \<times> weather_receipt option"

definition event_view :: "plan_session \<Rightarrow> change_event \<Rightarrow> weather_event_view" where
  "event_view s e = (e, map_of (event_receipts (monitor s)) (ev_id e))"

definition service_weather_events :: "string \<Rightarrow> memory_store \<Rightarrow> (lifecycle_error, weather_event_view list) result" where
  "service_weather_events sid store = bind_res (mem_get sid store) (\<lambda>s.
     Inr (map (event_view s) (sort_key_reverse (instant \<circ> ev_created_at) (map snd (weather_events s)))))"

definition service_weather_event ::
  "string \<Rightarrow> string \<Rightarrow> memory_store \<Rightarrow> (lifecycle_error, weather_event_view) result" where
  "service_weather_event sid eid store = bind_res (mem_get sid store) (\<lambda>s.
     case map_of (weather_events s) eid of
       None \<Rightarrow> Inl (Action_error sid ''weather_event_not_found'')
     | Some e \<Rightarrow> Inr (e, map_of (event_receipts (monitor s)) eid))"

definition service_versions :: "string \<Rightarrow> memory_store \<Rightarrow> (lifecycle_error, plan_version list) result" where
  "service_versions sid store = bind_res (mem_get sid store) (\<lambda>s.
     Inr (sort_key pv_number (map snd (versions s))))"

definition service_version :: "string \<Rightarrow> string \<Rightarrow> memory_store \<Rightarrow> (lifecycle_error, plan_version) result" where
  "service_version sid vid store = bind_res (mem_get sid store) (\<lambda>s.
     case map_of (versions s) vid of
       None \<Rightarrow> Inl (Action_error sid ''plan_version_not_found'') | Some v \<Rightarrow> Inr v)"

definition service_diff ::
  "string \<Rightarrow> string \<Rightarrow> string \<Rightarrow> memory_store \<Rightarrow> (lifecycle_error, plan_diff) result" where
  "service_diff sid from_v to_v store = bind_res (mem_get sid store) (\<lambda>s.
     let missing = Inl (Action_error sid ''plan_diff_not_found'')
     in if take 1 to_v = ''P'' then
          (case map_of (previews s) to_v of
             None \<Rightarrow> missing
           | Some p \<Rightarrow> if base_version_id p \<noteq> from_v then missing else Inr (pp_diff p))
        else (case map_of (versions s) to_v of
             None \<Rightarrow> missing
           | Some target \<Rightarrow>
               if parent_version_id target \<noteq> Some from_v then missing
               else (case List.find (\<lambda>p. pp_status p = Approved \<and> base_version_id p = from_v
                          \<and> pp_candidate p = pv_candidate target) (map snd (previews s)) of
                       None \<Rightarrow> missing
                     | Some p \<Rightarrow> Inr ((pp_diff p)\<lparr>to_id := to_v\<rparr>))))"

end
