(* ===== verification/LifecycleInvariants.thy ===== *)
theory LifecycleInvariants
  imports LifecycleService
begin

text \<open>
  The invariant of a plan session: its versions form a numbered chain of plans that passed hard
  validation and end in the active version, every lock holds in the active version, and a
  session awaits approval only of a valid preview. Every node keeps it, for any graph state,
  request and answers of the services, and so does the requirement dialogue.
\<close>

section \<open>The invariant\<close>

text \<open>The code reads a day lock's target both ways: it compares with \<open>isoformat\<close>, and it parses it.\<close>

definition names_day :: "string \<Rightarrow> py_date \<Rightarrow> bool" where
  "names_day x d \<longleftrightarrow> isoformat d = x \<or> fromisoformat x = Some d"

definition lock_holds :: "hashing \<Rightarrow> plan_candidate \<Rightarrow> plan_lock \<Rightarrow> bool" where
  "lock_holds h c l \<longleftrightarrow>
     (case lk_kind l of
        Lock_day \<Rightarrow> \<exists>d \<in> set (days c). names_day (lk_target l) (day_date d) \<and> day_fingerprint h d = expected_fingerprint l
      | Lock_item \<Rightarrow> \<exists>(d, i) \<in> set (dated_items c). item_id i = Some (lk_target l)
          \<and> item_fingerprint h i d = expected_fingerprint l)"

definition locks_hold :: "hashing \<Rightarrow> plan_candidate \<Rightarrow> (string \<times> plan_lock) list \<Rightarrow> bool" where
  "locks_hold h c ls \<longleftrightarrow> (\<forall>l \<in> snd ` set ls. lock_holds h c l)"

definition valid_plan :: "plan_candidate \<Rightarrow> bool" where
  "valid_plan c \<longleftrightarrow> (\<exists>v. validation c = Some v \<and> status v \<noteq> Invalid)"

definition version_entry_ok :: "nat \<Rightarrow> string \<times> plan_version \<Rightarrow> bool" where
  "version_entry_ok k e \<longleftrightarrow> fst e = version_key (k + 1) \<and> version_id (snd e) = version_key (k + 1) \<and>
     pv_number (snd e) = k + 1 \<and> parent_version_id (snd e) = (if k = 0 then None else Some (version_key k)) \<and>
     valid_plan (pv_candidate (snd e))"

definition version_chain :: "(string \<times> plan_version) list \<Rightarrow> bool" where
  "version_chain vs \<longleftrightarrow> (\<forall>k < length vs. version_entry_ok k (vs ! k))"

definition active_key :: "(string \<times> plan_version) list \<Rightarrow> string option" where
  "active_key vs = (if vs = [] then None else Some (version_key (length vs)))"

definition previews_ok :: "hashing \<Rightarrow> plan_session \<Rightarrow> bool" where
  "previews_ok h s \<longleftrightarrow> (\<forall>p \<in> snd ` set (previews s). base_revision p \<le> revision s \<and>
     (base_revision p = revision s \<longrightarrow> locks_hold h (pp_candidate p) (locks s)))"

definition approval_ok :: "plan_session \<Rightarrow> bool" where
  "approval_ok s \<longleftrightarrow> (ss_status s = Awaiting_change_approval \<longrightarrow>
     (\<exists>k p. pending_preview_id s = Some k \<and> map_of (previews s) k = Some p \<and> valid_plan (pp_candidate p)))"

definition session_inv :: "config \<Rightarrow> plan_session \<Rightarrow> bool" where
  "session_inv cf s \<longleftrightarrow> version_chain (versions s) \<and> active_version_id s = active_key (versions s) \<and>
     int (length (versions s)) \<le> max 1 (cf_max_versions cf) \<and>
     (ss_status s \<in> {Needs_requirement_clarification, Awaiting_candidate_selection} \<longrightarrow> versions s = []) \<and>
     (versions s = [] \<longrightarrow> locks s = []) \<and>
     (versions s \<noteq> [] \<longrightarrow> locks_hold (cf_hash cf) (pv_candidate (snd (last (versions s)))) (locks s)) \<and>
     previews_ok (cf_hash cf) s \<and> approval_ok s"

section \<open>Lemmas on the parts\<close>

lemma show_nat_inj: "show_nat a = show_nat b \<longleftrightarrow> a = b"
  by (metis show_nat_value)

lemma version_key_inj [simp]: "version_key a = version_key b \<longleftrightarrow> a = b"
  by (simp add: version_key_def show_nat_inj)

lemma update_fresh: "k \<notin> fst ` set xs \<Longrightarrow> AList.update k v xs = xs @ [(k, v)]"
  by (induction xs) auto

lemma chain_keys: "version_chain vs \<Longrightarrow> fst ` set vs = version_key ` {1..length vs}"
proof -
  assume chain: "version_chain vs"
  have "fst ` set vs = (\<lambda>k. fst (vs ! k)) ` {..<length vs}"
    by (auto simp: set_conv_nth image_iff) 
  also have "\<dots> = (\<lambda>k. version_key (Suc k)) ` {..<length vs}"
    using chain by (intro image_cong) (auto simp: version_chain_def version_entry_ok_def)
  also have "\<dots> = version_key ` (Suc ` {..<length vs})" by (simp add: image_image)
  also have "Suc ` {..<length vs} = {1..length vs}"
    using image_Suc_lessThan by simp
  finally show ?thesis .
qed

lemma chain_fresh: "version_chain vs \<Longrightarrow> version_key (length vs + 1) \<notin> fst ` set vs"
  by (auto simp: chain_keys)

lemma chain_snoc:
  "version_chain vs \<Longrightarrow> version_entry_ok (length vs) e \<Longrightarrow> version_chain (vs @ [e])"
  by (auto simp: version_chain_def nth_append less_Suc_eq)

lemma chain_active:
  assumes "version_chain vs" and "vs \<noteq> []"
  shows "map_of vs (version_key (length vs)) = Some (snd (last vs))"
proof -
  have n: "0 < length vs" using assms(2) by simp
  have entry: "fst (vs ! k) = version_key (k + 1)" if "k < length vs" for k
    using assms(1) that by (auto simp: version_chain_def version_entry_ok_def)
  then have "distinct (map fst vs)" by (auto simp: distinct_conv_nth)
  moreover have "(version_key (length vs), snd (last vs)) \<in> set vs"
    using entry [of "length vs - 1"] n assms(2) by (metis Suc_diff_1 Suc_eq_plus1 diff_less last_conv_nth last_in_set prod.collapse zero_less_one)
  ultimately show ?thesis by simp
qed

lemma active_version_Inr:
  assumes "active_version s = Inr v" and "version_chain (versions s)" and "active_version_id s = active_key (versions s)"
  shows "versions s \<noteq> []" and "v = snd (last (versions s))" and "version_id v = version_key (length (versions s))"
proof -
  show ne: "versions s \<noteq> []"
    using assms(1,3) by (auto simp: active_version_def active_key_def)
  then show v: "v = snd (last (versions s))"
    using assms chain_active by (auto simp: active_version_def active_key_def simp del: map_of_eq_Some_iff split: option.splits)
  show "version_id v = version_key (length (versions s))"
    using assms(2) ne unfolding v by (auto simp: version_chain_def version_entry_ok_def last_conv_nth dest!: spec [of _ "length (versions s) - 1"])
qed

lemma previews_ok_next:
  "previews_ok h s \<Longrightarrow> previews s' = previews s \<Longrightarrow> revision s' = revision s + 1 \<Longrightarrow> previews_ok h s'"
  by (auto simp: previews_ok_def)

text \<open>What most nodes leave alone.\<close>

definition same_plans :: "plan_session \<Rightarrow> plan_session \<Rightarrow> bool" where
  "same_plans s s' \<longleftrightarrow> versions s' = versions s \<and> active_version_id s' = active_version_id s \<and> locks s' = locks s \<and>
     previews s' = previews s \<and> pending_preview_id s' = pending_preview_id s \<and> session_id s' = session_id s"

lemma same_plans_refl [simp]: "same_plans s s"
  by (simp add: same_plans_def)

lemma same_plans_trans: "same_plans s t \<Longrightarrow> same_plans t u \<Longrightarrow> same_plans s u"
  by (simp add: same_plans_def)

lemma same_plans_updates [simp]:
  "same_plans s (s'\<lparr>monitor := m\<rparr>) = same_plans s s'"
  "same_plans s (s'\<lparr>ss_status := x\<rparr>) = same_plans s s'"
  "same_plans s (s'\<lparr>revision := n\<rparr>) = same_plans s s'"
  "same_plans s (s'\<lparr>receipts := rs\<rparr>) = same_plans s s'"
  "same_plans s (s'\<lparr>weather_snapshots := ws\<rparr>) = same_plans s s'"
  "same_plans s (s'\<lparr>weather_risks := wr\<rparr>) = same_plans s s'"
  "same_plans s (s'\<lparr>weather_events := we\<rparr>) = same_plans s s'"
  "same_plans s (s'\<lparr>snapshot := sn\<rparr>) = same_plans s s'"
  "same_plans s (s'\<lparr>external_interrupt := ex\<rparr>) = same_plans s s'"
  "same_plans s (s'\<lparr>ss_updated_at := ua\<rparr>) = same_plans s s'"
  by (simp_all add: same_plans_def)

lemma same_plans_commit [simp]: "same_plans s (commit r v p e s') = same_plans s s'"
  by (simp add: commit_def same_plans_def)

lemma commit_fields [simp]:
  "revision (commit r v p e s) = revision s + 1" "ss_status (commit r v p e s) = ss_status s"
  "versions (commit r v p e s) = versions s" "active_version_id (commit r v p e s) = active_version_id s"
  "locks (commit r v p e s) = locks s" "previews (commit r v p e s) = previews s"
  "pending_preview_id (commit r v p e s) = pending_preview_id s" "session_id (commit r v p e s) = session_id s"
  "monitor (commit r v p e s) = monitor s" "snapshot (commit r v p e s) = snapshot s"
  by (simp_all add: commit_def)

lemma same_plans_observation [simp]:
  "same_plans s (persist_weather_observation snap risks out ev evst n s') = same_plans s s'"
proof -
  have "same_plans t (trim_events n u) = same_plans t u" for t u
    by (simp add: trim_events_def Let_def)
  moreover have "same_plans t (store_event ev evst u) = same_plans t u" for t u
    by (cases ev) (simp_all add: store_event_def Let_def)
  moreover have "same_plans t (note_uncovered snap u) = same_plans t u" for t u
    by (cases "snapshot u") (simp_all add: note_uncovered_def)
  moreover have "same_plans t (store_snapshot snap risks u) = same_plans t u" for t u
    by (simp add: store_snapshot_def Let_def)
  ultimately show ?thesis by (simp add: persist_weather_observation_def)
qed

lemma observation_fields [simp]:
  "revision (persist_weather_observation snap risks out ev evst n s) = revision s"
  "ss_status (persist_weather_observation snap risks out ev evst n s) = ss_status s"
proof -
  have trim: "revision (trim_events n u) = revision u \<and> ss_status (trim_events n u) = ss_status u" for u
    by (simp add: trim_events_def Let_def)
  have ev: "revision (store_event ev evst u) = revision u \<and> ss_status (store_event ev evst u) = ss_status u" for u
    by (cases ev) (simp_all add: store_event_def Let_def)
  have unc: "revision (note_uncovered snap u) = revision u \<and> ss_status (note_uncovered snap u) = ss_status u" for u
    by (cases "snapshot u") (simp_all add: note_uncovered_def)
  have snp: "revision (store_snapshot snap risks u) = revision u \<and> ss_status (store_snapshot snap risks u) = ss_status u" for u
    by (simp add: store_snapshot_def Let_def)
  show "revision (persist_weather_observation snap risks out ev evst n s) = revision s"
    "ss_status (persist_weather_observation snap risks out ev evst n s) = ss_status s"
    by (simp_all add: persist_weather_observation_def trim ev unc snp)
qed

lemma inv_same_plans:
  assumes "session_inv cf s" and "same_plans s s'" and "revision s' = revision s + 1"
    and "ss_status s' = ss_status s \<or>
      ss_status s' \<notin> {Needs_requirement_clarification, Awaiting_candidate_selection, Awaiting_change_approval}"
  shows "session_inv cf s'"
  using assms previews_ok_next [of "cf_hash cf" s s']
  by (auto simp: session_inv_def same_plans_def approval_ok_def)

section \<open>Nodes that leave the plans alone\<close>

definition quiet :: "plan_session \<Rightarrow> outcome \<Rightarrow> bool" where
  "quiet s out \<longleftrightarrow> (\<forall>s'. fst out = Some s' \<longrightarrow> same_plans s s' \<and> revision s' = revision s + 1 \<and>
     (ss_status s' = ss_status s \<or>
      ss_status s' \<notin> {Needs_requirement_clarification, Awaiting_candidate_selection, Awaiting_change_approval}))"

lemma outcome_simps [simp]:
  "fst (raises e) = None" "fst (yields st) = None" "fst (saves s st) = Some s"
  "fst (attempt r f) = Some s' \<longleftrightarrow> (\<exists>x. r = Inr x \<and> fst (f x) = Some s')"
  by (simp_all add: raises_def yields_def saves_def attempt_def split: sum.splits)

lemma quiet_intros [intro!]:
  "quiet s (raises e)" "quiet s (yields st)" "quiet s (None, res)"
  by (simp_all add: quiet_def)

lemma quiet_attempt [intro!]: "(\<And>x. r = Inr x \<Longrightarrow> quiet s (f x)) \<Longrightarrow> quiet s (attempt r f)"
  by (auto simp: quiet_def)

lemma quiet_terminal [intro!]: "quiet s (weather_terminal cf r snap risks out ev evst msg st s)"
  by (simp add: quiet_def weather_terminal_def)

lemma quiet_failure [intro!]: "quiet s (weather_failure sv res err s)"
  by (auto simp: quiet_def weather_failure_def mark_weather_failed_def same_plans_def split: option.splits)

lemma quiet_nodes:
  "quiet s (await_user_action r st s)"
  "quiet s (resolve_weather_location cf sv r st s)"
  "quiet s (fetch_weather_snapshot cf sv r st s)"
  "quiet s (derive_weather_change cf sv st s)"
  "quiet s (deduplicate_weather_event cf r st s)"
  "quiet s (analyze_weather_change_impact cf r st s)"
  "quiet s (build_weather_repair cf sv r st s)"
  "quiet s (parse_edit sv r st s)"
  "quiet s (apply_edit_clarification r st s)"
proof -
  show "quiet s (await_user_action r st s)" by (auto simp: await_user_action_def)
  show "quiet s (resolve_weather_location cf sv r st s)"
    by (auto simp: resolve_weather_location_def Let_def split: option.splits)
  show "quiet s (fetch_weather_snapshot cf sv r st s)" by (auto simp: fetch_weather_snapshot_def Let_def)
  show "quiet s (derive_weather_change cf sv st s)" by (auto simp: derive_weather_change_def Let_def)
  show "quiet s (deduplicate_weather_event cf r st s)"
    by (auto simp: deduplicate_weather_event_def Let_def split: option.splits)
  show "quiet s (analyze_weather_change_impact cf r st s)" by (auto simp: analyze_weather_change_impact_def Let_def)
  show "quiet s (build_weather_repair cf sv r st s)"
    by (auto simp: build_weather_repair_def Let_def split: option.splits)
  show "quiet s (parse_edit sv r st s)"
    by (auto simp: parse_edit_def split: lifecycle_action.splits option.splits)
  show "quiet s (apply_edit_clarification r st s)"
    by (auto simp: apply_edit_clarification_def split: lifecycle_action.splits option.splits)
qed

lemma quiet_dismiss: "quiet s (dismiss_weather_event r st s)"
  by (auto simp: dismiss_weather_event_def quiet_def simp del: map_of_eq_Some_iff
      split: lifecycle_action.splits option.splits if_splits)

lemma quiet_impact: "quiet s (analyze_impact cf r st s)"
proof -
  have save: "quiet s (saves (commit r v p e (s\<lparr>ss_status := x\<rparr>)) st')"
    if "x \<notin> {Needs_requirement_clarification, Awaiting_candidate_selection, Awaiting_change_approval}" for v p e x st'
    using that by (simp add: quiet_def)
  show ?thesis
    unfolding analyze_impact_def
    by (auto simp: Let_def intro!: save split: sum.splits lifecycle_error.splits)
qed

section \<open>Nodes that change the plans\<close>

definition good_save :: "config \<Rightarrow> plan_session \<Rightarrow> plan_session \<Rightarrow> bool" where
  "good_save cf s s' \<longleftrightarrow> session_inv cf s' \<and> revision s' = revision s + 1 \<and> session_id s' = session_id s"

lemma quiet_good:
  "session_inv cf s \<Longrightarrow> quiet s out \<Longrightarrow> fst out = Some s' \<Longrightarrow> good_save cf s s'"
  using inv_same_plans [of cf s s'] by (simp add: quiet_def good_save_def same_plans_def)

lemma with_stable_ids_validation [simp]: "validation (with_stable_item_ids h sid c) = validation c"
  by (simp add: with_stable_item_ids_def)

lemma first_version_ok:
  assumes "first_version cf sv r s ps cid = Inr v"
  shows "version_entry_ok 0 (version_id v, v)"
proof -
  have "version_id v = ''V1'' \<and> pv_number v = 1 \<and> parent_version_id v = None \<and> valid_plan (pv_candidate v)"
    using assms
    by (auto simp: first_version_def Let_def valid_plan_def split: option.splits if_splits)
  moreover have "version_key 1 = ''V1''" by code_simp
  ultimately show ?thesis by (simp add: version_entry_ok_def)
qed

lemma select_good:
  assumes inv: "session_inv cf s" and run: "fst (select_candidate cf sv r st s) = Some s'"
  shows "good_save cf s s' \<and> (\<exists>v. versions s' = versions s @ [(version_id v, v)])"
proof -
  obtain ps cid v where st: "ss_status s = Awaiting_candidate_selection"
    and v: "first_version cf sv r s ps cid = Inr v"
    and s': "s' = commit r (Some (version_id v)) None None (s\<lparr>versions := AList.update (version_id v) v (versions s),
               active_version_id := Some (version_id v), ss_status := Active\<rparr>)"
    using run by (auto simp: select_candidate_def split: if_splits)
  have empty: "versions s = []" "locks s = []" using inv st by (auto simp: session_inv_def)
  have key: "version_id v = version_key 1" using first_version_ok [OF v] by (simp add: version_entry_ok_def)
  have vs: "versions s' = [(version_id v, v)]" using empty s' by simp
  have "version_chain (versions s')" using first_version_ok [OF v] by (simp add: vs version_chain_def)
  moreover have "previews_ok (cf_hash cf) s'"
    by (rule previews_ok_next [of _ s]) (use inv in \<open>simp_all add: s' session_inv_def\<close>)
  moreover have fields: "active_version_id s' = Some (version_key 1)" "locks s' = []" "ss_status s' = Active"
      "revision s' = revision s + 1" "session_id s' = session_id s"
    using empty key s' by simp_all
  ultimately have "session_inv cf s'"
    by (simp add: session_inv_def vs active_key_def approval_ok_def locks_hold_def)
  then show ?thesis using empty vs fields by (auto simp: good_save_def)
qed

lemma lock_fingerprint_holds:
  assumes "lock_fingerprint h sid c k x = Inr fp" and "lk_kind l = k" and "lk_target l = x" and "expected_fingerprint l = fp"
  shows "lock_holds h c l"
proof (cases k)
  case Lock_day
  then obtain d where "List.find (\<lambda>d. isoformat (day_date d) = x) (days c) = Some d" "fp = day_fingerprint h d"
    using assms(1) by (auto simp: lock_fingerprint_def split: option.splits)
  then have "d \<in> set (days c)" "isoformat (day_date d) = x" by (auto simp: find_Some_iff)
  then show ?thesis
    using assms Lock_day \<open>fp = day_fingerprint h d\<close> by (auto simp: lock_holds_def names_day_def)
next
  case Lock_item
  then obtain d i where "List.find (\<lambda>(d, i). item_id i = Some x) (dated_items c) = Some (d, i)" "fp = item_fingerprint h i d"
    using assms(1) by (auto simp: lock_fingerprint_def split: option.splits prod.splits)
  then have "(d, i) \<in> set (dated_items c) \<and> item_id i = Some x"
    by (auto simp: find_Some_iff) (metis nth_mem)
  then show ?thesis
    using assms Lock_item \<open>fp = item_fingerprint h i d\<close> by (auto simp: lock_holds_def)
qed

lemma in_update: "e \<in> set (AList.update k v xs) \<Longrightarrow> e = (k, v) \<or> e \<in> set xs"
  by (induction xs) (auto split: if_splits)

lemma changed_locks_hold:
  assumes "changed_locks cf sv r s c = Inr ls" and "locks_hold (cf_hash cf) c (locks s)"
  shows "locks_hold (cf_hash cf) c ls"
proof (cases "action r")
  case (Lock_action k x)
  then obtain fp where fp: "lock_fingerprint (cf_hash cf) (session_id s) c k x = Inr fp"
    and ls: "ls = AList.update (lock_key k x) \<lparr>lock_id = lock_key k x, lk_kind = k, lk_target = x,
            expected_fingerprint = fp, lk_created_by = request_id r, lk_created_at = sv_now sv\<rparr> (locks s)"
    using assms(1) by (auto simp: changed_locks_def)
  show ?thesis
    using assms(2) lock_fingerprint_holds [OF fp] unfolding ls locks_hold_def
    by (auto dest!: in_update)
next
  case (Unlock_action k x)
  then have "set ls \<subseteq> set (locks s)"
    using assms(1) by (auto simp: changed_locks_def AList.delete_eq split: if_splits)
  then show ?thesis using assms(2) by (auto simp: locks_hold_def)
qed (use assms in \<open>simp_all add: changed_locks_def\<close>)

lemma change_lock_good:
  assumes inv: "session_inv cf s" and run: "fst (change_lock cf sv r st s) = Some s'"
  shows "good_save cf s s' \<and> versions s' = versions s"
proof -
  obtain v ls where v: "active_version s = Inr v" and ls: "changed_locks cf sv r s (pv_candidate v) = Inr ls"
    and s': "s' = commit r None None None (s\<lparr>locks := ls, ss_status := Active\<rparr>)"
    using run by (auto simp: change_lock_def split: if_splits)
  have chain: "version_chain (versions s)" "active_version_id s = active_key (versions s)"
    using inv by (auto simp: session_inv_def)
  note act = active_version_Inr [OF v chain]
  have "locks_hold (cf_hash cf) (pv_candidate v) (locks s)" using inv act by (auto simp: session_inv_def)
  then have hold: "locks_hold (cf_hash cf) (pv_candidate (snd (last (versions s)))) ls"
    using changed_locks_hold [OF ls] act(2) by simp
  have "previews_ok (cf_hash cf) s'"
    using inv s' by (auto simp: session_inv_def previews_ok_def)
  then have "session_inv cf s'"
    using inv hold act(1) s' by (auto simp: session_inv_def approval_ok_def)
  then show ?thesis using s' by (simp add: good_save_def)
qed

section \<open>Filing a preview\<close>

lemma fold_res_unit: "fold_res (\<lambda>x u. f x) xs () = Inr () \<longleftrightarrow> (\<forall>x \<in> set xs. f x = Inr ())"
proof (induction xs)
  case (Cons x xs)
  then show ?case by (cases "f x") simp_all
qed simp

lemma check_lock_holds:
  assumes "check_lock h c l = Inr ()"
  shows "lock_holds h c l"
proof (cases "lk_kind l")
  case Lock_day
  then obtain d day where d: "fromisoformat (lk_target l) = Some d" and day: "map_of (days_by_date c) d = Some day"
    and fp: "day_fingerprint h day = expected_fingerprint l"
    using assms by (auto simp: check_lock_def simp del: map_of_eq_Some_iff split: option.splits if_splits)
  have "day \<in> set (days c)" "day_date day = d"
    using dict_of_SomeD [OF day [unfolded days_by_date_def]] by auto
  then show ?thesis using Lock_day d fp by (auto simp: lock_holds_def names_day_def)
next
  case Lock_item
  then obtain d i where "List.find (\<lambda>(d, i). item_id i = Some (lk_target l)) (dated_items c) = Some (d, i)"
      "item_fingerprint h i d = expected_fingerprint l"
    using assms by (auto simp: check_lock_def split: option.splits if_splits)
  moreover from this have "(d, i) \<in> set (dated_items c) \<and> item_id i = Some (lk_target l)"
    by (auto simp: find_Some_iff) (metis nth_mem)
  ultimately show ?thesis using Lock_item by (auto simp: lock_holds_def)
qed

lemma check_locks_hold: "check_locks h c s = Inr () \<Longrightarrow> locks_hold h c (locks s)"
  using check_lock_holds by (auto simp: check_locks_def fold_res_unit locks_hold_def)

lemma edited_candidate_validated:
  assumes "edited_candidate cf s trip draft ids pois routes = Inr c"
  shows "validation c \<noteq> None"
proof -
  obtain cs where "(case cs of [] \<Rightarrow> Inl Index_error
       | raw # _ \<Rightarrow> (let c = label_candidate ids (item_locks s) raw
            in Inr (c\<lparr>validation := Some (validate_candidate trip c (map Planning_poi pois))\<rparr>))) = Inr c"
    using assms unfolding edited_candidate_def bind_res_eq_Inr by blast
  then show ?thesis by (cases cs) (auto simp: Let_def)
qed

lemma make_preview_facts:
  assumes "make_preview cf sv r st s trip v ops = Inr p"
  shows "preview_id p = preview_key s" and "base_version_id p = version_id v" and "base_revision p = revision s + 1"
    and "validation (pp_candidate p) = Some (hard_validation p)" and "locks_hold (cf_hash cf) (pp_candidate p) (locks s)"
proof -
  obtain c draft ids pois routes where c: "edited_candidate cf s trip draft ids pois routes = Inr c"
      "check_locks (cf_hash cf) c s = Inr ()"
      "preview_id p = preview_key s" "base_version_id p = version_id v" "base_revision p = revision s + 1"
      "pp_candidate p = c" "hard_validation p = the (validation c)"
    using assms by (auto simp: make_preview_def Let_def)
  then show "preview_id p = preview_key s" "base_version_id p = version_id v" "base_revision p = revision s + 1"
    by simp_all
  show "validation (pp_candidate p) = Some (hard_validation p)"
    using c edited_candidate_validated [OF c(1)] by auto
  show "locks_hold (cf_hash cf) (pp_candidate p) (locks s)"
    using check_locks_hold [OF c(2)] c(6) by simp
qed

lemma record_trigger_quiet [simp]:
  "same_plans s (record_trigger cf st ok s') = same_plans s s'"
  "revision (record_trigger cf st ok s) = revision s"
  by (simp_all add: record_trigger_def split: option.splits)

lemma link_receipt_quiet:
  "link_receipt st k s = Inr s' \<Longrightarrow> same_plans s s' \<and> revision s' = revision s \<and> ss_status s' = ss_status s"
  by (auto simp: link_receipt_def split: option.splits)

lemma build_preview_run:
  assumes "fst (build_preview cf sv r st s) = Some s'"
  obtains ps v ops p where "snapshot s = Some ps" "active_version s = Inr v" "st_edit_patch st = Some ops"
    "make_preview cf sv r st s (ps_trip ps) v ops = Inr p"
    "versions s' = versions s" "active_version_id s' = active_version_id s" "locks s' = locks s"
    "session_id s' = session_id s" "revision s' = revision s + 1"
    "previews s' = AList.update (preview_id p) p (previews s)" "pending_preview_id s' = Some (preview_id p)"
    "ss_status s' = (if preview_valid (hard_validation p) then Awaiting_change_approval else Change_rejected)"
proof -
  obtain ps v ops p where run: "snapshot s = Some ps" "active_version s = Inr v" "st_edit_patch st = Some ops"
      "make_preview cf sv r st s (ps_trip ps) v ops = Inr p" "link_receipt st (preview_id p) (file_preview cf r st p s) = Inr s'"
    using assms by (auto simp: build_preview_def asserted_def validated_def Let_def split: option.splits)
  define t where "t = record_trigger cf st (preview_valid (hard_validation p)) s"
  have t: "same_plans s t" "revision t = revision s" by (simp_all add: t_def)
  have "same_plans (file_preview cf r st p s) s'" and "revision s' = revision (file_preview cf r st p s)"
      and "ss_status s' = ss_status (file_preview cf r st p s)"
    using link_receipt_quiet [OF run(5)] by auto
  then show ?thesis
    using run t by (intro that [of ps v ops p]) (simp_all add: file_preview_def Let_def t_def [symmetric] same_plans_def)
qed

lemma build_preview_good:
  assumes inv: "session_inv cf s" and run: "fst (build_preview cf sv r st s) = Some s'"
  shows "good_save cf s s' \<and> versions s' = versions s"
  using run
proof (cases rule: build_preview_run)
  case (1 ps v ops p)
  note mk = 1(4) and s' = 1(5-12)
  note p = make_preview_facts [OF mk]
  have old: "base_revision q \<le> revision s" if "q \<in> snd ` set (previews s)" for q
    using inv that by (auto simp: session_inv_def previews_ok_def)
  have "previews_ok (cf_hash cf) s'"
    unfolding previews_ok_def s'
  proof
    fix q assume "q \<in> snd ` set (AList.update (preview_id p) p (previews s))"
    then consider "q = p" | "q \<in> snd ` set (previews s)" by (auto dest!: in_update)
    then show "base_revision q \<le> revision s + 1 \<and> (base_revision q = revision s + 1 \<longrightarrow> locks_hold (cf_hash cf) (pp_candidate q) (locks s))"
    proof cases
      case 1
      then show ?thesis using p by simp
    next
      case 2
      from old [OF 2] show ?thesis by simp
    qed
  qed
  moreover have "approval_ok s'"
    using p(4) by (auto simp: approval_ok_def s' update_conv' valid_plan_def preview_valid_def)
  moreover have "ss_status s' \<notin> {Needs_requirement_clarification, Awaiting_candidate_selection}"
    by (simp add: s')
  ultimately have "session_inv cf s'"
    using inv by (simp add: session_inv_def s'(1-3))
  then show ?thesis using s' by (simp add: good_save_def)
qed

section \<open>Approval\<close>

lemma update_event_receipt_quiet [simp]:
  "same_plans s (update_event_receipt p x v s') = same_plans s s'"
  "revision (update_event_receipt p x v s) = revision s" "ss_status (update_event_receipt p x v s) = ss_status s"
  by (simp_all add: update_event_receipt_def split: option.splits)

lemma update_event_receipt_fields [simp]:
  "versions (update_event_receipt p x v s) = versions s" "locks (update_event_receipt p x v s) = locks s"
  "active_version_id (update_event_receipt p x v s) = active_version_id s"
  "previews (update_event_receipt p x v s) = previews s" "session_id (update_event_receipt p x v s) = session_id s"
  using update_event_receipt_quiet(1) [of s p x v s] by (simp_all add: same_plans_def)

lemma resolve_approval_run:
  assumes "fst (resolve_approval cf sv r st s) = Some s'"
  obtains k p token where "ss_status s = Awaiting_change_approval" "pending_preview_id s = Some k" "map_of (previews s) k = Some p"
      "action r = Approve_preview (preview_id p) token" "approval_hash (cf_hash cf) token = approval_token_hash p"
      "active_version_id s = Some (base_version_id p)" "base_revision p = revision s"
      "int (length (versions s)) < cf_max_versions cf"
      "versions s' = AList.update (version_key (length (versions s) + 1)) (next_version cf sv r s p) (versions s)"
      "active_version_id s' = Some (version_key (length (versions s) + 1))" "locks s' = locks s" "session_id s' = session_id s"
      "previews s' = AList.update k (p\<lparr>pp_status := Approved\<rparr>) (previews s)" "revision s' = revision s + 1" "ss_status s' = Active"
  | k p where "ss_status s = Awaiting_change_approval" "pending_preview_id s = Some k" "map_of (previews s) k = Some p"
      "action r = Reject_preview (preview_id p)" "versions s' = versions s"
      "active_version_id s' = active_version_id s" "locks s' = locks s" "session_id s' = session_id s"
      "previews s' = AList.update k (p\<lparr>pp_status := Rejected\<rparr>) (previews s)" "revision s' = revision s + 1" "ss_status s' = Active"
proof -
  obtain k p where st: "ss_status s = Awaiting_change_approval" "pending_preview_id s = Some k" "map_of (previews s) k = Some p"
    using assms by (auto simp: resolve_approval_def simp del: map_of_eq_Some_iff split: if_splits option.splits)
  consider (app) token where "action r = Approve_preview (preview_id p) token"
      "fst (approve_preview cf sv r st s k p token) = Some s'"
    | (rej) "action r = Reject_preview (preview_id p)" "fst (reject_preview r st s k p) = Some s'"
    using assms st by (cases "action r") (auto simp: resolve_approval_def split: if_splits)
  then show ?thesis
  proof cases
    case app
    have "version_id (next_version cf sv r s p) = version_key (length (versions s) + 1)" by (simp add: next_version_def)
    then show ?thesis
      using app(2) by (intro that(1) [OF st app(1)])
        (auto simp: approve_preview_def Let_def set_preview_status_def split: if_splits)
  next
    case rej
    then show ?thesis
      by (intro that(2) [OF st rej(1)]) (auto simp: reject_preview_def set_preview_status_def)
  qed
qed

lemma updated_previews_ok:
  assumes "previews_ok h s" and "map_of (previews s) k = Some p" and "base_revision q = base_revision p"
    and "previews s' = AList.update k q (previews s)" and "revision s' = revision s + 1"
  shows "previews_ok h s'"
proof -
  have "p \<in> snd ` set (previews s)" using assms(2) by (force dest: map_of_SomeD)
  then have "base_revision x \<le> revision s" if "x \<in> snd ` set (AList.update k q (previews s))" for x
    using that assms(1,3) by (auto simp: previews_ok_def dest!: in_update)
  then show ?thesis using assms(4,5) by (fastforce simp: previews_ok_def)
qed

lemma resolve_approval_good:
  assumes inv: "session_inv cf s" and run: "fst (resolve_approval cf sv r st s) = Some s'"
  shows "good_save cf s s' \<and> (versions s' = versions s \<or> (\<exists>v. versions s' = versions s @ [(version_id v, v)]))"
  using run
proof (cases rule: resolve_approval_run)
  case (1 k p token)
  have chain: "version_chain (versions s)" and act: "active_version_id s = active_key (versions s)"
    and prev: "previews_ok (cf_hash cf) s"
    using inv by (simp_all add: session_inv_def)
  let ?v = "next_version cf sv r s p" and ?n = "length (versions s)"
  have vs: "versions s' = versions s @ [(version_key (?n + 1), ?v)]"
    using 1(9) update_fresh [OF chain_fresh [OF chain]] by simp
  have ne: "versions s \<noteq> []" using 1(6) act by (auto simp: active_key_def)
  have base: "base_version_id p = version_key ?n" using 1(6) act ne by (simp add: active_key_def)
  have "valid_plan (pp_candidate p)" using inv 1(1-3) by (auto simp: session_inv_def approval_ok_def)
  then have entry: "version_entry_ok ?n (version_key (?n + 1), ?v)"
    using base ne by (simp add: version_entry_ok_def next_version_def)
  have "p \<in> snd ` set (previews s)" using 1(3) by (force dest: map_of_SomeD)
  then have hold: "locks_hold (cf_hash cf) (pv_candidate ?v) (locks s)"
    using prev 1(7) by (auto simp: previews_ok_def next_version_def)
  have "previews_ok (cf_hash cf) s'"
    by (rule updated_previews_ok [OF prev 1(3) _ 1(13,14)]) simp
  moreover have "version_chain (versions s')" unfolding vs by (rule chain_snoc [OF chain entry])
  ultimately have "session_inv cf s'"
    using hold 1(8) by (simp add: session_inv_def vs 1(10,11,15) active_key_def approval_ok_def)
  moreover have "version_id ?v = version_key (?n + 1)" by (simp add: next_version_def)
  ultimately show ?thesis using vs 1(12,14) by (auto simp: good_save_def)
next
  case (2 k p)
  have prev: "previews_ok (cf_hash cf) s" using inv by (simp add: session_inv_def)
  have "previews_ok (cf_hash cf) s'"
    by (rule updated_previews_ok [OF prev 2(3) _ 2(9,10)]) simp
  then have "session_inv cf s'"
    using inv by (simp add: session_inv_def 2(5-7,11) approval_ok_def)
  then show ?thesis using 2(5,8,10) by (simp add: good_save_def)
qed

end
