(* ===== verification/LifecycleSafety.thy ===== *)
theory LifecycleSafety
  imports LifecycleInvariants LifecycleEditFacts
begin

text \<open>
  The safety properties of the plan lifecycle over all reachable sessions: the sessions that
  can be created, and what the requirement dialogue and any node make of a reachable
  session, with any graph state, request and answers of the services. This allows more runs
  than the graph does, so what holds here holds of the program.
\<close>

section \<open>Reachable sessions\<close>

inductive reachable :: "config \<Rightarrow> plan_session \<Rightarrow> bool" for cf :: config where
  planned: "reachable cf (new_session sid tenant user intake Awaiting_candidate_selection (Some snap) None now)"
| asked: "reachable cf (new_session sid tenant user intake Needs_requirement_clarification None ext now)"
| answered: "reachable cf s \<Longrightarrow> ss_status s = Needs_requirement_clarification \<Longrightarrow>
    answered_session answer r s = Some s' \<Longrightarrow> reachable cf (s'\<lparr>ss_updated_at := now\<rparr>)"
| node: "reachable cf s \<Longrightarrow> fst (node_body cf sv n r st s) = Some s' \<Longrightarrow> reachable cf (s'\<lparr>ss_updated_at := now\<rparr>)"

lemma node_quiet:
  "n \<notin> {N_select, N_lock, N_preview, N_approval} \<Longrightarrow> quiet s (node_body cf sv n r st s)"
  using quiet_nodes quiet_dismiss quiet_impact by (cases n) auto

lemma quiet_versions: "quiet s out \<Longrightarrow> fst out = Some s' \<Longrightarrow> versions s' = versions s"
  by (simp add: quiet_def same_plans_def)

lemma node_step:
  assumes inv: "session_inv cf s" and run: "fst (node_body cf sv n r st s) = Some s'"
  shows "good_save cf s s' \<and> (versions s' = versions s \<or> (\<exists>v. versions s' = versions s @ [(version_id v, v)]))"
proof -
  consider "n = N_select" | "n = N_lock" | "n = N_preview" | "n = N_approval"
    | (quiet) "n \<notin> {N_select, N_lock, N_preview, N_approval}" by blast
  then show ?thesis
  proof cases
    case quiet
    note q = node_quiet [OF this, of s cf sv r st]
    show ?thesis using quiet_good [OF inv q run] quiet_versions [OF q run] by blast
  qed (use run select_good [OF inv] change_lock_good [OF inv] build_preview_good [OF inv] resolve_approval_good [OF inv] in auto)
qed

lemma inv_updated_at: "session_inv cf (s\<lparr>ss_updated_at := now\<rparr>) = session_inv cf s"
  by (simp add: session_inv_def previews_ok_def approval_ok_def)

lemma new_session_inv:
  "st \<noteq> Awaiting_change_approval \<Longrightarrow> session_inv cf (new_session sid tenant user intake st snap ext now)"
  by (simp add: session_inv_def new_session_def version_chain_def active_key_def previews_ok_def approval_ok_def)

lemma answered_inv:
  assumes "session_inv cf s" and "ss_status s = Needs_requirement_clarification" and "answered_session answer r s = Some s'"
  shows "session_inv cf s' \<and> revision s' = revision s + 1 \<and> session_id s' = session_id s"
proof (cases answer)
  case (Intake_done snap)
  then have "s' = commit r None None None s\<lparr>snapshot := Some snap, ss_status := Awaiting_candidate_selection, external_interrupt := None\<rparr>"
    using assms(3) by (simp add: answered_session_def)
  then show ?thesis
    using assms(1,2) by (auto simp: session_inv_def approval_ok_def previews_ok_def)
next
  case (Intake_question ext msg)
  then have s': "s' = commit r None None None s\<lparr>external_interrupt := ext\<rparr>"
    using assms(3) by (simp add: answered_session_def)
  have "session_inv cf s'" by (rule inv_same_plans [OF assms(1)]) (simp_all add: s')
  then show ?thesis by (simp add: s')
qed (use assms(3) in \<open>simp add: answered_session_def\<close>)

lemma reachable_inv: "reachable cf s \<Longrightarrow> session_inv cf s"
proof (induction rule: reachable.induct)
  case (answered s answer r s' now)
  then show ?case using answered_inv by (simp add: inv_updated_at)
next
  case (node s sv n r st s' now)
  then show ?case using node_step by (simp add: inv_updated_at good_save_def)
qed (simp_all add: new_session_inv)

section \<open>A concrete session\<close>

definition plain_config :: config where
  "plain_config = \<lparr>cf_hash = plain_hashing, cf_chars = (\<lambda>es. 100 * int (length es)), cf_metres = (\<lambda>a b. 1000),
     cf_routes = \<lparr>rs_strategy = 0, rs_mode = Driving, rs_modes = None, rs_max_walking_leg = 1500\<rparr>,
     cf_poi_limit = 10, cf_defaults = Assume_with_warning, cf_critic = default_critic_policy,
     cf_evidence = default_evidence_budget, cf_max_days = 2, cf_max_versions = 20, cf_max_events = 50,
     cf_max_searches = 4, cf_max_alternatives = 6, cf_min_confidence = 8 / 10\<rparr>"

definition silent_services :: services where
  "silent_services = \<lparr>sv_search = (\<lambda>_. []), sv_routes = (\<lambda>_. []), sv_parse = (\<lambda>_. Inl (Value_error [])),
     sv_critic = None, sv_weather = None, sv_token = ''secret'', sv_now = at_time 739880 8 0\<rparr>"

definition checked_plan :: plan_candidate where
  "checked_plan = sample_plan\<lparr>validation := Some \<lparr>status = Valid, violations = []\<rparr>\<rparr>"

definition sample_snapshot :: planning_snapshot where
  "sample_snapshot = \<lparr>ps_trip = sample_trip, ps_candidates = [checked_plan], ps_recommended = ''balanced-r0'',
     ps_drafts = [sample_draft], ps_pois = sample_pois, ps_routes = [], ps_critic_status = Critic_disabled\<rparr>"

definition planned_session :: plan_session where
  "planned_session = new_session ''s'' ''local'' ''demo'' None Awaiting_candidate_selection (Some sample_snapshot) None (at_time 739880 8 0)"

definition request :: "string \<Rightarrow> lifecycle_action \<Rightarrow> resume_request" where
  "request rid a = \<lparr>interrupt_id = ''i'', request_id = rid, expected_version = None, expected_revision = None, action = a\<rparr>"

definition version_one :: plan_version where
  "version_one = \<lparr>version_id = ''V1'', pv_number = 1, parent_version_id = None, pv_request_id = ''r1'',
     selected_candidate_id = ''balanced-r0'', pv_candidate = with_stable_item_ids plain_hashing ''s'' checked_plan,
     pv_draft = sample_draft, pv_pois = sample_pois, pv_routes = [],
     pv_fingerprint = plan_fingerprint plain_hashing (with_stable_item_ids plain_hashing ''s'' checked_plan),
     pv_trigger = None, pv_critic_status = Critic_disabled, pv_created_at = at_time 739880 8 0\<rparr>"

definition selected_session :: plan_session where
  "selected_session = commit (request ''r1'' Accept_recommendation) (Some ''V1'') None None
     (planned_session\<lparr>versions := [(''V1'', version_one)], active_version_id := Some ''V1'', ss_status := Active\<rparr>)"

lemma select_planned:
  "fst (node_body plain_config silent_services N_select (request ''r1'' Accept_recommendation) st planned_session) = Some selected_session"
  by (simp add: select_candidate_def ensure_expected_def request_def planned_session_def new_session_def asserted_def
      sample_snapshot_def candidate_choice_def first_version_def checked_plan_def sample_plan_def sample_candidate_def
      sample_draft_def selected_session_def version_one_def plain_config_def silent_services_def Let_def)

lemma reachable_node: "reachable cf s \<Longrightarrow> fst (node_body cf sv n r st s) = Some s' \<Longrightarrow> reachable cf s'"
  using reachable.node [of cf s sv n r st s' "ss_updated_at s'"] by simp

lemma reachable_selected: "reachable plain_config selected_session"
  by (rule reachable_node [OF _ select_planned]) (simp add: planned_session_def reachable.planned)

lemma active_selected: "active_version selected_session = Inr version_one"
  by (simp add: active_version_def selected_session_def planned_session_def new_session_def commit_def)

definition relabelled :: "string \<Rightarrow> string \<Rightarrow> int \<Rightarrow> int \<Rightarrow> int \<Rightarrow> rat \<Rightarrow> plan_item" where
  "relabelled pid name d h1 h2 cost = (sample_item pid name d h1 h2 cost)\<lparr>locked := False\<rparr>"

lemma items_one: "dated_items (pv_candidate version_one) =
   [(739891, relabelled ''p1'' ''Lt'' 739891 12 14 50), (739892, relabelled ''p2'' ''Su'' 739892 14 16 0),
    (739892, relabelled ''p3'' ''Mu'' 739892 10 12 20)]"
  by (simp add: version_one_def checked_plan_def sample_plan_def sample_candidate_def with_stable_item_ids_def
      sample_day_def dated_items_def Let_def given_def sample_item_def relabelled_def)

definition item_lock :: plan_lock where
  "item_lock = \<lparr>lock_id = ''item:item_p2'', lk_kind = Lock_item, lk_target = ''item_p2'',
     expected_fingerprint = item_fingerprint plain_hashing (relabelled ''p2'' ''Su'' 739892 14 16 0) 739892,
     lk_created_by = ''r2'', lk_created_at = at_time 739880 8 0\<rparr>"

definition locked_session :: plan_session where
  "locked_session = commit (request ''r2'' (Lock_action Lock_item ''item_p2'')) None None None
     (selected_session\<lparr>locks := [(''item:item_p2'', item_lock)], ss_status := Active\<rparr>)"

lemma lock_selected:
  "fst (node_body plain_config silent_services N_lock (request ''r2'' (Lock_action Lock_item ''item_p2'')) st selected_session)
     = Some locked_session"
proof -
  have "ss_status selected_session = Active" "session_id selected_session = ''s''" "locks selected_session = []"
    by (simp_all add: selected_session_def planned_session_def new_session_def)
  then show ?thesis
    by (simp add: change_lock_def ensure_expected_def request_def editable_def active_selected changed_locks_def
        lock_fingerprint_def items_one relabelled_def sample_item_def locked_session_def item_lock_def lock_key_def
        plain_config_def silent_services_def)
qed

lemma reachable_locked: "reachable plain_config locked_session"
  by (rule reachable_node [OF reachable_selected lock_selected])

section \<open>Versions\<close>

text \<open>
  C7. In every reachable session the versions are numbered V1, V2, ... without gaps, each the
  child of the one before, there are at most \<open>max_versions\<close> of them (and one at least is always
  allowed), the last one is the active version, and every version passed hard validation.
\<close>

theorem versions_form_a_valid_chain:
  assumes "reachable cf s"
  shows "version_chain (versions s) \<and> active_version_id s = active_key (versions s) \<and>
     int (length (versions s)) \<le> max 1 (cf_max_versions cf)"
  using reachable_inv [OF assms] by (simp add: session_inv_def)

theorem versions_form_a_valid_chain_witness:
  "\<exists>s :: plan_session. versions s \<noteq> [] \<and> version_chain (versions s) \<and> active_version_id s = active_key (versions s) \<and>
     int (length (versions s)) \<le> max 1 (cf_max_versions plain_config)"
proof -
  have "versions locked_session \<noteq> []" by (simp add: locked_session_def selected_session_def)
  then show ?thesis
    using versions_form_a_valid_chain [OF reachable_locked] by (intro exI [of _ locked_session]) simp
qed

text \<open>
  C2. Every lock holds: in a reachable session with an active version, each locked day and
  each locked item is part of the active version, with the content it had when it was locked
  (the same fingerprint), however many edits and weather repairs were approved since.
\<close>

theorem locks_hold_in_active_version:
  assumes "reachable cf s" and "active_version s = Inr v" and "(k, l) \<in> set (locks s)"
  shows "lock_holds (cf_hash cf) (pv_candidate v) l"
proof -
  have inv: "session_inv cf s" using assms(1) by (rule reachable_inv)
  then have "versions s \<noteq> []" "v = snd (last (versions s))"
    using active_version_Inr [OF assms(2)] by (auto simp: session_inv_def)
  then show ?thesis using inv assms(3) by (force simp: session_inv_def locks_hold_def)
qed

theorem locks_hold_in_active_version_witness:
  "lock_holds plain_hashing (pv_candidate version_one) item_lock"
  using locks_hold_in_active_version [OF reachable_locked, of version_one "''item:item_p2''" item_lock]
  by (simp add: locked_session_def active_version_def selected_session_def planned_session_def new_session_def
      plain_config_def)

text \<open>The user's consent to a new version: the selection, or the approval of the preview it is.\<close>

definition consented :: "config \<Rightarrow> resume_request \<Rightarrow> plan_session \<Rightarrow> plan_version \<Rightarrow> bool" where
  "consented cf r s v \<longleftrightarrow>
     versions s = [] \<and> action r \<in> {Accept_recommendation, Select_candidate (selected_candidate_id v)} \<or>
     (\<exists>k p token. action r = Approve_preview (preview_id p) token \<and> pending_preview_id s = Some k \<and>
        map_of (previews s) k = Some p \<and> approval_hash (cf_hash cf) token = approval_token_hash p \<and>
        active_version_id s = Some (base_version_id p) \<and> base_revision p = revision s \<and>
        pv_candidate v = pp_candidate p \<and> pv_draft v = pp_draft p)"

lemma select_consented:
  assumes inv: "session_inv cf s" and run: "fst (select_candidate cf sv r st s) = Some s'"
    and vs: "versions s' = versions s @ [(version_id v, v)]"
  shows "consented cf r s v"
proof -
  obtain ps cid w where st: "ss_status s = Awaiting_candidate_selection" and cid: "candidate_choice ps (action r) = Inr cid"
    and w: "first_version cf sv r s ps cid = Inr w" and s': "versions s' = AList.update (version_id w) w (versions s)"
    using run by (auto simp: select_candidate_def split: if_splits)
  have empty: "versions s = []" using inv st by (simp add: session_inv_def)
  then have "v = w" using vs s' by simp
  moreover have "selected_candidate_id w = cid"
    using w by (auto simp: first_version_def Let_def split: option.splits if_splits)
  ultimately show ?thesis
    using empty cid by (cases "action r") (auto simp: consented_def candidate_choice_def)
qed

text \<open>
  C1. The history is append-only and grows only with the user's consent: when a node changes
  the versions of a reachable session, it appends one version, the child of the active
  one; it does so for the first selection of a candidate, or because the request approves
  the pending preview with its secret token, the preview was made from the active version
  and nothing was saved since (its base revision is the current one), and the new version
  is then the previewed plan.
\<close>

theorem version_history_needs_consent:
  assumes reach: "reachable cf s" and run: "fst (node_body cf sv n r st s) = Some s'" and new: "versions s' \<noteq> versions s"
  shows "\<exists>v. versions s' = versions s @ [(version_id v, v)] \<and> parent_version_id v = active_version_id s \<and> consented cf r s v"
proof -
  have inv: "session_inv cf s" using reach by (rule reachable_inv)
  obtain v where v: "versions s' = versions s @ [(version_id v, v)]" and inv': "session_inv cf s'"
    using node_step [OF inv run] new by (auto simp: good_save_def)
  have "version_entry_ok (length (versions s)) (version_id v, v)"
    using inv' v by (auto simp: session_inv_def version_chain_def nth_append dest!: spec [of _ "length (versions s)"])
  then have parent: "parent_version_id v = active_version_id s"
    using inv by (auto simp: version_entry_ok_def session_inv_def active_key_def)
  consider "n = N_select" | "n = N_lock" | "n = N_preview" | "n = N_approval"
    | (quiet) "n \<notin> {N_select, N_lock, N_preview, N_approval}" by blast
  then have "consented cf r s v"
  proof cases
    case 1
    then show ?thesis using select_consented [OF inv _ v] run by simp
  next
    case 2
    then show ?thesis using change_lock_good [OF inv] run new by simp
  next
    case 3
    then show ?thesis using build_preview_good [OF inv] run new by simp
  next
    case 4
    then have "fst (resolve_approval cf sv r st s) = Some s'" using run by simp
    then show ?thesis
    proof (cases rule: resolve_approval_run)
      case (1 k p token)
      have "AList.update (version_key (length (versions s) + 1)) (next_version cf sv r s p) (versions s)
          = versions s @ [(version_key (length (versions s) + 1), next_version cf sv r s p)]"
        using inv by (intro update_fresh chain_fresh) (simp add: session_inv_def)
      then have "v = next_version cf sv r s p" using 1(9) v by simp
      then have "pv_candidate v = pp_candidate p" "pv_draft v = pp_draft p" by (simp_all add: next_version_def)
      then show ?thesis using 1(2-7) unfolding consented_def by blast
    qed (use new in simp)
  next
    case quiet
    then show ?thesis using quiet_versions [OF node_quiet run] new by simp
  qed
  then show ?thesis using v parent by blast
qed

theorem version_history_needs_consent_witness:
  "\<exists>v. versions selected_session = versions planned_session @ [(version_id v, v)]
     \<and> parent_version_id v = active_version_id planned_session
     \<and> consented plain_config (request ''r1'' Accept_recommendation) planned_session v"
proof (rule version_history_needs_consent)
  show "reachable plain_config planned_session" by (simp add: planned_session_def reachable.planned)
  show "fst (node_body plain_config silent_services N_select (request ''r1'' Accept_recommendation)
      (initial_lifecycle_state planned_session) planned_session) = Some selected_session"
    by (rule select_planned)
  show "versions selected_session \<noteq> versions planned_session"
    by (simp add: selected_session_def planned_session_def new_session_def)
qed

section \<open>Requests are executed at most once\<close>

definition filed :: "plan_session \<Rightarrow> string set" where
  "filed s = fst ` set (receipts s)"

definition files :: "resume_request \<Rightarrow> plan_session \<Rightarrow> outcome \<Rightarrow> bool" where
  "files r s out \<longleftrightarrow> (\<forall>s'. fst out = Some s' \<longrightarrow> filed s \<subseteq> filed s' \<and> (\<forall>st'. snd out = Inr st' \<longrightarrow> request_id r \<in> filed s'))"

lemma fst_update: "fst ` set (AList.update k v xs) = insert k (fst ` set xs)"
  by (induction xs) auto

lemma filed_commit [simp]: "filed (commit r v p e s) = insert (request_id r) (filed s)"
  by (simp add: filed_def commit_def fst_update)

lemma filed_updates [simp]:
  "filed (s\<lparr>monitor := m\<rparr>) = filed s" "filed (s\<lparr>ss_status := x\<rparr>) = filed s" "filed (s\<lparr>revision := n\<rparr>) = filed s"
  "filed (s\<lparr>weather_snapshots := ws\<rparr>) = filed s" "filed (s\<lparr>weather_risks := wr\<rparr>) = filed s"
  "filed (s\<lparr>weather_events := we\<rparr>) = filed s" "filed (s\<lparr>snapshot := sn\<rparr>) = filed s"
  "filed (s\<lparr>external_interrupt := ex\<rparr>) = filed s" "filed (s\<lparr>ss_updated_at := ua\<rparr>) = filed s"
  "filed (s\<lparr>versions := vs\<rparr>) = filed s" "filed (s\<lparr>active_version_id := av\<rparr>) = filed s"
  "filed (s\<lparr>locks := ls\<rparr>) = filed s" "filed (s\<lparr>previews := ps\<rparr>) = filed s"
  "filed (s\<lparr>pending_preview_id := pp\<rparr>) = filed s"
  by (simp_all add: filed_def)

lemma filed_observation [simp]: "filed (persist_weather_observation snap risks out ev evst n s) = filed s"
proof -
  have "filed (trim_events n u) = filed u" for u by (simp add: trim_events_def Let_def)
  moreover have "filed (store_event ev evst u) = filed u" for u by (cases ev) (simp_all add: store_event_def Let_def)
  moreover have "filed (note_uncovered snap u) = filed u" for u by (cases "snapshot u") (simp_all add: note_uncovered_def)
  moreover have "filed (store_snapshot snap risks u) = filed u" for u by (simp add: store_snapshot_def Let_def)
  ultimately show ?thesis by (simp add: persist_weather_observation_def)
qed

lemma filed_event_receipt [simp]: "filed (update_event_receipt p x v s) = filed s"
  by (simp add: update_event_receipt_def split: option.splits)

lemma filed_trigger [simp]: "filed (record_trigger cf st ok s) = filed s"
  by (simp add: record_trigger_def split: option.splits)

lemma files_intros [intro!]:
  "files r s (raises e)" "files r s (yields st)" "files r s (None, res)"
  by (simp_all add: files_def)

lemma files_attempt [intro!]: "(\<And>x. y = Inr x \<Longrightarrow> files r s (f x)) \<Longrightarrow> files r s (attempt y f)"
  by (cases y) (auto simp: files_def raises_def)

lemma files_saves: "filed s' = insert (request_id r) (filed s) \<Longrightarrow> files r s (saves s' st)"
  by (auto simp: files_def)

lemma files_terminal [intro!]: "files r s (weather_terminal cf r snap risks out ev evst msg st s)"
  by (auto simp: weather_terminal_def intro!: files_saves)

lemma files_failure [intro!]: "files r s (weather_failure sv res err s)"
  by (auto simp: files_def weather_failure_def mark_weather_failed_def raises_def split: option.splits)

lemma files_weather_nodes:
  "files r s (await_user_action r st s)"
  "files r s (resolve_weather_location cf sv r st s)"
  "files r s (fetch_weather_snapshot cf sv r st s)"
  "files r s (derive_weather_change cf sv st s)"
  "files r s (deduplicate_weather_event cf r st s)"
  "files r s (analyze_weather_change_impact cf r st s)"
  "files r s (build_weather_repair cf sv r st s)"
  "files r s (dismiss_weather_event r st s)"
proof -
  show "files r s (await_user_action r st s)" by (auto simp: await_user_action_def)
  show "files r s (resolve_weather_location cf sv r st s)"
    by (auto simp: resolve_weather_location_def Let_def split: option.splits)
  show "files r s (fetch_weather_snapshot cf sv r st s)" by (auto simp: fetch_weather_snapshot_def Let_def)
  show "files r s (derive_weather_change cf sv st s)" by (auto simp: derive_weather_change_def Let_def)
  show "files r s (deduplicate_weather_event cf r st s)"
    by (auto simp: deduplicate_weather_event_def Let_def split: option.splits)
  show "files r s (analyze_weather_change_impact cf r st s)" by (auto simp: analyze_weather_change_impact_def Let_def)
  show "files r s (build_weather_repair cf sv r st s)"
    by (auto simp: build_weather_repair_def Let_def split: option.splits)
  show "files r s (dismiss_weather_event r st s)"
    by (auto simp: dismiss_weather_event_def intro!: files_saves simp del: map_of_eq_Some_iff
        split: lifecycle_action.splits option.splits if_splits)
qed

lemma files_plan_nodes:
  "files r s (parse_edit sv r st s)"
  "files r s (apply_edit_clarification r st s)"
  "files r s (analyze_impact cf r st s)"
  "files r s (select_candidate cf sv r st s)"
  "files r s (change_lock cf sv r st s)"
  "files r s (resolve_approval cf sv r st s)"
proof -
  show "files r s (parse_edit sv r st s)"
    by (auto simp: parse_edit_def split: lifecycle_action.splits option.splits)
  show "files r s (apply_edit_clarification r st s)"
    by (auto simp: apply_edit_clarification_def split: lifecycle_action.splits option.splits)
  show "files r s (analyze_impact cf r st s)"
    by (auto simp: analyze_impact_def Let_def intro!: files_saves split: sum.splits lifecycle_error.splits)
  show "files r s (select_candidate cf sv r st s)"
    by (auto simp: select_candidate_def intro!: files_saves)
  show "files r s (change_lock cf sv r st s)"
    by (auto simp: change_lock_def intro!: files_saves)
  show "files r s (resolve_approval cf sv r st s)"
    by (auto simp: resolve_approval_def approve_preview_def reject_preview_def Let_def set_preview_status_def
        intro!: files_saves simp del: map_of_eq_Some_iff split: option.splits lifecycle_action.splits)
qed

lemma filed_link: "link_receipt st k s = Inr s' \<Longrightarrow> filed s' = filed s"
  by (auto simp: link_receipt_def split: option.splits)

lemma files_preview: "files r s (build_preview cf sv r st s)"
proof -
  have "filed (file_preview cf r st p s) = insert (request_id r) (filed s)" for p
    by (simp add: file_preview_def Let_def)
  then show ?thesis
    by (auto simp: build_preview_def Let_def dest!: filed_link intro!: files_saves)
qed

lemma node_files: "files r s (node_body cf sv n r st s)"
  using files_weather_nodes files_plan_nodes files_preview by (cases n) auto

inductive later :: "config \<Rightarrow> plan_session \<Rightarrow> plan_session \<Rightarrow> bool" for cf :: config and s :: plan_session where
  now: "later cf s s"
| answered: "later cf s t \<Longrightarrow> answered_session answer r t = Some t' \<Longrightarrow> later cf s (t'\<lparr>ss_updated_at := time\<rparr>)"
| node: "later cf s t \<Longrightarrow> fst (node_body cf sv n r st t) = Some t' \<Longrightarrow> later cf s (t'\<lparr>ss_updated_at := time\<rparr>)"

lemma later_files: "later cf s t \<Longrightarrow> filed s \<subseteq> filed t"
proof (induction rule: later.induct)
  case (answered t answer r t' time)
  then show ?case by (auto simp: answered_session_def split: intake_answer.splits)
next
  case (node t sv n r st t' time)
  then show ?case using node_files [of r t cf sv n st] by (auto simp: files_def)
qed simp

lemma replay:
  assumes "mem_get sid store = Inr t" and "request_id r \<in> filed t"
  shows "\<exists>x. service_resume cf svs response stale now new_id sid th r store = (store, Inr x) \<and>
    rs_session_id x = session_id t \<and> rs_revision x = revision t"
proof -
  have "map_of (receipts t) (request_id r) \<noteq> None"
    using assms(2) by (simp add: filed_def map_of_eq_None_iff)
  then show ?thesis
    using assms(1) by (simp add: service_resume_def resume_lifecycle_def response_from_session_def Let_def)
qed

text \<open>
  C12. A request is executed at most once: once a node has committed a request's work, resuming
  the session at any later time with the same request id (a client's retry) changes nothing
  in the repository and answers with the current state of the session.
\<close>

theorem committed_request_is_replayed:
  assumes "fst (node_body cf sv n r st s) = Some s'" and "snd (node_body cf sv n r st s) = Inr st'"
    and "later cf s' t" and "mem_get sid store = Inr t" and "request_id r' = request_id r"
  shows "\<exists>x. service_resume cf svs response stale now new_id sid th r' store = (store, Inr x) \<and>
    rs_session_id x = session_id t \<and> rs_revision x = revision t"
proof -
  have "request_id r \<in> filed s'" using node_files [of r s cf sv n st] assms(1,2) by (auto simp: files_def)
  then have "request_id r' \<in> filed t" using later_files [OF assms(3)] assms(5) by auto
  then show ?thesis by (rule replay [OF assms(4)])
qed

theorem committed_request_is_replayed_witness:
  "\<exists>x. service_resume plain_config (\<lambda>_. silent_services) None 21600 (at_time 739881 8 0) ''i2'' ''s''
      \<lparr>th_state = None, th_interrupts = []\<rparr> (request ''r1'' (Unlock_action Lock_item ''item_p2'')) [(''s'', locked_session)]
    = ([(''s'', locked_session)], Inr x) \<and> rs_session_id x = session_id locked_session \<and> rs_revision x = revision locked_session"
proof (rule committed_request_is_replayed)
  let ?st = "initial_lifecycle_state planned_session"
  show "fst (node_body plain_config silent_services N_select (request ''r1'' Accept_recommendation) ?st planned_session) = Some selected_session"
    by (rule select_planned)
  show "snd (node_body plain_config silent_services N_select (request ''r1'' Accept_recommendation) ?st planned_session)
      = Inr (?st\<lparr>st_status := Active, st_action := None\<rparr>)"
    by (simp add: select_candidate_def ensure_expected_def request_def planned_session_def new_session_def asserted_def
      sample_snapshot_def candidate_choice_def first_version_def checked_plan_def sample_plan_def sample_candidate_def
      sample_draft_def plain_config_def silent_services_def Let_def saves_def)
  show "later plain_config selected_session locked_session"
    using later.node [OF later.now lock_selected, of "ss_updated_at locked_session"] by simp
qed (simp_all add: mem_get_def request_def)

end
