(* ===== verification/PlanningSupport.thy ===== *)
theory PlanningSupport
  imports Critique ToolResults Samples "HOL-Library.Sublist"
begin

text \<open>
  What the planning graph calls besides the planner: the search plan of
  \<open>planning/search_plan.py\<close>, the grounded explanation of \<open>critique/explanation.py\<close> and the
  specialist hand-off of \<open>agents/orchestrator.py\<close> with its contexts and contracts. The lengths
  of JSON texts are parameters. Proved: the search plan asks for distinct keywords, required
  places first, and a hand-off returns a result only within its budgets.
\<close>

section \<open>The search plan\<close>

text \<open>The keyword for sights in general, in UTF-8.\<close>

definition sights_keyword :: string where
  "sights_keyword = [CHR 0xE6, CHR 0x99, CHR 0xAF, CHR 0xE7, CHR 0x82, CHR 0xB9]"

definition keyword_query :: "trip_spec \<Rightarrow> int \<Rightarrow> string \<times> bool \<times> int \<Rightarrow> poi_search_query" where
  "keyword_query trip limit wish =
     (case wish of (keyword, exact, priority) \<Rightarrow>
        \<lparr>q_city = destination trip, q_keyword = py_strip keyword, q_exact_match = exact,
         q_limit = limit, q_priority = priority\<rparr>)"

definition search_wishes :: "trip_spec \<Rightarrow> (string \<times> bool \<times> int) list" where
  "search_wishes trip = map (\<lambda>name. (name, True, 100)) (must_visit trip)
     @ map (\<lambda>interest. (interest, False, 50)) (interests trip)"

fun search_loop ::
  "trip_spec \<Rightarrow> int \<Rightarrow> int \<Rightarrow> (string \<times> bool \<times> int) list \<Rightarrow> string list \<Rightarrow> poi_search_query list
     \<Rightarrow> poi_search_query list" where
  "search_loop trip limit most [] seen queries = queries"
| "search_loop trip limit most (w # ws) seen queries =
     (let key = normalize (fst w)
      in if key = [] \<or> key \<in> set seen then search_loop trip limit most ws seen queries
         else let queries' = queries @ [keyword_query trip limit w]
              in if int (length queries') = most then queries'
                 else search_loop trip limit most ws (key # seen) queries')"

definition build_search_plan :: "trip_spec \<Rightarrow> int \<Rightarrow> int \<Rightarrow> (string, poi_search_query list) result" where
  "build_search_plan trip limit most =
     (if \<not> (1 \<le> most \<and> most \<le> 100) then Inl ''max_queries must be between 1 and 100''
      else let queries = search_loop trip limit most (search_wishes trip) [] []
           in Inr (if queries = []
                   then [\<lparr>q_city = destination trip, q_keyword = sights_keyword, q_exact_match = False,
                          q_limit = limit, q_priority = 10\<rparr>]
                   else queries))"

section \<open>Explanations\<close>

text \<open>Texts and headlines, one constructor per (Chinese) format string.\<close>

datatype statement_text = Says string | Weighs string | Totals int rat
datatype headline = Better_quality plan_style | No_soft_review

record grounded_statement =
  gs_text :: statement_text
  gs_evidence_ids :: "string list"

record grounded_explanation =
  ge_candidate_id :: string
  ge_headline :: headline
  ge_highlights :: "grounded_statement list"
  ge_tradeoffs :: "grounded_statement list"
  ge_critic_status :: critic_status

definition make_statement :: "statement_text \<Rightarrow> string list \<Rightarrow> (string, grounded_statement) result" where
  "make_statement txt ids =
     (if length ids < 1 \<or> length ids > 12 then Inl ''validation error: evidence_ids''
      else Inr \<lparr>gs_text = txt, gs_evidence_ids = ids\<rparr>)"

definition dimension_statement :: "(string \<Rightarrow> statement_text) \<Rightarrow> dimension_critique \<Rightarrow> (string, grounded_statement) result" where
  "dimension_statement says d = make_statement (says (dc_summary d)) (dc_evidence_ids d)"

definition statements_of :: "dimension_critique list \<Rightarrow> (string, grounded_statement list) result" where
  "statements_of ds = fold_res (\<lambda>d acc. bind_res (dimension_statement Says d) (\<lambda>s. Inr (acc @ [s]))) ds []"

definition build_grounded_explanation ::
  "plan_candidate \<Rightarrow> critic_status \<Rightarrow> evidence_digest option \<Rightarrow> soft_critique option
     \<Rightarrow> (string, grounded_explanation) result" where
  "build_grounded_explanation c st dg critique =
     (let fallback_ids = take 2 (case dg of None \<Rightarrow> [] | Some d \<Rightarrow> map e_id (evidence d));
          fallback = (if fallback_ids = [] then Inl ''deterministic explanation requires an evidence digest''
            else bind_res (make_statement (Totals (m_total_travel_minutes (metrics c)) (preference_match (metrics c))) fallback_ids)
              (\<lambda>s. Inr \<lparr>ge_candidate_id = cand_id c, ge_headline = No_soft_review, ge_highlights = [s],
                         ge_tradeoffs = [], ge_critic_status = st\<rparr>))
      in case critique of
           None \<Rightarrow> fallback
         | Some cr \<Rightarrow>
             if st \<noteq> Critic_success then fallback
             else bind_res (statements_of (take 3 (sort_key (\<lambda>d. (- dc_score d, soft_dimension_value (dc_dimension d))) (sc_dimensions cr)))) (\<lambda>highlights.
               case sc_dimensions cr of
                 [] \<Rightarrow> Inl ''min() arg is an empty sequence''
               | d # ds \<Rightarrow> bind_res (dimension_statement Weighs (min_by (\<lambda>d. (dc_score d, soft_dimension_value (dc_dimension d))) d ds)) (\<lambda>tradeoff.
                   Inr \<lparr>ge_candidate_id = cand_id c, ge_headline = Better_quality (cand_style c),
                        ge_highlights = highlights, ge_tradeoffs = [tradeoff], ge_critic_status = st\<rparr>)))"

section \<open>Specialist hand-offs\<close>

datatype agent_role = Role_planner | Role_critic | Role_replanner
datatype handoff_reason = Reason_plan | Reason_soft_critique | Reason_hard_repair | Reason_soft_repair
datatype specialist_status = Spec_completed | Spec_rejected | Spec_failed | Spec_timed_out

record agent_budget =
  max_context_characters :: int
  max_output_characters :: int
  agent_deadline_ms :: int

definition default_agent_budget :: agent_budget where
  "default_agent_budget = \<lparr>max_context_characters = 40000, max_output_characters = 120000, agent_deadline_ms = 30000\<rparr>"

text \<open>
  The events that a hand-off records in the trace of its run. An operation returns, raises, or
  is an awaitable that outlives the deadline.
\<close>

datatype handoff_event =
  Handoff_started agent_role handoff_reason int
| Handoff_completed agent_role handoff_reason int
| Handoff_rejected agent_role handoff_reason specialist_status string

datatype ('e, 'a) operation = Returns 'a | Raises 'e | Outlives_deadline

datatype 'e specialist_error = Context_rejected string | Specialist_timeout | Operation_error 'e

text \<open>
  \<open>started\<close> is the number of hand-offs the trace of the current run shows as started, \<open>None\<close>
  outside of a run, where no events are recorded.
\<close>

definition invoke ::
  "int \<Rightarrow> agent_budget \<Rightarrow> nat option \<Rightarrow> agent_role \<Rightarrow> handoff_reason \<Rightarrow> int \<Rightarrow> ('e, 'a) operation \<Rightarrow> ('a \<Rightarrow> int)
     \<Rightarrow> handoff_event list \<times> ('e specialist_error, 'a) result" where
  "invoke max_handoffs b started role reason context_characters operation output_characters =
     (let traced = (\<lambda>evs. if started = None then [] else evs);
          reject = (\<lambda>st code. Handoff_rejected role reason st code);
          start = Handoff_started role reason context_characters
      in if context_characters > max_context_characters b
           then (traced [reject Spec_rejected ''context_budget_exceeded''], Inl (Context_rejected ''context_budget_exceeded''))
         else if (case started of None \<Rightarrow> False | Some n \<Rightarrow> int n \<ge> max_handoffs)
           then (traced [reject Spec_rejected ''handoff_budget_exceeded''], Inl (Context_rejected ''handoff_budget_exceeded''))
         else case operation of
             Outlives_deadline \<Rightarrow> (traced [start, reject Spec_timed_out ''specialist_timeout''], Inl Specialist_timeout)
           | Raises e \<Rightarrow> (traced [start, reject Spec_failed ''specialist_failed''], Inl (Operation_error e))
           | Returns x \<Rightarrow>
               if output_characters x > max_output_characters b
               then (traced [start, reject Spec_rejected ''output_budget_exceeded''], Inl (Context_rejected ''output_budget_exceeded''))
               else (traced [start, Handoff_completed role reason (output_characters x)], Inr x))"

section \<open>Properties\<close>

abbreviation search_keys :: "poi_search_query list \<Rightarrow> string list" where
  "search_keys qs \<equiv> map (\<lambda>q. casefold (q_keyword q)) qs"

lemma keyword_query_key [simp]: "casefold (q_keyword (keyword_query trip limit w)) = normalize (fst w)"
  by (cases w) (simp add: keyword_query_def normalize_def)

lemma search_loop_queries:
  fixes trip limit most ws seen queries
  defines "qs \<equiv> search_loop trip limit most ws seen queries"
  assumes "set seen = set (search_keys queries)" and "distinct (search_keys queries)" and "int (length queries) < most"
  shows "distinct (search_keys qs) \<and> int (length qs) \<le> most \<and>
     (\<exists>ys. subseq ys ws \<and> qs = queries @ map (keyword_query trip limit) ys) \<and>
     (int (length qs) < most \<longrightarrow> (\<forall>w \<in> set ws. normalize (fst w) \<in> insert [] (set (search_keys qs))))"
  using assms(2-) unfolding qs_def
proof (induction ws arbitrary: seen queries)
  case (Cons w ws)
  let ?key = "normalize (fst w)" and ?queries = "queries @ [keyword_query trip limit w]"
  consider (skip) "?key = [] \<or> ?key \<in> set seen"
    | (full) "?key \<noteq> []" "?key \<notin> set seen" "int (length ?queries) = most"
    | (more) "?key \<noteq> []" "?key \<notin> set seen" "int (length ?queries) \<noteq> most" by blast
  then show ?case
  proof cases
    case skip
    note IH = Cons.IH [OF Cons.prems]
    obtain ys where ys: "subseq ys ws" "search_loop trip limit most ws seen queries = queries @ map (keyword_query trip limit) ys"
      using IH by blast
    have "?key \<in> insert [] (set (search_keys (search_loop trip limit most ws seen queries)))"
      using skip Cons.prems(1) ys(2) by auto
    then show ?thesis using IH skip ys by (auto intro: list_emb_Cons)
  next
    case full
    then show ?thesis using Cons.prems by (auto simp: Let_def intro!: exI [of _ "[w]"])
  next
    case more
    have "set (?key # seen) = set (search_keys ?queries)" "distinct (search_keys ?queries)" "int (length ?queries) < most"
      using more Cons.prems by auto
    note IH = Cons.IH [OF this]
    obtain ys where "subseq ys ws" "search_loop trip limit most ws (?key # seen) ?queries = ?queries @ map (keyword_query trip limit) ys"
      using IH by blast
    then have ys: "subseq (w # ys) (w # ws)"
        "search_loop trip limit most ws (?key # seen) ?queries = queries @ map (keyword_query trip limit) (w # ys)" by simp_all
    have step: "search_loop trip limit most (w # ws) seen queries = search_loop trip limit most ws (?key # seen) ?queries"
      using more by simp
    have "?key \<in> set (search_keys (search_loop trip limit most ws (?key # seen) ?queries))" by (simp add: ys(2))
    with IH show ?thesis unfolding step by (intro conjI exI [of _ "w # ys"] ys) auto
  qed
qed (auto intro: exI [of _ "[]"])

text \<open>
  The search plan is complete and free of repetitions: it has between one and
  \<open>max_queries\<close> queries with pairwise different keywords up to case and surrounding spaces; the
  queries come from the must-visit places and then the interests, in their order; and unless
  the limit cuts it off, every wish that is not blank is searched for. Without any wish the
  sights of the destination are.
\<close>

lemma search_plan_covers_wishes:
  assumes "build_search_plan trip limit most = Inr qs"
  shows "qs \<noteq> [] \<and> int (length qs) \<le> most \<and> distinct (search_keys qs) \<and>
     ((\<forall>w \<in> set (search_wishes trip). normalize (fst w) = []) \<and> map q_keyword qs = [sights_keyword]
      \<or> (\<exists>ys. subseq ys (search_wishes trip) \<and> qs = map (keyword_query trip limit) ys) \<and>
        (int (length qs) < most \<longrightarrow> (\<forall>w \<in> set (search_wishes trip). normalize (fst w) \<in> insert [] (set (search_keys qs)))))"
proof -
  let ?qs = "search_loop trip limit most (search_wishes trip) [] []"
  have most: "1 \<le> most" using assms by (auto simp: build_search_plan_def split: if_splits)
  note loop = search_loop_queries [of "[]" "[]" most trip limit "search_wishes trip", simplified]
  show ?thesis
  proof (cases "?qs = []")
    case True
    then show ?thesis using assms loop most by (auto simp: build_search_plan_def Let_def split: if_splits)
  next
    case False
    then have "qs = ?qs" using assms by (auto simp: build_search_plan_def Let_def split: if_splits)
    then show ?thesis using False loop most by auto
  qed
qed

lemma search_plan_covers_wishes_witness:
  "\<exists>qs. build_search_plan sample_trip 10 12 = Inr qs \<and> map q_keyword qs = [''L'', ''nature''] \<and> distinct (search_keys qs)"
proof -
  have "build_search_plan sample_trip 10 12 = Inr (map (keyword_query sample_trip 10) [(''L'', True, 100), (''nature'', False, 50)])"
    by code_simp
  from search_plan_covers_wishes [OF this] this show ?thesis
    by (auto simp: keyword_query_def py_strip_def py_spaces_def)
qed

lemma invoke_within_budget:
  assumes "invoke n b started role reason chars op out = (evs, Inr x)"
  shows "op = Returns x \<and> chars \<le> max_context_characters b \<and> out x \<le> max_output_characters b \<and>
     (case started of None \<Rightarrow> evs = [] | Some k \<Rightarrow> int k < n)"
  using assms by (auto simp: invoke_def Let_def split: if_splits operation.splits option.splits)

end
