(* ===== verification/PlanCritic.thy ===== *)
theory PlanCritic
  imports PlanValidator
begin

text \<open>
  \<open>planning/critic.py\<close> with the report type of \<open>domain/repair_models.py\<close>: the analysis of
  a validated candidate, its terminal reasons, and the choice of the repair target. The
  SHA-256 digest is the parameter \<open>sha\<close>.
\<close>

section \<open>The critic\<close>

record critic_report =
  r_candidate_id :: string
  r_violation_fingerprint :: string
  r_error_count :: nat
  r_warning_count :: nat
  r_violation_types :: "string list"
  r_affected_days :: "py_date list"
  r_affected_poi_ids :: "string list"
  r_repairable :: bool
  r_terminal_reason :: "string option"

definition supported_repair_violations :: "string list" where
  "supported_repair_violations =
     [''activity_time_limit'', ''arrival_buffer'', ''budget_exceeded'', ''departure_buffer'',
      ''empty_plan'', ''missing_must_visit'', ''outside_daily_window'', ''outside_opening_hours'',
      ''time_overlap'', ''walking_limit'']"

definition candidate_violations :: "plan_candidate \<Rightarrow> violation list" where
  "candidate_violations c = (case validation c of None \<Rightarrow> [] | Some v \<Rightarrow> violations v)"

definition error_violations :: "plan_candidate \<Rightarrow> violation list" where
  "error_violations c = (case validation c of None \<Rightarrow> []
     | Some r \<Rightarrow> filter (\<lambda>v. severity v = Error) (violations r))"

definition violation_part :: "violation \<Rightarrow> string \<times> string \<times> string \<times> string" where
  "violation_part v = (v_type v, severity_value (severity v),
     (case v_day v of None \<Rightarrow> '''' | Some d \<Rightarrow> isoformat d), join '','' (sort (entity_ids v)))"

definition violation_fingerprint :: "(string \<Rightarrow> string) \<Rightarrow> plan_candidate \<Rightarrow> string" where
  "violation_fingerprint sha c =
     (let parts = sort (map violation_part (candidate_violations c));
          payload = join ''|'' (map (\<lambda>(t, s, d, e). join '';'' [t, s, d, e]) parts)
      in take 16 (sha payload))"

text \<open>Is a required name already the name of a scheduled item?\<close>

definition scheduled :: "plan_candidate \<Rightarrow> string \<Rightarrow> bool" where
  "scheduled c required \<longleftrightarrow> (\<exists>i \<in> set (all_items c). names_match required (item_name i))"

fun required_pois_loop :: "plan_candidate \<Rightarrow> planning_poi list \<Rightarrow> string list \<Rightarrow> bool" where
  "required_pois_loop c pois [] = True"
| "required_pois_loop c pois (r # rs) =
     (if scheduled c r then required_pois_loop c pois rs
      else if \<not> (\<exists>p \<in> set pois. names_match r (poi_name_of p)) then False
      else required_pois_loop c pois rs)"

definition required_pois_available :: "plan_candidate \<Rightarrow> trip_spec \<Rightarrow> planning_poi list \<Rightarrow> bool" where
  "required_pois_available c trip pois = required_pois_loop c pois (must_visit trip)"

definition budget_can_be_repaired :: "plan_candidate \<Rightarrow> trip_spec \<Rightarrow> bool" where
  "budget_can_be_repaired c trip =
     (case total_budget trip of
        None \<Rightarrow> False
      | Some b \<Rightarrow>
          let required_cost = known_cost (filter (\<lambda>i. is_must_visit (item_name i) trip) (all_items c));
              optional_cost = known_cost (filter (\<lambda>i. \<not> is_must_visit (item_name i) trip) (all_items c));
              excess = m_known_estimated_cost (metrics c) - b
          in required_cost \<le> b \<and> optional_cost \<ge> excess \<and> excess > 0)"

definition analyze_candidate ::
  "(string \<Rightarrow> string) \<Rightarrow> plan_candidate \<Rightarrow> trip_spec \<Rightarrow> planning_poi list \<Rightarrow> critic_report" where
  "analyze_candidate sha c trip pois =
     (let vs = candidate_violations c;
          errors = filter (\<lambda>v. severity v = Error) vs;
          warnings = filter (\<lambda>v. severity v = Warning) vs;
          types = sorted_set (map v_type errors);
          unsupported = filter (\<lambda>t. t \<notin> set supported_repair_violations) types;
          terminal =
            (if errors = [] then Some ''no_error_violation''
             else if unsupported \<noteq> [] then Some (''unsupported_violation:'' @ join '','' unsupported)
             else if ''budget_exceeded'' \<in> set types \<and> \<not> budget_can_be_repaired c trip
               then Some ''hard_constraint_conflict:budget''
             else if ''missing_must_visit'' \<in> set types \<and> \<not> required_pois_available c trip pois
               then Some ''missing_required_poi_facts''
             else if ''empty_plan'' \<in> set types \<and> pois = [] then Some ''no_available_poi''
             else None)
      in \<lparr>r_candidate_id = cand_id c,
          r_violation_fingerprint = violation_fingerprint sha c,
          r_error_count = length errors, r_warning_count = length warnings,
          r_violation_types = types,
          r_affected_days = sorted_set (List.map_filter v_day errors),
          r_affected_poi_ids = sorted_set (concat (map entity_ids errors)),
          r_repairable = (terminal = None), r_terminal_reason = terminal\<rparr>)"

text \<open>\<open>-score\<close> with a missing score as plus infinity.\<close>

definition neg_score :: "rat option \<Rightarrow> nat \<times> rat" where
  "neg_score s = (case s of Some x \<Rightarrow> (0, - x) | None \<Rightarrow> (1, 0))"

definition target_key ::
  "(string \<times> critic_report) list \<Rightarrow> plan_candidate \<Rightarrow>
     nat \<times> nat \<times> nat \<times> (nat \<times> rat) \<times> string" where
  "target_key reports c =
     (case map_of reports (cand_id c) of
        Some r \<Rightarrow> (if r_repairable r then 0 else 1, r_error_count r, r_warning_count r,
                   neg_score (score c), cand_id c)
      | None \<Rightarrow> (2, 0, 0, neg_score (score c), cand_id c))"

definition select_repair_target ::
  "(string \<Rightarrow> string) \<Rightarrow> plan_candidate list \<Rightarrow> trip_spec \<Rightarrow> planning_poi list
     \<Rightarrow> (string, plan_candidate) result" where
  "select_repair_target sha cs trip pois =
     (case cs of
        [] \<Rightarrow> Inl ''repair target requires at least one candidate''
      | c # rest \<Rightarrow>
          let reports = dict_of (map (\<lambda>c. (cand_id c, analyze_candidate sha c trip pois)) cs)
          in Inr (min_by (target_key reports) c rest))"

section \<open>Which violations the validator can report\<close>

definition supported_error :: "violation \<Rightarrow> bool" where
  "supported_error v \<longleftrightarrow> (severity v = Error \<longrightarrow> v_type v \<in> set supported_repair_violations)"

abbreviation all_supported :: "violation list \<Rightarrow> bool" where
  "all_supported vs \<equiv> \<forall>v \<in> set vs. supported_error v"

lemma coverage_checks_supported: "all_supported (coverage_checks trip c)"
  unfolding coverage_checks_def ball_report_simps
  by (simp add: supported_error_def plan_error_def supported_repair_violations_def)

lemma budget_checks_supported: "all_supported (budget_checks trip c)"
  by (auto simp: budget_checks_def Let_def supported_error_def plan_error_def
      supported_repair_violations_def split: option.splits)

lemma day_limits_supported: "all_supported (day_limits trip day xs)"
  unfolding day_limits_def Let_def ball_report_simps
  by (simp add: supported_error_def day_error_def supported_repair_violations_def)

lemma item_checks_supported:
  "all_supported (overlap_check d p i)" "all_supported (daily_window_check trip d i)"
  "all_supported (buffer_checks trip d i)" "all_supported (fst (opening_check ps d i))"
  by (auto simp: overlap_check_def daily_window_check_def buffer_checks_def opening_check_def
      Let_def supported_error_def day_error_def supported_repair_violations_def
      split: option.splits list.splits prod.splits)

lemma fst_item_loop_Cons:
  "fst (item_loop trip ps d p (x # xs)) = overlap_check d p x @ daily_window_check trip d x
     @ buffer_checks trip d x @ fst (opening_check ps d x) @ fst (item_loop trip ps d (Some x) xs)"
  by (simp split: prod.splits)

lemma item_loop_supported: "all_supported (fst (item_loop trip ps d p xs))"
proof (induction xs arbitrary: p)
  case (Cons x xs)
  then show ?case
    unfolding fst_item_loop_Cons ball_report_append using item_checks_supported by blast
qed simp

lemma day_check_supported: "all_supported (fst (day_check trip ps day))"
  using item_loop_supported [of trip ps "day_date day" None] day_limits_supported [of trip day]
  by (auto simp: day_check_def ball_Un Let_def split: prod.splits) (metis fst_conv)+

lemma day_loop_supported: "all_supported (fst (day_loop trip ps ds))"
proof (induction ds)
  case (Cons d ds)
  then show ?case
    using day_check_supported [of trip ps d] by (auto simp: ball_Un split: prod.splits)
qed simp

lemma validator_supported: "all_supported (violations (validate_candidate trip c pois))"
proof -
  let ?ps = "dict_of (map (\<lambda>p. (any_poi_id p, p)) pois)"
  have "all_supported (assumption_warnings c u)" for u
    using assumption_warnings_error_free [of c u] by (simp add: supported_error_def)
  then show ?thesis
    using coverage_checks_supported [of trip c] budget_checks_supported [of trip c]
      day_loop_supported [of trip ?ps "days c"]
    by (auto simp: validate_candidate_def from_violations_def ball_Un split: prod.splits)
qed

section \<open>Properties\<close>

lemma required_pois_loop_iff:
  "required_pois_loop c pois rs \<longleftrightarrow>
     (\<forall>r \<in> set rs. scheduled c r \<or> (\<exists>p \<in> set pois. names_match r (poi_name_of p)))"
  by (induction rs) auto

lemma candidate_error_supported:
  assumes "validation c = Some (validate_candidate trip c' pois)"
  shows "set (map v_type (filter (\<lambda>v. severity v = Error) (candidate_violations c)))
     \<subseteq> set supported_repair_violations"
  using validator_supported [of trip c' pois] assms
  by (auto simp: candidate_violations_def supported_error_def)

text \<open>
  The critic understands the validator: a candidate that carries a result of
  \<open>validate_candidate\<close> is never given up for an unsupported violation.
\<close>

lemma validator_errors_are_supported:
  assumes "validation c = Some (validate_candidate trip' c' pois')"
  shows "r_terminal_reason (analyze_candidate sha c trip pois) \<in>
    {None, Some ''no_error_violation'', Some ''hard_constraint_conflict:budget'',
     Some ''missing_required_poi_facts'', Some ''no_available_poi''}"
proof -
  have "filter (\<lambda>t. t \<notin> set supported_repair_violations)
      (sorted_set (map v_type (filter (\<lambda>v. severity v = Error) (candidate_violations c)))) = []"
    using candidate_error_supported [OF assms] by (auto simp: filter_empty_conv)
  then show ?thesis by (simp add: analyze_candidate_def Let_def)
qed

lemma validator_errors_are_supported_witness:
  "r_terminal_reason (analyze_candidate id
      (sample_plan\<lparr>validation := Some (validate_candidate sample_trip sample_plan [])\<rparr>)
      sample_trip sample_pois) \<in>
    {None, Some ''no_error_violation'', Some ''hard_constraint_conflict:budget'',
     Some ''missing_required_poi_facts'', Some ''no_available_poi''}"
  by (rule validator_errors_are_supported) simp

lemma repairable_characterisation:
  "r_repairable (analyze_candidate sha c trip pois) \<longleftrightarrow>
     (let types = v_type ` {v \<in> set (candidate_violations c). severity v = Error} in
      types \<noteq> {} \<and> types \<subseteq> set supported_repair_violations \<and>
      (''budget_exceeded'' \<in> types \<longrightarrow> budget_can_be_repaired c trip) \<and>
      (''missing_must_visit'' \<in> types \<longrightarrow> (\<forall>r \<in> set (must_visit trip).
         scheduled c r \<or> (\<exists>p \<in> set pois. names_match r (poi_name_of p)))) \<and>
      (''empty_plan'' \<in> types \<longrightarrow> pois \<noteq> []))"
proof -
  let ?E = "filter (\<lambda>v. severity v = Error) (candidate_violations c)"
  have types: "set (map v_type ?E) = v_type ` {v \<in> set (candidate_violations c). severity v = Error}"
    by auto
  have "r_repairable (analyze_candidate sha c trip pois) \<longleftrightarrow>
      ?E \<noteq> [] \<and> set (map v_type ?E) \<subseteq> set supported_repair_violations \<and>
      (''budget_exceeded'' \<in> set (map v_type ?E) \<longrightarrow> budget_can_be_repaired c trip) \<and>
      (''missing_must_visit'' \<in> set (map v_type ?E) \<longrightarrow> required_pois_available c trip pois) \<and>
      (''empty_plan'' \<in> set (map v_type ?E) \<longrightarrow> pois \<noteq> [])"
    unfolding analyze_candidate_def Let_def
    by (simp del: set_map set_filter add: filter_empty_conv subset_iff) blast
  moreover have "?E \<noteq> [] \<longleftrightarrow> set (map v_type ?E) \<noteq> {}"
    by (metis Nil_is_map_conv set_empty)
  ultimately show ?thesis
    unfolding types Let_def required_pois_available_def required_pois_loop_iff by blast
qed

text \<open>
  What the critic calls repairable: exactly the candidates with an error violation, only
  of supported types, where a budget error can be repaired by dropping optional items, every
  unscheduled must-visit name has a POI, and an empty plan has some POI to add.
\<close>

lemma repairable_iff:
  "r_repairable (analyze_candidate sha c trip pois) \<longleftrightarrow>
     (let types = v_type ` {v \<in> set (candidate_violations c). severity v = Error} in
      types \<noteq> {} \<and> types \<subseteq> set supported_repair_violations \<and>
      (''budget_exceeded'' \<in> types \<longrightarrow> budget_can_be_repaired c trip) \<and>
      (''missing_must_visit'' \<in> types \<longrightarrow> (\<forall>r \<in> set (must_visit trip).
         scheduled c r \<or> (\<exists>p \<in> set pois. names_match r (poi_name_of p)))) \<and>
      (''empty_plan'' \<in> types \<longrightarrow> pois \<noteq> []))"
  by (rule repairable_characterisation)

lemma repairable_iff_witness:
  "r_repairable (analyze_candidate id (sample_plan\<lparr>validation := Some (from_violations
     [day_error ''time_overlap'' 739892 [''p2''] (M_time_overlap ''a'' ''b'') None])\<rparr>)
     sample_trip sample_pois) = True"
  unfolding repairable_iff
  by (auto simp: candidate_violations_def from_violations_def day_error_def
      supported_repair_violations_def Let_def)

lemma target_key_reports:
  assumes "distinct (map cand_id cs)" and "c \<in> set cs"
  shows "map_of (dict_of (map (\<lambda>c. (cand_id c, f c)) cs)) (cand_id c) = Some (f c)"
proof -
  have "distinct (map fst (rev (map (\<lambda>c. (cand_id c, f c)) cs)))"
    using assms(1) by (simp add: comp_def flip: rev_map)
  moreover have "(cand_id c, f c) \<in> set (rev (map (\<lambda>c. (cand_id c, f c)) cs))"
    using assms(2) by auto
  ultimately show ?thesis by (simp only: map_of_dict_of map_of_eq_Some_iff)
qed

text \<open>
  The repair target is well chosen: among candidates with distinct identifiers it is one
  of them, and when any candidate is repairable it is a repairable one with the fewest errors.
\<close>

lemma select_repair_target_best:
  assumes "distinct (map cand_id cs)" and "c \<in> set cs"
    and "r_repairable (analyze_candidate sha c trip pois)"
  shows "\<exists>t. select_repair_target sha cs trip pois = Inr t \<and> t \<in> set cs \<and>
     r_repairable (analyze_candidate sha t trip pois) \<and>
     r_error_count (analyze_candidate sha t trip pois)
       \<le> r_error_count (analyze_candidate sha c trip pois)"
proof -
  let ?A = "\<lambda>c. analyze_candidate sha c trip pois"
  let ?R = "dict_of (map (\<lambda>c. (cand_id c, ?A c)) cs)"
  obtain c0 rest where cs: "cs = c0 # rest" using assms(2) by (cases cs) auto
  define t where "t = min_by (target_key ?R) c0 rest"
  have sel: "select_repair_target sha cs trip pois = Inr t"
    by (simp add: select_repair_target_def cs t_def Let_def)
  have t: "t \<in> set cs" unfolding t_def cs by (rule min_by_in)
  have le: "target_key ?R t \<le> target_key ?R c"
    using assms(2) unfolding t_def cs by (rule min_by_le)
  have key: "map_of ?R (cand_id x) = Some (?A x)" if "x \<in> set cs" for x
    using target_key_reports [OF assms(1) that, of ?A] by simp
  have "r_repairable (?A t) \<and> r_error_count (?A t) \<le> r_error_count (?A c)"
    using le assms(3) by (simp add: target_key_def key t assms(2) split: if_splits) auto
  with sel t show ?thesis by blast
qed

lemma select_repair_target_best_witness:
  "let c = sample_plan\<lparr>validation := Some (from_violations
        [day_error ''time_overlap'' 739892 [''p2''] (M_time_overlap ''a'' ''b'') None])\<rparr>
   in \<exists>t. select_repair_target id [c] sample_trip sample_pois = Inr t \<and> t \<in> set [c] \<and>
      r_repairable (analyze_candidate id t sample_trip sample_pois) \<and>
      r_error_count (analyze_candidate id t sample_trip sample_pois)
        \<le> r_error_count (analyze_candidate id c sample_trip sample_pois)"
  unfolding Let_def
proof (rule select_repair_target_best)
  show "r_repairable (analyze_candidate id (sample_plan\<lparr>validation := Some (from_violations
        [day_error ''time_overlap'' 739892 [''p2''] (M_time_overlap ''a'' ''b'') None])\<rparr>)
        sample_trip sample_pois)"
    by (auto simp: repairable_characterisation candidate_violations_def from_violations_def day_error_def
        supported_repair_violations_def Let_def)
qed simp_all

end
