(* ===== verification/PlanRepair.thy ===== *)
theory PlanRepair
  imports PlanCritic PlanDrafts
begin

text \<open>
  \<open>planning/repair.py\<close> with the repair types of \<open>domain/repair_models.py\<close>: the repair actions
  generated for each kind of error violation, the repair plan, and its application to a
  candidate draft. The SHA-256 digest is the parameter \<open>sha\<close> and the great-circle distance
  the parameter \<open>metres\<close>. Reasons and expected effects are values of two datatypes, one
  constructor per (Chinese) format string of the code.
\<close>

section \<open>Repair types\<close>

datatype repair_action_kind =
  Remove_optional_poi | Move_poi | Reorder_optional_poi | Insert_must_visit | Add_available_poi

fun action_kind_value :: "repair_action_kind \<Rightarrow> string" where
  "action_kind_value Remove_optional_poi = ''remove_optional_poi''"
| "action_kind_value Move_poi = ''move_poi''"
| "action_kind_value Reorder_optional_poi = ''reorder_optional_poi''"
| "action_kind_value Insert_must_visit = ''insert_must_visit''"
| "action_kind_value Add_available_poi = ''add_available_poi''"

datatype repair_reason =
  R_remove_costly | R_lower_density | R_place_missed | R_fill_empty | R_remove_conflicting
| R_move_required | R_text string

datatype repair_effect =
  E_cost_saved rat | E_lowered string int | E_covers string | E_one_activity
| E_fixed string | E_fixed_keeping string | E_improves string

record repair_action =
  ra_kind :: repair_action_kind
  ra_source :: string
  ra_poi :: string
  ra_from :: "py_date option"
  ra_to :: "py_date option"
  ra_reason :: repair_reason
  ra_effect :: repair_effect

record repair_plan =
  rp_round :: int
  rp_target :: string
  rp_sources :: "string list"
  rp_actions :: "repair_action list"
  rp_affected_days :: "py_date list"
  rp_preserved_days :: "py_date list"
  rp_invalidated :: "string list"
  rp_effects :: "repair_effect list"
  rp_fingerprint :: string

section \<open>Generating actions\<close>

definition repair_preference :: "planning_poi \<Rightarrow> trip_spec \<Rightarrow> int" where
  "repair_preference p trip =
     (let terms = set (map normalize (f_categories (facts p)));
          liked = set (map normalize (interests trip));
          disliked = set (map normalize (avoid trip))
      in 4 * int (card (terms \<inter> liked)) - 5 * int (card (terms \<inter> disliked)))"

definition action_part :: "repair_action \<Rightarrow> string" where
  "action_part a = join '';'' [action_kind_value (ra_kind a), ra_source a, ra_poi a,
     (case ra_from a of None \<Rightarrow> '''' | Some d \<Rightarrow> isoformat d),
     (case ra_to a of None \<Rightarrow> '''' | Some d \<Rightarrow> isoformat d)]"

definition action_fingerprint :: "(string \<Rightarrow> string) \<Rightarrow> repair_action list \<Rightarrow> string" where
  "action_fingerprint sha actions = take 16 (sha (join ''|'' (sort (map action_part actions))))"

definition candidate_items :: "plan_candidate \<Rightarrow> (py_date \<times> plan_item) list" where
  "candidate_items c =
     filter (\<lambda>(d, i). item_type i = Activity \<and> item_poi_id i \<noteq> None) (dated_items c)"

definition available_minutes :: "trip_spec \<Rightarrow> py_date \<Rightarrow> int" where
  "available_minutes trip day =
     (let zone = dt_tz (ta_at (arrival trip));
          start = instant (combine day (daily_start trip) zone);
          finish = instant (combine day (daily_end trip) zone);
          start = (if day = date_of (ta_at (arrival trip))
                   then max start (instant (ta_at (arrival trip)) + 60 * minute) else start);
          finish = (if day = date_of (ta_at (departure trip))
                    then min finish (instant (ta_at (departure trip)) - 90 * minute) else finish)
      in max 0 (round_div (finish - start) minute))"

definition opening_minutes :: "time_window \<Rightarrow> int" where
  "opening_minutes w = round_div (tw_end w - tw_start w) minute"

text \<open>Can the place be visited on the day: it is open, and the open time and the day suffice.\<close>

definition fits_day :: "trip_spec \<Rightarrow> planning_poi \<Rightarrow> py_date \<Rightarrow> bool" where
  "fits_day trip p day =
     (case map_of (opening_windows p) day of
        None \<Rightarrow> False
      | Some w \<Rightarrow> \<not> min (available_minutes trip day) (opening_minutes w) < duration_minutes p)"

definition best_target_day ::
  "trip_spec \<Rightarrow> candidate_draft \<Rightarrow> planning_poi \<Rightarrow> py_date option \<Rightarrow> py_date option" where
  "best_target_day trip draft p excluded =
     (let candidates = map (\<lambda>d. (int (length (poi_ids d)), - available_minutes trip (dd_date d), dd_date d))
            (filter (\<lambda>d. Some (dd_date d) \<noteq> excluded \<and> fits_day trip p (dd_date d)) (draft_days draft))
      in case candidates of
           [] \<Rightarrow> None
         | x # xs \<Rightarrow> Some (snd (snd (min_by (\<lambda>k. k) x xs))))"

type_synonym action_key = "repair_action_kind \<times> string \<times> py_date option \<times> py_date option"

definition action_key :: "repair_action \<Rightarrow> action_key" where
  "action_key a = (ra_kind a, ra_poi a, ra_from a, ra_to a)"

fun deduplicate_actions :: "action_key list \<Rightarrow> repair_action list \<Rightarrow> repair_action list" where
  "deduplicate_actions seen [] = []"
| "deduplicate_actions seen (a # as) =
     (if action_key a \<in> set seen then deduplicate_actions seen as
      else a # deduplicate_actions (action_key a # seen) as)"

text \<open>
  The loop both removal generators share: append one action per option until the saved amount
  reaches the excess; when the options run out first, there is no action at all.
\<close>

fun remove_until ::
  "('o \<Rightarrow> 'n::linordered_idom) \<Rightarrow> ('o \<Rightarrow> repair_action) \<Rightarrow> 'n \<Rightarrow> 'o list \<Rightarrow> 'n
     \<Rightarrow> repair_action list \<Rightarrow> repair_action list" where
  "remove_until amount act excess [] saved actions = []"
| "remove_until amount act excess (x # xs) saved actions =
     (let actions = actions @ [act x]; saved = saved + amount x
      in if saved \<ge> excess then actions else remove_until amount act excess xs saved actions)"

definition the_pid :: "plan_item \<Rightarrow> string" where
  "the_pid i = (case item_poi_id i of Some x \<Rightarrow> x | None \<Rightarrow> '''')"

definition item_cost :: "plan_item \<Rightarrow> rat" where
  "item_cost i = (case item_estimated_cost i of Some c \<Rightarrow> c | None \<Rightarrow> 0)"

definition known_poi :: "(string \<times> planning_poi) list \<Rightarrow> plan_item \<Rightarrow> planning_poi option" where
  "known_poi ps i = (case item_poi_id i of None \<Rightarrow> None | Some x \<Rightarrow> map_of ps x)"

definition item_preference :: "trip_spec \<Rightarrow> (string \<times> planning_poi) list \<Rightarrow> plan_item \<Rightarrow> int" where
  "item_preference trip ps i = (case known_poi ps i of None \<Rightarrow> 0 | Some p \<Rightarrow> repair_preference p trip)"

definition budget_options ::
  "trip_spec \<Rightarrow> plan_candidate \<Rightarrow> (string \<times> planning_poi) list \<Rightarrow> (py_date \<times> plan_item) list" where
  "budget_options trip c ps =
     sort_key (\<lambda>(d, i). (- item_cost i, item_preference trip ps i, the_pid i))
       (filter (\<lambda>(d, i). known_poi ps i \<noteq> None \<and> 0 < item_cost i
           \<and> \<not> is_must_visit (item_name i) trip) (candidate_items c))"

definition budget_action :: "py_date \<times> plan_item \<Rightarrow> repair_action" where
  "budget_action di = (case di of (d, i) \<Rightarrow>
     \<lparr>ra_kind = Remove_optional_poi, ra_source = ''budget_exceeded'', ra_poi = the_pid i,
      ra_from = Some d, ra_to = None, ra_reason = R_remove_costly,
      ra_effect = E_cost_saved (item_cost i)\<rparr>)"

definition remove_actions_for_budget ::
  "trip_spec \<Rightarrow> plan_candidate \<Rightarrow> (string \<times> planning_poi) list \<Rightarrow> rat \<Rightarrow> repair_action list" where
  "remove_actions_for_budget trip c ps budget =
     (let excess = m_known_estimated_cost (metrics c) - budget
      in if excess \<le> 0 then []
         else remove_until (\<lambda>(d, i). item_cost i) budget_action excess (budget_options trip c ps) 0 [])"

definition rounded_minutes :: "plan_item \<Rightarrow> int" where
  "rounded_minutes i = round_div (instant (end_at i) - instant (start_at i)) minute"

definition day_limit_contribution :: "string \<Rightarrow> plan_item \<Rightarrow> int" where
  "day_limit_contribution vtype i =
     (if vtype = ''walking_limit''
      then min (round_div (distance_from_previous_meters i * 12) 100) 2000
      else rounded_minutes i)"

definition day_limit_excess :: "trip_spec \<Rightarrow> day_plan \<Rightarrow> string \<Rightarrow> int" where
  "day_limit_excess trip pd vtype =
     (if vtype = ''walking_limit''
      then walking_distance_meters pd - max_daily_walking_meters (mobility trip)
      else (\<Sum>i \<leftarrow> filter (\<lambda>i. item_type i = Activity) (items pd). rounded_minutes i)
             - max_daily_activity_minutes (mobility trip))"

definition day_limit_options ::
  "trip_spec \<Rightarrow> (string \<times> planning_poi) list \<Rightarrow> day_plan \<Rightarrow> string \<Rightarrow> plan_item list" where
  "day_limit_options trip ps pd vtype =
     sort_key (\<lambda>i. (- day_limit_contribution vtype i, item_preference trip ps i, the_pid i))
       (filter (\<lambda>i. item_type i = Activity \<and> known_poi ps i \<noteq> None
           \<and> \<not> is_must_visit (item_name i) trip) (items pd))"

definition day_limit_action :: "py_date \<Rightarrow> string \<Rightarrow> plan_item \<Rightarrow> repair_action" where
  "day_limit_action day vtype i =
     \<lparr>ra_kind = Remove_optional_poi, ra_source = vtype, ra_poi = the_pid i,
      ra_from = Some day, ra_to = None, ra_reason = R_lower_density,
      ra_effect = E_lowered vtype (day_limit_contribution vtype i)\<rparr>"

definition remove_actions_for_day_limit ::
  "trip_spec \<Rightarrow> plan_candidate \<Rightarrow> (string \<times> planning_poi) list \<Rightarrow> py_date \<Rightarrow> string
     \<Rightarrow> repair_action list" where
  "remove_actions_for_day_limit trip c ps day vtype =
     (case find (\<lambda>d. day_date d = day) (days c) of
        None \<Rightarrow> []
      | Some pd \<Rightarrow>
          if day_limit_excess trip pd vtype \<le> 0 then []
          else remove_until (day_limit_contribution vtype) (day_limit_action day vtype)
                 (day_limit_excess trip pd vtype) (day_limit_options trip ps pd vtype) 0 [])"

text \<open>One required name: nothing to do, an action, or no safe action at all (\<open>None\<close>).\<close>

definition insert_action ::
  "trip_spec \<Rightarrow> candidate_draft \<Rightarrow> planning_poi list \<Rightarrow> string \<Rightarrow> repair_action option" where
  "insert_action trip draft pois required =
     (case find (\<lambda>p. names_match required (poi_name_of p)) pois of
        None \<Rightarrow> None
      | Some p \<Rightarrow>
          let current = map_option dd_date (find (\<lambda>d. poi_id_of p \<in> set (poi_ids d)) (draft_days draft));
              target = (case best_target_day trip draft p current of
                          Some t \<Rightarrow> Some t | None \<Rightarrow> best_target_day trip draft p None)
          in case target of
               None \<Rightarrow> None
             | Some t \<Rightarrow> Some
                 \<lparr>ra_kind = (if current \<noteq> None \<and> current \<noteq> Some t then Move_poi else Insert_must_visit),
                  ra_source = ''missing_must_visit'', ra_poi = poi_id_of p, ra_from = current,
                  ra_to = Some t, ra_reason = R_place_missed, ra_effect = E_covers required\<rparr>)"

fun missing_loop ::
  "trip_spec \<Rightarrow> plan_candidate \<Rightarrow> candidate_draft \<Rightarrow> planning_poi list \<Rightarrow> string list
     \<Rightarrow> repair_action list \<Rightarrow> repair_action list" where
  "missing_loop trip c draft pois [] actions = actions"
| "missing_loop trip c draft pois (r # rs) actions =
     (if scheduled c r then missing_loop trip c draft pois rs actions
      else case insert_action trip draft pois r of
             None \<Rightarrow> []
           | Some a \<Rightarrow> missing_loop trip c draft pois rs (actions @ [a]))"

definition actions_for_missing_must_visit ::
  "trip_spec \<Rightarrow> plan_candidate \<Rightarrow> candidate_draft \<Rightarrow> planning_poi list \<Rightarrow> repair_action list" where
  "actions_for_missing_must_visit trip c draft pois =
     missing_loop trip c draft pois (must_visit trip) []"

definition empty_rank_key :: "trip_spec \<Rightarrow> planning_poi \<Rightarrow> int \<times> int \<times> rat \<times> string" where
  "empty_rank_key trip p = (if is_must_visit (poi_name_of p) trip then 0 else 1,
     - repair_preference p trip, - data_confidence p, poi_id_of p)"

fun first_addable :: "trip_spec \<Rightarrow> candidate_draft \<Rightarrow> planning_poi list \<Rightarrow> repair_action list" where
  "first_addable trip draft [] = []"
| "first_addable trip draft (p # ps) =
     (case best_target_day trip draft p None of
        Some t \<Rightarrow> [\<lparr>ra_kind = Add_available_poi, ra_source = ''empty_plan'', ra_poi = poi_id_of p,
                   ra_from = None, ra_to = Some t, ra_reason = R_fill_empty, ra_effect = E_one_activity\<rparr>]
      | None \<Rightarrow> first_addable trip draft ps)"

definition actions_for_empty_plan ::
  "trip_spec \<Rightarrow> candidate_draft \<Rightarrow> planning_poi list \<Rightarrow> repair_action list" where
  "actions_for_empty_plan trip draft pois =
     (if pois = [] then [] else first_addable trip draft (sort_key (empty_rank_key trip) pois))"

fun local_time_loop ::
  "trip_spec \<Rightarrow> candidate_draft \<Rightarrow> (string \<times> planning_poi) list \<Rightarrow> string \<Rightarrow> py_date
     \<Rightarrow> plan_item list \<Rightarrow> repair_action list" where
  "local_time_loop trip draft ps vtype day [] = []"
| "local_time_loop trip draft ps vtype day (i # is) =
     (if \<not> is_must_visit (item_name i) trip
      then [\<lparr>ra_kind = Remove_optional_poi, ra_source = vtype, ra_poi = the_pid i, ra_from = Some day,
             ra_to = None, ra_reason = R_remove_conflicting, ra_effect = E_fixed vtype\<rparr>]
      else case known_poi ps i of
             None \<Rightarrow> local_time_loop trip draft ps vtype day is
           | Some p \<Rightarrow>
               (case best_target_day trip draft p (Some day) of
                  Some t \<Rightarrow> [\<lparr>ra_kind = Move_poi, ra_source = vtype, ra_poi = the_pid i,
                     ra_from = Some day, ra_to = Some t, ra_reason = R_move_required,
                     ra_effect = E_fixed_keeping vtype\<rparr>]
                | None \<Rightarrow> local_time_loop trip draft ps vtype day is))"

definition actions_for_local_time_violation ::
  "trip_spec \<Rightarrow> plan_candidate \<Rightarrow> candidate_draft \<Rightarrow> planning_poi list \<Rightarrow> string
     \<Rightarrow> py_date option \<Rightarrow> string list \<Rightarrow> repair_action list" where
  "actions_for_local_time_violation trip c draft pois vtype day ids =
     (case day of
        None \<Rightarrow> []
      | Some d \<Rightarrow>
          (case find (\<lambda>x. day_date x = d) (days c) of
             None \<Rightarrow> []
           | Some pd \<Rightarrow>
               local_time_loop trip draft (dict_of (map (\<lambda>p. (poi_id_of p, p)) pois)) vtype d
                 (sort_key_reverse (\<lambda>i. (instant (start_at i), the_pid i))
                   (filter (\<lambda>i. item_type i = Activity \<and> item_poi_id i \<noteq> None
                       \<and> (ids = [] \<or> the_pid i \<in> set ids)) (items pd)))))"

section \<open>The repair plan\<close>

definition actions_for_violation ::
  "trip_spec \<Rightarrow> plan_candidate \<Rightarrow> candidate_draft \<Rightarrow> planning_poi list \<Rightarrow> violation
     \<Rightarrow> repair_action list" where
  "actions_for_violation trip c draft pois v =
     (let ps = dict_of (map (\<lambda>p. (poi_id_of p, p)) pois)
      in if v_type v = ''budget_exceeded''
           then (case total_budget trip of None \<Rightarrow> []
                   | Some b \<Rightarrow> remove_actions_for_budget trip c ps b)
         else if v_type v \<in> {''walking_limit'', ''activity_time_limit''}
           then (case v_day v of None \<Rightarrow> []
                   | Some d \<Rightarrow> remove_actions_for_day_limit trip c ps d (v_type v))
         else if v_type v = ''missing_must_visit'' then actions_for_missing_must_visit trip c draft pois
         else if v_type v = ''empty_plan'' then actions_for_empty_plan trip draft pois
         else actions_for_local_time_violation trip c draft pois (v_type v) (v_day v) (entity_ids v))"

text \<open>
  There may be no plan for a terminal reason; the code's assertion that a budget violation
  comes with a budget is the other outcome.
\<close>

datatype no_plan = Terminal "string option" | Assertion_failed

definition violation_step ::
  "trip_spec \<Rightarrow> plan_candidate \<Rightarrow> candidate_draft \<Rightarrow> planning_poi list \<Rightarrow> violation
     \<Rightarrow> repair_action list \<Rightarrow> (no_plan, repair_action list) result" where
  "violation_step trip c draft pois v actions =
     (if v_type v = ''budget_exceeded'' \<and> total_budget trip = None then Inl Assertion_failed
      else
        let generated = actions_for_violation trip c draft pois v
        in if generated = [] then Inl (Terminal (Some (''no_safe_repair_action:'' @ v_type v)))
           else Inr (actions @ generated))"

definition make_repair_plan ::
  "(string \<Rightarrow> string) \<Rightarrow> plan_candidate \<Rightarrow> candidate_draft \<Rightarrow> int \<Rightarrow> repair_action list \<Rightarrow> repair_plan" where
  "make_repair_plan sha c draft n actions =
     (let affected = sorted_set (concat (map (\<lambda>a. List.map_filter id [ra_from a, ra_to a]) actions))
      in \<lparr>rp_round = n, rp_target = cand_id c,
           rp_sources = sorted_set (map ra_source actions), rp_actions = actions,
           rp_affected_days = affected,
           rp_preserved_days = filter (\<lambda>d. d \<notin> set affected) (map dd_date (draft_days draft)),
           rp_invalidated = [], rp_effects = map ra_effect actions,
           rp_fingerprint = action_fingerprint sha actions\<rparr>)"

definition build_repair_plan ::
  "(string \<Rightarrow> string) \<Rightarrow> trip_spec \<Rightarrow> plan_candidate \<Rightarrow> candidate_draft \<Rightarrow> planning_poi list
     \<Rightarrow> critic_report \<Rightarrow> int \<Rightarrow> (no_plan, repair_plan) result" where
  "build_repair_plan sha trip c draft pois report n =
     (if \<not> r_repairable report then Inl (Terminal (r_terminal_reason report))
      else bind_res (fold_res (violation_step trip c draft pois) (error_violations c) []) (\<lambda>generated.
        let actions = deduplicate_actions [] generated
        in if actions = [] then Inl (Terminal (Some ''empty_repair_plan''))
           else Inr (make_repair_plan sha c draft n actions)))"

section \<open>Applying a repair plan\<close>

datatype repair_error = Day_key_error py_date | Draft_unchanged | Unknown_poi missing_planning_poi

type_synonym day_pois = "(py_date \<times> string list) list"

definition apply_action :: "repair_action \<Rightarrow> day_pois \<Rightarrow> (repair_error, day_pois) result" where
  "apply_action a dp =
     (if ra_kind a = Remove_optional_poi then
        (case ra_from a of
           None \<Rightarrow> Inr dp
         | Some d \<Rightarrow> (case map_of dp d of
               None \<Rightarrow> Inl (Day_key_error d)
             | Some ids \<Rightarrow> Inr (AList.update d (filter (\<lambda>x. x \<noteq> ra_poi a) ids) dp)))
      else
        let dp = map (\<lambda>(d, ids). (d, filter (\<lambda>x. x \<noteq> ra_poi a) ids)) dp
        in case ra_to a of
             None \<Rightarrow> Inr dp
           | Some d \<Rightarrow> (case map_of dp d of
                 None \<Rightarrow> Inl (Day_key_error d)
               | Some ids \<Rightarrow> Inr (AList.update d (ra_poi a # ids) dp)))"

definition day_pois_of :: "candidate_draft \<Rightarrow> day_pois" where
  "day_pois_of draft = dict_of (map (\<lambda>d. (dd_date d, poi_ids d)) (draft_days draft))"

definition rebuild_days :: "day_pois \<Rightarrow> draft_day list \<Rightarrow> draft_day list" where
  "rebuild_days dp ds =
     map (\<lambda>d. \<lparr>dd_date = dd_date d,
               poi_ids = (case map_of dp (dd_date d) of Some ids \<Rightarrow> ids | None \<Rightarrow> [])\<rparr>) ds"

definition apply_repair_plan ::
  "(coordinate \<Rightarrow> coordinate \<Rightarrow> int) \<Rightarrow> trip_spec \<Rightarrow> candidate_draft \<Rightarrow> planning_poi list
     \<Rightarrow> repair_plan \<Rightarrow> route_settings \<Rightarrow> (repair_error, candidate_draft \<times> repair_plan) result" where
  "apply_repair_plan metres trip draft pois plan rs =
     bind_res (fold_res apply_action (rp_actions plan) (day_pois_of draft)) (\<lambda>dp.
       let repaired = \<lparr>draft_id = draft_id draft @ ''-repair-r'' @ show_int (rp_round plan),
             draft_style = draft_style draft, draft_days = rebuild_days dp (draft_days draft)\<rparr>
       in if draft_days repaired = draft_days draft then Inl Draft_unchanged
          else case invalidated_route_keys metres trip draft repaired pois rs of
                 Inl e \<Rightarrow> Inl (Unknown_poi e)
               | Inr ks \<Rightarrow> Inr (repaired, plan\<lparr>rp_invalidated := ks\<rparr>))"

section \<open>What the generated actions do\<close>

lemma set_candidate_items:
  "(d, i) \<in> set (candidate_items c) \<longleftrightarrow>
     (\<exists>pd \<in> set (days c). day_date pd = d \<and> i \<in> set (items pd)) \<and> item_type i = Activity \<and> item_poi_id i \<noteq> None"
  by (auto simp: candidate_items_def set_dated_items)

lemma known_poi_pid: "known_poi ps i = Some p \<Longrightarrow> item_poi_id i = Some (the_pid i)"
  by (simp add: known_poi_def the_pid_def split: option.splits)

lemma the_pid_eq: "item_poi_id i \<noteq> None \<Longrightarrow> item_poi_id i = Some (the_pid i)"
  by (auto simp: the_pid_def)

lemma best_target_dayD:
  assumes "best_target_day trip draft p excluded = Some t"
  shows "t \<in> set (map dd_date (draft_days draft)) \<and> Some t \<noteq> excluded \<and> fits_day trip p t"
proof -
  let ?f = "\<lambda>d. (int (length (poi_ids d)), - available_minutes trip (dd_date d), dd_date d)"
  let ?ds = "filter (\<lambda>d. Some (dd_date d) \<noteq> excluded \<and> fits_day trip p (dd_date d)) (draft_days draft)"
  obtain x xs where "map ?f ?ds = x # xs" and t: "t = snd (snd (min_by (\<lambda>k. k) x xs))"
    using assms unfolding best_target_day_def Let_def by (auto split: list.splits)
  then have "min_by (\<lambda>k. k) x xs \<in> set (map ?f ?ds)" by (metis min_by_in)
  then show ?thesis using t by auto
qed

text \<open>
  A removal names an activity of the candidate that is not a must-visit; every other action
  has a target day of the draft at which the place it names can be visited.
\<close>

definition removable :: "trip_spec \<Rightarrow> plan_candidate \<Rightarrow> py_date \<Rightarrow> string \<Rightarrow> bool" where
  "removable trip c d pid \<longleftrightarrow> (\<exists>i. (d, i) \<in> set (candidate_items c) \<and> item_poi_id i = Some pid
     \<and> \<not> is_must_visit (item_name i) trip)"

definition insertable :: "trip_spec \<Rightarrow> candidate_draft \<Rightarrow> planning_poi list \<Rightarrow> py_date \<Rightarrow> string \<Rightarrow> bool" where
  "insertable trip draft pois t pid \<longleftrightarrow> t \<in> set (map dd_date (draft_days draft)) \<and>
     (\<exists>p \<in> set pois. poi_id_of p = pid \<and> fits_day trip p t)"

definition action_sound ::
  "trip_spec \<Rightarrow> plan_candidate \<Rightarrow> candidate_draft \<Rightarrow> planning_poi list \<Rightarrow> repair_action \<Rightarrow> bool" where
  "action_sound trip c draft pois a \<longleftrightarrow>
     (if ra_kind a = Remove_optional_poi
      then (\<exists>d. ra_from a = Some d \<and> removable trip c d (ra_poi a))
      else (\<exists>t. ra_to a = Some t \<and> insertable trip draft pois t (ra_poi a)))"

text \<open>Every other action than a removal comes from the day its place is scheduled on.\<close>

definition action_local :: "candidate_draft \<Rightarrow> repair_action \<Rightarrow> bool" where
  "action_local draft a \<longleftrightarrow> ra_kind a = Remove_optional_poi \<or>
     (\<forall>day \<in> set (draft_days draft). ra_poi a \<in> set (poi_ids day) \<longrightarrow> ra_from a = Some (dd_date day))"

lemma set_remove_until:
  "a \<in> set (remove_until amount act excess xs saved actions) \<Longrightarrow> a \<in> set actions \<or> a \<in> act ` set xs"
proof (induction amount act excess xs saved actions rule: remove_until.induct)
  case (2 amount act excess x xs saved actions)
  then show ?case by (cases "saved + amount x \<ge> excess") (auto simp: Let_def)
qed simp

lemma set_remove_until_fresh:
  "a \<in> set (remove_until amount act excess xs saved []) \<Longrightarrow> a \<in> act ` set xs"
  using set_remove_until [of a amount act excess xs saved "[]"] by simp

lemma budget_actions_sound:
  assumes "a \<in> set (remove_actions_for_budget trip c ps b)"
  shows "action_sound trip c draft pois a"
proof -
  have "a \<in> budget_action ` set (budget_options trip c ps)"
    using assms
    by (auto simp: remove_actions_for_budget_def Let_def split: if_splits dest!: set_remove_until_fresh)
  then obtain d i where "(d, i) \<in> set (candidate_items c)" "\<not> is_must_visit (item_name i) trip"
    and "a = budget_action (d, i)"
    by (auto simp: budget_options_def)
  then show ?thesis
    using the_pid_eq [of i]
    by (auto simp: action_sound_def removable_def budget_action_def set_candidate_items)
qed

lemma find_set: "find P xs = Some x \<Longrightarrow> x \<in> set xs \<and> P x"
  by (auto simp: find_Some_iff)

lemma day_limit_actions_sound:
  assumes "a \<in> set (remove_actions_for_day_limit trip c ps day vtype)"
  shows "action_sound trip c draft pois a"
proof -
  obtain pd where find: "find (\<lambda>d. day_date d = day) (days c) = Some pd"
    using assms by (cases "find (\<lambda>d. day_date d = day) (days c)")
      (simp_all add: remove_actions_for_day_limit_def)
  then have pd: "pd \<in> set (days c)" "day_date pd = day" by (auto dest: find_set)
  have "a \<in> day_limit_action day vtype ` set (day_limit_options trip ps pd vtype)"
    using assms find
    by (auto simp: remove_actions_for_day_limit_def split: if_splits dest!: set_remove_until_fresh)
  then obtain i p where "i \<in> set (items pd)" "item_type i = Activity" "known_poi ps i = Some p"
    "\<not> is_must_visit (item_name i) trip" "a = day_limit_action day vtype i"
    by (auto simp: day_limit_options_def)
  then show ?thesis
    using pd known_poi_pid [of ps i p]
    by (auto simp: action_sound_def removable_def day_limit_action_def set_candidate_items)
qed

lemma insert_action_sound:
  assumes "insert_action trip draft pois r = Some a"
  shows "action_sound trip c draft pois a"
proof -
  obtain p where p: "find (\<lambda>p. names_match r (poi_name_of p)) pois = Some p"
    using assms by (cases "find (\<lambda>p. names_match r (poi_name_of p)) pois") (simp_all add: insert_action_def)
  then have "p \<in> set pois" by (auto dest: find_set)
  then show ?thesis
    using assms p
    by (auto simp: action_sound_def insertable_def insert_action_def Let_def
        split: option.splits if_splits dest!: best_target_dayD)
qed

lemma set_missing_loop:
  "a \<in> set (missing_loop trip c draft pois rs actions) \<Longrightarrow>
     a \<in> set actions \<or> (\<exists>r \<in> set rs. insert_action trip draft pois r = Some a)"
  by (induction trip c draft pois rs actions rule: missing_loop.induct)
    (auto split: option.splits if_splits)

lemma first_addable_sound:
  "a \<in> set (first_addable trip draft ps) \<Longrightarrow> set ps \<subseteq> set pois \<Longrightarrow> action_sound trip c draft pois a"
  by (induction trip draft ps rule: first_addable.induct)
    (auto simp: action_sound_def insertable_def dest: best_target_dayD split: option.splits)

lemma known_poi_in:
  "known_poi (dict_of (map (\<lambda>p. (poi_id_of p, p)) pois)) i = Some p \<Longrightarrow>
     p \<in> set pois \<and> item_poi_id i = Some (poi_id_of p)"
proof -
  assume *: "known_poi (dict_of (map (\<lambda>p. (poi_id_of p, p)) pois)) i = Some p"
  then obtain x where x: "item_poi_id i = Some x"
    by (cases "item_poi_id i") (simp_all add: known_poi_def)
  with * have "(x, p) \<in> set (map (\<lambda>p. (poi_id_of p, p)) pois)"
    by (intro dict_of_SomeD) (simp add: known_poi_def)
  with x show ?thesis by auto
qed

lemma local_time_loop_sound:
  assumes "a \<in> set (local_time_loop trip draft (dict_of (map (\<lambda>p. (poi_id_of p, p)) pois)) vtype d is)"
    and "\<And>i. i \<in> set is \<Longrightarrow> (d, i) \<in> set (candidate_items c)"
  shows "action_sound trip c draft pois a"
  using assms
proof (induction "is")
  case (Cons i "is")
  then have "item_poi_id i = Some (the_pid i)" and "(d, i) \<in> set (candidate_items c)"
    using the_pid_eq by (auto simp: set_candidate_items)
  with Cons show ?case
    by (auto simp: action_sound_def removable_def insertable_def split: if_splits option.splits
        dest!: known_poi_in best_target_dayD)
qed simp

lemma actions_for_violation_sound:
  assumes "a \<in> set (actions_for_violation trip c draft pois v)"
  shows "action_sound trip c draft pois a"
proof -
  let ?ps = "dict_of (map (\<lambda>p. (poi_id_of p, p)) pois)"
  have local: "action_sound trip c draft pois a"
    if "a \<in> set (actions_for_local_time_violation trip c draft pois vt day ids)" for vt day ids
  proof -
    from that obtain d where day: "day = Some d"
      by (cases day) (simp_all add: actions_for_local_time_violation_def)
    from that obtain pd where "find (\<lambda>x. day_date x = d) (days c) = Some pd"
      by (cases "find (\<lambda>x. day_date x = d) (days c)") (simp_all add: day actions_for_local_time_violation_def)
    moreover from this that have *: "a \<in> set (local_time_loop trip draft ?ps vt d
           (sort_key_reverse (\<lambda>i. (instant (start_at i), the_pid i))
              (filter (\<lambda>i. item_type i = Activity \<and> item_poi_id i \<noteq> None
                  \<and> (ids = [] \<or> the_pid i \<in> set ids)) (items pd))))"
      by (simp add: day actions_for_local_time_violation_def)
    ultimately show ?thesis
      by (intro local_time_loop_sound [OF *]) (auto simp: set_candidate_items dest: find_set)
  qed
  have missing: "action_sound trip c draft pois a"
    if "a \<in> set (actions_for_missing_must_visit trip c draft pois)"
    using set_missing_loop [OF that [unfolded actions_for_missing_must_visit_def]] insert_action_sound by auto
  have empty: "action_sound trip c draft pois a" if "a \<in> set (actions_for_empty_plan trip draft pois)"
    using that first_addable_sound [of a trip draft "sort_key (empty_rank_key trip) pois" pois c]
    by (simp add: actions_for_empty_plan_def split: if_splits)
  show ?thesis
    using assms local missing empty budget_actions_sound day_limit_actions_sound
    unfolding actions_for_violation_def Let_def
    by (auto split: if_splits option.splits)
qed

lemma set_deduplicate_actions: "set (deduplicate_actions seen as) \<subseteq> set as"
  by (induction seen as rule: deduplicate_actions.induct) auto

lemma violation_step_set:
  "violation_step trip c draft pois v as = Inr bs \<Longrightarrow>
     set bs = set as \<union> set (actions_for_violation trip c draft pois v)"
  by (simp add: violation_step_def Let_def split: if_splits) auto

lemma build_repair_plan_actions:
  assumes "build_repair_plan sha trip c draft pois report n = Inr plan"
  shows "set (rp_actions plan) \<subseteq> (\<Union>v \<in> set (error_violations c). set (actions_for_violation trip c draft pois v))
    \<and> rp_actions plan \<noteq> []
    \<and> set (rp_affected_days plan) = {d. \<exists>a \<in> set (rp_actions plan). ra_from a = Some d \<or> ra_to a = Some d}
    \<and> rp_preserved_days plan = filter (\<lambda>d. d \<notin> set (rp_affected_days plan)) (map dd_date (draft_days draft))"
proof -
  obtain generated where gen: "fold_res (violation_step trip c draft pois) (error_violations c) [] = Inr generated"
    and nonempty: "deduplicate_actions [] generated \<noteq> []"
    and plan: "plan = make_repair_plan sha c draft n (deduplicate_actions [] generated)"
  proof (cases "fold_res (violation_step trip c draft pois) (error_violations c) []")
    case (Inr generated)
    then show ?thesis
      using assms that by (simp add: build_repair_plan_def Let_def split: if_splits)
  qed (use assms in \<open>simp add: build_repair_plan_def split: if_splits\<close>)
  have sub: "set generated \<subseteq> (\<Union>v \<in> set (error_violations c). set (actions_for_violation trip c draft pois v))"
    (is "_ \<subseteq> ?U")
  proof (rule fold_res_invariant [where P = "\<lambda>s. set s \<subseteq> ?U", OF gen])
    fix v s u
    assume "v \<in> set (error_violations c)" "set s \<subseteq> ?U" "violation_step trip c draft pois v s = Inr u"
    then show "set u \<subseteq> ?U" by (simp add: violation_step_set) blast
  qed simp
  have "set (List.map_filter id [ra_from a, ra_to a]) = {d. ra_from a = Some d \<or> ra_to a = Some d}" for a
    by (cases "ra_from a"; cases "ra_to a") (auto simp: List.map_filter_simps)
  then have "set (rp_affected_days plan) = {d. \<exists>a \<in> set (rp_actions plan). ra_from a = Some d \<or> ra_to a = Some d}"
    by (auto simp: plan make_repair_plan_def Let_def)
  moreover have "set (rp_actions plan) \<subseteq> set generated"
    by (simp add: plan make_repair_plan_def Let_def set_deduplicate_actions)
  moreover have "rp_preserved_days plan
      = filter (\<lambda>d. d \<notin> set (rp_affected_days plan)) (map dd_date (draft_days draft))"
    by (simp add: plan make_repair_plan_def Let_def)
  moreover have "rp_actions plan \<noteq> []" by (simp add: nonempty plan make_repair_plan_def Let_def)
  ultimately show ?thesis using subset_trans [OF _ sub] by (intro conjI)
qed

section \<open>What applying a plan does\<close>

lemma map_of_map_values: "map_of (map (\<lambda>(d, v). (d, f v)) dp) k = map_option f (map_of dp k)"
  by (induction dp) auto

definition scheduled_on :: "day_pois \<Rightarrow> string \<Rightarrow> py_date \<Rightarrow> bool" where
  "scheduled_on dp pid d \<longleftrightarrow> (\<exists>ids. map_of dp d = Some ids \<and> pid \<in> set ids)"

lemma apply_action_step:
  assumes sound: "action_sound trip c draft pois a"
    and cdays: "set (map day_date (days c)) \<subseteq> dom (map_of dp)"
    and ddays: "set (map dd_date (draft_days draft)) \<subseteq> dom (map_of dp)"
  shows "\<exists>dp'. apply_action a dp = Inr dp' \<and> dom (map_of dp') = dom (map_of dp)
    \<and> (\<forall>pid d. pid \<noteq> ra_poi a \<longrightarrow> scheduled_on dp' pid d = scheduled_on dp pid d)
    \<and> (ra_kind a \<noteq> Remove_optional_poi \<longrightarrow> (\<exists>d. scheduled_on dp' (ra_poi a) d))"
proof (cases "ra_kind a = Remove_optional_poi")
  case True
  then obtain d where d: "ra_from a = Some d" "removable trip c d (ra_poi a)"
    using sound by (auto simp: action_sound_def)
  then have "d \<in> dom (map_of dp)" using cdays by (auto simp: removable_def set_candidate_items)
  then obtain ids where "map_of dp d = Some ids" by auto
  then show ?thesis
    using True d
    by (intro exI [of _ "AList.update d (filter (\<lambda>x. x \<noteq> ra_poi a) ids) dp"])
      (auto simp: apply_action_def update_conv' scheduled_on_def)
next
  case False
  then obtain t where t: "ra_to a = Some t" "insertable trip draft pois t (ra_poi a)"
    using sound by (auto simp: action_sound_def)
  let ?dp = "map (\<lambda>(d, ids). (d, filter (\<lambda>x. x \<noteq> ra_poi a) ids)) dp"
  have "t \<in> dom (map_of dp)" using t ddays by (auto simp: insertable_def)
  then obtain ids where ids: "map_of dp t = Some ids" by auto
  let ?new = "AList.update t (ra_poi a # filter (\<lambda>x. x \<noteq> ra_poi a) ids) ?dp"
  have new: "map_of ?new = (\<lambda>d. map_option (filter (\<lambda>x. x \<noteq> ra_poi a)) (map_of dp d))
      (t \<mapsto> ra_poi a # filter (\<lambda>x. x \<noteq> ra_poi a) ids)"
    by (simp add: update_conv' map_of_map_values [abs_def])
  show ?thesis
  proof (intro exI [of _ ?new] conjI allI impI)
    show "apply_action a dp = Inr ?new"
      using False t ids by (simp add: apply_action_def map_of_map_values)
    show "dom (map_of ?new) = dom (map_of dp)" unfolding new using ids by auto
    show "scheduled_on ?new pid d = scheduled_on dp pid d" if "pid \<noteq> ra_poi a" for pid d
      unfolding scheduled_on_def new using that ids by auto
    show "\<exists>d. scheduled_on ?new (ra_poi a) d" unfolding scheduled_on_def new by auto
  qed
qed

lemma map_of_day_pois_of:
  assumes "distinct (map dd_date (draft_days draft))"
  shows "map_of (day_pois_of draft) d = Some ids \<longleftrightarrow>
    (\<exists>day \<in> set (draft_days draft). dd_date day = d \<and> poi_ids day = ids)"
proof -
  have "map_of (day_pois_of draft) = map_of (map (\<lambda>d. (dd_date d, poi_ids d)) (draft_days draft))"
    unfolding day_pois_of_def map_of_dict_of
    by (rule map_of_inject_set [THEN iffD2]) (use assms in \<open>simp_all add: comp_def flip: rev_map\<close>)
  then show ?thesis
    using assms by (auto simp: map_of_eq_Some_iff comp_def)
qed

lemma dom_day_pois_of: "dom (map_of (day_pois_of draft)) = set (map dd_date (draft_days draft))"
  by (simp add: day_pois_of_def dom_dict_of image_image)

lemma apply_plan_runs:
  assumes sound: "\<And>a. a \<in> set as \<Longrightarrow> action_sound trip c draft pois a"
    and cdays: "set (map day_date (days c)) \<subseteq> set (map dd_date (draft_days draft))"
    and keep: "\<And>a. a \<in> set as \<Longrightarrow> ra_poi a = pid \<Longrightarrow> ra_kind a \<noteq> Remove_optional_poi"
    and start: "\<exists>d. scheduled_on (day_pois_of draft) pid d"
  shows "\<exists>dp. fold_res apply_action as (day_pois_of draft) = Inr dp \<and>
    dom (map_of dp) = set (map dd_date (draft_days draft)) \<and> (\<exists>d. scheduled_on dp pid d)"
proof (rule fold_res_progress [where P = "\<lambda>dp. dom (map_of dp) = set (map dd_date (draft_days draft))
      \<and> (\<exists>d. scheduled_on dp pid d)"])
  show "dom (map_of (day_pois_of draft)) = set (map dd_date (draft_days draft))
      \<and> (\<exists>d. scheduled_on (day_pois_of draft) pid d)"
    using start by (simp add: dom_day_pois_of)
  fix a dp
  assume a: "a \<in> set as" and dp: "dom (map_of dp) = set (map dd_date (draft_days draft))
      \<and> (\<exists>d. scheduled_on dp pid d)"
  from apply_action_step [OF sound [OF a], of dp] dp cdays
  obtain dp' where "apply_action a dp = Inr dp'" and "dom (map_of dp') = dom (map_of dp)"
    and "\<forall>q d. q \<noteq> ra_poi a \<longrightarrow> scheduled_on dp' q d = scheduled_on dp q d"
    and "ra_kind a \<noteq> Remove_optional_poi \<longrightarrow> (\<exists>d. scheduled_on dp' (ra_poi a) d)"
    by auto
  then show "\<exists>t. apply_action a dp = Inr t \<and> dom (map_of t) = set (map dd_date (draft_days draft))
      \<and> (\<exists>d. scheduled_on t pid d)"
    using dp keep [OF a] by metis
qed

lemma set_rebuild_days:
  "scheduled_on dp pid d \<Longrightarrow> d \<in> set (map dd_date ds) \<Longrightarrow>
     \<exists>day \<in> set (rebuild_days dp ds). pid \<in> set (poi_ids day)"
  unfolding rebuild_days_def scheduled_on_def by force

lemma apply_repair_plan_result:
  assumes "fold_res apply_action (rp_actions plan) (day_pois_of draft) = Inr dp"
    and "rebuild_days dp (draft_days draft) \<noteq> draft_days draft"
    and "\<forall>day \<in> set (draft_days draft @ rebuild_days dp (draft_days draft)). set (poi_ids day) \<subseteq> set (map poi_id_of pois)"
  shows "\<exists>repaired plan'. apply_repair_plan metres trip draft pois plan rs = Inr (repaired, plan')
    \<and> draft_days repaired = rebuild_days dp (draft_days draft)"
proof -
  let ?r = "\<lparr>draft_id = draft_id draft @ ''-repair-r'' @ show_int (rp_round plan),
     draft_style = draft_style draft, draft_days = rebuild_days dp (draft_days draft)\<rparr>"
  obtain b where "collect_route_queries metres trip [draft] pois rs = Inr b"
    using collect_route_queries_total [of metres trip "[draft]" pois rs] assms(3) by auto
  moreover obtain a where "collect_route_queries metres trip [?r] pois rs = Inr a"
    using collect_route_queries_total [of metres trip "[?r]" pois rs] assms(3) by auto
  ultimately show ?thesis
    using assms(2) by (simp add: apply_repair_plan_def assms(1) Let_def invalidated_route_keys_def)
qed

lemma apply_repair_plan_Inr:
  assumes "apply_repair_plan metres trip draft pois plan rs = Inr (repaired, plan')"
  obtains dp where "fold_res apply_action (rp_actions plan) (day_pois_of draft) = Inr dp"
    and "draft_days repaired = rebuild_days dp (draft_days draft)"
    and "draft_days repaired \<noteq> draft_days draft"
proof (cases "fold_res apply_action (rp_actions plan) (day_pois_of draft)")
  case (Inr dp)
  then show ?thesis
    using assms that by (auto simp: apply_repair_plan_def Let_def split: if_splits sum.splits)
qed (use assms in \<open>simp add: apply_repair_plan_def\<close>)

section \<open>Properties\<close>

text \<open>A repair of the sample plan: one place of its second day is in the way of another.\<close>

definition sample_broken :: plan_candidate where
  "sample_broken = sample_plan\<lparr>validation := Some (from_violations
     [day_error ''time_overlap'' 739892 [] (M_time_overlap ''a'' ''b'') None])\<rparr>"

definition sample_draft :: candidate_draft where
  "sample_draft = \<lparr>draft_id = ''balanced-r0'', draft_style = Style_balanced,
     draft_days = [\<lparr>dd_date = 739891, poi_ids = [''p1'']\<rparr>, \<lparr>dd_date = 739892, poi_ids = [''p2'', ''p3'']\<rparr>,
                   \<lparr>dd_date = 739893, poi_ids = []\<rparr>]\<rparr>"

definition sample_report :: critic_report where
  "sample_report = analyze_candidate (\<lambda>s. s) sample_broken sample_trip sample_pois"

definition sample_removal :: repair_action where
  "sample_removal = \<lparr>ra_kind = Remove_optional_poi, ra_source = ''time_overlap'', ra_poi = ''p2'',
     ra_from = Some 739892, ra_to = None, ra_reason = R_remove_conflicting, ra_effect = E_fixed ''time_overlap''\<rparr>"

definition sample_repair_plan :: repair_plan where
  "sample_repair_plan = make_repair_plan (\<lambda>s. s) sample_broken sample_draft 1 [sample_removal]"

lemma sample_build:
  "build_repair_plan (\<lambda>s. s) sample_trip sample_broken sample_draft sample_pois sample_report 1
     = Inr sample_repair_plan"
  by code_simp

lemma sample_plan_facts:
  "rp_actions sample_repair_plan = [sample_removal]"
  "rp_preserved_days sample_repair_plan = [739891, 739893]"
  "candidate_items sample_broken = candidate_items sample_plan"
  "map day_date (days sample_broken) = [739891, 739892]"
  "map dd_date (draft_days sample_draft) = [739891, 739892, 739893]"
  by code_simp+

text \<open>
  C10. A repair never loses a must-visit place and never fails on a date. Let the plan be
  built from a candidate whose days are days of the draft. Then applying it can only fail
  because nothing changed or because of a place without facts; and if it succeeds, every
  place of the draft all of whose activities in the candidate are must-visits is still
  scheduled on some day.
\<close>

theorem repair_keeps_must_visit:
  assumes plan: "build_repair_plan sha trip c draft pois report n = Inr plan"
    and cdays: "set (map day_date (days c)) \<subseteq> set (map dd_date (draft_days draft))"
    and dates: "distinct (map dd_date (draft_days draft))"
    and pid: "day \<in> set (draft_days draft)" "pid \<in> set (poi_ids day)"
    and required: "\<forall>(d, i) \<in> set (candidate_items c). item_poi_id i = Some pid \<longrightarrow> is_must_visit (item_name i) trip"
  shows "case apply_repair_plan metres trip draft pois plan rs of
      Inr (repaired, _) \<Rightarrow> \<exists>day' \<in> set (draft_days repaired). pid \<in> set (poi_ids day')
    | Inl e \<Rightarrow> e = Draft_unchanged \<or> (\<exists>m. e = Unknown_poi m)"
proof -
  have sound: "action_sound trip c draft pois a" if "a \<in> set (rp_actions plan)" for a
    using build_repair_plan_actions [OF plan] that actions_for_violation_sound by blast
  have keep: "ra_kind a \<noteq> Remove_optional_poi" if "a \<in> set (rp_actions plan)" "ra_poi a = pid" for a
    using sound [OF that(1)] required that(2)
    by (auto simp: action_sound_def removable_def split: if_splits)
  have "map_of (day_pois_of draft) (dd_date day) = Some (poi_ids day)"
    using map_of_day_pois_of [OF dates] pid by auto
  then have "\<exists>d. scheduled_on (day_pois_of draft) pid d"
    using pid by (auto simp: scheduled_on_def)
  from apply_plan_runs [OF sound cdays keep this]
  obtain dp d where dp: "fold_res apply_action (rp_actions plan) (day_pois_of draft) = Inr dp"
    and dom: "dom (map_of dp) = set (map dd_date (draft_days draft))" and d: "scheduled_on dp pid d"
    by blast
  have "d \<in> set (map dd_date (draft_days draft))" using d dom by (auto simp: scheduled_on_def)
  then have "\<exists>day' \<in> set (rebuild_days dp (draft_days draft)). pid \<in> set (poi_ids day')"
    by (rule set_rebuild_days [OF d])
  then show ?thesis
    by (auto simp: apply_repair_plan_def dp Let_def split: sum.splits)
qed

theorem repair_keeps_must_visit_witness:
  "case apply_repair_plan (\<lambda>_ _. 7) sample_trip sample_draft sample_pois sample_repair_plan
       \<lparr>rs_strategy = 32, rs_mode = Driving, rs_modes = None, rs_max_walking_leg = 1500\<rparr> of
      Inr (repaired, _) \<Rightarrow> \<exists>day' \<in> set (draft_days repaired). ''p1'' \<in> set (poi_ids day')
    | Inl e \<Rightarrow> e = Draft_unchanged \<or> (\<exists>m. e = Unknown_poi m)"
proof (rule repair_keeps_must_visit [OF sample_build])
  show "set (map day_date (days sample_broken)) \<subseteq> set (map dd_date (draft_days sample_draft))"
    and "distinct (map dd_date (draft_days sample_draft))"
    unfolding sample_plan_facts by simp_all
  show "\<lparr>dd_date = 739891, poi_ids = [''p1'']\<rparr> \<in> set (draft_days sample_draft)"
    by (simp add: sample_draft_def)
  show "''p1'' \<in> set (poi_ids \<lparr>dd_date = 739891, poi_ids = [''p1'']\<rparr>)" by simp
  show "\<forall>(d, i) \<in> set (candidate_items sample_broken).
      item_poi_id i = Some ''p1'' \<longrightarrow> is_must_visit (item_name i) sample_trip"
    by code_simp
qed

text \<open>Actions other than removals start from the day the place is scheduled on.\<close>

lemma distinct_poi_days:
  "distinct (concat (map poi_ids ds)) \<Longrightarrow> x \<in> set ds \<Longrightarrow> y \<in> set ds \<Longrightarrow>
     pid \<in> set (poi_ids x) \<Longrightarrow> pid \<in> set (poi_ids y) \<Longrightarrow> dd_date x = dd_date y"
  by (induction ds) auto

lemma insert_action_local:
  assumes "insert_action trip draft pois r = Some a" and once: "distinct (concat (map poi_ids (draft_days draft)))"
  shows "action_local draft a"
proof -
  obtain p where p: "find (\<lambda>p. names_match r (poi_name_of p)) pois = Some p"
    using assms(1) by (cases "find (\<lambda>p. names_match r (poi_name_of p)) pois") (simp_all add: insert_action_def)
  let ?found = "find (\<lambda>d. poi_id_of p \<in> set (poi_ids d)) (draft_days draft)"
  have a: "ra_poi a = poi_id_of p" "ra_from a = map_option dd_date ?found"
    using assms(1) p by (auto simp: insert_action_def Let_def split: option.splits)
  have "ra_from a = Some (dd_date day)"
    if day: "day \<in> set (draft_days draft)" "poi_id_of p \<in> set (poi_ids day)" for day
  proof (cases ?found)
    case None
    then show ?thesis using day by (auto simp: find_None_iff)
  next
    case (Some day')
    then have "day' \<in> set (draft_days draft)" "poi_id_of p \<in> set (poi_ids day')"
      by (auto dest: find_set)
    with distinct_poi_days [OF once day(1) _ day(2)] show ?thesis using Some a(2) by fastforce
  qed
  then show ?thesis by (simp add: action_local_def a(1))
qed

lemma local_time_loop_local:
  assumes "a \<in> set (local_time_loop trip draft ps vtype d is)"
    and "\<And>i day. i \<in> set is \<Longrightarrow> day \<in> set (draft_days draft) \<Longrightarrow> the_pid i \<in> set (poi_ids day) \<Longrightarrow> dd_date day = d"
  shows "action_local draft a"
  using assms
  by (induction "is") (auto simp: action_local_def split: if_splits option.splits)

lemma actions_for_violation_local:
  assumes a: "a \<in> set (actions_for_violation trip c draft pois v)"
    and once: "distinct (concat (map poi_ids (draft_days draft)))"
    and home: "\<forall>(d, i) \<in> set (candidate_items c). \<forall>day \<in> set (draft_days draft).
        the_pid i \<in> set (poi_ids day) \<longrightarrow> dd_date day = d"
    and nonempty: "v_type v \<noteq> ''empty_plan''"
  shows "action_local draft a"
proof (cases "ra_kind a = Remove_optional_poi")
  case False
  let ?ps = "dict_of (map (\<lambda>p. (poi_id_of p, p)) pois)"
  have "a \<notin> set (remove_actions_for_budget trip c ps b)" for ps b
    using False by (auto simp: remove_actions_for_budget_def Let_def budget_action_def
        split: if_splits dest!: set_remove_until_fresh)
  moreover have "a \<notin> set (remove_actions_for_day_limit trip c ps d vt)" for ps d vt
    using False by (auto simp: remove_actions_for_day_limit_def day_limit_action_def
        split: if_splits option.splits dest!: set_remove_until_fresh)
  ultimately consider "a \<in> set (actions_for_missing_must_visit trip c draft pois)"
    | "a \<in> set (actions_for_local_time_violation trip c draft pois (v_type v) (v_day v) (entity_ids v))"
    using a nonempty by (auto simp: actions_for_violation_def Let_def split: if_splits option.splits)
  then show ?thesis
  proof cases
    case 1
    then show ?thesis
      using set_missing_loop [OF 1 [unfolded actions_for_missing_must_visit_def]] insert_action_local once by auto
  next
    case 2
    then obtain d where day: "v_day v = Some d"
      by (cases "v_day v") (simp_all add: actions_for_local_time_violation_def)
    then obtain pd where find: "find (\<lambda>x. day_date x = d) (days c) = Some pd"
      using 2 by (cases "find (\<lambda>x. day_date x = d) (days c)") (simp_all add: actions_for_local_time_violation_def)
    then have pd: "pd \<in> set (days c)" "day_date pd = d" by (auto dest: find_set)
    show ?thesis
    proof (rule local_time_loop_local)
      show "a \<in> set (local_time_loop trip draft ?ps (v_type v) d
          (sort_key_reverse (\<lambda>i. (instant (start_at i), the_pid i))
            (filter (\<lambda>i. item_type i = Activity \<and> item_poi_id i \<noteq> None
                \<and> (entity_ids v = [] \<or> the_pid i \<in> set (entity_ids v))) (items pd))))"
        using 2 day find by (simp add: actions_for_local_time_violation_def)
      fix i dday
      assume "i \<in> set (sort_key_reverse (\<lambda>i. (instant (start_at i), the_pid i))
            (filter (\<lambda>i. item_type i = Activity \<and> item_poi_id i \<noteq> None
                \<and> (entity_ids v = [] \<or> the_pid i \<in> set (entity_ids v))) (items pd)))"
      then have "(d, i) \<in> set (candidate_items c)" using pd by (auto simp: set_candidate_items)
      moreover assume "dday \<in> set (draft_days draft)" "the_pid i \<in> set (poi_ids dday)"
      ultimately show "dd_date dday = d" using home by blast
    qed
  qed
qed (simp add: action_local_def)

lemma apply_action_elsewhere:
  assumes step: "apply_action a dp = Inr dp'" and local: "action_local draft a"
    and days: "ra_from a = Some d \<Longrightarrow> d \<in> A" "ra_to a = Some d \<Longrightarrow> d \<in> A"
    and d: "d \<notin> A" and day: "day \<in> set (draft_days draft)" "dd_date day = d"
    and same: "map_of dp d = Some (poi_ids day)"
  shows "map_of dp' d = Some (poi_ids day)"
proof (cases "ra_kind a = Remove_optional_poi")
  case True
  then show ?thesis
    using step days d same by (auto simp: apply_action_def update_conv' split: option.splits)
next
  case False
  then have "ra_poi a \<notin> set (poi_ids day)"
    using local day days d by (auto simp: action_local_def)
  then have "filter (\<lambda>x. x \<noteq> ra_poi a) (poi_ids day) = poi_ids day"
    by (auto simp: filter_id_conv)
  then show ?thesis
    using False step days d same
    by (auto simp: apply_action_def update_conv' map_of_map_values Let_def split: option.splits)
qed

text \<open>
  C28. A repair of errors other than \<open>empty_plan\<close> changes only the days it says it affects. Let every
  place be scheduled at most once in the draft, every activity of the candidate stand on the
  day of the draft that schedules its place, and no error be \<open>empty_plan\<close>. Then a day the plan
  lists as preserved is a day of the repaired draft, unchanged, and at least one affected day
  did change. (For \<open>empty_plan\<close> it is false: \<open>empty_plan_repair_changes_preserved_day\<close>.)
\<close>

theorem repair_preserves_other_days:
  assumes plan: "build_repair_plan sha trip c draft pois report n = Inr plan"
    and applied: "apply_repair_plan metres trip draft pois plan rs = Inr (repaired, plan')"
    and dates: "distinct (map dd_date (draft_days draft))"
    and once: "distinct (concat (map poi_ids (draft_days draft)))"
    and home: "\<forall>(d, i) \<in> set (candidate_items c). \<forall>day \<in> set (draft_days draft).
        the_pid i \<in> set (poi_ids day) \<longrightarrow> dd_date day = d"
    and errors: "\<forall>v \<in> set (error_violations c). v_type v \<noteq> ''empty_plan''"
  shows "(\<forall>day \<in> set (draft_days draft). dd_date day \<in> set (rp_preserved_days plan) \<longrightarrow>
           day \<in> set (draft_days repaired))
       \<and> (\<exists>d \<in> set (rp_affected_days plan). \<exists>day \<in> set (draft_days draft). dd_date day = d
           \<and> day \<notin> set (draft_days repaired))"
proof -
  let ?A = "set (rp_affected_days plan)"
  have A: "?A = {d. \<exists>a \<in> set (rp_actions plan). ra_from a = Some d \<or> ra_to a = Some d}"
    and preserved: "rp_preserved_days plan = filter (\<lambda>d. d \<notin> ?A) (map dd_date (draft_days draft))"
    and acts: "set (rp_actions plan) \<subseteq> (\<Union>v \<in> set (error_violations c). set (actions_for_violation trip c draft pois v))"
    using build_repair_plan_actions [OF plan] by simp_all
  have local: "action_local draft a" if "a \<in> set (rp_actions plan)" for a
    using acts that actions_for_violation_local [OF _ once home] errors by blast
  from apply_repair_plan_Inr [OF applied]
  obtain dp where dp: "fold_res apply_action (rp_actions plan) (day_pois_of draft) = Inr dp"
    and rebuilt: "draft_days repaired = rebuild_days dp (draft_days draft)"
    and changed: "draft_days repaired \<noteq> draft_days draft" .
  have kept: "map_of dp (dd_date day) = Some (poi_ids day)"
    if day: "day \<in> set (draft_days draft)" "dd_date day \<notin> ?A" for day
  proof (rule fold_res_invariant [where P = "\<lambda>s. map_of s (dd_date day) = Some (poi_ids day)", OF dp])
    show "map_of (day_pois_of draft) (dd_date day) = Some (poi_ids day)"
      using map_of_day_pois_of [OF dates] day(1) by auto
    fix a s t
    assume a: "a \<in> set (rp_actions plan)" "map_of s (dd_date day) = Some (poi_ids day)" "apply_action a s = Inr t"
    have "dd_date day \<in> ?A" if "ra_from a = Some (dd_date day) \<or> ra_to a = Some (dd_date day)"
      using that a(1) unfolding A by blast
    then show "map_of t (dd_date day) = Some (poi_ids day)"
      using apply_action_elsewhere [OF a(3) local [OF a(1)] _ _ day(2) day(1) refl a(2)] by blast
  qed
  have same: "day \<in> set (draft_days repaired)" if "day \<in> set (draft_days draft)" "dd_date day \<notin> ?A" for day
    using kept [OF that] that(1) unfolding rebuilt rebuild_days_def by (auto simp: image_iff intro!: bexI [of _ day])
  have "\<exists>day \<in> set (draft_days draft). day \<notin> set (draft_days repaired)"
  proof (rule ccontr)
    assume "\<not> ?thesis"
    then have all: "\<forall>day \<in> set (draft_days draft). \<exists>x \<in> set (draft_days draft).
        day = \<lparr>dd_date = dd_date x, poi_ids = (case map_of dp (dd_date x) of Some ids \<Rightarrow> ids | None \<Rightarrow> [])\<rparr>"
      unfolding rebuilt rebuild_days_def by auto
    have "\<lparr>dd_date = dd_date day, poi_ids = (case map_of dp (dd_date day) of Some ids \<Rightarrow> ids | None \<Rightarrow> [])\<rparr> = day"
      if "day \<in> set (draft_days draft)" for day
      using all that by (metis draft_day.select_convs(1))
    then have "rebuild_days dp (draft_days draft) = draft_days draft"
      unfolding rebuild_days_def by (intro map_idI)
    with changed rebuilt show False by simp
  qed
  with same preserved show ?thesis by auto
qed

theorem repair_preserves_other_days_witness:
  "\<exists>repaired plan'. apply_repair_plan (\<lambda>_ _. 7) sample_trip sample_draft sample_pois sample_repair_plan
       \<lparr>rs_strategy = 32, rs_mode = Driving, rs_modes = None, rs_max_walking_leg = 1500\<rparr> = Inr (repaired, plan')
     \<and> set (filter (\<lambda>day. dd_date day \<in> {739891, 739893}) (draft_days sample_draft)) \<subseteq> set (draft_days repaired)
     \<and> (\<exists>d \<in> set (rp_affected_days sample_repair_plan). \<exists>day \<in> set (draft_days sample_draft). dd_date day = d
           \<and> day \<notin> set (draft_days repaired))"
proof -
  let ?rs = "\<lparr>rs_strategy = 32, rs_mode = Driving, rs_modes = None, rs_max_walking_leg = 1500\<rparr>"
  have "fold_res apply_action (rp_actions sample_repair_plan) (day_pois_of sample_draft)
      = Inr [(739891, [''p1'']), (739892, [''p3'']), (739893, [])]" by code_simp
  from apply_repair_plan_result [OF this, of sample_pois "\<lambda>_ _. 7" sample_trip ?rs] obtain repaired plan' where
    r: "apply_repair_plan (\<lambda>_ _. 7) sample_trip sample_draft sample_pois sample_repair_plan ?rs = Inr (repaired, plan')"
    by (auto simp: sample_draft_def rebuild_days_def sample_pois_def sample_poi_def sample_facts_def)
  have "distinct (map dd_date (draft_days sample_draft))" "distinct (concat (map poi_ids (draft_days sample_draft)))"
    by code_simp+
  moreover have "\<forall>(d, i) \<in> set (candidate_items sample_broken). \<forall>day \<in> set (draft_days sample_draft).
        the_pid i \<in> set (poi_ids day) \<longrightarrow> dd_date day = d" by code_simp
  moreover have "\<forall>v \<in> set (error_violations sample_broken). v_type v \<noteq> ''empty_plan''" by code_simp
  ultimately show ?thesis
    using repair_preserves_other_days [OF sample_build r] r unfolding sample_plan_facts by auto
qed

text \<open>
  The restriction is needed: for an empty plan the code adds the best place to the emptiest
  day and removes it from the day that held it, a day the plan lists as preserved.
\<close>

definition sample_empty :: plan_candidate where
  "sample_empty = (sample_candidate [])\<lparr>validation := Some (from_violations
     [plan_error ''empty_plan'' M_empty_plan None])\<rparr>"

definition lone_draft :: candidate_draft where
  "lone_draft = \<lparr>draft_id = ''balanced-r0'', draft_style = Style_balanced,
     draft_days = [\<lparr>dd_date = 739891, poi_ids = [''p1'']\<rparr>, \<lparr>dd_date = 739892, poi_ids = []\<rparr>]\<rparr>"

definition lone_addition :: repair_action where
  "lone_addition = \<lparr>ra_kind = Add_available_poi, ra_source = ''empty_plan'', ra_poi = ''p1'', ra_from = None,
     ra_to = Some 739892, ra_reason = R_fill_empty, ra_effect = E_one_activity\<rparr>"

lemma lone_actions:
  "actions_for_empty_plan sample_trip lone_draft [sample_poi ''p1'' ''Lt''] = [lone_addition]"
proof -
  have "first_addable sample_trip lone_draft [sample_poi ''p1'' ''Lt''] = [lone_addition]"
    by code_simp
  then show ?thesis by (simp add: actions_for_empty_plan_def)
qed

lemma empty_plan_repair_changes_preserved_day:
  assumes "r_repairable report"
  shows "\<exists>plan repaired plan'.
     build_repair_plan sha sample_trip sample_empty lone_draft [sample_poi ''p1'' ''Lt''] report 1 = Inr plan
     \<and> apply_repair_plan metres sample_trip lone_draft [sample_poi ''p1'' ''Lt''] plan rs = Inr (repaired, plan')
     \<and> 739891 \<in> set (rp_preserved_days plan)
     \<and> map poi_ids (draft_days lone_draft) = [[''p1''], []]
     \<and> map poi_ids (draft_days repaired) = [[], [''p1'']]"
proof -
  let ?pois = "[sample_poi ''p1'' ''Lt'']"
  let ?plan = "make_repair_plan sha sample_empty lone_draft 1 [lone_addition]"
  have "error_violations sample_empty = [plan_error ''empty_plan'' M_empty_plan None]" by code_simp
  then have build: "build_repair_plan sha sample_trip sample_empty lone_draft ?pois report 1 = Inr ?plan"
    using assms by (simp add: build_repair_plan_def violation_step_def actions_for_violation_def
        plan_error_def lone_actions)
  have acts: "rp_actions ?plan = [lone_addition]" by (simp add: make_repair_plan_def Let_def)
  have "fold_res apply_action (rp_actions ?plan) (day_pois_of lone_draft) = Inr [(739891, []), (739892, [''p1''])]"
    unfolding acts by code_simp
  from apply_repair_plan_result [OF this, of ?pois metres sample_trip rs]
  obtain repaired plan' where
    "apply_repair_plan metres sample_trip lone_draft ?pois ?plan rs = Inr (repaired, plan')"
    "map poi_ids (draft_days repaired) = [[], [''p1'']]"
    by (auto simp: lone_draft_def rebuild_days_def sample_poi_def sample_facts_def)
  moreover have "739891 \<in> set (rp_preserved_days ?plan)"
    by (simp add: make_repair_plan_def Let_def lone_draft_def lone_addition_def List.map_filter_simps)
  moreover have "map poi_ids (draft_days lone_draft) = [[''p1''], []]" by (simp add: lone_draft_def)
  ultimately show ?thesis using build by metis
qed

text \<open>Greedy removal by descending amount needs the fewest removals.\<close>

lemma remove_until_cases:
  assumes "saved < excess"
  shows "(remove_until amount act excess xs saved actions = []
      \<and> (\<forall>k \<le> length xs. saved + (\<Sum>x \<leftarrow> take k xs. amount x) < excess))
    \<or> (\<exists>k. 1 \<le> k \<and> k \<le> length xs \<and> remove_until amount act excess xs saved actions = actions @ map act (take k xs)
      \<and> excess \<le> saved + (\<Sum>x \<leftarrow> take k xs. amount x)
      \<and> (\<forall>j < k. saved + (\<Sum>x \<leftarrow> take j xs. amount x) < excess))"
  using assms
proof (induction xs arbitrary: saved actions)
  case (Cons x xs)
  show ?case
  proof (cases "saved + amount x \<ge> excess")
    case True
    then show ?thesis
      by (intro disjI2 exI [of _ 1]) (use Cons.prems in \<open>auto simp: Let_def\<close>)
  next
    case False
    from Cons.IH [of "saved + amount x" "actions @ [act x]"] False
    consider "remove_until amount act excess xs (saved + amount x) (actions @ [act x]) = []"
        "\<forall>k \<le> length xs. saved + amount x + (\<Sum>x \<leftarrow> take k xs. amount x) < excess"
      | k where "1 \<le> k" "k \<le> length xs"
        "remove_until amount act excess xs (saved + amount x) (actions @ [act x]) = actions @ [act x] @ map act (take k xs)"
        "excess \<le> saved + amount x + (\<Sum>x \<leftarrow> take k xs. amount x)"
        "\<forall>j < k. saved + amount x + (\<Sum>x \<leftarrow> take j xs. amount x) < excess"
      by auto
    then show ?thesis
    proof cases
      case 1
      have "saved + (\<Sum>x \<leftarrow> take k (x # xs). amount x) < excess" if "k \<le> length (x # xs)" for k
        using that 1(2) Cons.prems by (cases k) (auto simp: add.assoc)
      with 1(1) False show ?thesis by (simp add: Let_def)
    next
      case 2
      have "saved + (\<Sum>x \<leftarrow> take j (x # xs). amount x) < excess" if "j < Suc k" for j
        using that 2(5) Cons.prems by (cases j) (auto simp: add.assoc)
      with 2 False show ?thesis
        by (intro disjI2 exI [of _ "Suc k"]) (auto simp: Let_def add.assoc)
    qed
  qed
qed simp

lemma sum_submset_le_take:
  fixes xs :: "rat list"
  assumes "sorted_wrt (\<ge>) xs" and "M \<subseteq># mset xs"
  shows "sum_mset M \<le> sum_list (take (size M) xs)"
  using assms
proof (induction xs arbitrary: M)
  case (Cons x xs)
  show ?case
  proof (cases "M = {#}")
    case False
    then obtain y where y: "y \<in># M" "x \<in># M \<longrightarrow> y = x" by (metis multiset_nonemptyE)
    have "y \<le> x"
      using Cons.prems mset_subset_eqD [OF Cons.prems(2) y(1)] by auto
    have "M - {#y#} \<subseteq># mset xs"
    proof (cases "x \<in># M")
      case True
      then show ?thesis using y(2) Cons.prems(2) by (simp add: subset_eq_diff_conv)
    next
      case False
      then have "count M a \<le> count (mset xs) a" for a
        using mset_subset_eq_count [OF Cons.prems(2), of a] by (cases "a = x") (auto simp: not_in_iff)
      then have "M \<subseteq># mset xs" by (rule mset_subset_eqI)
      then show ?thesis by (metis diff_subset_eq_self subset_mset.order_trans)
    qed
    then have "sum_mset (M - {#y#}) \<le> sum_list (take (size M - 1) xs)"
      using Cons.IH [of "M - {#y#}"] Cons.prems(1) y(1) by (simp add: size_Diff_singleton)
    moreover have "sum_mset M = y + sum_mset (M - {#y#})"
      using y(1) by (auto dest: multi_member_split)
    moreover have "size M = Suc (size M - 1)" using False by (simp add: nonempty_has_size)
    then have "sum_list (take (size M) (x # xs)) = x + sum_list (take (size M - 1) xs)"
      by (metis sum_list.Cons take_Suc_Cons)
    ultimately show ?thesis using \<open>y \<le> x\<close> by linarith
  qed simp
qed simp

lemma budget_options_descending:
  "sorted_wrt (\<ge>) (map (\<lambda>(d, i). item_cost i) (budget_options trip c ps))"
proof -
  let ?f = "\<lambda>(d, i). (- item_cost i, item_preference trip ps i, the_pid i)"
  have "sorted (map ?f (budget_options trip c ps))"
    unfolding budget_options_def by (rule sorted_sort_key)
  then show ?thesis
    by (auto simp: sorted_wrt_map case_prod_unfold elim!: sorted_wrt_mono_rel [rotated])
qed

text \<open>
  The budget repair removes as little as possible: when the plan exceeds the budget, the
  generated removals are a prefix of the removable activities ordered by falling cost, they
  save at least the excess, and every choice of removable activities that saves the excess
  removes at least as many. There are no actions exactly when even removing all of them would
  not save enough.
\<close>

lemma budget_removal_minimal:
  assumes over: "budget < m_known_estimated_cost (metrics c)"
  shows "case remove_actions_for_budget trip c ps budget of
      [] \<Rightarrow> (\<Sum>(d, i) \<leftarrow> budget_options trip c ps. item_cost i) < m_known_estimated_cost (metrics c) - budget
    | a # as \<Rightarrow> a # as = map budget_action (take (length (a # as)) (budget_options trip c ps))
        \<and> m_known_estimated_cost (metrics c) - budget
            \<le> (\<Sum>(d, i) \<leftarrow> take (length (a # as)) (budget_options trip c ps). item_cost i)
        \<and> (\<forall>M. M \<subseteq># mset (budget_options trip c ps)
              \<longrightarrow> m_known_estimated_cost (metrics c) - budget \<le> (\<Sum>(d, i) \<in># M. item_cost i)
              \<longrightarrow> length (a # as) \<le> size M)"
proof -
  define excess where "excess = m_known_estimated_cost (metrics c) - budget"
  let ?opts = "budget_options trip c ps" and ?cost = "\<lambda>(d, i). item_cost i"
  have def: "remove_actions_for_budget trip c ps budget = remove_until ?cost budget_action excess ?opts 0 []"
    using over by (simp add: remove_actions_for_budget_def excess_def)
  have "0 < excess" using over by (simp add: excess_def)
  from remove_until_cases [OF this, of ?cost budget_action ?opts "[]"]
  consider "remove_actions_for_budget trip c ps budget = []"
      "\<forall>k \<le> length ?opts. (\<Sum>x \<leftarrow> take k ?opts. ?cost x) < excess"
    | k where "1 \<le> k" "k \<le> length ?opts" "remove_actions_for_budget trip c ps budget = map budget_action (take k ?opts)"
      "excess \<le> (\<Sum>x \<leftarrow> take k ?opts. ?cost x)" "\<forall>j < k. (\<Sum>x \<leftarrow> take j ?opts. ?cost x) < excess"
    unfolding def by auto
  then show ?thesis
  proof cases
    case 1
    then have "(\<Sum>x \<leftarrow> ?opts. ?cost x) < excess" by (metis order_refl take_all)
    with 1(1) show ?thesis by (simp add: excess_def)
  next
    case 2
    have "k \<le> size M" if M: "M \<subseteq># mset ?opts" "excess \<le> (\<Sum>x \<in># M. ?cost x)" for M
    proof (rule ccontr)
      assume "\<not> k \<le> size M"
      then have "(\<Sum>x \<leftarrow> take (size M) ?opts. ?cost x) < excess" using 2(5) by simp
      moreover have "(\<Sum>x \<in># M. ?cost x) \<le> sum_list (take (size M) (map ?cost ?opts))"
        using sum_submset_le_take [OF budget_options_descending, of "image_mset ?cost M"]
          image_mset_subseteq_mono [OF M(1), of ?cost] by simp
      ultimately show False using M(2) by (simp add: take_map)
    qed
    moreover obtain a as where acts: "remove_actions_for_budget trip c ps budget = a # as"
      using 2(1-3) by (cases "remove_actions_for_budget trip c ps budget") auto
    moreover have len: "length (a # as) = k" unfolding acts [symmetric] using 2(2,3) by simp
    ultimately show ?thesis
      using 2(3,4) unfolding excess_def [symmetric] acts list.case len by (intro conjI allI impI)
  qed
qed

lemma budget_removal_minimal_witness:
  "length (remove_actions_for_budget sample_trip (sample_plan\<lparr>metrics := sample_metrics\<lparr>m_known_estimated_cost := 510\<rparr>\<rparr>)
      (map (\<lambda>p. (poi_id_of p, p)) sample_pois) 500) \<le> 1"
proof -
  let ?c = "sample_plan\<lparr>metrics := sample_metrics\<lparr>m_known_estimated_cost := 510\<rparr>\<rparr>"
    and ?ps = "map (\<lambda>p. (poi_id_of p, p)) sample_pois"
  have "filter (\<lambda>(d, i). known_poi ?ps i \<noteq> None \<and> 0 < item_cost i \<and> \<not> is_must_visit (item_name i) sample_trip)
      (candidate_items ?c) = [(739892, sample_item ''p3'' ''Mu'' 739892 10 12 20)]"
    by code_simp
  then have opts: "budget_options sample_trip ?c ?ps = [(739892, sample_item ''p3'' ''Mu'' 739892 10 12 20)]"
    by (simp add: budget_options_def)
  have "(500 :: rat) < m_known_estimated_cost (metrics ?c)" by simp
  from budget_removal_minimal [OF this, of sample_trip ?ps] show ?thesis
    by (auto simp: opts sample_item_def item_cost_def split: list.splits)
qed
end
