(* ===== verification/SoftRepair.thy ===== *)
theory SoftRepair
  imports PlanRepair Critique
begin

text \<open>
  \<open>planning/soft_repair.py\<close>: compiling the suggestion of a soft critique into one local action,
  and applying it to a draft. Proved: a compiled plan always applies, changes only the days it
  names and never takes a must-visit place out of the plan.
\<close>

record soft_repair_plan =
  sr_round :: int
  sr_target :: string
  sr_dimension :: soft_dimension
  sr_evidence_ids :: "string list"
  sr_action :: repair_action
  sr_affected_days :: "py_date list"
  sr_preserved_days :: "py_date list"
  sr_fingerprint :: string

section \<open>Compiling a suggestion\<close>

definition interest_kept ::
  "trip_spec \<Rightarrow> (string \<times> planning_poi) list \<Rightarrow> day_pois \<Rightarrow> string \<Rightarrow> bool" where
  "interest_kept trip by_id dp x \<longleftrightarrow> interests trip = [] \<or>
     (\<exists>y \<in> set (concat (map snd dp)). y \<noteq> x \<and> (case map_of by_id y of None \<Rightarrow> False
        | Some p \<Rightarrow> set (map normalize (interests trip)) \<inter> set (map normalize (f_categories (facts p))) \<noteq> {}))"

definition removal_allowed ::
  "trip_spec \<Rightarrow> (string \<times> planning_poi) list \<Rightarrow> day_pois \<Rightarrow> string \<Rightarrow> bool" where
  "removal_allowed trip by_id dp x \<longleftrightarrow> length (concat (map snd dp)) > 1 \<and> interest_kept trip by_id dp x"

definition move_allowed ::
  "trip_spec \<Rightarrow> (string \<times> planning_poi) list \<Rightarrow> day_pois \<Rightarrow> planning_poi \<Rightarrow> py_date option \<Rightarrow> bool" where
  "move_allowed trip by_id dp p to =
     (case to of
        None \<Rightarrow> False
      | Some d \<Rightarrow> (case map_of dp d of
          None \<Rightarrow> False
        | Some ids \<Rightarrow> map_of (opening_windows p) d \<noteq> None \<and>
            sum_list (map duration_minutes (List.map_filter (map_of by_id) ids)) + duration_minutes p
              \<le> max_daily_activity_minutes (mobility trip)))"

text \<open>The kind and target day of the local action; \<open>None\<close> where the loop continues.\<close>

definition soft_choice ::
  "trip_spec \<Rightarrow> (string \<times> planning_poi) list \<Rightarrow> day_pois \<Rightarrow> suggested_action
     \<Rightarrow> (repair_action_kind \<times> string \<times> py_date \<times> py_date option) option" where
  "soft_choice trip by_id dp s =
     (case (s_poi_id s, s_from_day s) of
        (Some x, Some d) \<Rightarrow>
          (case (map_of by_id x, map_of dp d) of
             (Some p, Some ids) \<Rightarrow>
               if x \<notin> set ids \<or> is_must_visit (poi_name_of p) trip then None
               else (case s_kind s of
                   No_action \<Rightarrow> None
                 | Remove_optional \<Rightarrow>
                     if removal_allowed trip by_id dp x then Some (Remove_optional_poi, x, d, None) else None
                 | Move_optional \<Rightarrow>
                     if move_allowed trip by_id dp p (s_to_day s) then Some (Move_poi, x, d, s_to_day s) else None
                 | Reorder_optional \<Rightarrow>
                     if length ids < 2 then None else Some (Reorder_optional_poi, x, d, Some d))
           | _ \<Rightarrow> None)
      | _ \<Rightarrow> None)"

definition make_soft_plan ::
  "(string \<Rightarrow> string) \<Rightarrow> plan_candidate \<Rightarrow> candidate_draft \<Rightarrow> int \<Rightarrow> dimension_critique \<Rightarrow> suggested_action
     \<Rightarrow> repair_action_kind \<times> string \<times> py_date \<times> py_date option \<Rightarrow> soft_repair_plan" where
  "make_soft_plan sha c draft n dq s choice =
     (case choice of (kind, x, d, to) \<Rightarrow>
        let affected = sorted_set (d # (case to of None \<Rightarrow> [] | Some t \<Rightarrow> [t]))
        in \<lparr>sr_round = n, sr_target = cand_id c, sr_dimension = dc_dimension dq,
             sr_evidence_ids = s_evidence_ids s,
             sr_action = \<lparr>ra_kind = kind, ra_source = ''soft:'' @ soft_dimension_value (dc_dimension dq), ra_poi = x,
               ra_from = Some d, ra_to = to, ra_reason = R_text (dc_summary dq),
               ra_effect = E_improves (soft_dimension_value (dc_dimension dq))\<rparr>,
             sr_affected_days = affected,
             sr_preserved_days = filter (\<lambda>e. e \<notin> set affected) (map dd_date (draft_days draft)),
             sr_fingerprint = take 24 (sha (join ''|'' [cand_id c, action_kind_value kind, x, isoformat d,
               (case to of None \<Rightarrow> [] | Some t \<Rightarrow> isoformat t)]))\<rparr>)"

fun first_soft_plan ::
  "(string \<Rightarrow> string) \<Rightarrow> trip_spec \<Rightarrow> plan_candidate \<Rightarrow> candidate_draft \<Rightarrow> (string \<times> planning_poi) list
     \<Rightarrow> int \<Rightarrow> dimension_critique list \<Rightarrow> soft_repair_plan option" where
  "first_soft_plan sha trip c draft by_id n [] = None"
| "first_soft_plan sha trip c draft by_id n (dq # dqs) =
     (case dc_action dq of
        None \<Rightarrow> first_soft_plan sha trip c draft by_id n dqs
      | Some s \<Rightarrow> (case soft_choice trip by_id (day_pois_of draft) s of
          None \<Rightarrow> first_soft_plan sha trip c draft by_id n dqs
        | Some choice \<Rightarrow> Some (make_soft_plan sha c draft n dq s choice)))"

text \<open>The plan, or the reason why there is none.\<close>

definition compile_soft_repair_plan ::
  "(string \<Rightarrow> string) \<Rightarrow> trip_spec \<Rightarrow> plan_candidate \<Rightarrow> candidate_draft \<Rightarrow> planning_poi list \<Rightarrow> soft_critique
     \<Rightarrow> int \<Rightarrow> (string, soft_repair_plan) result" where
  "compile_soft_repair_plan sha trip c draft pois critique n =
     (if sc_candidate_id critique \<noteq> cand_id c \<or> draft_id draft \<noteq> cand_id c then Inl ''soft_context_mismatch''
      else (case first_soft_plan sha trip c draft (dict_of (map (\<lambda>p. (poi_id_of p, p)) pois)) n
              (sort_key (\<lambda>d. (dc_score d, soft_dimension_value (dc_dimension d))) (sc_dimensions critique)) of
            None \<Rightarrow> Inl ''no_safe_soft_action''
          | Some plan \<Rightarrow> Inr plan))"

section \<open>Applying the plan\<close>

definition apply_soft_action :: "repair_action \<Rightarrow> day_pois \<Rightarrow> (string, day_pois) result" where
  "apply_soft_action a dp =
     (case ra_from a of
        None \<Rightarrow> Inl ''soft repair source POI is not scheduled on from_day''
      | Some d \<Rightarrow> (case map_of dp d of
          None \<Rightarrow> Inl ''soft repair source POI is not scheduled on from_day''
        | Some ids \<Rightarrow>
            if ra_poi a \<notin> set ids then Inl ''soft repair source POI is not scheduled on from_day''
            else if ra_kind a = Remove_optional_poi then Inr (AList.update d (remove1 (ra_poi a) ids) dp)
            else if ra_kind a = Move_poi then
              (case ra_to a of
                 None \<Rightarrow> Inl ''soft move requires a valid target day''
               | Some t \<Rightarrow>
                   if map_of dp t = None then Inl ''soft move requires a valid target day''
                   else (let dp' = AList.update d (remove1 (ra_poi a) ids) dp
                         in Inr (AList.update t (the (map_of dp' t) @ [ra_poi a]) dp')))
            else if ra_kind a = Reorder_optional_poi then
              Inr (AList.update d (ra_poi a # remove1 (ra_poi a) ids) dp)
            else Inl ''unsupported soft repair action''))"

definition apply_soft_repair :: "candidate_draft \<Rightarrow> soft_repair_plan \<Rightarrow> (string, candidate_draft) result" where
  "apply_soft_repair draft plan =
     bind_res (apply_soft_action (sr_action plan) (day_pois_of draft)) (\<lambda>dp.
       Inr \<lparr>draft_id = draft_id draft @ ''-soft-r'' @ show_int (sr_round plan),
            draft_style = draft_style draft, draft_days = rebuild_days dp (draft_days draft)\<rparr>)"

section \<open>A soft repair is safe\<close>

fun replace_day :: "py_date \<Rightarrow> string list \<Rightarrow> draft_day list \<Rightarrow> draft_day list" where
  "replace_day d ids [] = []"
| "replace_day d ids (x # xs) = (if dd_date x = d then x\<lparr>poi_ids := ids\<rparr> else x) # replace_day d ids xs"

lemma set_replace_day: "y \<in> set (replace_day d ids ds) \<longleftrightarrow> (\<exists>x \<in> set ds. y = (if dd_date x = d then x\<lparr>poi_ids := ids\<rparr> else x))"
  by (induction ds) auto

lemma kept_day: "y \<in> set ds \<Longrightarrow> dd_date y \<noteq> d \<Longrightarrow> y \<in> set (replace_day d ids ds)"
  by (auto simp: set_replace_day)

definition table_of :: "day_pois \<Rightarrow> draft_day list \<Rightarrow> bool" where
  "table_of dp ds \<longleftrightarrow> dom (map_of dp) = dd_date ` set ds \<and> (\<forall>x \<in> set ds. map_of dp (dd_date x) = Some (poi_ids x))"

lemma table_of_draft:
  assumes "distinct (map dd_date (draft_days draft))"
  shows "table_of (day_pois_of draft) (draft_days draft)"
  unfolding table_of_def using dom_day_pois_of [of draft] map_of_day_pois_of [OF assms] by simp blast

lemma table_of_rebuild: "table_of dp ds \<Longrightarrow> rebuild_days dp ds = ds"
  unfolding table_of_def rebuild_days_def by (rule map_idI) simp

lemma map_date_replace_day [simp]: "map dd_date (replace_day d ids ds) = map dd_date ds"
  by (induction ds) auto

lemma table_of_update:
  assumes "table_of dp ds" and "d \<in> dd_date ` set ds"
  shows "table_of (AList.update d ids dp) (replace_day d ids ds)"
proof -
  have dates: "dd_date ` set (replace_day d ids ds) = dd_date ` set ds"
    using map_date_replace_day [of d ids ds] by (metis list.set_map)
  have dom: "dom (map_of (AList.update d ids dp)) = dd_date ` set ds"
    using assms by (auto simp: table_of_def update_conv')
  have all: "\<forall>x \<in> set (replace_day d ids ds). map_of (AList.update d ids dp) (dd_date x) = Some (poi_ids x)"
  proof
    fix x assume "x \<in> set (replace_day d ids ds)"
    then obtain y where y: "y \<in> set ds" and "x = (if dd_date y = d then y\<lparr>poi_ids := ids\<rparr> else y)"
      by (auto simp: set_replace_day)
    moreover have "map_of dp (dd_date y) = Some (poi_ids y)"
      using assms(1) y unfolding table_of_def by blast
    ultimately show "map_of (AList.update d ids dp) (dd_date x) = Some (poi_ids x)"
      by (cases "dd_date y = d") (simp_all add: update_conv del: map_of_eq_Some_iff)
  qed
  show ?thesis unfolding table_of_def dates using dom all by (rule conjI)
qed

lemma table_of_lookup:
  assumes "table_of dp ds" and "map_of dp d = Some ids"
  shows "\<exists>x \<in> set ds. dd_date x = d \<and> poi_ids x = ids"
proof -
  have "d \<in> dd_date ` set ds" using assms unfolding table_of_def by blast
  then obtain x where x: "x \<in> set ds" "d = dd_date x" by blast
  then have "map_of dp d = Some (poi_ids x)" using assms unfolding table_of_def by simp
  then show ?thesis using assms(2) x by auto
qed

lemma mset_replace_day:
  assumes "distinct (map dd_date ds)" and "x \<in> set ds" and "dd_date x = d"
  shows "mset (concat (map poi_ids (replace_day d ids ds))) + mset (poi_ids x)
    = mset (concat (map poi_ids ds)) + mset ids"
  using assms
proof (induction ds)
  case (Cons y ds)
  have other: "replace_day d ids ds = ds" if "d \<notin> dd_date ` set ds"
    using that by (induction ds) auto
  show ?case
  proof (cases "y = x")
    case True
    then show ?thesis using Cons.prems other by simp
  next
    case False
    then have "x \<in> set ds" "dd_date y \<noteq> d" using Cons.prems by auto
    then show ?thesis using Cons by (simp add: ac_simps)
  qed
qed simp

text \<open>The choice behind a compiled plan, and what it guarantees.\<close>

lemma first_soft_plan_choice:
  assumes "first_soft_plan sha trip c draft by_id n dqs = Some plan"
  obtains s kind x d to dq where "soft_choice trip by_id (day_pois_of draft) s = Some (kind, x, d, to)"
    and "plan = make_soft_plan sha c draft n dq s (kind, x, d, to)"
  using assms
  by (induction dqs) (auto split: option.splits)

definition safe_choice ::
  "trip_spec \<Rightarrow> planning_poi list \<Rightarrow> day_pois \<Rightarrow> repair_action_kind \<Rightarrow> string \<Rightarrow> py_date \<Rightarrow> py_date option \<Rightarrow> bool" where
  "safe_choice trip pois dp kind x d to \<longleftrightarrow> (\<exists>p \<in> set pois. \<exists>ids. poi_id_of p = x \<and> \<not> is_must_visit (poi_name_of p) trip \<and>
     map_of dp d = Some ids \<and> x \<in> set ids \<and>
     (case kind of
        Remove_optional_poi \<Rightarrow> to = None \<and> 1 < length (concat (map snd dp))
      | Move_poi \<Rightarrow> (\<exists>t. to = Some t \<and> map_of dp t \<noteq> None \<and> map_of (opening_windows p) t \<noteq> None)
      | Reorder_optional_poi \<Rightarrow> to = Some d
      | _ \<Rightarrow> False))"

lemma soft_choice_safe:
  assumes "soft_choice trip (dict_of (map (\<lambda>p. (poi_id_of p, p)) pois)) dp s = Some (kind, x, d, to)"
  shows "safe_choice trip pois dp kind x d to"
proof -
  obtain p ids where x: "s_poi_id s = Some x" "s_from_day s = Some d" "map_of dp d = Some ids" "x \<in> set ids"
      "\<not> is_must_visit (poi_name_of p) trip"
    and p: "map_of (dict_of (map (\<lambda>p. (poi_id_of p, p)) pois)) x = Some p"
    using assms by (auto simp: soft_choice_def simp del: map_of_eq_Some_iff
        split: option.splits if_splits suggested_kind.splits)
  have "p \<in> set pois" "poi_id_of p = x" using dict_of_SomeD [OF p] by auto
  moreover have "case kind of
        Remove_optional_poi \<Rightarrow> to = None \<and> 1 < length (concat (map snd dp))
      | Move_poi \<Rightarrow> (\<exists>t. to = Some t \<and> map_of dp t \<noteq> None \<and> map_of (opening_windows p) t \<noteq> None)
      | Reorder_optional_poi \<Rightarrow> to = Some d
      | _ \<Rightarrow> False"
    using x assms p by (cases "s_kind s"; cases "s_to_day s")
      (auto simp: soft_choice_def removal_allowed_def move_allowed_def dest: sym simp del: map_of_eq_Some_iff split: option.splits if_splits)
  ultimately show ?thesis using x unfolding safe_choice_def by blast
qed

lemma mset_snoc_remove1: "x \<in> set xs \<Longrightarrow> mset (remove1 x xs) + {#x#} = mset xs"
  by simp

lemma mset_cancel: "a + m = b + r \<Longrightarrow> r + s = m \<Longrightarrow> a + s = (b :: 'a multiset)"
  by (metis add.assoc add.commute add_right_cancel)

lemma apply_safe_choice:
  assumes table: "table_of dp ds" and dates: "distinct (map dd_date ds)"
    and safe: "safe_choice trip pois dp kind x d to"
    and a: "ra_kind a = kind" "ra_poi a = x" "ra_from a = Some d" "ra_to a = to"
  shows "\<exists>dp' ds'. apply_soft_action a dp = Inr dp' \<and> table_of dp' ds' \<and> map dd_date ds' = map dd_date ds \<and>
     (\<forall>y \<in> set ds. dd_date y \<noteq> d \<and> Some (dd_date y) \<noteq> to \<longrightarrow> y \<in> set ds') \<and>
     mset (concat (map poi_ids ds')) + (if kind = Remove_optional_poi then {#x#} else {#}) = mset (concat (map poi_ids ds))"
proof -
  obtain ids where ids: "map_of dp d = Some ids" "x \<in> set ids" using safe by (auto simp: safe_choice_def simp del: map_of_eq_Some_iff)
  obtain y where y: "y \<in> set ds" "dd_date y = d" "poi_ids y = ids" using table_of_lookup [OF table ids(1)] by blast
  let ?dp = "AList.update d (remove1 x ids) dp" and ?ds = "replace_day d (remove1 x ids) ds"
  have removed: "table_of ?dp ?ds" by (rule table_of_update [OF table]) (use y in auto)
  have m: "mset (concat (map poi_ids ?ds)) + {#x#} = mset (concat (map poi_ids ds))"
    using mset_replace_day [OF dates y(1,2), of "remove1 x ids", unfolded y(3)] mset_snoc_remove1 [OF ids(2)] by (rule mset_cancel)
  consider (remove) "kind = Remove_optional_poi" "to = None" | (move) t where "kind = Move_poi" "to = Some t" "map_of dp t \<noteq> None"
    | (reorder) "kind = Reorder_optional_poi" "to = Some d"
    using safe by (cases kind) (auto simp: safe_choice_def simp del: map_of_eq_Some_iff)
  then show ?thesis
  proof cases
    case remove
    then show ?thesis using ids a removed m
      by (intro exI [of _ ?dp] exI [of _ ?ds]) (auto simp: apply_soft_action_def simp del: map_of_eq_Some_iff intro: kept_day)
  next
    case (move t)
    have "map_of ?dp t \<noteq> None" using move(3) by (simp add: update_conv')
    then obtain ids' where ids': "map_of ?dp t = Some ids'" by blast
    obtain z where z: "z \<in> set ?ds" "dd_date z = t" "poi_ids z = ids'" using table_of_lookup [OF removed ids'] by blast
    let ?dp' = "AList.update t (ids' @ [x]) ?dp" and ?ds' = "replace_day t (ids' @ [x]) ?ds"
    have "table_of ?dp' ?ds'" by (rule table_of_update [OF removed]) (use z in auto)
    moreover have "mset (concat (map poi_ids ?ds')) = mset (concat (map poi_ids ?ds)) + {#x#}"
      using mset_replace_day [OF _ z(1,2), of "ids' @ [x]"] dates z(3) by simp
    moreover have "map dd_date ?ds' = map dd_date ds" by simp
    moreover have "apply_soft_action a dp = Inr ?dp'"
      using ids a move ids' by (simp add: apply_soft_action_def Let_def del: map_of_eq_Some_iff)
    ultimately show ?thesis using m move
      by (intro exI [of _ ?dp'] exI [of _ ?ds']) (auto intro: kept_day)
  next
    case reorder
    let ?dp' = "AList.update d (x # remove1 x ids) dp" and ?ds' = "replace_day d (x # remove1 x ids) ds"
    have same_ids: "mset (x # remove1 x ids) = mset ids" using ids(2) by simp
    have "table_of ?dp' ?ds'" by (rule table_of_update [OF table]) (use y in auto)
    moreover have "mset (concat (map poi_ids ?ds')) = mset (concat (map poi_ids ds))"
      using mset_replace_day [OF dates y(1,2), of "x # remove1 x ids", unfolded y(3)] same_ids by (simp only: add_right_cancel)
    moreover have "apply_soft_action a dp = Inr ?dp'"
      using ids a reorder by (simp add: apply_soft_action_def del: map_of_eq_Some_iff)
    ultimately show ?thesis using reorder
      by (intro exI [of _ ?dp'] exI [of _ ?ds']) (auto intro: kept_day)
  qed
qed

text \<open>
  C35. A soft repair is safe. Whenever a suggestion compiles to a plan (and the draft lists each
  date once), the plan applies to the draft without an error; the repaired draft has the same
  dates, and the same days wherever the plan promises to preserve them; and its places are
  those of the draft, except that a removal drops exactly one occurrence of the plan's place,
  which is not a must-visit.
\<close>

theorem soft_repair_is_safe:
  assumes plan: "compile_soft_repair_plan sha trip c draft pois critique n = Inr plan"
    and dates: "distinct (map dd_date (draft_days draft))"
  shows "\<exists>draft'. apply_soft_repair draft plan = Inr draft' \<and>
     map dd_date (draft_days draft') = map dd_date (draft_days draft) \<and>
     (\<forall>day \<in> set (draft_days draft). dd_date day \<in> set (sr_preserved_days plan) \<longrightarrow> day \<in> set (draft_days draft')) \<and>
     (\<exists>p \<in> set pois. poi_id_of p = ra_poi (sr_action plan) \<and> \<not> is_must_visit (poi_name_of p) trip) \<and>
     mset (concat (map poi_ids (draft_days draft')))
       + (if ra_kind (sr_action plan) = Remove_optional_poi then {#ra_poi (sr_action plan)#} else {#})
       = mset (concat (map poi_ids (draft_days draft)))"
proof -
  obtain s kind x d to dq where choice: "soft_choice trip (dict_of (map (\<lambda>p. (poi_id_of p, p)) pois)) (day_pois_of draft) s = Some (kind, x, d, to)"
    and mk: "plan = make_soft_plan sha c draft n dq s (kind, x, d, to)"
    using plan by (auto simp: compile_soft_repair_plan_def split: if_splits option.splits elim!: first_soft_plan_choice)
  note safe = soft_choice_safe [OF choice]
  have a: "ra_kind (sr_action plan) = kind" "ra_poi (sr_action plan) = x" "ra_from (sr_action plan) = Some d" "ra_to (sr_action plan) = to"
    by (simp_all add: mk make_soft_plan_def Let_def)
  obtain dp ds where run: "apply_soft_action (sr_action plan) (day_pois_of draft) = Inr dp" and ds: "table_of dp ds"
      "map dd_date ds = map dd_date (draft_days draft)"
      "\<forall>y \<in> set (draft_days draft). dd_date y \<noteq> d \<and> Some (dd_date y) \<noteq> to \<longrightarrow> y \<in> set ds"
      "mset (concat (map poi_ids ds)) + (if kind = Remove_optional_poi then {#x#} else {#}) = mset (concat (map poi_ids (draft_days draft)))"
    using apply_safe_choice [OF table_of_draft [OF dates] dates safe a] by blast
  have "rebuild_days dp (draft_days draft) = rebuild_days dp ds"
    using arg_cong [OF ds(2), of "map (\<lambda>d. \<lparr>dd_date = d, poi_ids = case map_of dp d of Some ids \<Rightarrow> ids | None \<Rightarrow> []\<rparr>)"]
    by (simp add: rebuild_days_def o_def)
  then obtain draft' where "apply_soft_repair draft plan = Inr draft'" and "draft_days draft' = ds"
    by (simp add: apply_soft_repair_def run table_of_rebuild [OF ds(1)])
  moreover have "\<forall>y \<in> set (draft_days draft). dd_date y \<in> set (sr_preserved_days plan) \<longrightarrow> y \<in> set ds"
  proof (intro ballI impI)
    fix y assume y: "y \<in> set (draft_days draft)" "dd_date y \<in> set (sr_preserved_days plan)"
    then have "dd_date y \<noteq> d \<and> Some (dd_date y) \<noteq> to" by (cases to) (auto simp: mk make_soft_plan_def Let_def)
    then show "y \<in> set ds" using ds(3) y(1) by blast
  qed
  moreover have "\<exists>p \<in> set pois. poi_id_of p = x \<and> \<not> is_must_visit (poi_name_of p) trip"
    using safe by (auto simp: safe_choice_def)
  ultimately show ?thesis using ds(2,4) a by (intro exI [of _ draft'] conjI) (simp_all split: if_splits)
qed

definition drop_second :: dimension_critique where
  "drop_second = \<lparr>dc_dimension = hd all_dimensions, dc_score = 40, dc_summary = ''too dense'', dc_evidence_ids = [''e''],
     dc_action = Some \<lparr>s_kind = Remove_optional, s_poi_id = Some ''p2'', s_from_day = Some 739892, s_to_day = None,
       s_evidence_ids = [''e''], s_expected_dimension = None\<rparr>\<rparr>"

definition dense_critique :: soft_critique where
  "dense_critique = \<lparr>sc_candidate_id = ''balanced-r0'', sc_dimensions = [drop_second], sc_overall_summary = ''dense'',
     sc_tradeoff_evidence = []\<rparr>"

theorem soft_repair_is_safe_witness:
  "\<exists>plan draft'. compile_soft_repair_plan (\<lambda>s. s) sample_trip sample_plan sample_draft sample_pois dense_critique 1 = Inr plan \<and>
     apply_soft_repair sample_draft plan = Inr draft' \<and> map dd_date (draft_days draft') = map dd_date (draft_days sample_draft)"
proof -
  have table: "map_of (dict_of (map (\<lambda>p. (poi_id_of p, p)) sample_pois)) ''p2'' = Some (sample_poi ''p2'' ''Su'')"
      "map_of (dict_of (map (\<lambda>p. (poi_id_of p, p)) sample_pois)) ''p1'' = Some (sample_poi ''p1'' ''Lt'')"
    by (simp_all add: dict_of_def sample_pois_def sample_poi_def sample_facts_def del: map_of_eq_Some_iff)
  have optional: "\<not> is_must_visit (poi_name_of (sample_poi ''p2'' ''Su'')) sample_trip" by code_simp
  have days: "day_pois_of sample_draft = map (\<lambda>d. (dd_date d, poi_ids d)) (draft_days sample_draft)"
    by (simp add: day_pois_of_def dict_of_def sample_draft_def)
  have nature: "set (map normalize (interests sample_trip)) \<inter> set (map normalize (f_categories (facts (sample_poi ''p1'' ''Lt'')))) \<noteq> {}"
    by (simp add: sample_trip_def sample_poi_def sample_facts_def)
  have "interest_kept sample_trip (dict_of (map (\<lambda>p. (poi_id_of p, p)) sample_pois)) (day_pois_of sample_draft) ''p2''"
    unfolding interest_kept_def days using nature table(2)
    by (intro disjI2 bexI [of _ "''p1''"]) (simp_all add: sample_draft_def)
  then have "soft_choice sample_trip (dict_of (map (\<lambda>p. (poi_id_of p, p)) sample_pois)) (day_pois_of sample_draft)
      (the (dc_action drop_second)) = Some (Remove_optional_poi, ''p2'', 739892, None)"
    using optional table(1) by (simp add: soft_choice_def drop_second_def removal_allowed_def days)
      (simp add: sample_draft_def)
  then have "\<exists>plan. compile_soft_repair_plan (\<lambda>s. s) sample_trip sample_plan sample_draft sample_pois dense_critique 1 = Inr plan"
    by (simp add: compile_soft_repair_plan_def dense_critique_def drop_second_def)
      (simp add: sample_draft_def sample_plan_def sample_candidate_def)
  then obtain plan where "compile_soft_repair_plan (\<lambda>s. s) sample_trip sample_plan sample_draft sample_pois dense_critique 1 = Inr plan" ..
  then show ?thesis
    using soft_repair_is_safe [of "\<lambda>s. s" sample_trip sample_plan sample_draft sample_pois dense_critique 1 plan]
    by (auto simp: sample_draft_def)
qed

end
