(* ===== verification/PlanOptimization.thy ===== *)
theory PlanOptimization
  imports PlanSchedulability
begin

text \<open>
  \<open>planning/optimization.py\<close> and \<open>domain/optimization_models.py\<close>: choosing the places to
  optimise over, the route matrix, the assignment model that is handed to the CP-SAT solver, and
  what is read from its answer. The solver is the parameter \<open>cp\<close>; its constraints and objective
  are built here as data. What the code relies on is \<open>solver_sound\<close>: an answer that CP-SAT
  calls optimal or feasible satisfies every constraint of the model.
\<close>

section \<open>Data\<close>

datatype solve_status = Solve_optimal | Solve_feasible | Solve_degraded | Solve_infeasible

fun solve_status_value :: "solve_status \<Rightarrow> string" where
  "solve_status_value Solve_optimal = ''optimal''"
| "solve_status_value Solve_feasible = ''feasible''"
| "solve_status_value Solve_degraded = ''degraded''"
| "solve_status_value Solve_infeasible = ''infeasible''"

record optimization_budget =
  max_solve_ms :: int
  max_search_states :: int
  candidate_limit :: int
  variant_count :: int

definition default_optimization_budget :: optimization_budget where
  "default_optimization_budget =
     \<lparr>max_solve_ms = 800, max_search_states = 20000, candidate_limit = 8, variant_count = 3\<rparr>"

definition optimization_budget_ok :: "optimization_budget \<Rightarrow> bool" where
  "optimization_budget_ok b \<longleftrightarrow> 10 \<le> max_solve_ms b \<and> max_solve_ms b \<le> 30000 \<and>
     1 \<le> max_search_states b \<and> max_search_states b \<le> 1000000 \<and>
     1 \<le> candidate_limit b \<and> candidate_limit b \<le> 20 \<and> 1 \<le> variant_count b \<and> variant_count b \<le> 3"

record objective_weights =
  w_preference :: int
  w_diversity :: int
  w_travel :: int
  w_cost :: int

record optimization_poi =
  o_id :: string
  o_name :: string
  o_categories :: "string list"
  o_duration_minutes :: int
  o_party_cost :: "rat option"
  o_preference_value :: int
  o_data_confidence :: rat
  o_must_visit :: bool
  o_available_days :: "py_date list"

record matrix_entry =
  me_origin_id :: string
  me_destination_id :: string
  me_duration_minutes :: int
  me_distance_meters :: int
  me_mode :: route_mode
  me_provider :: string
  me_data_confidence :: rat

record optimization_problem =
  op_id :: string
  op_dates :: "py_date list"
  op_anchor_id :: string
  op_pois :: "optimization_poi list"
  op_route_matrix :: "matrix_entry list"
  op_total_budget :: "rat option"
  op_max_daily_activity_minutes :: int
  op_max_daily_walking_meters :: int
  op_max_walking_leg_meters :: int
  op_available_minutes :: "(py_date \<times> int) list"
  op_weights :: "(plan_style \<times> objective_weights) list"
  op_budget :: optimization_budget

record day_assignment =
  da_date :: py_date
  da_poi_ids :: "string list"

record objective_breakdown =
  ob_preference_value :: int
  ob_diversity_count :: int
  ob_travel_minutes :: int
  ob_walking_meters :: int
  ob_known_cost :: rat

record optimization_solution =
  os_style :: plan_style
  os_days :: "day_assignment list"
  os_objective_value :: rat
  os_breakdown :: objective_breakdown

record optimization_result =
  or_status :: solve_status
  or_solver :: string
  or_solutions :: "optimization_solution list"
  or_elapsed_ms :: rat
  or_search_states :: int
  or_degraded_reason :: "string option"

definition anchor_id :: string where
  "anchor_id = ''__trip_anchor__''"

fun variant_activity_limit :: "plan_style \<Rightarrow> int" where
  "variant_activity_limit Style_relaxed = 2"
| "variant_activity_limit Style_balanced = 3"
| "variant_activity_limit Style_exploration = 4"

definition style_weights :: "(plan_style \<times> objective_weights) list" where
  "style_weights =
    [(Style_relaxed, \<lparr>w_preference = 10, w_diversity = 2, w_travel = 4, w_cost = 2\<rparr>),
     (Style_balanced, \<lparr>w_preference = 10, w_diversity = 5, w_travel = 2, w_cost = 1\<rparr>),
     (Style_exploration, \<lparr>w_preference = 8, w_diversity = 10, w_travel = 1, w_cost = 0\<rparr>)]"

section \<open>The problem\<close>

definition preference_value :: "planning_poi \<Rightarrow> trip_spec \<Rightarrow> int" where
  "preference_value p trip =
     (let cats = set (map normalize (f_categories (facts p)))
      in 100 + 400 * int (card (cats \<inter> set (map normalize (interests trip))))
         - 500 * int (card (cats \<inter> set (map normalize (avoid trip)))) + py_round (100 * data_confidence p))"

definition optimization_rank ::
  "trip_spec \<Rightarrow> planning_poi \<Rightarrow> int \<times> int \<times> rat \<times> (nat \<times> rat) \<times> string" where
  "optimization_rank trip p =
     ((if is_must_visit (poi_name_of p) trip then 0 else 1), - preference_value p trip, - data_confidence p,
      (case party_cost p of Some c \<Rightarrow> (0, c) | None \<Rightarrow> (1, 0)), poi_id_of p)"

definition select_optimization_pois ::
  "trip_spec \<Rightarrow> planning_poi list \<Rightarrow> optimization_budget \<Rightarrow> planning_poi list" where
  "select_optimization_pois trip pois b = take (nat (candidate_limit b)) (sort_key (optimization_rank trip) pois)"

text \<open>One query per mode, walks that are too far left out.\<close>

definition matrix_queries_to ::
  "(coordinate \<Rightarrow> coordinate \<Rightarrow> int) \<Rightarrow> route_settings \<Rightarrow> coordinate \<Rightarrow> string option \<Rightarrow> planning_poi
     \<Rightarrow> route_query list" where
  "matrix_queries_to metres rs from from_id p =
     map (leg_query rs from from_id p) (filter (\<lambda>m. \<not> leg_too_far metres rs from p m) (active_modes rs))"

definition collect_route_matrix_queries ::
  "(coordinate \<Rightarrow> coordinate \<Rightarrow> int) \<Rightarrow> trip_spec \<Rightarrow> planning_poi list \<Rightarrow> route_settings \<Rightarrow> route_query list" where
  "collect_route_matrix_queries metres trip pois rs =
     concat (map (matrix_queries_to metres rs (start_coordinate trip) None) pois)
     @ concat (map (\<lambda>p. concat (map (matrix_queries_to metres rs (f_coordinate (facts p)) (Some (poi_id_of p)))
         (filter (\<lambda>q. poi_id_of q \<noteq> poi_id_of p) pois))) pois)"

definition minutes_available :: "trip_spec \<Rightarrow> py_date \<Rightarrow> int" where
  "minutes_available trip d =
     max 0 (round_div (instant (day_end_at trip d) - instant (day_start_at trip d)) minute)"

definition trip_dates :: "trip_spec \<Rightarrow> py_date list" where
  "trip_dates trip = map (\<lambda>k. start_date trip + k) [0..day_count trip - 1]"

definition optimization_poi_of :: "trip_spec \<Rightarrow> planning_poi \<Rightarrow> optimization_poi" where
  "optimization_poi_of trip p = \<lparr>o_id = poi_id_of p, o_name = poi_name_of p,
     o_categories = sorted_set (f_categories (facts p)), o_duration_minutes = duration_minutes p,
     o_party_cost = party_cost p, o_preference_value = preference_value p trip,
     o_data_confidence = data_confidence p, o_must_visit = is_must_visit (poi_name_of p) trip,
     o_available_days = filter (\<lambda>d. map_of (opening_windows p) d \<noteq> None \<and>
        minutes_available trip d \<ge> duration_minutes p) (trip_dates trip)\<rparr>"

text \<open>\<open>id or ANCHOR_ID\<close>: an empty id counts as missing.\<close>

definition or_anchor :: "string option \<Rightarrow> string" where
  "or_anchor x = (case x of None \<Rightarrow> anchor_id | Some y \<Rightarrow> if y = [] then anchor_id else y)"

definition matrix_entry_of :: "route_query \<Rightarrow> route_result \<Rightarrow> matrix_entry" where
  "matrix_entry_of q r = \<lparr>me_origin_id = or_anchor (origin_poi_id q),
     me_destination_id = or_anchor (destination_poi_id q), me_duration_minutes = rr_duration_minutes r,
     me_distance_meters = distance_meters r, me_mode = rr_mode r, me_provider = rr_provider r,
     me_data_confidence = rr_data_confidence r\<rparr>"

text \<open>The error is the route key that the results lack (a \<open>KeyError\<close>).\<close>

definition build_optimization_problem ::
  "(coordinate \<Rightarrow> coordinate \<Rightarrow> int) \<Rightarrow> trip_spec \<Rightarrow> planning_poi list \<Rightarrow> (string \<times> route_result) list
     \<Rightarrow> optimization_budget \<Rightarrow> route_settings \<Rightarrow> (string, optimization_problem) result" where
  "build_optimization_problem metres trip pois routes b rs =
     bind_res (fold_res (\<lambda>q acc. case map_of routes (route_key q) of
            None \<Rightarrow> Inl (route_key q)
          | Some r \<Rightarrow> Inr (acc @ [matrix_entry_of q r])) (collect_route_matrix_queries metres trip pois rs) [])
       (\<lambda>entries. Inr \<lparr>op_id = destination trip @ ''-'' @ isoformat (start_date trip) @ ''-'' @ show_nat (length pois),
          op_dates = trip_dates trip, op_anchor_id = anchor_id, op_pois = map (optimization_poi_of trip) pois,
          op_route_matrix = entries, op_total_budget = total_budget trip,
          op_max_daily_activity_minutes = max_daily_activity_minutes (mobility trip),
          op_max_daily_walking_meters = max_daily_walking_meters (mobility trip),
          op_max_walking_leg_meters = rs_max_walking_leg rs,
          op_available_minutes = map (\<lambda>d. (d, minutes_available trip d)) (trip_dates trip),
          op_weights = style_weights, op_budget = b\<rparr>)"

section \<open>The assignment model\<close>

datatype cp_var = Assigned string py_date | Covered py_date string

datatype cp_relation = Cp_le | Cp_eq | Cp_ge

record cp_constraint =
  cp_terms :: "(int \<times> cp_var) list"
  cp_relation :: cp_relation
  cp_bound :: int

record cp_model =
  cp_constraints :: "cp_constraint list"
  cp_objective :: "(int \<times> cp_var) list"

datatype cp_status = Cp_optimal | Cp_feasible | Cp_infeasible | Cp_model_invalid | Cp_unknown

record cp_parameters =
  cp_max_seconds :: rat
  cp_max_conflicts :: int
  cp_seed :: nat

record cp_answer =
  cp_status :: cp_status
  cp_value :: "cp_var \<Rightarrow> bool"
  cp_objective_value :: rat
  cp_branches :: int

definition linear_value :: "(cp_var \<Rightarrow> bool) \<Rightarrow> (int \<times> cp_var) list \<Rightarrow> int" where
  "linear_value v ts = (\<Sum>(c, x) \<leftarrow> ts. if v x then c else 0)"

definition satisfies :: "(cp_var \<Rightarrow> bool) \<Rightarrow> cp_constraint \<Rightarrow> bool" where
  "satisfies v k = (case cp_relation k of
     Cp_le \<Rightarrow> linear_value v (cp_terms k) \<le> cp_bound k
   | Cp_eq \<Rightarrow> linear_value v (cp_terms k) = cp_bound k
   | Cp_ge \<Rightarrow> linear_value v (cp_terms k) \<ge> cp_bound k)"

definition solver_sound :: "(cp_parameters \<Rightarrow> cp_model \<Rightarrow> cp_answer) \<Rightarrow> bool" where
  "solver_sound cp \<longleftrightarrow> (\<forall>ps m. cp_status (cp ps m) \<in> {Cp_optimal, Cp_feasible} \<longrightarrow>
     (\<forall>k \<in> set (cp_constraints m). satisfies (cp_value (cp ps m)) k))"

definition raw_entry :: "optimization_problem \<Rightarrow> string \<Rightarrow> string \<Rightarrow> route_mode \<Rightarrow> matrix_entry option" where
  "raw_entry pb from to m =
     map_of (dict_of (map (\<lambda>e. ((me_origin_id e, me_destination_id e, me_mode e), e)) (op_route_matrix pb))) (from, to, m)"

definition pair_entry :: "optimization_problem \<Rightarrow> string \<Rightarrow> string \<Rightarrow> matrix_entry option" where
  "pair_entry pb from to =
     (let driving = raw_entry pb from to Driving
      in case raw_entry pb from to Walking of
           None \<Rightarrow> driving
         | Some w \<Rightarrow> if me_distance_meters w \<le> op_max_walking_leg_meters pb \<or> driving = None then Some w else driving)"

definition from_anchor :: "optimization_problem \<Rightarrow> optimization_poi \<Rightarrow> matrix_entry" where
  "from_anchor pb p = the (pair_entry pb (op_anchor_id pb) (o_id p))"

definition known_party_cost :: "optimization_poi \<Rightarrow> rat" where
  "known_party_cost p = (case o_party_cost p of None \<Rightarrow> 0 | Some c \<Rightarrow> c)"

definition visit_constraints :: "optimization_problem \<Rightarrow> optimization_poi \<Rightarrow> cp_constraint list" where
  "visit_constraints pb p =
     \<lparr>cp_terms = map (\<lambda>d. (1, Assigned (o_id p) d)) (op_dates pb),
      cp_relation = (if o_must_visit p then Cp_eq else Cp_le), cp_bound = 1\<rparr>
     # map (\<lambda>d. \<lparr>cp_terms = [(1, Assigned (o_id p) d)], cp_relation = Cp_eq, cp_bound = 0\<rparr>)
         (filter (\<lambda>d. d \<notin> set (o_available_days p)) (op_dates pb))"

definition sum_over_pois ::
  "optimization_problem \<Rightarrow> (optimization_poi \<Rightarrow> int) \<Rightarrow> py_date \<Rightarrow> (int \<times> cp_var) list" where
  "sum_over_pois pb f d = map (\<lambda>p. (f p, Assigned (o_id p) d)) (op_pois pb)"

definition assign_one :: "optimization_problem \<Rightarrow> cp_constraint" where
  "assign_one pb = \<lparr>cp_terms = concat (map (sum_over_pois pb (\<lambda>p. 1)) (op_dates pb)), cp_relation = Cp_ge, cp_bound = 1\<rparr>"

definition day_constraints :: "optimization_problem \<Rightarrow> plan_style \<Rightarrow> py_date \<Rightarrow> cp_constraint list" where
  "day_constraints pb style d =
     [\<lparr>cp_terms = sum_over_pois pb (\<lambda>p. 1) d, cp_relation = Cp_le, cp_bound = variant_activity_limit style\<rparr>,
      \<lparr>cp_terms = sum_over_pois pb (\<lambda>p. o_duration_minutes p + me_duration_minutes (from_anchor pb p)) d,
       cp_relation = Cp_le,
       cp_bound = min (op_max_daily_activity_minutes pb) (the (map_of (op_available_minutes pb) d))\<rparr>,
      \<lparr>cp_terms = sum_over_pois pb (\<lambda>p. if me_mode (from_anchor pb p) = Walking
          then me_distance_meters (from_anchor pb p) else 0) d,
       cp_relation = Cp_le, cp_bound = op_max_daily_walking_meters pb\<rparr>]"

definition cents :: "rat \<Rightarrow> int" where
  "cents x = py_round (x * 100)"

definition budget_constraints :: "optimization_problem \<Rightarrow> cp_constraint list" where
  "budget_constraints pb =
     (case op_total_budget pb of
        None \<Rightarrow> []
      | Some b \<Rightarrow> [\<lparr>cp_terms = concat (map (\<lambda>p. map (\<lambda>d. (cents (known_party_cost p), Assigned (o_id p) d)) (op_dates pb))
            (op_pois pb)), cp_relation = Cp_le, cp_bound = cents b\<rparr>])"

definition all_categories :: "optimization_problem \<Rightarrow> string list" where
  "all_categories pb = sorted_set (concat (map o_categories (op_pois pb)))"

definition category_constraint :: "optimization_problem \<Rightarrow> py_date \<Rightarrow> string \<Rightarrow> cp_constraint" where
  "category_constraint pb d c =
     (case filter (\<lambda>p. c \<in> set (o_categories p)) (op_pois pb) of
        [] \<Rightarrow> \<lparr>cp_terms = [(1, Covered d c)], cp_relation = Cp_eq, cp_bound = 0\<rparr>
      | matching \<Rightarrow> \<lparr>cp_terms = (1, Covered d c) # map (\<lambda>p. (- 1, Assigned (o_id p) d)) matching,
          cp_relation = Cp_le, cp_bound = 0\<rparr>)"

definition objective_terms :: "optimization_problem \<Rightarrow> objective_weights \<Rightarrow> (int \<times> cp_var) list" where
  "objective_terms pb w =
     concat (map (\<lambda>p. map (\<lambda>d. (w_preference w * o_preference_value p - w_travel w * me_duration_minutes (from_anchor pb p)
           - w_cost w * py_round (known_party_cost p), Assigned (o_id p) d)) (op_dates pb)) (op_pois pb))
     @ concat (map (\<lambda>d. map (\<lambda>c. (w_diversity w, Covered d c)) (all_categories pb)) (op_dates pb))"

definition assignment_model :: "optimization_problem \<Rightarrow> plan_style \<Rightarrow> cp_model" where
  "assignment_model pb style =
     \<lparr>cp_constraints = concat (map (visit_constraints pb) (op_pois pb)) @ [assign_one pb]
        @ concat (map (day_constraints pb style) (op_dates pb)) @ budget_constraints pb
        @ concat (map (\<lambda>d. map (category_constraint pb d) (all_categories pb)) (op_dates pb)),
      cp_objective = objective_terms pb (the (map_of (op_weights pb) style))\<rparr>"

text \<open>The look-ups that building the model makes, all of which must succeed.\<close>

definition model_keys_present :: "optimization_problem \<Rightarrow> plan_style \<Rightarrow> bool" where
  "model_keys_present pb style \<longleftrightarrow> map_of (op_weights pb) style \<noteq> None \<and>
     (\<forall>d \<in> set (op_dates pb). map_of (op_available_minutes pb) d \<noteq> None \<and>
        (\<forall>p \<in> set (op_pois pb). pair_entry pb (op_anchor_id pb) (o_id p) \<noteq> None))"

section \<open>Solving\<close>

datatype solver_error = Solver_timeout | Solver_key_error

function ordered_day ::
  "optimization_problem \<Rightarrow> string \<Rightarrow> string list \<Rightarrow> (solver_error, string list) result" where
  "ordered_day pb current [] = Inr []"
| "ordered_day pb current (x # xs) =
     (if \<exists>y \<in> set (x # xs). pair_entry pb current y = None then Inl Solver_key_error
      else let y = min_by (\<lambda>y. let e = the (pair_entry pb current y)
                 in (me_duration_minutes e, me_distance_meters e, y)) x xs
           in bind_res (ordered_day pb y (remove1 y (x # xs))) (\<lambda>rest. Inr (y # rest)))"
  by pat_completeness auto

termination
proof (relation "measure (\<lambda>(_, _, xs). length xs)")
  fix pb :: optimization_problem and current x xs y
  assume "y = min_by (\<lambda>y. let e = the (pair_entry pb current y)
    in (me_duration_minutes e, me_distance_meters e, y)) x xs"
  then have "y \<in> set (x # xs)" by (simp only: min_by_in)
  then show "((pb, y, remove1 y (x # xs)), (pb, current, x # xs)) \<in> measure (\<lambda>(_, _, xs). length xs)"
    by (auto simp: length_remove1 dest: length_pos_if_in_set)
qed simp

declare ordered_day.simps(2) [simp del]

fun day_routes :: "optimization_problem \<Rightarrow> string \<Rightarrow> string list \<Rightarrow> matrix_entry list" where
  "day_routes pb current [] = []"
| "day_routes pb current (x # xs) = the (pair_entry pb current x) # day_routes pb x xs"

definition chosen_on :: "optimization_problem \<Rightarrow> cp_answer \<Rightarrow> py_date \<Rightarrow> string list" where
  "chosen_on pb ans d = map o_id (filter (\<lambda>p. cp_value ans (Assigned (o_id p) d)) (op_pois pb))"

definition assignment_days ::
  "optimization_problem \<Rightarrow> cp_answer \<Rightarrow> (solver_error, day_assignment list) result" where
  "assignment_days pb ans =
     fold_res (\<lambda>d acc. bind_res (ordered_day pb (op_anchor_id pb) (remdups (chosen_on pb ans d)))
       (\<lambda>xs. Inr (acc @ [\<lparr>da_date = d, da_poi_ids = xs\<rparr>]))) (op_dates pb) []"

definition breakdown_of :: "optimization_problem \<Rightarrow> day_assignment list \<Rightarrow> objective_breakdown" where
  "breakdown_of pb ds =
     (let routes = concat (map (\<lambda>d. day_routes pb (op_anchor_id pb) (da_poi_ids d)) ds);
          by_id = dict_of (map (\<lambda>p. (o_id p, p)) (op_pois pb));
          selected = map (\<lambda>x. the (map_of by_id x)) (concat (map da_poi_ids ds))
      in \<lparr>ob_preference_value = sum_list (map o_preference_value selected),
          ob_diversity_count = int (card (\<Union>p \<in> set selected. set (o_categories p))),
          ob_travel_minutes = sum_list (map me_duration_minutes routes),
          ob_walking_meters = sum_list (map me_distance_meters (filter (\<lambda>e. me_mode e = Walking) routes)),
          ob_known_cost = sum_list (map known_party_cost selected)\<rparr>)"

definition solution_of ::
  "optimization_problem \<Rightarrow> plan_style \<Rightarrow> cp_answer \<Rightarrow> (solver_error, optimization_solution) result" where
  "solution_of pb style ans =
     bind_res (assignment_days pb ans) (\<lambda>ds. Inr \<lparr>os_style = style, os_days = ds,
       os_objective_value = round_to 3 (cp_objective_value ans), os_breakdown = breakdown_of pb ds\<rparr>)"

definition solver_styles :: "optimization_problem \<Rightarrow> plan_style list" where
  "solver_styles pb = take (nat (variant_count (op_budget pb))) [Style_relaxed, Style_balanced, Style_exploration]"

definition solver_parameters :: "optimization_problem \<Rightarrow> nat \<Rightarrow> cp_parameters" where
  "solver_parameters pb k =
     (let n = max 1 (int (length (solver_styles pb)))
      in \<lparr>cp_max_seconds = of_int (max_solve_ms (op_budget pb)) / 1000 / of_int n,
          cp_max_conflicts = max_search_states (op_budget pb) div n, cp_seed = k\<rparr>)"

type_synonym solver_progress = "optimization_solution list \<times> cp_status list \<times> int"

definition solve_variant ::
  "(cp_parameters \<Rightarrow> cp_model \<Rightarrow> cp_answer) \<Rightarrow> optimization_problem \<Rightarrow> nat \<times> plan_style
     \<Rightarrow> solver_progress \<Rightarrow> (solver_error, solver_progress) result" where
  "solve_variant cp pb ks pr =
     (case (ks, pr) of ((k, style), (sols, sts, branches)) \<Rightarrow>
        if \<not> model_keys_present pb style then Inl Solver_key_error
        else (let ans = cp (solver_parameters pb k) (assignment_model pb style);
                  sts' = sts @ [cp_status ans]; branches' = branches + cp_branches ans
              in if cp_status ans = Cp_unknown then Inl Solver_timeout
                 else if cp_status ans \<notin> {Cp_optimal, Cp_feasible} then Inr (sols, sts', branches')
                 else bind_res (solution_of pb style ans) (\<lambda>sol. Inr (sols @ [sol], sts', branches'))))"

definition solve ::
  "(cp_parameters \<Rightarrow> cp_model \<Rightarrow> cp_answer) \<Rightarrow> optimization_problem \<Rightarrow> rat
     \<Rightarrow> (solver_error, optimization_result) result" where
  "solve cp pb elapsed =
     bind_res (fold_res (solve_variant cp pb) (enumerate 0 (solver_styles pb)) ([], [], 0))
       (\<lambda>(sols, sts, branches). Inr
          \<lparr>or_status = (if sols = [] then Solve_infeasible
              else if list_all (\<lambda>s. s = Cp_optimal) sts then Solve_optimal else Solve_feasible),
           or_solver = ''ortools-cp-sat-assignment-v1'', or_solutions = sols, or_elapsed_ms = elapsed,
           or_search_states = branches, or_degraded_reason = None\<rparr>)"

section \<open>Drafts\<close>

definition drafts_from_optimization :: "optimization_result \<Rightarrow> candidate_draft list" where
  "drafts_from_optimization res =
     map (\<lambda>s. \<lparr>draft_id = plan_style_value (os_style s) @ ''-opt-r0'', draft_style = os_style s,
       draft_days = map (\<lambda>d. \<lparr>dd_date = da_date d, poi_ids = da_poi_ids d\<rparr>) (os_days s)\<rparr>) (or_solutions res)"

definition degraded_result :: "candidate_draft list \<Rightarrow> string \<Rightarrow> rat \<Rightarrow> optimization_result" where
  "degraded_result drafts reason elapsed =
     \<lparr>or_status = Solve_degraded, or_solver = ''deterministic-nearest-neighbor-v0.5'',
      or_solutions = map (\<lambda>d. \<lparr>os_style = draft_style d,
          os_days = map (\<lambda>x. \<lparr>da_date = dd_date x, da_poi_ids = poi_ids x\<rparr>) (draft_days d), os_objective_value = 0,
          os_breakdown = \<lparr>ob_preference_value = 0, ob_diversity_count = 0, ob_travel_minutes = 0,
            ob_walking_meters = 0, ob_known_cost = 0\<rparr>\<rparr>) drafts,
      or_elapsed_ms = elapsed, or_search_states = 0, or_degraded_reason = Some reason\<rparr>"


section \<open>What the solver answers\<close>

lemma linear_value_map: "linear_value v (map (\<lambda>x. (f x, g x)) xs) = (\<Sum>x \<leftarrow> xs. if v (g x) then f x else 0)"
  by (induction xs) (simp_all add: linear_value_def)

lemma linear_value_append [simp]: "linear_value v (xs @ ys) = linear_value v xs + linear_value v ys"
  by (simp add: linear_value_def)

lemma linear_value_concat: "linear_value v (concat xss) = (\<Sum>xs \<leftarrow> xss. linear_value v xs)"
  by (induction xss) (simp_all, simp add: linear_value_def)

lemma sum_ones: "(\<Sum>x \<leftarrow> xs. if P x then 1 else 0) = int (length (filter P xs))"
  by (induction xs) auto

lemma mset_ordered_day: "ordered_day pb c xs = Inr ys \<Longrightarrow> mset ys = mset xs"
proof (induction pb c xs arbitrary: ys rule: ordered_day.induct)
  case (2 pb c x xs)
  define y where "y = min_by (\<lambda>y. let e = the (pair_entry pb c y) in (me_duration_minutes e, me_distance_meters e, y)) x xs"
  have y: "y \<in> set (x # xs)" unfolding y_def by (rule min_by_in)
  obtain zs where ok: "\<not> (\<exists>y \<in> set (x # xs). pair_entry pb c y = None)"
    and zs: "ordered_day pb y (remove1 y (x # xs)) = Inr zs" "ys = y # zs"
    using 2(2) by (subst (asm) ordered_day.simps(2)) (auto simp: y_def Let_def simp del: remove1.simps split: if_splits)
  from 2(1) [OF ok y_def zs(1)] have "mset zs = mset (x # xs) - {#y#}" by simp
  moreover have "y \<in># mset (x # xs)" using y by simp
  ultimately show ?case using zs(2) by simp
qed simp

lemma bind_res_assoc: "bind_res (bind_res r f) g = bind_res r (\<lambda>x. bind_res (f x) g)"
  by (cases r) simp_all

lemma assignment_days_result:
  assumes "assignment_days pb ans = Inr ds"
  shows "list_all2 (\<lambda>d a. da_date a = d \<and> mset (da_poi_ids a) = mset (remdups (chosen_on pb ans d))) (op_dates pb) ds"
proof -
  let ?f = "\<lambda>d. bind_res (ordered_day pb (op_anchor_id pb) (remdups (chosen_on pb ans d))) (\<lambda>xs. Inr \<lparr>da_date = d, da_poi_ids = xs\<rparr>)"
  have "fold_res (\<lambda>d acc. bind_res (?f d) (\<lambda>a. Inr (acc @ [a]))) (op_dates pb) [] = Inr ds"
    using assms by (simp add: assignment_days_def bind_res_assoc)
  then show ?thesis
    by (auto simp: fold_res_collect dest!: mset_ordered_day elim!: list_all2_mono)
qed

lemma count_concat_map:
  assumes "\<And>d. d \<in> set ds \<Longrightarrow> distinct (f d)"
  shows "count (mset (concat (map f ds))) x = length (filter (\<lambda>d. x \<in> set (f d)) ds)"
  using assms by (induction ds) (auto simp: distinct_count_atmost_1)

lemma sum_chosen:
  assumes "\<And>p. p \<in> set ps \<Longrightarrow> length (filter (v p) ds) \<le> 1"
  shows "(\<Sum>p \<leftarrow> ps. \<Sum>d \<leftarrow> ds. if v p d then c p else 0) = (\<Sum>p \<leftarrow> filter (\<lambda>p. \<exists>d \<in> set ds. v p d) ps. c p :: int)"
  using assms
proof (induction ps)
  case (Cons p ps)
  have "(\<Sum>d \<leftarrow> ds. if v p d then c p else 0) = c p * int (length (filter (v p) ds))"
    by (induction ds) (auto simp: algebra_simps)
  moreover have "length (filter (v p) ds) = (if \<exists>d \<in> set ds. v p d then 1 else 0)"
    using Cons.prems [of p] by (auto simp: filter_empty_conv le_Suc_eq)
  ultimately show ?case using Cons by auto
qed simp

definition answered_by ::
  "(cp_parameters \<Rightarrow> cp_model \<Rightarrow> cp_answer) \<Rightarrow> optimization_problem \<Rightarrow> optimization_solution \<Rightarrow> nat \<Rightarrow> bool" where
  "answered_by cp pb sol k \<longleftrightarrow> (let ans = cp (solver_parameters pb k) (assignment_model pb (os_style sol))
     in cp_status ans \<in> {Cp_optimal, Cp_feasible} \<and> solution_of pb (os_style sol) ans = Inr sol)"

lemma solution_of_style: "solution_of pb style ans = Inr sol \<Longrightarrow> os_style sol = style"
  by (auto simp: solution_of_def)

lemma solution_of_days: "solution_of pb style ans = Inr sol \<Longrightarrow> assignment_days pb ans = Inr (os_days sol)"
  by (auto simp: solution_of_def)

lemma solve_variant_solutions:
  assumes "solve_variant cp pb (k, style) pr = Inr pr'"
  shows "fst pr' = fst pr \<or> (\<exists>sol. fst pr' = fst pr @ [sol] \<and> answered_by cp pb sol k)"
  using assms
  by (auto simp: solve_variant_def answered_by_def Let_def solution_of_style split: prod.splits if_splits)

lemma solve_result:
  assumes "solve cp pb elapsed = Inr res" and "sol \<in> set (or_solutions res)"
  shows "\<exists>k. answered_by cp pb sol k"
proof -
  let ?P = "\<lambda>pr :: solver_progress. \<forall>sol \<in> set (fst pr). \<exists>k. answered_by cp pb sol k"
  obtain pr where run: "fold_res (solve_variant cp pb) (enumerate 0 (solver_styles pb)) ([], [], 0) = Inr pr"
    and res: "or_solutions res = fst pr"
    using assms(1) by (auto simp: solve_def split: prod.splits)
  have "?P pr"
    using run
  proof (rule fold_res_invariant [where P = ?P])
    fix ks s t assume "?P s" "solve_variant cp pb ks s = Inr t"
    then show "?P t" using solve_variant_solutions [of cp pb "fst ks" "snd ks" s t] by auto
  qed simp
  with assms(2) res show ?thesis by simp
qed

section \<open>Optimised drafts respect the trip\<close>

text \<open>What the constraints say of a sound answer, place by place and day by day.\<close>

lemma sound_constraint:
  assumes "solver_sound cp" and "answered_by cp pb sol k" and "ans = cp (solver_parameters pb k) (assignment_model pb (os_style sol))"
    and "c \<in> set (cp_constraints (assignment_model pb (os_style sol)))"
  shows "satisfies (cp_value ans) c"
  using assms by (auto simp: solver_sound_def answered_by_def Let_def)

lemma assignment_facts:
  assumes sound: "solver_sound cp" and sol: "answered_by cp pb sol k"
  defines "v \<equiv> cp_value (cp (solver_parameters pb k) (assignment_model pb (os_style sol)))"
  shows "p \<in> set (op_pois pb) \<Longrightarrow> length (filter (\<lambda>d. v (Assigned (o_id p) d)) (op_dates pb)) \<le> 1"
    and "p \<in> set (op_pois pb) \<Longrightarrow> o_must_visit p \<Longrightarrow> length (filter (\<lambda>d. v (Assigned (o_id p) d)) (op_dates pb)) = 1"
    and "p \<in> set (op_pois pb) \<Longrightarrow> d \<in> set (op_dates pb) \<Longrightarrow> v (Assigned (o_id p) d) \<Longrightarrow> d \<in> set (o_available_days p)"
    and "d \<in> set (op_dates pb) \<Longrightarrow> int (length (filter (\<lambda>p. v (Assigned (o_id p) d)) (op_pois pb))) \<le> variant_activity_limit (os_style sol)"
    and "op_total_budget pb = Some b \<Longrightarrow>
      (\<Sum>p \<leftarrow> op_pois pb. \<Sum>d \<leftarrow> op_dates pb. if v (Assigned (o_id p) d) then cents (known_party_cost p) else 0) \<le> cents b"
    and "\<exists>d \<in> set (op_dates pb). \<exists>p \<in> set (op_pois pb). v (Assigned (o_id p) d)"
proof -
  have holds: "\<forall>c \<in> set (cp_constraints (assignment_model pb (os_style sol))). satisfies v c"
    using sound_constraint [OF sound sol refl] by (simp add: v_def)
  have visit: "\<forall>c \<in> set (visit_constraints pb p). satisfies v c" if "p \<in> set (op_pois pb)"
    using holds that by (auto simp: assignment_model_def)
  have day: "\<forall>c \<in> set (day_constraints pb (os_style sol) d). satisfies v c" if "d \<in> set (op_dates pb)"
    using holds that by (auto simp: assignment_model_def)
  show "p \<in> set (op_pois pb) \<Longrightarrow> length (filter (\<lambda>d. v (Assigned (o_id p) d)) (op_dates pb)) \<le> 1"
    using visit by (auto simp: visit_constraints_def satisfies_def linear_value_map sum_ones split: if_splits)
  show "p \<in> set (op_pois pb) \<Longrightarrow> o_must_visit p \<Longrightarrow> length (filter (\<lambda>d. v (Assigned (o_id p) d)) (op_dates pb)) = 1"
    using visit by (auto simp: visit_constraints_def satisfies_def linear_value_map sum_ones)
  show "p \<in> set (op_pois pb) \<Longrightarrow> d \<in> set (op_dates pb) \<Longrightarrow> v (Assigned (o_id p) d) \<Longrightarrow> d \<in> set (o_available_days p)"
    using visit by (fastforce simp: visit_constraints_def satisfies_def linear_value_def)
  show "d \<in> set (op_dates pb) \<Longrightarrow> int (length (filter (\<lambda>p. v (Assigned (o_id p) d)) (op_pois pb))) \<le> variant_activity_limit (os_style sol)"
    using day by (auto simp: day_constraints_def sum_over_pois_def satisfies_def linear_value_map sum_ones)
  show "op_total_budget pb = Some b \<Longrightarrow>
      (\<Sum>p \<leftarrow> op_pois pb. \<Sum>d \<leftarrow> op_dates pb. if v (Assigned (o_id p) d) then cents (known_party_cost p) else 0) \<le> cents b"
    using holds by (simp add: assignment_model_def budget_constraints_def satisfies_def linear_value_concat linear_value_map o_def)
  have "satisfies v (assign_one pb)" using holds by (simp add: assignment_model_def)
  then have "(\<Sum>d \<leftarrow> op_dates pb. \<Sum>p \<leftarrow> op_pois pb. if v (Assigned (o_id p) d) then 1 else 0) \<ge> (1 :: int)"
    by (simp add: assign_one_def satisfies_def sum_over_pois_def linear_value_concat linear_value_map o_def)
  moreover have "(\<Sum>d \<leftarrow> ds. \<Sum>p \<leftarrow> op_pois pb. if v (Assigned (o_id p) d) then 1 else 0) = (0 :: int)"
    if "\<forall>d \<in> set ds. \<forall>p \<in> set (op_pois pb). \<not> v (Assigned (o_id p) d)" for ds
    using that by (induction ds) (auto simp: sum_ones)
  ultimately show "\<exists>d \<in> set (op_dates pb). \<exists>p \<in> set (op_pois pb). v (Assigned (o_id p) d)" by fastforce
qed

lemma problem_facts:
  assumes "build_optimization_problem metres trip pois routes b rs = Inr pb"
  shows "op_dates pb = trip_dates trip" and "op_pois pb = map (optimization_poi_of trip) pois"
    and "op_total_budget pb = total_budget trip"
  using assms by (auto simp: build_optimization_problem_def)

lemma distinct_trip_dates [simp]: "distinct (trip_dates trip)"
  by (simp add: trip_dates_def distinct_map inj_on_def)

lemma opt_poi_simps [simp]:
  "o_id (optimization_poi_of trip p) = poi_id_of p"
  "o_must_visit (optimization_poi_of trip p) \<longleftrightarrow> is_must_visit (poi_name_of p) trip"
  "o_party_cost (optimization_poi_of trip p) = party_cost p"
  by (simp_all add: optimization_poi_of_def)

definition planned_ids :: "candidate_draft \<Rightarrow> string list" where
  "planned_ids d = concat (map poi_ids (draft_days d))"

definition known_cost_of :: "planning_poi \<Rightarrow> rat" where
  "known_cost_of p = (case party_cost p of None \<Rightarrow> 0 | Some c \<Rightarrow> c)"

definition open_for_visit :: "trip_spec \<Rightarrow> planning_poi \<Rightarrow> py_date \<Rightarrow> bool" where
  "open_for_visit trip p d \<longleftrightarrow> map_of (opening_windows p) d \<noteq> None \<and> duration_minutes p \<le> minutes_available trip d"

lemma known_party_cost_of [simp]: "known_party_cost (optimization_poi_of trip p) = known_cost_of p"
  by (simp add: known_party_cost_def known_cost_of_def)

text \<open>The days of an optimised draft are the days of the trip with the places assigned to them.\<close>

lemma optimized_days:
  assumes problem: "build_optimization_problem metres trip pois routes b rs = Inr pb"
    and sol: "answered_by cp pb sol k" and ids: "distinct (map poi_id_of pois)"
    and ans: "ans = cp (solver_parameters pb k) (assignment_model pb (os_style sol))"
  shows "list_all2 (\<lambda>d a. da_date a = d \<and> distinct (da_poi_ids a) \<and>
    set (da_poi_ids a) = {poi_id_of p |p. p \<in> set pois \<and> cp_value ans (Assigned (poi_id_of p) d)} \<and>
    length (da_poi_ids a) = length (filter (\<lambda>p. cp_value ans (Assigned (poi_id_of p) d)) pois)) (trip_dates trip) (os_days sol)"
proof -
  have "assignment_days pb ans = Inr (os_days sol)"
    using sol ans by (auto simp: answered_by_def Let_def dest: solution_of_days)
  then have "list_all2 (\<lambda>d a. da_date a = d \<and> mset (da_poi_ids a) = mset (remdups (chosen_on pb ans d))) (trip_dates trip) (os_days sol)"
    using assignment_days_result [of pb ans "os_days sol"] problem_facts [OF problem] by simp
  then show ?thesis
  proof (rule list_all2_mono)
    fix d a assume a: "da_date a = d \<and> mset (da_poi_ids a) = mset (remdups (chosen_on pb ans d))"
    have chosen: "chosen_on pb ans d = map poi_id_of (filter (\<lambda>p. cp_value ans (Assigned (poi_id_of p) d)) pois)"
      using problem_facts(2) [OF problem] by (simp add: chosen_on_def filter_map o_def)
    then have "distinct (chosen_on pb ans d)" using ids by (simp add: distinct_map_filter)
    then have m: "mset (da_poi_ids a) = mset (chosen_on pb ans d)" using a by (simp add: distinct_remdups_id)
    then have "distinct (da_poi_ids a)" using \<open>distinct (chosen_on pb ans d)\<close> by (metis distinct_count_atmost_1 set_mset_mset)
    with a m show "da_date a = d \<and> distinct (da_poi_ids a) \<and>
        set (da_poi_ids a) = {poi_id_of p |p. p \<in> set pois \<and> cp_value ans (Assigned (poi_id_of p) d)} \<and>
        length (da_poi_ids a) = length (filter (\<lambda>p. cp_value ans (Assigned (poi_id_of p) d)) pois)"
      using mset_eq_setD [OF m] mset_eq_length [OF m] by (auto simp: chosen)
  qed
qed

lemma list_all2_conv_map:
  assumes "list_all2 (\<lambda>d a. key a = d \<and> P d a) ds as"
  shows "map key as = ds" and "\<forall>a \<in> set as. P (key a) a"
  using assms by (induction rule: list_all2_induct) auto

text \<open>
  C34. An optimised draft respects the trip. Whatever the CP-SAT solver does, as long as the
  answers it calls optimal or feasible satisfy the model it was given: every draft read from
  a solution has exactly the days of the trip and schedules something; each must-visit
  place is scheduled exactly once and no place twice; every scheduled place is one of the
  given ones, has an opening window on its day and fits the time available there; no day
  exceeds the activity limit of the style; and the known costs (in cents) keep the budget.
\<close>

theorem optimized_drafts_respect_trip:
  assumes sound: "solver_sound cp" and ids: "distinct (map poi_id_of pois)"
    and problem: "build_optimization_problem metres trip pois routes b rs = Inr pb"
    and solved: "solve cp pb elapsed = Inr res" and draft: "draft \<in> set (drafts_from_optimization res)"
  shows "map dd_date (draft_days draft) = trip_dates trip \<and> planned_ids draft \<noteq> [] \<and>
     (\<forall>p \<in> set pois. is_must_visit (poi_name_of p) trip \<longrightarrow> count (mset (planned_ids draft)) (poi_id_of p) = 1) \<and>
     distinct (planned_ids draft) \<and>
     (\<forall>day \<in> set (draft_days draft). int (length (poi_ids day)) \<le> variant_activity_limit (draft_style draft) \<and>
        (\<forall>x \<in> set (poi_ids day). \<exists>p \<in> set pois. poi_id_of p = x \<and> open_for_visit trip p (dd_date day))) \<and>
     (case total_budget trip of None \<Rightarrow> True
      | Some most \<Rightarrow> (\<Sum>p \<leftarrow> filter (\<lambda>p. poi_id_of p \<in> set (planned_ids draft)) pois. cents (known_cost_of p)) \<le> cents most)"
proof -
  obtain sol where sol: "sol \<in> set (or_solutions res)" and style: "draft_style draft = os_style sol"
    and days: "draft_days draft = map (\<lambda>d. \<lparr>dd_date = da_date d, poi_ids = da_poi_ids d\<rparr>) (os_days sol)"
    using draft by (auto simp: drafts_from_optimization_def)
  obtain k where k: "answered_by cp pb sol k" using solve_result [OF solved sol] by blast
  define v where "v = cp_value (cp (solver_parameters pb k) (assignment_model pb (os_style sol)))"
  let ?on = "\<lambda>d p. v (Assigned (poi_id_of p) d)"
  note pb = problem_facts [OF problem]
  note facts = assignment_facts [OF sound k, folded v_def, unfolded pb]
  note table = optimized_days [OF problem k ids refl, folded v_def]
  have dates: "map da_date (os_days sol) = trip_dates trip" using list_all2_conv_map(1) [OF table] .
  have day: "distinct (da_poi_ids a)" "set (da_poi_ids a) = poi_id_of ` {p \<in> set pois. ?on (da_date a) p}"
      "length (da_poi_ids a) = length (filter (?on (da_date a)) pois)" if "a \<in> set (os_days sol)" for a
    using list_all2_conv_map(2) [OF table] that by auto
  have in_dates: "da_date a \<in> set (trip_dates trip)" if "a \<in> set (os_days sol)" for a
    using that dates [symmetric] by simp
  have planned: "planned_ids draft = concat (map da_poi_ids (os_days sol))"
    by (simp add: planned_ids_def days o_def)
  have same: "p = q" if "p \<in> set pois" "q \<in> set pois" "poi_id_of p = poi_id_of q" for p q
    using ids that by (auto simp: distinct_map dest: inj_onD)
  have counted: "count (mset (planned_ids draft)) (poi_id_of p) = length (filter (\<lambda>d. ?on d p) (trip_dates trip))"
    if p: "p \<in> set pois" for p
  proof -
    have "count (mset (planned_ids draft)) (poi_id_of p) = length (filter (\<lambda>a. poi_id_of p \<in> set (da_poi_ids a)) (os_days sol))"
      unfolding planned using day(1) by (rule count_concat_map)
    also have "filter (\<lambda>a. poi_id_of p \<in> set (da_poi_ids a)) (os_days sol) = filter (\<lambda>a. ?on (da_date a) p) (os_days sol)"
      using day(2) p same by (intro filter_cong) auto
    finally show ?thesis by (simp add: dates [symmetric] filter_map o_def)
  qed
  have once: "length (filter (\<lambda>d. ?on d p) (trip_dates trip)) \<le> 1" if "p \<in> set pois" for p
    using facts(1) [of "optimization_poi_of trip p"] that by simp
  have known: "\<exists>p \<in> set pois. poi_id_of p = x" if "x \<in> set (planned_ids draft)" for x
    using that day(2) unfolding planned by fastforce
  have scheduled: "poi_id_of p \<in> set (planned_ids draft) \<longleftrightarrow> (\<exists>d \<in> set (trip_dates trip). ?on d p)" if "p \<in> set pois" for p
    using counted [OF that] count_mset_0_iff [of "planned_ids draft" "poi_id_of p"]
    by (metis (no_types, lifting) filter_empty_conv length_0_conv)
  show ?thesis
  proof (intro conjI ballI impI)
    show "map dd_date (draft_days draft) = trip_dates trip" by (simp add: days o_def dates [symmetric])
    show "planned_ids draft \<noteq> []"
      using facts(6) scheduled by fastforce
    show "count (mset (planned_ids draft)) (poi_id_of p) = 1" if "p \<in> set pois" "is_must_visit (poi_name_of p) trip" for p
      using counted [OF that(1)] facts(2) [of "optimization_poi_of trip p"] that by simp
    have "count (mset (planned_ids draft)) x \<le> 1" for x
      using known counted once by (cases "x \<in> set (planned_ids draft)") (fastforce, simp add: count_mset_0_iff [THEN iffD2])
    then show "distinct (planned_ids draft)"
      by (metis count_mset_0_iff distinct_count_atmost_1 le_neq_implies_less less_one)
    fix d assume "d \<in> set (draft_days draft)"
    then obtain a where a: "a \<in> set (os_days sol)" "dd_date d = da_date a" "poi_ids d = da_poi_ids a"
      by (auto simp: days)
    show "int (length (poi_ids d)) \<le> variant_activity_limit (draft_style draft)"
      using facts(4) [OF in_dates [OF a(1)]] day(3) [OF a(1)] by (simp add: a style filter_map o_def)
    fix x assume "x \<in> set (poi_ids d)"
    then obtain p where p: "p \<in> set pois" "poi_id_of p = x" "?on (da_date a) p" using day(2) [OF a(1)] a by auto
    have "da_date a \<in> set (o_available_days (optimization_poi_of trip p))"
      using facts(3) [of "optimization_poi_of trip p" "da_date a"] p in_dates [OF a(1)] by simp
    then show "\<exists>p \<in> set pois. poi_id_of p = x \<and> open_for_visit trip p (dd_date d)"
      using p by (auto simp: optimization_poi_of_def open_for_visit_def a)
  next
    have "(\<Sum>p \<leftarrow> pois. \<Sum>d \<leftarrow> trip_dates trip. if ?on d p then cents (known_cost_of p) else 0)
        = (\<Sum>p \<leftarrow> filter (\<lambda>p. \<exists>d \<in> set (trip_dates trip). ?on d p) pois. cents (known_cost_of p))"
      using once by (rule sum_chosen)
    also have "filter (\<lambda>p. \<exists>d \<in> set (trip_dates trip). ?on d p) pois = filter (\<lambda>p. poi_id_of p \<in> set (planned_ids draft)) pois"
      using scheduled by (intro filter_cong) auto
    finally show "case total_budget trip of None \<Rightarrow> True
      | Some most \<Rightarrow> (\<Sum>p \<leftarrow> filter (\<lambda>p. poi_id_of p \<in> set (planned_ids draft)) pois. cents (known_cost_of p)) \<le> cents most"
      using facts(5) by (auto simp: o_def cong: if_cong split: option.splits)
  qed
qed


text \<open>A solver that proposes one assignment and calls it optimal if it satisfies the model.\<close>

definition proposing :: "(cp_var \<Rightarrow> bool) \<Rightarrow> cp_parameters \<Rightarrow> cp_model \<Rightarrow> cp_answer" where
  "proposing v ps m = \<lparr>cp_status = (if list_all (satisfies v) (cp_constraints m) then Cp_optimal else Cp_infeasible),
     cp_value = v, cp_objective_value = of_int (linear_value v (cp_objective m)), cp_branches = 0\<rparr>"

lemma proposing_sound: "solver_sound (proposing v)"
  by (auto simp: solver_sound_def proposing_def list_all_iff)

definition visit_first :: "cp_var \<Rightarrow> bool" where
  "visit_first x \<longleftrightarrow> x = Assigned ''p1'' 739892"

definition one_problem :: "(string, optimization_problem) result" where
  "one_problem = build_optimization_problem (\<lambda>_ _. 7) sample_trip [sample_poi ''p1'' ''Lt'']
     one_route default_optimization_budget driving_settings"


definition one_pb :: optimization_problem where
  "one_pb = \<lparr>op_id = ''Hangzhou-'' @ isoformat 739891 @ ''-'' @ show_nat 1, op_dates = [739891, 739892, 739893],
     op_anchor_id = anchor_id, op_pois = [\<lparr>o_id = ''p1'', o_name = ''Lt'', o_categories = [''nature''],
        o_duration_minutes = 120, o_party_cost = Some 50, o_preference_value = 600, o_data_confidence = 1,
        o_must_visit = True, o_available_days = [739891, 739892, 739893]\<rparr>],
     op_route_matrix = [\<lparr>me_origin_id = anchor_id, me_destination_id = ''p1'', me_duration_minutes = 15,
        me_distance_meters = 1200, me_mode = Driving, me_provider = ''mock'', me_data_confidence = 1\<rparr>],
     op_total_budget = Some 500, op_max_daily_activity_minutes = max_daily_activity_minutes default_mobility,
     op_max_daily_walking_meters = max_daily_walking_meters default_mobility, op_max_walking_leg_meters = 1500,
     op_available_minutes = [(739891, 510), (739892, 660), (739893, 510)],
     op_weights = style_weights, op_budget = default_optimization_budget\<rparr>"

lemma sample_minutes: "minutes_available sample_trip 739891 = 510" "minutes_available sample_trip 739892 = 660"
    "minutes_available sample_trip 739893 = 510"
  by (simp_all add: minutes_available_def day_start_at_def day_end_at_def sample_trip_def at_time_def combine_def date_of_def
      max_dt_def min_dt_def dt_add_def instant_def minute_def day_us_def round_div_def)

lemma sample_trip_dates: "trip_dates sample_trip = [739891, 739892, 739893]"
  by (simp add: trip_dates_def day_count_def sample_trip_def upto.simps)

lemma one_optimization_poi: "optimization_poi_of sample_trip (sample_poi ''p1'' ''Lt'') = hd (op_pois one_pb)"
proof -
  have "is_must_visit ''Lt'' sample_trip" "preference_value (sample_poi ''p1'' ''Lt'') sample_trip = 600"
    "sorted_set [''nature''] = [''nature'']" by code_simp+
  then show ?thesis
    by (simp add: optimization_poi_of_def sample_trip_dates sample_minutes one_pb_def sample_poi_def sample_facts_def)
qed

lemma one_problem: "one_problem = Inr one_pb"
proof -
  have "collect_route_matrix_queries (\<lambda>_ _. 7) sample_trip [sample_poi ''p1'' ''Lt''] driving_settings
      = [leg_query driving_settings sample_coordinate None (sample_poi ''p1'' ''Lt'') Driving]"
    by (simp add: collect_route_matrix_queries_def matrix_queries_to_def active_modes_def driving_settings_def
        leg_too_far_def start_coordinate_def sample_trip_def)
  then have "one_problem = bind_res (Inr [matrix_entry_of (leg_query driving_settings sample_coordinate None (sample_poi ''p1'' ''Lt'') Driving)
      (snd (hd one_route))]) (\<lambda>entries. Inr (one_pb\<lparr>op_route_matrix := entries\<rparr>))"
    by (simp add: one_problem_def build_optimization_problem_def one_optimization_poi sample_trip_dates sample_minutes one_route_def
        one_pb_def driving_settings_def del: map_of_eq_Some_iff) (simp add: sample_trip_def)
  then show ?thesis
    by (simp add: matrix_entry_of_def or_anchor_def leg_query_def one_route_def sample_poi_def sample_facts_def one_pb_def)
qed

lemma one_from_anchor: "from_anchor one_pb (hd (op_pois one_pb)) = hd (op_route_matrix one_pb)"
  "pair_entry one_pb anchor_id ''p1'' = Some (hd (op_route_matrix one_pb))"
  by (simp_all add: from_anchor_def one_pb_def pair_entry_def raw_entry_def dict_of_def)

lemma one_pb_satisfied: "\<forall>c \<in> set (cp_constraints (assignment_model one_pb style)). satisfies visit_first c"
  using one_from_anchor(1) by (cases style)
    (simp_all add: assignment_model_def one_pb_def visit_constraints_def assign_one_def sum_over_pois_def day_constraints_def
      all_categories_def sorted_set_def budget_constraints_def category_constraint_def satisfies_def linear_value_def visit_first_def
      cents_def known_party_cost_def default_mobility_def)

lemma one_pb_status: "cp_status (proposing visit_first ps (assignment_model one_pb style)) = Cp_optimal"
  using one_pb_satisfied by (simp add: proposing_def list_all_iff)

lemma one_pb_variant:
  "\<exists>pr'. solve_variant (proposing visit_first) one_pb (k, style) pr = Inr pr' \<and> fst pr' \<noteq> []"
proof -
  have "assignment_days one_pb (proposing visit_first ps (assignment_model one_pb style))
      = Inr [\<lparr>da_date = 739891, da_poi_ids = []\<rparr>, \<lparr>da_date = 739892, da_poi_ids = [''p1'']\<rparr>, \<lparr>da_date = 739893, da_poi_ids = []\<rparr>]" for ps
    using one_from_anchor(2)
    by (simp add: assignment_days_def one_pb_def chosen_on_def proposing_def visit_first_def ordered_day.simps(2))
  moreover have "model_keys_present one_pb style"
    using one_from_anchor(2) by (cases style) (simp_all add: model_keys_present_def one_pb_def style_weights_def)
  ultimately show ?thesis
    by (cases pr) (simp add: solve_variant_def solution_of_def one_pb_status Let_def)
qed

lemma visit_first_drafts: "\<exists>res. solve (proposing visit_first) one_pb 1 = Inr res \<and> drafts_from_optimization res \<noteq> []"
proof -
  have "\<exists>pr. fold_res (solve_variant (proposing visit_first) one_pb) ((k, style) # ks) pr0 = Inr pr \<and> fst pr \<noteq> []" for k style ks pr0
  proof -
    obtain pr1 where pr1: "solve_variant (proposing visit_first) one_pb (k, style) pr0 = Inr pr1" "fst pr1 \<noteq> []"
      using one_pb_variant by blast
    have "\<exists>pr. fold_res (solve_variant (proposing visit_first) one_pb) ks pr1 = Inr pr \<and> fst pr \<noteq> []"
      by (rule fold_res_progress) (use one_pb_variant pr1 in auto)
    then show ?thesis using pr1 by simp
  qed
  moreover have "enumerate 0 (solver_styles one_pb) = (0, Style_relaxed) # [(1, Style_balanced), (2, Style_exploration)]"
    by (simp add: solver_styles_def one_pb_def default_optimization_budget_def)
  ultimately obtain pr where "fold_res (solve_variant (proposing visit_first) one_pb) (enumerate 0 (solver_styles one_pb)) ([], [], 0) = Inr pr"
      "fst pr \<noteq> []" by metis
  then show ?thesis by (cases pr) (simp add: solve_def drafts_from_optimization_def)
qed

theorem optimized_drafts_respect_trip_witness:
  "\<exists>res d. solve (proposing visit_first) one_pb 1 = Inr res \<and> d \<in> set (drafts_from_optimization res) \<and>
     count (mset (planned_ids d)) ''p1'' = 1"
proof -
  obtain res where res: "solve (proposing visit_first) one_pb 1 = Inr res" and "drafts_from_optimization res \<noteq> []"
    using visit_first_drafts by blast
  then obtain d where d: "d \<in> set (drafts_from_optimization res)" by (cases "drafts_from_optimization res") auto
  have "is_must_visit (poi_name_of (sample_poi ''p1'' ''Lt'')) sample_trip" by code_simp
  then show ?thesis
    using optimized_drafts_respect_trip [OF proposing_sound _ one_problem [unfolded one_problem_def] res d] res d
    by (auto simp: sample_poi_def sample_facts_def)
qed

end
