(* ===== verification/PlanningState.thy ===== *)
theory PlanningState
  imports PlanningSupport SoftRepair PlanOptimization CritiqueEvidence
begin

text \<open>
  The state of the planning graph (\<open>graph/state.py\<close>), the arguments of \<open>build_workflow\<close> in
  \<open>graph/workflow.py\<close> as a configuration and a record of services, the errors its nodes raise,
  and the helper functions of that module. \<open>TravelState\<close> is a record with one field per key,
  built in four layers; the key \<open>execution\<close>, which no planning node reads, is left out.
\<close>

section \<open>Configuration and services\<close>

record planning_config =
  pc_sha :: "string \<Rightarrow> string"
  pc_day_json :: "day_plan \<Rightarrow> string"
  pc_chars :: "evidence_item list \<Rightarrow> int"
  pc_metres :: "coordinate \<Rightarrow> coordinate \<Rightarrow> int"
  pc_policy :: planning_policy
  pc_defaults :: unknown_fact_policy
  pc_budget :: optimization_budget
  pc_critic :: critic_policy
  pc_evidence :: evidence_budget
  pc_skip_validator :: bool
  pc_force_heuristic :: bool
  pc_skip_soft_critic :: bool
  pc_full_replan :: bool
  pc_specialists :: "agent_budget option"

text \<open>
  \<open>pc_specialists\<close>: with an agent mode other than \<open>SINGLE_GRAPH\<close> the planner, the critic and the
  repair are called through hand-offs with this budget.
\<close>

datatype planning_error =
  Tools_unavailable string
| Planning_value_error string
| Planning_runtime_error string
| Planning_key_error string
| Planning_assertion
| Stop_iteration
| Planning_index_error
| Unknown_planning_poi string
| Unknown_route string
| Specialist_error string
| Recursion_limit

datatype critic_outcome =
  Criticised "soft_critique list" critic_summary
| Critic_exhausted
| Critic_gone string string int rat string

record critic_gateway =
  cg_provider :: string
  cg_model :: string
  cg_prompt_version :: string
  cg_critique :: "critic_request \<Rightarrow> int \<Rightarrow> bool \<times> critic_outcome"

datatype specialist_context =
  Planner_context trip_spec int int
| Critic_context critic_request "string list"
| Replanner_context trip_spec plan_candidate candidate_draft "planning_poi list" critic_report int "string list"

datatype specialist_output =
  Queries_output "poi_search_query list"
| Critic_output critic_outcome
| Repair_output "(no_plan, repair_plan) result"

text \<open>
  \<open>gw_search\<close> and \<open>gw_routes\<close> are the tool gateway's \<open>search_pois\<close> and \<open>get_routes\<close> (a dict in the
  order of its keys); a critic's answer says whether it takes longer than the deadline of a
  hand-off. The last two give the length of the JSON text of a context and of an output.
\<close>

record planning_services =
  gw_search :: "poi_search_query list \<Rightarrow> poi_facts list tool_result list"
  gw_routes :: "route_query list \<Rightarrow> (string \<times> route_result tool_result) list"
  gw_optimizer :: "optimization_problem \<Rightarrow> (solver_error, optimization_result) result"
  gw_elapsed_ms :: rat
  gw_critic :: "critic_gateway option"
  gw_context_chars :: "specialist_context \<Rightarrow> int"
  gw_output_chars :: "specialist_output \<Rightarrow> int"

section \<open>The state\<close>

record tool_summary =
  tsum_provider :: string
  tsum_operation :: string
  tsum_status :: tool_status
  tsum_cache_hit :: bool
  tsum_attempts :: int

datatype repair_outcome = Outcome_resolved | Outcome_improved | Outcome_no_progress

record repair_attempt =
  at_round :: int
  at_target :: string
  at_before_fingerprint :: string
  at_after_fingerprint :: string
  at_before_errors :: nat
  at_after_errors :: nat
  at_action_fingerprint :: string
  at_action_kinds :: "repair_action_kind list"
  at_outcome :: repair_outcome
  at_affected_days :: "py_date list"
  at_preserved_count :: nat
  at_reused :: nat
  at_loaded :: nat
  at_terminal :: "string option"

record soft_attempt =
  sa_round :: int
  sa_before :: rat
  sa_after :: "rat option"
  sa_hard_passed :: bool
  sa_accepted :: bool
  sa_reused :: nat
  sa_loaded :: nat
  sa_terminal :: string

text \<open>The messages to the user, one constructor per (Chinese) text.\<close>

datatype planning_message =
  Repairing int nat | Selected plan_style | Infeasible "string option" | Unvalidated_selected

record search_state =
  ts_thread_id :: string
  ts_trip :: trip_spec
  ts_queries :: "poi_search_query list"
  ts_facts :: "poi_facts list"
  ts_pois :: "planning_poi list"
  ts_issues :: "poi_resolution_issue list"
  ts_opt_pois :: "planning_poi list"
  ts_problem :: "optimization_problem option"
  ts_solution :: "optimization_result option"
  ts_cache_hits :: nat
  ts_provider_calls :: int
  ts_tools :: "tool_summary list"

record repair_state = search_state +
  ts_drafts :: "candidate_draft list"
  ts_route_queries :: "route_query list"
  ts_delta_queries :: "route_query list"
  ts_routes :: "(string \<times> route_result) list"
  ts_reused_keys :: "string list"
  ts_candidates :: "plan_candidate list"
  ts_selected :: "plan_candidate option"
  ts_iterations :: int
  ts_pending_round :: "int option"
  ts_max_rounds :: int
  ts_target :: "string option"
  ts_report :: "critic_report option"
  ts_repair_plan :: "repair_plan option"
  ts_history :: "repair_attempt list"
  ts_preserved :: "(string \<times> string) list"
  ts_terminal :: "string option"
  ts_loaded :: nat
  ts_reused :: nat

record soft_state = repair_state +
  ts_digests :: "evidence_digest list"
  ts_critiques :: "soft_critique list"
  ts_summary :: "critic_summary option"
  ts_critic_status :: critic_status
  ts_attempts :: int
  ts_max_attempts :: int
  ts_grounding_errors :: "string list"
  ts_scores :: "(string \<times> rat) list"

record travel_state = soft_state +
  ts_base_candidates :: "plan_candidate list"
  ts_base_drafts :: "candidate_draft list"
  ts_base_critiques :: "soft_critique list"
  ts_base_digests :: "evidence_digest list"
  ts_base_scores :: "(string \<times> rat) list"
  ts_base_summary :: "critic_summary option"
  ts_soft_plan :: "soft_repair_plan option"
  ts_soft_history :: "soft_attempt list"
  ts_soft_iterations :: int
  ts_max_soft :: int
  ts_soft_pending :: "int option"
  ts_soft_reason :: "string option"
  ts_explanation :: "grounded_explanation option"
  ts_status :: string
  ts_message :: "planning_message option"

record planning_request =
  rq_trip :: trip_spec
  rq_max_rounds :: int

definition request_ok :: "planning_request \<Rightarrow> bool" where
  "request_ok r \<longleftrightarrow> 0 \<le> rq_max_rounds r \<and> rq_max_rounds r \<le> 5"

definition initial_planning_state :: "planning_request \<Rightarrow> string \<Rightarrow> travel_state" where
  "initial_planning_state r thread =
     \<lparr>ts_thread_id = thread, ts_trip = rq_trip r, ts_queries = [], ts_facts = [], ts_pois = [], ts_issues = [],
      ts_opt_pois = [], ts_problem = None, ts_solution = None, ts_cache_hits = 0, ts_provider_calls = 0, ts_tools = [],
      ts_drafts = [], ts_route_queries = [], ts_delta_queries = [], ts_routes = [], ts_reused_keys = [],
      ts_candidates = [], ts_selected = None, ts_iterations = 0, ts_pending_round = None,
      ts_max_rounds = rq_max_rounds r, ts_target = None, ts_report = None, ts_repair_plan = None, ts_history = [],
      ts_preserved = [], ts_terminal = None, ts_loaded = 0, ts_reused = 0,
      ts_digests = [], ts_critiques = [], ts_summary = None, ts_critic_status = Not_run, ts_attempts = 0,
      ts_max_attempts = 2, ts_grounding_errors = [], ts_scores = [],
      ts_base_candidates = [], ts_base_drafts = [], ts_base_critiques = [], ts_base_digests = [], ts_base_scores = [],
      ts_base_summary = None, ts_soft_plan = None, ts_soft_history = [], ts_soft_iterations = 0, ts_max_soft = 1,
      ts_soft_pending = None, ts_soft_reason = None, ts_explanation = None, ts_status = ''started'', ts_message = None\<rparr>"

type_synonym node_result = "(planning_error, travel_state) result"

section \<open>Helpers\<close>

definition plan_day_fingerprint :: "planning_config \<Rightarrow> day_plan \<Rightarrow> string" where
  "plan_day_fingerprint cf d = take 16 (pc_sha cf (pc_day_json cf d))"

definition tool_summary_of :: "'a tool_result \<Rightarrow> string \<Rightarrow> tool_summary" where
  "tool_summary_of r operation =
     \<lparr>tsum_provider = tr_provider r, tsum_operation = operation, tsum_status = tr_status r,
      tsum_cache_hit = tr_cache_hit r, tsum_attempts = tr_attempt_count r\<rparr>"

definition route_operation :: "route_result tool_result \<Rightarrow> string" where
  "route_operation r = (case tr_data r of None \<Rightarrow> ''route.get'' | Some x \<Rightarrow> ''route.get_'' @ route_mode_value (rr_mode x))"

definition unavailable :: "'a tool_result \<Rightarrow> string \<Rightarrow> planning_error" where
  "unavailable r thread =
     (if tr_error r = None then Planning_value_error ''ToolUnavailableError requires a failed ToolResult''
      else Tools_unavailable thread)"

definition deliverable :: "plan_candidate \<Rightarrow> bool" where
  "deliverable c \<longleftrightarrow> (case validation c of None \<Rightarrow> False | Some v \<Rightarrow> status v \<in> {Valid, Valid_with_warnings})"

definition deliverable_candidates :: "travel_state \<Rightarrow> plan_candidate list" where
  "deliverable_candidates st = filter deliverable (ts_candidates st)"

definition best_key :: "plan_candidate \<Rightarrow> nat \<times> (nat \<times> rat) \<times> string" where
  "best_key c = ((case validation c of Some v \<Rightarrow> if status v = Valid then 0 else 1 | None \<Rightarrow> 1),
     negated_score (score c), cand_id c)"

text \<open>\<open>min()\<close> of no candidates raises a \<open>ValueError\<close>.\<close>

definition min_candidate ::
  "(plan_candidate \<Rightarrow> 'k::linorder) \<Rightarrow> plan_candidate list \<Rightarrow> (planning_error, plan_candidate) result" where
  "min_candidate key cs =
     (case cs of [] \<Rightarrow> Inl (Planning_value_error ''min() arg is an empty sequence'') | c # rest \<Rightarrow> Inr (min_by key c rest))"

definition select_best_candidate :: "plan_candidate list \<Rightarrow> (planning_error, plan_candidate) result" where
  "select_best_candidate cs = min_candidate best_key cs"

definition planning_round :: "travel_state \<Rightarrow> int" where
  "planning_round st = (case ts_pending_round st of Some n \<Rightarrow> n | None \<Rightarrow> ts_iterations st)"

definition planning_routes :: "planning_config \<Rightarrow> route_settings" where
  "planning_routes cf =
     \<lparr>rs_strategy = route_strategy (pc_policy cf), rs_mode = Driving,
      rs_modes = Some (policy_route_modes (pc_policy cf)), rs_max_walking_leg = max_walking_leg_meters (pc_policy cf)\<rparr>"

definition value_or :: "(string, 'a) result \<Rightarrow> (planning_error, 'a) result" where
  "value_or r = (case r of Inl m \<Rightarrow> Inl (Planning_value_error m) | Inr x \<Rightarrow> Inr x)"

definition missing_poi_or :: "(missing_planning_poi, 'a) result \<Rightarrow> (planning_error, 'a) result" where
  "missing_poi_or r = (case r of Inl (Missing_planning_poi p) \<Rightarrow> Inl (Unknown_planning_poi p) | Inr x \<Rightarrow> Inr x)"

definition planner_or :: "(planner_error, 'a) result \<Rightarrow> (planning_error, 'a) result" where
  "planner_or r =
     (case r of
        Inl (Planner_unknown_poi p) \<Rightarrow> Inl (Unknown_planning_poi p)
      | Inl (Missing_route_result k) \<Rightarrow> Inl (Unknown_route k)
      | Inl (Opening_key_error d) \<Rightarrow> Inl (Planning_key_error (isoformat d))
      | Inl No_route_assertion \<Rightarrow> Inl Planning_assertion
      | Inl (Invalid_plan_item m) \<Rightarrow> Inl (Planning_value_error m)
      | Inr x \<Rightarrow> Inr x)"

text \<open>\<open>next(x for x in xs if ...)\<close>; inside a coroutine \<open>StopIteration\<close> becomes a \<open>RuntimeError\<close>.\<close>

definition next_in :: "('a \<Rightarrow> bool) \<Rightarrow> 'a list \<Rightarrow> (planning_error, 'a) result" where
  "next_in p xs = (case List.find p xs of None \<Rightarrow> Inl Stop_iteration | Some x \<Rightarrow> Inr x)"

definition required :: "'a option \<Rightarrow> string \<Rightarrow> (planning_error, 'a) result" where
  "required x msg = (case x of None \<Rightarrow> Inl (Planning_runtime_error msg) | Some y \<Rightarrow> Inr y)"

definition in_coroutine :: "(planning_error, 'a) result \<Rightarrow> (planning_error, 'a) result" where
  "in_coroutine r = (case r of Inl Stop_iteration \<Rightarrow> Inl (Planning_runtime_error ''coroutine raised StopIteration'') | _ \<Rightarrow> r)"

text \<open>A call of a specialist outside of a run, or the call itself without specialists.\<close>

definition hand_off ::
  "planning_config \<Rightarrow> planning_services \<Rightarrow> agent_role \<Rightarrow> handoff_reason \<Rightarrow> specialist_context
     \<Rightarrow> (planning_error, 'a) operation \<Rightarrow> ('a \<Rightarrow> specialist_output) \<Rightarrow> (planning_error, 'a) result" where
  "hand_off cf gw role reason context operation output =
     (case pc_specialists cf of
        None \<Rightarrow> (case operation of Returns x \<Rightarrow> Inr x | Raises e \<Rightarrow> Inl e | Outlives_deadline \<Rightarrow> Inl (Specialist_error ''specialist_timeout''))
      | Some b \<Rightarrow> (case snd (invoke 8 b None role reason (gw_context_chars gw context) operation (gw_output_chars gw \<circ> output)) of
            Inr x \<Rightarrow> Inr x
          | Inl (Context_rejected code) \<Rightarrow> Inl (Specialist_error code)
          | Inl Specialist_timeout \<Rightarrow> Inl (Specialist_error ''specialist_timeout'')
          | Inl (Operation_error e) \<Rightarrow> Inl e))"

lemma result_or_Inr [simp]:
  "value_or r = Inr x \<longleftrightarrow> r = Inr x"
  "missing_poi_or r' = Inr y \<longleftrightarrow> r' = Inr y"
  "planner_or r'' = Inr z \<longleftrightarrow> r'' = Inr z"
  "required opt msg = Inr a \<longleftrightarrow> opt = Some a"
  "next_in p xs = Inr b \<longleftrightarrow> List.find p xs = Some b"
  "in_coroutine q = Inr c \<longleftrightarrow> q = Inr c"
  by (auto simp: value_or_def missing_poi_or_def planner_or_def required_def next_in_def in_coroutine_def
      split: sum.splits option.splits missing_planning_poi.splits planner_error.splits planning_error.splits)

end
