(* ===== verification/PlanningNodes.thy ===== *)
theory PlanningNodes
  imports PlanningState
begin

text \<open>
  The nodes of the planning graph in \<open>graph/workflow.py\<close> up to the hard repair: searching and
  resolving the places, the route matrix, the optimisation with its heuristic fallback,
  materialisation, validation with the bookkeeping of a repair round, and the local repair.
  A node maps the state to the updated state or the exception it raises.
\<close>

section \<open>Search and facts\<close>

text \<open>A planner context admits limits between 1 and 100.\<close>

definition planner_context :: "planning_config \<Rightarrow> travel_state \<Rightarrow> (planning_error, specialist_context) result" where
  "planner_context cf st =
     (let limit = poi_query_limit (pc_policy cf); most = poi_max_queries (pc_policy cf)
      in if 1 \<le> limit \<and> limit \<le> 100 \<and> 1 \<le> most \<and> most \<le> 100 then Inr (Planner_context (ts_trip st) limit most)
         else Inl (Planning_value_error ''validation error: PlannerContext''))"

definition node_search_plan :: "planning_config \<Rightarrow> planning_services \<Rightarrow> travel_state \<Rightarrow> node_result" where
  "node_search_plan cf gw st =
     bind_res (planner_context cf st) (\<lambda>context.
     bind_res (hand_off cf gw Role_planner Reason_plan context
         (case build_search_plan (ts_trip st) (poi_query_limit (pc_policy cf)) (poi_max_queries (pc_policy cf)) of
            Inl m \<Rightarrow> Raises (Planning_value_error m) | Inr qs \<Rightarrow> Returns qs) Queries_output) (\<lambda>queries.
       Inr (st\<lparr>ts_queries := queries, ts_max_soft := max_soft_replan_rounds (pc_critic cf),
               ts_max_attempts := grounding_max_attempts (pc_critic cf), ts_status := ''search_planned''\<rparr>)))"

fun gather_facts :: "int \<Rightarrow> poi_facts list \<Rightarrow> poi_facts list \<Rightarrow> poi_facts list" where
  "gather_facts limit acc [] = acc"
| "gather_facts limit acc (f # fs) =
     (let acc' = (if f_id f \<in> set (map f_id acc) then acc else acc @ [f])
      in if int (length acc') = limit then acc' else gather_facts limit acc' fs)"

fun gather_results ::
  "int \<Rightarrow> poi_facts list \<Rightarrow> poi_facts list tool_result list \<Rightarrow> (planning_error, poi_facts list) result" where
  "gather_results limit acc [] = Inr acc"
| "gather_results limit acc (r # rs) =
     (case tr_data r of
        None \<Rightarrow> Inl Planning_assertion
      | Some fs \<Rightarrow> (let acc' = gather_facts limit acc fs
          in if int (length acc') = limit then Inr acc' else gather_results limit acc' rs))"

definition node_load_pois :: "planning_config \<Rightarrow> planning_services \<Rightarrow> travel_state \<Rightarrow> node_result" where
  "node_load_pois cf gw st =
     (let results = gw_search gw (ts_queries st)
      in case List.find (\<lambda>r. tr_status r = Tool_failed) results of
           Some r \<Rightarrow> Inl (unavailable r (ts_thread_id st))
         | None \<Rightarrow>
             if length results \<noteq> length (ts_queries st)
             then Inl (Planning_value_error ''zip() arguments have different lengths'')
             else (let ordered = sort_key (\<lambda>(q, r). - q_priority q) (zip (ts_queries st) results)
               in bind_res (gather_results (poi_candidate_limit (pc_policy cf)) [] (map snd ordered)) (\<lambda>found.
                    Inr (st\<lparr>ts_facts := found,
                            ts_tools := ts_tools st @ map (\<lambda>r. tool_summary_of r ''poi.search'') results,
                            ts_status := ''poi_facts_loaded''\<rparr>))))"

definition node_resolve_facts :: "planning_config \<Rightarrow> travel_state \<Rightarrow> node_result" where
  "node_resolve_facts cf st =
     (let resolved = map (\<lambda>f. (f, resolve_poi (pc_defaults cf) f (ts_trip st))) (ts_facts st)
      in Inr (st\<lparr>ts_pois := List.map_filter (\<lambda>(f, r). resolved_poi r) resolved,
                 ts_issues := map (\<lambda>(f, r). \<lparr>issue_poi_id = f_id f, issue_poi_name = f_name f,
                     issue_missing_fields = missing_fields r, issue_required = is_must_visit (f_name f) (ts_trip st)\<rparr>)
                   (filter (\<lambda>(f, r). resolved_poi r = None) resolved),
                 ts_status := ''poi_context_loaded''\<rparr>))"

section \<open>Routes and optimisation\<close>

text \<open>The routes and summaries of an answer of the gateway, or the first failure.\<close>

definition routes_of ::
  "string \<Rightarrow> (string \<times> route_result tool_result) list \<Rightarrow> (planning_error, (string \<times> route_result) list \<times> tool_summary list) result" where
  "routes_of thread results =
     (case List.find (\<lambda>(k, r). tr_status r = Tool_failed) results of
        Some (k, r) \<Rightarrow> Inl (unavailable r thread)
      | None \<Rightarrow> if list_ex (\<lambda>(k, r). tr_data r = None) results then Inl Planning_assertion
          else Inr (map (\<lambda>(k, r). (k, the (tr_data r))) results,
                    map (\<lambda>(k, r). tool_summary_of r (route_operation r)) results))"

definition node_route_matrix :: "planning_config \<Rightarrow> planning_services \<Rightarrow> travel_state \<Rightarrow> node_result" where
  "node_route_matrix cf gw st =
     (let pois = select_optimization_pois (ts_trip st) (ts_pois st) (pc_budget cf);
          queries = collect_route_matrix_queries (pc_metres cf) (ts_trip st) pois (planning_routes cf);
          results = gw_routes gw queries
      in bind_res (routes_of (ts_thread_id st) results) (\<lambda>(routes, summaries).
           let hits = length (filter (\<lambda>(k, r). tr_cache_hit r) results)
           in Inr (st\<lparr>ts_opt_pois := pois, ts_route_queries := queries, ts_delta_queries := [], ts_routes := routes,
                ts_reused_keys := [], ts_loaded := length routes, ts_reused := 0, ts_cache_hits := hits,
                ts_provider_calls := int (length results) - int hits, ts_tools := ts_tools st @ summaries,
                ts_status := ''route_matrix_loaded''\<rparr>)))"

definition node_problem :: "planning_config \<Rightarrow> travel_state \<Rightarrow> node_result" where
  "node_problem cf st =
     (case build_optimization_problem (pc_metres cf) (ts_trip st) (ts_opt_pois st) (ts_routes st) (pc_budget cf) (planning_routes cf) of
        Inl k \<Rightarrow> Inl (Planning_key_error k)
      | Inr pb \<Rightarrow> Inr (st\<lparr>ts_problem := Some pb, ts_status := ''optimization_problem_built''\<rparr>))"

definition optimize :: "planning_config \<Rightarrow> planning_services \<Rightarrow> optimization_problem \<Rightarrow> (solver_error, optimization_result) result" where
  "optimize cf gw pb = (if pc_force_heuristic cf then Inl Solver_timeout else gw_optimizer gw pb)"

text \<open>The solutions and the drafts made from them, or the heuristic drafts in their place.\<close>

definition variants_for ::
  "planning_config \<Rightarrow> planning_services \<Rightarrow> travel_state \<Rightarrow> optimization_problem
     \<Rightarrow> (planning_error, optimization_result \<times> candidate_draft list) result" where
  "variants_for cf gw st pb =
     (let fallback = prepare_candidate_drafts (pc_metres cf) (ts_trip st) (ts_opt_pois st) 0;
          degraded = (\<lambda>reason. Inr (degraded_result fallback reason (gw_elapsed_ms gw), fallback))
      in case optimize cf gw pb of
           Inl Solver_timeout \<Rightarrow> degraded ''optimizer_timeout''
         | Inl Solver_key_error \<Rightarrow> Inl (Planning_key_error ''optimizer'')
         | Inr res \<Rightarrow> if or_solutions res = [] then degraded ''optimizer_infeasible''
                      else Inr (res, drafts_from_optimization res))"

definition node_solve :: "planning_config \<Rightarrow> planning_services \<Rightarrow> travel_state \<Rightarrow> node_result" where
  "node_solve cf gw st =
     bind_res (required (ts_problem st) ''optimization requires a problem'') (\<lambda>pb.
     bind_res (variants_for cf gw st pb) (\<lambda>v.
       Inr (st\<lparr>ts_solution := Some (fst v), ts_drafts := snd v, ts_status := ''optimization_solved''\<rparr>)))"

definition node_materialize :: "planning_config \<Rightarrow> travel_state \<Rightarrow> node_result" where
  "node_materialize cf st =
     bind_res (planner_or (materialize_candidates (pc_metres cf) (ts_trip st) (ts_drafts st) (ts_pois st) (ts_routes st) (planning_routes cf)))
       (\<lambda>cs. Inr (st\<lparr>ts_candidates := cs, ts_status := ''candidates_materialized''\<rparr>))"

section \<open>Validation\<close>

definition with_validation :: "trip_spec \<Rightarrow> planning_poi list \<Rightarrow> plan_candidate \<Rightarrow> plan_candidate" where
  "with_validation trip pois c = c\<lparr>validation := Some (validate_candidate trip c (map Planning_poi pois))\<rparr>"

text \<open>The days that a repair promised to keep still have the fingerprints recorded for them.\<close>

definition check_preserved_days ::
  "planning_config \<Rightarrow> string \<Rightarrow> (string \<times> string) list \<Rightarrow> plan_candidate \<Rightarrow> (planning_error, unit) result" where
  "check_preserved_days cf msg preserved c =
     (let by_date = dict_of (map (\<lambda>d. (isoformat (day_date d), d)) (days c))
      in fold_res (\<lambda>(text, expected) u. case map_of by_date text of
             None \<Rightarrow> Inl (Planning_runtime_error (msg @ text))
           | Some d \<Rightarrow> if plan_day_fingerprint cf d \<noteq> expected then Inl (Planning_runtime_error (msg @ text)) else Inr ())
           preserved ())"

definition check_soft_round :: "planning_config \<Rightarrow> travel_state \<Rightarrow> plan_candidate list \<Rightarrow> (planning_error, unit) result" where
  "check_soft_round cf st validated =
     (if ts_soft_pending st = None \<or> filter deliverable validated = [] then Inr ()
      else case validated of
        [c] \<Rightarrow> check_preserved_days cf ''soft repair changed preserved day: '' (ts_preserved st) c
      | _ \<Rightarrow> Inl (Planning_runtime_error ''soft repair validation requires one candidate''))"

definition repeated_fingerprint :: "travel_state \<Rightarrow> critic_report \<Rightarrow> string \<Rightarrow> bool" where
  "repeated_fingerprint st report fp \<longleftrightarrow> fp = r_violation_fingerprint report \<or>
     list_ex (\<lambda>a. fp \<in> {at_before_fingerprint a, at_after_fingerprint a}) (ts_history st)"

definition repair_improved :: "critic_report \<Rightarrow> repair_plan \<Rightarrow> violation list \<Rightarrow> bool" where
  "repair_improved report plan errors \<longleftrightarrow>
     length errors < r_error_count report \<or>
     (set (rp_sources plan) - set (map v_type errors) \<noteq> {} \<and> length errors \<le> r_error_count report)"

definition judge_repair ::
  "planning_config \<Rightarrow> travel_state \<Rightarrow> critic_report \<Rightarrow> repair_plan \<Rightarrow> plan_candidate \<Rightarrow> repair_outcome \<times> string option" where
  "judge_repair cf st report plan c =
     (if deliverable c then (Outcome_resolved, None)
      else if repeated_fingerprint st report (violation_fingerprint (pc_sha cf) c)
        then (Outcome_no_progress, Some ''repeated_violation_fingerprint'')
      else if repair_improved report plan (error_violations c) then (Outcome_improved, None)
      else (Outcome_no_progress, Some ''repair_no_progress''))"

definition repair_attempt_of ::
  "planning_config \<Rightarrow> travel_state \<Rightarrow> int \<Rightarrow> critic_report \<Rightarrow> repair_plan \<Rightarrow> plan_candidate \<Rightarrow> repair_attempt" where
  "repair_attempt_of cf st n report plan c =
     \<lparr>at_round = n, at_target = rp_target plan, at_before_fingerprint = r_violation_fingerprint report,
      at_after_fingerprint = violation_fingerprint (pc_sha cf) c, at_before_errors = r_error_count report,
      at_after_errors = length (error_violations c), at_action_fingerprint = rp_fingerprint plan,
      at_action_kinds = map ra_kind (rp_actions plan), at_outcome = fst (judge_repair cf st report plan c),
      at_affected_days = rp_affected_days plan, at_preserved_count = length (rp_preserved_days plan),
      at_reused = ts_reused st, at_loaded = ts_loaded st, at_terminal = snd (judge_repair cf st report plan c)\<rparr>"

text \<open>The record of a finished repair round, if one was pending.\<close>

definition finish_round :: "planning_config \<Rightarrow> plan_candidate list \<Rightarrow> travel_state \<Rightarrow> node_result" where
  "finish_round cf validated st =
     (case ts_pending_round st of
        None \<Rightarrow> Inr st
      | Some n \<Rightarrow> (case (ts_report st, ts_repair_plan st, validated) of
          (Some report, Some plan, [c]) \<Rightarrow>
            bind_res (check_preserved_days cf ''local repair changed preserved day: '' (ts_preserved st) c) (\<lambda>u.
              Inr (st\<lparr>ts_iterations := n, ts_pending_round := None,
                      ts_history := ts_history st @ [repair_attempt_of cf st n report plan c],
                      ts_terminal := snd (judge_repair cf st report plan c)\<rparr>))
        | _ \<Rightarrow> Inl (Planning_runtime_error ''repair validation requires one candidate and repair context'')))"

definition node_validate :: "planning_config \<Rightarrow> travel_state \<Rightarrow> node_result" where
  "node_validate cf st =
     (let validated = map (with_validation (ts_trip st) (ts_pois st)) (ts_candidates st)
      in bind_res (check_soft_round cf st validated) (\<lambda>u.
           finish_round cf validated (st\<lparr>ts_candidates := validated, ts_status := ''validated''\<rparr>)))"

section \<open>Local repair\<close>

definition node_repair_target :: "planning_config \<Rightarrow> travel_state \<Rightarrow> node_result" where
  "node_repair_target cf st =
     bind_res (value_or (select_repair_target (pc_sha cf) (ts_candidates st) (ts_trip st) (ts_pois st))) (\<lambda>c.
       Inr (st\<lparr>ts_target := Some (cand_id c), ts_report := None, ts_repair_plan := None,
               ts_status := ''repair_target_selected''\<rparr>))"

definition target_candidate :: "travel_state \<Rightarrow> (planning_error, plan_candidate) result" where
  "target_candidate st = next_in (\<lambda>c. Some (cand_id c) = ts_target st) (ts_candidates st)"

definition target_draft :: "travel_state \<Rightarrow> (planning_error, candidate_draft) result" where
  "target_draft st = next_in (\<lambda>d. Some (draft_id d) = ts_target st) (ts_drafts st)"

definition node_analyze :: "planning_config \<Rightarrow> travel_state \<Rightarrow> node_result" where
  "node_analyze cf st =
     bind_res (target_candidate st) (\<lambda>c.
       let report = analyze_candidate (pc_sha cf) c (ts_trip st) (ts_pois st)
       in Inr (st\<lparr>ts_report := Some report, ts_terminal := r_terminal_reason report, ts_status := ''violations_analyzed''\<rparr>))"

text \<open>The answer of \<open>build_repair_plan\<close>; its assertion is an exception of the operation.\<close>

definition repair_operation ::
  "(no_plan, repair_plan) result \<Rightarrow> (planning_error, (no_plan, repair_plan) result) operation" where
  "repair_operation r = (if r = Inl no_plan.Assertion_failed then Raises Planning_assertion else Returns r)"

definition tried_actions :: "travel_state \<Rightarrow> string list" where
  "tried_actions st = map at_action_fingerprint (ts_history st)"

definition planned_repair :: "string list \<Rightarrow> (no_plan, repair_plan) result \<Rightarrow> repair_plan option \<times> string option" where
  "planned_repair tried r =
     (case r of
        Inl (Terminal reason) \<Rightarrow> (None, reason)
      | Inl no_plan.Assertion_failed \<Rightarrow> (None, None)
      | Inr plan \<Rightarrow> if rp_fingerprint plan \<in> set tried then (None, Some ''repeated_repair_action'') else (Some plan, None))"

definition node_repair_plan :: "planning_config \<Rightarrow> planning_services \<Rightarrow> travel_state \<Rightarrow> node_result" where
  "node_repair_plan cf gw st =
     bind_res (in_coroutine (target_candidate st)) (\<lambda>c.
     bind_res (in_coroutine (target_draft st)) (\<lambda>d.
     bind_res (required (ts_report st) ''repair plan requires critic report'') (\<lambda>report.
       let n = ts_iterations st + 1; tried = tried_actions st;
           r = build_repair_plan (pc_sha cf) (ts_trip st) c d (ts_pois st) report n
       in bind_res (hand_off cf gw Role_replanner Reason_hard_repair
                (Replanner_context (ts_trip st) c d (ts_pois st) report n tried) (repair_operation r) Repair_output) (\<lambda>r.
            let plan = fst (planned_repair tried r)
            in Inr (st\<lparr>ts_repair_plan := plan, ts_terminal := snd (planned_repair tried r),
                       ts_status := (if plan = None then ''repair_unavailable'' else ''repair_plan_ready'')\<rparr>)))))"

definition repair_or :: "(repair_error, 'a) result \<Rightarrow> (planning_error, 'a) result" where
  "repair_or r =
     (case r of
        Inl (Day_key_error d) \<Rightarrow> Inl (Planning_key_error (isoformat d))
      | Inl Draft_unchanged \<Rightarrow> Inl (Planning_value_error ''repair plan did not change candidate draft'')
      | Inl (Unknown_poi (Missing_planning_poi p)) \<Rightarrow> Inl (Unknown_planning_poi p)
      | Inr x \<Rightarrow> Inr x)"

lemma repair_or_Inr [simp]: "repair_or r = Inr x \<longleftrightarrow> r = Inr x"
  by (auto simp: repair_or_def split: sum.splits repair_error.splits missing_planning_poi.splits)

definition preserved_hashes :: "planning_config \<Rightarrow> py_date list \<Rightarrow> plan_candidate \<Rightarrow> (string \<times> string) list" where
  "preserved_hashes cf dates c =
     dict_of (map (\<lambda>d. (isoformat (day_date d), plan_day_fingerprint cf d)) (filter (\<lambda>d. day_date d \<in> set dates) (days c)))"

definition node_apply_repair :: "planning_config \<Rightarrow> travel_state \<Rightarrow> node_result" where
  "node_apply_repair cf st =
     bind_res (target_candidate st) (\<lambda>c.
     bind_res (target_draft st) (\<lambda>d.
     bind_res (required (ts_repair_plan st) ''local repair requires repair plan'') (\<lambda>plan.
     bind_res (repair_or (apply_repair_plan (pc_metres cf) (ts_trip st) d (ts_pois st) plan (planning_routes cf))) (\<lambda>(repaired, applied).
       Inr (st\<lparr>ts_pending_round := Some (rp_round applied), ts_drafts := [repaired], ts_route_queries := [],
               ts_delta_queries := [], ts_reused_keys := [], ts_candidates := [], ts_selected := None,
               ts_repair_plan := Some applied, ts_preserved := preserved_hashes cf (rp_preserved_days applied) c,
               ts_loaded := 0, ts_reused := 0, ts_status := ''local_repair_applied'',
               ts_message := Some (Repairing (rp_round applied) (length (rp_affected_days applied)))\<rparr>)))))"

text \<open>The delta of the first draft; also the node \<open>collect_soft_delta_routes\<close> up to its status.\<close>

definition collect_delta :: "planning_config \<Rightarrow> string \<Rightarrow> travel_state \<Rightarrow> node_result" where
  "collect_delta cf label st =
     (case ts_drafts st of
        [] \<Rightarrow> Inl Planning_index_error
      | draft # _ \<Rightarrow>
          (let reusable = (if pc_full_replan cf then [] else ts_routes st)
           in bind_res (missing_poi_or (collect_route_delta (pc_metres cf) (ts_trip st) draft (ts_pois st) reusable (planning_routes cf))) (\<lambda>delta.
                Inr (st\<lparr>ts_route_queries := required_queries delta, ts_delta_queries := missing_queries delta,
                        ts_reused_keys := reused_route_keys delta, ts_reused := length (reused_route_keys delta),
                        ts_loaded := 0, ts_status := label\<rparr>))))"

definition load_delta :: "planning_services \<Rightarrow> string \<Rightarrow> travel_state \<Rightarrow> node_result" where
  "load_delta gw label st =
     bind_res (routes_of (ts_thread_id st) (gw_routes gw (ts_delta_queries st))) (\<lambda>(loaded, summaries).
       Inr (st\<lparr>ts_routes := fold (\<lambda>(k, x). AList.update k x) loaded (ts_routes st), ts_loaded := length loaded,
               ts_tools := ts_tools st @ summaries, ts_status := label\<rparr>))"

definition node_collect_delta :: "planning_config \<Rightarrow> travel_state \<Rightarrow> node_result" where
  "node_collect_delta cf st = collect_delta cf ''delta_routes_collected'' st"

definition node_load_delta :: "planning_services \<Rightarrow> travel_state \<Rightarrow> node_result" where
  "node_load_delta gw st = load_delta gw ''delta_routes_loaded'' st"

end
