(* ===== verification/PlanningSoft.thy ===== *)
theory PlanningSoft
  imports PlanningNodes
begin

text \<open>
  The nodes of the planning graph in \<open>graph/workflow.py\<close> from the soft critique to the end: the
  critic and its grounding check, the quality gate, one soft repair that is compared with the
  saved baseline and otherwise undone, the selection and its explanation.
\<close>

section \<open>The critic\<close>

definition node_critic_context :: "planning_config \<Rightarrow> travel_state \<Rightarrow> node_result" where
  "node_critic_context cf st =
     (let digests = build_evidence_digests (pc_sha cf) (pc_chars cf) (ts_trip st) (deliverable_candidates st) (ts_pois st) (pc_evidence cf)
      in if digests = [] then Inl (Planning_runtime_error ''soft critic requires at least one evidence digest'')
         else Inr (st\<lparr>ts_digests := digests, ts_critiques := [], ts_attempts := 0, ts_grounding_errors := [],
                      ts_scores := [], ts_critic_status := Critic_pending, ts_status := ''critic_context_prepared''\<rparr>))"

definition failed_summary ::
  "string \<Rightarrow> string \<Rightarrow> string \<Rightarrow> critic_status \<Rightarrow> int \<Rightarrow> int \<Rightarrow> rat \<Rightarrow> int \<Rightarrow> string option \<Rightarrow> critic_summary" where
  "failed_summary provider model prompt st attempts grounding elapsed chars category =
     \<lparr>cs_provider = provider, cs_model = model, cs_prompt_version = prompt, cs_status = st, cs_attempts = attempts,
      cs_grounding_attempts = grounding, cs_elapsed_ms = elapsed, cs_input_tokens = None, cs_output_tokens = None,
      cs_input_chars = chars, cs_error_category = category\<rparr>"

definition critic_failed :: "critic_summary \<Rightarrow> int \<Rightarrow> string \<Rightarrow> travel_state \<Rightarrow> travel_state" where
  "critic_failed summary attempt label st =
     st\<lparr>ts_critic_status := Critic_unavailable, ts_summary := Some summary, ts_critiques := [], ts_attempts := attempt,
        ts_grounding_errors := [], ts_status := label\<rparr>"

definition critic_answered :: "critic_gateway \<Rightarrow> critic_request \<Rightarrow> int \<Rightarrow> critic_outcome \<Rightarrow> travel_state \<Rightarrow> travel_state" where
  "critic_answered cg q attempt outcome st =
     (case outcome of
        Criticised critiques summary \<Rightarrow>
          st\<lparr>ts_critiques := critiques, ts_summary := Some summary, ts_critic_status := Critic_success,
             ts_attempts := attempt, ts_status := ''critic_completed''\<rparr>
      | Critic_exhausted \<Rightarrow>
          critic_failed (failed_summary (cg_provider cg) (cg_model cg) (cg_prompt_version cg) Critic_unavailable 0 attempt 0
            (request_input_chars q) (Some ''execution_budget_exhausted'')) attempt ''critic_budget_exhausted'' st
      | Critic_gone provider model attempts elapsed category \<Rightarrow>
          critic_failed (failed_summary provider model (cg_prompt_version cg) Critic_unavailable attempts attempt elapsed
            (request_input_chars q) (Some category)) attempt ''critic_unavailable'' st)"

text \<open>
  The call of the critic. With specialists it is a hand-off: an exception of the gateway passes
  through it, only a returned critique is subject to the output budget.
\<close>

definition critic_operation :: "bool \<times> critic_outcome \<Rightarrow> (planning_error, critic_outcome) operation" where
  "critic_operation answer = (if fst answer then Outlives_deadline else Returns (snd answer))"

definition call_critic ::
  "planning_config \<Rightarrow> planning_services \<Rightarrow> specialist_context \<Rightarrow> bool \<times> critic_outcome \<Rightarrow> (planning_error, critic_outcome) result" where
  "call_critic cf gw context answer =
     (case (pc_specialists cf, snd answer) of
        (None, outcome) \<Rightarrow> Inr outcome
      | (Some b, Criticised _ _) \<Rightarrow> hand_off cf gw Role_critic Reason_soft_critique context (critic_operation answer) Critic_output
      | (Some b, outcome) \<Rightarrow>
          if gw_context_chars gw context > max_context_characters b then Inl (Specialist_error ''context_budget_exceeded'')
          else if fst answer then Inl (Specialist_error ''specialist_timeout'') else Inr outcome)"

definition node_critic :: "planning_services \<Rightarrow> planning_config \<Rightarrow> travel_state \<Rightarrow> node_result" where
  "node_critic gw cf st =
     (case gw_critic gw of
        None \<Rightarrow> Inr (st\<lparr>ts_critic_status := Critic_disabled,
            ts_summary := Some (failed_summary ''disabled'' ''disabled'' ''disabled'' Critic_disabled 0 0 0
              (sum_list (map ed_input_chars (ts_digests st))) None),
            ts_critiques := [], ts_attempts := 0, ts_status := ''critic_disabled''\<rparr>)
      | Some cg \<Rightarrow>
          (let attempt = ts_attempts st + 1
           in bind_res (value_or (make_critic_request (ts_digests st) (ts_grounding_errors st))) (\<lambda>q.
              bind_res (call_critic cf gw (Critic_context q (map ed_candidate_id (ts_digests st))) (cg_critique cg q attempt)) (\<lambda>outcome.
                Inr (critic_answered cg q attempt outcome st)))))"

definition node_check_grounding :: "travel_state \<Rightarrow> node_result" where
  "node_check_grounding st =
     (if ts_critic_status st \<noteq> Critic_success then Inr (st\<lparr>ts_grounding_errors := [], ts_status := ''critic_degraded''\<rparr>)
      else (let errors = validate_critique_grounding (ts_digests st) (ts_critiques st);
                outcome = (if errors = [] then Critic_success else Invalid_grounding)
            in Inr (st\<lparr>ts_critic_status := outcome,
                       ts_summary := map_option (\<lambda>s. s\<lparr>cs_status := outcome\<rparr>) (ts_summary st),
                       ts_grounding_errors := errors,
                       ts_status := (if errors = [] then ''grounding_valid'' else ''grounding_invalid'')\<rparr>)))"

definition node_quality_gate :: "planning_config \<Rightarrow> travel_state \<Rightarrow> node_result" where
  "node_quality_gate cf st =
     bind_res (if ts_critic_status st = Critic_success then value_or (quality_scores (ts_critiques st) (pc_critic cf)) else Inr [])
       (\<lambda>scores. Inr (st\<lparr>ts_scores := scores, ts_status := ''quality_scored''\<rparr>))"

section \<open>The soft repair\<close>

definition best_by_quality :: "(string \<times> rat) list \<Rightarrow> plan_candidate list \<Rightarrow> (planning_error, plan_candidate) result" where
  "best_by_quality scores cs =
     (case select_by_quality cs scores of
        None \<Rightarrow> Inl (Planning_value_error ''min() arg is an empty sequence'') | Some c \<Rightarrow> Inr c)"

definition soft_plan_for :: "planning_config \<Rightarrow> travel_state \<Rightarrow> plan_candidate \<Rightarrow> (planning_error, (string, soft_repair_plan) result) result" where
  "soft_plan_for cf st c =
     (case map_of (ts_scores st) (cand_id c) of
        None \<Rightarrow> Inr (Inl ''quality_acceptable_or_budget_exhausted'')
      | Some q \<Rightarrow>
          if q \<ge> quality_threshold (pc_critic cf) \<or> ts_soft_iterations st \<ge> max_soft_replan_rounds (pc_critic cf)
          then Inr (Inl ''quality_acceptable_or_budget_exhausted'')
          else bind_res (next_in (\<lambda>x. sc_candidate_id x = cand_id c) (ts_critiques st)) (\<lambda>critique.
               bind_res (next_in (\<lambda>x. draft_id x = cand_id c) (ts_drafts st)) (\<lambda>draft.
                 Inr (compile_soft_repair_plan (pc_sha cf) (ts_trip st) c draft (ts_pois st) critique (ts_soft_iterations st + 1)))))"

definition save_baseline :: "soft_repair_plan \<Rightarrow> travel_state \<Rightarrow> travel_state" where
  "save_baseline plan st =
     st\<lparr>ts_soft_plan := Some plan, ts_soft_reason := None, ts_base_candidates := ts_candidates st, ts_base_drafts := ts_drafts st,
        ts_base_critiques := ts_critiques st, ts_base_digests := ts_digests st, ts_base_scores := ts_scores st,
        ts_base_summary := ts_summary st, ts_status := ''soft_repair_ready''\<rparr>"

definition clear_baseline :: "travel_state \<Rightarrow> travel_state" where
  "clear_baseline st =
     st\<lparr>ts_base_candidates := [], ts_base_drafts := [], ts_base_critiques := [], ts_base_digests := [],
        ts_base_scores := [], ts_base_summary := None\<rparr>"

definition with_soft_plan :: "(string, soft_repair_plan) result \<Rightarrow> travel_state \<Rightarrow> travel_state" where
  "with_soft_plan r st =
     (case r of
        Inl reason \<Rightarrow> (clear_baseline st)\<lparr>ts_soft_plan := None, ts_soft_reason := Some reason, ts_status := ''soft_repair_skipped''\<rparr>
      | Inr plan \<Rightarrow> save_baseline plan st)"

definition node_soft_plan :: "planning_config \<Rightarrow> travel_state \<Rightarrow> node_result" where
  "node_soft_plan cf st =
     bind_res (best_by_quality (ts_scores st) (deliverable_candidates st)) (\<lambda>c.
     bind_res (soft_plan_for cf st c) (\<lambda>r. Inr (with_soft_plan r st)))"

definition node_apply_soft :: "planning_config \<Rightarrow> travel_state \<Rightarrow> node_result" where
  "node_apply_soft cf st =
     bind_res (required (ts_soft_plan st) ''soft repair requires a compiled plan'') (\<lambda>plan.
     bind_res (next_in (\<lambda>c. cand_id c = sr_target plan) (ts_base_candidates st)) (\<lambda>c.
     bind_res (next_in (\<lambda>d. draft_id d = sr_target plan) (ts_base_drafts st)) (\<lambda>d.
     bind_res (value_or (apply_soft_repair d plan)) (\<lambda>repaired.
       Inr (st\<lparr>ts_soft_pending := Some (sr_round plan), ts_drafts := [repaired], ts_candidates := [], ts_selected := None,
               ts_route_queries := [], ts_delta_queries := [], ts_reused_keys := [],
               ts_preserved := preserved_hashes cf (sr_preserved_days plan) c,
               ts_critic_status := Critic_pending, ts_critiques := [], ts_scores := [], ts_loaded := 0, ts_reused := 0,
               ts_status := ''soft_repair_applied''\<rparr>)))))"

definition node_collect_soft_delta :: "planning_config \<Rightarrow> travel_state \<Rightarrow> node_result" where
  "node_collect_soft_delta cf st = collect_delta cf ''soft_delta_routes_collected'' st"

definition node_load_soft_delta :: "planning_services \<Rightarrow> travel_state \<Rightarrow> node_result" where
  "node_load_soft_delta gw st = load_delta gw ''soft_delta_routes_loaded'' st"

text \<open>The baseline score of the repaired candidate; a missing one is a \<open>KeyError\<close>.\<close>

definition before_score :: "travel_state \<Rightarrow> soft_repair_plan \<Rightarrow> (planning_error, rat) result" where
  "before_score st plan =
     (case map_of (ts_base_scores st) (sr_target plan) of None \<Rightarrow> Inl (Planning_key_error (sr_target plan)) | Some q \<Rightarrow> Inr q)"

definition soft_attempt_of ::
  "travel_state \<Rightarrow> soft_repair_plan \<Rightarrow> rat \<Rightarrow> rat option \<Rightarrow> bool \<Rightarrow> bool \<Rightarrow> string \<Rightarrow> soft_attempt" where
  "soft_attempt_of st plan before aft passed accepted reason =
     \<lparr>sa_round = sr_round plan, sa_before = before, sa_after = aft, sa_hard_passed = passed, sa_accepted = accepted,
      sa_reused = ts_reused st, sa_loaded = ts_loaded st, sa_terminal = reason\<rparr>"

definition restore_soft_values ::
  "string \<Rightarrow> bool \<Rightarrow> rat option \<Rightarrow> travel_state \<Rightarrow> node_result" where
  "restore_soft_values reason passed aft st =
     bind_res (required (ts_soft_plan st) ''soft baseline restore requires a repair plan'') (\<lambda>plan.
     bind_res (before_score st plan) (\<lambda>before.
       Inr (clear_baseline (st\<lparr>ts_candidates := ts_base_candidates st, ts_drafts := ts_base_drafts st,
               ts_critiques := ts_base_critiques st, ts_digests := ts_base_digests st, ts_scores := ts_base_scores st,
               ts_summary := ts_base_summary st, ts_critic_status := Critic_success, ts_grounding_errors := [],
               ts_soft_pending := None, ts_soft_iterations := sr_round plan,
               ts_soft_history := ts_soft_history st @ [soft_attempt_of st plan before aft passed False reason],
               ts_soft_reason := Some reason, ts_status := ''soft_baseline_restored''\<rparr>))))"

definition node_restore_soft :: "travel_state \<Rightarrow> node_result" where
  "node_restore_soft st = restore_soft_values ''hard_validation_failed'' False None st"

definition soft_accepted :: "planning_config \<Rightarrow> travel_state \<Rightarrow> rat \<Rightarrow> rat option \<Rightarrow> bool" where
  "soft_accepted cf st before aft \<longleftrightarrow> ts_critic_status st = Critic_success \<and>
     (case aft of None \<Rightarrow> False | Some q \<Rightarrow> q - before \<ge> min_improvement (pc_critic cf))"

text \<open>A list of the baseline without the entries of the repaired candidate, and the repaired ones.\<close>

definition merged :: "('a \<Rightarrow> string) \<Rightarrow> string \<Rightarrow> 'a list \<Rightarrow> 'a list \<Rightarrow> 'a list" where
  "merged key target base repaired = filter (\<lambda>x. key x \<noteq> target) base @ repaired"

definition accept_soft :: "soft_repair_plan \<Rightarrow> rat \<Rightarrow> rat option \<Rightarrow> travel_state \<Rightarrow> travel_state" where
  "accept_soft plan before aft st =
     clear_baseline (st\<lparr>ts_candidates := merged cand_id (sr_target plan) (ts_base_candidates st) (ts_candidates st),
       ts_drafts := merged draft_id (sr_target plan) (ts_base_drafts st) (ts_drafts st),
       ts_critiques := merged sc_candidate_id (sr_target plan) (ts_base_critiques st) (ts_critiques st),
       ts_digests := merged ed_candidate_id (sr_target plan) (ts_base_digests st) (ts_digests st),
       ts_scores := fold (\<lambda>(k, q). AList.update k q) (ts_scores st) (filter (\<lambda>(k, q). k \<noteq> sr_target plan) (ts_base_scores st)),
       ts_soft_pending := None, ts_soft_iterations := sr_round plan,
       ts_soft_history := ts_soft_history st @ [soft_attempt_of st plan before aft True True ''quality_improved''],
       ts_soft_reason := Some ''quality_improved'', ts_status := ''soft_repair_accepted''\<rparr>)"

definition node_compare_soft :: "planning_config \<Rightarrow> travel_state \<Rightarrow> node_result" where
  "node_compare_soft cf st =
     (case (ts_soft_plan st, ts_soft_pending st) of
        (Some plan, Some _) \<Rightarrow>
          bind_res (before_score st plan) (\<lambda>before.
            let aft = (case ts_scores st of [] \<Rightarrow> None | (_, q) # _ \<Rightarrow> Some q)
            in if soft_accepted cf st before aft then Inr (accept_soft plan before aft st)
               else restore_soft_values
                 (if ts_critic_status st \<noteq> Critic_success then ''critic_unavailable_after_repair'' else ''quality_improvement_below_threshold'')
                 True aft st)
      | _ \<Rightarrow> Inl (Planning_runtime_error ''soft comparison requires pending repair context''))"

section \<open>The end of a run\<close>

definition node_select_quality :: "travel_state \<Rightarrow> node_result" where
  "node_select_quality st =
     bind_res (if ts_scores st \<noteq> [] then best_by_quality (ts_scores st) (deliverable_candidates st)
               else select_best_candidate (deliverable_candidates st)) (\<lambda>c.
       Inr (st\<lparr>ts_selected := Some c, ts_status := ''quality_selected''\<rparr>))"

definition node_explain :: "travel_state \<Rightarrow> node_result" where
  "node_explain st =
     bind_res (required (ts_selected st) ''selection explanation requires a selected plan'') (\<lambda>c.
     bind_res (value_or (build_grounded_explanation c (ts_critic_status st)
         (List.find (\<lambda>d. ed_candidate_id d = cand_id c) (ts_digests st))
         (List.find (\<lambda>x. sc_candidate_id x = cand_id c) (ts_critiques st)))) (\<lambda>e.
       Inr (st\<lparr>ts_explanation := Some e, ts_status := ''completed'', ts_message := Some (Selected (cand_style c))\<rparr>)))"

definition node_select_best :: "travel_state \<Rightarrow> node_result" where
  "node_select_best st =
     bind_res (select_best_candidate (deliverable_candidates st)) (\<lambda>c.
       Inr (st\<lparr>ts_selected := Some c, ts_status := ''completed'', ts_message := Some (Selected (cand_style c))\<rparr>))"

definition node_infeasible :: "travel_state \<Rightarrow> node_result" where
  "node_infeasible st =
     Inr (st\<lparr>ts_selected := None, ts_status := ''infeasible'',
             ts_message := Some (Infeasible (if ts_terminal st = Some [] then None else ts_terminal st))\<rparr>)"

definition unvalidated_key :: "plan_candidate \<Rightarrow> (nat \<times> rat) \<times> string" where
  "unvalidated_key c = (negated_score (score c), cand_id c)"

definition node_select_unvalidated :: "travel_state \<Rightarrow> node_result" where
  "node_select_unvalidated st =
     (if ts_candidates st = [] then Inl (Planning_runtime_error ''unvalidated evaluation requires candidates'')
      else bind_res (min_candidate unvalidated_key (ts_candidates st)) (\<lambda>c.
        Inr (st\<lparr>ts_selected := Some c, ts_status := ''completed'', ts_message := Some Unvalidated_selected\<rparr>)))"

end
