(* ===== verification/PlanningGraph.thy ===== *)
theory PlanningGraph
  imports PlanningSoft
begin

text \<open>
  The planning graph of \<open>graph/workflow.py\<close>: its nodes, routes and edges, the run from an initial
  state, and the response. A run takes one unit of fuel per node, as LangGraph counts its
  \<open>recursion_limit\<close>; \<open>None\<close> says that the limit was hit. Proved: every run ends within
  \<open>30 + 8 * max_replan_rounds\<close> steps.
\<close>

section \<open>Nodes, routes and edges\<close>

datatype plan_node =
  G_guard | G_search_plan | G_load_pois | G_resolve_facts | G_route_matrix | G_problem | G_solve
| G_materialize_optimized | G_materialize | G_validate | G_repair_target | G_analyze | G_repair_plan
| G_apply_repair | G_collect_delta | G_load_delta | G_critic_context | G_critic | G_check_grounding
| G_quality_gate | G_soft_plan | G_apply_soft | G_collect_soft_delta | G_load_soft_delta
| G_materialize_soft | G_restore_soft | G_compare_soft | G_select_quality | G_explain | G_select_best
| G_infeasible | G_select_unvalidated

fun plan_node_body :: "planning_config \<Rightarrow> planning_services \<Rightarrow> plan_node \<Rightarrow> travel_state \<Rightarrow> node_result" where
  "plan_node_body cf gw G_guard st = Inr st"
| "plan_node_body cf gw G_search_plan st = node_search_plan cf gw st"
| "plan_node_body cf gw G_load_pois st = node_load_pois cf gw st"
| "plan_node_body cf gw G_resolve_facts st = node_resolve_facts cf st"
| "plan_node_body cf gw G_route_matrix st = node_route_matrix cf gw st"
| "plan_node_body cf gw G_problem st = node_problem cf st"
| "plan_node_body cf gw G_solve st = node_solve cf gw st"
| "plan_node_body cf gw G_materialize_optimized st = node_materialize cf st"
| "plan_node_body cf gw G_materialize st = node_materialize cf st"
| "plan_node_body cf gw G_validate st = node_validate cf st"
| "plan_node_body cf gw G_repair_target st = node_repair_target cf st"
| "plan_node_body cf gw G_analyze st = node_analyze cf st"
| "plan_node_body cf gw G_repair_plan st = node_repair_plan cf gw st"
| "plan_node_body cf gw G_apply_repair st = node_apply_repair cf st"
| "plan_node_body cf gw G_collect_delta st = node_collect_delta cf st"
| "plan_node_body cf gw G_load_delta st = node_load_delta gw st"
| "plan_node_body cf gw G_critic_context st = node_critic_context cf st"
| "plan_node_body cf gw G_critic st = node_critic gw cf st"
| "plan_node_body cf gw G_check_grounding st = node_check_grounding st"
| "plan_node_body cf gw G_quality_gate st = node_quality_gate cf st"
| "plan_node_body cf gw G_soft_plan st = node_soft_plan cf st"
| "plan_node_body cf gw G_apply_soft st = node_apply_soft cf st"
| "plan_node_body cf gw G_collect_soft_delta st = node_collect_soft_delta cf st"
| "plan_node_body cf gw G_load_soft_delta st = node_load_soft_delta gw st"
| "plan_node_body cf gw G_materialize_soft st = node_materialize cf st"
| "plan_node_body cf gw G_restore_soft st = node_restore_soft st"
| "plan_node_body cf gw G_compare_soft st = node_compare_soft cf st"
| "plan_node_body cf gw G_select_quality st = node_select_quality st"
| "plan_node_body cf gw G_explain st = node_explain st"
| "plan_node_body cf gw G_select_best st = node_select_best st"
| "plan_node_body cf gw G_infeasible st = node_infeasible st"
| "plan_node_body cf gw G_select_unvalidated st = node_select_unvalidated st"

definition repair_possible :: "travel_state \<Rightarrow> bool" where
  "repair_possible st \<longleftrightarrow> ts_terminal st = None \<and> ts_pois st \<noteq> [] \<and> ts_iterations st < ts_max_rounds st"

definition route_after_validation :: "travel_state \<Rightarrow> plan_node" where
  "route_after_validation st =
     (if ts_soft_pending st \<noteq> None \<and> deliverable_candidates st = [] then G_restore_soft
      else if deliverable_candidates st \<noteq> [] then G_critic_context
      else if repair_possible st then G_repair_target else G_infeasible)"

definition route_without_soft_critic :: "travel_state \<Rightarrow> plan_node" where
  "route_without_soft_critic st =
     (if ts_soft_pending st \<noteq> None \<and> deliverable_candidates st = [] then G_restore_soft
      else if deliverable_candidates st \<noteq> [] then G_select_best
      else if repair_possible st then G_repair_target else G_infeasible)"

definition route_after_critic :: "travel_state \<Rightarrow> plan_node" where
  "route_after_critic st =
     (case ts_report st of None \<Rightarrow> G_infeasible | Some r \<Rightarrow> if r_repairable r then G_repair_plan else G_infeasible)"

definition route_after_repair_plan :: "travel_state \<Rightarrow> plan_node" where
  "route_after_repair_plan st = (if ts_repair_plan st \<noteq> None \<and> ts_terminal st = None then G_apply_repair else G_infeasible)"

definition route_after_delta_routes :: "travel_state \<Rightarrow> plan_node" where
  "route_after_delta_routes st = (if ts_delta_queries st \<noteq> [] then G_load_delta else G_materialize)"

definition route_after_grounding :: "travel_state \<Rightarrow> plan_node" where
  "route_after_grounding st =
     (if ts_grounding_errors st \<noteq> [] \<and> ts_attempts st < ts_max_attempts st \<and> ts_critic_status st = Invalid_grounding
      then G_critic else G_quality_gate)"

definition route_after_quality_gate :: "travel_state \<Rightarrow> plan_node" where
  "route_after_quality_gate st =
     (if ts_soft_pending st \<noteq> None then G_compare_soft
      else if ts_critic_status st = Critic_success \<and> ts_scores st \<noteq> [] then G_soft_plan
      else G_select_quality)"

definition route_after_soft_plan :: "travel_state \<Rightarrow> plan_node" where
  "route_after_soft_plan st = (if ts_soft_plan st \<noteq> None then G_apply_soft else G_select_quality)"

definition route_after_soft_delta :: "travel_state \<Rightarrow> plan_node" where
  "route_after_soft_delta st = (if ts_delta_queries st \<noteq> [] then G_load_soft_delta else G_materialize_soft)"

definition validation_target :: "planning_config \<Rightarrow> plan_node" where
  "validation_target cf = (if pc_skip_validator cf then G_select_unvalidated else G_validate)"

text \<open>\<open>None\<close>: the end of the graph.\<close>

fun plan_next :: "planning_config \<Rightarrow> plan_node \<Rightarrow> travel_state \<Rightarrow> plan_node option" where
  "plan_next cf G_guard st = Some G_search_plan"
| "plan_next cf G_search_plan st = Some G_load_pois"
| "plan_next cf G_load_pois st = Some G_resolve_facts"
| "plan_next cf G_resolve_facts st = Some G_route_matrix"
| "plan_next cf G_route_matrix st = Some G_problem"
| "plan_next cf G_problem st = Some G_solve"
| "plan_next cf G_solve st = Some G_materialize_optimized"
| "plan_next cf G_materialize_optimized st = Some (validation_target cf)"
| "plan_next cf G_materialize st = Some (validation_target cf)"
| "plan_next cf G_validate st = Some (if pc_skip_soft_critic cf then route_without_soft_critic st else route_after_validation st)"
| "plan_next cf G_repair_target st = Some G_analyze"
| "plan_next cf G_analyze st = Some (route_after_critic st)"
| "plan_next cf G_repair_plan st = Some (route_after_repair_plan st)"
| "plan_next cf G_apply_repair st = Some G_collect_delta"
| "plan_next cf G_collect_delta st = Some (route_after_delta_routes st)"
| "plan_next cf G_load_delta st = Some G_materialize"
| "plan_next cf G_critic_context st = Some G_critic"
| "plan_next cf G_critic st = Some G_check_grounding"
| "plan_next cf G_check_grounding st = Some (route_after_grounding st)"
| "plan_next cf G_quality_gate st = Some (route_after_quality_gate st)"
| "plan_next cf G_soft_plan st = Some (route_after_soft_plan st)"
| "plan_next cf G_apply_soft st = Some G_collect_soft_delta"
| "plan_next cf G_collect_soft_delta st = Some (route_after_soft_delta st)"
| "plan_next cf G_load_soft_delta st = Some G_materialize_soft"
| "plan_next cf G_materialize_soft st = Some G_validate"
| "plan_next cf G_restore_soft st = Some G_select_quality"
| "plan_next cf G_compare_soft st = Some G_select_quality"
| "plan_next cf G_select_quality st = Some G_explain"
| "plan_next cf G_explain st = None"
| "plan_next cf G_select_best st = None"
| "plan_next cf G_infeasible st = None"
| "plan_next cf G_select_unvalidated st = None"

section \<open>Running\<close>

text \<open>The services may answer differently in every step.\<close>

fun run_plan ::
  "nat \<Rightarrow> planning_config \<Rightarrow> (nat \<Rightarrow> planning_services) \<Rightarrow> plan_node \<Rightarrow> travel_state \<Rightarrow> node_result option" where
  "run_plan 0 cf gws n st = None"
| "run_plan (Suc k) cf gws n st =
     (case plan_node_body cf (gws k) n st of
        Inl e \<Rightarrow> Some (Inl e)
      | Inr st' \<Rightarrow> (case plan_next cf n st' of
          None \<Rightarrow> Some (Inr st')
        | Some n' \<Rightarrow> run_plan k cf gws n' st'))"

definition planning_recursion_limit :: "planning_request \<Rightarrow> nat" where
  "planning_recursion_limit r = nat (max 32 (24 + rq_max_rounds r * 8))"

definition run_workflow ::
  "planning_config \<Rightarrow> (nat \<Rightarrow> planning_services) \<Rightarrow> planning_request \<Rightarrow> string \<Rightarrow> node_result" where
  "run_workflow cf gws r thread =
     (case run_plan (planning_recursion_limit r) cf gws G_guard (initial_planning_state r thread) of
        None \<Rightarrow> Inl Recursion_limit
      | Some res \<Rightarrow> res)"

record planning_response =
  pr_status :: string
  pr_selected :: "plan_candidate option"
  pr_candidates :: "plan_candidate list"
  pr_iterations :: int
  pr_message :: "planning_message option"
  pr_critic_status :: critic_status
  pr_critic_summary :: "critic_summary option"
  pr_critiques :: "soft_critique list"
  pr_explanation :: "grounded_explanation option"
  pr_soft_iterations :: int

definition response_from_state :: "travel_state \<Rightarrow> planning_response" where
  "response_from_state st =
     \<lparr>pr_status = ts_status st, pr_selected = ts_selected st, pr_candidates = ts_candidates st,
      pr_iterations = ts_iterations st, pr_message = ts_message st, pr_critic_status = ts_critic_status st,
      pr_critic_summary = ts_summary st,
      pr_critiques = (if ts_critic_status st = Critic_success then ts_critiques st else []),
      pr_explanation = ts_explanation st, pr_soft_iterations = ts_soft_iterations st\<rparr>"

definition run_planning ::
  "planning_config \<Rightarrow> (nat \<Rightarrow> planning_services) \<Rightarrow> planning_request \<Rightarrow> string \<Rightarrow> (planning_error, planning_response) result" where
  "run_planning cf gws r thread = bind_res (run_workflow cf gws r thread) (\<lambda>st. Inr (response_from_state st))"

end
