(* ===== verification/PlanningTermination.thy ===== *)
theory PlanningTermination
  imports PlanningGraph
begin

text \<open>
  Every run of the planning graph ends. The steps that may follow a node are counted by
  \<open>plan_steps\<close>: a repair round takes eight steps and uses up one round, a critic pass two and one
  grounding attempt, and the soft repair is entered once.
\<close>

definition rounds_left :: "travel_state \<Rightarrow> nat" where
  "rounds_left st = nat (ts_max_rounds st - planning_round st)"

definition passes_left :: "travel_state \<Rightarrow> nat" where
  "passes_left st = nat (ts_max_attempts st - ts_attempts st)"

definition soft_ahead :: "travel_state \<Rightarrow> nat" where
  "soft_ahead st = (if ts_soft_pending st = None then 12 else 0)"

fun plan_steps :: "plan_node \<Rightarrow> travel_state \<Rightarrow> nat" where
  "plan_steps G_guard st = 30 + 8 * rounds_left st"
| "plan_steps G_search_plan st = 29 + 8 * rounds_left st"
| "plan_steps G_load_pois st = 28 + 8 * rounds_left st"
| "plan_steps G_resolve_facts st = 27 + 8 * rounds_left st"
| "plan_steps G_route_matrix st = 26 + 8 * rounds_left st"
| "plan_steps G_problem st = 25 + 8 * rounds_left st"
| "plan_steps G_solve st = 24 + 8 * rounds_left st"
| "plan_steps G_materialize_optimized st = 23 + 8 * rounds_left st"
| "plan_steps G_validate st = (if ts_soft_pending st = None then 22 + 8 * rounds_left st else 10)"
| "plan_steps G_repair_target st = 21 + 8 * rounds_left st"
| "plan_steps G_analyze st = 20 + 8 * rounds_left st"
| "plan_steps G_repair_plan st = 19 + 8 * rounds_left st"
| "plan_steps G_apply_repair st = 18 + 8 * rounds_left st"
| "plan_steps G_collect_delta st = 25 + 8 * rounds_left st"
| "plan_steps G_load_delta st = 24 + 8 * rounds_left st"
| "plan_steps G_materialize st = 23 + 8 * rounds_left st"
| "plan_steps G_critic_context st = 9 + soft_ahead st"
| "plan_steps G_critic st = 6 + 2 * (passes_left st - 1) + soft_ahead st"
| "plan_steps G_check_grounding st =
     5 + (if ts_critic_status st = Critic_success then 2 * passes_left st else 0) + soft_ahead st"
| "plan_steps G_quality_gate st = 4 + soft_ahead st"
| "plan_steps G_soft_plan st = 15"
| "plan_steps G_apply_soft st = 14"
| "plan_steps G_collect_soft_delta st = 13"
| "plan_steps G_load_soft_delta st = 12"
| "plan_steps G_materialize_soft st = 11"
| "plan_steps G_restore_soft st = 3"
| "plan_steps G_compare_soft st = 3"
| "plan_steps G_select_quality st = 2"
| "plan_steps _ st = 1"

definition repairing :: "travel_state \<Rightarrow> bool" where
  "repairing st \<longleftrightarrow> ts_pending_round st = None \<and> ts_iterations st < ts_max_rounds st"

text \<open>What holds when a node starts.\<close>

fun plan_pre :: "plan_node \<Rightarrow> travel_state \<Rightarrow> bool" where
  "plan_pre G_repair_target st = repairing st"
| "plan_pre G_analyze st = repairing st"
| "plan_pre G_repair_plan st = repairing st"
| "plan_pre G_apply_repair st = (repairing st \<and> (\<exists>plan. ts_repair_plan st = Some plan \<and> rp_round plan = ts_iterations st + 1))"
| "plan_pre G_critic st = (ts_attempts st < ts_max_attempts st \<or> ts_attempts st = 0)"
| "plan_pre G_collect_soft_delta st = (ts_soft_pending st \<noteq> None)"
| "plan_pre G_load_soft_delta st = (ts_soft_pending st \<noteq> None)"
| "plan_pre G_materialize_soft st = (ts_soft_pending st \<noteq> None)"
| "plan_pre n st = True"

lemmas plan_route_defs = validation_target_def route_without_soft_critic_def route_after_validation_def
  route_after_critic_def route_after_repair_plan_def route_after_delta_routes_def route_after_grounding_def
  route_after_quality_gate_def route_after_soft_plan_def route_after_soft_delta_def repair_possible_def

section \<open>What the nodes keep\<close>

lemma hand_off_returns: "hand_off cf gw role reason ctx (Returns x) out = Inr y \<Longrightarrow> y = x"
  by (auto simp: hand_off_def invoke_def Let_def split: option.splits if_splits sum.splits specialist_error.splits)

lemma repair_operation_returns: "hand_off cf gw role reason ctx (repair_operation r) out = Inr y \<Longrightarrow> y = r"
  by (auto simp: hand_off_def invoke_def repair_operation_def Let_def
      split: option.splits if_splits sum.splits specialist_error.splits operation.splits)

lemma build_repair_plan_round: "build_repair_plan sha trip c d pois report n = Inr plan \<Longrightarrow> rp_round plan = n"
  by (auto simp: build_repair_plan_def make_repair_plan_def Let_def split: if_splits)

lemma apply_repair_plan_round: "apply_repair_plan metres trip d pois plan rs = Inr (d', plan') \<Longrightarrow> rp_round plan' = rp_round plan"
  by (auto simp: apply_repair_plan_def Let_def split: if_splits sum.splits)

text \<open>The fields that the count of steps reads.\<close>

definition same_rounds :: "travel_state \<Rightarrow> travel_state \<Rightarrow> bool" where
  "same_rounds st st' \<longleftrightarrow> ts_max_rounds st' = ts_max_rounds st \<and> ts_iterations st' = ts_iterations st \<and>
     ts_pending_round st' = ts_pending_round st \<and> ts_soft_pending st' = ts_soft_pending st \<and>
     ts_max_attempts st' = ts_max_attempts st"

lemma same_rounds_left: "same_rounds st st' \<Longrightarrow> rounds_left st' = rounds_left st"
  by (simp add: same_rounds_def rounds_left_def planning_round_def cong: option.case_cong)

lemma same_rounds_ahead: "same_rounds st st' \<Longrightarrow> soft_ahead st' = soft_ahead st"
  by (simp add: same_rounds_def soft_ahead_def)

fun quiet_node :: "plan_node \<Rightarrow> bool" where
  "quiet_node n = (n \<notin> {G_search_plan, G_validate, G_apply_repair, G_apply_soft, G_restore_soft, G_compare_soft})"

lemma collect_delta_keeps: "collect_delta cf label st = Inr st' \<Longrightarrow> same_rounds st st'"
  by (auto simp: collect_delta_def same_rounds_def Let_def split: list.splits)

lemma load_delta_keeps: "load_delta gw label st = Inr st' \<Longrightarrow> same_rounds st st'"
  by (auto simp: load_delta_def same_rounds_def split: prod.splits)

lemma node_load_pois_keeps: "node_load_pois cf gw st = Inr st' \<Longrightarrow> same_rounds st st'"
  by (auto simp: node_load_pois_def same_rounds_def Let_def split: option.splits if_splits)

lemma node_resolve_facts_keeps: "node_resolve_facts cf st = Inr st' \<Longrightarrow> same_rounds st st'"
  by (auto simp: node_resolve_facts_def same_rounds_def Let_def)

lemma node_route_matrix_keeps: "node_route_matrix cf gw st = Inr st' \<Longrightarrow> same_rounds st st'"
  by (auto simp: node_route_matrix_def same_rounds_def Let_def split: prod.splits)

lemma node_problem_keeps: "node_problem cf st = Inr st' \<Longrightarrow> same_rounds st st'"
  by (auto simp: node_problem_def same_rounds_def Let_def split: sum.splits)

lemma node_solve_keeps: "node_solve cf gw st = Inr st' \<Longrightarrow> same_rounds st st'"
  by (auto simp: node_solve_def same_rounds_def)

lemma node_materialize_keeps: "node_materialize cf st = Inr st' \<Longrightarrow> same_rounds st st'"
  by (auto simp: node_materialize_def same_rounds_def Let_def)

lemma node_repair_target_keeps: "node_repair_target cf st = Inr st' \<Longrightarrow> same_rounds st st'"
  by (auto simp: node_repair_target_def same_rounds_def Let_def)

lemma node_analyze_keeps: "node_analyze cf st = Inr st' \<Longrightarrow> same_rounds st st'"
  by (auto simp: node_analyze_def same_rounds_def Let_def)

lemma node_repair_plan_keeps: "node_repair_plan cf gw st = Inr st' \<Longrightarrow> same_rounds st st'"
  by (auto simp: node_repair_plan_def same_rounds_def Let_def split: prod.splits)

lemma node_critic_context_keeps: "node_critic_context cf st = Inr st' \<Longrightarrow> same_rounds st st'"
  by (auto simp: node_critic_context_def same_rounds_def Let_def split: if_splits)

lemma critic_answered_keeps [simp]: "same_rounds st (critic_answered cg q attempt outcome st)"
  by (cases outcome) (simp_all add: critic_answered_def critic_failed_def same_rounds_def)

lemma same_rounds_update [simp]:
  "same_rounds st (st\<lparr>ts_critic_status := cs, ts_summary := sm, ts_critiques := cr, ts_attempts := n, ts_status := l\<rparr>)"
  by (simp add: same_rounds_def)

lemma node_critic_keeps: "node_critic gw cf st = Inr st' \<Longrightarrow> same_rounds st st'"
  by (auto simp: node_critic_def Let_def split: option.split_asm)

lemma node_check_grounding_keeps: "node_check_grounding st = Inr st' \<Longrightarrow> same_rounds st st'"
  by (auto simp: node_check_grounding_def same_rounds_def Let_def split: if_splits)

lemma node_quality_gate_keeps: "node_quality_gate cf st = Inr st' \<Longrightarrow> same_rounds st st'"
  by (auto simp: node_quality_gate_def same_rounds_def Let_def)

lemma with_soft_plan_keeps [simp]: "same_rounds st (with_soft_plan r st)"
  by (cases r) (simp_all add: with_soft_plan_def same_rounds_def save_baseline_def clear_baseline_def)

lemma node_soft_plan_keeps: "node_soft_plan cf st = Inr st' \<Longrightarrow> same_rounds st st'"
  by (auto simp: node_soft_plan_def)

lemma node_select_quality_keeps: "node_select_quality st = Inr st' \<Longrightarrow> same_rounds st st'"
  by (auto simp: node_select_quality_def same_rounds_def Let_def)

lemma node_explain_keeps: "node_explain st = Inr st' \<Longrightarrow> same_rounds st st'"
  by (auto simp: node_explain_def same_rounds_def Let_def)

lemma node_select_best_keeps: "node_select_best st = Inr st' \<Longrightarrow> same_rounds st st'"
  by (auto simp: node_select_best_def same_rounds_def Let_def)

lemma node_infeasible_keeps: "node_infeasible st = Inr st' \<Longrightarrow> same_rounds st st'"
  by (auto simp: node_infeasible_def same_rounds_def Let_def)

lemma node_select_unvalidated_keeps: "node_select_unvalidated st = Inr st' \<Longrightarrow> same_rounds st st'"
  by (auto simp: node_select_unvalidated_def same_rounds_def Let_def split: if_splits)

lemmas node_keeps = node_load_pois_keeps node_resolve_facts_keeps node_route_matrix_keeps node_problem_keeps node_solve_keeps node_materialize_keeps node_repair_target_keeps node_analyze_keeps node_repair_plan_keeps node_critic_context_keeps node_critic_keeps node_check_grounding_keeps node_quality_gate_keeps node_soft_plan_keeps node_select_quality_keeps node_explain_keeps node_select_best_keeps node_infeasible_keeps node_select_unvalidated_keeps collect_delta_keeps load_delta_keeps

lemma same_rounds_refl [simp]: "same_rounds st st"
  by (simp add: same_rounds_def)

lemma quiet_node_keeps: "plan_node_body cf gw n st = Inr st' \<Longrightarrow> quiet_node n \<Longrightarrow> same_rounds st st'"
  by (cases n) (auto dest: node_keeps simp: node_collect_delta_def node_load_delta_def node_collect_soft_delta_def node_load_soft_delta_def)

lemma node_validate_keeps:
  assumes "node_validate cf st = Inr st'"
  shows "ts_max_rounds st' = ts_max_rounds st \<and> ts_soft_pending st' = ts_soft_pending st \<and>
     planning_round st' = planning_round st \<and> ts_pending_round st' = None \<and> ts_max_attempts st' = ts_max_attempts st"
  using assms
  by (auto simp: node_validate_def finish_round_def Let_def planning_round_def split: option.split_asm list.split_asm)

lemma node_apply_repair_keeps:
  assumes "node_apply_repair cf st = Inr st'" and "plan_pre G_apply_repair st"
  shows "ts_max_rounds st' = ts_max_rounds st \<and> ts_pending_round st' = Some (ts_iterations st + 1) \<and>
     rounds_left st = Suc (rounds_left st') \<and> ts_max_attempts st' = ts_max_attempts st"
proof -
  obtain plan where plan: "ts_repair_plan st = Some plan" "rp_round plan = ts_iterations st + 1"
    and "ts_pending_round st = None" "ts_iterations st < ts_max_rounds st"
    using assms(2) by (auto simp: repairing_def)
  with assms(1) show ?thesis
    by (auto simp: node_apply_repair_def rounds_left_def planning_round_def dest!: apply_repair_plan_round)
qed

lemma node_apply_soft_keeps: "node_apply_soft cf st = Inr st' \<Longrightarrow> ts_soft_pending st' \<noteq> None \<and> ts_max_attempts st' = ts_max_attempts st"
  by (auto simp: node_apply_soft_def)

lemma node_search_plan_keeps:
  "node_search_plan cf gw st = Inr st' \<Longrightarrow> rounds_left st' = rounds_left st \<and> ts_max_attempts st' = grounding_max_attempts (pc_critic cf)"
  by (auto simp: node_search_plan_def rounds_left_def planning_round_def cong: option.case_cong)

lemma restore_soft_values_keeps: "restore_soft_values reason passed aft st = Inr st' \<Longrightarrow> ts_max_attempts st' = ts_max_attempts st"
  by (auto simp: restore_soft_values_def clear_baseline_def)

lemma node_compare_soft_keeps: "node_compare_soft cf st = Inr st' \<Longrightarrow> ts_max_attempts st' = ts_max_attempts st"
  by (auto simp: node_compare_soft_def accept_soft_def clear_baseline_def Let_def restore_soft_values_keeps
      split: option.split_asm if_split_asm)

lemma node_critic_context_attempts: "node_critic_context cf st = Inr st' \<Longrightarrow> ts_attempts st' = 0"
  by (auto simp: node_critic_context_def Let_def split: if_split_asm)

lemma critic_answered_attempts [simp]: "ts_attempts (critic_answered cg q attempt outcome st) = attempt"
  by (cases outcome) (simp_all add: critic_answered_def critic_failed_def)

lemma node_critic_attempts:
  "node_critic gw cf st = Inr st' \<Longrightarrow> ts_critic_status st' = Critic_success \<Longrightarrow> ts_attempts st' = ts_attempts st + 1"
  by (auto simp: node_critic_def Let_def split: option.split_asm)

lemma node_check_grounding_attempts:
  "node_check_grounding st = Inr st' \<Longrightarrow> route_after_grounding st' = G_critic \<Longrightarrow>
     ts_critic_status st = Critic_success \<and> ts_attempts st' = ts_attempts st \<and> ts_attempts st < ts_max_attempts st"
  by (auto simp: node_check_grounding_def route_after_grounding_def Let_def split: if_split_asm)

lemma planned_repair_plan: "fst (planned_repair tried r) = Some plan \<Longrightarrow> r = Inr plan \<and> rp_fingerprint plan \<notin> set tried"
  by (auto simp: planned_repair_def split: sum.split_asm no_plan.split_asm if_split_asm)

lemma node_repair_plan_made:
  assumes "node_repair_plan cf gw st = Inr st'" and "ts_repair_plan st' = Some plan"
  obtains c d report where "build_repair_plan (pc_sha cf) (ts_trip st) c d (ts_pois st) report (ts_iterations st + 1) = Inr plan"
    and "rp_fingerprint plan \<notin> set (tried_actions st)" and "target_candidate st = Inr c" and "target_draft st = Inr d"
    and "ts_report st = Some report"
  using assms by (auto simp: node_repair_plan_def Let_def dest!: repair_operation_returns planned_repair_plan)

lemma node_repair_plan_round:
  "node_repair_plan cf gw st = Inr st' \<Longrightarrow> ts_repair_plan st' = Some plan \<Longrightarrow> rp_round plan = ts_iterations st + 1"
  by (erule node_repair_plan_made) (auto dest: build_repair_plan_round)

section \<open>One step\<close>

definition bounded_attempts :: "planning_config \<Rightarrow> bool" where
  "bounded_attempts cf \<longleftrightarrow> grounding_max_attempts (pc_critic cf) \<le> 2"

lemma repairing_same: "same_rounds st st' \<Longrightarrow> repairing st' = repairing st"
  by (simp add: same_rounds_def repairing_def)

lemma passes_left_same: "same_rounds st st' \<Longrightarrow> ts_attempts st' = ts_attempts st \<Longrightarrow> passes_left st' = passes_left st"
  by (simp add: same_rounds_def passes_left_def)

lemma quiet_step:
  assumes body: "plan_node_body cf gw n st = Inr st'" and nxt: "plan_next cf n st' = Some n'" and quiet: "quiet_node n"
    and pre: "plan_pre n st" and att: "ts_max_attempts st \<le> 2"
  shows "plan_pre n' st' \<and> plan_steps n' st' < plan_steps n st"
proof -
  note keeps = quiet_node_keeps [OF body quiet]
  note facts = same_rounds_left [OF keeps] same_rounds_ahead [OF keeps] repairing_same [OF keeps]
    keeps [unfolded same_rounds_def]
  show ?thesis
  proof (cases n)
    case G_analyze
    then show ?thesis using nxt pre facts by (auto simp: plan_route_defs split: if_split_asm option.splits)
  next
    case G_repair_plan
    then show ?thesis using body nxt pre facts node_repair_plan_round [of cf gw st st']
      by (auto simp: plan_route_defs split: if_split_asm)
  next
    case G_critic_context
    then have "ts_attempts st' = 0" using body node_critic_context_attempts by simp
    with G_critic_context show ?thesis using nxt att facts by (auto simp: passes_left_def)
  next
    case G_critic
    then have n': "n' = G_check_grounding" and start: "ts_attempts st < ts_max_attempts st \<or> ts_attempts st = 0"
      using nxt pre by simp_all
    have "passes_left st' \<le> passes_left st - 1" if "ts_critic_status st' = Critic_success"
      using node_critic_attempts [of gw cf st st'] body G_critic that start facts(4) by (auto simp: passes_left_def)
    then show ?thesis using facts(2) by (auto simp: n' G_critic)
  next
    case G_check_grounding
    then have n': "n' = route_after_grounding st'" using nxt by simp
    show ?thesis
    proof (cases "n' = G_critic")
      case True
      then have "ts_critic_status st = Critic_success" "ts_attempts st' = ts_attempts st" "ts_attempts st < ts_max_attempts st"
        using node_check_grounding_attempts [of st st'] body G_check_grounding n' by simp_all
      moreover from this have "passes_left st' = passes_left st" "0 < passes_left st" using facts(4) by (simp_all add: passes_left_def)
      ultimately show ?thesis using facts(2,4) by (simp add: True G_check_grounding)
    next
      case False
      then have "n' = G_quality_gate" using n' by (auto simp: route_after_grounding_def split: if_split_asm)
      then show ?thesis using facts(2) by (simp add: G_check_grounding)
    qed
  next
    case G_quality_gate
    then show ?thesis using nxt facts by (auto simp: plan_route_defs soft_ahead_def)
  qed (use quiet nxt pre facts in \<open>auto simp: plan_route_defs\<close>)
qed

lemma validate_step:
  assumes body: "node_validate cf st = Inr st'" and nxt: "plan_next cf G_validate st' = Some n'"
  shows "plan_pre n' st' \<and> plan_steps n' st' < plan_steps G_validate st"
proof -
  note keeps = node_validate_keeps [OF body]
  have "rounds_left st' = rounds_left st" using keeps by (simp add: rounds_left_def)
  moreover have "soft_ahead st' = soft_ahead st" using keeps by (simp add: soft_ahead_def)
  moreover have "0 < rounds_left st'" if "repairing st'" using that by (simp add: rounds_left_def planning_round_def repairing_def)
  ultimately show ?thesis using nxt keeps by (auto simp: plan_route_defs repairing_def soft_ahead_def split: if_split_asm)
qed

lemma plan_step:
  assumes body: "plan_node_body cf gw n st = Inr st'" and nxt: "plan_next cf n st' = Some n'"
    and pre: "plan_pre n st" and att: "ts_max_attempts st \<le> 2" and cf: "bounded_attempts cf"
  shows "plan_pre n' st' \<and> plan_steps n' st' < plan_steps n st \<and> ts_max_attempts st' \<le> 2"
proof (cases "quiet_node n")
  case True
  then show ?thesis using quiet_step [OF body nxt True pre att] quiet_node_keeps [OF body True] att
    by (simp add: same_rounds_def)
next
  case False
  then consider "n = G_search_plan" | "n = G_validate" | "n = G_apply_repair" | "n = G_apply_soft" | "n = G_restore_soft"
    | "n = G_compare_soft" by auto
  then show ?thesis
  proof cases
    case 1
    then show ?thesis using body nxt cf node_search_plan_keeps [of cf gw st st'] by (auto simp: bounded_attempts_def)
  next
    case 2
    then show ?thesis using body nxt att validate_step [of cf st st' n'] node_validate_keeps [of cf st st'] by simp
  next
    case 3
    then show ?thesis using body nxt att pre node_apply_repair_keeps [of cf st st'] by auto
  next
    case 4
    then show ?thesis using body nxt att node_apply_soft_keeps [of cf st st'] by auto
  next
    case 5
    then show ?thesis using body nxt att by (auto simp: node_restore_soft_def dest!: restore_soft_values_keeps)
  next
    case 6
    then show ?thesis using body nxt att by (auto dest!: node_compare_soft_keeps)
  qed
qed

lemma plan_steps_pos: "0 < plan_steps n st"
  by (cases n) simp_all

lemma run_plan_fuel:
  "plan_pre n st \<Longrightarrow> ts_max_attempts st \<le> 2 \<Longrightarrow> bounded_attempts cf \<Longrightarrow> plan_steps n st \<le> k \<Longrightarrow> run_plan k cf gws n st \<noteq> None"
proof (induction k arbitrary: n st)
  case 0
  then show ?case using plan_steps_pos [of n st] by simp
next
  case (Suc k)
  have "run_plan k cf gws n' st' \<noteq> None" if "plan_node_body cf (gws k) n st = Inr st'" "plan_next cf n st' = Some n'" for n' st'
    using plan_step [OF that Suc.prems(1-3)] Suc.prems(3,4) by (intro Suc.IH) auto
  then show ?case by (auto split: sum.splits option.splits)
qed

text \<open>
  C15. Planning ends. Whatever the search, the routes, the solver and the critic answer, and
  however they change between calls, a run of the planning graph ends or fails within
  \<open>30 + 8 * max_replan_rounds\<close> nodes.
\<close>

theorem planning_comes_to_an_end:
  assumes "critic_policy_post_init (pc_critic cf) = Inr (pc_critic cf)" and "request_ok r"
  shows "run_plan (30 + 8 * nat (rq_max_rounds r) + k) cf gws G_guard (initial_planning_state r thread) \<noteq> None"
proof (rule run_plan_fuel)
  show "bounded_attempts cf" using assms(1) by (auto simp: bounded_attempts_def critic_policy_post_init_def split: if_splits)
qed (simp_all add: initial_planning_state_def rounds_left_def planning_round_def)

section \<open>A sample configuration\<close>

definition plain_planning :: planning_config where
  "plain_planning = \<lparr>pc_sha = (\<lambda>s. s), pc_day_json = (\<lambda>d. isoformat (day_date d)), pc_chars = (\<lambda>es. 100 * int (length es)),
     pc_metres = (\<lambda>a b. 1000), pc_policy = default_policy, pc_defaults = Assume_with_warning,
     pc_budget = default_optimization_budget, pc_critic = default_critic_policy, pc_evidence = default_evidence_budget,
     pc_skip_validator = False, pc_force_heuristic = True, pc_skip_soft_critic = False, pc_full_replan = False,
     pc_specialists = None\<rparr>"

definition empty_handed :: planning_services where
  "empty_handed = \<lparr>gw_search = map (\<lambda>q. tool_success [] ''mock'' None None False 1 None), gw_routes = (\<lambda>qs. []),
     gw_optimizer = (\<lambda>pb. Inl Solver_timeout), gw_elapsed_ms = 1, gw_critic = None,
     gw_context_chars = (\<lambda>x. 1000), gw_output_chars = (\<lambda>x. 1000)\<rparr>"

lemma default_critic_policy_accepted: "critic_policy_post_init default_critic_policy = Inr default_critic_policy"
  by code_simp

theorem planning_comes_to_an_end_witness:
  "run_plan 46 plain_planning (\<lambda>k. empty_handed) G_guard
     (initial_planning_state \<lparr>rq_trip = sample_trip, rq_max_rounds = 2\<rparr> ''planning:1'') \<noteq> None"
  using planning_comes_to_an_end [of plain_planning "\<lparr>rq_trip = sample_trip, rq_max_rounds = 2\<rparr>" 0]
    default_critic_policy_accepted
  by (simp add: plain_planning_def request_ok_def)

end
