(* ===== verification/PlanningSafety.thy ===== *)
theory PlanningSafety
  imports PlanningTermination PlanSchedulability
begin

text \<open>
  What a finished run of the planning graph promises. The contract of an invariant of the graph
  is the locale \<open>graph_invariant\<close>; it is interpreted for the candidates (everything that is
  selected has been validated against the trip), for the repair history (no round is exceeded
  and no repair tried twice) and for the soft repair (accepted with the demanded improvement, or
  undone without a trace).
\<close>

section \<open>Invariants of the graph\<close>

locale graph_invariant =
  fixes cf :: planning_config
    and inv :: "plan_node \<Rightarrow> travel_state \<Rightarrow> bool"
    and final :: "travel_state \<Rightarrow> bool"
  assumes step: "inv n st \<Longrightarrow> plan_node_body cf gw n st = Inr st' \<Longrightarrow> plan_next cf n st' = Some n' \<Longrightarrow> inv n' st'"
    and stop: "inv n st \<Longrightarrow> plan_node_body cf gw n st = Inr st' \<Longrightarrow> plan_next cf n st' = None \<Longrightarrow> final st'"
begin

lemma run_final: "run_plan k cf gws n st = Some (Inr st') \<Longrightarrow> inv n st \<Longrightarrow> final st'"
proof (induction k arbitrary: n st)
  case (Suc k)
  obtain st1 where body: "plan_node_body cf (gws k) n st = Inr st1"
    using Suc.prems(1) by (cases "plan_node_body cf (gws k) n st") simp_all
  show ?case
  proof (cases "plan_next cf n st1")
    case None
    then show ?thesis using Suc.prems body stop by simp
  next
    case (Some n')
    then show ?thesis using Suc.prems body step by (intro Suc.IH [of n' st1]) simp_all
  qed
qed simp

lemma workflow_final:
  "run_workflow cf gws r thread = Inr st \<Longrightarrow> inv G_guard (initial_planning_state r thread) \<Longrightarrow> final st"
  unfolding run_workflow_def by (auto split: option.splits dest: run_final)

end

section \<open>What nodes leave alone\<close>

definition plans_kept :: "travel_state \<Rightarrow> travel_state \<Rightarrow> bool" where
  "plans_kept st st' \<longleftrightarrow> ts_trip st' = ts_trip st \<and> ts_pois st' = ts_pois st \<and> ts_candidates st' = ts_candidates st \<and>
     ts_drafts st' = ts_drafts st \<and> ts_base_candidates st' = ts_base_candidates st \<and> ts_base_drafts st' = ts_base_drafts st"

definition still_node :: "plan_node \<Rightarrow> bool" where
  "still_node n \<longleftrightarrow> n \<notin> {G_resolve_facts, G_solve, G_materialize_optimized, G_materialize, G_materialize_soft, G_validate,
     G_apply_repair, G_soft_plan, G_apply_soft, G_restore_soft, G_compare_soft}"

lemma plans_kept_refl [simp]: "plans_kept st st"
  by (simp add: plans_kept_def)

lemma collect_delta_same: "collect_delta cf label st = Inr st' \<Longrightarrow> plans_kept st st'"
  by (auto simp: collect_delta_def plans_kept_def Let_def split: list.splits)

lemma load_delta_same: "load_delta gw label st = Inr st' \<Longrightarrow> plans_kept st st'"
  by (auto simp: load_delta_def plans_kept_def split: prod.splits)

lemma node_search_plan_same: "node_search_plan cf gw st = Inr st' \<Longrightarrow> plans_kept st st'"
  by (auto simp: node_search_plan_def plans_kept_def Let_def)

lemma node_load_pois_same: "node_load_pois cf gw st = Inr st' \<Longrightarrow> plans_kept st st'"
  by (auto simp: node_load_pois_def plans_kept_def Let_def split: option.splits if_splits)

lemma node_route_matrix_same: "node_route_matrix cf gw st = Inr st' \<Longrightarrow> plans_kept st st'"
  by (auto simp: node_route_matrix_def plans_kept_def Let_def split: prod.splits)

lemma node_problem_same: "node_problem cf st = Inr st' \<Longrightarrow> plans_kept st st'"
  by (auto simp: node_problem_def plans_kept_def Let_def split: sum.splits)

lemma node_repair_target_same: "node_repair_target cf st = Inr st' \<Longrightarrow> plans_kept st st'"
  by (auto simp: node_repair_target_def plans_kept_def Let_def)

lemma node_analyze_same: "node_analyze cf st = Inr st' \<Longrightarrow> plans_kept st st'"
  by (auto simp: node_analyze_def plans_kept_def Let_def)

lemma node_repair_plan_same: "node_repair_plan cf gw st = Inr st' \<Longrightarrow> plans_kept st st'"
  by (auto simp: node_repair_plan_def plans_kept_def Let_def)

lemma node_critic_context_same: "node_critic_context cf st = Inr st' \<Longrightarrow> plans_kept st st'"
  by (auto simp: node_critic_context_def plans_kept_def Let_def split: if_splits)

lemma node_check_grounding_same: "node_check_grounding st = Inr st' \<Longrightarrow> plans_kept st st'"
  by (auto simp: node_check_grounding_def plans_kept_def Let_def split: if_splits)

lemma node_quality_gate_same: "node_quality_gate cf st = Inr st' \<Longrightarrow> plans_kept st st'"
  by (auto simp: node_quality_gate_def plans_kept_def Let_def)

lemma node_select_quality_same: "node_select_quality st = Inr st' \<Longrightarrow> plans_kept st st'"
  by (auto simp: node_select_quality_def plans_kept_def Let_def)

lemma node_explain_same: "node_explain st = Inr st' \<Longrightarrow> plans_kept st st'"
  by (auto simp: node_explain_def plans_kept_def Let_def)

lemma node_select_best_same: "node_select_best st = Inr st' \<Longrightarrow> plans_kept st st'"
  by (auto simp: node_select_best_def plans_kept_def Let_def)

lemma node_infeasible_same: "node_infeasible st = Inr st' \<Longrightarrow> plans_kept st st'"
  by (auto simp: node_infeasible_def plans_kept_def Let_def)

lemma node_select_unvalidated_same: "node_select_unvalidated st = Inr st' \<Longrightarrow> plans_kept st st'"
  by (auto simp: node_select_unvalidated_def plans_kept_def Let_def split: if_splits)

lemma critic_answered_same [simp]: "plans_kept st (critic_answered cg q attempt outcome st)"
  by (cases outcome) (simp_all add: critic_answered_def critic_failed_def plans_kept_def)

lemma node_critic_same: "node_critic gw cf st = Inr st' \<Longrightarrow> plans_kept st st'"
  by (auto simp: node_critic_def Let_def plans_kept_def [of st "ts_status_update _ _"] split: option.split_asm)

lemmas node_same = node_search_plan_same node_load_pois_same node_route_matrix_same node_problem_same node_repair_target_same node_analyze_same node_repair_plan_same node_critic_context_same node_check_grounding_same node_quality_gate_same node_select_quality_same node_explain_same node_select_best_same node_infeasible_same node_select_unvalidated_same node_critic_same collect_delta_same load_delta_same

lemma still_node_same: "plan_node_body cf gw n st = Inr st' \<Longrightarrow> still_node n \<Longrightarrow> plans_kept st st'"
  by (cases n) (auto simp: still_node_def node_collect_delta_def node_load_delta_def node_collect_soft_delta_def
      node_load_soft_delta_def dest: node_same)

section \<open>The candidates\<close>

definition checked :: "travel_state \<Rightarrow> plan_candidate \<Rightarrow> bool" where
  "checked st c \<longleftrightarrow> validation c = Some (validate_candidate (ts_trip st) c (map Planning_poi (ts_pois st)))"

definition checked_list :: "travel_state \<Rightarrow> plan_candidate list \<Rightarrow> candidate_draft list \<Rightarrow> bool" where
  "checked_list st cs ds \<longleftrightarrow> (\<forall>c \<in> set cs. checked st c) \<and> map cand_id cs = map draft_id ds"

lemma checked_list_Nil [simp]: "checked_list st [] []"
  by (simp add: checked_list_def)

lemma checked_list_same: "plans_kept st st' \<Longrightarrow> checked_list st' cs ds = checked_list st cs ds"
  by (simp add: plans_kept_def checked_list_def checked_def)

lemma validate_candidate_validation [simp]: "validate_candidate trip (c\<lparr>validation := v\<rparr>) pois = validate_candidate trip c pois"
  by (simp add: validate_candidate_def coverage_checks_def budget_checks_def assumption_warnings_def activities_def all_items_def dated_items_def Let_def
      cong: option.case_cong)

lemma checked_list_with_validation:
  "ts_trip st' = ts_trip st \<Longrightarrow> ts_pois st' = ts_pois st \<Longrightarrow> map cand_id cs = map draft_id ds \<Longrightarrow>
     checked_list st' (map (with_validation (ts_trip st) (ts_pois st)) cs) ds"
  by (auto simp: checked_list_def checked_def with_validation_def o_def)

lemma checked_list_merged:
  assumes "checked_list st base base_ds" and "checked_list st cs ds"
  shows "checked_list st (merged cand_id target base cs) (merged draft_id target base_ds ds)"
proof -
  have "map cand_id (filter (\<lambda>c. cand_id c \<noteq> target) base) = filter (\<lambda>x. x \<noteq> target) (map cand_id base)"
    by (simp add: filter_map o_def)
  also have "\<dots> = map draft_id (filter (\<lambda>d. draft_id d \<noteq> target) base_ds)"
    using assms(1) by (simp add: checked_list_def filter_map o_def)
  finally show ?thesis using assms by (auto simp: checked_list_def merged_def)
qed

lemma materialize_candidate_id: "materialize_candidate metres trip rs ps routes d = Inr c \<Longrightarrow> cand_id c = draft_id d"
  by (auto simp: materialize_candidate_def Let_def)

lemma materialize_candidates_ids:
  assumes "materialize_candidates metres trip ds pois routes rs = Inr cs"
  shows "map cand_id cs = map draft_id ds"
proof -
  have "list_all2 (\<lambda>d c. materialize_candidate metres trip rs (dict_of (map (\<lambda>p. (poi_id_of p, p)) pois)) routes d = Inr c) ds cs"
    using assms by (auto simp: materialize_candidates_def Let_def fold_res_collect
        split: sum.split_asm option.split_asm missing_planning_poi.split_asm)
  then show ?thesis by (induction rule: list_all2_induct) (auto simp: materialize_candidate_id)
qed

definition setup_node :: "plan_node \<Rightarrow> bool" where
  "setup_node n \<longleftrightarrow> n \<in> {G_guard, G_search_plan, G_load_pois, G_resolve_facts, G_route_matrix, G_problem, G_solve,
     G_materialize_optimized}"

definition checked_node :: "plan_node \<Rightarrow> bool" where
  "checked_node n \<longleftrightarrow> n \<in> {G_repair_target, G_analyze, G_repair_plan, G_critic_context, G_critic, G_check_grounding,
     G_quality_gate, G_soft_plan, G_restore_soft, G_compare_soft, G_select_quality, G_explain, G_select_best, G_infeasible}"

definition undelivered_node :: "plan_node \<Rightarrow> bool" where
  "undelivered_node n \<longleftrightarrow> n \<in> {G_repair_target, G_analyze, G_repair_plan, G_infeasible}"

lemmas node_sets = setup_node_def checked_node_def undelivered_node_def still_node_def

definition selects_deliverable :: "travel_state \<Rightarrow> bool" where
  "selects_deliverable st \<longleftrightarrow> (\<exists>c \<in> set (deliverable_candidates st). ts_selected st = Some c)"

definition candidates_inv :: "plan_node \<Rightarrow> travel_state \<Rightarrow> bool" where
  "candidates_inv n st \<longleftrightarrow> n \<noteq> G_select_unvalidated \<and>
     (setup_node n \<longrightarrow> ts_base_candidates st = [] \<and> ts_base_drafts st = []) \<and>
     checked_list st (ts_base_candidates st) (ts_base_drafts st) \<and>
     (n = G_validate \<longrightarrow> map cand_id (ts_candidates st) = map draft_id (ts_drafts st)) \<and>
     (checked_node n \<longrightarrow> checked_list st (ts_candidates st) (ts_drafts st)) \<and>
     (undelivered_node n \<longrightarrow> deliverable_candidates st = []) \<and>
     (n = G_explain \<longrightarrow> selects_deliverable st)"

definition candidates_final :: "travel_state \<Rightarrow> bool" where
  "candidates_final st \<longleftrightarrow> checked_list st (ts_candidates st) (ts_drafts st) \<and>
     (ts_status st = ''completed'' \<and> selects_deliverable st \<or>
      ts_status st = ''infeasible'' \<and> ts_selected st = None \<and> deliverable_candidates st = [])"

lemma deliverable_candidates_same: "plans_kept st st' \<Longrightarrow> deliverable_candidates st' = deliverable_candidates st"
  by (simp add: plans_kept_def deliverable_candidates_def)

lemma min_candidate_in: "min_candidate key cs = Inr c \<Longrightarrow> c \<in> set cs"
  using min_by_in [of key] by (auto simp: min_candidate_def split: list.split_asm)

lemma best_by_quality_in: "best_by_quality scores cs = Inr c \<Longrightarrow> c \<in> set cs"
  using min_by_in [of "quality_key scores"] by (auto simp: best_by_quality_def select_by_quality_def split: list.split_asm option.split_asm)

lemma node_select_quality_selects: "node_select_quality st = Inr st' \<Longrightarrow> selects_deliverable st'"
  by (auto simp: node_select_quality_def selects_deliverable_def deliverable_candidates_def select_best_candidate_def
      dest!: min_candidate_in best_by_quality_in split: if_split_asm)

lemma node_explain_final:
  "node_explain st = Inr st' \<Longrightarrow> selects_deliverable st \<Longrightarrow> ts_status st' = ''completed'' \<and> selects_deliverable st'"
  by (auto simp: node_explain_def selects_deliverable_def deliverable_candidates_def)

lemma node_select_best_final: "node_select_best st = Inr st' \<Longrightarrow> ts_status st' = ''completed'' \<and> selects_deliverable st'"
  by (auto simp: node_select_best_def selects_deliverable_def deliverable_candidates_def select_best_candidate_def dest!: min_candidate_in)

lemma node_infeasible_final: "node_infeasible st = Inr st' \<Longrightarrow> ts_status st' = ''infeasible'' \<and> ts_selected st' = None"
  by (auto simp: node_infeasible_def)

text \<open>The nodes that change plans.\<close>

lemma node_validate_plans:
  "node_validate cf st = Inr st' \<Longrightarrow>
     ts_trip st' = ts_trip st \<and> ts_pois st' = ts_pois st \<and> ts_drafts st' = ts_drafts st \<and>
     ts_base_candidates st' = ts_base_candidates st \<and> ts_base_drafts st' = ts_base_drafts st \<and>
     ts_candidates st' = map (with_validation (ts_trip st) (ts_pois st)) (ts_candidates st)"
  by (auto simp: node_validate_def finish_round_def Let_def split: option.split_asm list.split_asm)

lemma node_materialize_plans:
  "node_materialize cf st = Inr st' \<Longrightarrow>
     ts_trip st' = ts_trip st \<and> ts_pois st' = ts_pois st \<and> ts_drafts st' = ts_drafts st \<and>
     ts_base_candidates st' = ts_base_candidates st \<and> ts_base_drafts st' = ts_base_drafts st \<and>
     map cand_id (ts_candidates st') = map draft_id (ts_drafts st)"
  by (auto simp: node_materialize_def dest: materialize_candidates_ids)

lemma setup_plans:
  "node_resolve_facts cf st = Inr st' \<or> node_solve cf gw st = Inr st' \<Longrightarrow>
     ts_base_candidates st' = ts_base_candidates st \<and> ts_base_drafts st' = ts_base_drafts st"
  by (auto simp: node_resolve_facts_def node_solve_def Let_def)

lemma apply_plans:
  "node_apply_repair cf st = Inr st' \<or> node_apply_soft cf st = Inr st' \<Longrightarrow>
     ts_trip st' = ts_trip st \<and> ts_pois st' = ts_pois st \<and>
     ts_base_candidates st' = ts_base_candidates st \<and> ts_base_drafts st' = ts_base_drafts st"
  by (auto simp: node_apply_repair_def node_apply_soft_def)

lemma node_soft_plan_plans:
  "node_soft_plan cf st = Inr st' \<Longrightarrow>
     ts_trip st' = ts_trip st \<and> ts_pois st' = ts_pois st \<and> ts_candidates st' = ts_candidates st \<and> ts_drafts st' = ts_drafts st \<and>
     ((ts_base_candidates st', ts_base_drafts st') \<in> {([], []), (ts_candidates st, ts_drafts st)})"
  by (auto simp: node_soft_plan_def with_soft_plan_def save_baseline_def clear_baseline_def split: sum.split)

lemma restore_soft_values_plans:
  "restore_soft_values reason passed aft st = Inr st' \<Longrightarrow>
     ts_trip st' = ts_trip st \<and> ts_pois st' = ts_pois st \<and> ts_candidates st' = ts_base_candidates st \<and>
     ts_drafts st' = ts_base_drafts st \<and> ts_base_candidates st' = [] \<and> ts_base_drafts st' = []"
  by (auto simp: restore_soft_values_def clear_baseline_def)

lemma accept_soft_plans:
  "ts_trip (accept_soft plan before aft st) = ts_trip st" "ts_pois (accept_soft plan before aft st) = ts_pois st"
  "ts_candidates (accept_soft plan before aft st) = merged cand_id (sr_target plan) (ts_base_candidates st) (ts_candidates st)"
  "ts_drafts (accept_soft plan before aft st) = merged draft_id (sr_target plan) (ts_base_drafts st) (ts_drafts st)"
  "ts_base_candidates (accept_soft plan before aft st) = []" "ts_base_drafts (accept_soft plan before aft st) = []"
  by (simp_all add: accept_soft_def clear_baseline_def)

lemma node_compare_soft_cases:
  assumes "node_compare_soft cf st = Inr st'"
  obtains plan before aft where "ts_soft_plan st = Some plan" "before_score st plan = Inr before" "soft_accepted cf st before aft"
      "st' = accept_soft plan before aft st"
  | reason aft where "restore_soft_values reason True aft st = Inr st'"
  using assms by (auto simp: node_compare_soft_def Let_def split: option.split_asm if_split_asm)

lemma checked_list_cong: "ts_trip st' = ts_trip st \<Longrightarrow> ts_pois st' = ts_pois st \<Longrightarrow> checked_list st' cs ds = checked_list st cs ds"
  by (simp add: checked_list_def checked_def)

lemma still_next:
  "plan_next cf n st = Some n' \<Longrightarrow> still_node n \<Longrightarrow>
     n' \<noteq> G_select_unvalidated \<and> n' \<noteq> G_validate \<and> (setup_node n' \<longrightarrow> setup_node n) \<and> (checked_node n' \<longrightarrow> checked_node n) \<and>
     (undelivered_node n' \<longrightarrow> undelivered_node n) \<and> (n' = G_explain \<longrightarrow> n = G_select_quality)"
  by (cases n) (auto simp: node_sets plan_route_defs split: if_split_asm option.split_asm)

lemma still_step:
  assumes inv: "candidates_inv n st" and body: "plan_node_body cf gw n st = Inr st'" and still: "still_node n"
    and nxt: "plan_next cf n st' = Some n'"
  shows "candidates_inv n' st'"
proof -
  note same = still_node_same [OF body still] and sets = still_next [OF nxt still]
  have eq: "checked_list st' cs ds = checked_list st cs ds" "deliverable_candidates st' = deliverable_candidates st"
      "ts_candidates st' = ts_candidates st" "ts_drafts st' = ts_drafts st"
      "ts_base_candidates st' = ts_base_candidates st" "ts_base_drafts st' = ts_base_drafts st" for cs ds
    using same checked_list_same [OF same] deliverable_candidates_same [OF same] by (simp_all add: plans_kept_def)
  have "selects_deliverable st'" if "n' = G_explain"
    using that body sets node_select_quality_selects [of st st'] by simp
  then show ?thesis using inv sets unfolding candidates_inv_def eq by blast
qed

lemma validate_candidates_step:
  assumes inv: "candidates_inv G_validate st" and body: "node_validate cf st = Inr st'" and nxt: "plan_next cf G_validate st' = Some n'"
  shows "candidates_inv n' st'"
proof -
  note plans = node_validate_plans [OF body]
  have "checked_list st' (ts_candidates st') (ts_drafts st')"
    using inv plans by (simp add: checked_list_with_validation candidates_inv_def)
  moreover have "checked_list st' (ts_base_candidates st') (ts_base_drafts st')"
    using inv plans checked_list_cong [of st' st] by (simp add: candidates_inv_def)
  ultimately show ?thesis using nxt unfolding candidates_inv_def
    by (auto simp: node_sets plan_route_defs split: if_split_asm)
qed

lemma merged_step:
  assumes inv: "candidates_inv G_compare_soft st" and body: "node_compare_soft cf st = Inr st'"
  shows "candidates_inv G_select_quality st'"
  using body
proof (cases rule: node_compare_soft_cases)
  case (1 plan before aft)
  have "checked_list st (merged cand_id (sr_target plan) (ts_base_candidates st) (ts_candidates st))
      (merged draft_id (sr_target plan) (ts_base_drafts st) (ts_drafts st))"
    using inv by (intro checked_list_merged) (simp_all add: candidates_inv_def node_sets)
  then show ?thesis using checked_list_cong [OF accept_soft_plans(1,2)]
    by (simp add: 1(4) candidates_inv_def node_sets accept_soft_plans)
next
  case (2 reason aft)
  note plans = restore_soft_values_plans [OF 2]
  show ?thesis using inv plans checked_list_cong [of st' st] by (simp add: candidates_inv_def node_sets)
qed

lemma candidates_step:
  assumes "\<not> pc_skip_validator cf" and inv: "candidates_inv n st" and body: "plan_node_body cf gw n st = Inr st'"
    and nxt: "plan_next cf n st' = Some n'"
  shows "candidates_inv n' st'"
proof (cases "still_node n")
  case True
  then show ?thesis using still_step [OF inv body _ nxt] by simp
next
  case False
  then consider "n = G_resolve_facts" | "n = G_solve" | "n \<in> {G_materialize_optimized, G_materialize, G_materialize_soft}"
    | "n = G_validate" | "n = G_apply_repair" | "n = G_apply_soft" | "n = G_soft_plan" | "n = G_restore_soft" | "n = G_compare_soft"
    by (auto simp: still_node_def)
  then show ?thesis
  proof cases
    case 1
    then show ?thesis using inv body nxt setup_plans [of cf st st' gw] by (auto simp: candidates_inv_def node_sets)
  next
    case 2
    then show ?thesis using inv body nxt setup_plans [of cf st st' gw] by (auto simp: candidates_inv_def node_sets)
  next
    case 3
    then have "node_materialize cf st = Inr st'" and "n' = G_validate" using body nxt assms(1) by (auto simp: validation_target_def)
    then show ?thesis using inv node_materialize_plans [of cf st st'] checked_list_cong [of st' st]
      by (simp add: candidates_inv_def node_sets)
  next
    case 4
    then show ?thesis using inv body nxt validate_candidates_step by simp
  next
    case 5
    then show ?thesis using inv body nxt apply_plans [of cf st st'] checked_list_cong [of st' st] by (simp add: candidates_inv_def node_sets)
  next
    case 6
    then show ?thesis using inv body nxt apply_plans [of cf st st'] checked_list_cong [of st' st] by (simp add: candidates_inv_def node_sets)
  next
    case 7
    then have "node_soft_plan cf st = Inr st'" using body by simp
    note plans = node_soft_plan_plans [OF this]
    have "n' \<in> {G_apply_soft, G_select_quality}" using 7 nxt by (auto simp: route_after_soft_plan_def split: if_split_asm)
    then show ?thesis using 7 inv plans checked_list_cong [of st' st] by (auto simp: candidates_inv_def node_sets)
  next
    case 8
    then have "restore_soft_values ''hard_validation_failed'' False None st = Inr st'" using body by (simp add: node_restore_soft_def)
    note plans = restore_soft_values_plans [OF this]
    show ?thesis using 8 inv nxt plans checked_list_cong [of st' st] by (auto simp: candidates_inv_def node_sets)
  next
    case 9
    then show ?thesis using inv body nxt merged_step by simp
  qed
qed

lemma candidates_stop:
  assumes inv: "candidates_inv n st" and body: "plan_node_body cf gw n st = Inr st'" and nxt: "plan_next cf n st' = None"
  shows "candidates_final st'"
proof -
  have n: "n \<in> {G_explain, G_select_best, G_infeasible}" using inv nxt by (cases n) (simp_all add: candidates_inv_def)
  then have "still_node n" by (auto simp: still_node_def)
  note same = still_node_same [OF body this]
  have "checked_list st' (ts_candidates st') (ts_drafts st')"
    using inv n checked_list_same [OF same] same by (auto simp: candidates_inv_def node_sets plans_kept_def)
  moreover have "deliverable_candidates st' = []" if "n = G_infeasible"
    using that inv deliverable_candidates_same [OF same] by (simp add: candidates_inv_def undelivered_node_def)
  moreover have "selects_deliverable st" if "n = G_explain" using that inv by (simp add: candidates_inv_def)
  ultimately show ?thesis
    using n body node_explain_final [of st st'] node_select_best_final [of st st'] node_infeasible_final [of st st']
    unfolding candidates_final_def by auto
qed

text \<open>The contract for the configurations that \<open>build_workflow\<close> is used with outside of evaluation.\<close>

definition validating :: "planning_config \<Rightarrow> planning_config" where
  "validating cf = cf\<lparr>pc_skip_validator := False\<rparr>"

lemma validating_id: "\<not> pc_skip_validator cf \<Longrightarrow> validating cf = cf"
  by (simp add: validating_def)

interpretation plans: graph_invariant "validating cf" candidates_inv candidates_final for cf
proof unfold_locales
  show "candidates_inv n' st'" if "candidates_inv n st" "plan_node_body (validating cf) gw n st = Inr st'"
      "plan_next (validating cf) n st' = Some n'" for n st gw st' n'
    using candidates_step [OF _ that] by (simp add: validating_def)
  show "candidates_final st'" if "candidates_inv n st" "plan_node_body (validating cf) gw n st = Inr st'"
      "plan_next (validating cf) n st' = None" for n st gw st'
    using candidates_stop [OF that] .
qed

text \<open>
  C8. Planning delivers only validated plans. When a run with the validator ends, either it has
  completed with a selected plan that is among its candidates and that the validator accepts
  for the trip and its places, or it reports infeasibility, has selected nothing, and the
  validator accepts none of its candidates. Either way every candidate carries its current validation
  result and there is a draft for each.
\<close>

theorem planning_delivers_validated_plans:
  assumes run: "run_workflow cf gws r thread = Inr st" and "\<not> pc_skip_validator cf"
  shows "(\<forall>c \<in> set (ts_candidates st). validation c = Some (validate_candidate (ts_trip st) c (map Planning_poi (ts_pois st)))) \<and>
     map cand_id (ts_candidates st) = map draft_id (ts_drafts st) \<and>
     (ts_status st = ''completed'' \<and> (\<exists>c \<in> set (ts_candidates st). ts_selected st = Some c \<and> deliverable c) \<or>
      ts_status st = ''infeasible'' \<and> ts_selected st = None \<and> (\<forall>c \<in> set (ts_candidates st). \<not> deliverable c))"
proof -
  have "candidates_inv G_guard (initial_planning_state r thread)"
    by (simp add: candidates_inv_def node_sets initial_planning_state_def)
  then have "candidates_final st" using plans.workflow_final [of cf gws r thread st] run validating_id [OF assms(2)] by simp
  then show ?thesis
    by (auto simp: candidates_final_def checked_list_def checked_def selects_deliverable_def deliverable_candidates_def filter_empty_conv)
qed

section \<open>A run without any place\<close>

definition empty_request :: planning_request where
  "empty_request = \<lparr>rq_trip = sample_trip, rq_max_rounds = 2\<rparr>"

definition searched :: "poi_search_query list \<Rightarrow> travel_state" where
  "searched qs = (initial_planning_state empty_request ''planning:1'')\<lparr>ts_queries := qs, ts_max_soft := 1,
     ts_max_attempts := 2, ts_status := ''search_planned''\<rparr>"

lemma search_step:
  "\<exists>qs. node_search_plan plain_planning empty_handed (initial_planning_state empty_request ''planning:1'') = Inr (searched qs)"
proof -
  have "build_search_plan sample_trip 10 12 = Inr (search_loop sample_trip 10 12 (search_wishes sample_trip) [] [])"
    by code_simp
  then show ?thesis
    by (simp add: node_search_plan_def planner_context_def hand_off_def plain_planning_def default_policy_def
        initial_planning_state_def empty_request_def searched_def default_critic_policy_def)
qed

lemma gather_nothing: "\<forall>r \<in> set rs. tr_data r = Some [] \<Longrightarrow> gather_results limit [] rs = Inr []"
  by (induction rs) simp_all

definition without_places :: "travel_state \<Rightarrow> bool" where
  "without_places st \<longleftrightarrow> ts_trip st = sample_trip \<and> ts_facts st = [] \<and> ts_pois st = [] \<and> ts_soft_pending st = None \<and>
     ts_pending_round st = None"

lemma load_step: "\<exists>st. node_load_pois plain_planning empty_handed (searched qs) = Inr st \<and> without_places st"
proof -
  let ?rs = "gw_search empty_handed qs"
  have none: "\<forall>r \<in> set ?rs. tr_data r = Some [] \<and> tr_status r = Tool_success" and len: "length ?rs = length qs"
    by (simp_all add: empty_handed_def tool_success_def)
  have "gather_results limit [] (map snd (sort_key f (zip qs ?rs))) = Inr []" for f :: "poi_search_query \<times> _ \<Rightarrow> int" and limit
    using none by (intro gather_nothing) (auto dest: set_zip_rightD)
  moreover have "List.find (\<lambda>r. tr_status r = Tool_failed) ?rs = None" using none by (auto simp: find_None_iff)
  ultimately show ?thesis
    using len by (simp add: node_load_pois_def searched_def without_places_def initial_planning_state_def empty_request_def)
qed

lemma empty_steps:
  assumes "without_places st"
  shows "\<exists>st'. node_resolve_facts plain_planning st = Inr st' \<and> without_places st'"
    and "\<exists>st'. node_route_matrix plain_planning empty_handed st = Inr st' \<and> without_places st' \<and> ts_opt_pois st' = []"
    and "ts_opt_pois st = [] \<Longrightarrow> \<exists>st'. node_problem plain_planning st = Inr st' \<and> without_places st' \<and> ts_opt_pois st' = [] \<and> ts_problem st' \<noteq> None"
  using assms
  by (auto simp: node_resolve_facts_def without_places_def node_route_matrix_def Let_def select_optimization_pois_def empty_handed_def
     collect_route_matrix_queries_def routes_of_def map_filter_def node_problem_def build_optimization_problem_def)

definition blank_drafts :: "candidate_draft list \<Rightarrow> bool" where
  "blank_drafts ds \<longleftrightarrow> ds \<noteq> [] \<and> (\<forall>d \<in> set ds. \<forall>day \<in> set (draft_days d). poi_ids day = [])"

lemma solve_step:
  assumes "without_places st" "ts_opt_pois st = []" "ts_problem st \<noteq> None"
  shows "\<exists>st'. node_solve plain_planning empty_handed st = Inr st' \<and> without_places st' \<and> blank_drafts (ts_drafts st')"
proof -
  have "blank_drafts (prepare_candidate_drafts metres trip [] 0)" for metres trip
    by (auto simp: blank_drafts_def prepare_candidate_drafts_def draft_for_style_def select_pois_def day_bucket_def order_nearest_def
        nearest_chain.simps Let_def)
  then show ?thesis using assms
    by (auto simp: node_solve_def variants_for_def optimize_def plain_planning_def without_places_def Let_def)
qed

lemma blank_candidate:
  assumes "materialize_candidate metres trip rs ps routes d = Inr c" and "\<forall>day \<in> set (draft_days d). poi_ids day = []"
  shows "all_items c = []"
proof -
  have "fold_res (\<lambda>dd done. bind_res (materialize_day metres trip rs ps routes dd) (\<lambda>day. Inr (done @ [day]))) (draft_days d) [] = Inr sch
      \<Longrightarrow> \<forall>x \<in> set sch. items (fst x) = []" for sch
    unfolding fold_res_collect using assms(2)
    by (auto dest!: list_all2_in simp: materialize_day_def day_plan_of_def start_schedule_def Let_def)
  then show ?thesis using assms(1) by (auto simp: materialize_candidate_def all_items_def Let_def)
qed

lemma blank_materialize_step:
  assumes "without_places st" "blank_drafts (ts_drafts st)"
  shows "\<exists>st'. node_materialize plain_planning st = Inr st' \<and> without_places st' \<and> (\<forall>c \<in> set (ts_candidates st'). all_items c = [])"
proof -
  let ?rs = "planning_routes plain_planning"
  have "\<exists>cs. materialize_candidates metres sample_trip (ts_drafts st) [] routes ?rs = Inr cs" for metres routes
    using assms(2) by (subst materialize_candidates_iff)
      (auto simp: planning_routes_def active_modes_def plain_planning_def default_policy_def policy_route_modes_def blank_drafts_def
        draft_route_keys_def)
  then obtain cs where cs: "materialize_candidates (pc_metres plain_planning) sample_trip (ts_drafts st) [] (ts_routes st) ?rs = Inr cs" by blast
  have "all_items c = []" if "c \<in> set cs" for c
    using materialize_candidates_result [OF cs that] assms(2) blank_candidate by (fastforce simp: blank_drafts_def)
  then show ?thesis using assms(1) cs by (auto simp: node_materialize_def without_places_def)
qed

lemma blank_not_deliverable: "all_items c = [] \<Longrightarrow> \<not> deliverable (with_validation trip pois c)"
proof -
  assume "all_items c = []"
  then have "\<exists>v \<in> set (coverage_checks trip c). severity v = Error"
    by (simp add: coverage_checks_def activities_def plan_error_def)
  then show ?thesis
    by (auto simp: deliverable_def with_validation_def validate_candidate_def from_violations_def status_from_violations_def Let_def
        split: prod.splits if_splits)
qed

lemma blank_validate_step:
  assumes "without_places st" "\<forall>c \<in> set (ts_candidates st). all_items c = []"
  shows "\<exists>st'. node_validate plain_planning st = Inr st' \<and> plan_next plain_planning G_validate st' = Some G_infeasible"
proof -
  have "deliverable_candidates (st\<lparr>ts_candidates := map (with_validation (ts_trip st) (ts_pois st)) (ts_candidates st), ts_status := l\<rparr>) = []" for l
    using assms(2) by (auto simp: deliverable_candidates_def filter_empty_conv blank_not_deliverable)
  then show ?thesis using assms
    by (simp add: node_validate_def check_soft_round_def finish_round_def without_places_def Let_def plan_route_defs plain_planning_def)
qed

lemma run_plan_step:
  "plan_node_body cf (gws k) n st = Inr st' \<Longrightarrow> plan_next cf n st' = Some n' \<Longrightarrow> run_plan (Suc k) cf gws n st = run_plan k cf gws n' st'"
  by simp

lemma run_plan_last:
  "plan_node_body cf (gws k) n st = Inr st' \<Longrightarrow> plan_next cf n st' = None \<Longrightarrow> run_plan (Suc k) cf gws n st = Some (Inr st')"
  by simp

lemma run_without_places: "\<exists>st. run_workflow plain_planning (\<lambda>k. empty_handed) empty_request ''planning:1'' = Inr st"
proof -
  let ?run = "\<lambda>k. run_plan k plain_planning (\<lambda>k. empty_handed)"
  obtain qs where s1: "node_search_plan plain_planning empty_handed (initial_planning_state empty_request ''planning:1'') = Inr (searched qs)"
    using search_step by blast
  obtain st2 where s2: "node_load_pois plain_planning empty_handed (searched qs) = Inr st2" "without_places st2"
    using load_step by blast
  obtain st3 where s3: "node_resolve_facts plain_planning st2 = Inr st3" "without_places st3" using empty_steps(1) s2(2) by blast
  obtain st4 where s4: "node_route_matrix plain_planning empty_handed st3 = Inr st4" "without_places st4" "ts_opt_pois st4 = []"
    using empty_steps(2) s3(2) by blast
  obtain st5 where s5: "node_problem plain_planning st4 = Inr st5" "without_places st5" "ts_opt_pois st5 = []" "ts_problem st5 \<noteq> None"
    using empty_steps(3) s4(2,3) by blast
  obtain st6 where s6: "node_solve plain_planning empty_handed st5 = Inr st6" "without_places st6" "blank_drafts (ts_drafts st6)"
    using solve_step s5(2-4) by blast
  obtain st7 where s7: "node_materialize plain_planning st6 = Inr st7" "without_places st7" "\<forall>c \<in> set (ts_candidates st7). all_items c = []"
    using blank_materialize_step s6(2,3) by blast
  obtain st8 where s8: "node_validate plain_planning st7 = Inr st8" "plan_next plain_planning G_validate st8 = Some G_infeasible"
    using blank_validate_step s7(2,3) by blast
  have last: "plan_next plain_planning G_materialize_optimized st7 = Some G_validate" by (simp add: validation_target_def plain_planning_def)
  obtain st9 where s9: "node_infeasible st8 = Inr st9" by (simp add: node_infeasible_def)
  have "?run (Suc (Suc (Suc (Suc (Suc (Suc (Suc (Suc (Suc (Suc k)))))))))) G_guard (initial_planning_state empty_request ''planning:1'') = Some (Inr st9)" for k
    using s1 s2(1) s3(1) s4(1) s5(1) s6(1) s7(1) s8 s9 last by (simp del: plan_next.simps(8,10))
  from this [of 30] show ?thesis
    by (simp add: run_workflow_def planning_recursion_limit_def empty_request_def)
qed

theorem planning_delivers_validated_plans_witness:
  "\<exists>st. run_workflow plain_planning (\<lambda>k. empty_handed) empty_request ''planning:1'' = Inr st \<and>
     map cand_id (ts_candidates st) = map draft_id (ts_drafts st)"
proof -
  obtain st where run: "run_workflow plain_planning (\<lambda>k. empty_handed) empty_request ''planning:1'' = Inr st"
    using run_without_places by blast
  then show ?thesis using planning_delivers_validated_plans [OF run] by (auto simp: plain_planning_def)
qed

end
