(* ===== verification/PlanningRepair.thy ===== *)
theory PlanningRepair
  imports PlanningSafety
begin

text \<open>
  What a run of the planning graph promises about its hard repairs (rounds are numbered, never
  exceed the limit, never try an action twice and never start twice from the same violations).
\<close>

section \<open>Hard repair\<close>

definition same_history :: "travel_state \<Rightarrow> travel_state \<Rightarrow> bool" where
  "same_history st st' \<longleftrightarrow> ts_history st' = ts_history st \<and> ts_iterations st' = ts_iterations st \<and>
     ts_max_rounds st' = ts_max_rounds st"

lemma same_history_refl [simp]: "same_history st st"
  by (simp add: same_history_def)

lemma collect_delta_history:
  "collect_delta cf label st = Inr st' \<Longrightarrow> same_history st st' \<and> ts_report st' = ts_report st \<and> ts_repair_plan st' = ts_repair_plan st"
  by (auto simp: collect_delta_def same_history_def Let_def split: list.splits)

lemma load_delta_history:
  "load_delta gw label st = Inr st' \<Longrightarrow> same_history st st' \<and> ts_report st' = ts_report st \<and> ts_repair_plan st' = ts_repair_plan st"
  by (auto simp: load_delta_def same_history_def split: prod.splits)

lemma node_materialize_history:
  "node_materialize cf st = Inr st' \<Longrightarrow> same_history st st' \<and> ts_report st' = ts_report st \<and> ts_repair_plan st' = ts_repair_plan st"
  by (auto simp: node_materialize_def same_history_def)

lemma node_search_plan_history: "node_search_plan cf gw st = Inr st' \<Longrightarrow> same_history st st'"
  by (auto simp: node_search_plan_def same_history_def Let_def)

lemma node_load_pois_history: "node_load_pois cf gw st = Inr st' \<Longrightarrow> same_history st st'"
  by (auto simp: node_load_pois_def same_history_def Let_def split: option.splits if_splits)

lemma node_resolve_facts_history: "node_resolve_facts cf st = Inr st' \<Longrightarrow> same_history st st'"
  by (auto simp: node_resolve_facts_def same_history_def Let_def)

lemma node_route_matrix_history: "node_route_matrix cf gw st = Inr st' \<Longrightarrow> same_history st st'"
  by (auto simp: node_route_matrix_def same_history_def Let_def split: prod.splits)

lemma node_problem_history: "node_problem cf st = Inr st' \<Longrightarrow> same_history st st'"
  by (auto simp: node_problem_def same_history_def Let_def split: sum.splits)

lemma node_solve_history: "node_solve cf gw st = Inr st' \<Longrightarrow> same_history st st'"
  by (auto simp: node_solve_def same_history_def Let_def)

lemma node_repair_target_history: "node_repair_target cf st = Inr st' \<Longrightarrow> same_history st st'"
  by (auto simp: node_repair_target_def same_history_def Let_def)

lemma node_analyze_history: "node_analyze cf st = Inr st' \<Longrightarrow> same_history st st'"
  by (auto simp: node_analyze_def same_history_def Let_def)

lemma node_repair_plan_history: "node_repair_plan cf gw st = Inr st' \<Longrightarrow> same_history st st'"
  by (auto simp: node_repair_plan_def same_history_def Let_def)

lemma node_apply_repair_history: "node_apply_repair cf st = Inr st' \<Longrightarrow> same_history st st'"
  by (auto simp: node_apply_repair_def same_history_def Let_def)

lemma node_critic_context_history: "node_critic_context cf st = Inr st' \<Longrightarrow> same_history st st'"
  by (auto simp: node_critic_context_def same_history_def Let_def split: if_splits)

lemma node_check_grounding_history: "node_check_grounding st = Inr st' \<Longrightarrow> same_history st st'"
  by (auto simp: node_check_grounding_def same_history_def Let_def split: if_splits)

lemma node_quality_gate_history: "node_quality_gate cf st = Inr st' \<Longrightarrow> same_history st st'"
  by (auto simp: node_quality_gate_def same_history_def Let_def)

lemma node_apply_soft_history: "node_apply_soft cf st = Inr st' \<Longrightarrow> same_history st st'"
  by (auto simp: node_apply_soft_def same_history_def Let_def)

lemma node_select_quality_history: "node_select_quality st = Inr st' \<Longrightarrow> same_history st st'"
  by (auto simp: node_select_quality_def same_history_def Let_def)

lemma node_explain_history: "node_explain st = Inr st' \<Longrightarrow> same_history st st'"
  by (auto simp: node_explain_def same_history_def Let_def)

lemma node_select_best_history: "node_select_best st = Inr st' \<Longrightarrow> same_history st st'"
  by (auto simp: node_select_best_def same_history_def Let_def)

lemma node_infeasible_history: "node_infeasible st = Inr st' \<Longrightarrow> same_history st st'"
  by (auto simp: node_infeasible_def same_history_def Let_def)

lemma node_select_unvalidated_history: "node_select_unvalidated st = Inr st' \<Longrightarrow> same_history st st'"
  by (auto simp: node_select_unvalidated_def same_history_def Let_def split: if_splits)

lemma critic_answered_history [simp]: "same_history st (critic_answered cg q attempt outcome st)"
  by (cases outcome) (simp_all add: critic_answered_def critic_failed_def same_history_def)

lemma node_critic_history: "node_critic gw cf st = Inr st' \<Longrightarrow> same_history st st'"
  by (auto simp: node_critic_def Let_def same_history_def [of st "ts_status_update _ _"] split: option.split_asm)

lemma node_soft_plan_history: "node_soft_plan cf st = Inr st' \<Longrightarrow> same_history st st'"
  by (auto simp: node_soft_plan_def with_soft_plan_def save_baseline_def clear_baseline_def same_history_def split: sum.split)

lemma restore_soft_values_history: "restore_soft_values reason passed aft st = Inr st' \<Longrightarrow> same_history st st'"
  by (auto simp: restore_soft_values_def clear_baseline_def same_history_def)

lemma node_compare_soft_history: "node_compare_soft cf st = Inr st' \<Longrightarrow> same_history st st'"
  by (erule node_compare_soft_cases)
    (auto simp: accept_soft_def clear_baseline_def same_history_def dest: restore_soft_values_history)

lemmas node_history = node_search_plan_history node_load_pois_history node_resolve_facts_history node_route_matrix_history node_problem_history node_solve_history node_repair_target_history node_analyze_history node_repair_plan_history node_apply_repair_history node_critic_context_history node_check_grounding_history node_quality_gate_history node_apply_soft_history node_select_quality_history node_explain_history node_select_best_history node_infeasible_history node_select_unvalidated_history node_critic_history node_soft_plan_history
  restore_soft_values_history node_compare_soft_history

lemma other_node_history: "plan_node_body cf gw n st = Inr st' \<Longrightarrow> n \<noteq> G_validate \<Longrightarrow> same_history st st'"
  by (cases n) (auto simp: node_collect_delta_def node_load_delta_def node_collect_soft_delta_def node_load_soft_delta_def
      node_restore_soft_def dest: node_history collect_delta_history load_delta_history node_materialize_history)

definition last_after :: "travel_state \<Rightarrow> string" where
  "last_after st = at_after_fingerprint (last (ts_history st))"

definition rounds_ok :: "travel_state \<Rightarrow> bool" where
  "rounds_ok st \<longleftrightarrow> map at_round (ts_history st) = [1..ts_iterations st] \<and> 0 \<le> ts_iterations st \<and>
     ts_iterations st \<le> ts_max_rounds st \<and>
     distinct (map at_action_fingerprint (ts_history st)) \<and> distinct (map at_before_fingerprint (ts_history st)) \<and>
     (\<forall>a \<in> set (butlast (ts_history st)). at_outcome a = Outcome_improved)"

definition ongoing :: "travel_state \<Rightarrow> bool" where
  "ongoing st \<longleftrightarrow> ts_iterations st < ts_max_rounds st \<and> (\<forall>a \<in> set (ts_history st). at_outcome a = Outcome_improved) \<and>
     (ts_history st \<noteq> [] \<longrightarrow> last_after st \<notin> set (map at_before_fingerprint (ts_history st)))"

definition linked :: "planning_config \<Rightarrow> travel_state \<Rightarrow> bool" where
  "linked cf st \<longleftrightarrow> (ts_history st \<noteq> [] \<longrightarrow>
     (\<exists>c. ts_candidates st = [c] \<and> violation_fingerprint (pc_sha cf) c = last_after st))"

definition reported :: "travel_state \<Rightarrow> bool" where
  "reported st \<longleftrightarrow> (\<exists>r. ts_report st = Some r \<and> (ts_history st \<noteq> [] \<longrightarrow> r_violation_fingerprint r = last_after st))"

definition planned :: "travel_state \<Rightarrow> bool" where
  "planned st \<longleftrightarrow> (\<exists>p. ts_repair_plan st = Some p \<and> rp_round p = ts_iterations st + 1 \<and> rp_fingerprint p \<notin> set (tried_actions st))"

definition pending_repair :: "travel_state \<Rightarrow> bool" where
  "pending_repair st \<longleftrightarrow> ts_pending_round st = Some (ts_iterations st + 1) \<and> ongoing st \<and> reported st \<and> planned st"

definition history_inv :: "planning_config \<Rightarrow> plan_node \<Rightarrow> travel_state \<Rightarrow> bool" where
  "history_inv cf n st \<longleftrightarrow> rounds_ok st \<and>
     (if n \<in> {G_collect_delta, G_load_delta, G_materialize} then pending_repair st
      else if n = G_validate then pending_repair st \<or> ts_pending_round st = None \<and> (ts_history st = [] \<or> ts_soft_pending st \<noteq> None)
      else n \<noteq> G_select_unvalidated \<longrightarrow> ts_pending_round st = None) \<and>
     (setup_node n \<longrightarrow> ts_history st = []) \<and>
     (n \<in> {G_repair_target, G_analyze} \<longrightarrow> ongoing st \<and> linked cf st) \<and>
     (n = G_repair_plan \<longrightarrow> ongoing st \<and> reported st) \<and>
     (n = G_apply_repair \<longrightarrow> ongoing st \<and> reported st \<and> planned st) \<and>
     (n \<in> {G_collect_soft_delta, G_load_soft_delta, G_materialize_soft} \<longrightarrow> ts_soft_pending st \<noteq> None)"

lemma same_history_eqs:
  assumes "same_history st st'"
  shows "rounds_ok st' = rounds_ok st" "ongoing st' = ongoing st" "last_after st' = last_after st"
    "tried_actions st' = tried_actions st" "(ts_history st' = []) = (ts_history st = [])"
    "ts_repair_plan st' = ts_repair_plan st \<Longrightarrow> planned st' = planned st"
    "ts_report st' = ts_report st \<Longrightarrow> reported st' = reported st"
    "ts_candidates st' = ts_candidates st \<Longrightarrow> linked cf st' = linked cf st"
  using assms by (simp_all add: same_history_def rounds_ok_def ongoing_def last_after_def tried_actions_def planned_def reported_def linked_def)

text \<open>The three nodes that prepare a repair.\<close>

lemma node_repair_target_facts: "node_repair_target cf st = Inr st' \<Longrightarrow> ts_candidates st' = ts_candidates st"
  by (auto simp: node_repair_target_def)

lemma target_candidate_in: "target_candidate st = Inr c \<Longrightarrow> c \<in> set (ts_candidates st)"
  by (auto simp: target_candidate_def next_in_def find_Some_iff split: option.splits)

lemma analyze_fingerprint [simp]: "r_violation_fingerprint (analyze_candidate sha c trip ps) = violation_fingerprint sha c"
  by (simp add: analyze_candidate_def Let_def)

lemma node_analyze_reports:
  assumes "node_analyze cf st = Inr st'" and "linked cf st"
  shows "reported st'"
proof -
  obtain c where c: "target_candidate st = Inr c" "ts_report st' = Some (analyze_candidate (pc_sha cf) c (ts_trip st) (ts_pois st))"
    using assms(1) by (auto simp: node_analyze_def Let_def)
  have same: "same_history st st'" using assms(1) by (rule node_analyze_history)
  show ?thesis using assms(2) target_candidate_in [OF c(1)] c(2) same
    by (auto simp: reported_def linked_def last_after_def same_history_def)
qed

lemma node_repair_plan_report: "node_repair_plan cf gw st = Inr st' \<Longrightarrow> ts_report st' = ts_report st"
  by (auto simp: node_repair_plan_def Let_def)

lemma node_repair_plan_planned:
  assumes "node_repair_plan cf gw st = Inr st'" and "ts_repair_plan st' = Some p"
  shows "planned st'"
proof -
  have same: "same_history st st'" using assms(1) by (rule node_repair_plan_history)
  have "rp_fingerprint p \<notin> set (tried_actions st)" using assms by (rule node_repair_plan_made)
  moreover have "rp_round p = ts_iterations st + 1" using assms by (rule node_repair_plan_round)
  ultimately show ?thesis using same assms(2) same_history_eqs(4) [OF same] by (auto simp: planned_def same_history_def)
qed

lemma apply_repair_plan_fingerprint: "apply_repair_plan metres trip d pois plan rs = Inr (d', plan') \<Longrightarrow> rp_fingerprint plan' = rp_fingerprint plan"
  by (auto simp: apply_repair_plan_def Let_def split: if_splits sum.splits)

lemma node_apply_repair_pending:
  assumes body: "node_apply_repair cf st = Inr st'" and "ongoing st" "reported st" "planned st"
  shows "pending_repair st'"
proof -
  have same: "same_history st st'" using body by (rule node_apply_repair_history)
  obtain p where p: "ts_repair_plan st = Some p" "rp_round p = ts_iterations st + 1" "rp_fingerprint p \<notin> set (tried_actions st)"
    using assms(4) by (auto simp: planned_def)
  obtain d d' rs p' where applied: "apply_repair_plan (pc_metres cf) (ts_trip st) d (ts_pois st) p rs = Inr (d', p')"
    and st': "ts_repair_plan st' = Some p'" "ts_pending_round st' = Some (rp_round p')" "ts_report st' = ts_report st"
    using body p(1) by (auto simp: node_apply_repair_def)
  note apply_repair_plan_round [OF applied] apply_repair_plan_fingerprint [OF applied]
  then show ?thesis using p st' assms(2,3) same same_history_eqs [OF same] by (auto simp: pending_repair_def planned_def same_history_def)
qed

section \<open>Finishing a round\<close>

lemma judge_improved:
  assumes "judge_repair cf st report plan c = (Outcome_improved, t)"
  shows "\<not> repeated_fingerprint st report (violation_fingerprint (pc_sha cf) c)"
  using assms by (auto simp: judge_repair_def split: if_splits)

lemma judge_undelivered: "\<not> deliverable c \<Longrightarrow> snd (judge_repair cf st report plan c) = None \<Longrightarrow> fst (judge_repair cf st report plan c) = Outcome_improved"
  by (auto simp: judge_repair_def split: if_splits)

lemma judge_repair_frame [simp]: "judge_repair cf (st\<lparr>ts_candidates := cs, ts_status := s\<rparr>) report plan c = judge_repair cf st report plan c"
  by (simp add: judge_repair_def repeated_fingerprint_def)

lemma repair_attempt_frame [simp]:
  "repair_attempt_of cf (st\<lparr>ts_candidates := cs, ts_status := s\<rparr>) n report plan c = repair_attempt_of cf st n report plan c"
  by (simp add: repair_attempt_of_def)

text \<open>The state after a validation that finishes a round.\<close>

lemma finish_round_finishes:
  assumes "finish_round cf cs st = Inr st'" "ts_pending_round st = Some n" "ts_report st = Some report" "ts_repair_plan st = Some plan"
  obtains c where "cs = [c]" "st' = st\<lparr>ts_iterations := n, ts_pending_round := None, ts_history := ts_history st @ [repair_attempt_of cf st n report plan c],
      ts_terminal := snd (judge_repair cf st report plan c)\<rparr>"
  using assms by (auto simp: finish_round_def split: list.split_asm)

lemma node_validate_finishes:
  assumes body: "node_validate cf st = Inr st'" and pend: "pending_repair st"
  obtains report plan c where "ts_report st = Some report" "ts_repair_plan st = Some plan" "ts_candidates st' = [c]"
    "rp_fingerprint plan \<notin> set (tried_actions st)" "ts_history st \<noteq> [] \<longrightarrow> r_violation_fingerprint report = last_after st"
    "ts_history st' = ts_history st @ [repair_attempt_of cf st (ts_iterations st + 1) report plan c]"
    "ts_iterations st' = ts_iterations st + 1" "ts_max_rounds st' = ts_max_rounds st" "ts_pending_round st' = None"
    "ts_terminal st' = snd (judge_repair cf st report plan c)"
proof -
  obtain report where r: "ts_report st = Some report" "ts_history st \<noteq> [] \<longrightarrow> r_violation_fingerprint report = last_after st"
    using pend by (auto simp: pending_repair_def reported_def)
  obtain plan where p: "ts_repair_plan st = Some plan" "rp_fingerprint plan \<notin> set (tried_actions st)" "rp_round plan = ts_iterations st + 1"
    using pend by (auto simp: pending_repair_def planned_def)
  have n: "ts_pending_round st = Some (ts_iterations st + 1)" using pend by (simp add: pending_repair_def)
  define cs where "cs = map (with_validation (ts_trip st) (ts_pois st)) (ts_candidates st)"
  have fin: "finish_round cf cs (st\<lparr>ts_candidates := cs, ts_status := ''validated''\<rparr>) = Inr st'"
    using body by (simp add: node_validate_def Let_def cs_def)
  obtain c where "cs = [c]" "st' = (st\<lparr>ts_candidates := cs, ts_status := ''validated''\<rparr>)\<lparr>ts_iterations := ts_iterations st + 1, ts_pending_round := None,
      ts_history := ts_history st @ [repair_attempt_of cf st (ts_iterations st + 1) report plan c], ts_terminal := snd (judge_repair cf st report plan c)\<rparr>"
    by (rule finish_round_finishes [OF fin, where n = "ts_iterations st + 1" and report = report and plan = plan]) (use n r p in simp_all)
  then show thesis by (intro that [of report plan c]) (use r p in simp_all)
qed

text \<open>What a finished round leaves behind.\<close>

lemma rounds_ok_snoc:
  assumes "rounds_ok st" "ongoing st" "ts_max_rounds st' = ts_max_rounds st" "ts_iterations st' = ts_iterations st + 1"
    "ts_history st' = ts_history st @ [a]" "at_round a = ts_iterations st + 1" "at_action_fingerprint a \<notin> set (tried_actions st)"
    "ts_history st \<noteq> [] \<longrightarrow> at_before_fingerprint a = last_after st"
  shows "rounds_ok st'"
  using assms by (cases "ts_history st = []")
    (auto simp: rounds_ok_def ongoing_def tried_actions_def upto_rec2 [of 1 "ts_iterations st + 1"])

lemma validate_rounds:
  assumes body: "node_validate cf st = Inr st'" and pend: "pending_repair st" and ok: "rounds_ok st"
  shows "rounds_ok st'" and "ts_pending_round st' = None" and "ts_history st' \<noteq> []"
    and "repair_possible st' \<Longrightarrow> deliverable_candidates st' = [] \<Longrightarrow> ongoing st' \<and> linked cf st'"
proof -
  obtain report plan c where r: "ts_report st = Some report" "ts_repair_plan st = Some plan" and c: "ts_candidates st' = [c]"
    and new: "rp_fingerprint plan \<notin> set (tried_actions st)" "ts_history st \<noteq> [] \<longrightarrow> r_violation_fingerprint report = last_after st"
    and hist: "ts_history st' = ts_history st @ [repair_attempt_of cf st (ts_iterations st + 1) report plan c]"
    and counts: "ts_iterations st' = ts_iterations st + 1" "ts_max_rounds st' = ts_max_rounds st" "ts_pending_round st' = None"
    and judged: "ts_terminal st' = snd (judge_repair cf st report plan c)"
    using node_validate_finishes [OF body pend] by metis
  have going: "ongoing st" using pend by (simp add: pending_repair_def)
  show "rounds_ok st'"
    by (rule rounds_ok_snoc [OF ok going counts(2,1) hist]) (use new in \<open>simp_all add: repair_attempt_of_def\<close>)
  show "ts_pending_round st' = None" by (rule counts(3))
  show "ts_history st' \<noteq> []" by (simp add: hist)
  show "ongoing st' \<and> linked cf st'" if "repair_possible st'" and "deliverable_candidates st' = []"
  proof -
    have "\<not> deliverable c" using that(2) c by (auto simp: deliverable_candidates_def filter_empty_conv)
    then have imp: "fst (judge_repair cf st report plan c) = Outcome_improved"
      using that(1) judged by (intro judge_undelivered) (simp_all add: repair_possible_def)
    then have fresh: "\<not> repeated_fingerprint st report (violation_fingerprint (pc_sha cf) c)"
      by (intro judge_improved) (rule prod_eqI, simp_all)
    show ?thesis using that(1) going imp fresh c
      by (auto simp: ongoing_def linked_def last_after_def hist repair_attempt_of_def repair_possible_def repeated_fingerprint_def list_ex_iff)
  qed
qed

section \<open>One step\<close>

lemma restore_soft_pending: "restore_soft_values reason passed aft st = Inr st' \<Longrightarrow> ts_pending_round st' = ts_pending_round st"
  by (auto simp: restore_soft_values_def clear_baseline_def)

lemma pending_round_keeps:
  assumes body: "plan_node_body cf gw n st = Inr st'" and n: "n \<notin> {G_validate, G_apply_repair}"
  shows "ts_pending_round st' = ts_pending_round st"
proof (cases "quiet_node n")
  case True
  then show ?thesis using quiet_node_keeps [OF body] by (simp add: same_rounds_def)
next
  case False
  then consider "n = G_search_plan" | "n = G_apply_soft" | "n = G_restore_soft" | "n = G_compare_soft" using n by auto
  then show ?thesis
  proof cases
    case 4
    then have "node_compare_soft cf st = Inr st'" using body by simp
    then show ?thesis by (rule node_compare_soft_cases) (auto simp: accept_soft_def clear_baseline_def dest: restore_soft_pending)
  qed (use body in \<open>auto simp: node_search_plan_def node_apply_soft_def node_restore_soft_def Let_def dest: restore_soft_pending\<close>)
qed

text \<open>The nodes that neither prepare nor carry out a hard repair.\<close>

definition calm_node :: "plan_node \<Rightarrow> bool" where
  "calm_node n \<longleftrightarrow> n \<notin> {G_validate, G_repair_target, G_analyze, G_repair_plan, G_apply_repair, G_collect_delta, G_load_delta, G_materialize}"

lemma calm_next:
  "plan_next cf n st = Some n' \<Longrightarrow> calm_node n \<Longrightarrow>
     n' \<notin> {G_collect_delta, G_load_delta, G_materialize, G_repair_target, G_analyze, G_repair_plan, G_apply_repair} \<and>
     (setup_node n' \<longrightarrow> setup_node n) \<and> (n' = G_validate \<longrightarrow> n \<in> {G_materialize_optimized, G_materialize_soft}) \<and>
     (n' \<in> {G_collect_soft_delta, G_load_soft_delta, G_materialize_soft} \<longrightarrow> n \<in> {G_apply_soft, G_collect_soft_delta, G_load_soft_delta})"
  by (cases n) (auto simp: calm_node_def setup_node_def plan_route_defs split: if_split_asm option.split_asm)

lemma calm_soft_pending:
  "plan_node_body cf gw n st = Inr st' \<Longrightarrow> n \<in> {G_collect_soft_delta, G_load_soft_delta, G_materialize_soft} \<Longrightarrow>
     ts_soft_pending st' = ts_soft_pending st"
  by (auto simp: same_rounds_def dest: quiet_node_keeps)

lemma calm_step:
  assumes inv: "history_inv cf n st" and body: "plan_node_body cf gw n st = Inr st'" and calm: "calm_node n"
    and nxt: "plan_next cf n st' = Some n'"
  shows "history_inv cf n' st'"
proof -
  have same: "same_history st st'" using other_node_history [OF body] calm by (simp add: calm_node_def)
  have pend: "ts_pending_round st' = ts_pending_round st" using pending_round_keeps [OF body] calm by (simp add: calm_node_def)
  note nxts = calm_next [OF nxt calm] and eqs = same_history_eqs(1,5) [OF same]
  have soft: "ts_soft_pending st' \<noteq> None" if "n \<in> {G_apply_soft, G_collect_soft_delta, G_load_soft_delta, G_materialize_soft}"
  proof (cases "n = G_apply_soft")
    case True
    then show ?thesis using body node_apply_soft_keeps [of cf st st'] by simp
  next
    case False
    then have n: "n \<in> {G_collect_soft_delta, G_load_soft_delta, G_materialize_soft}" using that by blast
    then have "ts_soft_pending st \<noteq> None" using inv unfolding history_inv_def by blast
    then show ?thesis using calm_soft_pending [OF body n] by simp
  qed
  have none: "ts_pending_round st' = None"
    using inv calm nxt unfolding pend by (cases n) (simp_all add: history_inv_def calm_node_def)
  have val: "ts_history st' = [] \<or> ts_soft_pending st' \<noteq> None" if "n' = G_validate"
  proof -
    have "n = G_materialize_optimized \<or> n = G_materialize_soft" using that nxts by blast
    then show ?thesis using inv soft eqs(2) by (auto simp: history_inv_def setup_node_def)
  qed
  have start: "ts_history st' = []" if "setup_node n'"
    using that nxts inv eqs(2) by (simp add: history_inv_def)
  have ok: "rounds_ok st'" using inv eqs(1) by (simp add: history_inv_def)
  have off: "n' \<notin> {G_collect_delta, G_load_delta, G_materialize}" "n' \<notin> {G_repair_target, G_analyze}" "n' \<noteq> G_repair_plan" "n' \<noteq> G_apply_repair"
    using nxts by blast+
  have soft': "ts_soft_pending st' \<noteq> None" if "n' \<in> {G_collect_soft_delta, G_load_soft_delta, G_materialize_soft}"
    using that nxts by (intro soft) blast
  show ?thesis unfolding history_inv_def
  proof (intro conjI)
    show "if n' \<in> {G_collect_delta, G_load_delta, G_materialize} then pending_repair st'
      else if n' = G_validate then pending_repair st' \<or> ts_pending_round st' = None \<and> (ts_history st' = [] \<or> ts_soft_pending st' \<noteq> None)
      else n' \<noteq> G_select_unvalidated \<longrightarrow> ts_pending_round st' = None"
      using val by (simp only: off if_False none simp_thms split: if_split) blast
  qed (use off ok start soft' in blast)+
qed

lemma repair_nodes_report:
  assumes "plan_node_body cf gw n st = Inr st'" and "n \<in> {G_collect_delta, G_load_delta, G_materialize}"
  shows "same_history st st' \<and> ts_report st' = ts_report st \<and> ts_repair_plan st' = ts_repair_plan st"
  using assms by (auto simp: node_collect_delta_def node_load_delta_def dest: collect_delta_history load_delta_history node_materialize_history)

lemma pending_step:
  assumes inv: "history_inv cf n st" and body: "plan_node_body cf gw n st = Inr st'"
    and n: "n \<in> {G_collect_delta, G_load_delta, G_materialize}" and nxt: "plan_next cf n st' = Some n'"
  shows "history_inv cf n' st'"
proof -
  have same: "same_history st st'" and eqs: "ts_report st' = ts_report st" "ts_repair_plan st' = ts_repair_plan st"
    using repair_nodes_report [OF body n] by blast+
  have "pending_repair st" "rounds_ok st" using inv n by (auto simp: history_inv_def)
  moreover have "ts_pending_round st' = ts_pending_round st" using pending_round_keeps [OF body] n by auto
  ultimately have "pending_repair st'" "rounds_ok st'"
    using same_history_eqs [OF same] eqs same by (simp_all add: pending_repair_def same_history_def)
  moreover have "n' \<in> {G_load_delta, G_materialize, G_validate, G_select_unvalidated}"
    using n nxt by (auto simp: plan_route_defs split: if_split_asm)
  ultimately show ?thesis by (auto simp: history_inv_def setup_node_def)
qed

lemma prepare_step:
  assumes inv: "history_inv cf n st" and body: "plan_node_body cf gw n st = Inr st'"
    and n: "n \<in> {G_repair_target, G_analyze, G_repair_plan, G_apply_repair}" and nxt: "plan_next cf n st' = Some n'"
  shows "history_inv cf n' st'"
proof -
  have same: "same_history st st'" using other_node_history [OF body] n by auto
  note eqs = same_history_eqs [OF same]
  have ok: "rounds_ok st'" and on: "ongoing st'" using inv n eqs(1,2) by (auto simp: history_inv_def)
  have none: "n \<noteq> G_apply_repair \<Longrightarrow> ts_pending_round st' = None" using inv n pending_round_keeps [OF body] by (auto simp: history_inv_def)
  consider "n = G_repair_target" "n' = G_analyze" | "n = G_analyze" "n' \<in> {G_repair_plan, G_infeasible}"
    | "n = G_repair_plan" "n' \<in> {G_apply_repair, G_infeasible}" "n' = G_apply_repair \<Longrightarrow> ts_repair_plan st' \<noteq> None"
    | "n = G_apply_repair" "n' = G_collect_delta"
    using n nxt by (auto simp: route_after_critic_def route_after_repair_plan_def split: if_split_asm option.split_asm)
  then show ?thesis
  proof cases
    case 1
    then have "linked cf st'" using inv body eqs(8) node_repair_target_facts [of cf st st'] by (simp add: history_inv_def)
    then show ?thesis using 1 ok on none by (simp add: history_inv_def setup_node_def)
  next
    case 2
    then have "reported st'" using inv body node_analyze_reports [of cf st st'] by (simp add: history_inv_def)
    then show ?thesis using 2 ok on none by (auto simp: history_inv_def setup_node_def)
  next
    case 3
    then have body': "node_repair_plan cf gw st = Inr st'" using body by simp
    have "reported st'" using inv 3(1) eqs(7) node_repair_plan_report [OF body'] by (simp add: history_inv_def)
    moreover have "planned st'" if "n' = G_apply_repair" using 3(3) that node_repair_plan_planned [OF body'] by blast
    ultimately show ?thesis using 3 ok on none by (auto simp: history_inv_def setup_node_def)
  next
    case 4
    then have "pending_repair st'" using inv body node_apply_repair_pending [of cf st st'] by (simp add: history_inv_def)
    then show ?thesis using 4 ok by (simp add: history_inv_def setup_node_def)
  qed
qed

lemma validate_history:
  assumes "node_validate cf st = Inr st'" and "ts_pending_round st = None"
  shows "same_history st st' \<and> ts_pending_round st' = None"
  using assms by (auto simp: node_validate_def finish_round_def same_history_def Let_def)

lemma validate_next:
  "plan_next cf G_validate st = Some n' \<Longrightarrow>
     n' \<in> {G_restore_soft, G_critic_context, G_select_best, G_repair_target, G_infeasible} \<and>
     (n' = G_repair_target \<longrightarrow> repair_possible st \<and> deliverable_candidates st = [] \<and> ts_soft_pending st = None)"
  by (auto simp: plan_route_defs repair_possible_def split: if_split_asm)

lemma history_validate_step:
  assumes inv: "history_inv cf G_validate st" and body: "node_validate cf st = Inr st'" and nxt: "plan_next cf G_validate st' = Some n'"
  shows "history_inv cf n' st'"
proof -
  note nxts = validate_next [OF nxt]
  have soft: "ts_soft_pending st' = ts_soft_pending st" using node_validate_keeps [OF body] by simp
  have ok: "rounds_ok st" using inv by (simp add: history_inv_def)
  have "rounds_ok st' \<and> ts_pending_round st' = None \<and> (n' = G_repair_target \<longrightarrow> ongoing st' \<and> linked cf st')"
  proof (cases "pending_repair st")
    case True
    then show ?thesis using validate_rounds [OF body True ok] nxts by blast
  next
    case False
    then have pend: "ts_pending_round st = None" and hist: "ts_history st = [] \<or> ts_soft_pending st \<noteq> None"
      using inv by (simp_all add: history_inv_def)
    note same = validate_history [OF body pend]
    have "ongoing st' \<and> linked cf st'" if "n' = G_repair_target"
      using that nxts hist soft same by (auto simp: ongoing_def linked_def repair_possible_def same_history_def)
    then show ?thesis using same same_history_eqs(1) [of st st'] ok by blast
  qed
  then show ?thesis using nxts by (auto simp: history_inv_def setup_node_def)
qed

lemma history_step:
  assumes inv: "history_inv cf n st" and body: "plan_node_body cf gw n st = Inr st'" and nxt: "plan_next cf n st' = Some n'"
  shows "history_inv cf n' st'"
proof -
  consider "calm_node n" | "n = G_validate" | "n \<in> {G_collect_delta, G_load_delta, G_materialize}"
    | "n \<in> {G_repair_target, G_analyze, G_repair_plan, G_apply_repair}"
    by (auto simp: calm_node_def)
  then show ?thesis
  proof cases
    case 1 then show ?thesis by (rule calm_step [OF inv body _ nxt])
  next
    case 2 then show ?thesis using history_validate_step inv body nxt by simp
  next
    case 3 then show ?thesis by (rule pending_step [OF inv body _ nxt])
  next
    case 4 then show ?thesis by (rule prepare_step [OF inv body _ nxt])
  qed
qed

lemma max_rounds_step: "plan_node_body cf gw n st = Inr st' \<Longrightarrow> ts_max_rounds st' = ts_max_rounds st"
  using other_node_history [of cf gw n st st'] node_validate_keeps [of cf st st'] by (cases "n = G_validate") (simp_all add: same_history_def)

interpretation repairs: graph_invariant cf "\<lambda>n st. history_inv cf n st \<and> ts_max_rounds st = m" "\<lambda>st. rounds_ok st \<and> ts_max_rounds st = m" for cf m
proof unfold_locales
  show "rounds_ok st' \<and> ts_max_rounds st' = m"
    if "history_inv cf n st \<and> ts_max_rounds st = m" "plan_node_body cf gw n st = Inr st'" "plan_next cf n st' = None" for n st gw st'
  proof -
    have "n \<noteq> G_validate" using that(3) by auto
    then show ?thesis using that(1) same_history_eqs(1) [OF other_node_history [OF that(2)]] max_rounds_step [OF that(2)]
      by (simp add: history_inv_def)
  qed
qed (use history_step max_rounds_step in blast)

text \<open>
  C14. Repair rounds make progress. When a planning run ends, its recorded repair rounds are
  numbered from one to the number of iterations, which never exceeds \<open>max_replan_rounds\<close>; no two of them
  applied the same repair or started from the same violations; and every round but
  the last improved the plan.
\<close>

theorem repair_rounds_make_progress:
  assumes run: "run_workflow cf gws r thread = Inr st" and "0 \<le> rq_max_rounds r"
  shows "map at_round (ts_history st) = [1..ts_iterations st] \<and> ts_iterations st \<le> rq_max_rounds r \<and>
     distinct (map at_action_fingerprint (ts_history st)) \<and> distinct (map at_before_fingerprint (ts_history st)) \<and>
     (\<forall>a \<in> set (butlast (ts_history st)). at_outcome a = Outcome_improved)"
proof -
  have "history_inv cf G_guard (initial_planning_state r thread)"
    using assms(2) by (simp add: history_inv_def initial_planning_state_def rounds_ok_def)
  then have "rounds_ok st \<and> ts_max_rounds st = rq_max_rounds r"
    by (intro repairs.workflow_final [OF run]) (simp add: initial_planning_state_def)
  then show ?thesis by (simp add: rounds_ok_def)
qed

theorem repair_rounds_make_progress_witness:
  "\<exists>st. run_workflow plain_planning (\<lambda>k. empty_handed) empty_request ''planning:1'' = Inr st \<and>
     map at_round (ts_history st) = [1..ts_iterations st]"
proof -
  obtain st where run: "run_workflow plain_planning (\<lambda>k. empty_handed) empty_request ''planning:1'' = Inr st"
    using run_without_places by blast
  then show ?thesis using repair_rounds_make_progress [OF run] by (auto simp: empty_request_def)
qed

end
