(* ===== verification/PlanningSoftSafety.thy ===== *)
theory PlanningSoftSafety
  imports PlanningSafety
begin

text \<open>
  The soft repair of the planning graph is a transaction: from the node that compiles it to the
  end of the run it is skipped, undone, or accepted with the demanded improvement.
\<close>

section \<open>What the nodes of the transaction leave alone\<close>

definition same_base :: "travel_state \<Rightarrow> travel_state \<Rightarrow> bool" where
  "same_base st st' \<longleftrightarrow> ts_base_candidates st' = ts_base_candidates st \<and> ts_base_drafts st' = ts_base_drafts st \<and>
     ts_base_critiques st' = ts_base_critiques st \<and> ts_base_digests st' = ts_base_digests st \<and>
     ts_base_scores st' = ts_base_scores st \<and> ts_base_summary st' = ts_base_summary st \<and>
     ts_soft_history st' = ts_soft_history st \<and> ts_soft_plan st' = ts_soft_plan st"

definition inside_node :: "plan_node \<Rightarrow> bool" where
  "inside_node n \<longleftrightarrow> n \<in> {G_apply_soft, G_collect_soft_delta, G_load_soft_delta, G_materialize_soft, G_validate, G_critic_context,
     G_critic, G_check_grounding, G_quality_gate}"

lemma same_base_refl [simp]: "same_base st st"
  by (simp add: same_base_def)

lemma node_apply_soft_base: "node_apply_soft cf st = Inr st' \<Longrightarrow> same_base st st'"
  by (auto simp: node_apply_soft_def same_base_def)

lemma collect_delta_base: "collect_delta cf label st = Inr st' \<Longrightarrow> same_base st st'"
  by (auto simp: collect_delta_def same_base_def Let_def split: list.splits)

lemma load_delta_base: "load_delta gw label st = Inr st' \<Longrightarrow> same_base st st'"
  by (auto simp: load_delta_def same_base_def split: prod.splits)

lemma node_materialize_base: "node_materialize cf st = Inr st' \<Longrightarrow> same_base st st'"
  by (auto simp: node_materialize_def same_base_def)

lemma node_validate_base: "node_validate cf st = Inr st' \<Longrightarrow> same_base st st'"
  by (auto simp: node_validate_def finish_round_def same_base_def Let_def split: option.split_asm list.split_asm)

lemma node_critic_context_base: "node_critic_context cf st = Inr st' \<Longrightarrow> same_base st st'"
  by (auto simp: node_critic_context_def same_base_def Let_def split: if_splits)

lemma critic_answered_base [simp]: "same_base st (critic_answered cg q attempt outcome st)"
  by (cases outcome) (simp_all add: critic_answered_def critic_failed_def same_base_def)

lemma node_critic_base: "node_critic gw cf st = Inr st' \<Longrightarrow> same_base st st'"
  by (auto simp: node_critic_def Let_def same_base_def [of st "ts_status_update _ _"] split: option.split_asm)

lemma node_check_grounding_base: "node_check_grounding st = Inr st' \<Longrightarrow> same_base st st'"
  by (auto simp: node_check_grounding_def same_base_def Let_def split: if_splits)

lemma node_quality_gate_base: "node_quality_gate cf st = Inr st' \<Longrightarrow> same_base st st'"
  by (auto simp: node_quality_gate_def same_base_def Let_def)

lemma inside_base: "plan_node_body cf gw n st = Inr st' \<Longrightarrow> inside_node n \<Longrightarrow> same_base st st'"
  by (auto simp: inside_node_def node_collect_soft_delta_def node_load_soft_delta_def
      dest: node_apply_soft_base collect_delta_base load_delta_base node_materialize_base node_validate_base
        node_critic_context_base node_critic_base node_check_grounding_base node_quality_gate_base)

lemma inside_pending:
  assumes body: "plan_node_body cf gw n st = Inr st'" and n: "inside_node n"
    and "ts_soft_pending st \<noteq> None \<or> n = G_apply_soft"
  shows "ts_soft_pending st' \<noteq> None"
proof -
  consider "n = G_apply_soft" | "n = G_validate" | "quiet_node n" using n by (auto simp: inside_node_def)
  then show ?thesis
  proof cases
    case 1
    then show ?thesis using body node_apply_soft_keeps [of cf st st'] by simp
  next
    case 2
    then show ?thesis using body assms(3) node_validate_keeps [of cf st st'] by simp
  next
    case 3
    then show ?thesis using assms(3) quiet_node_keeps [OF body 3] by (auto simp: same_rounds_def)
  qed
qed

section \<open>The transaction\<close>

text \<open>The values that the transaction saves and restores.\<close>

definition same_values :: "travel_state \<Rightarrow> travel_state \<Rightarrow> bool" where
  "same_values st st' \<longleftrightarrow> ts_candidates st' = ts_candidates st \<and> ts_drafts st' = ts_drafts st \<and>
     ts_critiques st' = ts_critiques st \<and> ts_digests st' = ts_digests st \<and> ts_scores st' = ts_scores st"

definition base_is :: "travel_state \<Rightarrow> travel_state \<Rightarrow> bool" where
  "base_is st0 st \<longleftrightarrow> ts_base_candidates st = ts_candidates st0 \<and> ts_base_drafts st = ts_drafts st0 \<and>
     ts_base_critiques st = ts_critiques st0 \<and> ts_base_digests st = ts_digests st0 \<and> ts_base_scores st = ts_scores st0 \<and>
     ts_soft_history st = ts_soft_history st0"

definition improved_attempt :: "planning_config \<Rightarrow> soft_attempt \<Rightarrow> bool" where
  "improved_attempt cf a \<longleftrightarrow> sa_accepted a \<and> sa_hard_passed a \<and>
     (\<exists>q. sa_after a = Some q \<and> q - sa_before a \<ge> min_improvement (pc_critic cf))"

text \<open>Only the candidate \<open>t\<close> and its draft have been replaced.\<close>

definition only_changed :: "string \<Rightarrow> travel_state \<Rightarrow> travel_state \<Rightarrow> bool" where
  "only_changed t st st' \<longleftrightarrow>
     (\<exists>cs ds. ts_candidates st' = filter (\<lambda>c. cand_id c \<noteq> t) (ts_candidates st) @ cs \<and>
       ts_drafts st' = filter (\<lambda>d. draft_id d \<noteq> t) (ts_drafts st) @ ds)"

definition soft_outcome :: "planning_config \<Rightarrow> travel_state \<Rightarrow> travel_state \<Rightarrow> bool" where
  "soft_outcome cf st0 st \<longleftrightarrow>
     same_values st0 st \<and> ts_soft_history st = ts_soft_history st0 \<or>
     (\<exists>a. ts_soft_history st = ts_soft_history st0 @ [a] \<and>
       (\<not> sa_accepted a \<and> same_values st0 st \<or>
        improved_attempt cf a \<and> (\<exists>t. map_of (ts_scores st0) t = Some (sa_before a) \<and> only_changed t st0 st)))"

definition soft_inv :: "planning_config \<Rightarrow> travel_state \<Rightarrow> plan_node \<Rightarrow> travel_state \<Rightarrow> bool" where
  "soft_inv cf st0 n st \<longleftrightarrow>
     n = G_soft_plan \<and> st = st0 \<or>
     n = G_apply_soft \<and> base_is st0 st \<or>
     (inside_node n \<or> n \<in> {G_restore_soft, G_compare_soft}) \<and> base_is st0 st \<and> ts_soft_pending st \<noteq> None \<or>
     n \<in> {G_select_quality, G_explain} \<and> soft_outcome cf st0 st"

lemma with_soft_plan_base:
  "ts_soft_plan (with_soft_plan r st0) \<noteq> None \<and> base_is st0 (with_soft_plan r st0) \<or>
   ts_soft_plan (with_soft_plan r st0) = None \<and> soft_outcome cf st0 (with_soft_plan r st0)"
  by (cases r) (simp_all add: with_soft_plan_def save_baseline_def clear_baseline_def base_is_def soft_outcome_def same_values_def)

lemma node_soft_plan_base:
  assumes "node_soft_plan cf st0 = Inr st"
  shows "ts_soft_plan st \<noteq> None \<and> base_is st0 st \<or> ts_soft_plan st = None \<and> soft_outcome cf st0 st"
proof -
  obtain r where "st = with_soft_plan r st0" using assms by (auto simp: node_soft_plan_def)
  then show ?thesis using with_soft_plan_base by simp
qed

lemma restore_outcome:
  assumes "restore_soft_values reason passed aft st = Inr st'" and "base_is st0 st"
  shows "soft_outcome cf st0 st'"
  using assms
  by (auto simp: restore_soft_values_def clear_baseline_def base_is_def soft_outcome_def same_values_def soft_attempt_of_def)

lemma accept_outcome:
  assumes "soft_accepted cf st before aft" and "before_score st plan = Inr before" and "base_is st0 st"
  shows "soft_outcome cf st0 (accept_soft plan before aft st)"
proof -
  have "improved_attempt cf (soft_attempt_of st plan before aft True True ''quality_improved'')"
    using assms(1) by (auto simp: improved_attempt_def soft_accepted_def soft_attempt_of_def split: option.splits)
  moreover have "map_of (ts_scores st0) (sr_target plan) = Some before"
    using assms(2,3) by (auto simp: before_score_def base_is_def split: option.splits)
  ultimately show ?thesis using assms(3)
    by (auto simp: accept_soft_def clear_baseline_def base_is_def soft_outcome_def only_changed_def merged_def soft_attempt_of_def)
qed

lemma compare_outcome:
  assumes "node_compare_soft cf st = Inr st'" and "base_is st0 st"
  shows "soft_outcome cf st0 st'"
  using assms
  by (auto simp: node_compare_soft_def Let_def accept_outcome restore_outcome split: option.split_asm if_split_asm)

lemma last_nodes_outcome:
  assumes "plan_node_body cf gw n st = Inr st'" and "n \<in> {G_select_quality, G_explain}" and "soft_outcome cf st0 st"
  shows "soft_outcome cf st0 st'"
proof -
  have "same_values st st' \<and> ts_soft_history st' = ts_soft_history st"
    using assms(1,2) by (auto simp: node_select_quality_def node_explain_def same_values_def)
  then show ?thesis using assms(3) unfolding soft_outcome_def same_values_def only_changed_def by auto
qed

lemma inside_next:
  "plan_next cf n st = Some n' \<Longrightarrow> inside_node n \<Longrightarrow> \<not> pc_skip_soft_critic cf \<Longrightarrow> ts_soft_pending st \<noteq> None \<Longrightarrow>
   inside_node n' \<or> n' \<in> {G_restore_soft, G_compare_soft}"
  by (cases n) (auto simp: inside_node_def plan_route_defs split: if_split_asm)

lemma soft_step:
  assumes cf: "\<not> pc_skip_soft_critic cf" and inv: "soft_inv cf st0 n st" and body: "plan_node_body cf gw n st = Inr st'"
    and nxt: "plan_next cf n st' = Some n'"
  shows "soft_inv cf st0 n' st'"
proof -
  consider "n = G_soft_plan" "st = st0" | "inside_node n" "base_is st0 st" "ts_soft_pending st \<noteq> None \<or> n = G_apply_soft"
    | "n = G_restore_soft" "base_is st0 st" | "n = G_compare_soft" "base_is st0 st"
    | "n \<in> {G_select_quality, G_explain}" "soft_outcome cf st0 st"
    using inv by (auto simp: soft_inv_def inside_node_def)
  then show ?thesis
  proof cases
    case 1
    then show ?thesis using body nxt node_soft_plan_base [of cf st0 st']
      by (auto simp: soft_inv_def route_after_soft_plan_def split: if_split_asm)
  next
    case 2
    have pend: "ts_soft_pending st' \<noteq> None" by (rule inside_pending [OF body 2(1,3)])
    have "base_is st0 st'" using inside_base [OF body 2(1)] 2(2) by (simp add: same_base_def base_is_def)
    then show ?thesis using pend inside_next [OF nxt 2(1) cf pend] by (auto simp: soft_inv_def)
  next
    case 3
    then show ?thesis using body nxt by (auto simp: soft_inv_def node_restore_soft_def restore_outcome)
  next
    case 4
    then show ?thesis using body nxt by (auto simp: soft_inv_def compare_outcome)
  next
    case 5
    then have "n' = G_explain" using nxt by auto
    then show ?thesis using last_nodes_outcome [OF body 5] by (simp add: soft_inv_def)
  qed
qed

definition with_soft_critic :: "planning_config \<Rightarrow> planning_config" where
  "with_soft_critic cf = cf\<lparr>pc_skip_soft_critic := False\<rparr>"

interpretation soft: graph_invariant "with_soft_critic cf" "soft_inv (with_soft_critic cf) st0" "soft_outcome (with_soft_critic cf) st0" for cf st0
proof unfold_locales
  show "soft_inv (with_soft_critic cf) st0 n' st'" if "soft_inv (with_soft_critic cf) st0 n st"
      "plan_node_body (with_soft_critic cf) gw n st = Inr st'" "plan_next (with_soft_critic cf) n st' = Some n'" for n st gw st' n'
    using soft_step [OF _ that] by (simp add: with_soft_critic_def)
  show "soft_outcome (with_soft_critic cf) st0 st'" if "soft_inv (with_soft_critic cf) st0 n st"
      "plan_node_body (with_soft_critic cf) gw n st = Inr st'" "plan_next (with_soft_critic cf) n st' = None" for n st gw st'
  proof -
    have "n = G_explain" using that(1,3) by (cases n) (simp_all add: soft_inv_def inside_node_def)
    then show ?thesis using last_nodes_outcome [OF that(2)] that(1) by (simp add: soft_inv_def inside_node_def)
  qed
qed

text \<open>
  C13. The soft repair is a transaction. From the node that compiles it to the end of
  the run, at most one attempt is recorded. If none is, or if the attempt was not accepted, the
  candidates, drafts, critiques, digests and scores are the ones from before it. If it was accepted, it
  passed validation, its score exceeds the one of the repaired candidate by at least
  \<open>min_improvement\<close>, and all other candidates and drafts are as before.
\<close>

theorem soft_repair_is_a_transaction:
  assumes "run_plan k cf gws G_soft_plan st = Some (Inr st')" and "\<not> pc_skip_soft_critic cf"
  shows "same_values st st' \<and> ts_soft_history st' = ts_soft_history st \<or>
     (\<exists>a. ts_soft_history st' = ts_soft_history st @ [a] \<and>
       (\<not> sa_accepted a \<and> same_values st st' \<or>
        sa_accepted a \<and> sa_hard_passed a \<and> (\<exists>q. sa_after a = Some q \<and> q - sa_before a \<ge> min_improvement (pc_critic cf)) \<and>
        (\<exists>t. map_of (ts_scores st) t = Some (sa_before a) \<and> only_changed t st st')))"
proof -
  have "with_soft_critic cf = cf" using assms(2) by (simp add: with_soft_critic_def)
  then have "soft_outcome cf st st'" using soft.run_final [of k cf gws G_soft_plan st st' st] assms(1) by (simp add: soft_inv_def)
  then show ?thesis unfolding soft_outcome_def improved_attempt_def by blast
qed

text \<open>A run that skips the soft repair: the only candidate has no score.\<close>

definition reviewed_candidate :: plan_candidate where
  "reviewed_candidate = sample_plan\<lparr>validation := Some \<lparr>status = Valid, violations = []\<rparr>\<rparr>"

definition reviewed_digest :: evidence_digest where
  "reviewed_digest = \<lparr>ed_candidate_id = cand_id reviewed_candidate, ed_style = Style_balanced,
     evidence = [\<lparr>e_id = ''e1'', e_kind = E_candidate_metric, e_candidate_id = cand_id reviewed_candidate, e_day = None,
                  e_entity_id = None, e_field = ''diversity'', e_value = V_int 1, e_source = ''plan'', e_confidence = 1\<rparr>],
     ed_input_chars = 100, ed_truncated = False\<rparr>"

definition reviewed_state :: travel_state where
  "reviewed_state = (initial_planning_state empty_request ''planning:1'')\<lparr>ts_candidates := [reviewed_candidate],
     ts_digests := [reviewed_digest]\<rparr>"

lemma reviewed_steps:
  "\<exists>st1. node_soft_plan plain_planning reviewed_state = Inr st1 \<and> ts_soft_plan st1 = None \<and> ts_soft_history st1 = [] \<and>
     ts_scores st1 = [] \<and> deliverable_candidates st1 = [reviewed_candidate] \<and> ts_digests st1 = [reviewed_digest] \<and>
     ts_critiques st1 = []"
  by (simp add: node_soft_plan_def best_by_quality_def select_by_quality_def deliverable_candidates_def deliverable_def
      reviewed_state_def reviewed_candidate_def soft_plan_for_def with_soft_plan_def clear_baseline_def initial_planning_state_def)

lemma reviewed_select:
  "ts_scores st = [] \<Longrightarrow> deliverable_candidates st = [reviewed_candidate] \<Longrightarrow>
     node_select_quality st = Inr (st\<lparr>ts_selected := Some reviewed_candidate, ts_status := ''quality_selected''\<rparr>)"
  by (simp add: node_select_quality_def select_best_candidate_def min_candidate_def)

lemma reviewed_explain:
  "ts_selected st = Some reviewed_candidate \<Longrightarrow> ts_digests st = [reviewed_digest] \<Longrightarrow> ts_critiques st = [] \<Longrightarrow>
     \<exists>st'. node_explain st = Inr st' \<and> ts_soft_history st' = ts_soft_history st"
  by (auto simp: node_explain_def build_grounded_explanation_def make_statement_def required_def reviewed_digest_def)

lemma skipped_run:
  "\<exists>st'. run_plan 3 plain_planning (\<lambda>k. empty_handed) G_soft_plan reviewed_state = Some (Inr st') \<and> ts_soft_history st' = []"
proof -
  obtain st1 where s1: "node_soft_plan plain_planning reviewed_state = Inr st1" "ts_soft_plan st1 = None" "ts_soft_history st1 = []"
      "ts_scores st1 = []" "deliverable_candidates st1 = [reviewed_candidate]" "ts_digests st1 = [reviewed_digest]" "ts_critiques st1 = []"
    using reviewed_steps by blast
  define st2 where "st2 = st1\<lparr>ts_selected := Some reviewed_candidate, ts_status := ''quality_selected''\<rparr>"
  obtain st3 where s3: "node_explain st2 = Inr st3" "ts_soft_history st3 = []"
    using reviewed_explain [of st2] s1 by (auto simp: st2_def)
  have "node_select_quality st1 = Inr st2" using reviewed_select s1 by (simp add: st2_def)
  then show ?thesis using s1 s3 by (simp add: eval_nat_numeral route_after_soft_plan_def)
qed

theorem soft_repair_is_a_transaction_witness:
  "\<exists>st'. run_plan 3 plain_planning (\<lambda>k. empty_handed) G_soft_plan reviewed_state = Some (Inr st') \<and> same_values reviewed_state st'"
proof -
  obtain st' where run: "run_plan 3 plain_planning (\<lambda>k. empty_handed) G_soft_plan reviewed_state = Some (Inr st')"
      "ts_soft_history st' = []"
    using skipped_run by blast
  then show ?thesis using soft_repair_is_a_transaction [OF run(1)] by (auto simp: plain_planning_def)
qed

end
