(* ===== verification/Requirements.thy ===== *)
theory Requirements
  imports ToolResults
begin

text \<open>
  \<open>requirements/models.py\<close>, \<open>requirements/validation.py\<close>, \<open>requirements/clarification.py\<close> and
  \<open>requirements/anchors.py\<close>: the draft a language model extracts from the user's text, the
  patches that answer clarifying questions, the deterministic validation, and the resolution
  of place names. A zone is a fixed UTC offset. Messages and questions are values of
  \<open>requirement_text\<close>, one constructor per (Chinese) format string. Proved: validation of drafts
  is idempotent, a patch changes exactly the fields it reports, all of them allowed, and a
  requirement without issues becomes a valid trip exactly if its daily window is ordered.
\<close>

section \<open>Drafts and patches\<close>

text \<open>A \<open>datetime\<close> as extracted, with or without a time zone.\<close>

datatype stamp = Naive int | Aware datetime

record anchor_draft =
  an_name :: "string option"
  an_at :: "stamp option"

record requirement_draft =
  rd_destination :: "string option"
  rd_start_date :: "py_date option"
  rd_end_date :: "py_date option"
  rd_travelers :: "int option"
  rd_arrival :: "anchor_draft option"
  rd_departure :: "anchor_draft option"
  rd_accommodation :: "string option"
  rd_budget :: "rat option"
  rd_interests :: "string list"
  rd_avoid :: "string list"
  rd_must_visit :: "string list"
  rd_pace :: "pace option"
  rd_mobility :: "mobility_constraints option"
  rd_daily_start :: "py_time option"
  rd_daily_end :: "py_time option"

record requirement_patch =
  pt_destination :: "string option"
  pt_start_date :: "py_date option"
  pt_end_date :: "py_date option"
  pt_travelers :: "int option"
  pt_arrival :: "anchor_draft option"
  pt_departure :: "anchor_draft option"
  pt_accommodation :: "string option"
  pt_budget :: "rat option"
  pt_interests :: "string list option"
  pt_avoid :: "string list option"
  pt_must_visit :: "string list option"
  pt_pace :: "pace option"
  pt_mobility :: "mobility_constraints option"
  pt_daily_start :: "py_time option"
  pt_daily_end :: "py_time option"

definition normalize_optional_text :: "string option \<Rightarrow> string option" where
  "normalize_optional_text v =
     (case v of None \<Rightarrow> None | Some s \<Rightarrow> if py_strip s = [] then None else Some (py_strip s))"

fun normalize_terms_from :: "string list \<Rightarrow> string list \<Rightarrow> string list" where
  "normalize_terms_from seen [] = []"
| "normalize_terms_from seen (v # vs) =
     (let item = py_strip v; key = casefold item
      in if item = [] \<or> key \<in> set seen then normalize_terms_from seen vs
         else item # normalize_terms_from (key # seen) vs)"

definition normalize_terms :: "string list \<Rightarrow> string list" where
  "normalize_terms vs = normalize_terms_from [] vs"

definition normalize_anchor :: "anchor_draft option \<Rightarrow> anchor_draft option" where
  "normalize_anchor a = map_option (\<lambda>x. x\<lparr>an_name := normalize_optional_text (an_name x)\<rparr>) a"

text \<open>The validation of a draft by its model: bounds of the fields, then the normalising validators.\<close>

definition draft_bounds :: "requirement_draft \<Rightarrow> bool" where
  "draft_bounds d \<longleftrightarrow> length (rd_interests d) \<le> 100 \<and> length (rd_avoid d) \<le> 100 \<and> length (rd_must_visit d) \<le> 100 \<and>
     (\<forall>m. rd_mobility d = Some m \<longrightarrow> mobility_fields_ok m)"

lemma draft_bounds_code [code]:
  "draft_bounds d \<longleftrightarrow> length (rd_interests d) \<le> 100 \<and> length (rd_avoid d) \<le> 100 \<and> length (rd_must_visit d) \<le> 100 \<and>
     (case rd_mobility d of None \<Rightarrow> True | Some m \<Rightarrow> mobility_fields_ok m)"
  by (auto simp: draft_bounds_def split: option.splits)

definition normalize_draft :: "requirement_draft \<Rightarrow> requirement_draft" where
  "normalize_draft d = d\<lparr>rd_destination := normalize_optional_text (rd_destination d),
     rd_accommodation := normalize_optional_text (rd_accommodation d),
     rd_arrival := normalize_anchor (rd_arrival d), rd_departure := normalize_anchor (rd_departure d),
     rd_interests := normalize_terms (rd_interests d), rd_avoid := normalize_terms (rd_avoid d),
     rd_must_visit := normalize_terms (rd_must_visit d)\<rparr>"

definition validate_draft :: "requirement_draft \<Rightarrow> (string, requirement_draft) result" where
  "validate_draft d = (if draft_bounds d then Inr (normalize_draft d) else Inl ''validation error: RequirementDraft'')"

definition draft_ok :: "requirement_draft \<Rightarrow> bool" where
  "draft_ok d \<longleftrightarrow> validate_draft d = Inr d"

definition normalize_patch :: "requirement_patch \<Rightarrow> requirement_patch" where
  "normalize_patch p = p\<lparr>pt_destination := normalize_optional_text (pt_destination p),
     pt_accommodation := normalize_optional_text (pt_accommodation p),
     pt_arrival := normalize_anchor (pt_arrival p), pt_departure := normalize_anchor (pt_departure p),
     pt_interests := map_option normalize_terms (pt_interests p), pt_avoid := map_option normalize_terms (pt_avoid p),
     pt_must_visit := map_option normalize_terms (pt_must_visit p)\<rparr>"

section \<open>Issues\<close>

datatype issue_code = Issue_missing | Issue_ambiguous | Issue_conflict | Issue_not_found | Issue_invalid

datatype requirement_text =
  Missing_field string | Ask_missing string
| Dates_reversed | Ask_dates | Departure_first | Ask_transport_times
| Arrival_before_start | Ask_start_or_arrival | Departure_after_end | Ask_end_or_departure
| Travelers_out_of_range | Ask_travelers | Budget_not_positive | Ask_budget
| Window_reversed | Ask_window
| Anchor_not_found string string | Anchor_ambiguous string string | Ask_anchor string

record requirement_issue =
  ri_code :: issue_code
  ri_field :: string
  ri_message :: requirement_text
  ri_question :: "requirement_text option"
  ri_blocking :: bool

definition mk_issue :: "issue_code \<Rightarrow> string \<Rightarrow> requirement_text \<Rightarrow> requirement_text \<Rightarrow> requirement_issue" where
  "mk_issue code field message question =
     \<lparr>ri_code = code, ri_field = field, ri_message = message, ri_question = Some question, ri_blocking = True\<rparr>"

section \<open>Validation\<close>

definition localized :: "stamp \<Rightarrow> tz \<Rightarrow> datetime" where
  "localized v zone = (case v of Aware d \<Rightarrow> astimezone d zone | Naive l \<Rightarrow> \<lparr>dt_local = l, dt_tz = zone\<rparr>)"

definition anchor_name :: "anchor_draft option \<Rightarrow> string option" where
  "anchor_name a = (case a of None \<Rightarrow> None | Some x \<Rightarrow> (if an_name x = Some [] then None else an_name x))"

definition anchor_at :: "anchor_draft option \<Rightarrow> stamp option" where
  "anchor_at a = (case a of None \<Rightarrow> None | Some x \<Rightarrow> an_at x)"

definition missing_requirements :: "requirement_draft \<Rightarrow> (string \<times> bool) list" where
  "missing_requirements d =
     [(''destination'', rd_destination d \<in> {None, Some []}), (''start_date'', rd_start_date d = None),
      (''end_date'', rd_end_date d = None), (''arrival.name'', anchor_name (rd_arrival d) = None),
      (''arrival.at'', anchor_at (rd_arrival d) = None), (''departure.name'', anchor_name (rd_departure d) = None),
      (''departure.at'', anchor_at (rd_departure d) = None)]"

definition issue_if :: "bool \<Rightarrow> issue_code \<Rightarrow> string \<Rightarrow> requirement_text \<Rightarrow> requirement_text \<Rightarrow> requirement_issue list" where
  "issue_if b code field message question = (if b then [mk_issue code field message question] else [])"

definition both :: "'a option \<Rightarrow> 'b option \<Rightarrow> ('a \<Rightarrow> 'b \<Rightarrow> bool) \<Rightarrow> bool" where
  "both x y p = (case (x, y) of (Some a, Some b) \<Rightarrow> p a b | _ \<Rightarrow> False)"

definition validate_requirement :: "requirement_draft \<Rightarrow> tz \<Rightarrow> requirement_issue list" where
  "validate_requirement d zone =
     (let arrival_at = anchor_at (rd_arrival d); departure_at = anchor_at (rd_departure d) in
      [mk_issue Issue_missing f (Missing_field f) (Ask_missing f). (f, b) \<leftarrow> missing_requirements d, b]
      @ issue_if (both (rd_start_date d) (rd_end_date d) (\<lambda>s e. e < s)) Issue_conflict ''date_range'' Dates_reversed Ask_dates
      @ issue_if (both arrival_at departure_at (\<lambda>a b. instant (localized b zone) \<le> instant (localized a zone)))
          Issue_conflict ''transport_time'' Departure_first Ask_transport_times
      @ issue_if (both arrival_at (rd_start_date d) (\<lambda>a s. date_of (localized a zone) < s))
          Issue_conflict ''arrival.at'' Arrival_before_start Ask_start_or_arrival
      @ issue_if (both departure_at (rd_end_date d) (\<lambda>b e. date_of (localized b zone) > e))
          Issue_conflict ''departure.at'' Departure_after_end Ask_end_or_departure
      @ issue_if (case rd_travelers d of None \<Rightarrow> False | Some n \<Rightarrow> \<not> (1 \<le> n \<and> n \<le> 20))
          Issue_invalid ''travelers'' Travelers_out_of_range Ask_travelers
      @ issue_if (case rd_budget d of None \<Rightarrow> False | Some b \<Rightarrow> b \<le> 0)
          Issue_invalid ''total_budget'' Budget_not_positive Ask_budget
      @ issue_if (both (rd_daily_start d) (rd_daily_end d) (\<lambda>s e. e \<le> s))
          Issue_conflict ''daily_window'' Window_reversed Ask_window)"

section \<open>Anchors\<close>

text \<open>The roles of an anchor are the strings \<open>arrival\<close>, \<open>departure\<close> and \<open>accommodation\<close>.\<close>

record anchor_intent =
  ai_roles :: "string list"
  ai_query :: poi_search_query

record anchor_resolution =
  ar_role :: string
  ar_query_name :: string
  ar_resolved_name :: string
  ar_poi_id :: string
  ar_coordinate :: coordinate
  ar_provider :: string
  ar_confidence :: rat

text \<open>Whitespace and (full-width) parentheses, in UTF-8.\<close>

definition dropped_tokens :: "string list" where
  "dropped_tokens = py_spaces @ [''('', '')'', [CHR 0xEF, CHR 0xBC, CHR 0x88], [CHR 0xEF, CHR 0xBC, CHR 0x89]]"

fun remove_tokens :: "nat \<Rightarrow> string \<Rightarrow> string" where
  "remove_tokens 0 s = s"
| "remove_tokens (Suc n) [] = []"
| "remove_tokens (Suc n) (c # s) =
     (case find (\<lambda>w. prefix w (c # s)) dropped_tokens of
        None \<Rightarrow> c # remove_tokens n s
      | Some w \<Rightarrow> remove_tokens n (drop (length w) (c # s)))"

definition anchor_key :: "string \<Rightarrow> string" where
  "anchor_key s = (let t = normalize s in remove_tokens (length t) t)"

definition anchor_candidates :: "requirement_draft \<Rightarrow> (string \<times> string option) list" where
  "anchor_candidates d = [(''arrival'', anchor_name (rd_arrival d)), (''departure'', anchor_name (rd_departure d)),
     (''accommodation'', (if rd_accommodation d = Some [] then None else rd_accommodation d))]"

definition add_intent ::
  "string \<Rightarrow> string \<Rightarrow> string \<Rightarrow> (string \<times> anchor_intent) list \<Rightarrow> (string \<times> anchor_intent) list" where
  "add_intent city role name intents =
     (case map_of intents (anchor_key name) of
        Some i \<Rightarrow> AList.update (anchor_key name) (i\<lparr>ai_roles := ai_roles i @ [role]\<rparr>) intents
      | None \<Rightarrow> intents @ [(anchor_key name, \<lparr>ai_roles = [role],
          ai_query = \<lparr>q_city = city, q_keyword = name, q_exact_match = True, q_limit = 5, q_priority = 200\<rparr>\<rparr>)])"

fun collect_intents ::
  "string \<Rightarrow> string list \<Rightarrow> (string \<times> string option) list \<Rightarrow> (string \<times> anchor_intent) list \<Rightarrow> (string \<times> anchor_intent) list" where
  "collect_intents city roles [] intents = intents"
| "collect_intents city roles ((role, name) # cs) intents =
     collect_intents city roles cs
       (case name of None \<Rightarrow> intents
        | Some s \<Rightarrow> if role \<in> set roles then add_intent city role s intents else intents)"

definition build_anchor_search_plan :: "requirement_draft \<Rightarrow> string list \<Rightarrow> (string, anchor_intent list) result" where
  "build_anchor_search_plan d roles =
     (case rd_destination d of
        Some city \<Rightarrow> if city = [] then Inl ''destination is required before anchor resolution''
          else Inr (map snd (collect_intents city roles (anchor_candidates d) []))
      | None \<Rightarrow> Inl ''destination is required before anchor resolution'')"

definition matching_facts :: "string \<Rightarrow> poi_facts list \<Rightarrow> poi_facts list" where
  "matching_facts name fs =
     (let q = anchor_key name; exact = filter (\<lambda>f. anchor_key (f_name f) = q) fs
      in if exact \<noteq> [] then exact else filter (\<lambda>f. overlap_names q (anchor_key (f_name f))) fs)"

definition anchor_field :: "string \<Rightarrow> string" where
  "anchor_field role = (if role \<noteq> ''accommodation'' then role @ ''.name'' else ''accommodation_name'')"

definition anchor_issue :: "string \<Rightarrow> string \<Rightarrow> issue_code \<Rightarrow> requirement_issue" where
  "anchor_issue role name code =
     mk_issue code (anchor_field role)
       (if code = Issue_not_found then Anchor_not_found role name else Anchor_ambiguous role name) (Ask_anchor role)"

definition resolution_of :: "string \<Rightarrow> string \<Rightarrow> poi_facts \<Rightarrow> anchor_resolution" where
  "resolution_of role name f =
     \<lparr>ar_role = role, ar_query_name = name, ar_resolved_name = f_name f, ar_poi_id = f_id f,
      ar_coordinate = f_coordinate f, ar_provider = f_provider f, ar_confidence = f_data_confidence f\<rparr>"

text \<open>One intent with its result: resolutions for its roles, or an issue for each.\<close>

definition resolve_intent ::
  "anchor_intent \<Rightarrow> poi_facts list \<Rightarrow> (string \<times> anchor_resolution) list \<times> requirement_issue list
     \<Rightarrow> (string \<times> anchor_resolution) list \<times> requirement_issue list" where
  "resolve_intent i fs acc =
     (let name = q_keyword (ai_query i); matches = matching_facts name fs in
      case matches of
        [f] \<Rightarrow> (foldl (\<lambda>m role. AList.update role (resolution_of role name f) m) (fst acc) (ai_roles i), snd acc)
      | _ \<Rightarrow> (fst acc, snd acc @ map (\<lambda>role. anchor_issue role name
            (if matches = [] then Issue_not_found else Issue_ambiguous)) (ai_roles i)))"

definition resolve_result ::
  "anchor_intent \<times> poi_facts list tool_result \<Rightarrow> (string \<times> anchor_resolution) list \<times> requirement_issue list
     \<Rightarrow> (string, (string \<times> anchor_resolution) list \<times> requirement_issue list) result" where
  "resolve_result ir acc =
     (case tr_data (snd ir) of
        None \<Rightarrow> Inl ''failed tool results must be handled before resolution''
      | Some fs \<Rightarrow> if tr_status (snd ir) = Tool_failed then Inl ''failed tool results must be handled before resolution''
          else Inr (resolve_intent (fst ir) fs acc))"

definition resolve_anchor_search_results ::
  "anchor_intent list \<Rightarrow> poi_facts list tool_result list
     \<Rightarrow> (string, (string \<times> anchor_resolution) list \<times> requirement_issue list) result" where
  "resolve_anchor_search_results plan results =
     (if length plan \<noteq> length results then Inl ''anchor plan and results must have the same length''
      else fold_res resolve_result (zip plan results) ([], []))"

section \<open>Assembly\<close>

text \<open>The construction of a \<open>TripSpec\<close>: its normalising validator, its bounds and its date check.\<close>

definition construct_trip :: "trip_spec \<Rightarrow> (string, trip_spec) result" where
  "construct_trip t =
     (let t' = t\<lparr>interests := normalize_preference_terms (interests t), avoid := normalize_preference_terms (avoid t),
                 must_visit := normalize_preference_terms (must_visit t)\<rparr>
      in if \<not> trip_fields_ok t then Inl ''validation error: TripSpec'' else validate_trip_dates t')"

definition transport_of :: "anchor_resolution \<Rightarrow> stamp \<Rightarrow> tz \<Rightarrow> transport_anchor" where
  "transport_of r at_stamp zone =
     \<lparr>ta_name = ar_resolved_name r, ta_at = localized at_stamp zone, ta_coordinate = ar_coordinate r\<rparr>"

definition default_of :: "'a option \<Rightarrow> 'a \<Rightarrow> 'a" where
  "default_of x y = (case x of None \<Rightarrow> y | Some v \<Rightarrow> v)"

definition lodging :: "requirement_draft \<Rightarrow> (string \<times> anchor_resolution) list \<Rightarrow> (string, location_anchor option) result" where
  "lodging d resolutions =
     (if rd_accommodation d \<in> {None, Some []} then Inr None
      else case map_of resolutions ''accommodation'' of
          None \<Rightarrow> Inl ''accommodation anchor must be resolved''
        | Some r \<Rightarrow> Inr (Some \<lparr>la_name = ar_resolved_name r, la_coordinate = ar_coordinate r\<rparr>))"

text \<open>The assertions of the code hold because an issue is reported for each missing value.\<close>

definition assemble_trip_spec :: "requirement_draft \<Rightarrow> (string \<times> anchor_resolution) list \<Rightarrow> tz \<Rightarrow> (string, trip_spec) result" where
  "assemble_trip_spec d resolutions zone =
     (if validate_requirement d zone \<noteq> [] then Inl ''cannot assemble TripSpec with requirement issues''
      else case (map_of resolutions ''arrival'', map_of resolutions ''departure'') of
        (Some ra, Some rd) \<Rightarrow>
          (case (rd_destination d, rd_start_date d, rd_end_date d, anchor_at (rd_arrival d), anchor_at (rd_departure d)) of
             (Some city, Some s, Some e, Some a, Some b) \<Rightarrow>
               bind_res (lodging d resolutions) (\<lambda>hotel.
                 construct_trip \<lparr>destination = city, start_date = s, end_date = e,
                   travelers = default_of (rd_travelers d) 1, arrival = transport_of ra a zone,
                   departure = transport_of rd b zone, accommodation = hotel, total_budget = rd_budget d,
                   interests = rd_interests d, avoid = rd_avoid d, must_visit = rd_must_visit d,
                   trip_pace = default_of (rd_pace d) Pace_balanced, mobility = default_of (rd_mobility d) default_mobility,
                   daily_start = default_of (rd_daily_start d) (9 * 60 * minute),
                   daily_end = default_of (rd_daily_end d) (20 * 60 * minute)\<rparr>)
           | _ \<Rightarrow> Inl ''AssertionError'')
      | _ \<Rightarrow> Inl ''arrival and departure anchors must be resolved'')"

section \<open>Clarification\<close>

definition composite_targets :: "(string \<times> string list) list" where
  "composite_targets = [(''date_range'', [''start_date'', ''end_date'']), (''transport_time'', [''arrival.at'', ''departure.at'']),
     (''daily_window'', [''daily_start'', ''daily_end''])]"

definition conflict_targets :: "(string \<times> string list) list" where
  "conflict_targets = [(''arrival.at'', [''start_date'', ''arrival.at'']), (''departure.at'', [''end_date'', ''departure.at''])]"

definition fields_of_issue :: "requirement_issue \<Rightarrow> string list" where
  "fields_of_issue i =
     (case map_of composite_targets (ri_field i) of
        Some fs \<Rightarrow> fs
      | None \<Rightarrow> (case (if ri_code i = Issue_conflict then map_of conflict_targets (ri_field i) else None) of
            Some fs \<Rightarrow> fs | None \<Rightarrow> [ri_field i]))"

text \<open>A list without repetitions, in the order of first occurrence (\<open>dict.fromkeys\<close>).\<close>

definition first_unique :: "'a list \<Rightarrow> 'a list" where
  "first_unique xs = foldl (\<lambda>acc x. if x \<in> set acc then acc else acc @ [x]) [] xs"

definition clarification_target_fields :: "requirement_issue list \<Rightarrow> string list" where
  "clarification_target_fields issues = first_unique (concat (map fields_of_issue (filter ri_blocking issues)))"

text \<open>The fields a patch can write; their names are the strings of the code.\<close>

datatype draft_field =
  Df_destination | Df_start_date | Df_end_date | Df_travelers | Df_accommodation | Df_budget | Df_interests | Df_avoid
| Df_must_visit | Df_pace | Df_mobility | Df_daily_start | Df_daily_end | Df_arrival_name | Df_arrival_at
| Df_departure_name | Df_departure_at

fun field_name :: "draft_field \<Rightarrow> string" where
  "field_name Df_destination = ''destination''"
| "field_name Df_start_date = ''start_date''"
| "field_name Df_end_date = ''end_date''"
| "field_name Df_travelers = ''travelers''"
| "field_name Df_accommodation = ''accommodation_name''"
| "field_name Df_budget = ''total_budget''"
| "field_name Df_interests = ''interests''"
| "field_name Df_avoid = ''avoid''"
| "field_name Df_must_visit = ''must_visit''"
| "field_name Df_pace = ''pace''"
| "field_name Df_mobility = ''mobility''"
| "field_name Df_daily_start = ''daily_start''"
| "field_name Df_daily_end = ''daily_end''"
| "field_name Df_arrival_name = ''arrival.name''"
| "field_name Df_arrival_at = ''arrival.at''"
| "field_name Df_departure_name = ''departure.name''"
| "field_name Df_departure_at = ''departure.at''"

datatype field_value =
  F_text string | F_date py_date | F_int int | F_dec rat | F_terms "string list" | F_pace pace
| F_mobility mobility_constraints | F_time py_time | F_stamp stamp

text \<open>Python's equality: aware datetimes are compared by their instants.\<close>

fun field_eq :: "field_value \<Rightarrow> field_value \<Rightarrow> bool" where
  "field_eq (F_stamp (Aware a)) (F_stamp (Aware b)) = (instant a = instant b)"
| "field_eq x y = (x = y)"

definition some_field :: "draft_field \<Rightarrow> ('a \<Rightarrow> field_value) \<Rightarrow> 'a option \<Rightarrow> (draft_field \<times> field_value) list" where
  "some_field f con v = (case v of None \<Rightarrow> [] | Some x \<Rightarrow> [(f, con x)])"

definition anchor_values :: "draft_field \<Rightarrow> draft_field \<Rightarrow> anchor_draft option \<Rightarrow> (draft_field \<times> field_value) list" where
  "anchor_values name_field at_field a =
     (case a of None \<Rightarrow> [] | Some x \<Rightarrow> some_field name_field F_text (an_name x) @ some_field at_field F_stamp (an_at x))"

definition non_null_patch_values :: "requirement_patch \<Rightarrow> (draft_field \<times> field_value) list" where
  "non_null_patch_values p =
     some_field Df_destination F_text (pt_destination p) @ some_field Df_start_date F_date (pt_start_date p)
     @ some_field Df_end_date F_date (pt_end_date p) @ some_field Df_travelers F_int (pt_travelers p)
     @ some_field Df_accommodation F_text (pt_accommodation p) @ some_field Df_budget F_dec (pt_budget p)
     @ some_field Df_interests F_terms (pt_interests p) @ some_field Df_avoid F_terms (pt_avoid p)
     @ some_field Df_must_visit F_terms (pt_must_visit p) @ some_field Df_pace F_pace (pt_pace p)
     @ some_field Df_mobility F_mobility (pt_mobility p) @ some_field Df_daily_start F_time (pt_daily_start p)
     @ some_field Df_daily_end F_time (pt_daily_end p)
     @ anchor_values Df_arrival_name Df_arrival_at (pt_arrival p)
     @ anchor_values Df_departure_name Df_departure_at (pt_departure p)"

fun value_at :: "requirement_draft \<Rightarrow> draft_field \<Rightarrow> field_value option" where
  "value_at d Df_destination = map_option F_text (rd_destination d)"
| "value_at d Df_start_date = map_option F_date (rd_start_date d)"
| "value_at d Df_end_date = map_option F_date (rd_end_date d)"
| "value_at d Df_travelers = map_option F_int (rd_travelers d)"
| "value_at d Df_accommodation = map_option F_text (rd_accommodation d)"
| "value_at d Df_budget = map_option F_dec (rd_budget d)"
| "value_at d Df_interests = Some (F_terms (rd_interests d))"
| "value_at d Df_avoid = Some (F_terms (rd_avoid d))"
| "value_at d Df_must_visit = Some (F_terms (rd_must_visit d))"
| "value_at d Df_pace = map_option F_pace (rd_pace d)"
| "value_at d Df_mobility = map_option F_mobility (rd_mobility d)"
| "value_at d Df_daily_start = map_option F_time (rd_daily_start d)"
| "value_at d Df_daily_end = map_option F_time (rd_daily_end d)"
| "value_at d Df_arrival_name = map_option F_text (Option.bind (rd_arrival d) an_name)"
| "value_at d Df_arrival_at = map_option F_stamp (Option.bind (rd_arrival d) an_at)"
| "value_at d Df_departure_name = map_option F_text (Option.bind (rd_departure d) an_name)"
| "value_at d Df_departure_at = map_option F_stamp (Option.bind (rd_departure d) an_at)"

definition anchor_or_new :: "anchor_draft option \<Rightarrow> anchor_draft" where
  "anchor_or_new a = default_of a \<lparr>an_name = None, an_at = None\<rparr>"

text \<open>A value of another type is not written; a patch has none.\<close>

fun set_value :: "draft_field \<Rightarrow> field_value \<Rightarrow> requirement_draft \<Rightarrow> requirement_draft" where
  "set_value Df_destination v d = (case v of F_text x \<Rightarrow> d\<lparr>rd_destination := Some x\<rparr> | _ \<Rightarrow> d)"
| "set_value Df_start_date v d = (case v of F_date x \<Rightarrow> d\<lparr>rd_start_date := Some x\<rparr> | _ \<Rightarrow> d)"
| "set_value Df_end_date v d = (case v of F_date x \<Rightarrow> d\<lparr>rd_end_date := Some x\<rparr> | _ \<Rightarrow> d)"
| "set_value Df_travelers v d = (case v of F_int x \<Rightarrow> d\<lparr>rd_travelers := Some x\<rparr> | _ \<Rightarrow> d)"
| "set_value Df_accommodation v d = (case v of F_text x \<Rightarrow> d\<lparr>rd_accommodation := Some x\<rparr> | _ \<Rightarrow> d)"
| "set_value Df_budget v d = (case v of F_dec x \<Rightarrow> d\<lparr>rd_budget := Some x\<rparr> | _ \<Rightarrow> d)"
| "set_value Df_interests v d = (case v of F_terms x \<Rightarrow> d\<lparr>rd_interests := x\<rparr> | _ \<Rightarrow> d)"
| "set_value Df_avoid v d = (case v of F_terms x \<Rightarrow> d\<lparr>rd_avoid := x\<rparr> | _ \<Rightarrow> d)"
| "set_value Df_must_visit v d = (case v of F_terms x \<Rightarrow> d\<lparr>rd_must_visit := x\<rparr> | _ \<Rightarrow> d)"
| "set_value Df_pace v d = (case v of F_pace x \<Rightarrow> d\<lparr>rd_pace := Some x\<rparr> | _ \<Rightarrow> d)"
| "set_value Df_mobility v d = (case v of F_mobility x \<Rightarrow> d\<lparr>rd_mobility := Some x\<rparr> | _ \<Rightarrow> d)"
| "set_value Df_daily_start v d = (case v of F_time x \<Rightarrow> d\<lparr>rd_daily_start := Some x\<rparr> | _ \<Rightarrow> d)"
| "set_value Df_daily_end v d = (case v of F_time x \<Rightarrow> d\<lparr>rd_daily_end := Some x\<rparr> | _ \<Rightarrow> d)"
| "set_value Df_arrival_name v d = (case v of F_text x \<Rightarrow> d\<lparr>rd_arrival := Some (anchor_or_new (rd_arrival d)\<lparr>an_name := Some x\<rparr>)\<rparr> | _ \<Rightarrow> d)"
| "set_value Df_arrival_at v d = (case v of F_stamp x \<Rightarrow> d\<lparr>rd_arrival := Some (anchor_or_new (rd_arrival d)\<lparr>an_at := Some x\<rparr>)\<rparr> | _ \<Rightarrow> d)"
| "set_value Df_departure_name v d = (case v of F_text x \<Rightarrow> d\<lparr>rd_departure := Some (anchor_or_new (rd_departure d)\<lparr>an_name := Some x\<rparr>)\<rparr> | _ \<Rightarrow> d)"
| "set_value Df_departure_at v d = (case v of F_stamp x \<Rightarrow> d\<lparr>rd_departure := Some (anchor_or_new (rd_departure d)\<lparr>an_at := Some x\<rparr>)\<rparr> | _ \<Rightarrow> d)"

definition already_there :: "requirement_draft \<Rightarrow> draft_field \<Rightarrow> field_value \<Rightarrow> bool" where
  "already_there d f v = (case value_at d f of None \<Rightarrow> False | Some w \<Rightarrow> field_eq w v)"

definition value_named :: "(draft_field \<times> field_value) list \<Rightarrow> string \<Rightarrow> (draft_field \<times> field_value) option" where
  "value_named values name = find (\<lambda>(f, v). field_name f = name) values"

text \<open>The loop over the allowed fields; the comparison is with the draft before any change.\<close>

fun merge_loop ::
  "requirement_draft \<Rightarrow> (draft_field \<times> field_value) list \<Rightarrow> string list \<Rightarrow> requirement_draft \<times> draft_field list
     \<Rightarrow> requirement_draft \<times> draft_field list" where
  "merge_loop d values [] acc = acc"
| "merge_loop d values (name # names) acc =
     merge_loop d values names
       (case value_named values name of
          None \<Rightarrow> acc
        | Some (f, v) \<Rightarrow> if already_there d f v then acc else (set_value f v (fst acc), snd acc @ [f]))"

definition merge_requirement_patch ::
  "requirement_draft \<Rightarrow> requirement_patch \<Rightarrow> string list \<Rightarrow> (string, requirement_draft \<times> draft_field list \<times> string list) result" where
  "merge_requirement_patch d p allowed =
     (let values = non_null_patch_values p; merged = merge_loop d values (sorted_set allowed) (d, []);
          rejected = sort (filter (\<lambda>f. f \<notin> set allowed) (map (field_name \<circ> fst) values))
      in bind_res (validate_draft (fst merged)) (\<lambda>d'. Inr (d', snd merged, rejected)))"

fun role_of_field :: "draft_field \<Rightarrow> string list" where
  "role_of_field Df_arrival_name = [''arrival'']"
| "role_of_field Df_departure_name = [''departure'']"
| "role_of_field Df_accommodation = [''accommodation'']"
| "role_of_field _ = []"

definition invalidated_anchor_roles :: "draft_field list \<Rightarrow> string list" where
  "invalidated_anchor_roles changed =
     (if Df_destination \<in> set changed then [''accommodation'', ''arrival'', ''departure'']
      else sorted_set (concat (map role_of_field changed)))"

text \<open>The roles a draft needs anchors for (\<open>requirements/workflow.py\<close>).\<close>

definition required_anchor_roles :: "requirement_draft \<Rightarrow> string list" where
  "required_anchor_roles d = map fst (filter (\<lambda>(role, name). name \<noteq> None) (anchor_candidates d))"

end
