(* ===== verification/RequirementFacts.thy ===== *)
theory RequirementFacts
  imports Requirements Samples
begin

text \<open>
  Proofs about the requirement drafts: \<open>str.strip\<close> and the normalising validators are
  idempotent, patches change exactly what they report, and drafts without issues become
  valid trips.
\<close>

section \<open>Stripping\<close>

lemma strip_prefixes_suffix: "\<exists>p. s = p @ strip_prefixes ws n s"
proof (induction n arbitrary: s)
  case (Suc n)
  show ?case
  proof (cases "find (\<lambda>w. w \<noteq> [] \<and> prefix w s) ws")
    case (Some w)
    then have "prefix w s" by (auto simp: find_Some_iff)
    then have "s = w @ drop (length w) s" by (auto simp: prefix_def)
    moreover obtain p where "drop (length w) s = p @ strip_prefixes ws n (drop (length w) s)" using Suc by blast
    ultimately have "s = (w @ p) @ strip_prefixes ws (Suc n) s" using Some by simp
    then show ?thesis by blast
  qed simp
qed simp

lemma strip_prefixes_clean:
  "length s \<le> n \<Longrightarrow> w \<in> set ws \<Longrightarrow> w \<noteq> [] \<Longrightarrow> \<not> prefix w (strip_prefixes ws n s)"
proof (induction n arbitrary: s)
  case (Suc n)
  show ?case
  proof (cases "find (\<lambda>w. w \<noteq> [] \<and> prefix w s) ws")
    case None
    then have "\<forall>w \<in> set ws. w \<noteq> [] \<longrightarrow> \<not> prefix w s" by (auto simp: find_None_iff)
    then show ?thesis using Suc.prems None by simp
  next
    case (Some v)
    then have "v \<noteq> []" "prefix v s" by (auto simp: find_Some_iff)
    then have "length (drop (length v) s) \<le> n" using Suc.prems(1) by (cases v; cases s) auto
    then show ?thesis using Suc Some by simp
  qed
qed auto

lemma strip_prefixes_id: "\<forall>w \<in> set ws. w \<noteq> [] \<longrightarrow> \<not> prefix w s \<Longrightarrow> strip_prefixes ws n s = s"
  by (cases n) (auto split: option.split simp: find_Some_iff)

lemma py_strip_idem [simp]: "py_strip (py_strip s) = py_strip s"
proof -
  define l where "l = strip_prefixes py_spaces (length s) s"
  define r where "r = strip_prefixes (map rev py_spaces) (length l) (rev l)"
  have strip: "py_strip s = rev r" by (simp add: py_strip_def Let_def l_def r_def)
  obtain p where "rev l = p @ r" unfolding r_def using strip_prefixes_suffix by blast
  then have "l = rev r @ rev p" by (metis rev_append rev_rev_ident)
  then have pre: "prefix (rev r) l" by simp
  have "\<not> prefix w l" if "w \<in> set py_spaces" "w \<noteq> []" for w
    unfolding l_def using that by (intro strip_prefixes_clean) auto
  then have "\<forall>w \<in> set py_spaces. w \<noteq> [] \<longrightarrow> \<not> prefix w (rev r)" using pre by (meson prefix_order.trans)
  then have one: "strip_prefixes py_spaces (length (rev r)) (rev r) = rev r" by (rule strip_prefixes_id)
  have "\<forall>w \<in> set (map rev py_spaces). w \<noteq> [] \<longrightarrow> \<not> prefix w r"
    unfolding r_def using strip_prefixes_clean [of "rev l" "length l" _ "map rev py_spaces"] by auto
  then have "strip_prefixes (map rev py_spaces) (length (rev r)) r = r" by (rule strip_prefixes_id)
  then show ?thesis unfolding strip using one by (simp add: py_strip_def [of "rev r"] Let_def)
qed

lemma normalize_optional_idem [simp]: "normalize_optional_text (normalize_optional_text v) = normalize_optional_text v"
  by (auto simp: normalize_optional_text_def split: option.splits)

section \<open>Normalised terms\<close>

definition clean_terms :: "string list \<Rightarrow> string list \<Rightarrow> bool" where
  "clean_terms seen xs \<longleftrightarrow> (\<forall>x \<in> set xs. py_strip x = x \<and> x \<noteq> []) \<and> distinct (map casefold xs) \<and>
     set (map casefold xs) \<inter> set seen = {}"

lemma normalize_terms_clean: "clean_terms seen (normalize_terms_from seen xs)"
proof (induction seen xs rule: normalize_terms_from.induct)
  case (2 seen v vs)
  show ?case
  proof (cases "py_strip v = [] \<or> casefold (py_strip v) \<in> set seen")
    case True
    then show ?thesis using "2.IH"(1) [OF refl refl] by (simp add: Let_def)
  next
    case False
    have "clean_terms (casefold (py_strip v) # seen) (normalize_terms_from (casefold (py_strip v) # seen) vs)"
      using "2.IH"(2) [OF refl refl] False by blast
    then show ?thesis using False by (auto simp: clean_terms_def Let_def)
  qed
qed (simp add: clean_terms_def)

lemma clean_terms_fixed: "clean_terms seen xs \<Longrightarrow> normalize_terms_from seen xs = xs"
  by (induction seen xs rule: normalize_terms_from.induct) (auto simp: clean_terms_def Let_def)

lemma length_normalize_terms_from: "length (normalize_terms_from seen xs) \<le> length xs"
  by (induction seen xs rule: normalize_terms_from.induct) (auto simp: Let_def intro: le_SucI)

lemma normalize_terms_idem [simp]: "normalize_terms (normalize_terms xs) = normalize_terms xs"
  by (simp add: normalize_terms_def clean_terms_fixed normalize_terms_clean)

lemma normalize_anchor_idem [simp]: "normalize_anchor (normalize_anchor a) = normalize_anchor a"
  by (cases a) (simp_all add: normalize_anchor_def)

lemma normalize_draft_idem [simp]: "normalize_draft (normalize_draft d) = normalize_draft d"
  by (simp add: normalize_draft_def)

lemma draft_ok_iff: "draft_ok d \<longleftrightarrow> draft_bounds d \<and> normalize_draft d = d"
  by (auto simp: draft_ok_def validate_draft_def)

lemma normalize_draft_fixed:
  "normalize_draft d = d \<longleftrightarrow> normalize_optional_text (rd_destination d) = rd_destination d \<and>
     normalize_optional_text (rd_accommodation d) = rd_accommodation d \<and> normalize_anchor (rd_arrival d) = rd_arrival d \<and>
     normalize_anchor (rd_departure d) = rd_departure d \<and> normalize_terms (rd_interests d) = rd_interests d \<and>
     normalize_terms (rd_avoid d) = rd_avoid d \<and> normalize_terms (rd_must_visit d) = rd_must_visit d"
  by (cases d) (auto simp: normalize_draft_def)

lemma length_normalize_terms: "length (normalize_terms xs) \<le> length xs"
  by (simp add: normalize_terms_def length_normalize_terms_from)

lemma draft_bounds_normalize: "draft_bounds d \<Longrightarrow> draft_bounds (normalize_draft d)"
  using length_normalize_terms [of "rd_interests d"] length_normalize_terms [of "rd_avoid d"] length_normalize_terms [of "rd_must_visit d"]
  by (simp add: draft_bounds_def normalize_draft_def)

lemma validate_draft_ok: "validate_draft d = Inr d' \<Longrightarrow> draft_ok d'"
  by (auto simp: draft_ok_iff validate_draft_def draft_bounds_normalize split: if_split_asm)

lemma terms_kept: "normalize_terms xs = xs \<Longrightarrow> normalize_preference_terms xs = xs"
proof -
  assume "normalize_terms xs = xs"
  then have "\<forall>x \<in> set xs. py_strip x = x \<and> x \<noteq> []"
    using normalize_terms_clean [of "[]" xs] by (simp add: normalize_terms_def clean_terms_def)
  then show ?thesis unfolding normalize_preference_terms_def by (induction xs) auto
qed

section \<open>Patches\<close>

text \<open>A field and a value of its type.\<close>

fun typed :: "draft_field \<Rightarrow> field_value \<Rightarrow> bool" where
  "typed f (F_text s) = (f \<in> {Df_destination, Df_accommodation, Df_arrival_name, Df_departure_name})"
| "typed f (F_date d) = (f \<in> {Df_start_date, Df_end_date})"
| "typed f (F_int n) = (f = Df_travelers)"
| "typed f (F_dec b) = (f = Df_budget)"
| "typed f (F_terms xs) = (f \<in> {Df_interests, Df_avoid, Df_must_visit})"
| "typed f (F_pace p) = (f = Df_pace)"
| "typed f (F_mobility m) = (f = Df_mobility)"
| "typed f (F_time t) = (f \<in> {Df_daily_start, Df_daily_end})"
| "typed f (F_stamp v) = (f \<in> {Df_arrival_at, Df_departure_at})"

lemma field_name_inj [simp]: "field_name f = field_name g \<longleftrightarrow> f = g"
  by (cases f; cases g; simp)

text \<open>A value as the validators leave it.\<close>

fun normal_value :: "field_value \<Rightarrow> bool" where
  "normal_value (F_text s) = (s \<noteq> [] \<and> py_strip s = s)"
| "normal_value (F_terms xs) = (normalize_terms xs = xs)"
| "normal_value _ = True"

lemma anchor_or_new_fields [simp]:
  "an_name (anchor_or_new a) = Option.bind a an_name" "an_at (anchor_or_new a) = Option.bind a an_at"
  by (cases a; simp add: anchor_or_new_def default_of_def)+

lemma value_at_set: "typed f v \<Longrightarrow> value_at (set_value f v d) g = (if g = f then Some v else value_at d g)"
  by (cases f; cases v; simp; cases g; simp)

lemma normalize_optional_Some [simp]: "s \<noteq> [] \<Longrightarrow> py_strip s = s \<Longrightarrow> normalize_optional_text (Some s) = Some s"
  by (simp add: normalize_optional_text_def)

lemma normalize_anchor_fixed: "normalize_anchor a = a \<longleftrightarrow> (\<forall>x. a = Some x \<longrightarrow> normalize_optional_text (an_name x) = an_name x)"
proof (cases a)
  case (Some x)
  then show ?thesis by (cases x) (simp add: normalize_anchor_def)
qed (simp add: normalize_anchor_def)

lemma normalize_anchor_bind: "normalize_anchor a = a \<Longrightarrow> normalize_optional_text (Option.bind a an_name) = Option.bind a an_name"
  by (cases a) (simp_all add: normalize_anchor_fixed normalize_optional_text_def)

lemma set_value_normal:
  assumes "typed f v" "normal_value v" "normalize_draft d = d"
  shows "normalize_draft (set_value f v d) = set_value f v d"
proof -
  note fixed = assms(3) [unfolded normalize_draft_fixed]
  have arr: "normalize_anchor (Some (anchor_or_new a\<lparr>an_at := x\<rparr>)) = Some (anchor_or_new a\<lparr>an_at := x\<rparr>)"
    if "normalize_anchor a = a" for a x
    using normalize_anchor_bind [OF that] by (simp add: normalize_anchor_fixed)
  have name: "normalize_anchor (Some (anchor_or_new a\<lparr>an_name := Some s\<rparr>)) = Some (anchor_or_new a\<lparr>an_name := Some s\<rparr>)"
    if "s \<noteq> []" "py_strip s = s" for a s
    using that by (simp add: normalize_anchor_fixed)
  show ?thesis unfolding normalize_draft_fixed
    using assms(1,2) fixed by (cases f; cases v; simp add: arr name)
qed

lemma patch_values_typed: "(f, v) \<in> set (non_null_patch_values p) \<Longrightarrow> typed f v"
  by (auto simp: non_null_patch_values_def some_field_def anchor_values_def split: option.splits)

lemma subseq_distinct: "subseq xs ys \<Longrightarrow> distinct ys \<Longrightarrow> distinct xs"
  by (induction rule: list_emb.induct) (auto dest: list_emb_set)

lemma patch_values_distinct: "distinct (map fst (non_null_patch_values p))"
proof -
  have field: "subseq (map fst (some_field f con v)) [f]" for f and con :: "'a \<Rightarrow> field_value" and v
    by (cases v) (simp_all add: some_field_def)
  have anchor: "subseq (map fst (anchor_values f g a)) ([f] @ [g])" for f g a
    by (cases a) (simp_all only: anchor_values_def option.case map_append field list_emb_append_mono list.map list_emb_Nil)
  have "subseq (map fst (non_null_patch_values p))
      ([Df_destination] @ [Df_start_date] @ [Df_end_date] @ [Df_travelers] @ [Df_accommodation] @ [Df_budget] @ [Df_interests] @
       [Df_avoid] @ [Df_must_visit] @ [Df_pace] @ [Df_mobility] @ [Df_daily_start] @ [Df_daily_end] @
       ([Df_arrival_name] @ [Df_arrival_at]) @ ([Df_departure_name] @ [Df_departure_at]))"
    unfolding non_null_patch_values_def map_append by (intro list_emb_append_mono field anchor)
  then show ?thesis by (rule subseq_distinct) simp
qed

definition patch_ok :: "requirement_patch \<Rightarrow> bool" where
  "patch_ok p \<longleftrightarrow> normalize_patch p = p"

lemma patch_ok_fields:
  "patch_ok p \<longleftrightarrow> normalize_optional_text (pt_destination p) = pt_destination p \<and>
     normalize_optional_text (pt_accommodation p) = pt_accommodation p \<and> normalize_anchor (pt_arrival p) = pt_arrival p \<and>
     normalize_anchor (pt_departure p) = pt_departure p \<and> map_option normalize_terms (pt_interests p) = pt_interests p \<and>
     map_option normalize_terms (pt_avoid p) = pt_avoid p \<and> map_option normalize_terms (pt_must_visit p) = pt_must_visit p"
  unfolding patch_ok_def by (cases p) (auto simp: normalize_patch_def)

lemma normal_text: "normalize_optional_text x = x \<Longrightarrow> x = Some s \<Longrightarrow> normal_value (F_text s)"
  by (auto simp: normalize_optional_text_def split: if_split_asm)

lemma normal_terms: "map_option normalize_terms x = x \<Longrightarrow> x = Some xs \<Longrightarrow> normal_value (F_terms xs)"
  by simp

lemma in_some_field: "(f, v) \<in> set (some_field g con x) \<longleftrightarrow> f = g \<and> (\<exists>y. x = Some y \<and> v = con y)"
  by (cases x) (auto simp: some_field_def)

lemma in_anchor_values:
  assumes "normalize_anchor a = a" and "(f, v) \<in> set (anchor_values g h a)"
  shows "normal_value v"
proof (cases a)
  case (Some x)
  then have "normalize_optional_text (an_name x) = an_name x" using assms(1) unfolding normalize_anchor_fixed by blast
  then show ?thesis using assms(2) Some normal_text by (auto simp: anchor_values_def in_some_field)
qed (use assms(2) in \<open>simp add: anchor_values_def\<close>)

lemma patch_values_normal:
  assumes "patch_ok p" and "(f, v) \<in> set (non_null_patch_values p)"
  shows "normal_value v"
proof -
  note ok = assms(1) [unfolded patch_ok_fields]
  have other: "normal_value v" if "(f, v) \<in> set (some_field g con x)" "\<And>y. normal_value (con y)" for g and con :: "'x \<Rightarrow> field_value" and x
    using that by (auto simp: in_some_field)
  have texts: "normal_value v" if "(f, v) \<in> set (some_field g F_text x)" "normalize_optional_text x = x" for g x
    using that normal_text by (auto simp: in_some_field)
  have terms: "normal_value v" if "(f, v) \<in> set (some_field g F_terms x)" "map_option normalize_terms x = x" for g x
    using that normal_terms by (auto simp: in_some_field)
  have anchors: "normal_value v" if "(f, v) \<in> set (anchor_values g h x)" "normalize_anchor x = x" for g h x
    using in_anchor_values that by blast
  show ?thesis using assms(2) unfolding non_null_patch_values_def set_append Un_iff
    by (elim disjE) ((erule texts terms anchors, simp only: ok | erule other, simp)+)
qed

lemma value_named_iff:
  "distinct (map fst vals) \<Longrightarrow> value_named vals (field_name f) = map_option (Pair f) (map_of vals f)"
  unfolding value_named_def by (induction vals) auto

lemma value_named_SomeD: "value_named vals name = Some (f, v) \<Longrightarrow> (f, v) \<in> set vals \<and> field_name f = name"
  unfolding value_named_def by (auto simp: find_Some_iff set_conv_nth)

definition to_change :: "requirement_draft \<Rightarrow> (draft_field \<times> field_value) list \<Rightarrow> draft_field \<Rightarrow> bool" where
  "to_change d vals f \<longleftrightarrow> (\<exists>v. map_of vals f = Some v \<and> \<not> already_there d f v)"

lemma merge_loop_result:
  assumes "distinct (map fst vals)" and "\<And>f v. (f, v) \<in> set vals \<Longrightarrow> typed f v \<and> normal_value v"
    and "normalize_draft e = e" and "\<And>g. value_at e g = (if g \<in> set changed then map_of vals g else value_at d g)"
    and "merge_loop d vals names (e, changed) = (e', changed')"
  shows "normalize_draft e' = e' \<and> (\<forall>g. value_at e' g = (if g \<in> set changed' then map_of vals g else value_at d g)) \<and>
     set changed' = set changed \<union> {f. field_name f \<in> set names \<and> to_change d vals f}"
  using assms(3-)
proof (induction names arbitrary: e changed)
  case (Cons name names)
  show ?case
  proof (cases "\<exists>f v. value_named vals name = Some (f, v) \<and> \<not> already_there d f v")
    case True
    then obtain f v where fv: "value_named vals name = Some (f, v)" "\<not> already_there d f v" by blast
    then have mem: "(f, v) \<in> set vals" "field_name f = name" using value_named_SomeD by blast+
    then have look: "map_of vals f = Some v" using assms(1) by simp
    have ok: "typed f v" "normal_value v" using assms(2) mem(1) by blast+
    have "\<And>g. value_at (set_value f v e) g = (if g \<in> set (changed @ [f]) then map_of vals g else value_at d g)"
      using Cons.prems(2) look by (simp add: value_at_set [OF ok(1)])
    then have "normalize_draft e' = e' \<and> (\<forall>g. value_at e' g = (if g \<in> set changed' then map_of vals g else value_at d g)) \<and>
        set changed' = set (changed @ [f]) \<union> {f. field_name f \<in> set names \<and> to_change d vals f}"
      using Cons.prems fv set_value_normal [OF ok Cons.prems(1)]
      by (intro Cons.IH [of "set_value f v e" "changed @ [f]"]) simp_all
    moreover have "to_change d vals f" using look fv(2) by (simp add: to_change_def)
    ultimately show ?thesis using mem(2) by auto
  next
    case False
    then have "merge_loop d vals names (e, changed) = (e', changed')"
      using Cons.prems(3) by (auto split: option.splits prod.splits if_splits)
    then have "normalize_draft e' = e' \<and> (\<forall>g. value_at e' g = (if g \<in> set changed' then map_of vals g else value_at d g)) \<and>
        set changed' = set changed \<union> {f. field_name f \<in> set names \<and> to_change d vals f}"
      using Cons.prems(1,2) by (intro Cons.IH [of e changed])
    moreover have "\<not> to_change d vals f" if "field_name f = name" for f
      using False that value_named_iff [OF assms(1), of f] by (auto simp: to_change_def)
    ultimately show ?thesis by auto
  qed
qed auto

lemma merge_patch_effect:
  assumes "draft_ok d" and "patch_ok p" and "merge_requirement_patch d p allowed = Inr (d', changed, rejected)"
  shows "draft_ok d' \<and>
     (\<forall>f. value_at d' f = (if f \<in> set changed then map_of (non_null_patch_values p) f else value_at d f)) \<and>
     set changed = {f. field_name f \<in> set allowed \<and> (\<exists>v. map_of (non_null_patch_values p) f = Some v \<and> \<not> already_there d f v)} \<and>
     set rejected = field_name ` fst ` set (non_null_patch_values p) - set allowed"
proof -
  let ?vals = "non_null_patch_values p"
  obtain e where loop: "merge_loop d ?vals (sorted_set allowed) (d, []) = (e, changed)" and valid: "validate_draft e = Inr d'"
    and rejected: "rejected = sort (filter (\<lambda>f. f \<notin> set allowed) (map (field_name \<circ> fst) ?vals))"
    using assms(3) by (auto simp: merge_requirement_patch_def Let_def prod_eq_iff)
  have "normalize_draft d = d" using assms(1) by (simp add: draft_ok_iff)
  then have "normalize_draft e = e \<and> (\<forall>g. value_at e g = (if g \<in> set changed then map_of ?vals g else value_at d g)) \<and>
      set changed = set [] \<union> {f. field_name f \<in> set (sorted_set allowed) \<and> to_change d ?vals f}"
    using patch_values_typed patch_values_normal [OF assms(2)]
    by (intro merge_loop_result [OF patch_values_distinct _ _ _ loop]) auto
  then have result: "normalize_draft e = e" "\<forall>g. value_at e g = (if g \<in> set changed then map_of ?vals g else value_at d g)"
      "set changed = {f. field_name f \<in> set allowed \<and> to_change d ?vals f}"
    by auto
  then have "d' = e" using valid by (simp add: validate_draft_def split: if_splits)
  then show ?thesis using result validate_draft_ok [OF valid] rejected by (auto simp: to_change_def)
qed

text \<open>
  C21. A clarification changes only what was asked. Merging a patch into a draft yields a valid draft
  again, in which exactly the reported fields have the patch's values and every other field is
  as before; the changed fields are those with a value in the patch that differs and that were allowed, and the
  rejected ones are those the patch has but were not allowed.
\<close>

theorem clarification_changes_only_allowed_fields:
  assumes "draft_ok d" and "patch_ok p" and "merge_requirement_patch d p allowed = Inr (d', changed, rejected)"
  shows "draft_ok d' \<and>
     (\<forall>f. value_at d' f = (if f \<in> set changed then map_of (non_null_patch_values p) f else value_at d f)) \<and>
     set changed = {f. field_name f \<in> set allowed \<and> (\<exists>v. map_of (non_null_patch_values p) f = Some v \<and> \<not> already_there d f v)} \<and>
     set rejected = field_name ` fst ` set (non_null_patch_values p) - set allowed"
  by (rule merge_patch_effect [OF assms])

definition sample_requirement :: requirement_draft where
  "sample_requirement = \<lparr>rd_destination = Some ''Hangzhou'', rd_start_date = Some 739891, rd_end_date = Some 739892,
     rd_travelers = None, rd_arrival = Some \<lparr>an_name = Some ''East'', an_at = Some (Naive (739891 * day_us + 600 * minute))\<rparr>,
     rd_departure = None, rd_accommodation = None, rd_budget = None, rd_interests = [''tea''], rd_avoid = [],
     rd_must_visit = [], rd_pace = None, rd_mobility = None, rd_daily_start = None, rd_daily_end = None\<rparr>"

definition sample_answer :: requirement_patch where
  "sample_answer = \<lparr>pt_destination = Some ''Suzhou'', pt_start_date = None, pt_end_date = None, pt_travelers = Some 2,
     pt_arrival = None, pt_departure = Some \<lparr>an_name = Some ''West'', an_at = None\<rparr>, pt_accommodation = None,
     pt_budget = None, pt_interests = None, pt_avoid = None, pt_must_visit = None, pt_pace = None, pt_mobility = None,
     pt_daily_start = None, pt_daily_end = None\<rparr>"

lemma sample_merge:
  "merge_requirement_patch sample_requirement sample_answer [''departure.name'', ''departure.at''] =
     Inr (sample_requirement\<lparr>rd_departure := Some \<lparr>an_name = Some ''West'', an_at = None\<rparr>\<rparr>, [Df_departure_name],
       [''destination'', ''travelers''])"
  by code_simp

lemma sample_draft_ok: "draft_ok sample_requirement"
  by code_simp

lemma sample_patch_ok: "patch_ok sample_answer"
  by code_simp

theorem clarification_changes_only_allowed_fields_witness:
  "\<exists>d' changed rejected. merge_requirement_patch sample_requirement sample_answer [''departure.name'', ''departure.at''] = Inr (d', changed, rejected)
     \<and> value_at d' Df_destination = Some (F_text ''Hangzhou'') \<and> value_at d' Df_departure_name = Some (F_text ''West'')"
  using clarification_changes_only_allowed_fields [OF sample_draft_ok sample_patch_ok sample_merge] sample_merge
  by (auto simp: sample_requirement_def)

lemma field_eq_refl [simp]: "field_eq v v"
  by (cases "(v, v)" rule: field_eq.cases) auto

lemma merge_nothing:
  "(\<And>name f v. name \<in> set names \<Longrightarrow> value_named vals name = Some (f, v) \<Longrightarrow> already_there d f v) \<Longrightarrow> merge_loop d vals names acc = acc"
proof (induction names arbitrary: acc)
  case (Cons name names)
  have "merge_loop d vals (name # names) acc = merge_loop d vals names acc"
    using Cons.prems [of name] by (auto split: option.split)
  also have "\<dots> = acc" by (rule Cons.IH) (use Cons.prems in auto)
  finally show ?case .
qed simp

text \<open>
  C23. An answer can be read back. Every field an accepted patch has and was allowed to set then has
  the patch's value (as Python compares it), and merging the same patch again changes nothing,
  while the same fields are rejected.
\<close>

theorem answers_can_be_read_back:
  assumes "draft_ok d" and "patch_ok p" and "merge_requirement_patch d p allowed = Inr (d', changed, rejected)"
  shows "(\<forall>(f, v) \<in> set (non_null_patch_values p). field_name f \<in> set allowed \<longrightarrow> already_there d' f v) \<and>
     merge_requirement_patch d' p allowed = Inr (d', [], rejected)"
proof -
  let ?vals = "non_null_patch_values p"
  have effect: "draft_ok d'" "\<forall>f. value_at d' f = (if f \<in> set changed then map_of ?vals f else value_at d f)"
     "set changed = {f. field_name f \<in> set allowed \<and> (\<exists>v. map_of ?vals f = Some v \<and> \<not> already_there d f v)}"
    using merge_patch_effect [OF assms] by blast+
  have there: "already_there d' f v" if "(f, v) \<in> set ?vals" "field_name f \<in> set allowed" for f v
  proof -
    have v: "map_of ?vals f = Some v" using that(1) patch_values_distinct by simp
    show ?thesis
    proof (cases "f \<in> set changed")
      case True
      then show ?thesis using effect(2) v by (simp add: already_there_def)
    next
      case False
      then have "already_there d f v" using effect(3) v that(2) by auto
      then show ?thesis using effect(2) False by (simp add: already_there_def)
    qed
  qed
  have "merge_loop d' ?vals (sorted_set allowed) (d', []) = (d', [])"
    by (rule merge_nothing) (use value_named_SomeD there in fastforce)
  moreover have "rejected = sort (filter (\<lambda>f. f \<notin> set allowed) (map (field_name \<circ> fst) ?vals))"
    using assms(3) by (auto simp: merge_requirement_patch_def Let_def)
  ultimately show ?thesis using there effect(1) by (auto simp: merge_requirement_patch_def Let_def draft_ok_def)
qed

theorem answers_can_be_read_back_witness:
  "\<exists>d'. merge_requirement_patch sample_requirement sample_answer [''departure.name'', ''departure.at'']
       = Inr (d', [Df_departure_name], [''destination'', ''travelers'']) \<and>
     merge_requirement_patch d' sample_answer [''departure.name'', ''departure.at''] = Inr (d', [], [''destination'', ''travelers''])"
  using answers_can_be_read_back [OF sample_draft_ok sample_patch_ok sample_merge] sample_merge by blast

section \<open>Assembly\<close>

lemma issue_if_Nil [simp]: "issue_if b code field message question = [] \<longleftrightarrow> \<not> b"
  by (simp add: issue_if_def)

lemma anchor_name_roles:
  "anchor_name (rd_arrival d) \<noteq> None \<Longrightarrow> ''arrival'' \<in> set (required_anchor_roles d)"
  "anchor_name (rd_departure d) \<noteq> None \<Longrightarrow> ''departure'' \<in> set (required_anchor_roles d)"
  "rd_accommodation d \<notin> {None, Some []} \<Longrightarrow> ''accommodation'' \<in> set (required_anchor_roles d)"
  by (auto simp: required_anchor_roles_def anchor_candidates_def)

lemma no_issues:
  assumes "validate_requirement d zone = []"
  obtains city s e a b where "rd_destination d = Some city" "city \<noteq> []" "rd_start_date d = Some s" "rd_end_date d = Some e"
    "anchor_at (rd_arrival d) = Some a" "anchor_at (rd_departure d) = Some b"
    "anchor_name (rd_arrival d) \<noteq> None" "anchor_name (rd_departure d) \<noteq> None"
    "s \<le> e" "instant (localized a zone) < instant (localized b zone)" "s \<le> date_of (localized a zone)"
    "date_of (localized b zone) \<le> e" "1 \<le> default_of (rd_travelers d) 1 \<and> default_of (rd_travelers d) 1 \<le> 20"
    "\<And>x. rd_budget d = Some x \<Longrightarrow> 0 < x"
    "both (rd_daily_start d) (rd_daily_end d) (\<lambda>s e. e \<le> s) = False"
proof -
  have "\<forall>(f, b) \<in> set (missing_requirements d). \<not> b"
    and rest: "\<not> both (rd_start_date d) (rd_end_date d) (\<lambda>s e. e < s)"
      "\<not> both (anchor_at (rd_arrival d)) (anchor_at (rd_departure d)) (\<lambda>a b. instant (localized b zone) \<le> instant (localized a zone))"
      "\<not> both (anchor_at (rd_arrival d)) (rd_start_date d) (\<lambda>a s. date_of (localized a zone) < s)"
      "\<not> both (anchor_at (rd_departure d)) (rd_end_date d) (\<lambda>b e. date_of (localized b zone) > e)"
      "\<not> (case rd_travelers d of None \<Rightarrow> False | Some n \<Rightarrow> \<not> (1 \<le> n \<and> n \<le> 20))"
      "\<not> (case rd_budget d of None \<Rightarrow> False | Some b \<Rightarrow> b \<le> 0)"
      "\<not> both (rd_daily_start d) (rd_daily_end d) (\<lambda>s e. e \<le> s)"
    using assms unfolding validate_requirement_def Let_def append_is_Nil_conv issue_if_Nil by (auto split: if_splits)
  then obtain city s e a b where vals: "rd_destination d = Some city" "city \<noteq> []" "rd_start_date d = Some s" "rd_end_date d = Some e"
      "anchor_at (rd_arrival d) = Some a" "anchor_at (rd_departure d) = Some b"
      "anchor_name (rd_arrival d) \<noteq> None" "anchor_name (rd_departure d) \<noteq> None"
    by (auto simp: missing_requirements_def)
  then show thesis using rest by (intro that [of city s e a b]) (auto simp: both_def default_of_def split: option.splits)
qed

text \<open>
  C22. A requirement without issues becomes a trip. Once validation reports no issue and every
  place is resolved, assembly either returns a valid trip for the extracted destination,
  dates and must-visit places, or fails because the daily window, completed by the defaults from
  nine to twenty o'clock, ends before it starts; it succeeds exactly if that window is ordered.
\<close>

theorem requirement_without_issues_becomes_trip:
  assumes "draft_ok d" and "validate_requirement d zone = []"
    and "\<forall>role \<in> set (required_anchor_roles d). map_of resolutions role \<noteq> None"
  shows "case assemble_trip_spec d resolutions zone of
     Inr t \<Rightarrow> trip_ok t \<and> rd_destination d = Some (destination t) \<and> rd_start_date d = Some (start_date t) \<and>
       rd_end_date d = Some (end_date t) \<and> must_visit t = rd_must_visit d \<and>
       default_of (rd_daily_start d) (9 * 60 * minute) < default_of (rd_daily_end d) (20 * 60 * minute)
   | Inl msg \<Rightarrow> msg = ''daily_end must be later than daily_start'' \<and>
       default_of (rd_daily_end d) (20 * 60 * minute) \<le> default_of (rd_daily_start d) (9 * 60 * minute)"
proof -
  obtain city s e a b where vals: "rd_destination d = Some city" "city \<noteq> []" "rd_start_date d = Some s" "rd_end_date d = Some e"
      "anchor_at (rd_arrival d) = Some a" "anchor_at (rd_departure d) = Some b"
      "anchor_name (rd_arrival d) \<noteq> None" "anchor_name (rd_departure d) \<noteq> None"
    and order: "s \<le> e" "instant (localized a zone) < instant (localized b zone)" "s \<le> date_of (localized a zone)" "date_of (localized b zone) \<le> e"
    and bounds: "1 \<le> default_of (rd_travelers d) 1 \<and> default_of (rd_travelers d) 1 \<le> 20" "\<And>x. rd_budget d = Some x \<Longrightarrow> 0 < x"
    using no_issues [OF assms(2)] by metis
  have roles: "''arrival'' \<in> set (required_anchor_roles d)" "''departure'' \<in> set (required_anchor_roles d)"
    using anchor_name_roles vals(7,8) by blast+
  obtain ra rb where res: "map_of resolutions ''arrival'' = Some ra" "map_of resolutions ''departure'' = Some rb"
    using assms(3) roles by blast
  have "rd_accommodation d \<notin> {None, Some []} \<Longrightarrow> map_of resolutions ''accommodation'' \<noteq> None"
    using assms(3) anchor_name_roles(3) [of d] by blast
  then have "lodging d resolutions \<noteq> Inl x" for x by (auto simp: lodging_def split: option.splits)
  then obtain hotel where hotel: "lodging d resolutions = Inr hotel" by (cases "lodging d resolutions") auto
  have draft: "draft_bounds d" "normalize_draft d = d" using assms(1) by (simp_all add: draft_ok_iff)
  have kept: "normalize_preference_terms (rd_interests d) = rd_interests d" "normalize_preference_terms (rd_avoid d) = rd_avoid d"
      "normalize_preference_terms (rd_must_visit d) = rd_must_visit d"
    using draft(2) unfolding normalize_draft_fixed by (auto intro: terms_kept)
  have mob: "mobility_fields_ok (default_of (rd_mobility d) default_mobility)"
    using draft(1) by (auto simp: draft_bounds_def default_of_def mobility_fields_ok_def default_mobility_def split: option.splits)
  have city: "1 \<le> length city" using vals(2) by (cases city) simp_all
  have budget: "case rd_budget d of None \<Rightarrow> True | Some b \<Rightarrow> 0 < b" using bounds(2) by (simp split: option.split)
  show ?thesis
    using draft(1) order bounds(1) kept mob city budget
    by (simp add: assemble_trip_spec_def assms(2) res vals hotel construct_trip_def Let_def trip_fields_ok_def transport_of_def
        validate_trip_dates_def trip_ok_def draft_bounds_def not_less)
qed

definition complete_requirement :: "py_time option \<Rightarrow> requirement_draft" where
  "complete_requirement start = sample_requirement\<lparr>rd_departure := Some \<lparr>an_name = Some ''West'',
     an_at = Some (Naive (739892 * day_us + 600 * minute))\<rparr>, rd_daily_start := start\<rparr>"

definition sample_resolutions :: "(string \<times> anchor_resolution) list" where
  "sample_resolutions = map (\<lambda>role. (role, \<lparr>ar_role = role, ar_query_name = role, ar_resolved_name = role, ar_poi_id = role,
     ar_coordinate = sample_coordinate, ar_provider = ''mock'', ar_confidence = 1\<rparr>)) [''arrival'', ''departure'']"

lemma complete_requirement_ok:
  "draft_ok (complete_requirement start)" "validate_requirement (complete_requirement None) 0 = []"
  "required_anchor_roles (complete_requirement start) = [''arrival'', ''departure'']"
  using sample_draft_ok
  by (auto simp: draft_ok_iff normalize_draft_fixed normalize_anchor_fixed normalize_optional_text_def complete_requirement_def
      draft_bounds_def py_strip_def py_spaces_def sample_requirement_def required_anchor_roles_def anchor_candidates_def anchor_name_def
      validate_requirement_def missing_requirements_def anchor_at_def both_def issue_if_def localized_def instant_def date_of_def
      day_us_def minute_def)

theorem requirement_without_issues_becomes_trip_witness:
  "\<exists>t. assemble_trip_spec (complete_requirement None) sample_resolutions 0 = Inr t \<and> trip_ok t"
proof -
  have "\<forall>role \<in> set (required_anchor_roles (complete_requirement None)). map_of sample_resolutions role \<noteq> None"
    by (simp add: complete_requirement_ok(3) sample_resolutions_def)
  from requirement_without_issues_becomes_trip [OF complete_requirement_ok(1,2) this] show ?thesis
    by (auto simp: complete_requirement_def sample_requirement_def default_of_def minute_def split: sum.splits)
qed

text \<open>
  The window is validated only if the user gave both ends: a requirement to start at nine in the
  evening has no issue, and yet no trip can be made from it.
\<close>

lemma late_start_has_no_issue_but_no_trip:
  "validate_requirement (complete_requirement (Some (21 * 60 * minute))) 0 = [] \<and>
   assemble_trip_spec (complete_requirement (Some (21 * 60 * minute))) sample_resolutions 0 = Inl ''daily_end must be later than daily_start''"
proof -
  have issues: "validate_requirement (complete_requirement (Some (21 * 60 * minute))) 0 = []"
    using complete_requirement_ok(2) by (simp add: validate_requirement_def complete_requirement_def sample_requirement_def both_def
        missing_requirements_def anchor_name_def anchor_at_def)
  moreover have "assemble_trip_spec (complete_requirement (Some (21 * 60 * minute))) sample_resolutions 0 = Inl ''daily_end must be later than daily_start''"
    unfolding assemble_trip_spec_def issues by code_simp
  ultimately show ?thesis by blast
qed

end
