(* ===== verification/Memory.thy ===== *)
theory Memory
  imports DomainModels
begin

text \<open>
  The preference memory: \<open>memory/models.py\<close>, \<open>memory/policy.py\<close>, the in-memory repository of
  \<open>memory/repository.py\<close> and the service of \<open>memory/service.py\<close>. The JSON text and the
  content hash of a preference are parameters (\<open>memory_env\<close>), as are the time of a call and
  the ids \<open>uuid4()\<close> returns. Times are aware datetimes. Events and log lines are left out.
\<close>

section \<open>Models\<close>

datatype memory_category =
  M_pace | M_preferred_categories | M_avoided_categories | M_walking_tolerance | M_preferred_transport
| M_food_preferences | M_schedule_preferences | M_accessibility_needs | M_budget_style

datatype memory_source = Explicit_user | Repeated_behavior | Single_action | Model_inference | Imported
datatype confirmation_status = Conf_pending | Conf_confirmed | Conf_rejected
datatype preference_scope = Scope_global | Scope_destination | Scope_travel_party
datatype proposal_status = Prop_pending | Prop_confirmed | Prop_rejected | Prop_expired

datatype pref_scalar = P_str string | P_int int | P_float rat | P_bool bool

datatype pref_value =
  P_scalar pref_scalar
| P_list "pref_scalar list"
| P_dict "(string \<times> (pref_scalar + pref_scalar list)) list"

record preference_memory =
  pm_id :: string
  pm_tenant :: string
  pm_user :: string
  pm_category :: memory_category
  pm_value :: pref_value
  pm_scope :: preference_scope
  pm_scope_key :: "string option"
  pm_source :: memory_source
  pm_source_run :: "string option"
  pm_confidence :: rat
  pm_confirmation :: confirmation_status
  pm_revision :: int
  pm_created_at :: datetime
  pm_updated_at :: datetime
  pm_expires_at :: "datetime option"
  pm_revoked_at :: "datetime option"
  pm_hash :: string

record memory_proposal =
  mp_id :: string
  mp_tenant :: string
  mp_user :: string
  mp_category :: memory_category
  mp_value :: pref_value
  mp_scope :: preference_scope
  mp_scope_key :: "string option"
  mp_source :: memory_source
  mp_source_run :: "string option"
  mp_confidence :: rat
  mp_reason :: string
  mp_status :: proposal_status
  mp_created_at :: datetime
  mp_expires_at :: "datetime option"
  mp_resolved_at :: "datetime option"
  mp_memory_id :: "string option"
  mp_hash :: string

record personalization =
  ps_enabled :: bool
  ps_revision :: int
  ps_updated_at :: datetime

datatype memory_error =
  Memory_missing string
| Memory_conflict string
| Memory_policy string
| Memory_invalid string

definition scope_errors :: "preference_scope \<Rightarrow> string option \<Rightarrow> string list" where
  "scope_errors sc key =
     (if sc = Scope_global \<and> key \<noteq> None then [''global preference must not define scope_key'']
      else if sc \<noteq> Scope_global \<and> key \<in> {None, Some []} then [''scoped preference requires scope_key''] else [])"

definition expired :: "datetime option \<Rightarrow> datetime \<Rightarrow> bool" where
  "expired e now = (case e of None \<Rightarrow> False | Some x \<Rightarrow> instant x \<le> instant now)"

definition validate_memory :: "preference_memory \<Rightarrow> (memory_error, preference_memory) result" where
  "validate_memory m =
     (if scope_errors (pm_scope m) (pm_scope_key m) \<noteq> [] then Inl (Memory_invalid (hd (scope_errors (pm_scope m) (pm_scope_key m))))
      else if pm_source m = Model_inference \<and> pm_confirmation m = Conf_confirmed
        then Inl (Memory_invalid ''model inference cannot be directly confirmed'')
      else if expired (pm_expires_at m) (pm_created_at m)
        then Inl (Memory_invalid ''expires_at must be later than created_at'')
      else Inr m)"

definition memory_active_at :: "preference_memory \<Rightarrow> datetime \<Rightarrow> bool" where
  "memory_active_at m now \<longleftrightarrow> pm_confirmation m = Conf_confirmed \<and> pm_revoked_at m = None \<and> \<not> expired (pm_expires_at m) now"

definition validate_proposal :: "memory_proposal \<Rightarrow> (memory_error, memory_proposal) result" where
  "validate_proposal p =
     (if scope_errors (mp_scope p) (mp_scope_key p) \<noteq> [] then Inl (Memory_invalid (hd (scope_errors (mp_scope p) (mp_scope_key p))))
      else Inr p)"

definition proposal_pending_at :: "memory_proposal \<Rightarrow> datetime \<Rightarrow> bool" where
  "proposal_pending_at p now \<longleftrightarrow> mp_status p = Prop_pending \<and> \<not> expired (mp_expires_at p) now"

section \<open>Policy\<close>

record memory_env =
  me_text :: "pref_value \<Rightarrow> string"
  me_hash :: "memory_category \<Rightarrow> pref_value \<Rightarrow> preference_scope \<Rightarrow> string option \<Rightarrow> string"

definition list_category :: "memory_category \<Rightarrow> bool" where
  "list_category c \<longleftrightarrow> c \<in> {M_preferred_categories, M_avoided_categories, M_preferred_transport, M_food_preferences,
     M_accessibility_needs}"

text \<open>The markers of identity and payment data; the Chinese ones in UTF-8.\<close>

definition forbidden_markers :: "string list" where
  "forbidden_markers =
     [[CHR 0xE8, CHR 0xBA, CHR 0xAB, CHR 0xE4, CHR 0xBB, CHR 0xBD, CHR 0xE8, CHR 0xAF, CHR 0x81],
      [CHR 0xE6, CHR 0x8A, CHR 0xA4, CHR 0xE7, CHR 0x85, CHR 0xA7],
      [CHR 0xE9, CHR 0x93, CHR 0xB6, CHR 0xE8, CHR 0xA1, CHR 0x8C, CHR 0xE5, CHR 0x8D, CHR 0xA1],
      [CHR 0xE4, CHR 0xBF, CHR 0xA1, CHR 0xE7, CHR 0x94, CHR 0xA8, CHR 0xE5, CHR 0x8D, CHR 0xA1],
      [CHR 0xE6, CHR 0x94, CHR 0xAF, CHR 0xE4, CHR 0xBB, CHR 0x98, CHR 0xE5, CHR 0xAF, CHR 0x86, CHR 0xE7, CHR 0xA0, CHR 0x81],
      ''passport'', ''identity card'', ''credit card'', ''payment password'']"

definition ascii_digit :: "char \<Rightarrow> bool" where
  "ascii_digit c \<longleftrightarrow> (let n = (of_char c :: nat) in 48 \<le> n \<and> n \<le> 57)"

text \<open>
  The lengths of the maximal runs of (ASCII) digits; the digits of other scripts, which \<open>\d\<close> also
  matches, are not counted. \<open>n\<close> digits have just been read.
\<close>

fun digit_runs :: "nat \<Rightarrow> string \<Rightarrow> nat list" where
  "digit_runs n [] = [n]"
| "digit_runs n (c # s) = (if ascii_digit c then digit_runs (Suc n) s else n # digit_runs 0 s)"

definition sensitive :: "memory_env \<Rightarrow> pref_value \<Rightarrow> bool" where
  "sensitive env v =
     (let text = casefold (me_text env v)
      in list_ex (\<lambda>m. in_str m text) forbidden_markers \<or> list_ex (\<lambda>n. 12 \<le> n \<and> n \<le> 19) (digit_runs 0 text))"

fun normalized_items :: "string list \<Rightarrow> pref_scalar list \<Rightarrow> (memory_error, string list) result" where
  "normalized_items seen [] = Inr []"
| "normalized_items seen (x # xs) =
     (case x of
        P_str s \<Rightarrow>
          (let text = py_strip s; key = casefold text
           in if text = [] \<or> key \<in> set seen then normalized_items seen xs
              else bind_res (normalized_items (key # seen) xs) (\<lambda>ys. Inr (text # ys)))
      | _ \<Rightarrow> Inl (Memory_policy ''invalid_preference_value''))"

definition one_of :: "pref_value \<Rightarrow> string list \<Rightarrow> (memory_error, pref_value) result" where
  "one_of v allowed =
     (case v of
        P_scalar (P_str s) \<Rightarrow> if normalize s \<in> set allowed then Inr (P_scalar (P_str (normalize s)))
          else Inl (Memory_policy ''invalid_preference_value'')
      | _ \<Rightarrow> Inl (Memory_policy ''invalid_preference_value''))"

text \<open>\<open>int(x)\<close> of a float truncates towards zero.\<close>

definition truncated :: "rat \<Rightarrow> int" where
  "truncated x = (if 0 \<le> x then \<lfloor>x\<rfloor> else - \<lfloor>- x\<rfloor>)"

definition walking_meters :: "pref_value \<Rightarrow> int option" where
  "walking_meters v = (case v of P_scalar (P_int n) \<Rightarrow> Some n | P_scalar (P_float x) \<Rightarrow> Some (truncated x) | _ \<Rightarrow> None)"

definition list_items :: "pref_value \<Rightarrow> (memory_error, pref_scalar list) result" where
  "list_items v =
     (case v of P_list xs \<Rightarrow> Inr xs | P_scalar x \<Rightarrow> Inr [x] | P_dict _ \<Rightarrow> Inl (Memory_policy ''invalid_preference_value''))"

definition normalize_preference_value ::
  "memory_env \<Rightarrow> memory_category \<Rightarrow> pref_value \<Rightarrow> (memory_error, pref_value) result" where
  "normalize_preference_value env c v =
     (if sensitive env v then Inl (Memory_policy ''sensitive_memory_rejected'')
      else if list_category c then
        bind_res (list_items v) (\<lambda>xs. bind_res (normalized_items [] xs) (\<lambda>ys.
          if ys = [] then Inl (Memory_policy ''invalid_preference_value'') else Inr (P_list (map P_str ys))))
      else if c = M_pace then one_of v [''relaxed'', ''balanced'', ''intensive'']
      else if c = M_walking_tolerance then
        (case walking_meters v of
           None \<Rightarrow> Inl (Memory_policy ''invalid_preference_value'')
         | Some n \<Rightarrow> if 0 \<le> n \<and> n \<le> 50000 then Inr (P_scalar (P_int n)) else Inl (Memory_policy ''invalid_preference_value''))
      else if c = M_budget_style then one_of v [''economy'', ''balanced'', ''comfort'']
      else (case v of
          P_dict kvs \<Rightarrow> if set (map fst kvs) \<subseteq> {''earliest_start'', ''latest_end'', ''avoid_early_start''} then Inr v
            else Inl (Memory_policy ''invalid_preference_value'')
        | _ \<Rightarrow> Inl (Memory_policy ''invalid_preference_value'')))"

section \<open>The in-memory repository\<close>

record preference_store =
  st_memories :: "(string \<times> preference_memory) list"
  st_proposals :: "(string \<times> memory_proposal) list"
  st_settings :: "((string \<times> string) \<times> personalization) list"

type_synonym owner = "string \<times> string"

abbreviation memory_owner :: "preference_memory \<Rightarrow> owner" where
  "memory_owner m \<equiv> (pm_tenant m, pm_user m)"

abbreviation proposal_owner :: "memory_proposal \<Rightarrow> owner" where
  "proposal_owner p \<equiv> (mp_tenant p, mp_user p)"

definition newest_first :: "preference_memory list \<Rightarrow> preference_memory list" where
  "newest_first ms = rev (sort_key (\<lambda>m. (instant (pm_updated_at m), pm_id m)) (rev ms))"

definition list_memories :: "owner \<Rightarrow> bool \<Rightarrow> datetime \<Rightarrow> preference_store \<Rightarrow> preference_memory list" where
  "list_memories own all now s =
     newest_first (filter (\<lambda>m. memory_owner m = own \<and> (all \<or> memory_active_at m now)) (map snd (st_memories s)))"

definition get_memory :: "owner \<Rightarrow> string \<Rightarrow> preference_store \<Rightarrow> (memory_error, preference_memory) result" where
  "get_memory own mid s =
     (case map_of (st_memories s) mid of
        Some m \<Rightarrow> if memory_owner m = own then Inr m else Inl (Memory_missing mid)
      | None \<Rightarrow> Inl (Memory_missing mid))"

definition create_memory :: "preference_memory \<Rightarrow> preference_store \<Rightarrow> (memory_error, preference_store) result" where
  "create_memory m s =
     (if map_of (st_memories s) (pm_id m) \<noteq> None then Inl (Memory_conflict ''duplicate_memory_id'')
      else Inr (s\<lparr>st_memories := AList.update (pm_id m) m (st_memories s)\<rparr>))"

definition save_memory :: "preference_memory \<Rightarrow> int \<Rightarrow> preference_store \<Rightarrow> (memory_error, preference_store) result" where
  "save_memory m expected s =
     (case map_of (st_memories s) (pm_id m) of
        None \<Rightarrow> Inl (Memory_missing (pm_id m))
      | Some current \<Rightarrow>
          if memory_owner current \<noteq> memory_owner m then Inl (Memory_missing (pm_id m))
          else if pm_revision current \<noteq> expected then Inl (Memory_conflict ''stale_memory_revision'')
          else Inr (s\<lparr>st_memories := AList.update (pm_id m) m (st_memories s)\<rparr>))"

definition delete_memory :: "owner \<Rightarrow> string \<Rightarrow> preference_store \<Rightarrow> (memory_error, preference_store) result" where
  "delete_memory own mid s =
     bind_res (get_memory own mid s) (\<lambda>m. Inr (s\<lparr>st_memories := filter (\<lambda>(k, x). k \<noteq> mid) (st_memories s)\<rparr>))"

definition clear_memories :: "owner \<Rightarrow> preference_store \<Rightarrow> preference_store \<times> nat" where
  "clear_memories own s =
     (s\<lparr>st_memories := filter (\<lambda>(k, m). memory_owner m \<noteq> own) (st_memories s)\<rparr>,
      length (filter (\<lambda>(k, m). memory_owner m = own) (st_memories s)))"

definition find_content_hash :: "owner \<Rightarrow> string \<Rightarrow> preference_store \<Rightarrow> preference_memory option" where
  "find_content_hash own hash s =
     find (\<lambda>m. memory_owner m = own \<and> pm_hash m = hash \<and> pm_revoked_at m = None) (map snd (st_memories s))"

definition create_proposal :: "memory_proposal \<Rightarrow> preference_store \<Rightarrow> (memory_error, preference_store) result" where
  "create_proposal p s =
     (if map_of (st_proposals s) (mp_id p) \<noteq> None then Inl (Memory_conflict ''duplicate_proposal_id'')
      else Inr (s\<lparr>st_proposals := AList.update (mp_id p) p (st_proposals s)\<rparr>))"

definition get_proposal :: "owner \<Rightarrow> string \<Rightarrow> preference_store \<Rightarrow> (memory_error, memory_proposal) result" where
  "get_proposal own pid s =
     (case map_of (st_proposals s) pid of
        Some p \<Rightarrow> if proposal_owner p = own then Inr p else Inl (Memory_missing pid)
      | None \<Rightarrow> Inl (Memory_missing pid))"

definition save_proposal :: "memory_proposal \<Rightarrow> preference_store \<Rightarrow> (memory_error, preference_store) result" where
  "save_proposal p s =
     (case map_of (st_proposals s) (mp_id p) of
        None \<Rightarrow> Inl (Memory_missing (mp_id p))
      | Some current \<Rightarrow>
          if proposal_owner current \<noteq> proposal_owner p then Inl (Memory_missing (mp_id p))
          else Inr (s\<lparr>st_proposals := AList.update (mp_id p) p (st_proposals s)\<rparr>))"

text \<open>Reading the settings of an owner creates the default ones.\<close>

definition get_personalization :: "owner \<Rightarrow> datetime \<Rightarrow> preference_store \<Rightarrow> preference_store \<times> personalization" where
  "get_personalization own now s =
     (case map_of (st_settings s) own of
        Some x \<Rightarrow> (s, x)
      | None \<Rightarrow> (let x = \<lparr>ps_enabled = True, ps_revision = 1, ps_updated_at = now\<rparr>
                in (s\<lparr>st_settings := AList.update own x (st_settings s)\<rparr>, x)))"

definition save_personalization ::
  "owner \<Rightarrow> personalization \<Rightarrow> int option \<Rightarrow> preference_store \<Rightarrow> (memory_error, preference_store) result" where
  "save_personalization own x expected s =
     (case map_of (st_settings s) own of
        Some current \<Rightarrow> if expected \<noteq> Some (ps_revision current) then Inl (Memory_conflict ''stale_personalization_revision'')
          else Inr (s\<lparr>st_settings := AList.update own x (st_settings s)\<rparr>)
      | None \<Rightarrow> if expected \<notin> {None, Some 0} then Inl (Memory_conflict ''stale_personalization_revision'')
          else Inr (s\<lparr>st_settings := AList.update own x (st_settings s)\<rparr>))"

section \<open>The service\<close>

text \<open>The decisions on proposals, kept by owner, proposal and request.\<close>

datatype decision = Decided_memory preference_memory | Decided_proposal memory_proposal

record memory_service =
  sv_store :: preference_store
  sv_decisions :: "((owner \<times> string \<times> string) \<times> decision) list"

record preference_request =
  pq_category :: memory_category
  pq_value :: pref_value
  pq_scope :: preference_scope
  pq_scope_key :: "string option"
  pq_expires_at :: "datetime option"

record proposal_request = preference_request +
  pq_source :: memory_source
  pq_source_run :: "string option"
  pq_confidence :: rat
  pq_reason :: string

definition with_store :: "memory_service \<Rightarrow> (memory_error, preference_store) result \<Rightarrow> (memory_error, memory_service) result" where
  "with_store sv r = bind_res r (\<lambda>s. Inr (sv\<lparr>sv_store := s\<rparr>))"

definition list_preferences :: "owner \<Rightarrow> bool \<Rightarrow> datetime \<Rightarrow> memory_service \<Rightarrow> memory_service \<times> preference_memory list \<times> personalization" where
  "list_preferences own all now sv =
     (let (s, x) = get_personalization own now (sv_store sv)
      in (sv\<lparr>sv_store := s\<rparr>, list_memories own all now (sv_store sv), x))"

definition explicit_memory ::
  "owner \<Rightarrow> string \<Rightarrow> datetime \<Rightarrow> memory_category \<Rightarrow> pref_value \<Rightarrow> preference_scope \<Rightarrow> string option
     \<Rightarrow> string option \<Rightarrow> datetime option \<Rightarrow> string \<Rightarrow> preference_memory" where
  "explicit_memory own mid now c v sc key run expires hash =
     \<lparr>pm_id = mid, pm_tenant = fst own, pm_user = snd own, pm_category = c, pm_value = v, pm_scope = sc,
      pm_scope_key = key, pm_source = Explicit_user, pm_source_run = run, pm_confidence = 1,
      pm_confirmation = Conf_confirmed, pm_revision = 1, pm_created_at = now, pm_updated_at = now,
      pm_expires_at = expires, pm_revoked_at = None, pm_hash = hash\<rparr>"

definition create_explicit ::
  "memory_env \<Rightarrow> owner \<Rightarrow> preference_request \<Rightarrow> string option \<Rightarrow> string \<Rightarrow> datetime \<Rightarrow> memory_service
     \<Rightarrow> (memory_error, memory_service \<times> preference_memory) result" where
  "create_explicit env own r run mid now sv =
     bind_res (normalize_preference_value env (pq_category r) (pq_value r)) (\<lambda>v.
       let hash = me_hash env (pq_category r) v (pq_scope r) (pq_scope_key r) in
       case find_content_hash own hash (sv_store sv) of
         Some m \<Rightarrow> Inr (sv, m)
       | None \<Rightarrow>
           bind_res (validate_memory (explicit_memory own mid now (pq_category r) v (pq_scope r) (pq_scope_key r) run (pq_expires_at r) hash)) (\<lambda>m.
           bind_res (with_store sv (create_memory m (sv_store sv))) (\<lambda>sv'. Inr (sv', m))))"

definition update_preference ::
  "memory_env \<Rightarrow> owner \<Rightarrow> string \<Rightarrow> pref_value option \<Rightarrow> datetime option \<Rightarrow> int \<Rightarrow> datetime \<Rightarrow> memory_service
     \<Rightarrow> (memory_error, memory_service \<times> preference_memory) result" where
  "update_preference env own mid value expires expected now sv =
     bind_res (get_memory own mid (sv_store sv)) (\<lambda>current.
     bind_res (case value of None \<Rightarrow> Inr (pm_value current) | Some v \<Rightarrow> normalize_preference_value env (pm_category current) v) (\<lambda>v.
       let m = current\<lparr>pm_value := v, pm_expires_at := expires, pm_revision := pm_revision current + 1, pm_updated_at := now,
                 pm_hash := me_hash env (pm_category current) v (pm_scope current) (pm_scope_key current)\<rparr>
       in bind_res (with_store sv (save_memory m expected (sv_store sv))) (\<lambda>sv'. Inr (sv', m))))"

definition revoke_preference ::
  "owner \<Rightarrow> string \<Rightarrow> int \<Rightarrow> datetime \<Rightarrow> memory_service \<Rightarrow> (memory_error, memory_service \<times> preference_memory) result" where
  "revoke_preference own mid expected now sv =
     bind_res (get_memory own mid (sv_store sv)) (\<lambda>current.
       let m = current\<lparr>pm_revoked_at := Some now, pm_updated_at := now, pm_revision := pm_revision current + 1\<rparr>
       in bind_res (with_store sv (save_memory m expected (sv_store sv))) (\<lambda>sv'. Inr (sv', m)))"

definition delete_preference :: "owner \<Rightarrow> string \<Rightarrow> memory_service \<Rightarrow> (memory_error, memory_service) result" where
  "delete_preference own mid sv = with_store sv (delete_memory own mid (sv_store sv))"

definition clear_preferences :: "owner \<Rightarrow> memory_service \<Rightarrow> memory_service \<times> nat" where
  "clear_preferences own sv = (let (s, n) = clear_memories own (sv_store sv) in (sv\<lparr>sv_store := s\<rparr>, n))"

definition propose ::
  "memory_env \<Rightarrow> owner \<Rightarrow> proposal_request \<Rightarrow> string \<Rightarrow> datetime \<Rightarrow> memory_service
     \<Rightarrow> (memory_error, memory_service \<times> memory_proposal) result" where
  "propose env own r pid now sv =
     bind_res (normalize_preference_value env (pq_category r) (pq_value r)) (\<lambda>v.
     bind_res (validate_proposal
       \<lparr>mp_id = pid, mp_tenant = fst own, mp_user = snd own, mp_category = pq_category r, mp_value = v, mp_scope = pq_scope r,
        mp_scope_key = pq_scope_key r, mp_source = pq_source r, mp_source_run = pq_source_run r, mp_confidence = pq_confidence r,
        mp_reason = pq_reason r, mp_status = Prop_pending, mp_created_at = now, mp_expires_at = pq_expires_at r,
        mp_resolved_at = None, mp_memory_id = None,
        mp_hash = me_hash env (pq_category r) v (pq_scope r) (pq_scope_key r)\<rparr>) (\<lambda>p.
     bind_res (with_store sv (create_proposal p (sv_store sv))) (\<lambda>sv'. Inr (sv', p))))"

definition decide :: "owner \<times> string \<times> string \<Rightarrow> decision \<Rightarrow> memory_service \<Rightarrow> memory_service" where
  "decide key x sv = sv\<lparr>sv_decisions := AList.update key x (sv_decisions sv)\<rparr>"

text \<open>The memory a proposal is confirmed as: an equal one that is not revoked, or a new one.\<close>

definition memory_for_proposal ::
  "owner \<Rightarrow> memory_proposal \<Rightarrow> string \<Rightarrow> datetime \<Rightarrow> preference_store \<Rightarrow> (memory_error, preference_store \<times> preference_memory) result" where
  "memory_for_proposal own p mid now s =
     (case find_content_hash own (mp_hash p) s of
        Some m \<Rightarrow> Inr (s, m)
      | None \<Rightarrow>
          bind_res (validate_memory (explicit_memory own mid now (mp_category p) (mp_value p) (mp_scope p) (mp_scope_key p)
              (mp_source_run p) (mp_expires_at p) (mp_hash p))) (\<lambda>m.
          bind_res (create_memory m s) (\<lambda>s'. Inr (s', m))))"

definition confirm_proposal ::
  "owner \<Rightarrow> string \<Rightarrow> string \<Rightarrow> string \<Rightarrow> datetime \<Rightarrow> memory_service
     \<Rightarrow> memory_service \<times> (memory_error, preference_memory) result" where
  "confirm_proposal own pid request mid now sv =
     (let key = (own, pid, request) in
      case map_of (sv_decisions sv) key of
        Some (Decided_memory m) \<Rightarrow> (sv, Inr m)
      | _ \<Rightarrow>
        (case get_proposal own pid (sv_store sv) of
           Inl e \<Rightarrow> (sv, Inl e)
         | Inr p \<Rightarrow>
             if \<not> proposal_pending_at p now then
               (case (mp_status p, mp_memory_id p) of
                  (Prop_confirmed, Some m_id) \<Rightarrow>
                    if m_id = [] then (sv, Inl (Memory_conflict ''proposal_not_pending''))
                    else (case get_memory own m_id (sv_store sv) of
                       Inl e \<Rightarrow> (sv, Inl e)
                     | Inr m \<Rightarrow> (decide key (Decided_memory m) sv, Inr m))
                | _ \<Rightarrow> (sv, Inl (Memory_conflict ''proposal_not_pending'')))
             else
               (case memory_for_proposal own p mid now (sv_store sv) of
                  Inl e \<Rightarrow> (sv, Inl e)
                | Inr (s, m) \<Rightarrow>
                    (case save_proposal (p\<lparr>mp_status := Prop_confirmed, mp_resolved_at := Some now, mp_memory_id := Some (pm_id m)\<rparr>) s of
                       Inl e \<Rightarrow> (sv\<lparr>sv_store := s\<rparr>, Inl e)
                     | Inr s' \<Rightarrow> (decide key (Decided_memory m) (sv\<lparr>sv_store := s'\<rparr>), Inr m)))))"

definition reject_proposal ::
  "owner \<Rightarrow> string \<Rightarrow> string \<Rightarrow> datetime \<Rightarrow> memory_service \<Rightarrow> (memory_error, memory_service \<times> memory_proposal) result" where
  "reject_proposal own pid request now sv =
     (let key = (own, pid, request) in
      case map_of (sv_decisions sv) key of
        Some (Decided_proposal p) \<Rightarrow> Inr (sv, p)
      | _ \<Rightarrow>
        bind_res (get_proposal own pid (sv_store sv)) (\<lambda>p.
          if mp_status p = Prop_rejected then Inr (decide key (Decided_proposal p) sv, p)
          else if \<not> proposal_pending_at p now then Inl (Memory_conflict ''proposal_not_pending'')
          else let p' = p\<lparr>mp_status := Prop_rejected, mp_resolved_at := Some now\<rparr>
            in bind_res (with_store sv (save_proposal p' (sv_store sv))) (\<lambda>sv'. Inr (decide key (Decided_proposal p') sv', p'))))"

definition update_personalization ::
  "owner \<Rightarrow> bool \<Rightarrow> int option \<Rightarrow> datetime \<Rightarrow> memory_service \<Rightarrow> memory_service \<times> (memory_error, personalization) result" where
  "update_personalization own enabled expected now sv =
     (let (s, current) = get_personalization own now (sv_store sv); sv1 = sv\<lparr>sv_store := s\<rparr>
      in if expected \<noteq> None \<and> expected \<noteq> Some (ps_revision current)
         then (sv1, Inl (Memory_conflict ''stale_personalization_revision''))
         else let x = \<lparr>ps_enabled = enabled, ps_revision = ps_revision current + 1, ps_updated_at = now\<rparr>
           in (case save_personalization own x (Some (ps_revision current)) s of
                Inl e \<Rightarrow> (sv1, Inl e) | Inr s' \<Rightarrow> (sv\<lparr>sv_store := s'\<rparr>, Inr x)))"

end
