(* ===== verification/MemoryContext.thy ===== *)
theory MemoryContext
  imports Memory Requirements PlanningSupport
begin

text \<open>
  \<open>memory/context.py\<close>: which remembered preferences an agent sees, and how they change a trip;
  with \<open>context_for_trip\<close> of \<open>memory/service.py\<close>. The length of the JSON text of a summary,
  the hash of the manifest, \<open>repr\<close> of floats, lists and dicts and \<open>int\<close> of a string are the
  parameters of \<open>context_env\<close>. The random id and the time of a conflict are left out.
\<close>

section \<open>Models\<close>

fun agent_role_value :: "agent_role \<Rightarrow> string" where
  "agent_role_value Role_planner = ''planner''"
| "agent_role_value Role_critic = ''critic''"
| "agent_role_value Role_replanner = ''replanner''"

fun memory_category_value :: "memory_category \<Rightarrow> string" where
  "memory_category_value M_pace = ''pace''"
| "memory_category_value M_preferred_categories = ''preferred_categories''"
| "memory_category_value M_avoided_categories = ''avoided_categories''"
| "memory_category_value M_walking_tolerance = ''walking_tolerance''"
| "memory_category_value M_preferred_transport = ''preferred_transport''"
| "memory_category_value M_food_preferences = ''food_preferences''"
| "memory_category_value M_schedule_preferences = ''schedule_preferences''"
| "memory_category_value M_accessibility_needs = ''accessibility_needs''"
| "memory_category_value M_budget_style = ''budget_style''"

record preference_summary =
  su_id :: string
  su_category :: memory_category
  su_value :: pref_value
  su_confidence :: rat
  su_source :: memory_source
  su_reason :: string
  su_score :: rat

record memory_conflict =
  mc_category :: memory_category
  mc_current :: string
  mc_conflicting :: string

datatype exclusion = Ex_inactive | Ex_scope | Ex_override | Ex_role | Ex_conflict | Ex_budget

record context_manifest =
  cm_id :: string
  cm_role :: agent_role
  cm_selected :: "string list"
  cm_categories :: "memory_category list"
  cm_excluded :: nat
  cm_reasons :: "(exclusion \<times> nat) list"
  cm_tokens :: nat
  cm_characters :: nat
  cm_max_tokens :: nat
  cm_max_characters :: nat
  cm_overridden :: "string list"
  cm_hash :: string

record preference_context =
  cx_summaries :: "preference_summary list"
  cx_manifest :: context_manifest
  cx_conflicts :: "memory_conflict list"

record context_env =
  ce_size :: "preference_summary \<Rightarrow> nat"
  ce_hash :: "agent_role \<Rightarrow> string list \<Rightarrow> string list \<Rightarrow> string"
  ce_repr :: "pref_value \<Rightarrow> string"
  ce_int :: "string \<Rightarrow> int option"

record composer =
  co_max_tokens :: nat
  co_max_characters :: nat

definition mk_composer :: "nat \<Rightarrow> nat \<Rightarrow> (string, composer) result" where
  "mk_composer tokens chars =
     (if tokens < 32 \<or> chars < 128 then Inl ''context budgets are too small''
      else Inr \<lparr>co_max_tokens = tokens, co_max_characters = chars\<rparr>)"

section \<open>Which memories are relevant\<close>

definition scope_matches :: "preference_memory \<Rightarrow> trip_spec \<Rightarrow> bool" where
  "scope_matches m trip =
     (case pm_scope m of
        Scope_global \<Rightarrow> True
      | Scope_destination \<Rightarrow> (case pm_scope_key m of None \<Rightarrow> False | Some k \<Rightarrow> k \<noteq> [] \<and> casefold k = casefold (destination trip))
      | Scope_travel_party \<Rightarrow> True)"

definition explicitly_overridden :: "memory_category \<Rightarrow> requirement_draft option \<Rightarrow> bool" where
  "explicitly_overridden c draft =
     (case draft of
        None \<Rightarrow> False
      | Some d \<Rightarrow>
          (case c of
             M_pace \<Rightarrow> rd_pace d \<noteq> None
           | M_walking_tolerance \<Rightarrow> rd_mobility d \<noteq> None
           | M_preferred_categories \<Rightarrow> rd_interests d \<noteq> []
           | M_avoided_categories \<Rightarrow> rd_avoid d \<noteq> []
           | _ \<Rightarrow> False))"

fun role_weight :: "memory_category \<Rightarrow> agent_role \<Rightarrow> rat" where
  "role_weight c Role_planner =
     (case c of M_pace \<Rightarrow> 3 | M_preferred_categories \<Rightarrow> 3 | M_avoided_categories \<Rightarrow> 3 | M_walking_tolerance \<Rightarrow> 3
      | M_preferred_transport \<Rightarrow> 2 | M_food_preferences \<Rightarrow> 2 | M_schedule_preferences \<Rightarrow> 2
      | M_accessibility_needs \<Rightarrow> 3 | M_budget_style \<Rightarrow> 2)"
| "role_weight c Role_critic =
     (case c of M_pace \<Rightarrow> 3 | M_preferred_categories \<Rightarrow> 2 | M_avoided_categories \<Rightarrow> 3 | M_walking_tolerance \<Rightarrow> 2
      | M_food_preferences \<Rightarrow> 2 | M_accessibility_needs \<Rightarrow> 3 | M_schedule_preferences \<Rightarrow> 3 | _ \<Rightarrow> 0)"
| "role_weight c Role_replanner =
     (case c of M_pace \<Rightarrow> 2 | M_avoided_categories \<Rightarrow> 3 | M_walking_tolerance \<Rightarrow> 3 | M_preferred_transport \<Rightarrow> 2
      | M_accessibility_needs \<Rightarrow> 3 | _ \<Rightarrow> 0)"

definition freshness :: "preference_memory \<Rightarrow> datetime \<Rightarrow> rat" where
  "freshness m now =
     (let age = max (of_int (instant now - instant (pm_updated_at m)) / of_int day_us) 0 in max (1 - age / 365) 0)"

definition memory_score :: "preference_memory \<Rightarrow> agent_role \<Rightarrow> datetime \<Rightarrow> rat" where
  "memory_score m role now =
     of_int (py_round ((4 + role_weight (pm_category m) role + pm_confidence m * 2 + freshness m now) * 10 ^ 6)) / 10 ^ 6"

text \<open>Why a memory is left out before the ranking, in the order of the tests.\<close>

definition exclusion_of ::
  "trip_spec \<Rightarrow> requirement_draft option \<Rightarrow> agent_role \<Rightarrow> datetime \<Rightarrow> preference_memory \<Rightarrow> exclusion option" where
  "exclusion_of trip draft role now m =
     (if \<not> memory_active_at m now then Some Ex_inactive
      else if \<not> scope_matches m trip then Some Ex_scope
      else if explicitly_overridden (pm_category m) draft then Some Ex_override
      else if role_weight (pm_category m) role \<le> 0 then Some Ex_role
      else None)"

fun bump :: "exclusion \<Rightarrow> (exclusion \<times> nat) list \<Rightarrow> (exclusion \<times> nat) list" where
  "bump e [] = [(e, 1)]"
| "bump e ((x, n) # xs) = (if x = e then (x, n + 1) # xs else (x, n) # bump e xs)"

definition tally :: "exclusion list \<Rightarrow> (exclusion \<times> nat) list \<Rightarrow> (exclusion \<times> nat) list" where
  "tally es xs = foldl (\<lambda>acc e. bump e acc) xs es"

definition ranked ::
  "trip_spec \<Rightarrow> requirement_draft option \<Rightarrow> agent_role \<Rightarrow> datetime \<Rightarrow> preference_memory list
     \<Rightarrow> (rat \<times> preference_memory) list" where
  "ranked trip draft role now ms =
     sort_key (\<lambda>(score, m). (- score, pm_id m))
       [(memory_score m role now, m). m \<leftarrow> ms, exclusion_of trip draft role now m = None]"

section \<open>Conflicts and the budget\<close>

text \<open>Equality of preference values: numbers and booleans compare by value, dicts without order.\<close>

definition scalar_number :: "pref_scalar \<Rightarrow> rat option" where
  "scalar_number x = (case x of P_str s \<Rightarrow> None | P_int n \<Rightarrow> Some (of_int n) | P_float r \<Rightarrow> Some r | P_bool b \<Rightarrow> Some (if b then 1 else 0))"

definition scalar_eq :: "pref_scalar \<Rightarrow> pref_scalar \<Rightarrow> bool" where
  "scalar_eq x y = (if scalar_number x = None \<or> scalar_number y = None then x = y else scalar_number x = scalar_number y)"

definition entry_eq :: "pref_scalar + pref_scalar list \<Rightarrow> pref_scalar + pref_scalar list \<Rightarrow> bool" where
  "entry_eq x y = (case (x, y) of (Inl a, Inl b) \<Rightarrow> scalar_eq a b | (Inr a, Inr b) \<Rightarrow> list_all2 scalar_eq a b | _ \<Rightarrow> False)"

definition value_eq :: "pref_value \<Rightarrow> pref_value \<Rightarrow> bool" where
  "value_eq v w =
     (case (v, w) of
        (P_scalar x, P_scalar y) \<Rightarrow> scalar_eq x y
      | (P_list xs, P_list ys) \<Rightarrow> list_all2 scalar_eq xs ys
      | (P_dict d, P_dict e) \<Rightarrow> set (map fst d) = set (map fst e) \<and>
          list_all (\<lambda>k. case (map_of d k, map_of e k) of (Some x, Some y) \<Rightarrow> entry_eq x y | _ \<Rightarrow> False) (map fst d)
      | _ \<Rightarrow> False)"

text \<open>The first ranked memory of a category against the later ones with another value.\<close>

fun find_conflicts :: "(memory_category \<times> preference_memory) list \<Rightarrow> preference_memory list \<Rightarrow> memory_conflict list" where
  "find_conflicts first [] = []"
| "find_conflicts first (m # ms) =
     (case map_of first (pm_category m) of
        None \<Rightarrow> find_conflicts ((pm_category m, m) # first) ms
      | Some prev \<Rightarrow>
          if value_eq (pm_value prev) (pm_value m) then find_conflicts first ms
          else \<lparr>mc_category = pm_category m, mc_current = pm_id prev, mc_conflicting = pm_id m\<rparr> # find_conflicts first ms)"

definition summary_of :: "agent_role \<Rightarrow> rat \<times> preference_memory \<Rightarrow> preference_summary" where
  "summary_of role sm = (let (score, m) = sm in
     \<lparr>su_id = pm_id m, su_category = pm_category m, su_value = pm_value m, su_confidence = pm_confidence m,
      su_source = pm_source m,
      su_reason = ''confirmed '' @ memory_category_value (pm_category m) @ '' relevant to '' @ agent_role_value role,
      su_score = score\<rparr>)"

definition quarter_up :: "nat \<Rightarrow> nat" where
  "quarter_up n = (n + 3) div 4"

text \<open>The summaries taken, the characters they need, and what was left out on the way.\<close>

fun fill_context ::
  "context_env \<Rightarrow> composer \<Rightarrow> agent_role \<Rightarrow> memory_category list \<Rightarrow> nat \<Rightarrow> (rat \<times> preference_memory) list
     \<Rightarrow> preference_summary list \<times> nat \<times> exclusion list" where
  "fill_context env co role bad chars [] = ([], chars, [])"
| "fill_context env co role bad chars (sm # sms) =
     (if pm_category (snd sm) \<in> set bad
      then (let (xs, n, es) = fill_context env co role bad chars sms in (xs, n, Ex_conflict # es))
      else let x = summary_of role sm; size = ce_size env x in
        if co_max_characters co < chars + size \<or> co_max_tokens co < quarter_up (chars + size)
        then (let (xs, n, es) = fill_context env co role bad chars sms in (xs, n, Ex_budget # es))
        else (let (xs, n, es) = fill_context env co role bad (chars + size) sms in (x # xs, n, es)))"

definition compose ::
  "context_env \<Rightarrow> composer \<Rightarrow> preference_memory list \<Rightarrow> trip_spec \<Rightarrow> requirement_draft option \<Rightarrow> agent_role \<Rightarrow> datetime
     \<Rightarrow> preference_context" where
  "compose env co ms trip draft role now =
     (let first_out = List.map_filter (exclusion_of trip draft role now) ms;
          overridden = sort [pm_id m. m \<leftarrow> ms, exclusion_of trip draft role now m = Some Ex_override];
          active = ranked trip draft role now ms;
          conflicts = find_conflicts [] (map snd active);
          (xs, chars, es) = fill_context env co role (map mc_category conflicts) 0 active;
          reasons = tally es (tally first_out []);
          hash = ce_hash env role (map su_id xs) overridden
      in \<lparr>cx_summaries = xs,
          cx_manifest = \<lparr>cm_id = ''ctx-'' @ take 24 hash, cm_role = role, cm_selected = map su_id xs,
            cm_categories = map su_category xs, cm_excluded = sum_list (map snd reasons), cm_reasons = reasons,
            cm_tokens = quarter_up chars, cm_characters = chars, cm_max_tokens = co_max_tokens co,
            cm_max_characters = co_max_characters co, cm_overridden = overridden, cm_hash = hash\<rparr>,
          cx_conflicts = conflicts\<rparr>)"

section \<open>Applying a context to a trip\<close>

fun scalar_str :: "context_env \<Rightarrow> pref_scalar \<Rightarrow> string" where
  "scalar_str env (P_str s) = s"
| "scalar_str env (P_int n) = show_int n"
| "scalar_str env (P_float x) = ce_repr env (P_scalar (P_float x))"
| "scalar_str env (P_bool b) = (if b then ''True'' else ''False'')"

definition value_str :: "context_env \<Rightarrow> pref_value \<Rightarrow> string" where
  "value_str env v = (case v of P_scalar x \<Rightarrow> scalar_str env x | _ \<Rightarrow> ce_repr env v)"

definition as_strings :: "context_env \<Rightarrow> pref_value \<Rightarrow> string list" where
  "as_strings env v = (case v of P_list xs \<Rightarrow> map (scalar_str env) xs | _ \<Rightarrow> [value_str env v])"

fun merge_terms :: "string list \<Rightarrow> string list \<Rightarrow> string list" where
  "merge_terms current [] = current"
| "merge_terms current (x # xs) =
     (if casefold x \<in> set (map casefold current) then merge_terms current xs else merge_terms (current @ [x]) xs)"

definition pace_named :: "string \<Rightarrow> (string, pace) result" where
  "pace_named s =
     (if s = ''relaxed'' then Inr Pace_relaxed else if s = ''balanced'' then Inr Pace_balanced
      else if s = ''intensive'' then Inr Pace_intensive else Inl ''not a valid Pace'')"

definition value_int :: "context_env \<Rightarrow> pref_value \<Rightarrow> (string, int) result" where
  "value_int env v =
     (case v of
        P_scalar x \<Rightarrow>
          (case x of
             P_int n \<Rightarrow> Inr n | P_float r \<Rightarrow> Inr (truncated r) | P_bool b \<Rightarrow> Inr (if b then 1 else 0)
           | P_str s \<Rightarrow> (case ce_int env s of Some n \<Rightarrow> Inr n | None \<Rightarrow> Inl ''invalid literal for int()''))
      | _ \<Rightarrow> Inl ''int() argument must be a string or a number'')"

record trip_updates =
  up_pace :: "pace option"
  up_mobility :: "mobility_constraints option"
  up_interests :: "string list"
  up_avoid :: "string list"

definition apply_summary ::
  "context_env \<Rightarrow> trip_spec \<Rightarrow> requirement_draft option \<Rightarrow> preference_summary \<Rightarrow> trip_updates \<Rightarrow> (string, trip_updates) result" where
  "apply_summary env trip draft x u =
     (let free_pace = (case draft of None \<Rightarrow> True | Some d \<Rightarrow> rd_pace d = None);
          free_mobility = (case draft of None \<Rightarrow> True | Some d \<Rightarrow> rd_mobility d = None)
      in case su_category x of
           M_pace \<Rightarrow> if free_pace then bind_res (pace_named (value_str env (su_value x))) (\<lambda>p. Inr (u\<lparr>up_pace := Some p\<rparr>)) else Inr u
         | M_walking_tolerance \<Rightarrow>
             if free_mobility then bind_res (value_int env (su_value x)) (\<lambda>n.
               Inr (u\<lparr>up_mobility := Some ((mobility trip)\<lparr>max_daily_walking_meters := n\<rparr>)\<rparr>))
             else Inr u
         | M_preferred_categories \<Rightarrow> Inr (u\<lparr>up_interests := merge_terms (up_interests u) (as_strings env (su_value x))\<rparr>)
         | M_avoided_categories \<Rightarrow>
             Inr (u\<lparr>up_avoid := merge_terms (up_avoid u)
               [v \<leftarrow> as_strings env (su_value x). casefold v \<notin> casefold ` set (must_visit trip)]\<rparr>)
         | M_accessibility_needs \<Rightarrow>
             Inr (if ''frequent_rest'' \<in> casefold ` set (as_strings env (su_value x)) \<and> free_mobility
               then u\<lparr>up_mobility := Some ((case up_mobility u of None \<Rightarrow> mobility trip | Some m \<Rightarrow> m)\<lparr>needs_frequent_rest := True\<rparr>)\<rparr>
               else u)
         | _ \<Rightarrow> Inr u)"

definition apply_to_trip ::
  "context_env \<Rightarrow> trip_spec \<Rightarrow> requirement_draft option \<Rightarrow> preference_context \<Rightarrow> (string, trip_spec) result" where
  "apply_to_trip env trip draft cx =
     bind_res (fold_res (apply_summary env trip draft) (cx_summaries cx)
         \<lparr>up_pace = None, up_mobility = None, up_interests = interests trip, up_avoid = avoid trip\<rparr>) (\<lambda>u.
       Inr (trip\<lparr>trip_pace := (case up_pace u of None \<Rightarrow> trip_pace trip | Some p \<Rightarrow> p),
                 mobility := (case up_mobility u of None \<Rightarrow> mobility trip | Some m \<Rightarrow> m),
                 interests := up_interests u, avoid := up_avoid u\<rparr>))"

text \<open>The context of a trip, as the service computes it from the stored preferences of the user.\<close>

definition context_for_trip ::
  "context_env \<Rightarrow> composer \<Rightarrow> owner \<Rightarrow> trip_spec \<Rightarrow> requirement_draft option \<Rightarrow> agent_role \<Rightarrow> datetime \<Rightarrow> memory_service
     \<Rightarrow> memory_service \<times> preference_context" where
  "context_for_trip env co own trip draft role now sv =
     (let (s, x) = get_personalization own now (sv_store sv)
      in (sv\<lparr>sv_store := s\<rparr>,
          compose env co (if ps_enabled x then list_memories own False now s else []) trip draft role now))"

end
