(* ===== verification/RequirementGraph.thy ===== *)
theory RequirementGraph
  imports PlanningGraph MemoryContext
begin

text \<open>
  \<open>requirements/workflow.py\<close> with its state (\<open>requirements/state.py\<close>): the conversation that turns
  the user's text into a trip and plans it. The nodes, routes and edges of the graph, the run of a
  thread up to its end, its next interrupt or a failure, and the two entry points
  \<open>run_natural_planning\<close> and \<open>resume_natural_planning\<close>. A thread is what LangGraph's checkpointer
  keeps of it: the values after the last completed node, the node to run next, and the pending
  interrupt. The language model, the place search and the time are services that may answer
  differently in every step; the planner and the preference memory are the modelled ones.
\<close>

section \<open>State\<close>

record natural_request =
  nq_text :: string
  nq_reference_date :: py_date
  nq_zone :: tz
  nq_max_replan :: int
  nq_max_clarification :: int

record resume_value =
  rv_interrupt :: string
  rv_request :: string
  rv_answer :: string

record interrupt_payload =
  ip_round :: int
  ip_max :: int
  ip_targets :: "string list"
  ip_issues :: "requirement_issue list"
  ip_questions :: "requirement_text list"

datatype requirement_operation = Initial_parse | Clarification_patch

record llm_summary =
  ls_provider :: string
  ls_model :: string
  ls_prompt_version :: string
  ls_operation :: requirement_operation
  ls_attempts :: nat
  ls_elapsed_ms :: rat
  ls_input_tokens :: "int option"
  ls_output_tokens :: "int option"

datatype requirement_message = Need_clarification | Clarification_exhausted_message | From_planning planning_message

record dialogue_state =
  qs_thread :: string
  qs_tenant :: string
  qs_user :: string
  qs_request :: natural_request
  qs_draft :: "requirement_draft option"
  qs_issues :: "requirement_issue list"
  qs_questions :: "requirement_text list"
  qs_round :: int
  qs_max_rounds :: int
  qs_targets :: "string list"
  qs_input :: "resume_value option"
  qs_patch :: "requirement_patch option"
  qs_changed :: "draft_field list"
  qs_rejected :: "string list"
  qs_exhausted :: bool

record anchor_state = dialogue_state +
  qs_plan :: "anchor_intent list"
  qs_results :: "poi_facts list tool_result list"
  qs_resolutions :: "(string \<times> anchor_resolution) list"
  qs_reused :: "string list"
  qs_invalidated :: "string list"
  qs_llm :: "llm_summary list"
  qs_tools :: "tool_summary list"

record requirement_state = anchor_state +
  qs_trip :: "trip_spec option"
  qs_context :: "preference_context option"
  qs_personalized :: "string list"
  qs_planning :: "planning_response option"
  qs_status :: string
  qs_message :: "requirement_message option"

definition initial_requirement_state :: "natural_request \<Rightarrow> string \<Rightarrow> string \<Rightarrow> string \<Rightarrow> requirement_state" where
  "initial_requirement_state r thread tenant user =
     \<lparr>qs_thread = thread, qs_tenant = tenant, qs_user = user, qs_request = r, qs_draft = None, qs_issues = [],
      qs_questions = [], qs_round = 0, qs_max_rounds = nq_max_clarification r, qs_targets = [], qs_input = None,
      qs_patch = None, qs_changed = [], qs_rejected = [], qs_exhausted = False, qs_plan = [], qs_results = [],
      qs_resolutions = [], qs_reused = [], qs_invalidated = [], qs_llm = [], qs_tools = [], qs_trip = None,
      qs_context = None, qs_personalized = [], qs_planning = None, qs_status = ''started'', qs_message = None\<rparr>"

section \<open>Services and errors\<close>

datatype requirement_error =
  Model_unavailable string
| Tools_failed string
| Requirement_value_error string
| Requirement_assertion
| Requirement_validation string
| Planning_failed planning_error
| Requirement_recursion_limit
| Thread_not_found string
| Resume_conflict string string

record patch_input =
  px_answer :: string
  px_draft :: requirement_draft
  px_targets :: "string list"
  px_issues :: "requirement_issue list"
  px_reference_date :: py_date
  px_zone :: tz

record requirement_services =
  rs_parse :: "natural_request \<Rightarrow> string \<Rightarrow> (string, requirement_draft \<times> llm_summary) result"
  rs_parse_patch :: "patch_input \<Rightarrow> string \<Rightarrow> (string, requirement_patch \<times> llm_summary) result"
  rs_search :: "poi_search_query list \<Rightarrow> poi_facts list tool_result list"
  rs_planning :: "nat \<Rightarrow> planning_services"
  rs_now :: datetime

text \<open>\<open>rc_memory\<close>: whether the graph is built with a memory service, and the arguments of its composer.\<close>

record requirement_config =
  rc_planning :: planning_config
  rc_memory :: "(context_env \<times> composer) option"

section \<open>Nodes\<close>

definition model_error :: "(string, 'a) result \<Rightarrow> (requirement_error, 'a) result" where
  "model_error r = (case r of Inl e \<Rightarrow> Inl (Model_unavailable e) | Inr x \<Rightarrow> Inr x)"

type_synonym requirement_result = "(requirement_error, requirement_state) result"

definition node_parse :: "requirement_services \<Rightarrow> requirement_state \<Rightarrow> requirement_result" where
  "node_parse sv st =
     bind_res (model_error (rs_parse sv (qs_request st) (qs_thread st))) (\<lambda>(draft, summary).
       Inr (st\<lparr>qs_draft := Some draft, qs_llm := qs_llm st @ [summary], qs_status := ''parsed''\<rparr>))"

definition node_validate_requirement :: "requirement_state \<Rightarrow> requirement_result" where
  "node_validate_requirement st =
     (case qs_draft st of
        None \<Rightarrow> Inl Requirement_assertion
      | Some d \<Rightarrow> Inr (st\<lparr>qs_issues := validate_requirement d (nq_zone (qs_request st)), qs_questions := [], qs_targets := [],
          qs_status := ''validated''\<rparr>))"

definition anchor_summary :: "poi_facts list tool_result \<Rightarrow> tool_summary" where
  "anchor_summary r = \<lparr>tsum_provider = tr_provider r, tsum_operation = ''anchor.resolve'', tsum_status = tr_status r,
     tsum_cache_hit = tr_cache_hit r, tsum_attempts = tr_attempt_count r\<rparr>"

definition value_error :: "(string, 'a) result \<Rightarrow> (requirement_error, 'a) result" where
  "value_error r = (case r of Inl e \<Rightarrow> Inl (Requirement_value_error e) | Inr x \<Rightarrow> Inr x)"

definition node_resolve_anchors :: "requirement_services \<Rightarrow> requirement_state \<Rightarrow> requirement_result" where
  "node_resolve_anchors sv st =
     (case qs_draft st of
        None \<Rightarrow> Inl Requirement_assertion
      | Some d \<Rightarrow>
          let required = required_anchor_roles d;
              cached = filter (\<lambda>r. r \<in> fst ` set (qs_resolutions st)) required;
              wanted = filter (\<lambda>r. r \<notin> fst ` set (qs_resolutions st)) required
          in bind_res (value_error (build_anchor_search_plan d wanted)) (\<lambda>plan.
            let results = (if plan = [] then [] else rs_search sv (map ai_query plan))
            in if list_ex (\<lambda>r. tr_status r = Tool_failed) results then Inl (Tools_failed (qs_thread st))
               else Inr (st\<lparr>qs_plan := plan, qs_results := results, qs_reused := sort cached,
                 qs_tools := qs_tools st @ map anchor_summary results, qs_status := ''anchors_loaded''\<rparr>)))"

definition node_evaluate_anchors :: "requirement_state \<Rightarrow> requirement_result" where
  "node_evaluate_anchors st =
     bind_res (value_error (resolve_anchor_search_results (qs_plan st) (qs_results st))) (\<lambda>(new, issues).
       Inr (st\<lparr>qs_resolutions := foldl (\<lambda>m (role, r). AList.update role r m) (qs_resolutions st) new,
               qs_issues := issues, qs_status := ''anchors_evaluated''\<rparr>))"

definition issue_question :: "requirement_issue \<Rightarrow> requirement_text" where
  "issue_question i = (case ri_question i of None \<Rightarrow> ri_message i | Some q \<Rightarrow> q)"

definition node_request_clarification :: "requirement_state \<Rightarrow> requirement_result" where
  "node_request_clarification st =
     (let questions = first_unique (map issue_question (filter ri_blocking (qs_issues st)));
          targets = clarification_target_fields (qs_issues st)
      in if qs_max_rounds st \<le> qs_round st
         then Inr (st\<lparr>qs_questions := questions, qs_targets := targets, qs_exhausted := True,
           qs_status := ''clarification_exhausted_pending''\<rparr>)
         else Inr (st\<lparr>qs_questions := questions, qs_round := qs_round st + 1, qs_targets := targets, qs_input := None,
           qs_patch := None, qs_changed := [], qs_rejected := [], qs_status := ''needs_clarification'',
           qs_message := Some Need_clarification\<rparr>))"

definition payload_of :: "requirement_state \<Rightarrow> (requirement_error, interrupt_payload) result" where
  "payload_of st =
     (if 1 \<le> qs_round st \<and> 1 \<le> qs_max_rounds st \<and> qs_targets st \<noteq> [] \<and> qs_issues st \<noteq> [] \<and> qs_questions st \<noteq> []
      then Inr \<lparr>ip_round = qs_round st, ip_max = qs_max_rounds st, ip_targets = qs_targets st, ip_issues = qs_issues st,
        ip_questions = qs_questions st\<rparr>
      else Inl (Requirement_validation ''ClarificationInterruptPayload''))"

definition validate_resume :: "resume_value \<Rightarrow> (requirement_error, resume_value) result" where
  "validate_resume v =
     (let i = py_strip (rv_interrupt v); a = py_strip (rv_answer v)
      in if 1 \<le> py_len (rv_interrupt v) \<and> py_len (rv_interrupt v) \<le> 256 \<and> 1 \<le> py_len (rv_answer v) \<and>
            py_len (rv_answer v) \<le> 2000 \<and> i \<noteq> [] \<and> a \<noteq> []
         then Inr (v\<lparr>rv_interrupt := i, rv_answer := a\<rparr>) else Inl (Requirement_validation ''ClarificationResumeValue''))"

text \<open>\<open>interrupt()\<close> stops the run unless a resume value is at hand, which it then returns.\<close>

datatype node_end = Goes_on requirement_state | Interrupts interrupt_payload

definition node_await :: "resume_value option \<Rightarrow> requirement_state \<Rightarrow> (requirement_error, node_end) result" where
  "node_await resume st =
     bind_res (payload_of st) (\<lambda>p.
       case resume of
         None \<Rightarrow> Inr (Interrupts p)
       | Some v \<Rightarrow> bind_res (validate_resume v) (\<lambda>v'.
           Inr (Goes_on (st\<lparr>qs_input := Some v', qs_status := ''clarification_received'', qs_message := None\<rparr>))))"

definition node_parse_patch :: "requirement_services \<Rightarrow> requirement_state \<Rightarrow> requirement_result" where
  "node_parse_patch sv st =
     (case (qs_draft st, qs_input st) of
        (Some d, Some v) \<Rightarrow>
          if qs_targets st = [] \<or> qs_issues st = [] then Inl (Requirement_validation ''ClarificationModelInput'')
          else bind_res (model_error (rs_parse_patch sv \<lparr>px_answer = rv_answer v, px_draft = d, px_targets = qs_targets st,
                 px_issues = qs_issues st, px_reference_date = nq_reference_date (qs_request st),
                 px_zone = nq_zone (qs_request st)\<rparr> (qs_thread st))) (\<lambda>(patch, summary).
            Inr (st\<lparr>qs_patch := Some patch, qs_llm := qs_llm st @ [summary], qs_status := ''clarification_parsed''\<rparr>))
      | _ \<Rightarrow> Inl Requirement_assertion)"

definition node_apply_patch :: "requirement_state \<Rightarrow> requirement_result" where
  "node_apply_patch st =
     (case (qs_draft st, qs_patch st) of
        (Some d, Some patch) \<Rightarrow>
          bind_res (case merge_requirement_patch d patch (qs_targets st) of Inl e \<Rightarrow> Inl (Requirement_validation e) | Inr x \<Rightarrow> Inr x)
            (\<lambda>(merged, changed, rejected).
              let invalidated = invalidated_anchor_roles changed
              in Inr (st\<lparr>qs_draft := Some merged, qs_changed := changed, qs_rejected := rejected,
                   qs_invalidated := invalidated,
                   qs_resolutions := filter (\<lambda>(role, r). role \<notin> set invalidated) (qs_resolutions st),
                   qs_input := None, qs_patch := None,
                   qs_status := (if changed \<noteq> [] then ''patch_applied'' else ''patch_ignored'')\<rparr>))
      | _ \<Rightarrow> Inl Requirement_assertion)"

definition node_exhausted :: "requirement_state \<Rightarrow> requirement_result" where
  "node_exhausted st = Inr (st\<lparr>qs_status := ''needs_clarification'', qs_message := Some Clarification_exhausted_message\<rparr>)"

definition node_assemble :: "requirement_state \<Rightarrow> requirement_result" where
  "node_assemble st =
     (case qs_draft st of
        None \<Rightarrow> Inl Requirement_assertion
      | Some d \<Rightarrow> bind_res (value_error (assemble_trip_spec d (qs_resolutions st) (nq_zone (qs_request st)))) (\<lambda>trip.
          Inr (st\<lparr>qs_trip := Some trip, qs_status := ''trip_assembled''\<rparr>)))"

definition changed_trip_fields :: "trip_spec \<Rightarrow> trip_spec \<Rightarrow> string list" where
  "changed_trip_fields new old =
     (if trip_pace new \<noteq> trip_pace old then [''pace''] else []) @ (if mobility new \<noteq> mobility old then [''mobility''] else []) @
     (if interests new \<noteq> interests old then [''interests''] else []) @ (if avoid new \<noteq> avoid old then [''avoid''] else [])"

definition node_retrieve ::
  "context_env \<times> composer \<Rightarrow> requirement_services \<Rightarrow> memory_service \<Rightarrow> requirement_state \<Rightarrow> memory_service \<times> requirement_result" where
  "node_retrieve ec sv mem st =
     (case (qs_trip st, qs_draft st) of
        (Some trip, Some d) \<Rightarrow>
          (let (mem', cx) = context_for_trip (fst ec) (snd ec) (qs_tenant st, qs_user st) trip (Some d) Role_planner (rs_now sv) mem
           in (mem', bind_res (value_error (apply_to_trip (fst ec) trip (Some d) cx)) (\<lambda>new.
                Inr (st\<lparr>qs_trip := Some new, qs_context := Some cx, qs_personalized := changed_trip_fields new trip,
                  qs_status := ''preferences_composed''\<rparr>))))
      | _ \<Rightarrow> (mem, Inl Requirement_assertion))"

definition node_execute_planning :: "requirement_config \<Rightarrow> requirement_services \<Rightarrow> requirement_state \<Rightarrow> requirement_result" where
  "node_execute_planning cf sv st =
     (case qs_trip st of
        None \<Rightarrow> Inl Requirement_assertion
      | Some trip \<Rightarrow>
          (case run_planning (rc_planning cf) (rs_planning sv)
              \<lparr>rq_trip = trip, rq_max_rounds = nq_max_replan (qs_request st)\<rparr> (qs_thread st) of
             Inl e \<Rightarrow> Inl (Planning_failed e)
           | Inr r \<Rightarrow> Inr (st\<lparr>qs_planning := Some r, qs_status := pr_status r, qs_message := map_option From_planning (pr_message r)\<rparr>)))"

section \<open>The graph\<close>

datatype requirement_node =
  Q_guard | Q_parse | Q_validate | Q_resolve | Q_evaluate | Q_request | Q_await | Q_parse_patch | Q_apply_patch
| Q_exhausted | Q_assemble | Q_retrieve | Q_execute

definition proceed :: "memory_service \<Rightarrow> requirement_result \<Rightarrow> memory_service \<times> (requirement_error, node_end) result" where
  "proceed mem r = (mem, bind_res r (\<lambda>st. Inr (Goes_on st)))"

fun requirement_body ::
  "requirement_config \<Rightarrow> requirement_services \<Rightarrow> resume_value option \<Rightarrow> requirement_node \<Rightarrow> memory_service \<Rightarrow> requirement_state
     \<Rightarrow> memory_service \<times> (requirement_error, node_end) result" where
  "requirement_body cf sv rv Q_guard mem st = proceed mem (Inr st)"
| "requirement_body cf sv rv Q_parse mem st = proceed mem (node_parse sv st)"
| "requirement_body cf sv rv Q_validate mem st = proceed mem (node_validate_requirement st)"
| "requirement_body cf sv rv Q_resolve mem st = proceed mem (node_resolve_anchors sv st)"
| "requirement_body cf sv rv Q_evaluate mem st = proceed mem (node_evaluate_anchors st)"
| "requirement_body cf sv rv Q_request mem st = proceed mem (node_request_clarification st)"
| "requirement_body cf sv rv Q_await mem st = (mem, node_await rv st)"
| "requirement_body cf sv rv Q_parse_patch mem st = proceed mem (node_parse_patch sv st)"
| "requirement_body cf sv rv Q_apply_patch mem st = proceed mem (node_apply_patch st)"
| "requirement_body cf sv rv Q_exhausted mem st = proceed mem (node_exhausted st)"
| "requirement_body cf sv rv Q_assemble mem st = proceed mem (node_assemble st)"
| "requirement_body cf sv rv Q_retrieve mem st =
     (case rc_memory cf of None \<Rightarrow> (mem, Inl Requirement_assertion)
      | Some ec \<Rightarrow> (let (mem', r) = node_retrieve ec sv mem st in proceed mem' r))"
| "requirement_body cf sv rv Q_execute mem st = proceed mem (node_execute_planning cf sv st)"

definition route_requirement :: "requirement_state \<Rightarrow> requirement_node" where
  "route_requirement st = (if list_ex ri_blocking (qs_issues st) then Q_request else Q_resolve)"

definition route_anchors :: "requirement_state \<Rightarrow> requirement_node" where
  "route_anchors st = (if list_ex ri_blocking (qs_issues st) then Q_request else Q_assemble)"

definition route_clarification_request :: "requirement_state \<Rightarrow> requirement_node" where
  "route_clarification_request st = (if qs_exhausted st then Q_exhausted else Q_await)"

definition route_after_patch :: "requirement_state \<Rightarrow> requirement_node" where
  "route_after_patch st = (if qs_changed st \<noteq> [] then Q_validate else Q_request)"

fun requirement_next :: "requirement_config \<Rightarrow> requirement_node \<Rightarrow> requirement_state \<Rightarrow> requirement_node option" where
  "requirement_next cf Q_guard st = Some Q_parse"
| "requirement_next cf Q_parse st = Some Q_validate"
| "requirement_next cf Q_validate st = Some (route_requirement st)"
| "requirement_next cf Q_resolve st = Some Q_evaluate"
| "requirement_next cf Q_evaluate st = Some (route_anchors st)"
| "requirement_next cf Q_request st = Some (route_clarification_request st)"
| "requirement_next cf Q_await st = Some Q_parse_patch"
| "requirement_next cf Q_parse_patch st = Some Q_apply_patch"
| "requirement_next cf Q_apply_patch st = Some (route_after_patch st)"
| "requirement_next cf Q_exhausted st = None"
| "requirement_next cf Q_assemble st = Some (if rc_memory cf = None then Q_execute else Q_retrieve)"
| "requirement_next cf Q_retrieve st = Some Q_execute"
| "requirement_next cf Q_execute st = None"

section \<open>Runs and threads\<close>

text \<open>
  How a run ends: at the end of the graph, in an interrupt, or in an exception; then with the values
  before the node that raised. A resume value is used up by the node that awaits it.
\<close>

datatype run_end =
  Run_ended requirement_state
| Run_interrupted requirement_state interrupt_payload
| Run_failed requirement_node requirement_state requirement_error

fun run_requirement ::
  "nat \<Rightarrow> requirement_config \<Rightarrow> (nat \<Rightarrow> requirement_services) \<Rightarrow> resume_value option \<Rightarrow> requirement_node \<Rightarrow> memory_service
     \<Rightarrow> requirement_state \<Rightarrow> memory_service \<times> run_end" where
  "run_requirement 0 cf svs rv n mem st = (mem, Run_failed n st Requirement_recursion_limit)"
| "run_requirement (Suc k) cf svs rv n mem st =
     (case requirement_body cf (svs k) rv n mem st of
        (mem', Inl e) \<Rightarrow> (mem', Run_failed n st e)
      | (mem', Inr (Interrupts p)) \<Rightarrow> (mem', Run_interrupted st p)
      | (mem', Inr (Goes_on st')) \<Rightarrow>
          (case requirement_next cf n st' of
             None \<Rightarrow> (mem', Run_ended st')
           | Some n' \<Rightarrow> run_requirement k cf svs (if n = Q_await then None else rv) n' mem' st'))"

record thread =
  th_values :: requirement_state
  th_next :: "requirement_node option"
  th_interrupt :: "(string \<times> interrupt_payload) option"

text \<open>\<open>fresh\<close>: the id LangGraph gives to an interrupt of this run.\<close>

definition thread_after :: "string \<Rightarrow> run_end \<Rightarrow> thread" where
  "thread_after fresh r =
     (case r of
        Run_ended st \<Rightarrow> \<lparr>th_values = st, th_next = None, th_interrupt = None\<rparr>
      | Run_interrupted st p \<Rightarrow> \<lparr>th_values = st, th_next = Some Q_await, th_interrupt = Some (fresh, p)\<rparr>
      | Run_failed n st e \<Rightarrow> \<lparr>th_values = st, th_next = Some n, th_interrupt = None\<rparr>)"

record natural_response =
  np_thread :: string
  np_status :: string
  np_trip :: "trip_spec option"
  np_issues :: "requirement_issue list"
  np_questions :: "requirement_text list"
  np_round :: int
  np_can_resume :: bool
  np_interrupt :: "(string \<times> interrupt_payload) option"
  np_planning :: "planning_response option"
  np_context :: "preference_context option"
  np_personalized :: "string list"
  np_message :: "requirement_message option"

definition response_from_requirement_state ::
  "requirement_state \<Rightarrow> (string \<times> interrupt_payload) option \<Rightarrow> (requirement_error, natural_response) result" where
  "response_from_requirement_state st i =
     (if qs_status st \<in> {''completed'', ''infeasible'', ''needs_clarification''}
      then Inr \<lparr>np_thread = qs_thread st, np_status = qs_status st, np_trip = qs_trip st, np_issues = qs_issues st,
        np_questions = qs_questions st, np_round = qs_round st, np_can_resume = (i \<noteq> None), np_interrupt = i,
        np_planning = qs_planning st, np_context = qs_context st, np_personalized = qs_personalized st,
        np_message = qs_message st\<rparr>
      else Inl (Requirement_validation ''NaturalPlanningResponse''))"

definition finalize_response :: "string \<Rightarrow> run_end \<Rightarrow> (requirement_error, natural_response) result" where
  "finalize_response fresh r =
     (case r of
        Run_ended st \<Rightarrow> response_from_requirement_state st None
      | Run_interrupted st p \<Rightarrow> response_from_requirement_state st (Some (fresh, p))
      | Run_failed n st e \<Rightarrow> Inl e)"

definition requirement_recursion_limit :: nat where
  "requirement_recursion_limit = 50"

record conversations =
  cv_threads :: "(string \<times> thread) list"
  cv_memory :: memory_service

definition invoke_thread ::
  "requirement_config \<Rightarrow> (nat \<Rightarrow> requirement_services) \<Rightarrow> string \<Rightarrow> string \<Rightarrow> resume_value option \<Rightarrow> requirement_node \<Rightarrow> requirement_state
     \<Rightarrow> conversations \<Rightarrow> conversations \<times> (requirement_error, natural_response) result" where
  "invoke_thread cf svs fresh tid rv n st cv =
     (let (mem, r) = run_requirement requirement_recursion_limit cf svs rv n (cv_memory cv) st
      in (cv\<lparr>cv_threads := AList.update tid (thread_after fresh r) (cv_threads cv), cv_memory := mem\<rparr>,
          finalize_response fresh r))"

definition run_natural_planning ::
  "requirement_config \<Rightarrow> (nat \<Rightarrow> requirement_services) \<Rightarrow> string \<Rightarrow> natural_request \<Rightarrow> string \<Rightarrow> string \<Rightarrow> string
     \<Rightarrow> conversations \<Rightarrow> conversations \<times> (requirement_error, natural_response) result" where
  "run_natural_planning cf svs fresh r tid tenant user cv =
     invoke_thread cf svs fresh tid None Q_guard (initial_requirement_state r tid tenant user) cv"

text \<open>Whether a thread without a pending interrupt failed while it handled exactly this answer.\<close>

definition retries_failed_resume :: "thread \<Rightarrow> resume_value \<Rightarrow> bool" where
  "retries_failed_resume th v = (case qs_input (th_values th) of None \<Rightarrow> False | Some w \<Rightarrow> th_next th \<noteq> None \<and> w = v)"

definition resume_natural_planning ::
  "requirement_config \<Rightarrow> (nat \<Rightarrow> requirement_services) \<Rightarrow> string \<Rightarrow> resume_value \<Rightarrow> string \<Rightarrow> string option \<Rightarrow> string option
     \<Rightarrow> conversations \<Rightarrow> conversations \<times> (requirement_error, natural_response) result" where
  "resume_natural_planning cf svs fresh v tid tenant user cv =
     (case map_of (cv_threads cv) tid of
        None \<Rightarrow> (cv, Inl (Thread_not_found tid))
      | Some th \<Rightarrow>
          if tenant \<noteq> None \<and> Some (qs_tenant (th_values th)) \<noteq> tenant then (cv, Inl (Thread_not_found tid))
          else if user \<noteq> None \<and> Some (qs_user (th_values th)) \<noteq> user then (cv, Inl (Thread_not_found tid))
          else (case th_interrupt th of
             None \<Rightarrow>
               (case th_next th of
                  Some n \<Rightarrow>
                    if retries_failed_resume th v then invoke_thread cf svs fresh tid None n (th_values th) cv
                    else (cv, Inl (Resume_conflict tid ''clarification_resume_conflict''))
                | None \<Rightarrow> (cv, Inl (Resume_conflict tid ''clarification_resume_conflict'')))
           | Some (i, p) \<Rightarrow>
               if rv_interrupt v \<noteq> i then (cv, Inl (Resume_conflict tid ''stale_interrupt''))
               else (case validate_resume v of
                  Inl e \<Rightarrow> (cv, Inl e)
                | Inr v' \<Rightarrow> invoke_thread cf svs fresh tid (Some v') Q_await (th_values th) cv)))"

end
