(* ===== verification/RequirementAnchors.thy ===== *)
theory RequirementAnchors
  imports RequirementFacts
begin

text \<open>
  The anchors of a requirement: every intent of a search plan stands for roles whose places have the
  same key, every role asked for has an intent, and results without issues resolve every role. A
  resolution is fresh for a draft if the draft still names the place that was searched for.
\<close>

definition names_place :: "requirement_draft \<Rightarrow> string \<Rightarrow> string \<Rightarrow> bool" where
  "names_place d role name \<longleftrightarrow> map_of (anchor_candidates d) role = Some (Some name)"

lemma candidate_keys: "distinct (map fst (anchor_candidates d))"
  by (simp add: anchor_candidates_def)

lemma required_iff: "role \<in> set (required_anchor_roles d) \<longleftrightarrow> (\<exists>name. names_place d role name)"
  using candidate_keys [of d]
  by (auto simp: required_anchor_roles_def names_place_def image_iff)

section \<open>Search plans\<close>

definition intents_ok :: "requirement_draft \<Rightarrow> string list \<Rightarrow> (string \<times> anchor_intent) list \<Rightarrow> bool" where
  "intents_ok d roles intents \<longleftrightarrow> distinct (map fst intents) \<and>
     (\<forall>(key, i) \<in> set intents. key = anchor_key (q_keyword (ai_query i)) \<and>
        (\<forall>role \<in> set (ai_roles i). role \<in> set roles \<and> (\<exists>name. names_place d role name \<and> anchor_key name = key)))"

definition covered :: "string \<Rightarrow> (string \<times> anchor_intent) list \<Rightarrow> bool" where
  "covered role intents \<longleftrightarrow> (\<exists>(key, i) \<in> set intents. role \<in> set (ai_roles i))"

lemma set_update_distinct:
  "distinct (map fst kvs) \<Longrightarrow> set (AList.update k v kvs) = insert (k, v) {(j, x) \<in> set kvs. j \<noteq> k}"
  by (induction kvs) (auto simp: rev_image_eqI)

lemma add_intent_ok:
  assumes "intents_ok d roles intents" and "role \<in> set roles" and "names_place d role name"
  shows "intents_ok d roles (add_intent city role name intents)" and "covered role (add_intent city role name intents)"
    and "covered r intents \<Longrightarrow> covered r (add_intent city role name intents)"
proof -
  have dist: "distinct (map fst intents)" using assms(1) by (simp add: intents_ok_def)
  show "intents_ok d roles (add_intent city role name intents)"
  proof (cases "map_of intents (anchor_key name)")
    case None
    then have "anchor_key name \<notin> fst ` set intents" by (simp add: map_of_eq_None_iff)
    then show ?thesis using assms None by (auto simp: add_intent_def intents_ok_def)
  next
    case (Some i)
    then have "(anchor_key name, i) \<in> set intents" by (rule map_of_SomeD)
    then show ?thesis using assms Some dist
      by (fastforce simp: add_intent_def intents_ok_def distinct_update set_update_distinct)
  qed
  show "covered role (add_intent city role name intents)"
    by (auto simp: add_intent_def covered_def set_update_distinct [OF dist] split: option.split)
  show "covered r (add_intent city role name intents)" if cov: "covered r intents"
  proof (cases "map_of intents (anchor_key name)")
    case None
    then show ?thesis using cov by (auto simp: add_intent_def covered_def)
  next
    case (Some i)
    obtain key j where kj: "(key, j) \<in> set intents" "r \<in> set (ai_roles j)" using cov by (auto simp: covered_def)
    show ?thesis
    proof (cases "key = anchor_key name")
      case True
      then have "j = i" using kj(1) Some dist by simp
      then show ?thesis using kj Some by (auto simp: add_intent_def covered_def set_update_distinct [OF dist])
    next
      case False
      then show ?thesis using kj Some by (auto simp: add_intent_def covered_def set_update_distinct [OF dist])
    qed
  qed
qed

lemma collect_intents_ok:
  assumes "intents_ok d roles intents" and "\<And>role name. (role, Some name) \<in> set cs \<Longrightarrow> names_place d role name"
  shows "intents_ok d roles (collect_intents city roles cs intents) \<and>
     (\<forall>r. covered r intents \<or> (r \<in> set roles \<and> (\<exists>name. (r, Some name) \<in> set cs)) \<longrightarrow> covered r (collect_intents city roles cs intents))"
  using assms
proof (induction cs arbitrary: intents)
  case (Cons c cs)
  obtain role name where c: "c = (role, name)" by force
  show ?case
  proof (cases "\<exists>s. name = Some s \<and> role \<in> set roles")
    case True
    then obtain s where s: "name = Some s" "role \<in> set roles" by blast
    then have "names_place d role s" using Cons.prems(2) c by simp
    note added = add_intent_ok [OF Cons.prems(1) s(2) this, where city = city]
    have "intents_ok d roles (collect_intents city roles cs (add_intent city role s intents)) \<and>
       (\<forall>r. covered r (add_intent city role s intents) \<or> (r \<in> set roles \<and> (\<exists>name. (r, Some name) \<in> set cs))
          \<longrightarrow> covered r (collect_intents city roles cs (add_intent city role s intents)))"
      using Cons.prems(2) by (intro Cons.IH added(1)) auto
    then show ?thesis using added(2,3) by (auto simp: c s)
  next
    case False
    then have same: "collect_intents city roles (c # cs) intents = collect_intents city roles cs intents"
      by (auto simp: c split: option.splits)
    have "intents_ok d roles (collect_intents city roles cs intents) \<and>
       (\<forall>r. covered r intents \<or> (r \<in> set roles \<and> (\<exists>name. (r, Some name) \<in> set cs)) \<longrightarrow> covered r (collect_intents city roles cs intents))"
      using Cons.prems by (intro Cons.IH) auto
    then show ?thesis unfolding same using False by (auto simp: c simp del: collect_intents.simps)
  qed
qed simp

lemma plan_facts:
  assumes "build_anchor_search_plan d roles = Inr plan"
  shows "\<forall>i \<in> set plan. \<forall>role \<in> set (ai_roles i). role \<in> set roles \<and> (\<exists>name. names_place d role name \<and> anchor_key name = anchor_key (q_keyword (ai_query i)))"
    and "\<forall>role \<in> set roles. (\<exists>name. names_place d role name) \<longrightarrow> (\<exists>i \<in> set plan. role \<in> set (ai_roles i))"
proof -
  obtain city where plan: "plan = map snd (collect_intents city roles (anchor_candidates d) [])"
    using assms by (auto simp: build_anchor_search_plan_def split: option.splits if_splits)
  have "intents_ok d roles (collect_intents city roles (anchor_candidates d) []) \<and>
     (\<forall>r. covered r [] \<or> (r \<in> set roles \<and> (\<exists>name. (r, Some name) \<in> set (anchor_candidates d)))
        \<longrightarrow> covered r (collect_intents city roles (anchor_candidates d) []))"
    by (rule collect_intents_ok) (simp_all add: intents_ok_def names_place_def candidate_keys)
  then have ok: "intents_ok d roles (collect_intents city roles (anchor_candidates d) [])"
    and cov: "\<And>r name. r \<in> set roles \<Longrightarrow> (r, Some name) \<in> set (anchor_candidates d) \<Longrightarrow> covered r (collect_intents city roles (anchor_candidates d) [])"
    by blast+
  show "\<forall>i \<in> set plan. \<forall>role \<in> set (ai_roles i). role \<in> set roles \<and> (\<exists>name. names_place d role name \<and> anchor_key name = anchor_key (q_keyword (ai_query i)))"
    using ok by (auto simp: plan intents_ok_def)
  have "\<exists>i \<in> set plan. role \<in> set (ai_roles i)" if "role \<in> set roles" "names_place d role name" for role name
    using cov [OF that(1)] map_of_SomeD [OF that(2) [unfolded names_place_def]] by (force simp: plan covered_def)
  then show "\<forall>role \<in> set roles. (\<exists>name. names_place d role name) \<longrightarrow> (\<exists>i \<in> set plan. role \<in> set (ai_roles i))" by blast
qed

section \<open>Results\<close>

definition resolved_by :: "anchor_intent list \<Rightarrow> (string \<times> anchor_resolution) list \<Rightarrow> bool" where
  "resolved_by plan rs \<longleftrightarrow> distinct (map fst rs) \<and>
     (\<forall>(role, r) \<in> set rs. ar_role r = role \<and> (\<exists>i \<in> set plan. role \<in> set (ai_roles i) \<and> ar_query_name r = q_keyword (ai_query i)))"

lemma resolved_update:
  assumes "resolved_by plan rs" and "i \<in> set plan" and "role \<in> set (ai_roles i)"
  shows "resolved_by plan (AList.update role (resolution_of role (q_keyword (ai_query i)) f) rs)"
  using assms by (auto simp: resolved_by_def distinct_update set_update_distinct resolution_of_def)

lemma resolved_roles:
  assumes "resolved_by plan rs" and "i \<in> set plan" and "set roles \<subseteq> set (ai_roles i)"
  shows "resolved_by plan (foldl (\<lambda>m role. AList.update role (resolution_of role (q_keyword (ai_query i)) f) m) rs roles) \<and>
     fst ` set (foldl (\<lambda>m role. AList.update role (resolution_of role (q_keyword (ai_query i)) f) m) rs roles) = fst ` set rs \<union> set roles"
  using assms
proof (induction roles arbitrary: rs)
  case (Cons role roles)
  have "resolved_by plan (AList.update role (resolution_of role (q_keyword (ai_query i)) f) rs)"
    using Cons.prems by (intro resolved_update) auto
  from Cons.IH [OF this Cons.prems(2)] Cons.prems(3) show ?case by (auto simp: dom_update)
qed auto

lemma results_resolve:
  assumes "fold_res resolve_result irs (rs, issues) = Inr (rs', issues')" and "resolved_by plan rs"
    and "fst ` set irs \<subseteq> set plan"
  shows "resolved_by plan rs' \<and> fst ` set rs \<subseteq> fst ` set rs' \<and> (\<exists>more. issues' = issues @ more \<and>
     (more = [] \<longrightarrow> (\<forall>(i, r) \<in> set irs. set (ai_roles i) \<subseteq> fst ` set rs')) \<and> (\<forall>x \<in> set more. ri_blocking x))"
  using assms
proof (induction irs arbitrary: rs issues)
  case (Cons ir irs)
  obtain i r where ir: "ir = (i, r)" by force
  obtain rs1 issues1 where one: "resolve_result ir (rs, issues) = Inr (rs1, issues1)"
    and rest: "fold_res resolve_result irs (rs1, issues1) = Inr (rs', issues')"
    using Cons.prems(1) by auto
  obtain fs where step: "resolve_intent i fs (rs, issues) = (rs1, issues1)"
    using one by (auto simp: resolve_result_def ir split: option.splits if_splits)
  have i: "i \<in> set plan" using Cons.prems(3) ir by auto
  have st: "resolved_by plan rs1 \<and> fst ` set rs \<subseteq> fst ` set rs1 \<and> (\<exists>new. issues1 = issues @ new \<and>
      (new = [] \<longrightarrow> set (ai_roles i) \<subseteq> fst ` set rs1) \<and> (\<forall>x \<in> set new. ri_blocking x))"
  proof (cases "\<exists>f. matching_facts (q_keyword (ai_query i)) fs = [f]")
    case True
    then obtain f where "matching_facts (q_keyword (ai_query i)) fs = [f]" by blast
    then have "rs1 = foldl (\<lambda>m role. AList.update role (resolution_of role (q_keyword (ai_query i)) f) m) rs (ai_roles i)" "issues1 = issues"
      using step by (simp_all add: resolve_intent_def Let_def)
    then show ?thesis using resolved_roles [OF Cons.prems(2) i, of "ai_roles i" f] by auto
  next
    case False
    then have "rs1 = rs \<and> (\<exists>c. issues1 = issues @ map (\<lambda>role. anchor_issue role (q_keyword (ai_query i)) c) (ai_roles i))"
      using step by (auto simp: resolve_intent_def Let_def split: list.splits)
    then show ?thesis using Cons.prems(2) by (auto simp: anchor_issue_def mk_issue_def)
  qed
  then obtain new where new: "issues1 = issues @ new" "new = [] \<longrightarrow> set (ai_roles i) \<subseteq> fst ` set rs1" "\<forall>x \<in> set new. ri_blocking x" by blast
  have "fst ` set irs \<subseteq> set plan" using Cons.prems(3) by auto
  from Cons.IH [OF rest _ this] st obtain more where more: "resolved_by plan rs'" "fst ` set rs1 \<subseteq> fst ` set rs'" "issues' = issues1 @ more"
    "more = [] \<longrightarrow> (\<forall>(i, r) \<in> set irs. set (ai_roles i) \<subseteq> fst ` set rs')" "\<forall>x \<in> set more. ri_blocking x" by blast
  have "fst ` set rs \<subseteq> fst ` set rs'" using st more(2) by blast
  moreover have "set (ai_roles i) \<subseteq> fst ` set rs'" if "new = []" using new(2) more(2) that by blast
  ultimately show ?case
    using more new by (intro conjI exI [of _ "new @ more"]) (auto simp: ir)
qed auto

lemma evaluated_anchors:
  assumes "resolve_anchor_search_results plan results = Inr (new, issues)"
  shows "resolved_by plan new" and "\<forall>x \<in> set issues. ri_blocking x"
    and "issues = [] \<Longrightarrow> i \<in> set plan \<Longrightarrow> role \<in> set (ai_roles i) \<Longrightarrow> role \<in> fst ` set new"
proof -
  have len: "length plan = length results" and fold: "fold_res resolve_result (zip plan results) ([], []) = Inr (new, issues)"
    using assms by (auto simp: resolve_anchor_search_results_def split: if_splits)
  have "fst ` set (zip plan results) = set plan" using len by (metis map_fst_zip set_map)
  then have facts: "resolved_by plan new \<and> (issues = [] \<longrightarrow> (\<forall>(i, r) \<in> set (zip plan results). set (ai_roles i) \<subseteq> fst ` set new)) \<and>
      (\<forall>x \<in> set issues. ri_blocking x)"
    using results_resolve [OF fold, of plan] by (simp add: resolved_by_def)
  then show "resolved_by plan new" and "\<forall>x \<in> set issues. ri_blocking x" by auto
  show "role \<in> fst ` set new" if none: "issues = []" and i: "i \<in> set plan" and role: "role \<in> set (ai_roles i)"
  proof -
    obtain r where "(i, r) \<in> set (zip plan results)"
      using i \<open>fst ` set (zip plan results) = set plan\<close> by (metis (no_types, lifting) imageE prod.collapse)
    then show ?thesis using facts none role by auto
  qed
qed

section \<open>Fresh resolutions\<close>

definition fresh_anchors :: "requirement_draft \<Rightarrow> (string \<times> anchor_resolution) list \<Rightarrow> bool" where
  "fresh_anchors d rs \<longleftrightarrow> distinct (map fst rs) \<and>
     (\<forall>(role, r) \<in> set rs. ar_role r = role \<and> (\<exists>name. names_place d role name \<and> anchor_key name = anchor_key (ar_query_name r)))"

lemma fresh_merge:
  assumes "fresh_anchors d rs" and "\<forall>(role, r) \<in> set new. ar_role r = role \<and> (\<exists>name. names_place d role name \<and> anchor_key name = anchor_key (ar_query_name r))"
  shows "fresh_anchors d (foldl (\<lambda>m (role, r). AList.update role r m) rs new) \<and>
    fst ` set (foldl (\<lambda>m (role, r). AList.update role r m) rs new) = fst ` set rs \<union> fst ` set new"
  using assms
proof (induction new arbitrary: rs)
  case (Cons x new)
  obtain role r where x: "x = (role, r)" by force
  have dist: "distinct (map fst rs)" using Cons.prems(1) by (simp add: fresh_anchors_def)
  have "fresh_anchors d (AList.update role r rs)"
    using Cons.prems dist by (auto simp: x fresh_anchors_def distinct_update set_update_distinct)
  from Cons.IH [OF this] Cons.prems(2) show ?case by (auto simp: x dom_update)
qed simp

text \<open>The fields that name the places, and that they decide the candidates.\<close>

definition place_field :: "string \<Rightarrow> draft_field" where
  "place_field role = (if role = ''arrival'' then Df_arrival_name else if role = ''departure'' then Df_departure_name else Df_accommodation)"

lemma candidates_by_fields:
  assumes "value_at d' (place_field role) = value_at d (place_field role)"
  shows "map_of (anchor_candidates d') role = map_of (anchor_candidates d) role"
proof -
  have inj: "map_option F_text x = map_option F_text y \<longleftrightarrow> x = y" for x y by (cases x; cases y) auto
  have name: "anchor_name a = (if Option.bind a an_name = Some [] then None else Option.bind a an_name)" for a
    by (cases a) (auto simp: anchor_name_def)
  consider "role = ''arrival''" | "role = ''departure''" | "role = ''accommodation''"
    | "role \<notin> {''arrival'', ''departure'', ''accommodation''}" by blast
  then show ?thesis using assms by cases (simp_all add: place_field_def anchor_candidates_def name inj)
qed

lemma invalidated_iff:
  assumes "role \<in> {''arrival'', ''departure'', ''accommodation''}"
  shows "role \<in> set (invalidated_anchor_roles changed) \<longleftrightarrow> Df_destination \<in> set changed \<or> place_field role \<in> set changed"
proof -
  have roles: "r \<in> set (role_of_field f) \<longleftrightarrow> f \<in> {Df_arrival_name, Df_departure_name, Df_accommodation} \<and>
      r = (if f = Df_arrival_name then ''arrival'' else if f = Df_departure_name then ''departure'' else ''accommodation'')" for r f
    by (cases f) auto
  show ?thesis using assms by (auto simp: invalidated_anchor_roles_def roles place_field_def)
qed

lemma fresh_after_patch:
  assumes "fresh_anchors d rs" and "draft_ok d" and "patch_ok p" and "merge_requirement_patch d p allowed = Inr (d', changed, rejected)"
  shows "fresh_anchors d' (filter (\<lambda>(role, r). role \<notin> set (invalidated_anchor_roles changed)) rs)"
proof -
  have same: "\<forall>f. value_at d' f = (if f \<in> set changed then map_of (non_null_patch_values p) f else value_at d f)"
    using merge_patch_effect [OF assms(2-4)] by blast
  have "names_place d' role name" if "names_place d role name" "role \<notin> set (invalidated_anchor_roles changed)" for role name
  proof -
    have "role \<in> {''arrival'', ''departure'', ''accommodation''}"
      using map_of_SomeD [OF that(1) [unfolded names_place_def]] by (auto simp: anchor_candidates_def)
    then have "place_field role \<notin> set changed" using that(2) invalidated_iff by blast
    then have "map_of (anchor_candidates d') role = map_of (anchor_candidates d) role"
      using same by (intro candidates_by_fields) simp
    then show ?thesis using that(1) by (simp add: names_place_def)
  qed
  then show ?thesis using assms(1) by (fastforce simp: fresh_anchors_def distinct_map_filter)
qed

end
