(* ===== verification/MemoryFacts.thy ===== *)
theory MemoryFacts
  imports MemoryContext
begin

text \<open>
  The calls of the preference service as a step relation, and what holds of every run of it:
  an owner's data is untouched by the calls of others (through the locale \<open>isolated_steps\<close>),
  and stored values are typed by their category, so that applying a context cannot fail.
\<close>

section \<open>Calls of the service\<close>

inductive memory_step :: "memory_env \<Rightarrow> owner \<Rightarrow> memory_service \<Rightarrow> memory_service \<Rightarrow> bool" for env own where
  list_step: "list_preferences own all now sv = (sv', ms, x) \<Longrightarrow> memory_step env own sv sv'"
| create_step: "create_explicit env own r run mid now sv = Inr (sv', m) \<Longrightarrow> memory_step env own sv sv'"
| update_step: "update_preference env own mid value expires expected now sv = Inr (sv', m) \<Longrightarrow> memory_step env own sv sv'"
| revoke_step: "revoke_preference own mid expected now sv = Inr (sv', m) \<Longrightarrow> memory_step env own sv sv'"
| delete_step: "delete_preference own mid sv = Inr sv' \<Longrightarrow> memory_step env own sv sv'"
| clear_step: "clear_preferences own sv = (sv', n) \<Longrightarrow> memory_step env own sv sv'"
| propose_step: "propose env own q pid now sv = Inr (sv', p) \<Longrightarrow> memory_step env own sv sv'"
| confirm_step: "confirm_proposal own pid request mid now sv = (sv', res) \<Longrightarrow> memory_step env own sv sv'"
| reject_step: "reject_proposal own pid request now sv = Inr (sv', p) \<Longrightarrow> memory_step env own sv sv'"
| settings_step: "update_personalization own enabled expected now sv = (sv', out) \<Longrightarrow> memory_step env own sv sv'"
| context_step: "context_for_trip cenv co own trip draft role now sv = (sv', cx) \<Longrightarrow> memory_step env own sv sv'"

section \<open>Isolation\<close>

inductive steps_of_others :: "('o \<Rightarrow> 's \<Rightarrow> 's \<Rightarrow> bool) \<Rightarrow> 'o \<Rightarrow> 's \<Rightarrow> 's \<Rightarrow> bool" for step me where
  nobody: "steps_of_others step me s s"
| somebody: "steps_of_others step me s s' \<Longrightarrow> step other s' s'' \<Longrightarrow> other \<noteq> me \<Longrightarrow> steps_of_others step me s s''"

locale isolated_steps =
  fixes step :: "'o \<Rightarrow> 's \<Rightarrow> 's \<Rightarrow> bool" and view :: "'o \<Rightarrow> 's \<Rightarrow> 'v" and inv :: "'s \<Rightarrow> bool"
  assumes preserved: "step o1 s s' \<Longrightarrow> inv s \<Longrightarrow> inv s'"
    and frame: "step o1 s s' \<Longrightarrow> inv s \<Longrightarrow> o1 \<noteq> o2 \<Longrightarrow> view o2 s' = view o2 s"
begin

lemma inv_kept: "steps_of_others step me s s' \<Longrightarrow> inv s \<Longrightarrow> inv s'"
  by (induction rule: steps_of_others.induct) (auto dest: preserved)

lemma view_kept: "steps_of_others step me s s' \<Longrightarrow> inv s \<Longrightarrow> view me s' = view me s"
  by (induction rule: steps_of_others.induct) (auto dest: frame inv_kept)

end

section \<open>What the store holds\<close>

text \<open>The values a category admits, after normalisation.\<close>

definition typed_value :: "memory_category \<Rightarrow> pref_value \<Rightarrow> bool" where
  "typed_value c v =
     (if list_category c then (case v of P_list xs \<Rightarrow> xs \<noteq> [] \<and> list_all (\<lambda>x. case x of P_str _ \<Rightarrow> True | _ \<Rightarrow> False) xs | _ \<Rightarrow> False)
      else if c = M_pace then v \<in> (\<lambda>s. P_scalar (P_str s)) ` {''relaxed'', ''balanced'', ''intensive''}
      else if c = M_walking_tolerance then (case v of P_scalar (P_int n) \<Rightarrow> 0 \<le> n \<and> n \<le> 50000 | _ \<Rightarrow> False)
      else if c = M_budget_style then v \<in> (\<lambda>s. P_scalar (P_str s)) ` {''economy'', ''balanced'', ''comfort''}
      else (case v of P_dict kvs \<Rightarrow> set (map fst kvs) \<subseteq> {''earliest_start'', ''latest_end'', ''avoid_early_start''} | _ \<Rightarrow> False))"

definition memory_ok :: "memory_env \<Rightarrow> string \<times> preference_memory \<Rightarrow> bool" where
  "memory_ok env km \<longleftrightarrow> (case km of (k, m) \<Rightarrow> pm_id m = k \<and> typed_value (pm_category m) (pm_value m) \<and>
     scope_errors (pm_scope m) (pm_scope_key m) = [] \<and> pm_source m = Explicit_user \<and> pm_confirmation m = Conf_confirmed \<and>
     pm_hash m = me_hash env (pm_category m) (pm_value m) (pm_scope m) (pm_scope_key m))"

definition proposal_ok :: "memory_env \<Rightarrow> string \<times> memory_proposal \<Rightarrow> bool" where
  "proposal_ok env kp \<longleftrightarrow> (case kp of (k, p) \<Rightarrow> mp_id p = k \<and> typed_value (mp_category p) (mp_value p) \<and>
     scope_errors (mp_scope p) (mp_scope_key p) = [] \<and>
     mp_hash p = me_hash env (mp_category p) (mp_value p) (mp_scope p) (mp_scope_key p))"

definition store_ok :: "memory_env \<Rightarrow> preference_store \<Rightarrow> bool" where
  "store_ok env s \<longleftrightarrow> distinct (map fst (st_memories s)) \<and> distinct (map fst (st_proposals s)) \<and>
     (\<forall>km \<in> set (st_memories s). memory_ok env km) \<and> (\<forall>kp \<in> set (st_proposals s). proposal_ok env kp)"

definition decision_owner :: "decision \<Rightarrow> owner" where
  "decision_owner d = (case d of Decided_memory m \<Rightarrow> memory_owner m | Decided_proposal p \<Rightarrow> proposal_owner p)"

definition service_ok :: "memory_env \<Rightarrow> memory_service \<Rightarrow> bool" where
  "service_ok env sv \<longleftrightarrow> store_ok env (sv_store sv) \<and> (\<forall>(key, d) \<in> set (sv_decisions sv). decision_owner d = fst key)"

text \<open>What belongs to an owner: entries of the store and remembered decisions.\<close>

definition owned_entries :: "('v \<Rightarrow> owner) \<Rightarrow> owner \<Rightarrow> (string \<times> 'v) list \<Rightarrow> (string \<times> 'v) list" where
  "owned_entries f own kvs = filter (\<lambda>(k, x). f x = own) kvs"

definition store_view ::
  "owner \<Rightarrow> preference_store \<Rightarrow> (string \<times> preference_memory) list \<times> (string \<times> memory_proposal) list \<times> personalization option" where
  "store_view own s = (owned_entries memory_owner own (st_memories s), owned_entries proposal_owner own (st_proposals s),
     map_of (st_settings s) own)"

definition owner_view where
  "owner_view own sv = (store_view own (sv_store sv), \<lambda>pid request. map_of (sv_decisions sv) (own, pid, request))"

lemma owned_update:
  "(\<And>y. map_of kvs k = Some y \<Longrightarrow> f y \<noteq> own) \<Longrightarrow> f x \<noteq> own \<Longrightarrow>
     owned_entries f own (AList.update k x kvs) = owned_entries f own kvs"
  by (induction kvs) (auto simp: owned_entries_def split: if_splits)

lemma owned_clear: "own \<noteq> o1 \<Longrightarrow> owned_entries f own (filter (\<lambda>(k, x). f x \<noteq> o1) kvs) = owned_entries f own kvs"
  by (induction kvs) (auto simp: owned_entries_def)

lemma owned_delete:
  assumes "map_of kvs k = Some x" and "f x \<noteq> own" and "distinct (map fst kvs)"
  shows "owned_entries f own (filter (\<lambda>(j, y). j \<noteq> k) kvs) = owned_entries f own kvs"
proof -
  have "\<And>j y. (j, y) \<in> set kvs \<Longrightarrow> f y = own \<Longrightarrow> j \<noteq> k"
    using assms by (metis map_of_is_SomeI option.inject)
  then show ?thesis by (auto simp: owned_entries_def intro!: filter_cong)
qed

lemma set_update_sub: "set (AList.update k x kvs) \<subseteq> insert (k, x) (set kvs)"
  by (induction kvs) auto

lemma ball_update: "(\<forall>y \<in> set kvs. P y) \<Longrightarrow> P (k, x) \<Longrightarrow> \<forall>y \<in> set (AList.update k x kvs). P y"
  using set_update_sub [of k x kvs] by blast

section \<open>Operations of the repository\<close>

definition repo_step :: "memory_env \<Rightarrow> owner \<Rightarrow> preference_store \<Rightarrow> preference_store \<Rightarrow> bool" where
  "repo_step env o1 s s' \<longleftrightarrow> (store_ok env s \<longrightarrow> store_ok env s' \<and> (\<forall>own. own \<noteq> o1 \<longrightarrow> store_view own s' = store_view own s))"

lemma repo_step_refl [simp]: "repo_step env o1 s s"
  by (simp add: repo_step_def)

lemma repo_step_trans: "repo_step env o1 s t \<Longrightarrow> repo_step env o1 t u \<Longrightarrow> repo_step env o1 s u"
  by (auto simp: repo_step_def)

lemma put_memory_step:
  assumes "memory_ok env (pm_id m, m)" and "\<And>y. map_of (st_memories s) (pm_id m) = Some y \<Longrightarrow> memory_owner y = memory_owner m"
  shows "repo_step env (memory_owner m) s (s\<lparr>st_memories := AList.update (pm_id m) m (st_memories s)\<rparr>)"
proof -
  have "owned_entries memory_owner own (AList.update (pm_id m) m (st_memories s)) = owned_entries memory_owner own (st_memories s)"
    if "own \<noteq> memory_owner m" for own
    using assms(2) that by (intro owned_update) metis+
  then show ?thesis
    using ball_update [of "st_memories s" "memory_ok env", OF _ assms(1)]
    by (simp add: repo_step_def store_ok_def store_view_def distinct_update)
qed

lemma put_proposal_step:
  assumes "proposal_ok env (mp_id p, p)" and "\<And>y. map_of (st_proposals s) (mp_id p) = Some y \<Longrightarrow> proposal_owner y = proposal_owner p"
  shows "repo_step env (proposal_owner p) s (s\<lparr>st_proposals := AList.update (mp_id p) p (st_proposals s)\<rparr>)"
proof -
  have "owned_entries proposal_owner own (AList.update (mp_id p) p (st_proposals s)) = owned_entries proposal_owner own (st_proposals s)"
    if "own \<noteq> proposal_owner p" for own
    using assms(2) that by (intro owned_update) metis+
  then show ?thesis
    using ball_update [of "st_proposals s" "proposal_ok env", OF _ assms(1)]
    by (simp add: repo_step_def store_ok_def store_view_def distinct_update)
qed

lemma create_memory_step: "create_memory m s = Inr s' \<Longrightarrow> memory_ok env (pm_id m, m) \<Longrightarrow> repo_step env (memory_owner m) s s'"
  using put_memory_step [of env m s] by (simp add: create_memory_def split: if_splits)

lemma save_memory_step: "save_memory m expected s = Inr s' \<Longrightarrow> memory_ok env (pm_id m, m) \<Longrightarrow> repo_step env (memory_owner m) s s'"
  using put_memory_step [of env m s] by (simp add: save_memory_def split: if_splits option.splits)

lemma create_proposal_step: "create_proposal p s = Inr s' \<Longrightarrow> proposal_ok env (mp_id p, p) \<Longrightarrow> repo_step env (proposal_owner p) s s'"
  using put_proposal_step [of env p s] by (simp add: create_proposal_def split: if_splits)

lemma save_proposal_step: "save_proposal p s = Inr s' \<Longrightarrow> proposal_ok env (mp_id p, p) \<Longrightarrow> repo_step env (proposal_owner p) s s'"
  using put_proposal_step [of env p s] by (simp add: save_proposal_def split: if_splits option.splits)

lemma get_memory_owner: "get_memory own mid s = Inr m \<Longrightarrow> memory_owner m = own \<and> (mid, m) \<in> set (st_memories s)"
  by (auto simp: get_memory_def map_of_SomeD split: option.splits if_splits)

lemma get_proposal_owner: "get_proposal own pid s = Inr p \<Longrightarrow> proposal_owner p = own \<and> (pid, p) \<in> set (st_proposals s)"
  by (auto simp: get_proposal_def map_of_SomeD split: option.splits if_splits)

lemma delete_memory_step:
  assumes "delete_memory own mid s = Inr s'"
  shows "repo_step env own s s'"
proof -
  from assms obtain m where m: "get_memory own mid s = Inr m"
    and s': "s' = s\<lparr>st_memories := filter (\<lambda>(k, x). k \<noteq> mid) (st_memories s)\<rparr>"
    by (auto simp: delete_memory_def)
  have look: "map_of (st_memories s) mid = Some m" using m by (simp add: get_memory_def split: option.splits if_splits)
  have keep: "owned_entries memory_owner o2 (filter (\<lambda>(k, x). k \<noteq> mid) (st_memories s)) = owned_entries memory_owner o2 (st_memories s)"
    if "distinct (map fst (st_memories s))" "o2 \<noteq> own" for o2
    using that get_memory_owner [OF m] by (intro owned_delete [OF look]) metis+
  show ?thesis by (auto simp: repo_step_def store_ok_def store_view_def s' distinct_map_filter keep simp del: split_paired_All)
qed

lemma clear_memories_step: "clear_memories own s = (s', n) \<Longrightarrow> repo_step env own s s'"
  by (auto simp: repo_step_def store_ok_def store_view_def clear_memories_def distinct_map_filter owned_clear simp del: split_paired_All)

lemma put_settings_step: "repo_step env own s (s\<lparr>st_settings := AList.update own x (st_settings s)\<rparr>)"
  by (simp add: repo_step_def store_ok_def store_view_def update_conv')

lemma get_personalization_step: "get_personalization own now s = (s', x) \<Longrightarrow> repo_step env own s s'"
  using put_settings_step [of env own s] by (auto simp: get_personalization_def Let_def split: option.splits)

lemma save_personalization_step: "save_personalization own x expected s = Inr s' \<Longrightarrow> repo_step env own s s'"
  using put_settings_step [of env own s] by (auto simp: save_personalization_def split: option.splits if_splits)

section \<open>Normalised values are typed\<close>

lemma normalized_value_typed:
  assumes "normalize_preference_value env c v = Inr w"
  shows "typed_value c w"
proof -
  have strs: "list_all (\<lambda>x. case x of P_str _ \<Rightarrow> True | _ \<Rightarrow> False) (map P_str ys)" for ys
    by (simp add: list_all_iff)
  show ?thesis
    using assms unfolding normalize_preference_value_def typed_value_def one_of_def
    by (cases c) (auto simp: list_category_def strs split: if_splits pref_value.splits pref_scalar.splits option.splits)
qed

section \<open>Calls of the service keep to their owner\<close>

definition service_step :: "memory_env \<Rightarrow> owner \<Rightarrow> memory_service \<Rightarrow> memory_service \<Rightarrow> bool" where
  "service_step env o1 sv sv' \<longleftrightarrow> service_ok env sv' \<and> (\<forall>own. own \<noteq> o1 \<longrightarrow> owner_view own sv' = owner_view own sv)"

lemma service_step_refl: "service_ok env sv \<Longrightarrow> service_step env o1 sv sv"
  by (simp add: service_step_def)

lemma store_step: "service_ok env sv \<Longrightarrow> repo_step env o1 (sv_store sv) s \<Longrightarrow> service_step env o1 sv (sv\<lparr>sv_store := s\<rparr>)"
  by (simp add: service_step_def service_ok_def repo_step_def owner_view_def)

lemma decide_step:
  assumes "service_step env o1 sv sv'" and "decision_owner d = o1"
  shows "service_step env o1 sv (decide (o1, pid, request) d sv')"
proof -
  have old: "\<forall>x \<in> set (sv_decisions sv'). case x of (key, d) \<Rightarrow> decision_owner d = fst key"
    using assms(1) by (simp add: service_step_def service_ok_def)
  have "\<forall>x \<in> set (AList.update (o1, pid, request) d (sv_decisions sv')). case x of (key, d) \<Rightarrow> decision_owner d = fst key"
    by (rule ball_update [OF old]) (simp add: assms(2))
  then show ?thesis
    using assms(1) by (simp add: service_step_def service_ok_def decide_def owner_view_def update_conv' fun_eq_iff del: split_paired_All)
qed

lemma stored_ok:
  "service_ok env sv \<Longrightarrow> get_memory own mid (sv_store sv) = Inr m \<Longrightarrow> memory_ok env (mid, m)"
  "service_ok env sv \<Longrightarrow> get_proposal own pid (sv_store sv) = Inr p \<Longrightarrow> proposal_ok env (pid, p)"
  using get_memory_owner get_proposal_owner by (auto simp: service_ok_def store_ok_def)

lemma found_owner: "find_content_hash own h s = Some m \<Longrightarrow> memory_owner m = own"
  by (auto simp: find_content_hash_def find_Some_iff)

lemma explicit_ok:
  assumes "validate_memory (explicit_memory own mid now c v sc key run e h) = Inr m"
    and "typed_value c v" and "h = me_hash env c v sc key"
  shows "memory_ok env (pm_id m, m) \<and> memory_owner m = own"
  using assms by (auto simp: validate_memory_def memory_ok_def explicit_memory_def split: if_splits)

lemma list_call: "service_ok env sv \<Longrightarrow> list_preferences own all now sv = (sv', ms, x) \<Longrightarrow> service_step env own sv sv'"
  by (auto simp: list_preferences_def split: prod.splits intro: store_step get_personalization_step)

lemma create_call:
  assumes "service_ok env sv" and "create_explicit env own r run mid now sv = Inr (sv', m)"
  shows "service_step env own sv sv' \<and> memory_owner m = own"
proof -
  obtain v where v: "normalize_preference_value env (pq_category r) (pq_value r) = Inr v"
    using assms(2) by (auto simp: create_explicit_def)
  let ?h = "me_hash env (pq_category r) v (pq_scope r) (pq_scope_key r)"
  show ?thesis
  proof (cases "find_content_hash own ?h (sv_store sv)")
    case (Some m0)
    then show ?thesis using assms v found_owner [OF Some] service_step_refl
      by (simp add: create_explicit_def Let_def)
  next
    case None
    then obtain s where val: "validate_memory (explicit_memory own mid now (pq_category r) v (pq_scope r) (pq_scope_key r) run
          (pq_expires_at r) ?h) = Inr m"
      and s: "create_memory m (sv_store sv) = Inr s" "sv' = sv\<lparr>sv_store := s\<rparr>"
      using assms(2) v by (auto simp: create_explicit_def Let_def with_store_def)
    have ok: "memory_ok env (pm_id m, m) \<and> memory_owner m = own"
      using explicit_ok [OF val normalized_value_typed [OF v]] by simp
    show ?thesis using store_step [OF assms(1) create_memory_step [OF s(1)]] ok s(2) by auto
  qed
qed

lemma update_call:
  assumes "service_ok env sv" and "update_preference env own mid value expires expected now sv = Inr (sv', m)"
  shows "service_step env own sv sv' \<and> memory_owner m = own"
proof -
  obtain current v s where c: "get_memory own mid (sv_store sv) = Inr current"
    and v: "(case value of None \<Rightarrow> Inr (pm_value current) | Some v \<Rightarrow> normalize_preference_value env (pm_category current) v) = Inr v"
    and m: "m = current\<lparr>pm_value := v, pm_expires_at := expires, pm_revision := pm_revision current + 1, pm_updated_at := now,
                 pm_hash := me_hash env (pm_category current) v (pm_scope current) (pm_scope_key current)\<rparr>"
    and s: "save_memory m expected (sv_store sv) = Inr s" "sv' = sv\<lparr>sv_store := s\<rparr>"
    using assms(2) unfolding update_preference_def with_store_def Let_def bind_res_eq_Inr by blast
  have ok: "memory_ok env (mid, current)" by (rule stored_ok(1) [OF assms(1) c])
  have "typed_value (pm_category current) v"
    using v ok normalized_value_typed by (auto simp: memory_ok_def split: option.splits)
  then have "memory_ok env (pm_id m, m)" using ok by (simp add: memory_ok_def m)
  moreover have "memory_owner m = own" using get_memory_owner [OF c] by (simp add: m)
  ultimately show ?thesis using store_step [OF assms(1) save_memory_step [OF s(1)]] s(2) by auto
qed

lemma revoke_call:
  assumes "service_ok env sv" and "revoke_preference own mid expected now sv = Inr (sv', m)"
  shows "service_step env own sv sv' \<and> memory_owner m = own"
proof -
  obtain current s where c: "get_memory own mid (sv_store sv) = Inr current"
    and m: "m = current\<lparr>pm_revoked_at := Some now, pm_updated_at := now, pm_revision := pm_revision current + 1\<rparr>"
    and s: "save_memory m expected (sv_store sv) = Inr s" "sv' = sv\<lparr>sv_store := s\<rparr>"
    using assms(2) unfolding revoke_preference_def with_store_def Let_def bind_res_eq_Inr by blast
  have "memory_ok env (pm_id m, m)" using stored_ok(1) [OF assms(1) c] by (simp add: memory_ok_def m)
  moreover have "memory_owner m = own" using get_memory_owner [OF c] by (simp add: m)
  ultimately show ?thesis using store_step [OF assms(1) save_memory_step [OF s(1)]] s(2) by auto
qed

lemma delete_call: "service_ok env sv \<Longrightarrow> delete_preference own mid sv = Inr sv' \<Longrightarrow> service_step env own sv sv'"
  by (auto simp: delete_preference_def with_store_def intro: store_step delete_memory_step)

lemma clear_call: "service_ok env sv \<Longrightarrow> clear_preferences own sv = (sv', n) \<Longrightarrow> service_step env own sv sv'"
  by (auto simp: clear_preferences_def split: prod.splits intro: store_step clear_memories_step)

lemma propose_call:
  assumes "service_ok env sv" and "propose env own q pid now sv = Inr (sv', p)"
  shows "service_step env own sv sv' \<and> proposal_owner p = own"
proof -
  obtain v s where v: "normalize_preference_value env (pq_category q) (pq_value q) = Inr v"
    and s: "create_proposal p (sv_store sv) = Inr s" "sv' = sv\<lparr>sv_store := s\<rparr>"
    and p: "proposal_ok env (mp_id p, p)" "proposal_owner p = own"
    using assms(2) normalized_value_typed
    by (fastforce simp: propose_def with_store_def validate_proposal_def proposal_ok_def split: if_splits)
  show ?thesis using store_step [OF assms(1) create_proposal_step [OF s(1) p(1)]] s(2) p(2) by auto
qed

lemma settings_call: "service_ok env sv \<Longrightarrow> update_personalization own enabled expected now sv = (sv', x) \<Longrightarrow> service_step env own sv sv'"
  by (auto simp: update_personalization_def Let_def split: prod.splits if_splits sum.splits
      intro!: store_step intro: repo_step_trans get_personalization_step save_personalization_step)

lemma context_call: "service_ok env sv \<Longrightarrow> context_for_trip cenv co own trip draft role now sv = (sv', cx) \<Longrightarrow> service_step env own sv sv'"
  by (auto simp: context_for_trip_def split: prod.splits intro: store_step get_personalization_step)

lemma memory_for_proposal_step:
  assumes "proposal_ok env (pid, p)" and "memory_for_proposal own p mid now s = Inr (s', m)"
  shows "repo_step env own s s' \<and> memory_owner m = own"
proof (cases "find_content_hash own (mp_hash p) s")
  case (Some m0)
  then show ?thesis using assms(2) found_owner [OF Some] by (simp add: memory_for_proposal_def)
next
  case None
  then have val: "validate_memory (explicit_memory own mid now (mp_category p) (mp_value p) (mp_scope p) (mp_scope_key p)
      (mp_source_run p) (mp_expires_at p) (mp_hash p)) = Inr m"
    and s: "create_memory m s = Inr s'"
    using assms(2) by (auto simp: memory_for_proposal_def)
  show ?thesis using explicit_ok [OF val] create_memory_step [OF s] assms(1) by (auto simp: proposal_ok_def)
qed

lemma remembered_owner: "service_ok env sv \<Longrightarrow> map_of (sv_decisions sv) (own, pid, request) = Some d \<Longrightarrow> decision_owner d = own"
  using map_of_SomeD by (fastforce simp: service_ok_def)

text \<open>A call that is not a replay of a remembered decision of the same kind.\<close>

lemma fresh_confirm:
  assumes ok: "service_ok env sv" and p: "get_proposal own pid (sv_store sv) = Inr p" and pend: "proposal_pending_at p now"
    and fresh: "\<And>m. map_of (sv_decisions sv) (own, pid, request) \<noteq> Some (Decided_memory m)"
    and call: "confirm_proposal own pid request mid now sv = (sv', res)"
  shows "service_step env own sv sv' \<and> (\<forall>m. res = Inr m \<longrightarrow> memory_owner m = own)"
proof (cases "memory_for_proposal own p mid now (sv_store sv)")
  case (Inl e)
  then show ?thesis using call p pend fresh ok
    by (auto simp: confirm_proposal_def Let_def service_step_refl split: option.splits decision.splits)
next
  case (Inr sm)
  obtain s m where sm: "sm = (s, m)" by force
  have pok: "proposal_ok env (pid, p)" by (rule stored_ok(2) [OF ok p])
  have mid: "repo_step env own (sv_store sv) s" "memory_owner m = own"
    using memory_for_proposal_step [OF pok Inr [unfolded sm]] by auto
  let ?p = "p\<lparr>mp_status := Prop_confirmed, mp_resolved_at := Some now, mp_memory_id := Some (pm_id m)\<rparr>"
  have saved: "repo_step env own s s'" if "save_proposal ?p s = Inr s'" for s'
    using save_proposal_step [OF that, of env] pok get_proposal_owner [OF p] by (auto simp: proposal_ok_def)
  have "confirm_proposal own pid request mid now sv =
      (case save_proposal ?p s of
         Inl e \<Rightarrow> (sv\<lparr>sv_store := s\<rparr>, Inl e)
       | Inr s' \<Rightarrow> (decide (own, pid, request) (Decided_memory m) (sv\<lparr>sv_store := s'\<rparr>), Inr m))"
    using p pend fresh by (auto simp: confirm_proposal_def Let_def Inr sm split: option.splits decision.splits)
  then show ?thesis
    using call mid store_step [OF ok mid(1)] store_step [OF ok repo_step_trans [OF mid(1) saved]]
    by (auto split: sum.splits intro!: decide_step simp: decision_owner_def)
qed

lemma confirm_call:
  assumes ok: "service_ok env sv" and call: "confirm_proposal own pid request mid now sv = (sv', res)"
  shows "service_step env own sv sv' \<and> (\<forall>m. res = Inr m \<longrightarrow> memory_owner m = own)"
proof -
  consider (replay) m where "map_of (sv_decisions sv) (own, pid, request) = Some (Decided_memory m)"
    | (missing) e where "get_proposal own pid (sv_store sv) = Inl e" "\<And>m. map_of (sv_decisions sv) (own, pid, request) \<noteq> Some (Decided_memory m)"
    | (closed) p where "get_proposal own pid (sv_store sv) = Inr p" "\<not> proposal_pending_at p now"
        "\<And>m. map_of (sv_decisions sv) (own, pid, request) \<noteq> Some (Decided_memory m)"
    | (pending) p where "get_proposal own pid (sv_store sv) = Inr p" "proposal_pending_at p now"
        "\<And>m. map_of (sv_decisions sv) (own, pid, request) \<noteq> Some (Decided_memory m)"
    by (metis sum.exhaust)
  then show ?thesis
  proof cases
    case replay
    then show ?thesis using call ok remembered_owner [OF ok replay]
      by (auto simp: confirm_proposal_def decision_owner_def service_step_refl)
  next
    case missing
    then show ?thesis using call ok
      by (auto simp: confirm_proposal_def Let_def service_step_refl split: option.splits decision.splits)
  next
    case closed
    have d: "service_step env own sv (decide (own, pid, request) (Decided_memory m) sv)"
      if "get_memory own mid' (sv_store sv) = Inr m" for mid' m
      using decide_step [OF service_step_refl [OF ok], of "Decided_memory m" own] get_memory_owner [OF that]
      by (simp add: decision_owner_def)
    have "confirm_proposal own pid request mid now sv =
       (case (mp_status p, mp_memory_id p) of
          (Prop_confirmed, Some m_id) \<Rightarrow>
            if m_id = [] then (sv, Inl (Memory_conflict ''proposal_not_pending''))
            else (case get_memory own m_id (sv_store sv) of
               Inl e \<Rightarrow> (sv, Inl e)
             | Inr m \<Rightarrow> (decide (own, pid, request) (Decided_memory m) sv, Inr m))
        | _ \<Rightarrow> (sv, Inl (Memory_conflict ''proposal_not_pending'')))"
      using closed by (auto simp: confirm_proposal_def Let_def split: option.splits decision.splits)
    then show ?thesis using call d get_memory_owner
      by (auto simp: service_step_refl [OF ok] split: proposal_status.splits option.splits if_splits sum.splits)
  next
    case pending
    then show ?thesis using fresh_confirm [OF ok _ _ _ call] by blast
  qed
qed

lemma reject_call:
  assumes ok: "service_ok env sv" and call: "reject_proposal own pid request now sv = Inr (sv', p)"
  shows "service_step env own sv sv' \<and> proposal_owner p = own"
proof (cases "\<exists>q. map_of (sv_decisions sv) (own, pid, request) = Some (Decided_proposal q)")
  case True
  then obtain q where q: "map_of (sv_decisions sv) (own, pid, request) = Some (Decided_proposal q)" by blast
  then show ?thesis using call remembered_owner [OF ok q] ok
    by (auto simp: reject_proposal_def decision_owner_def service_step_refl)
next
  case False
  then obtain q where q: "get_proposal own pid (sv_store sv) = Inr q"
    using call by (auto simp: reject_proposal_def Let_def split: option.splits decision.splits)
  note own = get_proposal_owner [OF q] and qok = stored_ok(2) [OF ok q]
  let ?q = "q\<lparr>mp_status := Prop_rejected, mp_resolved_at := Some now\<rparr>"
  have "(sv' = decide (own, pid, request) (Decided_proposal q) sv \<and> p = q) \<or>
      (\<exists>s. save_proposal ?q (sv_store sv) = Inr s \<and> sv' = decide (own, pid, request) (Decided_proposal ?q) (sv\<lparr>sv_store := s\<rparr>) \<and> p = ?q)"
    using call False q by (auto simp: reject_proposal_def Let_def with_store_def split: option.splits decision.splits if_splits)
  then show ?thesis
  proof (elim disjE exE conjE)
    assume "sv' = decide (own, pid, request) (Decided_proposal q) sv" and "p = q"
    then show ?thesis using decide_step [OF service_step_refl [OF ok], of "Decided_proposal q" own] own by (simp add: decision_owner_def)
  next
    fix s assume s: "save_proposal ?q (sv_store sv) = Inr s"
      and "sv' = decide (own, pid, request) (Decided_proposal ?q) (sv\<lparr>sv_store := s\<rparr>)" and "p = ?q"
    moreover have "repo_step env own (sv_store sv) s"
      using save_proposal_step [OF s, of env] qok own by (auto simp: proposal_ok_def)
    ultimately show ?thesis using decide_step [OF store_step [OF ok], of own s "Decided_proposal ?q"] own
      by (simp add: decision_owner_def)
  qed
qed

lemma memory_step_ok: "memory_step env own sv sv' \<Longrightarrow> service_ok env sv \<Longrightarrow> service_step env own sv sv'"
  by (induction rule: memory_step.induct)
    (auto dest: list_call create_call update_call revoke_call delete_call clear_call propose_call confirm_call reject_call
       settings_call context_call)

interpretation preferences: isolated_steps "memory_step env" owner_view "service_ok env" for env
proof unfold_locales
  fix o1 s s' o2
  assume "memory_step env o1 s s'" and "service_ok env s"
  then have *: "service_step env o1 s s'" by (rule memory_step_ok)
  then show "service_ok env s'" by (simp add: service_step_def)
  show "owner_view o2 s' = owner_view o2 s" if "o1 \<noteq> o2"
    using * that by (simp add: service_step_def del: split_paired_All)
qed

end
