(* ===== verification/MemorySafety.thy ===== *)
theory MemorySafety
  imports MemoryFacts Samples
begin

text \<open>
  The properties of the preference memory: isolation of users, typing of the stored values, the
  bounds and the relevance of a composed context, and what a context may change of a trip.
\<close>

section \<open>Isolation\<close>

lemma list_from_view: "list_memories own all now s = newest_first (filter (\<lambda>m. all \<or> memory_active_at m now)
    (map snd (owned_entries memory_owner own (st_memories s))))"
  by (auto simp: list_memories_def owned_entries_def filter_map comp_def split_def conj_commute intro!: arg_cong [where f = newest_first] filter_cong arg_cong [where f = "map snd"])

lemma lookup_owned:
  assumes "distinct (map fst kvs)"
  shows "map_of (owned_entries f own kvs) k = (case map_of kvs k of None \<Rightarrow> None | Some x \<Rightarrow> if f x = own then Some x else None)"
  using assms
proof (induction kvs)
  case (Cons kv kvs)
  have "fst kv \<notin> fst ` set kvs \<Longrightarrow> map_of kvs (fst kv) = None" by (simp add: map_of_eq_None_iff)
  then show ?case using Cons by (cases kv) (auto simp: owned_entries_def split: option.splits)
qed (simp add: owned_entries_def)

lemma get_from_view:
  assumes "store_ok env s"
  shows "get_memory own mid s = (case map_of (owned_entries memory_owner own (st_memories s)) mid of Some m \<Rightarrow> Inr m | None \<Rightarrow> Inl (Memory_missing mid))"
    and "get_proposal own pid s = (case map_of (owned_entries proposal_owner own (st_proposals s)) pid of Some p \<Rightarrow> Inr p | None \<Rightarrow> Inl (Memory_missing pid))"
  using assms by (auto simp: store_ok_def lookup_owned get_memory_def get_proposal_def split: option.splits)

text \<open>
  C36. Nothing other users do changes what a user sees: after any number of calls of the service by
  others, the list of the user's memories, every memory and proposal looked up by id, the settings and
  the remembered decisions on proposals are what they were.
\<close>

theorem other_users_change_nothing_of_mine:
  assumes "service_ok env sv" and "steps_of_others (memory_step env) me sv sv'"
  shows "service_ok env sv' \<and>
     list_memories me all now (sv_store sv') = list_memories me all now (sv_store sv) \<and>
     get_memory me mid (sv_store sv') = get_memory me mid (sv_store sv) \<and>
     get_proposal me pid (sv_store sv') = get_proposal me pid (sv_store sv) \<and>
     map_of (st_settings (sv_store sv')) me = map_of (st_settings (sv_store sv)) me \<and>
     map_of (sv_decisions sv') (me, pid, request) = map_of (sv_decisions sv) (me, pid, request)"
proof -
  have ok: "service_ok env sv'" by (rule preferences.inv_kept [OF assms(2,1)])
  then have stores: "store_ok env (sv_store sv)" "store_ok env (sv_store sv')" using assms(1) by (auto simp: service_ok_def)
  have "owner_view me sv' = owner_view me sv" by (rule preferences.view_kept [OF assms(2,1)])
  then show ?thesis using ok
    by (auto simp: owner_view_def store_view_def list_from_view get_from_view [OF stores(1)] get_from_view [OF stores(2)] fun_eq_iff)
qed

definition my_memory :: preference_memory where
  "my_memory = explicit_memory (''t'', ''me'') ''m1'' (at_time 739890 8 0) M_pace (P_scalar (P_str ''relaxed'')) Scope_global None None None []"

definition my_service :: memory_service where
  "my_service = \<lparr>sv_store = \<lparr>st_memories = [(''m1'', my_memory), (''m2'', my_memory\<lparr>pm_id := ''m2'', pm_user := ''you''\<rparr>)],
     st_proposals = [], st_settings = []\<rparr>, sv_decisions = []\<rparr>"

definition plain_env :: memory_env where
  "plain_env = \<lparr>me_text = (\<lambda>v. []), me_hash = (\<lambda>c v s k. [])\<rparr>"

lemma my_service_ok: "service_ok plain_env my_service"
  by (simp add: service_ok_def store_ok_def my_service_def my_memory_def memory_ok_def explicit_memory_def typed_value_def
      list_category_def scope_errors_def plain_env_def)

theorem other_users_change_nothing_of_mine_witness:
  "get_memory (''t'', ''me'') ''m1'' (sv_store (fst (clear_preferences (''t'', ''you'') my_service))) = Inr my_memory"
proof -
  have step: "memory_step plain_env (''t'', ''you'') my_service (fst (clear_preferences (''t'', ''you'') my_service))"
    by (rule clear_step) (rule prod.collapse [symmetric])
  have "steps_of_others (memory_step plain_env) (''t'', ''me'') my_service (fst (clear_preferences (''t'', ''you'') my_service))"
    by (rule steps_of_others.somebody [where other = "(''t'', ''you'')"]) (rule steps_of_others.nobody step | simp)+
  from other_users_change_nothing_of_mine [OF my_service_ok this]
  have "get_memory (''t'', ''me'') ''m1'' (sv_store (fst (clear_preferences (''t'', ''you'') my_service)))
      = get_memory (''t'', ''me'') ''m1'' (sv_store my_service)" by blast
  then show ?thesis by (simp add: my_service_def my_memory_def get_memory_def explicit_memory_def)
qed

section \<open>Equality of values\<close>

definition scalar_key :: "pref_scalar \<Rightarrow> pref_scalar + rat" where
  "scalar_key x = (case scalar_number x of None \<Rightarrow> Inl x | Some r \<Rightarrow> Inr r)"

lemma scalar_eq_key: "scalar_eq x y \<longleftrightarrow> scalar_key x = scalar_key y"
  by (auto simp: scalar_eq_def scalar_key_def split: option.splits)

lemma scalars_eq_key: "list_all2 scalar_eq xs ys \<longleftrightarrow> map scalar_key xs = map scalar_key ys"
  by (induction xs arbitrary: ys) (auto simp: scalar_eq_key list_all2_Cons1 map_eq_Cons_conv Cons_eq_map_conv)

definition entry_key :: "pref_scalar + pref_scalar list \<Rightarrow> (pref_scalar + rat) + (pref_scalar + rat) list" where
  "entry_key x = map_sum scalar_key (map scalar_key) x"

lemma entry_eq_key: "entry_eq x y \<longleftrightarrow> entry_key x = entry_key y"
  by (cases x; cases y) (auto simp: entry_eq_def entry_key_def scalar_eq_key scalars_eq_key)

datatype value_key =
  K_scalar "pref_scalar + rat" | K_list "(pref_scalar + rat) list"
| K_dict "string \<Rightarrow> ((pref_scalar + rat) + (pref_scalar + rat) list) option"

definition key_of_value :: "pref_value \<Rightarrow> value_key" where
  "key_of_value v = (case v of P_scalar x \<Rightarrow> K_scalar (scalar_key x) | P_list xs \<Rightarrow> K_list (map scalar_key xs)
     | P_dict d \<Rightarrow> K_dict (\<lambda>k. map_option entry_key (map_of d k)))"

lemma dict_eq_key:
  "set (map fst d) = set (map fst e) \<and>
     list_all (\<lambda>k. case (map_of d k, map_of e k) of (Some x, Some y) \<Rightarrow> entry_eq x y | _ \<Rightarrow> False) (map fst d) \<longleftrightarrow>
   (\<lambda>k. map_option entry_key (map_of d k)) = (\<lambda>k. map_option entry_key (map_of e k))" (is "?l \<longleftrightarrow> ?r")
proof
  assume l: ?l
  show ?r
  proof
    fix k
    show "map_option entry_key (map_of d k) = map_option entry_key (map_of e k)"
    proof (cases "k \<in> fst ` set d")
      case True
      then have "case (map_of d k, map_of e k) of (Some x, Some y) \<Rightarrow> entry_eq x y | _ \<Rightarrow> False"
        using l True by (simp only: list_all_iff set_map)
      then show ?thesis by (auto simp: entry_eq_key split: option.splits)
    next
      case False
      then show ?thesis using l by (metis image_set map_of_eq_None_iff option.map_disc_iff)
    qed
  qed
next
  assume r: ?r
  have "map_of d k = None \<longleftrightarrow> map_of e k = None" for k using fun_cong [OF r, of k] by (metis option.map_disc_iff)
  then have same: "fst ` set d = fst ` set e" by (simp add: map_of_eq_None_iff set_eq_iff)
  have "case (map_of d k, map_of e k) of (Some x, Some y) \<Rightarrow> entry_eq x y | _ \<Rightarrow> False" if "k \<in> fst ` set d" for k
  proof -
    have "map_of d k \<noteq> None" "map_of e k \<noteq> None" using that same by (simp_all add: map_of_eq_None_iff)
    then show ?thesis using fun_cong [OF r, of k] by (auto simp: entry_eq_key simp del: map_of_eq_Some_iff)
  qed
  then show ?l using same by (simp add: list_all_iff)
qed

lemma value_eq_key: "value_eq v w \<longleftrightarrow> key_of_value v = key_of_value w"
  by (cases v; cases w)
    (simp_all add: value_eq_def key_of_value_def scalar_eq_key scalars_eq_key dict_eq_key [simplified prod.case] del: set_map)

section \<open>What a context holds\<close>

lemma agreeing_values:
  assumes "c \<notin> mc_category ` set (find_conflicts first ms)"
  shows "\<exists>k. (\<forall>p. map_of first c = Some p \<longrightarrow> key_of_value (pm_value p) = k) \<and>
     (\<forall>m \<in> set ms. pm_category m = c \<longrightarrow> key_of_value (pm_value m) = k)"
  using assms
proof (induction first ms rule: find_conflicts.induct)
  case (2 first m ms)
  show ?case
  proof (cases "map_of first (pm_category m)")
    case None
    then obtain k where k: "\<forall>p. map_of ((pm_category m, m) # first) c = Some p \<longrightarrow> key_of_value (pm_value p) = k"
      "\<forall>m \<in> set ms. pm_category m = c \<longrightarrow> key_of_value (pm_value m) = k"
      using 2 by fastforce
    then show ?thesis using None by (intro exI [of _ k]) (auto split: if_splits)
  next
    case (Some prev)
    show ?thesis
    proof (cases "value_eq (pm_value prev) (pm_value m)")
      case True
      then obtain k where k: "\<forall>p. map_of first c = Some p \<longrightarrow> key_of_value (pm_value p) = k"
        "\<forall>m \<in> set ms. pm_category m = c \<longrightarrow> key_of_value (pm_value m) = k"
        using 2 Some by fastforce
      then show ?thesis using Some True by (intro exI [of _ k]) (auto simp: value_eq_key)
    next
      case False
      then obtain k where k: "\<forall>p. map_of first c = Some p \<longrightarrow> key_of_value (pm_value p) = k"
        "\<forall>m \<in> set ms. pm_category m = c \<longrightarrow> key_of_value (pm_value m) = k"
        using 2 Some by fastforce
      have "pm_category m \<noteq> c" using 2(4) Some False by auto
      then show ?thesis using k by (intro exI [of _ k]) auto
    qed
  qed
next
  case (1 first)
  show ?case by (cases "map_of first c") auto
qed

lemma fill_context_facts:
  assumes "fill_context env co role bad n sms = (xs, n', es)"
  shows "subseq xs (map (summary_of role) (filter (\<lambda>sm. pm_category (snd sm) \<notin> set bad) sms)) \<and>
     n' = n + sum_list (map (ce_size env) xs) \<and> length xs + length es = length sms \<and>
     (n \<le> co_max_characters co \<and> quarter_up n \<le> co_max_tokens co \<longrightarrow> n' \<le> co_max_characters co \<and> quarter_up n' \<le> co_max_tokens co)"
  using assms
proof (induction env co role bad n sms arbitrary: xs n' es rule: fill_context.induct)
  case (2 env co role bad n sm sms)
  let ?size = "ce_size env (summary_of role sm)"
  let ?over = "co_max_characters co < n + ?size \<or> co_max_tokens co < quarter_up (n + ?size)"
  consider (bad) "pm_category (snd sm) \<in> set bad" | (over) "pm_category (snd sm) \<notin> set bad" ?over
    | (fits) "pm_category (snd sm) \<notin> set bad" "\<not> ?over" by blast
  then show ?case
  proof cases
    case bad
    then show ?thesis using 2(4) 2(1) by (auto split: prod.splits)
  next
    case over
    then show ?thesis using 2(4) 2(2) by (auto simp: Let_def split: prod.splits intro: list_emb_Cons)
  next
    case fits
    obtain ys k fs where rest: "fill_context env co role bad (n + ?size) sms = (ys, k, fs)" by (metis prod_cases3)
    have "xs = summary_of role sm # ys" "n' = k" "es = fs" using 2(4) fits rest by (auto simp: Let_def)
    then show ?thesis using 2(3) [OF fits(1) refl refl fits(2) rest] fits by auto
  qed
qed simp

lemma bump_sum: "sum_list (map snd (bump e xs)) = Suc (sum_list (map snd xs))"
  by (induction e xs rule: bump.induct) auto

lemma tally_sum: "sum_list (map snd (tally es xs)) = sum_list (map snd xs) + length es"
  unfolding tally_def by (induction es arbitrary: xs) (auto simp: bump_sum)

lemma excluded_split: "length (List.map_filter f xs) + length (filter (\<lambda>x. f x = None) xs) = length xs"
  by (induction xs) (auto simp: map_filter_simps split: option.splits)

text \<open>Which memories may be shown: active, of the trip's scope, not overridden by the request, of use to the role.\<close>

definition may_be_shown :: "trip_spec \<Rightarrow> requirement_draft option \<Rightarrow> agent_role \<Rightarrow> datetime \<Rightarrow> preference_memory \<Rightarrow> bool" where
  "may_be_shown trip draft role now m \<longleftrightarrow> memory_active_at m now \<and> scope_matches m trip \<and>
     \<not> explicitly_overridden (pm_category m) draft \<and> 0 < role_weight (pm_category m) role"

lemma shown_iff: "exclusion_of trip draft role now m = None \<longleftrightarrow> may_be_shown trip draft role now m"
  by (auto simp: exclusion_of_def may_be_shown_def)

lemma set_ranked: "set (ranked trip draft role now ms) = (\<lambda>m. (memory_score m role now, m)) ` {m \<in> set ms. may_be_shown trip draft role now m}"
  by (auto simp: ranked_def shown_iff)

lemma length_ranked: "length (ranked trip draft role now ms) = length (filter (\<lambda>m. exclusion_of trip draft role now m = None) ms)"
  by (induction ms) (auto simp: ranked_def)

lemma compose_parts:
  assumes "compose env co ms trip draft role now = cx"
  obtains es where "fill_context env co role (map mc_category (cx_conflicts cx)) 0 (ranked trip draft role now ms)
      = (cx_summaries cx, cm_characters (cx_manifest cx), es)"
    and "cx_conflicts cx = find_conflicts [] (map snd (ranked trip draft role now ms))"
    and "cm_tokens (cx_manifest cx) = quarter_up (cm_characters (cx_manifest cx))"
    and "cm_excluded (cx_manifest cx) = length (List.map_filter (exclusion_of trip draft role now) ms) + length es"
proof -
  let ?act = "ranked trip draft role now ms"
  obtain xs n es where f: "fill_context env co role (map mc_category (find_conflicts [] (map snd ?act))) 0 ?act = (xs, n, es)"
    by (metis prod_cases3)
  have "cx = compose env co ms trip draft role now" by (simp add: assms)
  then show thesis by (intro that [of es]) (simp_all add: compose_def Let_def f tally_sum)
qed

lemma summary_fields [simp]:
  "su_id (summary_of role sm) = pm_id (snd sm)" "su_category (summary_of role sm) = pm_category (snd sm)"
  "su_value (summary_of role sm) = pm_value (snd sm)" "su_score (summary_of role sm) = fst sm"
  by (simp_all add: summary_of_def split: prod.split)

lemma composed_from:
  assumes "compose env co ms trip draft role now = cx" and "x \<in> set (cx_summaries cx)"
  obtains m where "m \<in> set ms" "may_be_shown trip draft role now m" "x = summary_of role (memory_score m role now, m)"
    and "pm_category m \<notin> mc_category ` set (cx_conflicts cx)"
proof -
  obtain es where "fill_context env co role (map mc_category (cx_conflicts cx)) 0 (ranked trip draft role now ms)
      = (cx_summaries cx, cm_characters (cx_manifest cx), es)"
    using compose_parts [OF assms(1)] by metis
  from fill_context_facts [OF this] have "x \<in> set (map (summary_of role)
      (filter (\<lambda>sm. pm_category (snd sm) \<notin> set (map mc_category (cx_conflicts cx))) (ranked trip draft role now ms)))"
    using assms(2) list_emb_set [of "(=)"] by (metis (no_types, lifting))
  then show thesis using that by (auto simp: set_ranked)
qed

text \<open>
  C37. The context an agent is given keeps its limits and holds only what it should: the summaries
  need no more characters and tokens than allowed, every memory is either shown or counted as left
  out, and each one shown is an active confirmed memory of the trip's scope, not overridden by the
  current request, of use to the agent's role, and agrees with every other one shown of its category.
\<close>

theorem context_is_bounded_and_relevant:
  assumes cx: "compose env co ms trip draft role now = cx"
  shows "cm_characters (cx_manifest cx) = sum_list (map (ce_size env) (cx_summaries cx)) \<and>
     cm_characters (cx_manifest cx) \<le> co_max_characters co \<and> cm_tokens (cx_manifest cx) \<le> co_max_tokens co \<and>
     cm_excluded (cx_manifest cx) + length (cx_summaries cx) = length ms \<and>
     set (cx_summaries cx) \<subseteq> (\<lambda>m. summary_of role (memory_score m role now, m)) ` {m \<in> set ms. may_be_shown trip draft role now m} \<and>
     (\<forall>x \<in> set (cx_summaries cx). \<forall>y \<in> set (cx_summaries cx). su_category x = su_category y \<longrightarrow> value_eq (su_value x) (su_value y))"
proof -
  obtain es where f: "fill_context env co role (map mc_category (cx_conflicts cx)) 0 (ranked trip draft role now ms)
      = (cx_summaries cx, cm_characters (cx_manifest cx), es)"
    and con: "cx_conflicts cx = find_conflicts [] (map snd (ranked trip draft role now ms))"
    and tok: "cm_tokens (cx_manifest cx) = quarter_up (cm_characters (cx_manifest cx))"
    and ex: "cm_excluded (cx_manifest cx) = length (List.map_filter (exclusion_of trip draft role now) ms) + length es"
    by (rule compose_parts [OF cx])
  note facts = fill_context_facts [OF f]
  have "value_eq (su_value x) (su_value y)"
    if x: "x \<in> set (cx_summaries cx)" and y: "y \<in> set (cx_summaries cx)" and c: "su_category x = su_category y" for x y
  proof -
    obtain m where m: "m \<in> set ms" "may_be_shown trip draft role now m" "x = summary_of role (memory_score m role now, m)"
      "pm_category m \<notin> mc_category ` set (cx_conflicts cx)" by (rule composed_from [OF cx x])
    obtain m' where m': "m' \<in> set ms" "may_be_shown trip draft role now m'" "y = summary_of role (memory_score m' role now, m')"
      by (rule composed_from [OF cx y])
    have "m \<in> set (map snd (ranked trip draft role now ms))" "m' \<in> set (map snd (ranked trip draft role now ms))"
      using m m' by (auto simp: set_ranked image_image)
    moreover have "pm_category m' = pm_category m" using c m(3) m'(3) by simp
    ultimately show ?thesis using agreeing_values [OF m(4) [unfolded con]] m(3) m'(3) by (auto simp: value_eq_key)
  qed
  moreover have "cm_excluded (cx_manifest cx) + length (cx_summaries cx) = length ms"
    using facts ex length_ranked [of trip draft role now ms] excluded_split [of "exclusion_of trip draft role now" ms] by simp
  moreover have "set (cx_summaries cx) \<subseteq> (\<lambda>m. summary_of role (memory_score m role now, m)) ` {m \<in> set ms. may_be_shown trip draft role now m}"
    by (auto elim!: composed_from [OF cx])
  ultimately show ?thesis using facts tok by (auto simp: quarter_up_def)
qed

definition sample_context_env :: context_env where
  "sample_context_env = \<lparr>ce_size = (\<lambda>x. 100), ce_hash = (\<lambda>r xs ys. []), ce_repr = (\<lambda>v. []), ce_int = (\<lambda>s. None)\<rparr>"

theorem context_is_bounded_and_relevant_witness:
  "\<exists>cx. compose sample_context_env \<lparr>co_max_tokens = 1200, co_max_characters = 4800\<rparr>
      [my_memory, my_memory\<lparr>pm_id := ''m3'', pm_revoked_at := Some (at_time 739890 9 0)\<rparr>]
      sample_trip None Role_planner (at_time 739890 10 0) = cx \<and>
     map su_id (cx_summaries cx) = [''m1''] \<and> cm_excluded (cx_manifest cx) + length (cx_summaries cx) = 2"
proof -
  let ?ms = "[my_memory, my_memory\<lparr>pm_id := ''m3'', pm_revoked_at := Some (at_time 739890 9 0)\<rparr>]"
  let ?co = "\<lparr>co_max_tokens = 1200, co_max_characters = 4800\<rparr>"
  let ?cx = "compose sample_context_env ?co ?ms sample_trip None Role_planner (at_time 739890 10 0)"
  have "cm_excluded (cx_manifest ?cx) + length (cx_summaries ?cx) = length ?ms"
    using context_is_bounded_and_relevant [OF refl, of sample_context_env ?co ?ms sample_trip None Role_planner "at_time 739890 10 0"]
    by blast
  moreover have "map su_id (cx_summaries ?cx) = [''m1'']"
    by (simp add: compose_def ranked_def exclusion_of_def memory_active_at_def expired_def my_memory_def explicit_memory_def
        scope_matches_def explicitly_overridden_def fill_context.simps summary_of_def sample_context_env_def quarter_up_def
        List.map_filter_def Let_def)
  ultimately show ?thesis by simp
qed

section \<open>Applying a context\<close>

lemma prefix_merge_terms: "prefix current (merge_terms current xs)"
  by (induction current xs rule: merge_terms.induct) (auto intro: prefix_order.trans [OF prefixI [OF refl]] elim: append_prefixD)

lemma set_merge_terms: "set (merge_terms current xs) \<subseteq> set current \<union> set xs"
  by (induction current xs rule: merge_terms.induct) auto

definition applied_ok :: "trip_spec \<Rightarrow> requirement_draft option \<Rightarrow> trip_updates \<Rightarrow> bool" where
  "applied_ok trip draft u \<longleftrightarrow>
     (\<forall>d. draft = Some d \<longrightarrow> (rd_pace d \<noteq> None \<longrightarrow> up_pace u = None) \<and> (rd_mobility d \<noteq> None \<longrightarrow> up_mobility u = None)) \<and>
     (\<forall>m. up_mobility u = Some m \<longrightarrow> max_daily_activity_minutes m = max_daily_activity_minutes (mobility trip) \<and>
        (needs_frequent_rest (mobility trip) \<longrightarrow> needs_frequent_rest m)) \<and>
     prefix (interests trip) (up_interests u) \<and> prefix (avoid trip) (up_avoid u) \<and>
     casefold ` (set (up_avoid u) - set (avoid trip)) \<inter> casefold ` set (must_visit trip) = {}"

lemma apply_summary_cases:
  assumes "apply_summary env trip draft x u = Inr u'"
  obtains (same) "u' = u"
    | (pace) p where "u' = u\<lparr>up_pace := Some p\<rparr>" "\<And>d. draft = Some d \<Longrightarrow> rd_pace d = None"
    | (walking) n where "u' = u\<lparr>up_mobility := Some ((mobility trip)\<lparr>max_daily_walking_meters := n\<rparr>)\<rparr>" "\<And>d. draft = Some d \<Longrightarrow> rd_mobility d = None"
        "su_category x = M_walking_tolerance" "value_int env (su_value x) = Inr n"
    | (rest) "u' = u\<lparr>up_mobility := Some ((case up_mobility u of None \<Rightarrow> mobility trip | Some m \<Rightarrow> m)\<lparr>needs_frequent_rest := True\<rparr>)\<rparr>"
        "\<And>d. draft = Some d \<Longrightarrow> rd_mobility d = None"
    | (interests) "u' = u\<lparr>up_interests := merge_terms (up_interests u) (as_strings env (su_value x))\<rparr>"
    | (avoid) "u' = u\<lparr>up_avoid := merge_terms (up_avoid u) [v \<leftarrow> as_strings env (su_value x). casefold v \<notin> casefold ` set (must_visit trip)]\<rparr>"
proof (cases "su_category x")
  case M_pace
  then show thesis using assms same pace by (cases draft) (auto simp: apply_summary_def Let_def split: if_splits)
next
  case M_walking_tolerance
  then show thesis using assms same walking by (cases draft) (auto simp: apply_summary_def Let_def split: if_splits)
next
  case M_accessibility_needs
  then show thesis using assms same rest unfolding apply_summary_def Let_def
    by (cases draft) (simp_all split: if_split_asm)
next
  case M_preferred_categories
  then show thesis using assms by (intro interests) (simp add: apply_summary_def)
next
  case M_avoided_categories
  then show thesis using assms by (intro avoid) (simp add: apply_summary_def)
qed (rule same, use assms in \<open>simp add: apply_summary_def\<close>)+

lemma apply_summary_ok:
  assumes "apply_summary env trip draft x u = Inr u'" and ok: "applied_ok trip draft u"
  shows "applied_ok trip draft u'"
  using assms(1)
proof (cases rule: apply_summary_cases)
  case interests
  have "prefix (interests trip) (up_interests u')"
    using ok prefix_order.trans [OF _ prefix_merge_terms] by (simp add: applied_ok_def interests)
  then show ?thesis using ok interests by (simp add: applied_ok_def)
next
  case avoid
  have "prefix (avoid trip) (up_avoid u')"
    using ok prefix_order.trans [OF _ prefix_merge_terms] by (simp add: applied_ok_def avoid)
  moreover have "set (up_avoid u') - set (DomainModels.avoid trip) \<subseteq> (set (up_avoid u) - set (DomainModels.avoid trip)) \<union>
      {v. casefold v \<notin> casefold ` set (must_visit trip)}"
    using set_merge_terms avoid by fastforce
  then have "casefold ` (set (up_avoid u') - set (DomainModels.avoid trip)) \<inter> casefold ` set (must_visit trip) = {}"
    using ok unfolding applied_ok_def by blast
  ultimately show ?thesis using ok avoid by (simp add: applied_ok_def)
next
  case rest
  then show ?thesis using ok by (cases "up_mobility u") (auto simp: applied_ok_def)
qed (use ok in \<open>auto simp: applied_ok_def\<close>)

lemma applied_start: "applied_ok trip draft \<lparr>up_pace = None, up_mobility = None, up_interests = interests trip, up_avoid = avoid trip\<rparr>"
  by (simp add: applied_ok_def)

text \<open>A trip changed by preferences still respects the request it was made from.\<close>

definition respects_request :: "requirement_draft option \<Rightarrow> trip_spec \<Rightarrow> trip_spec \<Rightarrow> bool" where
  "respects_request draft trip t \<longleftrightarrow>
     t\<lparr>trip_pace := trip_pace trip, mobility := mobility trip, interests := interests trip, avoid := avoid trip\<rparr> = trip \<and>
     (\<forall>d. draft = Some d \<longrightarrow> (rd_pace d \<noteq> None \<longrightarrow> trip_pace t = trip_pace trip) \<and> (rd_mobility d \<noteq> None \<longrightarrow> mobility t = mobility trip)) \<and>
     max_daily_activity_minutes (mobility t) = max_daily_activity_minutes (mobility trip) \<and>
     prefix (interests trip) (interests t) \<and> prefix (avoid trip) (avoid t) \<and>
     casefold ` (set (avoid t) - set (avoid trip)) \<inter> casefold ` set (must_visit trip) = {}"

lemma respects_same: "respects_request draft t t"
  by (simp add: respects_request_def)

lemma apply_respects:
  assumes "apply_to_trip env trip draft cx = Inr t"
  shows "respects_request draft trip t"
proof -
  obtain u where u: "fold_res (apply_summary env trip draft) (cx_summaries cx)
      \<lparr>up_pace = None, up_mobility = None, up_interests = interests trip, up_avoid = avoid trip\<rparr> = Inr u"
    and t: "t = trip\<lparr>trip_pace := (case up_pace u of None \<Rightarrow> trip_pace trip | Some p \<Rightarrow> p),
                 mobility := (case up_mobility u of None \<Rightarrow> mobility trip | Some m \<Rightarrow> m),
                 interests := up_interests u, avoid := up_avoid u\<rparr>"
    using assms by (auto simp: apply_to_trip_def)
  have "applied_ok trip draft u"
    using fold_res_invariant [OF u, of "applied_ok trip draft"] applied_start apply_summary_ok by blast
  then show ?thesis by (auto simp: respects_request_def applied_ok_def t split: option.splits)
qed

text \<open>
  C17. Preferences never overrule the request: a context changes only the pace, the mobility, the
  interests and the terms to avoid of a trip; a pace or mobility the user stated stays; the user's
  own terms stay in front, and no term is added to avoid that the user must visit.
\<close>

theorem preferences_respect_the_request:
  assumes "apply_to_trip env trip draft cx = Inr t"
  shows "t\<lparr>trip_pace := trip_pace trip, mobility := mobility trip, interests := interests trip, avoid := avoid trip\<rparr> = trip \<and>
     (\<forall>d. draft = Some d \<longrightarrow> (rd_pace d \<noteq> None \<longrightarrow> trip_pace t = trip_pace trip) \<and> (rd_mobility d \<noteq> None \<longrightarrow> mobility t = mobility trip)) \<and>
     max_daily_activity_minutes (mobility t) = max_daily_activity_minutes (mobility trip) \<and>
     prefix (interests trip) (interests t) \<and> prefix (avoid trip) (avoid t) \<and>
     casefold ` (set (avoid t) - set (avoid trip)) \<inter> casefold ` set (must_visit trip) = {}"
  using apply_respects [OF assms] unfolding respects_request_def .

definition avoiding_context :: preference_context where
  "avoiding_context = (compose sample_context_env \<lparr>co_max_tokens = 1200, co_max_characters = 4800\<rparr> []
     sample_trip None Role_planner (at_time 739890 10 0))
     \<lparr>cx_summaries := [\<lparr>su_id = ''m1'', su_category = M_avoided_categories, su_value = P_list [P_str ''L'', P_str ''bar''],
        su_confidence = 1, su_source = Explicit_user, su_reason = [], su_score = 9\<rparr>]\<rparr>"

theorem preferences_respect_the_request_witness:
  "\<exists>t. apply_to_trip sample_context_env sample_trip None avoiding_context = Inr t \<and> avoid t = [''bar''] \<and>
     casefold ` (set (avoid t) - set (avoid sample_trip)) \<inter> casefold ` set (must_visit sample_trip) = {}"
proof -
  have "\<exists>t. apply_to_trip sample_context_env sample_trip None avoiding_context = Inr t \<and> avoid t = [''bar'']"
    by (simp add: apply_to_trip_def avoiding_context_def apply_summary_def as_strings_def sample_trip_def casefold_def fold_char_def)
  then obtain t where t: "apply_to_trip sample_context_env sample_trip None avoiding_context = Inr t" "avoid t = [''bar'']" by blast
  show ?thesis using t preferences_respect_the_request [OF t(1)] by blast
qed

text \<open>
  A walking limit that ranks after a need for rest replaces the mobility set for the need: both are
  of the planner's context, and the trip does not provide for frequent rest.
\<close>

lemma walking_limit_forgets_rest:
  "\<exists>t. apply_to_trip sample_context_env sample_trip None (avoiding_context
       \<lparr>cx_summaries := [\<lparr>su_id = ''a'', su_category = M_accessibility_needs, su_value = P_list [P_str ''frequent_rest''],
            su_confidence = 1, su_source = Explicit_user, su_reason = [], su_score = 9\<rparr>,
          \<lparr>su_id = ''b'', su_category = M_walking_tolerance, su_value = P_scalar (P_int 4000),
            su_confidence = 1, su_source = Explicit_user, su_reason = [], su_score = 9\<rparr>]\<rparr>) = Inr t \<and>
     max_daily_walking_meters (mobility t) = 4000 \<and> \<not> needs_frequent_rest (mobility t)"
  by (simp add: apply_to_trip_def apply_summary_def as_strings_def value_int_def sample_trip_def default_mobility_def casefold_def fold_char_def)

section \<open>Stored preferences can always be applied\<close>

definition empty_service :: memory_service where
  "empty_service = \<lparr>sv_store = \<lparr>st_memories = [], st_proposals = [], st_settings = []\<rparr>, sv_decisions = []\<rparr>"

lemma empty_service_ok: "service_ok env empty_service"
  by (simp add: empty_service_def service_ok_def store_ok_def)

lemma reached_ok: "(\<lambda>s s'. \<exists>own. memory_step env own s s')\<^sup>*\<^sup>* sv sv' \<Longrightarrow> service_ok env sv \<Longrightarrow> service_ok env sv'"
  by (induction rule: rtranclp_induct) (auto dest: preferences.preserved)

definition mobility_kept :: "trip_spec \<Rightarrow> trip_updates \<Rightarrow> bool" where
  "mobility_kept trip u \<longleftrightarrow> (\<forall>m. mobility_fields_ok (mobility trip) \<longrightarrow> up_mobility u = Some m \<longrightarrow> mobility_fields_ok m)"

lemma mobility_kept_step:
  assumes "apply_summary env trip draft x u = Inr u'" and "mobility_kept trip u" and "typed_value (su_category x) (su_value x)"
  shows "mobility_kept trip u'"
  using assms(1)
proof (cases rule: apply_summary_cases)
  case rest
  then show ?thesis using assms(2) by (cases "up_mobility u") (auto simp: mobility_kept_def mobility_fields_ok_def)
next
  case (walking n)
  have "0 \<le> n"
    using assms(3) walking(3,4)
    by (auto simp: typed_value_def list_category_def value_int_def split: pref_value.splits pref_scalar.splits)
  then show ?thesis using walking(1) by (simp add: mobility_kept_def mobility_fields_ok_def)
qed (use assms(2) in \<open>auto simp: mobility_kept_def\<close>)

lemma typed_applies:
  assumes ty: "typed_value (su_category x) (su_value x)" and kept: "mobility_kept trip u"
  shows "\<exists>u'. apply_summary env trip draft x u = Inr u' \<and> mobility_kept trip u'"
proof -
  have "\<exists>u'. apply_summary env trip draft x u = Inr u'"
  proof (cases "su_category x")
    case M_pace
    then obtain s where "su_value x = P_scalar (P_str s)" "s \<in> {''relaxed'', ''balanced'', ''intensive''}"
      using ty by (auto simp: typed_value_def list_category_def)
    then show ?thesis using M_pace by (auto simp: apply_summary_def Let_def value_str_def pace_named_def)
  next
    case M_walking_tolerance
    then obtain n where "su_value x = P_scalar (P_int n)"
      using ty by (auto simp: typed_value_def list_category_def split: pref_value.splits pref_scalar.splits)
    then show ?thesis using M_walking_tolerance by (simp add: apply_summary_def Let_def value_int_def)
  qed (simp_all add: apply_summary_def Let_def)
  then show ?thesis using mobility_kept_step [OF _ kept ty] by blast
qed

text \<open>
  C18. Stored preferences are well typed, so they can always be applied: whatever calls of the service
  were made, the context built from the stored memories applies to every trip without an error,
  and keeps the bounds of its mobility.
\<close>

theorem stored_preferences_always_apply:
  assumes "(\<lambda>s s'. \<exists>own. memory_step env own s s')\<^sup>*\<^sup>* empty_service sv"
    and cx: "context_for_trip cenv co own trip draft role now sv = (sv', cx)"
  shows "\<exists>t. apply_to_trip cenv trip draft cx = Inr t \<and> (mobility_fields_ok (mobility trip) \<longrightarrow> mobility_fields_ok (mobility t))"
proof -
  have ok: "service_ok env sv" by (rule reached_ok [OF assms(1) empty_service_ok])
  obtain s x where s: "get_personalization own now (sv_store sv) = (s, x)"
    and cx': "cx = compose cenv co (if ps_enabled x then list_memories own False now s else []) trip draft role now"
    using cx by (auto simp: context_for_trip_def split: prod.splits)
  have "store_ok env s" using get_personalization_step [OF s, of env] ok by (simp add: repo_step_def service_ok_def)
  then have "typed_value (pm_category m) (pm_value m)" if "m \<in> set (list_memories own False now s)" for m
    using that by (auto simp: list_memories_def newest_first_def store_ok_def memory_ok_def split: prod.splits)
  then have "typed_value (su_category y) (su_value y)" if "y \<in> set (cx_summaries cx)" for y
    using composed_from [OF cx' [symmetric] that] by (metis empty_iff list.set(1) snd_conv summary_fields(2,3))
  then have "\<exists>u. fold_res (apply_summary cenv trip draft) (cx_summaries cx)
      \<lparr>up_pace = None, up_mobility = None, up_interests = interests trip, up_avoid = avoid trip\<rparr> = Inr u \<and> mobility_kept trip u"
    by (intro fold_res_progress typed_applies) (auto simp: mobility_kept_def)
  then show ?thesis by (fastforce simp: apply_to_trip_def mobility_kept_def split: option.splits)
qed

definition relaxed_request :: preference_request where
  "relaxed_request = \<lparr>pq_category = M_pace, pq_value = P_scalar (P_str ''relaxed''), pq_scope = Scope_global, pq_scope_key = None,
     pq_expires_at = None\<rparr>"

lemma relaxed_created:
  "\<exists>sv. create_explicit plain_env (''t'', ''me'') relaxed_request None ''m1'' (at_time 739890 8 0) empty_service = Inr (sv, my_memory)
     \<and> st_memories (sv_store sv) = [(''m1'', my_memory)]"
proof -
  have "normalize_preference_value plain_env M_pace (P_scalar (P_str ''relaxed'')) = Inr (P_scalar (P_str ''relaxed''))"
    by code_simp
  then show ?thesis
    by (simp add: create_explicit_def relaxed_request_def empty_service_def find_content_hash_def validate_memory_def explicit_memory_def
        scope_errors_def expired_def with_store_def create_memory_def my_memory_def plain_env_def)
qed

theorem stored_preferences_always_apply_witness:
  "\<exists>sv t. st_memories (sv_store sv) = [(''m1'', my_memory)] \<and>
     apply_to_trip sample_context_env sample_trip None (snd (context_for_trip sample_context_env
      \<lparr>co_max_tokens = 1200, co_max_characters = 4800\<rparr> (''t'', ''me'') sample_trip None Role_planner (at_time 739890 10 0) sv)) = Inr t"
proof -
  obtain sv where create: "create_explicit plain_env (''t'', ''me'') relaxed_request None ''m1'' (at_time 739890 8 0) empty_service
      = Inr (sv, my_memory)" and stored: "st_memories (sv_store sv) = [(''m1'', my_memory)]"
    using relaxed_created by blast
  have run: "(\<lambda>s s'. \<exists>own. memory_step plain_env own s s')\<^sup>*\<^sup>* empty_service sv"
    using create_step [OF create] by (intro r_into_rtranclp) blast
  show ?thesis using stored_preferences_always_apply [OF run prod.collapse [symmetric]] stored by blast
qed

end
