(* ===== verification/RequirementSafety.thy ===== *)
theory RequirementSafety
  imports RequirementGraph RequirementAnchors MemorySafety
begin

text \<open>
  What holds while a conversation runs: an assertion for every node of the requirement graph, kept by
  every step, every run and every call; runs end well within LangGraph's limit; every interrupt uses up
  a round.
\<close>

section \<open>Assertions of the nodes\<close>

definition drafted :: "requirement_state \<Rightarrow> bool" where
  "drafted st \<longleftrightarrow> (\<exists>d. qs_draft st = Some d \<and> draft_ok d \<and> fresh_anchors d (qs_resolutions st))"

definition blocked :: "requirement_state \<Rightarrow> bool" where
  "blocked st \<longleftrightarrow> list_ex ri_blocking (qs_issues st)"

definition complete :: "requirement_state \<Rightarrow> bool" where
  "complete st \<longleftrightarrow> (\<exists>d. qs_draft st = Some d \<and> validate_requirement d (nq_zone (qs_request st)) = [])"

definition places_searched :: "requirement_state \<Rightarrow> bool" where
  "places_searched st \<longleftrightarrow> (\<exists>d wanted. qs_draft st = Some d \<and> build_anchor_search_plan d wanted = Inr (qs_plan st) \<and>
     set wanted = set (required_anchor_roles d) - fst ` set (qs_resolutions st))"

definition places_resolved :: "requirement_state \<Rightarrow> bool" where
  "places_resolved st \<longleftrightarrow> (\<exists>d. qs_draft st = Some d \<and> set (required_anchor_roles d) \<subseteq> fst ` set (qs_resolutions st))"

definition asking :: "requirement_state \<Rightarrow> bool" where
  "asking st \<longleftrightarrow> 1 \<le> qs_round st \<and> qs_questions st \<noteq> [] \<and> qs_targets st \<noteq> [] \<and> qs_status st = ''needs_clarification''"

definition assembled :: "requirement_state \<Rightarrow> bool" where
  "assembled st \<longleftrightarrow> (\<exists>d t. qs_draft st = Some d \<and> assemble_trip_spec d (qs_resolutions st) (nq_zone (qs_request st)) = Inr t \<and>
     qs_trip st = Some t)"

definition personalised :: "requirement_state \<Rightarrow> bool" where
  "personalised st \<longleftrightarrow> (\<exists>d t0 t. qs_draft st = Some d \<and> assemble_trip_spec d (qs_resolutions st) (nq_zone (qs_request st)) = Inr t0 \<and>
     qs_trip st = Some t \<and> respects_request (Some d) t0 t)"

definition ready :: "requirement_state \<Rightarrow> bool" where
  "ready st \<longleftrightarrow> 0 \<le> qs_round st \<and> qs_round st \<le> qs_max_rounds st \<and> 1 \<le> qs_max_rounds st \<and>
     qs_max_rounds st = nq_max_clarification (qs_request st) \<and> qs_planning st = None"

fun at_node :: "requirement_node \<Rightarrow> requirement_state \<Rightarrow> bool" where
  "at_node Q_guard st \<longleftrightarrow> ready st \<and> \<not> qs_exhausted st \<and> qs_draft st = None \<and> qs_resolutions st = []"
| "at_node Q_parse st \<longleftrightarrow> ready st \<and> \<not> qs_exhausted st \<and> qs_draft st = None \<and> qs_resolutions st = []"
| "at_node Q_validate st \<longleftrightarrow> ready st \<and> \<not> qs_exhausted st \<and> drafted st"
| "at_node Q_resolve st \<longleftrightarrow> ready st \<and> \<not> qs_exhausted st \<and> drafted st \<and> complete st"
| "at_node Q_evaluate st \<longleftrightarrow> ready st \<and> \<not> qs_exhausted st \<and> drafted st \<and> complete st \<and> places_searched st"
| "at_node Q_request st \<longleftrightarrow> ready st \<and> \<not> qs_exhausted st \<and> drafted st \<and> blocked st"
| "at_node Q_await st \<longleftrightarrow> ready st \<and> \<not> qs_exhausted st \<and> drafted st \<and> blocked st \<and> asking st"
| "at_node Q_parse_patch st \<longleftrightarrow> ready st \<and> \<not> qs_exhausted st \<and> drafted st \<and> blocked st \<and> qs_targets st \<noteq> [] \<and> qs_input st \<noteq> None"
| "at_node Q_apply_patch st \<longleftrightarrow> ready st \<and> \<not> qs_exhausted st \<and> drafted st \<and> blocked st \<and> (\<exists>p. qs_patch st = Some p \<and> patch_ok p)"
| "at_node Q_exhausted st \<longleftrightarrow> ready st \<and> drafted st \<and> blocked st \<and> qs_exhausted st"
| "at_node Q_assemble st \<longleftrightarrow> ready st \<and> \<not> qs_exhausted st \<and> drafted st \<and> complete st \<and> places_resolved st"
| "at_node Q_retrieve st \<longleftrightarrow> ready st \<and> \<not> qs_exhausted st \<and> drafted st \<and> assembled st"
| "at_node Q_execute st \<longleftrightarrow> ready st \<and> \<not> qs_exhausted st \<and> drafted st \<and> personalised st"

definition planned :: "requirement_config \<Rightarrow> requirement_state \<Rightarrow> bool" where
  "planned cf st \<longleftrightarrow> (\<exists>gws t r. qs_trip st = Some t \<and> qs_planning st = Some r \<and> personalised st \<and>
     run_planning (rc_planning cf) gws \<lparr>rq_trip = t, rq_max_rounds = nq_max_replan (qs_request st)\<rparr> (qs_thread st) = Inr r \<and>
     qs_status st = pr_status r)"

definition conversation_over :: "requirement_config \<Rightarrow> requirement_state \<Rightarrow> bool" where
  "conversation_over cf st \<longleftrightarrow> drafted st \<and> 0 \<le> qs_round st \<and> qs_round st \<le> qs_max_rounds st \<and>
     (planned cf st \<or> qs_planning st = None \<and> qs_exhausted st \<and> qs_status st = ''needs_clarification'')"

text \<open>What no node changes.\<close>

definition same_conversation :: "requirement_state \<Rightarrow> requirement_state \<Rightarrow> bool" where
  "same_conversation st st' \<longleftrightarrow> qs_thread st' = qs_thread st \<and> qs_tenant st' = qs_tenant st \<and> qs_user st' = qs_user st \<and>
     qs_request st' = qs_request st \<and> qs_max_rounds st' = qs_max_rounds st"

lemma same_conversation_refl [simp]: "same_conversation st st"
  by (simp add: same_conversation_def)

lemma same_conversation_trans: "same_conversation a b \<Longrightarrow> same_conversation b c \<Longrightarrow> same_conversation a c"
  by (simp add: same_conversation_def)

text \<open>The drafts and patches of the model's answers are validated by their Pydantic classes.\<close>

definition answers_valid :: "requirement_services \<Rightarrow> bool" where
  "answers_valid sv \<longleftrightarrow> (\<forall>r t d s. rs_parse sv r t = Inr (d, s) \<longrightarrow> draft_ok d) \<and>
     (\<forall>x t p s. rs_parse_patch sv x t = Inr (p, s) \<longrightarrow> patch_ok p)"

lemma answers_validD:
  "answers_valid sv \<Longrightarrow> rs_parse sv r t = Inr (d, s) \<Longrightarrow> draft_ok d"
  "answers_valid sv \<Longrightarrow> rs_parse_patch sv x t = Inr (p, s) \<Longrightarrow> patch_ok p"
  unfolding answers_valid_def by blast+

section \<open>One step\<close>

lemma first_unique_Nil [simp]: "first_unique xs = [] \<longleftrightarrow> xs = []"
proof -
  have "set (foldl (\<lambda>acc x. if x \<in> set acc then acc else acc @ [x]) acc xs) = set acc \<union> set xs" for acc
    by (induction xs arbitrary: acc) auto
  then have "set (first_unique xs) = set xs" by (simp add: first_unique_def)
  then show ?thesis using set_empty by metis
qed

lemma fields_of_issue_some: "fields_of_issue i \<noteq> []"
  by (auto simp: fields_of_issue_def composite_targets_def conflict_targets_def split: option.splits if_splits)

lemma blocked_asks:
  assumes "list_ex ri_blocking issues"
  shows "first_unique (map issue_question (filter ri_blocking issues)) \<noteq> []" and "clarification_target_fields issues \<noteq> []"
  using assms fields_of_issue_some by (auto simp: clarification_target_fields_def list_ex_iff filter_empty_conv)

lemma validation_blocks: "x \<in> set (validate_requirement d zone) \<Longrightarrow> ri_blocking x"
  by (auto simp: validate_requirement_def Let_def issue_if_def mk_issue_def split: if_splits)

abbreviation next_ok :: "requirement_config \<Rightarrow> requirement_node \<Rightarrow> requirement_state \<Rightarrow> requirement_state \<Rightarrow> bool" where
  "next_ok cf n st st' \<equiv> same_conversation st st' \<and>
     (case requirement_next cf n st' of None \<Rightarrow> conversation_over cf st' | Some n' \<Rightarrow> at_node n' st')"

lemmas stage_defs = ready_def drafted_def blocked_def complete_def same_conversation_def

lemma parse_step:
  assumes "node_parse sv st = Inr st'" and "at_node Q_parse st" and "answers_valid sv"
  shows "next_ok cf Q_parse st st'"
  using assms by (auto simp: node_parse_def model_error_def stage_defs fresh_anchors_def answers_validD split: sum.splits)

lemma validated_step:
  assumes "node_validate_requirement st = Inr st'" and "at_node Q_validate st"
  shows "next_ok cf Q_validate st st'"
proof -
  obtain d where d: "qs_draft st = Some d" using assms(2) by (auto simp: drafted_def)
  have "validate_requirement d (nq_zone (qs_request st)) = []" if "\<not> list_ex ri_blocking (validate_requirement d (nq_zone (qs_request st)))"
    using that validation_blocks unfolding list_ex_iff by (metis list.set_intros(1) neq_Nil_conv)
  then show ?thesis using assms d
    by (auto simp: node_validate_requirement_def route_requirement_def stage_defs)
qed

lemma resolve_step:
  assumes "node_resolve_anchors sv st = Inr st'" and "at_node Q_resolve st"
  shows "next_ok cf Q_resolve st st'"
proof -
  obtain d where d: "qs_draft st = Some d" using assms(2) by (auto simp: drafted_def)
  let ?wanted = "filter (\<lambda>r. r \<notin> fst ` set (qs_resolutions st)) (required_anchor_roles d)"
  obtain plan where plan: "build_anchor_search_plan d ?wanted = Inr plan"
    using assms(1) d by (auto simp: node_resolve_anchors_def value_error_def Let_def split: sum.splits)
  have kept: "qs_plan st' = plan" "qs_draft st' = qs_draft st" "qs_resolutions st' = qs_resolutions st" "ready st' = ready st"
    "qs_exhausted st' = qs_exhausted st" "qs_request st' = qs_request st" "same_conversation st st'"
    using assms(1) by (auto simp: node_resolve_anchors_def value_error_def Let_def d plan stage_defs split: if_splits)
  have "set ?wanted = set (required_anchor_roles d) - fst ` set (qs_resolutions st)" by auto
  with d plan have "places_searched st'" unfolding places_searched_def kept by (intro exI [of _ d] exI [of _ ?wanted] conjI)
  then show ?thesis using assms(2) by (simp add: kept drafted_def complete_def)
qed

lemma evaluate_step:
  assumes "node_evaluate_anchors st = Inr st'" and "at_node Q_evaluate st"
  shows "next_ok cf Q_evaluate st st'"
proof -
  obtain new issues where res: "resolve_anchor_search_results (qs_plan st) (qs_results st) = Inr (new, issues)"
    and st': "st' = st\<lparr>qs_resolutions := foldl (\<lambda>m (role, r). AList.update role r m) (qs_resolutions st) new,
               qs_issues := issues, qs_status := ''anchors_evaluated''\<rparr>"
    using assms(1) by (auto simp: node_evaluate_anchors_def value_error_def split: sum.splits)
  obtain d wanted where d: "qs_draft st = Some d" "fresh_anchors d (qs_resolutions st)" "draft_ok d"
    and plan: "build_anchor_search_plan d wanted = Inr (qs_plan st)"
    and wanted: "set wanted = set (required_anchor_roles d) - fst ` set (qs_resolutions st)"
    using assms(2) by (auto simp: drafted_def places_searched_def)
  note facts = plan_facts [OF plan] and ev = evaluated_anchors [OF res]
  have "\<forall>(role, r) \<in> set new. ar_role r = role \<and> (\<exists>name. names_place d role name \<and> anchor_key name = anchor_key (ar_query_name r))"
    using ev(1) facts(1) unfolding resolved_by_def by fastforce
  then have fresh: "fresh_anchors d (qs_resolutions st')" and dom: "fst ` set (qs_resolutions st') = fst ` set (qs_resolutions st) \<union> fst ` set new"
    using fresh_merge [OF d(2)] by (simp_all add: st')
  have all: "set (required_anchor_roles d) \<subseteq> fst ` set (qs_resolutions st')" if "\<not> list_ex ri_blocking issues"
  proof
    fix role assume role: "role \<in> set (required_anchor_roles d)"
    have none: "issues = []" using that ev(2) by (cases issues) auto
    show "role \<in> fst ` set (qs_resolutions st')"
    proof (cases "role \<in> fst ` set (qs_resolutions st)")
      case False
      then have "role \<in> set wanted" using role wanted by auto
      then obtain i where "i \<in> set (qs_plan st)" "role \<in> set (ai_roles i)" using facts(2) role required_iff by blast
      then show ?thesis using ev(3) [OF none] dom by blast
    qed (simp add: dom)
  qed
  have "drafted st'" using fresh d by (simp add: drafted_def st')
  moreover have "complete st'" "ready st'" "\<not> qs_exhausted st'" using assms(2) by (simp_all add: stage_defs st')
  moreover have "same_conversation st st'" by (simp add: same_conversation_def st')
  moreover have "places_resolved st'" if "\<not> list_ex ri_blocking issues" using all [OF that] d(1) by (simp add: places_resolved_def st')
  ultimately show ?thesis by (simp add: route_anchors_def blocked_def st')
qed

lemma request_step:
  assumes "node_request_clarification st = Inr st'" and "at_node Q_request st"
  shows "next_ok cf Q_request st st' \<and> qs_round st' = qs_round st + (if requirement_next cf Q_request st' = Some Q_await then 1 else 0)"
  using assms blocked_asks [of "qs_issues st"]
  by (auto simp: node_request_clarification_def Let_def route_clarification_request_def stage_defs asking_def split: if_splits)

lemma await_step:
  assumes "node_await rv st = Inr (Goes_on st')" and "at_node Q_await st"
  shows "next_ok cf Q_await st st'"
  using assms by (auto simp: node_await_def stage_defs asking_def split: option.splits)

lemma parse_patch_step:
  assumes "node_parse_patch sv st = Inr st'" and "at_node Q_parse_patch st" and "answers_valid sv"
  shows "next_ok cf Q_parse_patch st st'"
  using assms
  by (auto simp: node_parse_patch_def model_error_def stage_defs answers_validD split: option.splits if_splits sum.splits)

lemma apply_patch_step:
  assumes "node_apply_patch st = Inr st'" and "at_node Q_apply_patch st"
  shows "next_ok cf Q_apply_patch st st'"
proof -
  obtain d p where d: "qs_draft st = Some d" "draft_ok d" "fresh_anchors d (qs_resolutions st)" and p: "qs_patch st = Some p" "patch_ok p"
    using assms(2) by (auto simp: drafted_def)
  obtain d' changed rejected where merged: "merge_requirement_patch d p (qs_targets st) = Inr (d', changed, rejected)"
    using assms(1) d p by (auto simp: node_apply_patch_def split: sum.splits)
  have st': "st' = st\<lparr>qs_draft := Some d', qs_changed := changed, qs_rejected := rejected,
                   qs_invalidated := invalidated_anchor_roles changed,
                   qs_resolutions := filter (\<lambda>(role, r). role \<notin> set (invalidated_anchor_roles changed)) (qs_resolutions st),
                   qs_input := None, qs_patch := None,
                   qs_status := (if changed \<noteq> [] then ''patch_applied'' else ''patch_ignored'')\<rparr>"
    using assms(1) d p merged by (simp add: node_apply_patch_def Let_def)
  have "draft_ok d'" using merge_patch_effect [OF d(2) p(2) merged] by blast
  moreover have "fresh_anchors d' (qs_resolutions st')" using fresh_after_patch [OF d(3,2) p(2) merged] by (simp add: st')
  ultimately have "drafted st'" by (simp add: drafted_def st')
  moreover have "ready st'" "\<not> qs_exhausted st'" "blocked st'" "same_conversation st st'"
    using assms(2) by (simp_all add: stage_defs st')
  ultimately show ?thesis by (simp add: route_after_patch_def)
qed

lemma exhausted_step:
  assumes "node_exhausted st = Inr st'" and "at_node Q_exhausted st"
  shows "next_ok cf Q_exhausted st st'"
  using assms by (auto simp: node_exhausted_def stage_defs conversation_over_def)

lemma assemble_step:
  assumes "node_assemble st = Inr st'" and "at_node Q_assemble st"
  shows "next_ok cf Q_assemble st st'"
proof -
  obtain d t where d: "qs_draft st = Some d" and t: "assemble_trip_spec d (qs_resolutions st) (nq_zone (qs_request st)) = Inr t"
    and st': "st' = st\<lparr>qs_trip := Some t, qs_status := ''trip_assembled''\<rparr>"
    using assms by (auto simp: node_assemble_def value_error_def drafted_def split: sum.splits)
  have "ready st'" "\<not> qs_exhausted st'" "drafted st'" "same_conversation st st'" using assms(2) by (simp_all add: stage_defs st')
  moreover have "assembled st'" using d t by (simp add: assembled_def st')
  moreover have "personalised st'" using d t respects_same by (auto simp: personalised_def st')
  ultimately show ?thesis by simp
qed

lemma retrieve_step:
  assumes "node_retrieve ec sv mem st = (mem', Inr st')" and "at_node Q_retrieve st"
  shows "next_ok cf Q_retrieve st st'"
proof -
  obtain d t where d: "qs_draft st = Some d" "assemble_trip_spec d (qs_resolutions st) (nq_zone (qs_request st)) = Inr t"
    and t: "qs_trip st = Some t"
    using assms(2) by (auto simp: assembled_def)
  obtain cx new where new: "apply_to_trip (fst ec) t (Some d) cx = Inr new"
    and st': "st' = st\<lparr>qs_trip := Some new, qs_context := Some cx, qs_personalized := changed_trip_fields new t,
                  qs_status := ''preferences_composed''\<rparr>"
    using assms(1) d t by (auto simp: node_retrieve_def value_error_def split: prod.splits sum.splits)
  have "ready st'" "\<not> qs_exhausted st'" "drafted st'" "same_conversation st st'" using assms(2) by (simp_all add: stage_defs st')
  moreover have "personalised st'" using d apply_respects [OF new] by (auto simp: personalised_def st')
  ultimately show ?thesis by simp
qed

lemma execute_step:
  assumes "node_execute_planning cf sv st = Inr st'" and "at_node Q_execute st"
  shows "next_ok cf Q_execute st st'"
proof -
  obtain t r where t: "qs_trip st = Some t"
    and r: "run_planning (rc_planning cf) (rs_planning sv) \<lparr>rq_trip = t, rq_max_rounds = nq_max_replan (qs_request st)\<rparr> (qs_thread st) = Inr r"
    and st': "st' = st\<lparr>qs_planning := Some r, qs_status := pr_status r, qs_message := map_option From_planning (pr_message r)\<rparr>"
    using assms(1) by (auto simp: node_execute_planning_def split: option.splits sum.splits)
  have "personalised st'" using assms(2) by (simp add: personalised_def st')
  then have "planned cf st'" using t r by (auto simp: planned_def st')
  moreover have "drafted st'" "same_conversation st st'" "0 \<le> qs_round st'" "qs_round st' \<le> qs_max_rounds st'"
    using assms(2) by (simp_all add: stage_defs st')
  ultimately show ?thesis by (simp add: conversation_over_def)
qed

lemma body_step:
  assumes "requirement_body cf sv rv n mem st = (mem', Inr (Goes_on st'))" and "at_node n st" and "answers_valid sv"
  shows "next_ok cf n st st'"
proof (cases n)
  case Q_retrieve
  then obtain ec where "rc_memory cf = Some ec" "node_retrieve ec sv mem st = (mem', Inr st')"
    using assms(1) by (auto simp: proceed_def split: option.splits prod.splits)
  then show ?thesis using assms(2) Q_retrieve retrieve_step by blast
next
  case Q_guard
  then show ?thesis using assms by (auto simp: proceed_def)
qed (use assms in \<open>auto simp: proceed_def stage_defs simp del: at_node.simps requirement_next.simps
       dest: parse_step validated_step resolve_step evaluate_step request_step await_step parse_patch_step apply_patch_step
         exhausted_step assemble_step execute_step\<close>)

end
