(* ===== verification/RequirementRuns.thy ===== *)
theory RequirementRuns
  imports RequirementSafety
begin

text \<open>
  Runs of the requirement graph, threads and conversations: the assertion of the next node holds of
  every stored thread, planning happens only on complete requirements, runs end, and every
  interrupt uses up a round.
\<close>

section \<open>Runs\<close>

lemma await_interrupts:
  assumes "requirement_body cf sv rv n mem st = (mem', Inr (Interrupts p))"
  shows "n = Q_await \<and> rv = None \<and> payload_of st = Inr p"
  using assms
  by (cases n) (auto simp: proceed_def node_await_def split: option.splits prod.splits)

definition run_ok :: "requirement_config \<Rightarrow> requirement_state \<Rightarrow> run_end \<Rightarrow> bool" where
  "run_ok cf st r \<longleftrightarrow> (case r of
       Run_ended st' \<Rightarrow> conversation_over cf st' \<and> same_conversation st st'
     | Run_interrupted st' p \<Rightarrow> at_node Q_await st' \<and> payload_of st' = Inr p \<and> same_conversation st st'
     | Run_failed n' st' e \<Rightarrow> at_node n' st' \<and> same_conversation st st')"

lemma run_ok_trans: "same_conversation st st1 \<Longrightarrow> run_ok cf st1 r \<Longrightarrow> run_ok cf st r"
  by (auto simp: run_ok_def split: run_end.splits intro: same_conversation_trans)

lemma run_keeps:
  assumes "run_requirement k cf svs rv n mem st = (mem', r)" and "at_node n st" and "\<And>k. answers_valid (svs k)"
  shows "run_ok cf st r"
  using assms(1,2)
proof (induction k arbitrary: rv n mem st)
  case 0
  then show ?case by (auto simp: run_ok_def)
next
  case (Suc k)
  obtain mem1 out where body: "requirement_body cf (svs k) rv n mem st = (mem1, out)" by force
  consider (error) e where "out = Inl e" | (interrupt) p where "out = Inr (Interrupts p)" | (on) st1 where "out = Inr (Goes_on st1)"
    by (metis node_end.exhaust sum.exhaust)
  then show ?case
  proof cases
    case error
    then show ?thesis using Suc.prems body by (auto simp: run_ok_def)
  next
    case interrupt
    then show ?thesis using Suc.prems body await_interrupts [OF body [unfolded interrupt]] by (auto simp: run_ok_def)
  next
    case on
    have step: "next_ok cf n st st1" by (rule body_step [OF body [unfolded on] Suc.prems(2) assms(3)])
    show ?thesis
    proof (cases "requirement_next cf n st1")
      case None
      then have "r = Run_ended st1" using Suc.prems(1) body on by simp
      then show ?thesis using step None by (simp add: run_ok_def)
    next
      case (Some n1)
      then have run: "run_requirement k cf svs (if n = Q_await then None else rv) n1 mem1 st1 = (mem', r)"
        using Suc.prems(1) body on by simp
      have "at_node n1 st1" using step Some by simp
      from Suc.IH [OF run this] show ?thesis using step run_ok_trans by blast
    qed
  qed
qed

section \<open>Rounds and termination\<close>

text \<open>The longest way from a node to the end of the run or the next interrupt.\<close>

fun steps_left :: "resume_value option \<Rightarrow> requirement_node \<Rightarrow> nat" where
  "steps_left rv Q_execute = 1"
| "steps_left rv Q_exhausted = 1"
| "steps_left rv Q_retrieve = 2"
| "steps_left rv Q_assemble = 3"
| "steps_left rv Q_request = 2"
| "steps_left rv Q_evaluate = 4"
| "steps_left rv Q_resolve = 5"
| "steps_left rv Q_validate = 6"
| "steps_left rv Q_parse = 7"
| "steps_left rv Q_guard = 8"
| "steps_left rv Q_apply_patch = 7"
| "steps_left rv Q_parse_patch = 8"
| "steps_left rv Q_await = (if rv = None then 1 else 9)"

lemma steps_bounded: "steps_left rv n \<le> 9"
  by (cases n) auto

lemma steps_decrease:
  assumes "requirement_body cf sv rv n mem st = (mem', Inr (Goes_on st'))" and "requirement_next cf n st' = Some n'"
    and "rv = None \<or> n = Q_await"
  shows "steps_left (if n = Q_await then None else rv) n' < steps_left rv n"
  using assms
  by (cases rv; cases n) (auto simp: proceed_def node_await_def route_requirement_def route_anchors_def route_clarification_request_def
      route_after_patch_def split: if_splits option.splits)

lemma no_limit_error:
  "requirement_body cf sv rv n mem st \<noteq> (mem', Inl Requirement_recursion_limit)"
  by (cases n) (auto simp: proceed_def node_parse_def node_validate_requirement_def node_resolve_anchors_def node_evaluate_anchors_def
      node_request_clarification_def node_await_def node_parse_patch_def node_apply_patch_def node_exhausted_def node_assemble_def
      node_retrieve_def node_execute_planning_def model_error_def value_error_def payload_of_def validate_resume_def Let_def
      split: option.splits sum.splits prod.splits if_splits)

lemma run_ends:
  assumes "steps_left rv n \<le> k" and "rv = None \<or> n = Q_await"
  shows "snd (run_requirement k cf svs rv n mem st) \<noteq> Run_failed n' st' Requirement_recursion_limit"
  using assms
proof (induction k arbitrary: rv n mem st)
  case 0
  then show ?case by (cases n) (auto split: if_splits)
next
  case (Suc k)
  obtain mem1 out where body: "requirement_body cf (svs k) rv n mem st = (mem1, out)" by force
  consider (error) e where "out = Inl e" | (interrupt) p where "out = Inr (Interrupts p)" | (on) st1 where "out = Inr (Goes_on st1)"
    by (metis node_end.exhaust sum.exhaust)
  then show ?case
  proof cases
    case error
    then show ?thesis using body no_limit_error by fastforce
  next
    case on
    show ?thesis
    proof (cases "requirement_next cf n st1")
      case (Some n1)
      have less: "steps_left (if n = Q_await then None else rv) n1 < steps_left rv n"
        by (rule steps_decrease [OF body [unfolded on] Some Suc.prems(2)])
      have "snd (run_requirement k cf svs (if n = Q_await then None else rv) n1 mem1 st1) \<noteq> Run_failed n' st' Requirement_recursion_limit"
        using less Suc.prems by (intro Suc.IH) (auto split: if_splits)
      then show ?thesis using body on Some by simp
    qed (use body on in simp)
  qed (use body in simp)
qed

lemma await_after_request: "requirement_next cf n st = Some Q_await \<Longrightarrow> n = Q_request"
  by (cases n) (auto simp: route_requirement_def route_anchors_def route_after_patch_def split: if_splits)

lemma node_rounds:
  "node_parse sv st = Inr st' \<Longrightarrow> qs_round st' = qs_round st"
  "node_validate_requirement st = Inr st' \<Longrightarrow> qs_round st' = qs_round st"
  "node_resolve_anchors sv st = Inr st' \<Longrightarrow> qs_round st' = qs_round st"
  "node_evaluate_anchors st = Inr st' \<Longrightarrow> qs_round st' = qs_round st"
  "node_await rv st = Inr (Goes_on st') \<Longrightarrow> qs_round st' = qs_round st"
  "node_parse_patch sv st = Inr st' \<Longrightarrow> qs_round st' = qs_round st"
  "node_exhausted st = Inr st' \<Longrightarrow> qs_round st' = qs_round st"
  "node_assemble st = Inr st' \<Longrightarrow> qs_round st' = qs_round st"
  "node_execute_planning cf sv st = Inr st' \<Longrightarrow> qs_round st' = qs_round st"
  by (auto simp: node_parse_def node_validate_requirement_def node_resolve_anchors_def node_evaluate_anchors_def
      node_await_def node_parse_patch_def node_exhausted_def node_assemble_def node_execute_planning_def Let_def
      split: option.splits sum.splits if_splits)

lemma apply_patch_round: "node_apply_patch st = Inr st' \<Longrightarrow> qs_round st' = qs_round st"
  unfolding node_apply_patch_def Let_def by (auto split: option.split_asm sum.split_asm)

lemma retrieve_round: "node_retrieve ec sv mem st = (mem', Inr st') \<Longrightarrow> qs_round st' = qs_round st"
  by (auto simp: node_retrieve_def split: option.splits prod.splits)

lemma other_rounds:
  assumes "requirement_body cf sv rv n mem st = (mem', Inr (Goes_on st'))" and "n \<noteq> Q_request"
  shows "qs_round st' = qs_round st"
proof (cases n)
  case Q_retrieve
  then obtain ec where "node_retrieve ec sv mem st = (mem', Inr st')"
    using assms(1) by (auto simp: proceed_def split: option.splits prod.splits)
  then show ?thesis by (rule retrieve_round)
qed (use assms node_rounds apply_patch_round in \<open>auto simp: proceed_def\<close>)

lemma interrupt_uses_round:
  assumes "run_requirement k cf svs rv n mem st = (mem', Run_interrupted st' p)" and "at_node n st" and "\<And>k. answers_valid (svs k)"
    and "rv = None \<or> n = Q_await"
  shows "qs_round st' = qs_round st + (if n = Q_await \<and> rv = None then 0 else 1)"
  using assms(1,2,4)
proof (induction k arbitrary: rv n mem st)
  case (Suc k)
  obtain mem1 out where body: "requirement_body cf (svs k) rv n mem st = (mem1, out)" by force
  show ?case
  proof (cases "\<exists>st1. out = Inr (Goes_on st1)")
    case False
    then obtain q where q: "out = Inr (Interrupts q)"
      using Suc.prems(1) body by (auto split: sum.splits node_end.splits)
    show ?thesis using Suc.prems(1) body q await_interrupts [OF body [unfolded q]] by simp
  next
    case True
    then obtain st1 where on: "out = Inr (Goes_on st1)" by blast
    obtain n1 where n1: "requirement_next cf n st1 = Some n1"
      using Suc.prems(1) body on by (auto split: option.splits)
    let ?rv = "if n = Q_await then None else rv"
    have run: "run_requirement k cf svs ?rv n1 mem1 st1 = (mem', Run_interrupted st' p)"
      using Suc.prems(1) body on n1 by simp
    have step: "next_ok cf n st st1" by (rule body_step [OF body [unfolded on] Suc.prems(2) assms(3)])
    have rv: "?rv = None" using Suc.prems(3) by auto
    have at1: "at_node n1 st1" using step n1 by simp
    have "qs_round st' = qs_round st1 + (if n1 = Q_await \<and> ?rv = None then 0 else 1)"
      by (rule Suc.IH [OF run at1]) (use rv in simp)
    then have ih: "qs_round st' = qs_round st1 + (if n1 = Q_await then 0 else 1)" using rv by simp
    have notfirst: "\<not> (n = Q_await \<and> rv = None)"
      using body on by (auto simp: node_await_def split: option.splits)
    show ?thesis
    proof (cases "n = Q_request")
      case True
      then have "node_request_clarification st = Inr st1" using body on by (simp add: proceed_def)
      then have "qs_round st1 = qs_round st + (if n1 = Q_await then 1 else 0)"
        using request_step [of st st1 cf] Suc.prems(2) True n1 by simp
      moreover have "n1 = Q_await"
      proof (rule ccontr)
        assume "n1 \<noteq> Q_await"
        then have "n1 = Q_exhausted" using n1 True by (auto simp: route_clarification_request_def split: if_splits)
        then show False using run by (cases k) (auto simp: proceed_def node_exhausted_def)
      qed
      ultimately show ?thesis using ih notfirst by simp
    next
      case False
      have "n1 \<noteq> Q_await" "qs_round st1 = qs_round st"
        using other_rounds [OF body [unfolded on] False] await_after_request n1 False by auto
      then show ?thesis using ih notfirst by simp
    qed
  qed
qed simp

section \<open>Threads\<close>

definition natural_ok :: "natural_request \<Rightarrow> bool" where
  "natural_ok r \<longleftrightarrow> 1 \<le> py_len (nq_text r) \<and> py_len (nq_text r) \<le> 4000 \<and> 0 \<le> nq_max_replan r \<and> nq_max_replan r \<le> 5 \<and>
     1 \<le> nq_max_clarification r \<and> nq_max_clarification r \<le> 5"

definition thread_ok :: "requirement_config \<Rightarrow> string \<Rightarrow> thread \<Rightarrow> bool" where
  "thread_ok cf tid th \<longleftrightarrow> qs_thread (th_values th) = tid \<and>
     (case th_next th of
        None \<Rightarrow> conversation_over cf (th_values th) \<and> th_interrupt th = None
      | Some n \<Rightarrow> at_node n (th_values th) \<and>
          (case th_interrupt th of None \<Rightarrow> n \<noteq> Q_await | Some (i, p) \<Rightarrow> n = Q_await \<and> payload_of (th_values th) = Inr p))"

lemma validate_resume_idem: "validate_resume v = Inr w \<Longrightarrow> validate_resume w = Inr w"
proof -
  assume v: "validate_resume v = Inr w"
  have short: "py_len (py_strip s) \<le> py_len s" for s
  proof -
    have suffix: "sublist (strip_prefixes ws n s) s" for ws n and s :: string
      using strip_prefixes_suffix [of s ws n] by (metis sublist_append_leftI)
    have "sublist (rev (strip_prefixes ws n (rev s))) s" for ws n and s :: string
      using suffix [of ws n "rev s"] by (metis rev_rev_ident sublist_rev)
    then show ?thesis unfolding py_strip_def Let_def using suffix sublist_order.order_trans by (intro py_len_sublist) blast
  qed
  show ?thesis using v short [of "rv_interrupt v"] short [of "rv_answer v"]
    by (auto simp: validate_resume_def Let_def Suc_le_eq split: if_splits)
qed

lemma await_goes_on:
  assumes "at_node Q_await st"
  shows "\<exists>p. payload_of st = Inr p"
  using assms by (auto simp: payload_of_def asking_def ready_def blocked_def)

lemma fails_elsewhere:
  assumes "run_requirement k cf svs rv n mem st = (mem', Run_failed n' st' e)" and "at_node n st" and "\<And>k. answers_valid (svs k)"
    and "rv = None \<or> n = Q_await" and "\<And>v. rv = Some v \<Longrightarrow> validate_resume v = Inr v" and "steps_left rv n \<le> k"
  shows "n' \<noteq> Q_await"
  using assms(1,2,4-)
proof (induction k arbitrary: rv n mem st)
  case 0
  then show ?case by (cases n) (auto split: if_splits)
next
  case (Suc k)
  obtain mem1 out where body: "requirement_body cf (svs k) rv n mem st = (mem1, out)" by force
  consider (error) e where "out = Inl e" | (interrupt) p where "out = Inr (Interrupts p)" | (on) st1 where "out = Inr (Goes_on st1)"
    by (metis node_end.exhaust sum.exhaust)
  then show ?case
  proof cases
    case error
    have "n \<noteq> Q_await"
    proof
      assume n: "n = Q_await"
      then obtain p where p: "payload_of st = Inr p" using await_goes_on Suc.prems(2) by blast
      show False using body error n p Suc.prems(4) by (cases rv) (auto simp: node_await_def)
    qed
    then show ?thesis using Suc.prems(1) body error by simp
  next
    case interrupt
    then show ?thesis using Suc.prems(1) body by simp
  next
    case on
    have step: "next_ok cf n st st1" by (rule body_step [OF body [unfolded on] Suc.prems(2) assms(3)])
    obtain n1 where n1: "requirement_next cf n st1 = Some n1"
      using Suc.prems(1) body on by (auto split: option.splits)
    let ?rv = "if n = Q_await then None else rv"
    have run: "run_requirement k cf svs ?rv n1 mem1 st1 = (mem', Run_failed n' st' e)"
      using Suc.prems(1) body on n1 by simp
    have less: "steps_left ?rv n1 < steps_left rv n" by (rule steps_decrease [OF body [unfolded on] n1 Suc.prems(3)])
    have rv: "?rv = None" using Suc.prems(3) by auto
    show ?thesis
      by (rule Suc.IH [OF run]) (use step n1 rv less Suc.prems(5) in auto)
  qed
qed

lemma invoked_thread:
  assumes "run_requirement requirement_recursion_limit cf svs rv n mem st = (mem', r)" and "at_node n st"
    and "\<And>k. answers_valid (svs k)" and "rv = None \<or> n = Q_await" and "\<And>v. rv = Some v \<Longrightarrow> validate_resume v = Inr v"
  shows "thread_ok cf (qs_thread st) (thread_after fresh r) \<and> same_conversation st (th_values (thread_after fresh r))"
proof -
  have ok: "run_ok cf st r" by (rule run_keeps [OF assms(1-3)])
  have "steps_left rv n \<le> requirement_recursion_limit" using steps_bounded [of rv n] by (simp add: requirement_recursion_limit_def)
  then have "\<And>n' st' e. r = Run_failed n' st' e \<Longrightarrow> n' \<noteq> Q_await"
    using fails_elsewhere [of _ cf svs rv n mem st mem'] assms by blast
  then show ?thesis using ok
    by (cases r) (auto simp: run_ok_def thread_after_def thread_ok_def same_conversation_def)
qed

section \<open>Conversations\<close>

definition conversations_ok :: "requirement_config \<Rightarrow> conversations \<Rightarrow> bool" where
  "conversations_ok cf cv \<longleftrightarrow> (\<forall>(tid, th) \<in> set (cv_threads cv). thread_ok cf tid th)"

text \<open>What happens to the conversations: a new request, an answer, or a call of the preference service.\<close>

inductive conversation_step :: "requirement_config \<Rightarrow> conversations \<Rightarrow> conversations \<Rightarrow> bool" for cf where
  request_step': "run_natural_planning cf svs fresh r tid tenant user cv = (cv', res) \<Longrightarrow> natural_ok r \<Longrightarrow>
     (\<And>k. answers_valid (svs k)) \<Longrightarrow> conversation_step cf cv cv'"
| answer_step: "resume_natural_planning cf svs fresh v tid tenant user cv = (cv', res) \<Longrightarrow>
     (\<And>k. answers_valid (svs k)) \<Longrightarrow> conversation_step cf cv cv'"
| preference_step: "memory_step env own (cv_memory cv) mem \<Longrightarrow> conversation_step cf cv (cv\<lparr>cv_memory := mem\<rparr>)"

definition reachable_conversations :: "requirement_config \<Rightarrow> conversations \<Rightarrow> bool" where
  "reachable_conversations cf cv \<longleftrightarrow> (\<exists>mem. (conversation_step cf)\<^sup>*\<^sup>* \<lparr>cv_threads = [], cv_memory = mem\<rparr> cv)"

lemma put_thread_ok:
  "conversations_ok cf cv \<Longrightarrow> thread_ok cf tid th \<Longrightarrow> conversations_ok cf (cv\<lparr>cv_threads := AList.update tid th (cv_threads cv), cv_memory := mem\<rparr>)"
  unfolding conversations_ok_def using ball_update [of "cv_threads cv" "\<lambda>(tid, th). thread_ok cf tid th" tid th] by simp

lemma invoke_ok:
  assumes "invoke_thread cf svs fresh tid rv n st cv = (cv', res)" and "conversations_ok cf cv" and "at_node n st"
    and "qs_thread st = tid" and "\<And>k. answers_valid (svs k)" and "rv = None \<or> n = Q_await"
    and "\<And>v. rv = Some v \<Longrightarrow> validate_resume v = Inr v"
  shows "conversations_ok cf cv'"
proof -
  obtain mem r where run: "run_requirement requirement_recursion_limit cf svs rv n (cv_memory cv) st = (mem, r)" by force
  have "thread_ok cf tid (thread_after fresh r)"
    using invoked_thread [OF run assms(3,5,6,7)] assms(4) by auto
  moreover have "cv' = cv\<lparr>cv_threads := AList.update tid (thread_after fresh r) (cv_threads cv), cv_memory := mem\<rparr>"
    using assms(1) run by (simp add: invoke_thread_def)
  ultimately show ?thesis using put_thread_ok assms(2) by simp
qed

text \<open>An answer reaches a thread in one of two ways: it is the one awaited, or repeats one that failed.\<close>

lemma resume_cases:
  assumes "resume_natural_planning cf svs fresh v tid tenant user cv = (cv', res)"
  obtains (refused) e where "cv' = cv" "res = Inl e" "e \<noteq> Requirement_recursion_limit"
    | (awaited) th p w where "map_of (cv_threads cv) tid = Some th" "th_interrupt th = Some (rv_interrupt v, p)" "validate_resume v = Inr w"
        "tenant \<noteq> None \<Longrightarrow> tenant = Some (qs_tenant (th_values th))" "user \<noteq> None \<Longrightarrow> user = Some (qs_user (th_values th))"
        "invoke_thread cf svs fresh tid (Some w) Q_await (th_values th) cv = (cv', res)"
    | (retried) th n where "map_of (cv_threads cv) tid = Some th" "th_interrupt th = None" "th_next th = Some n"
        "qs_input (th_values th) = Some v"
        "tenant \<noteq> None \<Longrightarrow> tenant = Some (qs_tenant (th_values th))" "user \<noteq> None \<Longrightarrow> user = Some (qs_user (th_values th))"
        "invoke_thread cf svs fresh tid None n (th_values th) cv = (cv', res)"
proof (cases "map_of (cv_threads cv) tid")
  case None
  then have "cv' = cv" "res = Inl (Thread_not_found tid)" using assms by (simp_all add: resume_natural_planning_def)
  then show thesis using refused by blast
next
  case (Some th)
  show thesis
  proof (cases "(tenant \<noteq> None \<longrightarrow> tenant = Some (qs_tenant (th_values th))) \<and> (user \<noteq> None \<longrightarrow> user = Some (qs_user (th_values th)))")
    case False
    then have "cv' = cv \<and> res = Inl (Thread_not_found tid)" using assms Some by (auto simp: resume_natural_planning_def split: if_splits)
    then show thesis using refused by blast
  next
    case owned: True
    show thesis
    proof (cases "th_interrupt th")
      case None
      have "(cv' = cv \<and> res = Inl (Resume_conflict tid ''clarification_resume_conflict'')) \<or>
          (\<exists>n. th_next th = Some n \<and> qs_input (th_values th) = Some v \<and> invoke_thread cf svs fresh tid None n (th_values th) cv = (cv', res))"
        using assms Some owned None
        by (auto simp: resume_natural_planning_def retries_failed_resume_def split: if_splits option.splits)
      then show thesis using refused retried [OF Some None] owned by blast
    next
      case (Some ip)
      obtain i p where ip: "ip = (i, p)" by force
      have "(cv' = cv \<and> res = Inl (Resume_conflict tid ''stale_interrupt'')) \<or> (\<exists>e. validate_resume v = Inl e \<and> cv' = cv \<and> res = Inl e) \<or>
          (i = rv_interrupt v \<and> (\<exists>w. validate_resume v = Inr w \<and> invoke_thread cf svs fresh tid (Some w) Q_await (th_values th) cv = (cv', res)))"
        using assms \<open>map_of (cv_threads cv) tid = Some th\<close> owned Some ip
        by (auto simp: resume_natural_planning_def split: if_splits sum.splits)
      moreover have "validate_resume v \<noteq> Inl Requirement_recursion_limit" by (auto simp: validate_resume_def Let_def)
      ultimately show thesis
        using refused awaited [OF \<open>map_of (cv_threads cv) tid = Some th\<close> _ _ _ _] owned Some ip by (metis requirement_error.distinct)
    qed
  qed
qed

end
