(* ===== verification/RequirementProperties.thy ===== *)
theory RequirementProperties
  imports RequirementRuns PlanningSafety
begin

text \<open>
  The properties of the requirement graph: planning only on complete requirements, anchors that stay
  fresh, conversations that end, and answers accepted only from the user who was asked.
\<close>

section \<open>The invariant of all conversations\<close>

lemma start_ok: "natural_ok r \<Longrightarrow> at_node Q_guard (initial_requirement_state r tid tenant user)"
  by (simp add: initial_requirement_state_def ready_def natural_ok_def)

lemma stored_thread: "conversations_ok cf cv \<Longrightarrow> map_of (cv_threads cv) tid = Some th \<Longrightarrow> thread_ok cf tid th"
  using map_of_SomeD by (fastforce simp: conversations_ok_def)

lemma conversation_step_ok: "conversation_step cf cv cv' \<Longrightarrow> conversations_ok cf cv \<Longrightarrow> conversations_ok cf cv'"
proof (induction rule: conversation_step.induct)
  case (request_step' svs fresh r tid tenant user cv cv' res)
  then show ?case
    using invoke_ok [of cf svs fresh tid None Q_guard "initial_requirement_state r tid tenant user" cv cv' res] start_ok
    by (simp add: run_natural_planning_def initial_requirement_state_def)
next
  case (answer_step svs fresh v tid tenant user cv cv' res)
  show ?case using answer_step(1)
  proof (cases rule: resume_cases)
    case (awaited th p w)
    have "thread_ok cf tid th" by (rule stored_thread [OF answer_step(3) awaited(1)])
    then have "at_node Q_await (th_values th)" "qs_thread (th_values th) = tid"
      using awaited(2) by (auto simp: thread_ok_def split: option.splits)
    then show ?thesis
      using invoke_ok [OF awaited(6) answer_step(3)] answer_step(2) validate_resume_idem [OF awaited(3)] by simp
  next
    case (retried th n)
    have "thread_ok cf tid th" by (rule stored_thread [OF answer_step(3) retried(1)])
    then have "at_node n (th_values th)" "qs_thread (th_values th) = tid"
      using retried(2,3) by (auto simp: thread_ok_def)
    then show ?thesis using invoke_ok [OF retried(7) answer_step(3)] answer_step(2) by simp
  qed (simp add: answer_step(3))
qed (simp add: conversations_ok_def)

lemma reachable_ok: "reachable_conversations cf cv \<Longrightarrow> conversations_ok cf cv"
proof -
  have run: "(conversation_step cf)\<^sup>*\<^sup>* a b \<Longrightarrow> conversations_ok cf a \<Longrightarrow> conversations_ok cf b" for a b
    by (induction rule: rtranclp_induct) (auto dest: conversation_step_ok)
  assume "reachable_conversations cf cv"
  then obtain mem where "(conversation_step cf)\<^sup>*\<^sup>* \<lparr>cv_threads = [], cv_memory = mem\<rparr> cv"
    by (auto simp: reachable_conversations_def)
  moreover have "conversations_ok cf \<lparr>cv_threads = [], cv_memory = mem\<rparr>" by (simp add: conversations_ok_def)
  ultimately show "conversations_ok cf cv" by (rule run)
qed

lemma thread_planning:
  assumes "thread_ok cf tid th" and "qs_planning (th_values th) = Some r"
  shows "planned cf (th_values th) \<and> drafted (th_values th)"
proof (cases "th_next th")
  case None
  then show ?thesis using assms by (auto simp: thread_ok_def conversation_over_def)
next
  case (Some n)
  then have "at_node n (th_values th)" using assms(1) by (simp add: thread_ok_def)
  then have "qs_planning (th_values th) = None" by (cases n) (auto simp: ready_def)
  then show ?thesis using assms(2) by simp
qed

lemma assembled_trip:
  assumes "assemble_trip_spec d rs zone = Inr t" and "draft_ok d"
  shows "validate_requirement d zone = [] \<and> trip_ok t \<and> rd_destination d = Some (destination t) \<and> rd_start_date d = Some (start_date t) \<and>
     rd_end_date d = Some (end_date t) \<and> must_visit t = rd_must_visit d"
proof -
  obtain t1 where t1: "construct_trip t1 = Inr t" and facts: "validate_requirement d zone = []" "rd_destination d = Some (destination t1)"
      "rd_start_date d = Some (start_date t1)" "rd_end_date d = Some (end_date t1)" "must_visit t1 = rd_must_visit d"
    using assms(1) by (auto simp: assemble_trip_spec_def split: if_splits option.splits)
  let ?t = "t1\<lparr>interests := normalize_preference_terms (interests t1), avoid := normalize_preference_terms (avoid t1),
                 must_visit := normalize_preference_terms (must_visit t1)\<rparr>"
  have fields: "trip_fields_ok t1" and valid: "validate_trip_dates ?t = Inr t"
    using t1 by (auto simp: construct_trip_def Let_def split: if_splits)
  have t: "t = ?t" using valid by (auto simp: validate_trip_dates_def split: if_splits)
  have "length (normalize_preference_terms xs) \<le> length xs" for xs
    unfolding normalize_preference_terms_def by (induction xs) auto
  then have "length (normalize_preference_terms xs) \<le> 100" if "length xs \<le> 100" for xs using that le_trans by blast
  then have "trip_fields_ok t" using fields unfolding t by (simp add: trip_fields_ok_def)
  moreover have "must_visit t = rd_must_visit d"
    using facts(5) assms(2) terms_kept unfolding t draft_ok_iff normalize_draft_fixed by auto
  ultimately show ?thesis using facts valid t by (simp add: trip_ok_def)
qed

lemma same_fields:
  "destination (t\<lparr>trip_pace := p, mobility := m, interests := i, avoid := a\<rparr>) = destination t"
  "start_date (t\<lparr>trip_pace := p, mobility := m, interests := i, avoid := a\<rparr>) = start_date t"
  "end_date (t\<lparr>trip_pace := p, mobility := m, interests := i, avoid := a\<rparr>) = end_date t"
  "must_visit (t\<lparr>trip_pace := p, mobility := m, interests := i, avoid := a\<rparr>) = must_visit t"
  by simp_all

section \<open>A conversation that is planned\<close>

definition station_draft :: requirement_draft where
  "station_draft = \<lparr>rd_destination = Some ''Hangzhou'', rd_start_date = Some 739891, rd_end_date = Some 739893,
     rd_travelers = Some 2, rd_arrival = Some \<lparr>an_name = Some ''East Station'', an_at = Some (Aware (at_time 739891 10 30))\<rparr>,
     rd_departure = Some \<lparr>an_name = Some ''East Station'', an_at = Some (Aware (at_time 739893 19 0))\<rparr>,
     rd_accommodation = None, rd_budget = Some 500, rd_interests = [''nature''], rd_avoid = [], rd_must_visit = [''L''],
     rd_pace = None, rd_mobility = None, rd_daily_start = None, rd_daily_end = None\<rparr>"

definition station_summary :: llm_summary where
  "station_summary = \<lparr>ls_provider = ''mock'', ls_model = ''mock'', ls_prompt_version = ''v1'', ls_operation = Initial_parse,
     ls_attempts = 1, ls_elapsed_ms = 1, ls_input_tokens = None, ls_output_tokens = None\<rparr>"

definition station_services :: requirement_services where
  "station_services = \<lparr>rs_parse = (\<lambda>r t. Inr (station_draft, station_summary)), rs_parse_patch = (\<lambda>x t. Inl ''offline''),
     rs_search = map (\<lambda>q. tool_success [sample_facts ''s1'' (q_keyword q)] ''mock'' None None False 1 None),
     rs_planning = (\<lambda>k. empty_handed), rs_now = at_time 739890 8 0\<rparr>"

definition station_config :: requirement_config where
  "station_config = \<lparr>rc_planning = plain_planning, rc_memory = None\<rparr>"

definition station_request :: natural_request where
  "station_request = \<lparr>nq_text = ''three days in Hangzhou'', nq_reference_date = 739890, nq_zone = 8 * 60 * minute,
     nq_max_replan = 2, nq_max_clarification = 3\<rparr>"

abbreviation station_thread :: string where
  "station_thread \<equiv> ''planning:1''"

lemma station_draft_ok: "draft_ok station_draft"
  by code_simp

lemma station_valid: "answers_valid station_services"
  by (simp add: answers_valid_def station_services_def station_draft_ok)

definition station_intent :: anchor_intent where
  "station_intent = \<lparr>ai_roles = [''arrival'', ''departure''],
     ai_query = \<lparr>q_city = ''Hangzhou'', q_keyword = ''East Station'', q_exact_match = True, q_limit = 5, q_priority = 200\<rparr>\<rparr>"

lemma station_plan:
  "required_anchor_roles station_draft = [''arrival'', ''departure'']"
  "build_anchor_search_plan station_draft [''arrival'', ''departure''] = Inr [station_intent]"
  "validate_requirement station_draft (8 * 60 * minute) = []"
  by (code_simp, code_simp, code_simp)

definition station_anchor :: "string \<Rightarrow> anchor_resolution" where
  "station_anchor role = resolution_of role ''East Station'' (sample_facts ''s1'' ''East Station'')"

lemma station_match: "matching_facts ''East Station'' [sample_facts ''s1'' ''East Station''] = [sample_facts ''s1'' ''East Station'']"
  by (simp add: matching_facts_def Let_def sample_facts_def)

lemma station_resolved:
  "resolve_anchor_search_results [station_intent] [tool_success [sample_facts ''s1'' ''East Station''] ''mock'' None None False 1 None]
     = Inr ([(''arrival'', station_anchor ''arrival''), (''departure'', station_anchor ''departure'')], [])"
  by (simp add: resolve_anchor_search_results_def resolve_result_def resolve_intent_def station_intent_def tool_success_def
      station_match station_anchor_def Let_def)

lemma station_trip:
  "assemble_trip_spec station_draft [(''arrival'', station_anchor ''arrival''), (''departure'', station_anchor ''departure'')]
     (8 * 60 * minute) = Inr sample_trip"
  by code_simp

definition station_state :: requirement_state where
  "station_state = initial_requirement_state station_request station_thread ''t'' ''me''"

lemma station_run:
  "\<exists>st. run_requirement requirement_recursion_limit station_config (\<lambda>k. station_services) None Q_guard mem station_state
       = (mem, Run_ended st) \<and> qs_planning st \<noteq> None \<and> qs_draft st = Some station_draft \<and>
         qs_resolutions st = [(''arrival'', station_anchor ''arrival''), (''departure'', station_anchor ''departure'')]"
proof -
  obtain ps where ps: "run_workflow plain_planning (\<lambda>k. empty_handed) empty_request station_thread = Inr ps"
    using run_without_places by blast
  have planning: "run_planning plain_planning (\<lambda>k. empty_handed) \<lparr>rq_trip = sample_trip, rq_max_rounds = 2\<rparr> station_thread = Inr (response_from_state ps)"
    using ps by (simp add: run_planning_def empty_request_def)
  let ?rs = "[tool_success [sample_facts ''s1'' ''East Station''] ''mock'' None None False 1 None]"
  let ?res = "[(''arrival'', station_anchor ''arrival''), (''departure'', station_anchor ''departure'')]"
  obtain st1 where st1: "st1 = station_state\<lparr>qs_draft := Some station_draft, qs_llm := [station_summary], qs_status := ''parsed''\<rparr>" by blast
  obtain st2 where st2: "st2 = st1\<lparr>qs_issues := [], qs_questions := [], qs_targets := [], qs_status := ''validated''\<rparr>" by blast
  obtain st3 where st3: "st3 = st2\<lparr>qs_plan := [station_intent], qs_results := ?rs, qs_reused := [], qs_tools := map anchor_summary ?rs,
      qs_status := ''anchors_loaded''\<rparr>" by blast
  obtain st4 where st4: "st4 = st3\<lparr>qs_resolutions := ?res, qs_issues := [], qs_status := ''anchors_evaluated''\<rparr>" by blast
  obtain st5 where st5: "st5 = st4\<lparr>qs_trip := Some sample_trip, qs_status := ''trip_assembled''\<rparr>" by blast
  obtain st6 where st6: "st6 = st5\<lparr>qs_planning := Some (response_from_state ps), qs_status := pr_status (response_from_state ps),
      qs_message := map_option From_planning (pr_message (response_from_state ps))\<rparr>" by blast
  have request: "nq_zone (qs_request station_state) = 8 * 60 * minute" "nq_max_replan (qs_request station_state) = 2"
      "qs_thread station_state = station_thread" "qs_llm station_state = []" "qs_resolutions station_state = []" "qs_tools station_state = []"
    by (simp_all add: station_state_def station_request_def initial_requirement_state_def)
  have "node_parse station_services station_state = Inr st1"
    by (simp add: node_parse_def station_services_def model_error_def request st1)
  moreover have "node_validate_requirement st1 = Inr st2"
    by (simp add: node_validate_requirement_def station_plan(3) [simplified] request st1 st2)
  moreover have "node_resolve_anchors station_services st2 = Inr st3"
    by (simp add: node_resolve_anchors_def station_plan(1,2) request value_error_def Let_def station_services_def station_intent_def
        tool_success_def st1 st2 st3)
  moreover have "node_evaluate_anchors st3 = Inr st4"
    by (simp add: node_evaluate_anchors_def station_resolved value_error_def request st1 st2 st3 st4)
  moreover have "node_assemble st4 = Inr st5"
    by (simp add: node_assemble_def station_trip [simplified] value_error_def request st1 st2 st3 st4 st5)
  moreover have "node_execute_planning station_config station_services st5 = Inr st6"
    by (simp add: node_execute_planning_def station_config_def station_services_def planning request st1 st2 st3 st4 st5 st6)
  moreover have "route_requirement st2 = Q_resolve" "route_anchors st4 = Q_assemble" "rc_memory station_config = None"
    by (simp_all add: route_requirement_def route_anchors_def st2 st4 station_config_def)
  moreover obtain k where k: "requirement_recursion_limit = Suc (Suc (Suc (Suc (Suc (Suc (Suc k))))))"
  proof -
    have "requirement_recursion_limit = Suc (Suc (Suc (Suc (Suc (Suc (Suc 43))))))" by (simp add: requirement_recursion_limit_def)
    then show thesis by (rule that)
  qed
  ultimately have "run_requirement requirement_recursion_limit station_config (\<lambda>k. station_services) None Q_guard mem station_state
      = (mem, Run_ended st6)"
    by (simp add: proceed_def k)
  moreover have "qs_planning st6 \<noteq> None \<and> qs_draft st6 = Some station_draft \<and> qs_resolutions st6 = ?res"
    by (simp add: st1 st2 st3 st4 st5 st6)
  ultimately show ?thesis by blast
qed

lemma station_conversation:
  "\<exists>cv th. reachable_conversations station_config cv \<and> map_of (cv_threads cv) station_thread = Some th \<and>
     qs_planning (th_values th) \<noteq> None \<and> qs_draft (th_values th) = Some station_draft \<and>
     qs_resolutions (th_values th) = [(''arrival'', station_anchor ''arrival''), (''departure'', station_anchor ''departure'')]"
proof -
  obtain st where run: "run_requirement requirement_recursion_limit station_config (\<lambda>k. station_services) None Q_guard empty_service station_state
       = (empty_service, Run_ended st)" and st: "qs_planning st \<noteq> None" "qs_draft st = Some station_draft"
         "qs_resolutions st = [(''arrival'', station_anchor ''arrival''), (''departure'', station_anchor ''departure'')]"
    using station_run by blast
  let ?none = "\<lparr>cv_threads = [], cv_memory = empty_service\<rparr>"
  let ?th = "\<lparr>th_values = st, th_next = None, th_interrupt = None\<rparr>"
  let ?cv = "\<lparr>cv_threads = [(station_thread, ?th)], cv_memory = empty_service\<rparr>"
  obtain res where call: "run_natural_planning station_config (\<lambda>k. station_services) ''i1'' station_request station_thread ''t'' ''me'' ?none = (?cv, res)"
    using run by (simp add: run_natural_planning_def invoke_thread_def station_state_def [symmetric] thread_after_def)
  have "natural_ok station_request" by code_simp
  then have "conversation_step station_config ?none ?cv" by (rule request_step' [OF call _ station_valid])
  from r_into_rtranclp [of "conversation_step station_config", OF this]
  have "reachable_conversations station_config ?cv" unfolding reachable_conversations_def by blast
  then show ?thesis using st by (intro exI [of _ ?cv] exI [of _ ?th]) simp
qed

text \<open>
  C5. Planning happens only on complete requirements. Whatever requests, answers and preference
  calls came before, a thread with a planning result has a valid draft without any issue; the draft
  assembles to a valid trip of the user's destination, dates and must-visit places; the trip planned
  differs from it only as the preferences may, and the result is what the planner returned for it.
\<close>

theorem planning_only_on_complete_requests:
  assumes "reachable_conversations cf cv" and "map_of (cv_threads cv) tid = Some th" and "qs_planning (th_values th) = Some r"
  shows "\<exists>d t0 t gws. qs_draft (th_values th) = Some d \<and> draft_ok d \<and>
     validate_requirement d (nq_zone (qs_request (th_values th))) = [] \<and>
     assemble_trip_spec d (qs_resolutions (th_values th)) (nq_zone (qs_request (th_values th))) = Inr t0 \<and> trip_ok t0 \<and>
     rd_destination d = Some (destination t) \<and> rd_start_date d = Some (start_date t) \<and> rd_end_date d = Some (end_date t) \<and>
     must_visit t = rd_must_visit d \<and> qs_trip (th_values th) = Some t \<and> respects_request (Some d) t0 t \<and>
     run_planning (rc_planning cf) gws \<lparr>rq_trip = t, rq_max_rounds = nq_max_replan (qs_request (th_values th))\<rparr> tid = Inr r"
proof -
  let ?st = "th_values th"
  have ok: "thread_ok cf tid th" using reachable_ok [OF assms(1)] assms(2) by (rule stored_thread)
  then have tid: "qs_thread ?st = tid" by (simp add: thread_ok_def)
  have "planned cf ?st \<and> drafted ?st" by (rule thread_planning [OF ok assms(3)])
  then obtain d d' t0 t gws where d: "qs_draft ?st = Some d" "draft_ok d" and d': "qs_draft ?st = Some d'"
    and t0: "assemble_trip_spec d' (qs_resolutions ?st) (nq_zone (qs_request ?st)) = Inr t0"
    and t: "qs_trip ?st = Some t" "respects_request (Some d') t0 t"
    and r: "run_planning (rc_planning cf) gws \<lparr>rq_trip = t, rq_max_rounds = nq_max_replan (qs_request ?st)\<rparr> tid = Inr r"
    using assms(3) tid by (auto simp: planned_def personalised_def drafted_def)
  have "t\<lparr>trip_pace := trip_pace t0, mobility := mobility t0, interests := interests t0, avoid := avoid t0\<rparr> = t0"
    using t(2) by (simp add: respects_request_def)
  then have "destination t = destination t0 \<and> start_date t = start_date t0 \<and> end_date t = end_date t0 \<and> must_visit t = must_visit t0"
    using same_fields [where t = t] by metis
  then show ?thesis using d d' t0 t r assembled_trip [OF t0] by auto
qed

theorem planning_only_on_complete_requests_witness:
  "\<exists>(cv :: conversations) th r t gws. map_of (cv_threads cv) station_thread = Some th \<and> qs_planning (th_values th) = Some r \<and>
     qs_trip (th_values th) = Some t \<and> must_visit t = [''L''] \<and>
     run_planning plain_planning gws \<lparr>rq_trip = t, rq_max_rounds = nq_max_replan (qs_request (th_values th))\<rparr> station_thread = Inr r"
proof -
  obtain cv th where cv: "reachable_conversations station_config cv" "map_of (cv_threads cv) station_thread = Some th"
     "qs_planning (th_values th) \<noteq> None" "qs_draft (th_values th) = Some station_draft"
    using station_conversation by blast
  then obtain r where r: "qs_planning (th_values th) = Some r" by blast
  obtain t gws where "qs_trip (th_values th) = Some t" "must_visit t = rd_must_visit station_draft"
    "run_planning plain_planning gws \<lparr>rq_trip = t, rq_max_rounds = nq_max_replan (qs_request (th_values th))\<rparr> station_thread = Inr r"
    using planning_only_on_complete_requests [OF cv(1,2) r] cv(4) by (auto simp: station_config_def)
  moreover have "rd_must_visit station_draft = [''L'']" by (simp add: station_draft_def)
  ultimately have "map_of (cv_threads cv) station_thread = Some th \<and> qs_planning (th_values th) = Some r \<and>
     qs_trip (th_values th) = Some t \<and> must_visit t = [''L''] \<and>
     run_planning plain_planning gws \<lparr>rq_trip = t, rq_max_rounds = nq_max_replan (qs_request (th_values th))\<rparr> station_thread = Inr r"
    using cv(2) r by simp
  then show ?thesis by blast
qed

text \<open>
  C9. Resolved places never go stale. In every thread that can be reached, each stored resolution is of
  its role and was searched for under the name the current draft gives that place: a patch that
  changes the name of a place, or the destination, drops the resolutions it invalidates.
\<close>

theorem resolved_places_stay_fresh:
  assumes "reachable_conversations cf cv" and "map_of (cv_threads cv) tid = Some th"
    and "qs_draft (th_values th) = Some d" and "map_of (qs_resolutions (th_values th)) role = Some r"
  shows "ar_role r = role \<and> (\<exists>name. map_of (anchor_candidates d) role = Some (Some name) \<and> anchor_key name = anchor_key (ar_query_name r))"
proof -
  have ok: "thread_ok cf tid th" using reachable_ok [OF assms(1)] assms(2) by (rule stored_thread)
  have "drafted (th_values th)"
  proof (cases "th_next th")
    case None
    then show ?thesis using ok by (simp add: thread_ok_def conversation_over_def)
  next
    case (Some n)
    then show ?thesis using ok assms(3) by (cases n) (auto simp: thread_ok_def)
  qed
  then show ?thesis using assms(3) map_of_SomeD [OF assms(4)] by (auto simp: drafted_def fresh_anchors_def names_place_def)
qed

theorem resolved_places_stay_fresh_witness:
  "\<exists>(cv :: conversations) th r. map_of (cv_threads cv) station_thread = Some th \<and> map_of (qs_resolutions (th_values th)) ''arrival'' = Some r \<and>
     ar_role r = ''arrival'' \<and> (\<exists>name. map_of (anchor_candidates station_draft) ''arrival'' = Some (Some name) \<and> anchor_key name = anchor_key (ar_query_name r))"
proof -
  obtain cv th where cv: "reachable_conversations station_config cv" "map_of (cv_threads cv) station_thread = Some th"
     "qs_draft (th_values th) = Some station_draft"
     "qs_resolutions (th_values th) = [(''arrival'', station_anchor ''arrival''), (''departure'', station_anchor ''departure'')]"
    using station_conversation by blast
  then have r: "map_of (qs_resolutions (th_values th)) ''arrival'' = Some (station_anchor ''arrival'')" by simp
  from resolved_places_stay_fresh [OF cv(1-3) r] cv(2) r show ?thesis by (metis (no_types, lifting))
qed

section \<open>A conversation that keeps asking\<close>

definition vague_draft :: requirement_draft where
  "vague_draft = station_draft\<lparr>rd_destination := None\<rparr>"

definition no_answer :: requirement_patch where
  "no_answer = \<lparr>pt_destination = None, pt_start_date = None, pt_end_date = None, pt_travelers = None, pt_arrival = None,
     pt_departure = None, pt_accommodation = None, pt_budget = None, pt_interests = None, pt_avoid = None, pt_must_visit = None,
     pt_pace = None, pt_mobility = None, pt_daily_start = None, pt_daily_end = None\<rparr>"

definition vague_services :: requirement_services where
  "vague_services = station_services\<lparr>rs_parse := (\<lambda>r t. Inr (vague_draft, station_summary)),
     rs_parse_patch := (\<lambda>x t. Inr (no_answer, station_summary))\<rparr>"

lemma vague_draft_ok: "draft_ok vague_draft"
  by code_simp

lemma vague_valid: "answers_valid vague_services"
  by (simp add: answers_valid_def vague_services_def vague_draft_ok) (simp add: patch_ok_def no_answer_def normalize_patch_def normalize_optional_text_def normalize_anchor_def)

lemma vague_blocks: "list_ex ri_blocking (validate_requirement vague_draft (8 * 60 * minute))"
  by code_simp

lemma no_answer_ignored: "merge_requirement_patch vague_draft no_answer targets = Inr (vague_draft, [], [])"
proof -
  have vals: "non_null_patch_values no_answer = []"
    by (simp add: non_null_patch_values_def no_answer_def some_field_def anchor_values_def)
  have "merge_loop vague_draft [] names (vague_draft, []) = (vague_draft, [])" for names
    by (induction names) (simp_all add: value_named_def)
  then show ?thesis using vague_draft_ok by (simp add: merge_requirement_patch_def vals draft_ok_def)
qed

definition asked_state :: requirement_state where
  "asked_state = (initial_requirement_state station_request ''q'' ''t'' ''me'')
     \<lparr>qs_draft := Some vague_draft, qs_llm := [station_summary], qs_issues := validate_requirement vague_draft (8 * 60 * minute),
      qs_questions := first_unique (map issue_question (filter ri_blocking (validate_requirement vague_draft (8 * 60 * minute)))),
      qs_targets := clarification_target_fields (validate_requirement vague_draft (8 * 60 * minute)), qs_round := 1,
      qs_status := ''needs_clarification'', qs_message := Some Need_clarification\<rparr>"

definition asked_payload :: interrupt_payload where
  "asked_payload = \<lparr>ip_round = 1, ip_max = 3, ip_targets = qs_targets asked_state, ip_issues = qs_issues asked_state,
     ip_questions = qs_questions asked_state\<rparr>"

definition asked_conversations :: conversations where
  "asked_conversations = \<lparr>cv_threads = [(''q'', \<lparr>th_values = asked_state, th_next = Some Q_await, th_interrupt = Some (''i1'', asked_payload)\<rparr>)],
     cv_memory = empty_service\<rparr>"

lemma asked_fields:
  "qs_round asked_state = 1" "qs_max_rounds asked_state = 3" "qs_thread asked_state = ''q''" "qs_tenant asked_state = ''t''"
  "qs_user asked_state = ''me''" "qs_draft asked_state = Some vague_draft" "qs_exhausted asked_state = False" "qs_input asked_state = None"
  "qs_targets asked_state \<noteq> []" "qs_issues asked_state \<noteq> []" "qs_questions asked_state \<noteq> []" "list_ex ri_blocking (qs_issues asked_state)"
  "qs_planning asked_state = None" "qs_status asked_state = ''needs_clarification''"
  using vague_blocks blocked_asks [OF vague_blocks]
  by (auto simp: asked_state_def initial_requirement_state_def station_request_def)

lemma asked_payload_ok: "payload_of asked_state = Inr asked_payload"
  using asked_fields by (simp add: payload_of_def asked_payload_def)

lemma asked_reachable: "reachable_conversations station_config asked_conversations"
proof -
  let ?init = "initial_requirement_state station_request ''q'' ''t'' ''me''"
  let ?issues = "validate_requirement vague_draft (8 * 60 * minute)"
  obtain st1 where st1: "st1 = ?init\<lparr>qs_draft := Some vague_draft, qs_llm := [station_summary], qs_status := ''parsed''\<rparr>" by blast
  obtain st2 where st2: "st2 = st1\<lparr>qs_issues := ?issues, qs_questions := [], qs_targets := [], qs_status := ''validated''\<rparr>" by blast
  have "node_parse vague_services ?init = Inr st1"
    by (simp add: node_parse_def vague_services_def model_error_def st1 initial_requirement_state_def)
  moreover have "node_validate_requirement st1 = Inr st2"
    by (simp add: node_validate_requirement_def st1 st2 initial_requirement_state_def station_request_def)
  moreover have "node_request_clarification st2 = Inr asked_state"
    by (simp add: node_request_clarification_def Let_def st1 st2 initial_requirement_state_def station_request_def asked_state_def)
  moreover have "route_requirement st2 = Q_request" using vague_blocks by (simp add: route_requirement_def st2)
  moreover have "route_clarification_request asked_state = Q_await" by (simp add: route_clarification_request_def asked_fields)
  moreover obtain k where k: "requirement_recursion_limit = Suc (Suc (Suc (Suc (Suc k))))"
  proof -
    have "requirement_recursion_limit = Suc (Suc (Suc (Suc (Suc 45))))" by (simp add: requirement_recursion_limit_def)
    then show thesis by (rule that)
  qed
  ultimately have run: "run_requirement requirement_recursion_limit station_config (\<lambda>k. vague_services) None Q_guard empty_service ?init
      = (empty_service, Run_interrupted asked_state asked_payload)"
    by (simp add: proceed_def k node_await_def asked_payload_ok)
  let ?none = "\<lparr>cv_threads = [], cv_memory = empty_service\<rparr>"
  obtain res where call: "run_natural_planning station_config (\<lambda>k. vague_services) ''i1'' station_request ''q'' ''t'' ''me'' ?none = (asked_conversations, res)"
    using run by (simp add: run_natural_planning_def invoke_thread_def thread_after_def asked_conversations_def)
  have "natural_ok station_request" by code_simp
  then have "conversation_step station_config ?none asked_conversations" by (rule request_step' [OF call _ vague_valid])
  from r_into_rtranclp [of "conversation_step station_config", OF this] show ?thesis unfolding reachable_conversations_def by blast
qed

definition vague_answer :: resume_value where
  "vague_answer = \<lparr>rv_interrupt = ''i1'', rv_request = ''r1'', rv_answer = ''hm''\<rparr>"

text \<open>The answer says nothing, so the user is asked again.\<close>

lemma asked_again:
  "\<exists>cv' resp p. resume_natural_planning station_config (\<lambda>k. vague_services) ''i2'' vague_answer ''q'' (Some ''t'') (Some ''me'') asked_conversations
       = (cv', Inr resp) \<and> np_interrupt resp = Some (''i2'', p) \<and> cv' \<noteq> asked_conversations"
proof -
  have v: "validate_resume vague_answer = Inr vague_answer" by code_simp
  obtain st4 where st4: "st4 = asked_state\<lparr>qs_input := Some vague_answer, qs_status := ''clarification_received'', qs_message := None\<rparr>" by blast
  obtain st5 where st5: "st5 = st4\<lparr>qs_patch := Some no_answer, qs_llm := qs_llm st4 @ [station_summary], qs_status := ''clarification_parsed''\<rparr>" by blast
  obtain st6 where st6: "node_apply_patch st5 = Inr st6" "qs_changed st6 = []" "qs_issues st6 = qs_issues asked_state" "qs_round st6 = 1" "qs_max_rounds st6 = 3"
      "qs_exhausted st6 = False"
    by (simp add: node_apply_patch_def st5 st4 asked_fields no_answer_ignored Let_def)
  obtain st7 where st7: "node_request_clarification st6 = Inr st7" "qs_round st7 = 2" "qs_max_rounds st7 = 3" "qs_exhausted st7 = False"
      "qs_targets st7 \<noteq> []" "qs_issues st7 \<noteq> []" "qs_questions st7 \<noteq> []" "qs_status st7 = ''needs_clarification''"
    using st6 asked_fields(10,12) blocked_asks [OF asked_fields(12)]
    by (simp add: node_request_clarification_def Let_def)
  obtain p where p: "payload_of st7 = Inr p" using st7 by (simp add: payload_of_def)
  have ask: "node_await None st7 = Inr (Interrupts p)" by (simp add: node_await_def p)
  have "node_await (Some vague_answer) asked_state = Inr (Goes_on st4)" by (simp add: node_await_def asked_payload_ok v st4)
  moreover have "node_parse_patch vague_services st4 = Inr st5"
    by (simp add: node_parse_patch_def st4 st5 asked_fields vague_services_def model_error_def)
  moreover have "route_after_patch st6 = Q_request" using st6 by (simp add: route_after_patch_def)
  moreover have "route_clarification_request st7 = Q_await" using st7 by (simp add: route_clarification_request_def)
  moreover obtain k where k: "requirement_recursion_limit = Suc (Suc (Suc (Suc (Suc k))))"
  proof -
    have "requirement_recursion_limit = Suc (Suc (Suc (Suc (Suc 45))))" by (simp add: requirement_recursion_limit_def)
    then show thesis by (rule that)
  qed
  ultimately have run: "run_requirement requirement_recursion_limit station_config (\<lambda>k. vague_services) (Some vague_answer) Q_await empty_service asked_state
      = (empty_service, Run_interrupted st7 p)"
    using st6(1) st7(1) ask by (simp add: proceed_def k)
  obtain resp where resp: "response_from_requirement_state st7 (Some (''i2'', p)) = Inr resp" "np_interrupt resp = Some (''i2'', p)"
    using st7(8) by (simp add: response_from_requirement_state_def)
  let ?cv = "asked_conversations\<lparr>cv_threads := [(''q'', thread_after ''i2'' (Run_interrupted st7 p))]\<rparr>"
  have "resume_natural_planning station_config (\<lambda>k. vague_services) ''i2'' vague_answer ''q'' (Some ''t'') (Some ''me'') asked_conversations = (?cv, Inr resp)"
    using run v resp(1)
    by (simp add: resume_natural_planning_def asked_conversations_def asked_fields vague_answer_def invoke_thread_def finalize_response_def)
  moreover have "?cv \<noteq> asked_conversations" by (simp add: asked_conversations_def thread_after_def)
  ultimately show ?thesis using resp(2) by blast
qed

text \<open>
  C16. Conversations come to an end. However an answer is processed, the run of the graph never
  reaches its limit of fifty steps; and if it asks the user again, it has used up one more
  round of clarification, within the maximum the request allows, and it does ask something: there are
  questions, and fields the answer may change.
\<close>

theorem conversations_come_to_an_end:
  assumes "reachable_conversations cf cv" and "\<And>k. answers_valid (svs k)"
    and "map_of (cv_threads cv) tid = Some th" and call: "resume_natural_planning cf svs fresh v tid tenant user cv = (cv', res)"
  shows "res \<noteq> Inl Requirement_recursion_limit \<and>
    (\<forall>resp i p. res = Inr resp \<and> np_interrupt resp = Some (i, p) \<longrightarrow>
       np_round resp = qs_round (th_values th) + 1 \<and> np_round resp \<le> qs_max_rounds (th_values th) \<and>
       ip_round p = np_round resp \<and> ip_questions p \<noteq> [] \<and> ip_targets p \<noteq> [])"
proof -
  have ok: "thread_ok cf tid th" using reachable_ok [OF assms(1)] assms(3) by (rule stored_thread)
  have main: "res \<noteq> Inl Requirement_recursion_limit \<and>
    (\<forall>resp i p. res = Inr resp \<and> np_interrupt resp = Some (i, p) \<longrightarrow>
       np_round resp = qs_round (th_values th) + 1 \<and> np_round resp \<le> qs_max_rounds (th_values th) \<and>
       ip_round p = np_round resp \<and> ip_questions p \<noteq> [] \<and> ip_targets p \<noteq> [])"
    if inv: "invoke_thread cf svs fresh tid rv n (th_values th) cv = (cv', res)" and n: "at_node n (th_values th)"
      and rv: "rv = None \<or> n = Q_await" "\<not> (n = Q_await \<and> rv = None)" for rv n
  proof -
    obtain mem r where run: "run_requirement requirement_recursion_limit cf svs rv n (cv_memory cv) (th_values th) = (mem, r)" by force
    have res: "res = finalize_response fresh r" using inv run by (simp add: invoke_thread_def)
    have "steps_left rv n \<le> requirement_recursion_limit" using steps_bounded [of rv n] by (simp add: requirement_recursion_limit_def)
    from run_ends [OF this rv(1), of cf svs "cv_memory cv" "th_values th"] run
    have ends: "r \<noteq> Run_failed n' st' Requirement_recursion_limit" for n' st' by simp
    show ?thesis
    proof (cases r)
      case (Run_ended st)
      then show ?thesis using res by (auto simp: finalize_response_def response_from_requirement_state_def split: if_splits)
    next
      case (Run_failed n' st e)
      then show ?thesis using res ends by (auto simp: finalize_response_def)
    next
      case (Run_interrupted st p)
      have more: "qs_round st = qs_round (th_values th) + 1"
        using interrupt_uses_round [OF run [unfolded Run_interrupted] n assms(2) rv(1)] rv(2) by simp
      have "at_node Q_await st" and pay: "payload_of st = Inr p" and same: "same_conversation (th_values th) st"
        using run_keeps [OF run n assms(2)] Run_interrupted by (simp_all add: run_ok_def)
      have "qs_round st \<le> qs_max_rounds st" using \<open>at_node Q_await st\<close> by (simp add: ready_def)
      then have le: "qs_round st \<le> qs_max_rounds (th_values th)" using same by (simp add: same_conversation_def)
      have p: "ip_round p = qs_round st" "ip_questions p \<noteq> []" "ip_targets p \<noteq> []"
        using pay by (auto simp: payload_of_def split: if_splits)
      have "np_round resp = qs_round st \<and> np_interrupt resp = Some (fresh, p)" if "res = Inr resp" for resp
        using that by (auto simp: res Run_interrupted finalize_response_def response_from_requirement_state_def split: if_splits)
      moreover have "res \<noteq> Inl Requirement_recursion_limit"
        by (auto simp: res Run_interrupted finalize_response_def response_from_requirement_state_def)
      ultimately show ?thesis using more le p by auto
    qed
  qed
  show ?thesis using call
  proof (cases rule: resume_cases)
    case (refused e)
    then show ?thesis by simp
  next
    case (awaited th' p w)
    have th: "th' = th" using awaited(1) assms(3) by simp
    have "at_node Q_await (th_values th)" using ok awaited(2) unfolding th by (auto simp: thread_ok_def split: option.splits)
    then show ?thesis by (intro main [OF awaited(6) [unfolded th]]) simp_all
  next
    case (retried th' n)
    have th: "th' = th" using retried(1) assms(3) by simp
    have "at_node n (th_values th)" "n \<noteq> Q_await" using ok retried(2,3) unfolding th by (simp_all add: thread_ok_def)
    then show ?thesis by (intro main [OF retried(7) [unfolded th]]) simp_all
  qed
qed

theorem conversations_come_to_an_end_witness:
  "\<exists>resp p. snd (resume_natural_planning station_config (\<lambda>k. vague_services) ''i2'' vague_answer ''q'' (Some ''t'') (Some ''me'')
       asked_conversations) = Inr resp \<and> np_interrupt resp = Some (''i2'', p) \<and> np_round resp = 2 \<and> ip_questions p \<noteq> []"
proof -
  obtain cv' resp p where again: "resume_natural_planning station_config (\<lambda>k. vague_services) ''i2'' vague_answer ''q'' (Some ''t'') (Some ''me'')
       asked_conversations = (cv', Inr resp)" "np_interrupt resp = Some (''i2'', p)"
    using asked_again by blast
  have th: "map_of (cv_threads asked_conversations) ''q'' = Some \<lparr>th_values = asked_state, th_next = Some Q_await, th_interrupt = Some (''i1'', asked_payload)\<rparr>"
    by (simp add: asked_conversations_def)
  from conversations_come_to_an_end [OF asked_reachable vague_valid th again(1)] again(2)
  have "np_round resp = 2 \<and> ip_questions p \<noteq> []" by (simp add: asked_fields)
  then show ?thesis using again by simp
qed

text \<open>
  C6. Only the user who was asked can answer. If a call on behalf of a user changes anything, then the
  thread exists and belongs to that tenant and user, and the answer is either to the interrupt that
  is pending or the very one whose processing failed; and no other thread is touched.
\<close>

theorem only_the_asked_user_can_answer:
  assumes "resume_natural_planning cf svs fresh v tid (Some tenant) (Some user) cv = (cv', res)" and "cv' \<noteq> cv"
  shows "\<exists>th. map_of (cv_threads cv) tid = Some th \<and> qs_tenant (th_values th) = tenant \<and> qs_user (th_values th) = user \<and>
     ((\<exists>p. th_interrupt th = Some (rv_interrupt v, p)) \<or> (th_interrupt th = None \<and> th_next th \<noteq> None \<and> qs_input (th_values th) = Some v)) \<and>
     (\<forall>other. other \<noteq> tid \<longrightarrow> map_of (cv_threads cv') other = map_of (cv_threads cv) other)"
proof -
  have frame: "map_of (cv_threads cv') other = map_of (cv_threads cv) other"
    if "invoke_thread cf svs fresh tid rv n st cv = (cv', res)" "other \<noteq> tid" for rv n st other
    using that by (auto simp: invoke_thread_def update_conv' split: prod.splits)
  show ?thesis using assms(1)
  proof (cases rule: resume_cases)
    case (awaited th p w)
    then show ?thesis using frame by auto
  next
    case (retried th n)
    then show ?thesis using frame by auto
  qed (use assms(2) in simp)
qed

theorem only_the_asked_user_can_answer_witness:
  "\<exists>th :: thread. map_of (cv_threads asked_conversations) ''q'' = Some th \<and> qs_user (th_values th) = ''me'' \<and>
     fst (resume_natural_planning station_config (\<lambda>k. vague_services) ''i2'' vague_answer ''q'' (Some ''t'') (Some ''me'') asked_conversations)
       \<noteq> asked_conversations"
proof -
  obtain cv' resp where again: "resume_natural_planning station_config (\<lambda>k. vague_services) ''i2'' vague_answer ''q'' (Some ''t'') (Some ''me'')
       asked_conversations = (cv', Inr resp)" "cv' \<noteq> asked_conversations"
    using asked_again by blast
  from only_the_asked_user_can_answer [OF this] again show ?thesis by auto
qed

text \<open>
  A patch that was applied forgets the answer it came from: if the search for places fails afterwards,
  the same answer is refused, and so is every other, because nothing is asked.
\<close>

lemma failed_search_cannot_be_retried:
  assumes "map_of (cv_threads cv) tid = Some th" and "th_interrupt th = None" and "qs_input (th_values th) = None"
  shows "resume_natural_planning cf svs fresh v tid None None cv = (cv, Inl (Resume_conflict tid ''clarification_resume_conflict''))"
  using assms by (simp add: resume_natural_planning_def retries_failed_resume_def split: option.splits)

lemma applied_patch_forgets: "node_apply_patch st = Inr st' \<Longrightarrow> qs_input st' = None"
  unfolding node_apply_patch_def Let_def by (auto split: option.split_asm sum.split_asm)

end
