(* ===== verification/MemorySqlite.thy ===== *)
theory MemorySqlite
  imports Memory
begin

text \<open>
  The SQLite repository of \<open>memory/repository.py\<close>: its tables as lists of rows in the order of their
  row ids, one function per method. The JSON texts of the payloads are a parameter (\<open>payload_codec\<close>: Pydantic's
  dump and parser of each model); the parser runs the model's validators again. Proved: for every sequence
  of calls with valid records it gives the answers of the repository in memory; and a record that
  \<open>PreferenceMemoryService.update\<close> does not validate makes them differ.
\<close>

section \<open>Tables\<close>

record 'text memory_row =
  mr_id :: string
  mr_tenant :: string
  mr_user :: string
  mr_revision :: int
  mr_hash :: string
  mr_payload :: 'text

record 'text proposal_row =
  pw_id :: string
  pw_tenant :: string
  pw_user :: string
  pw_payload :: 'text

record 'text settings_row =
  sr_tenant :: string
  sr_user :: string
  sr_revision :: int
  sr_payload :: 'text

record 'text preference_tables =
  tb_memories :: "'text memory_row list"
  tb_proposals :: "'text proposal_row list"
  tb_settings :: "'text settings_row list"

record 'text payload_codec =
  pc_dump_memory :: "preference_memory \<Rightarrow> 'text"
  pc_load_memory :: "'text \<Rightarrow> preference_memory option"
  pc_dump_proposal :: "memory_proposal \<Rightarrow> 'text"
  pc_load_proposal :: "'text \<Rightarrow> memory_proposal option"
  pc_dump_settings :: "owner \<Rightarrow> personalization \<Rightarrow> 'text"
  pc_load_settings :: "'text \<Rightarrow> personalization option"

definition loaded :: "'a option \<Rightarrow> (memory_error, 'a) result" where
  "loaded x = (case x of None \<Rightarrow> Inl (Memory_invalid ''invalid payload'') | Some y \<Rightarrow> Inr y)"

abbreviation row_of_owner :: "owner \<Rightarrow> 'text memory_row \<Rightarrow> bool" where
  "row_of_owner own r \<equiv> (mr_tenant r, mr_user r) = own"

section \<open>Memories\<close>

definition row_of_memory :: "'text payload_codec \<Rightarrow> preference_memory \<Rightarrow> 'text memory_row" where
  "row_of_memory cd m = \<lparr>mr_id = pm_id m, mr_tenant = pm_tenant m, mr_user = pm_user m, mr_revision = pm_revision m,
     mr_hash = pm_hash m, mr_payload = pc_dump_memory cd m\<rparr>"

fun load_memories :: "'text payload_codec \<Rightarrow> 'text memory_row list \<Rightarrow> (memory_error, preference_memory list) result" where
  "load_memories cd [] = Inr []"
| "load_memories cd (r # rs) =
     bind_res (loaded (pc_load_memory cd (mr_payload r))) (\<lambda>m. bind_res (load_memories cd rs) (\<lambda>ms. Inr (m # ms)))"

definition sql_list_memories ::
  "'text payload_codec \<Rightarrow> owner \<Rightarrow> bool \<Rightarrow> datetime \<Rightarrow> 'text preference_tables \<Rightarrow> (memory_error, preference_memory list) result" where
  "sql_list_memories cd own all now t =
     bind_res (load_memories cd (filter (row_of_owner own) (tb_memories t))) (\<lambda>ms.
       Inr (newest_first (if all then ms else filter (\<lambda>m. memory_active_at m now) ms)))"

definition sql_get_memory ::
  "'text payload_codec \<Rightarrow> owner \<Rightarrow> string \<Rightarrow> 'text preference_tables \<Rightarrow> (memory_error, preference_memory) result" where
  "sql_get_memory cd own mid t =
     (case find (\<lambda>r. mr_id r = mid \<and> row_of_owner own r) (tb_memories t) of
        None \<Rightarrow> Inl (Memory_missing mid)
      | Some r \<Rightarrow> loaded (pc_load_memory cd (mr_payload r)))"

definition sql_create_memory ::
  "'text payload_codec \<Rightarrow> preference_memory \<Rightarrow> 'text preference_tables \<Rightarrow> (memory_error, 'text preference_tables) result" where
  "sql_create_memory cd m t =
     (if list_ex (\<lambda>r. mr_id r = pm_id m) (tb_memories t) then Inl (Memory_conflict ''duplicate_memory_id'')
      else Inr (t\<lparr>tb_memories := tb_memories t @ [row_of_memory cd m]\<rparr>))"

definition sql_save_memory ::
  "'text payload_codec \<Rightarrow> preference_memory \<Rightarrow> int \<Rightarrow> 'text preference_tables \<Rightarrow> (memory_error, 'text preference_tables) result" where
  "sql_save_memory cd m expected t =
     (let mine = (\<lambda>r. mr_id r = pm_id m \<and> row_of_owner (memory_owner m) r);
          hit = (\<lambda>r. mine r \<and> mr_revision r = expected)
      in if length (filter hit (tb_memories t)) = 1
         then Inr (t\<lparr>tb_memories := map (\<lambda>r. if hit r then r\<lparr>mr_revision := pm_revision m, mr_hash := pm_hash m,
                mr_payload := pc_dump_memory cd m\<rparr> else r) (tb_memories t)\<rparr>)
         else if list_ex mine (tb_memories t) then Inl (Memory_conflict ''stale_memory_revision'')
         else Inl (Memory_missing (pm_id m)))"

definition sql_delete_memory :: "owner \<Rightarrow> string \<Rightarrow> 'text preference_tables \<Rightarrow> (memory_error, 'text preference_tables) result" where
  "sql_delete_memory own mid t =
     (let hit = (\<lambda>r. mr_id r = mid \<and> row_of_owner own r)
      in if length (filter hit (tb_memories t)) \<noteq> 1 then Inl (Memory_missing mid)
         else Inr (t\<lparr>tb_memories := filter (\<lambda>r. \<not> hit r) (tb_memories t)\<rparr>))"

definition sql_clear_memories :: "owner \<Rightarrow> 'text preference_tables \<Rightarrow> 'text preference_tables \<times> nat" where
  "sql_clear_memories own t =
     (t\<lparr>tb_memories := filter (\<lambda>r. \<not> row_of_owner own r) (tb_memories t)\<rparr>, length (filter (row_of_owner own) (tb_memories t)))"

fun first_unrevoked :: "'text payload_codec \<Rightarrow> 'text memory_row list \<Rightarrow> (memory_error, preference_memory option) result" where
  "first_unrevoked cd [] = Inr None"
| "first_unrevoked cd (r # rs) =
     bind_res (loaded (pc_load_memory cd (mr_payload r))) (\<lambda>m.
       if pm_revoked_at m = None then Inr (Some m) else first_unrevoked cd rs)"

definition sql_find_content_hash ::
  "'text payload_codec \<Rightarrow> owner \<Rightarrow> string \<Rightarrow> 'text preference_tables \<Rightarrow> (memory_error, preference_memory option) result" where
  "sql_find_content_hash cd own hash t =
     first_unrevoked cd (filter (\<lambda>r. row_of_owner own r \<and> mr_hash r = hash) (tb_memories t))"

section \<open>Proposals and settings\<close>

abbreviation proposal_row_of_owner :: "owner \<Rightarrow> 'text proposal_row \<Rightarrow> bool" where
  "proposal_row_of_owner own r \<equiv> (pw_tenant r, pw_user r) = own"

definition row_of_proposal :: "'text payload_codec \<Rightarrow> memory_proposal \<Rightarrow> 'text proposal_row" where
  "row_of_proposal cd p = \<lparr>pw_id = mp_id p, pw_tenant = mp_tenant p, pw_user = mp_user p, pw_payload = pc_dump_proposal cd p\<rparr>"

definition sql_create_proposal ::
  "'text payload_codec \<Rightarrow> memory_proposal \<Rightarrow> 'text preference_tables \<Rightarrow> (memory_error, 'text preference_tables) result" where
  "sql_create_proposal cd p t =
     (if list_ex (\<lambda>r. pw_id r = mp_id p) (tb_proposals t) then Inl (Memory_conflict ''duplicate_proposal_id'')
      else Inr (t\<lparr>tb_proposals := tb_proposals t @ [row_of_proposal cd p]\<rparr>))"

definition sql_get_proposal ::
  "'text payload_codec \<Rightarrow> owner \<Rightarrow> string \<Rightarrow> 'text preference_tables \<Rightarrow> (memory_error, memory_proposal) result" where
  "sql_get_proposal cd own pid t =
     (case find (\<lambda>r. pw_id r = pid \<and> proposal_row_of_owner own r) (tb_proposals t) of
        None \<Rightarrow> Inl (Memory_missing pid)
      | Some r \<Rightarrow> loaded (pc_load_proposal cd (pw_payload r)))"

definition sql_save_proposal ::
  "'text payload_codec \<Rightarrow> memory_proposal \<Rightarrow> 'text preference_tables \<Rightarrow> (memory_error, 'text preference_tables) result" where
  "sql_save_proposal cd p t =
     (let hit = (\<lambda>r. pw_id r = mp_id p \<and> proposal_row_of_owner (proposal_owner p) r)
      in if length (filter hit (tb_proposals t)) \<noteq> 1 then Inl (Memory_missing (mp_id p))
         else Inr (t\<lparr>tb_proposals := map (\<lambda>r. if hit r then r\<lparr>pw_payload := pc_dump_proposal cd p\<rparr> else r) (tb_proposals t)\<rparr>))"

abbreviation settings_row_of :: "owner \<Rightarrow> 'text settings_row \<Rightarrow> bool" where
  "settings_row_of own r \<equiv> (sr_tenant r, sr_user r) = own"

definition row_of_settings :: "'text payload_codec \<Rightarrow> owner \<Rightarrow> personalization \<Rightarrow> 'text settings_row" where
  "row_of_settings cd own x = \<lparr>sr_tenant = fst own, sr_user = snd own, sr_revision = ps_revision x,
     sr_payload = pc_dump_settings cd own x\<rparr>"

definition sql_get_personalization ::
  "'text payload_codec \<Rightarrow> owner \<Rightarrow> datetime \<Rightarrow> 'text preference_tables
     \<Rightarrow> 'text preference_tables \<times> (memory_error, personalization) result" where
  "sql_get_personalization cd own now t =
     (case find (settings_row_of own) (tb_settings t) of
        Some r \<Rightarrow> (t, loaded (pc_load_settings cd (sr_payload r)))
      | None \<Rightarrow> (let x = \<lparr>ps_enabled = True, ps_revision = 1, ps_updated_at = now\<rparr>
                in (t\<lparr>tb_settings := tb_settings t @ [row_of_settings cd own x]\<rparr>, Inr x)))"

definition sql_save_personalization ::
  "'text payload_codec \<Rightarrow> owner \<Rightarrow> personalization \<Rightarrow> int option \<Rightarrow> 'text preference_tables
     \<Rightarrow> (memory_error, 'text preference_tables) result" where
  "sql_save_personalization cd own x expected t =
     (case find (settings_row_of own) (tb_settings t) of
        None \<Rightarrow>
          if expected \<notin> {None, Some 0} then Inl (Memory_conflict ''stale_personalization_revision'')
          else Inr (t\<lparr>tb_settings := tb_settings t @ [row_of_settings cd own x]\<rparr>)
      | Some r \<Rightarrow>
          if expected \<noteq> Some (sr_revision r) then Inl (Memory_conflict ''stale_personalization_revision'')
          else (let hit = (\<lambda>r. settings_row_of own r \<and> Some (sr_revision r) = expected)
            in if length (filter hit (tb_settings t)) \<noteq> 1 then Inl (Memory_conflict ''stale_personalization_revision'')
               else Inr (t\<lparr>tb_settings := map (\<lambda>r. if hit r then r\<lparr>sr_revision := ps_revision x,
                 sr_payload := pc_dump_settings cd own x\<rparr> else r) (tb_settings t)\<rparr>)))"


section \<open>Keyed lists and their rows\<close>

lemma find_map_rows: "find P (map f xs) = map_option f (find (P \<circ> f) xs)"
  by (induction xs) auto

lemma find_keyed:
  "distinct (map fst kvs) \<Longrightarrow> (\<And>k' x. (k', x) \<in> set kvs \<Longrightarrow> P (k', x) \<longleftrightarrow> k' = k \<and> Q x) \<Longrightarrow>
     find P kvs = (case map_of kvs k of None \<Rightarrow> None | Some x \<Rightarrow> if Q x then Some (k, x) else None)"
proof (induction kvs)
  case (Cons kv kvs)
  obtain k1 x1 where kv: "kv = (k1, x1)" by (cases kv)
  have IH: "find P kvs = (case map_of kvs k of None \<Rightarrow> None | Some x \<Rightarrow> if Q x then Some (k, x) else None)"
    using Cons.prems by (intro Cons.IH) auto
  have "P kv \<longleftrightarrow> k1 = k \<and> Q x1" using Cons.prems(2) [of k1 x1] kv by simp
  moreover have "map_of kvs k = None" if "k1 = k" using Cons.prems(1) kv that by (simp add: map_of_eq_None_iff)
  ultimately show ?case using IH kv by (cases "k1 = k") auto
qed simp

lemma hits_keyed:
  "distinct (map fst kvs) \<Longrightarrow> (\<And>k' x. (k', x) \<in> set kvs \<Longrightarrow> P (k', x) \<longleftrightarrow> k' = k \<and> Q x) \<Longrightarrow>
     length (filter P kvs) = (case map_of kvs k of None \<Rightarrow> 0 | Some x \<Rightarrow> if Q x then 1 else 0)"
proof (induction kvs)
  case (Cons kv kvs)
  obtain k1 x1 where kv: "kv = (k1, x1)" by (cases kv)
  have IH: "length (filter P kvs) = (case map_of kvs k of None \<Rightarrow> 0 | Some x \<Rightarrow> if Q x then 1 else 0)"
    using Cons.prems by (intro Cons.IH) auto
  have "P kv \<longleftrightarrow> k1 = k \<and> Q x1" using Cons.prems(2) [of k1 x1] kv by simp
  moreover have "map_of kvs k = None" if "k1 = k" using Cons.prems(1) kv that by (simp add: map_of_eq_None_iff)
  ultimately show ?case using IH kv by (cases "k1 = k") auto
qed simp

lemma update_present:
  "distinct (map fst kvs) \<Longrightarrow> map_of kvs k = Some x \<Longrightarrow> AList.update k w kvs = map (\<lambda>(k', y). (k', if k' = k then w else y)) kvs"
proof (induction kvs)
  case (Cons kv kvs)
  obtain k1 x1 where kv: "kv = (k1, x1)" by (cases kv)
  show ?case
  proof (cases "k1 = k")
    case True
    have "map (\<lambda>(k', y). (k', if k' = k then w else y)) kvs = map (\<lambda>kv. kv) kvs"
      using Cons.prems(1) kv True by (intro map_cong) force+
    then show ?thesis using kv True by simp
  next
    case False
    then show ?thesis using Cons kv by simp
  qed
qed simp

lemma update_absent: "map_of kvs k = None \<Longrightarrow> AList.update k w kvs = kvs @ [(k, w)]"
  by (induction kvs) (auto split: if_split_asm)

section \<open>The abstraction\<close>

definition tables_of :: "'text payload_codec \<Rightarrow> preference_store \<Rightarrow> 'text preference_tables" where
  "tables_of cd s = \<lparr>tb_memories = map (\<lambda>(k, m). row_of_memory cd m) (st_memories s),
     tb_proposals = map (\<lambda>(k, p). row_of_proposal cd p) (st_proposals s),
     tb_settings = map (\<lambda>(own, x). row_of_settings cd own x) (st_settings s)\<rparr>"

definition keyed :: "preference_store \<Rightarrow> bool" where
  "keyed s \<longleftrightarrow> distinct (map fst (st_memories s)) \<and> (\<forall>(k, m) \<in> set (st_memories s). pm_id m = k) \<and>
     distinct (map fst (st_proposals s)) \<and> (\<forall>(k, p) \<in> set (st_proposals s). mp_id p = k) \<and> distinct (map fst (st_settings s))"

text \<open>
  The records that pass their model's field bounds and validators, which the parser checks: an ISO text has
  a year from 1 to 9999 and an offset in whole minutes, a dict has distinct keys.
\<close>

definition iso_time :: "datetime \<Rightarrow> bool" where
  "iso_time d \<longleftrightarrow> 1 \<le> date_of d \<and> date_of d \<le> 3652059 \<and> dt_tz d mod minute = 0"

definition optional :: "('a \<Rightarrow> bool) \<Rightarrow> 'a option \<Rightarrow> bool" where
  "optional P x \<longleftrightarrow> (case x of None \<Rightarrow> True | Some y \<Rightarrow> P y)"

abbreviation text_within :: "nat \<Rightarrow> nat \<Rightarrow> string \<Rightarrow> bool" where
  "text_within a b s \<equiv> a \<le> py_len s \<and> py_len s \<le> b"

definition value_ok :: "pref_value \<Rightarrow> bool" where
  "value_ok v \<longleftrightarrow> (case v of P_dict d \<Rightarrow> distinct (map fst d) | _ \<Rightarrow> True)"

definition memory_valid :: "preference_memory \<Rightarrow> bool" where
  "memory_valid m \<longleftrightarrow> text_within 1 128 (pm_tenant m) \<and> text_within 1 128 (pm_user m) \<and> value_ok (pm_value m) \<and>
     optional (text_within 0 256) (pm_scope_key m) \<and> optional (text_within 0 128) (pm_source_run m) \<and>
     0 \<le> pm_confidence m \<and> pm_confidence m \<le> 1 \<and> 1 \<le> pm_revision m \<and> text_within 16 128 (pm_hash m) \<and>
     iso_time (pm_created_at m) \<and> iso_time (pm_updated_at m) \<and> optional iso_time (pm_expires_at m) \<and>
     optional iso_time (pm_revoked_at m) \<and> validate_memory m = Inr m"

definition proposal_valid :: "memory_proposal \<Rightarrow> bool" where
  "proposal_valid p \<longleftrightarrow> text_within 1 128 (mp_tenant p) \<and> text_within 1 128 (mp_user p) \<and> value_ok (mp_value p) \<and>
     optional (text_within 0 256) (mp_scope_key p) \<and> optional (text_within 0 128) (mp_source_run p) \<and>
     0 \<le> mp_confidence p \<and> mp_confidence p \<le> 1 \<and> text_within 1 500 (mp_reason p) \<and> text_within 16 128 (mp_hash p) \<and>
     iso_time (mp_created_at p) \<and> optional iso_time (mp_expires_at p) \<and> optional iso_time (mp_resolved_at p) \<and>
     validate_proposal p = Inr p"

definition settings_valid :: "personalization \<Rightarrow> bool" where
  "settings_valid x \<longleftrightarrow> 1 \<le> ps_revision x \<and> iso_time (ps_updated_at x)"

text \<open>Pydantic's \<open>model_validate_json\<close> gives back what \<open>model_dump_json\<close> wrote of a valid record.\<close>

definition codec_ok :: "'text payload_codec \<Rightarrow> bool" where
  "codec_ok cd \<longleftrightarrow> (\<forall>m. memory_valid m \<longrightarrow> pc_load_memory cd (pc_dump_memory cd m) = Some m) \<and>
     (\<forall>p. proposal_valid p \<longrightarrow> pc_load_proposal cd (pc_dump_proposal cd p) = Some p) \<and>
     (\<forall>own x. settings_valid x \<longrightarrow> pc_load_settings cd (pc_dump_settings cd own x) = Some x)"

definition store_valid :: "preference_store \<Rightarrow> bool" where
  "store_valid s \<longleftrightarrow> (\<forall>m \<in> snd ` set (st_memories s). memory_valid m) \<and> (\<forall>p \<in> snd ` set (st_proposals s). proposal_valid p) \<and>
     (\<forall>x \<in> snd ` set (st_settings s). settings_valid x)"

lemma codec_simps:
  assumes "codec_ok cd"
  shows "memory_valid m \<Longrightarrow> pc_load_memory cd (pc_dump_memory cd m) = Some m"
    "proposal_valid p \<Longrightarrow> pc_load_proposal cd (pc_dump_proposal cd p) = Some p"
    "settings_valid x \<Longrightarrow> pc_load_settings cd (pc_dump_settings cd own x) = Some x"
  using assms unfolding codec_ok_def by blast+

lemma store_validD:
  assumes "store_valid s"
  shows "map_of (st_memories s) k = Some m \<Longrightarrow> memory_valid m" "map_of (st_proposals s) k = Some p \<Longrightarrow> proposal_valid p"
    "map_of (st_settings s) own = Some x \<Longrightarrow> settings_valid x" "\<forall>m \<in> snd ` set (st_memories s). memory_valid m"
  using assms by (force simp: store_valid_def dest: map_of_SomeD)+

lemma keyedD:
  assumes "keyed s"
  shows "distinct (map fst (st_memories s))" "(k, m) \<in> set (st_memories s) \<Longrightarrow> pm_id m = k"
    and "distinct (map fst (st_proposals s))" "(k, p) \<in> set (st_proposals s) \<Longrightarrow> mp_id p = k" "distinct (map fst (st_settings s))"
  using assms by (auto simp: keyed_def)

lemma row_of_memory_simps [simp]:
  "mr_id (row_of_memory cd m) = pm_id m" "mr_tenant (row_of_memory cd m) = pm_tenant m" "mr_user (row_of_memory cd m) = pm_user m"
  "mr_revision (row_of_memory cd m) = pm_revision m" "mr_hash (row_of_memory cd m) = pm_hash m"
  "mr_payload (row_of_memory cd m) = pc_dump_memory cd m"
  by (simp_all add: row_of_memory_def)

lemma row_of_proposal_simps [simp]:
  "pw_id (row_of_proposal cd p) = mp_id p" "pw_tenant (row_of_proposal cd p) = mp_tenant p"
  "pw_user (row_of_proposal cd p) = mp_user p" "pw_payload (row_of_proposal cd p) = pc_dump_proposal cd p"
  by (simp_all add: row_of_proposal_def)

lemma row_of_settings_simps [simp]:
  "sr_tenant (row_of_settings cd own x) = fst own" "sr_user (row_of_settings cd own x) = snd own"
  "sr_revision (row_of_settings cd own x) = ps_revision x" "sr_payload (row_of_settings cd own x) = pc_dump_settings cd own x"
  by (simp_all add: row_of_settings_def)

lemma tables_of_simps [simp]:
  "tb_memories (tables_of cd s) = map (\<lambda>(k, m). row_of_memory cd m) (st_memories s)"
  "tb_proposals (tables_of cd s) = map (\<lambda>(k, p). row_of_proposal cd p) (st_proposals s)"
  "tb_settings (tables_of cd s) = map (\<lambda>(own, x). row_of_settings cd own x) (st_settings s)"
  by (simp_all add: tables_of_def)


section \<open>Reading\<close>

lemma loaded_codec [simp]: "loaded (Some x) = Inr x"
  by (simp add: loaded_def)

lemma load_memories_of:
  "codec_ok cd \<Longrightarrow> \<forall>m \<in> snd ` set kvs. memory_valid m \<Longrightarrow>
     load_memories cd (map (\<lambda>(k, m). row_of_memory cd m) kvs) = Inr (map snd kvs)"
  by (induction kvs) (auto simp: codec_simps)

lemma find_memory_row:
  assumes "keyed s"
  shows "find (\<lambda>r. mr_id r = mid \<and> row_of_owner own r) (tb_memories (tables_of cd s)) =
     (case map_of (st_memories s) mid of None \<Rightarrow> None
      | Some m \<Rightarrow> if memory_owner m = own then Some (row_of_memory cd m) else None)"
proof -
  have "find ((\<lambda>r. mr_id r = mid \<and> row_of_owner own r) \<circ> (\<lambda>(k, m). row_of_memory cd m)) (st_memories s) =
     (case map_of (st_memories s) mid of None \<Rightarrow> None | Some m \<Rightarrow> if memory_owner m = own then Some (mid, m) else None)"
    using keyedD(2) [OF assms] by (intro find_keyed keyedD(1) [OF assms]) auto
  then show ?thesis by (simp add: find_map_rows split: option.split)
qed

lemma find_proposal_row:
  assumes "keyed s"
  shows "find (\<lambda>r. pw_id r = pid \<and> proposal_row_of_owner own r) (tb_proposals (tables_of cd s)) =
     (case map_of (st_proposals s) pid of None \<Rightarrow> None
      | Some p \<Rightarrow> if proposal_owner p = own then Some (row_of_proposal cd p) else None)"
proof -
  have "find ((\<lambda>r. pw_id r = pid \<and> proposal_row_of_owner own r) \<circ> (\<lambda>(k, p). row_of_proposal cd p)) (st_proposals s) =
     (case map_of (st_proposals s) pid of None \<Rightarrow> None | Some p \<Rightarrow> if proposal_owner p = own then Some (pid, p) else None)"
    using keyedD(4) [OF assms] by (intro find_keyed keyedD(3) [OF assms]) auto
  then show ?thesis by (simp add: find_map_rows split: option.split)
qed

lemma find_settings_row:
  assumes "keyed s"
  shows "find (settings_row_of own) (tb_settings (tables_of cd s)) =
     map_option (row_of_settings cd own) (map_of (st_settings s) own)"
proof -
  have "find (settings_row_of own \<circ> (\<lambda>(own, x). row_of_settings cd own x)) (st_settings s) =
     (case map_of (st_settings s) own of None \<Rightarrow> None | Some x \<Rightarrow> if True then Some (own, x) else None)"
    by (intro find_keyed keyedD(5) [OF assms]) auto
  then show ?thesis by (simp add: find_map_rows split: option.split)
qed

lemma sql_list_refines:
  assumes "codec_ok cd" "store_valid s"
  shows "sql_list_memories cd own all now (tables_of cd s) = Inr (list_memories own all now s)"
proof -
  have "filter (row_of_owner own) (tb_memories (tables_of cd s)) =
     map (\<lambda>(k, m). row_of_memory cd m) (filter (\<lambda>(k, m). memory_owner m = own) (st_memories s))"
    by (simp add: filter_map o_def split_def)
  moreover have "map snd (filter (\<lambda>(k, m). memory_owner m = own) (st_memories s)) =
     filter (\<lambda>m. memory_owner m = own) (map snd (st_memories s))"
    by (simp add: filter_map o_def split_def)
  moreover have "\<forall>m \<in> snd ` set (filter (\<lambda>(k, m). memory_owner m = own) (st_memories s)). memory_valid m"
    using store_validD(4) [OF assms(2)] by auto
  ultimately show ?thesis
    by (simp add: sql_list_memories_def list_memories_def load_memories_of [OF assms(1)] conj_commute)
qed

lemma sql_get_refines:
  "codec_ok cd \<Longrightarrow> store_valid s \<Longrightarrow> keyed s \<Longrightarrow> sql_get_memory cd own mid (tables_of cd s) = get_memory own mid s"
  unfolding sql_get_memory_def find_memory_row by (auto simp: get_memory_def codec_simps dest: store_validD split: option.split)

lemma sql_get_proposal_refines:
  "codec_ok cd \<Longrightarrow> store_valid s \<Longrightarrow> keyed s \<Longrightarrow> sql_get_proposal cd own pid (tables_of cd s) = get_proposal own pid s"
  unfolding sql_get_proposal_def find_proposal_row by (auto simp: get_proposal_def codec_simps dest: store_validD split: option.split)

lemma first_unrevoked_of:
  "codec_ok cd \<Longrightarrow> \<forall>m \<in> snd ` set kvs. memory_valid m \<Longrightarrow>
     first_unrevoked cd (map (\<lambda>(k, m). row_of_memory cd m) kvs) = Inr (find (\<lambda>m. pm_revoked_at m = None) (map snd kvs))"
  by (induction kvs) (auto simp: codec_simps)

lemma find_filter: "find P (filter Q xs) = find (\<lambda>x. Q x \<and> P x) xs"
  by (induction xs) auto

lemma sql_find_hash_refines:
  assumes "codec_ok cd" "store_valid s"
  shows "sql_find_content_hash cd own hash (tables_of cd s) = Inr (find_content_hash own hash s)"
proof -
  have "filter (\<lambda>r. row_of_owner own r \<and> mr_hash r = hash) (tb_memories (tables_of cd s)) =
     map (\<lambda>(k, m). row_of_memory cd m) (filter (\<lambda>(k, m). memory_owner m = own \<and> pm_hash m = hash) (st_memories s))"
    by (simp add: filter_map o_def split_def)
  moreover have "map snd (filter (\<lambda>(k, m). memory_owner m = own \<and> pm_hash m = hash) (st_memories s)) =
     filter (\<lambda>m. memory_owner m = own \<and> pm_hash m = hash) (map snd (st_memories s))"
    by (simp add: filter_map o_def split_def)
  moreover have "\<forall>m \<in> snd ` set (filter (\<lambda>(k, m). memory_owner m = own \<and> pm_hash m = hash) (st_memories s)). memory_valid m"
    using store_validD(4) [OF assms(2)] by auto
  ultimately show ?thesis
    by (simp add: sql_find_content_hash_def find_content_hash_def first_unrevoked_of [OF assms(1)] find_filter)
qed


section \<open>Writing\<close>

text \<open>A result of the repository in memory as one on tables.\<close>

definition on_tables ::
  "'text payload_codec \<Rightarrow> (memory_error, preference_store) result \<Rightarrow> (memory_error, 'text preference_tables) result" where
  "on_tables cd r = (case r of Inl e \<Rightarrow> Inl e | Inr s \<Rightarrow> Inr (tables_of cd s))"

lemma on_tables_simps [simp]: "on_tables cd (Inl e) = Inl e" "on_tables cd (Inr s) = Inr (tables_of cd s)"
  by (simp_all add: on_tables_def)

lemma tables_eq: "tb_memories t = tb_memories u \<Longrightarrow> tb_proposals t = tb_proposals u \<Longrightarrow> tb_settings t = tb_settings u \<Longrightarrow>
   t = (u :: 'text preference_tables)"
  by (cases t; cases u) simp

lemma list_ex_find: "list_ex P xs \<longleftrightarrow> find P xs \<noteq> None"
  by (induction xs) auto

lemma map_rows:
  "(\<And>k y. (k, y) \<in> set kvs \<Longrightarrow> g (f y) = f (h k y)) \<Longrightarrow>
     map g (map (\<lambda>(k, y). f y) kvs) = map (\<lambda>(k, y). f y) (map (\<lambda>(k, y). (k, h k y)) kvs)"
  by (induction kvs) auto

lemma list_ex_key: "(\<And>k x. (k, x) \<in> set kvs \<Longrightarrow> P (k, x) \<longleftrightarrow> k = key) \<Longrightarrow> list_ex P kvs \<longleftrightarrow> map_of kvs key \<noteq> None"
  by (induction kvs) auto

lemma sql_create_refines:
  assumes "keyed s"
  shows "sql_create_memory cd m (tables_of cd s) = on_tables cd (create_memory m s)"
proof -
  have "list_ex (\<lambda>r. mr_id r = pm_id m) (tb_memories (tables_of cd s)) \<longleftrightarrow> list_ex (\<lambda>(k, y). pm_id y = pm_id m) (st_memories s)"
    by (simp add: list_ex_iff split_def)
  also have "\<dots> \<longleftrightarrow> map_of (st_memories s) (pm_id m) \<noteq> None" using keyedD(2) [OF assms] by (intro list_ex_key) auto
  finally show ?thesis
    by (auto simp: sql_create_memory_def create_memory_def update_absent intro!: tables_eq)
qed

lemma sql_create_proposal_refines:
  assumes "keyed s"
  shows "sql_create_proposal cd p (tables_of cd s) = on_tables cd (create_proposal p s)"
proof -
  have "list_ex (\<lambda>r. pw_id r = mp_id p) (tb_proposals (tables_of cd s)) \<longleftrightarrow> list_ex (\<lambda>(k, y). mp_id y = mp_id p) (st_proposals s)"
    by (simp add: list_ex_iff split_def)
  also have "\<dots> \<longleftrightarrow> map_of (st_proposals s) (mp_id p) \<noteq> None" using keyedD(4) [OF assms] by (intro list_ex_key) auto
  finally show ?thesis
    by (auto simp: sql_create_proposal_def create_proposal_def update_absent intro!: tables_eq)
qed

lemma sql_save_refines:
  assumes s: "keyed s"
  shows "sql_save_memory cd m expected (tables_of cd s) = on_tables cd (save_memory m expected s)"
proof -
  let ?kvs = "st_memories s" and ?row = "\<lambda>(k, m). row_of_memory cd m"
  let ?mine = "\<lambda>r. mr_id r = pm_id m \<and> row_of_owner (memory_owner m) r"
  let ?hit = "\<lambda>r. ?mine r \<and> mr_revision r = expected"
  have hits: "length (filter ?hit (map ?row ?kvs)) =
      (case map_of ?kvs (pm_id m) of None \<Rightarrow> 0 | Some c \<Rightarrow> if memory_owner c = memory_owner m \<and> pm_revision c = expected then 1 else 0)"
    unfolding filter_map length_map using keyedD(2) [OF s] by (intro hits_keyed keyedD(1) [OF s]) auto
  have "list_ex ?mine (map ?row ?kvs) \<longleftrightarrow> find ?mine (map ?row ?kvs) \<noteq> None" by (rule list_ex_find)
  then have mine: "list_ex ?mine (map ?row ?kvs) \<longleftrightarrow>
      (case map_of ?kvs (pm_id m) of None \<Rightarrow> False | Some c \<Rightarrow> memory_owner c = memory_owner m)"
    using find_memory_row [OF s, of "pm_id m" "memory_owner m" cd] by (simp split: option.splits)
  show ?thesis
  proof (cases "map_of ?kvs (pm_id m)")
    case None
    then show ?thesis using hits mine by (simp add: sql_save_memory_def save_memory_def Let_def)
  next
    case (Some c)
    show ?thesis
    proof (cases "memory_owner c = memory_owner m \<and> pm_revision c = expected")
      case False
      then show ?thesis using Some hits mine by (auto simp: sql_save_memory_def save_memory_def Let_def)
    next
      case True
      have "(if ?hit (row_of_memory cd y) then (row_of_memory cd y)\<lparr>mr_revision := pm_revision m, mr_hash := pm_hash m,
           mr_payload := pc_dump_memory cd m\<rparr> else row_of_memory cd y) = row_of_memory cd (if k = pm_id m then m else y)"
        if "(k, y) \<in> set ?kvs" for k y
      proof (cases "k = pm_id m")
        case True': True
        then have "y = c" using that Some keyedD(1) [OF s] by simp
        then show ?thesis using True True' keyedD(2) [OF s that] by (simp add: row_of_memory_def)
      next
        case False
        then show ?thesis using keyedD(2) [OF s that] by simp
      qed
      then have "map (\<lambda>r. if ?hit r then r\<lparr>mr_revision := pm_revision m, mr_hash := pm_hash m, mr_payload := pc_dump_memory cd m\<rparr> else r)
          (map ?row ?kvs) = map ?row (AList.update (pm_id m) m ?kvs)"
        unfolding update_present [OF keyedD(1) [OF s] Some] by (rule map_rows)
      then show ?thesis using Some True hits
        by (auto simp: sql_save_memory_def save_memory_def Let_def intro!: tables_eq)
    qed
  qed
qed

lemma sql_save_proposal_refines:
  assumes s: "keyed s"
  shows "sql_save_proposal cd p (tables_of cd s) = on_tables cd (save_proposal p s)"
proof -
  let ?kvs = "st_proposals s" and ?row = "\<lambda>(k, p). row_of_proposal cd p"
  let ?hit = "\<lambda>r. pw_id r = mp_id p \<and> proposal_row_of_owner (proposal_owner p) r"
  have hits: "length (filter ?hit (map ?row ?kvs)) =
      (case map_of ?kvs (mp_id p) of None \<Rightarrow> 0 | Some c \<Rightarrow> if proposal_owner c = proposal_owner p then 1 else 0)"
    unfolding filter_map length_map using keyedD(4) [OF s] by (intro hits_keyed keyedD(3) [OF s]) auto
  show ?thesis
  proof (cases "map_of ?kvs (mp_id p)")
    case None
    then show ?thesis using hits by (simp add: sql_save_proposal_def save_proposal_def Let_def)
  next
    case (Some c)
    show ?thesis
    proof (cases "proposal_owner c = proposal_owner p")
      case False
      then show ?thesis using Some hits by (auto simp: sql_save_proposal_def save_proposal_def Let_def)
    next
      case True
      have "(if ?hit (row_of_proposal cd y) then (row_of_proposal cd y)\<lparr>pw_payload := pc_dump_proposal cd p\<rparr> else row_of_proposal cd y)
          = row_of_proposal cd (if k = mp_id p then p else y)"
        if "(k, y) \<in> set ?kvs" for k y
      proof (cases "k = mp_id p")
        case True': True
        then have "y = c" using that Some keyedD(3) [OF s] by simp
        then show ?thesis using True True' keyedD(4) [OF s that] by (simp add: row_of_proposal_def)
      next
        case False
        then show ?thesis using keyedD(4) [OF s that] by simp
      qed
      then have "map (\<lambda>r. if ?hit r then r\<lparr>pw_payload := pc_dump_proposal cd p\<rparr> else r) (map ?row ?kvs)
          = map ?row (AList.update (mp_id p) p ?kvs)"
        unfolding update_present [OF keyedD(3) [OF s] Some] by (rule map_rows)
      then show ?thesis using Some True hits
        by (auto simp: sql_save_proposal_def save_proposal_def Let_def intro!: tables_eq)
    qed
  qed
qed


lemma sql_delete_refines:
  assumes s: "keyed s"
  shows "sql_delete_memory own mid (tables_of cd s) = on_tables cd (delete_memory own mid s)"
proof -
  let ?kvs = "st_memories s" and ?row = "\<lambda>(k, m). row_of_memory cd m"
  let ?hit = "\<lambda>r. mr_id r = mid \<and> row_of_owner own r"
  have hits: "length (filter ?hit (map ?row ?kvs)) =
      (case map_of ?kvs mid of None \<Rightarrow> 0 | Some c \<Rightarrow> if memory_owner c = own then 1 else 0)"
    unfolding filter_map length_map using keyedD(2) [OF s] by (intro hits_keyed keyedD(1) [OF s]) auto
  show ?thesis
  proof (cases "\<exists>c. map_of ?kvs mid = Some c \<and> memory_owner c = own")
    case True
    then obtain c where c: "map_of ?kvs mid = Some c" "memory_owner c = own" by blast
    have "(\<not> (?hit \<circ> ?row) kv) = (case kv of (k, m) \<Rightarrow> k \<noteq> mid)" if "kv \<in> set ?kvs" for kv
    proof -
      obtain k y where kv: "kv = (k, y)" by (cases kv)
      have "pm_id y = k" using keyedD(2) [OF s] that kv by blast
      moreover have "k = mid \<Longrightarrow> y = c" using that c(1) keyedD(1) [OF s] kv by simp
      ultimately show ?thesis using kv c(2) by auto
    qed
    then have "filter (\<lambda>r. \<not> ?hit r) (map ?row ?kvs) = map ?row (filter (\<lambda>(k, m). k \<noteq> mid) ?kvs)"
      unfolding filter_map by (intro arg_cong [where f = "map ?row"] filter_cong) (auto simp: o_def)
    then show ?thesis using c hits
      by (auto simp: sql_delete_memory_def delete_memory_def get_memory_def intro!: tables_eq)
  next
    case False
    then show ?thesis using hits
      by (auto simp: sql_delete_memory_def delete_memory_def get_memory_def split: option.splits if_splits)
  qed
qed

lemma sql_clear_refines: "sql_clear_memories own (tables_of cd s) = apfst (tables_of cd) (clear_memories own s)"
  by (auto simp: sql_clear_memories_def clear_memories_def filter_map o_def split_def intro!: tables_eq)

lemma sql_get_settings_refines:
  assumes "codec_ok cd" "keyed s" "store_valid s"
  shows "sql_get_personalization cd own now (tables_of cd s) = (tables_of cd (fst (get_personalization own now s)), Inr (snd (get_personalization own now s)))"
  unfolding sql_get_personalization_def find_settings_row [OF assms(2)]
  by (auto simp: get_personalization_def codec_simps [OF assms(1)] update_absent Let_def dest: store_validD(3) [OF assms(3)]
      split: option.split intro!: tables_eq)

lemma sql_save_settings_refines:
  assumes s: "keyed s"
  shows "sql_save_personalization cd own x expected (tables_of cd s) = on_tables cd (save_personalization own x expected s)"
proof (cases "map_of (st_settings s) own")
  case None
  then show ?thesis unfolding sql_save_personalization_def find_settings_row [OF s]
    by (auto simp: save_personalization_def update_absent intro!: tables_eq)
next
  case (Some c)
  let ?kvs = "st_settings s" and ?row = "\<lambda>(own, x). row_of_settings cd own x"
  let ?hit = "\<lambda>r. settings_row_of own r \<and> Some (sr_revision r) = expected"
  have hits: "length (filter ?hit (map ?row ?kvs)) =
      (case map_of ?kvs own of None \<Rightarrow> 0 | Some c \<Rightarrow> if Some (ps_revision c) = expected then 1 else 0)"
    unfolding filter_map length_map by (intro hits_keyed keyedD(5) [OF s]) auto
  have "map (\<lambda>r. if ?hit r then r\<lparr>sr_revision := ps_revision x, sr_payload := pc_dump_settings cd own x\<rparr> else r) (map ?row ?kvs)
      = map ?row (AList.update own x ?kvs)" if rev: "expected = Some (ps_revision c)"
  proof -
    have "(if ?hit (row_of_settings cd k y) then (row_of_settings cd k y)\<lparr>sr_revision := ps_revision x, sr_payload := pc_dump_settings cd own x\<rparr>
        else row_of_settings cd k y) = row_of_settings cd k (if k = own then x else y)" if "(k, y) \<in> set ?kvs" for k y
    proof (cases "k = own")
      case True
      then have "y = c" using that Some keyedD(5) [OF s] by simp
      then show ?thesis using True rev by (simp add: row_of_settings_def)
    next
      case False
      then show ?thesis by simp
    qed
    then show ?thesis unfolding update_present [OF keyedD(5) [OF s] Some] by (auto simp: split_def)
  qed
  then show ?thesis using Some hits unfolding sql_save_personalization_def find_settings_row [OF s]
    by (auto simp: save_personalization_def Let_def intro!: tables_eq)
qed

section \<open>Sequences of calls\<close>

datatype preference_call =
  Do_list owner bool datetime | Do_get owner string | Do_create preference_memory | Do_save preference_memory int
| Do_delete owner string | Do_clear owner | Do_find owner string | Do_propose memory_proposal | Do_get_proposal owner string
| Do_save_proposal memory_proposal | Do_settings owner datetime | Do_save_settings owner personalization "int option"

datatype preference_answer =
  Gave_done | Gave_list "preference_memory list" | Gave_memory preference_memory | Gave_found "preference_memory option"
| Gave_proposal memory_proposal | Gave_settings personalization | Gave_count nat | Gave_error memory_error

definition gave :: "('a \<Rightarrow> preference_answer) \<Rightarrow> (memory_error, 'a) result \<Rightarrow> preference_answer" where
  "gave f r = (case r of Inl e \<Rightarrow> Gave_error e | Inr x \<Rightarrow> f x)"

definition stored :: "'s \<Rightarrow> (memory_error, 's) result \<Rightarrow> 's \<times> preference_answer" where
  "stored s r = (case r of Inl e \<Rightarrow> (s, Gave_error e) | Inr s' \<Rightarrow> (s', Gave_done))"

fun mem_preference_call :: "preference_call \<Rightarrow> preference_store \<Rightarrow> preference_store \<times> preference_answer" where
  "mem_preference_call (Do_list own all now) s = (s, Gave_list (list_memories own all now s))"
| "mem_preference_call (Do_get own mid) s = (s, gave Gave_memory (get_memory own mid s))"
| "mem_preference_call (Do_create m) s = stored s (create_memory m s)"
| "mem_preference_call (Do_save m r) s = stored s (save_memory m r s)"
| "mem_preference_call (Do_delete own mid) s = stored s (delete_memory own mid s)"
| "mem_preference_call (Do_clear own) s = apsnd Gave_count (clear_memories own s)"
| "mem_preference_call (Do_find own hash) s = (s, Gave_found (find_content_hash own hash s))"
| "mem_preference_call (Do_propose p) s = stored s (create_proposal p s)"
| "mem_preference_call (Do_get_proposal own pid) s = (s, gave Gave_proposal (get_proposal own pid s))"
| "mem_preference_call (Do_save_proposal p) s = stored s (save_proposal p s)"
| "mem_preference_call (Do_settings own now) s = apsnd Gave_settings (get_personalization own now s)"
| "mem_preference_call (Do_save_settings own x r) s = stored s (save_personalization own x r s)"

fun sql_preference_call ::
  "'text payload_codec \<Rightarrow> preference_call \<Rightarrow> 'text preference_tables \<Rightarrow> 'text preference_tables \<times> preference_answer" where
  "sql_preference_call cd (Do_list own all now) t = (t, gave Gave_list (sql_list_memories cd own all now t))"
| "sql_preference_call cd (Do_get own mid) t = (t, gave Gave_memory (sql_get_memory cd own mid t))"
| "sql_preference_call cd (Do_create m) t = stored t (sql_create_memory cd m t)"
| "sql_preference_call cd (Do_save m r) t = stored t (sql_save_memory cd m r t)"
| "sql_preference_call cd (Do_delete own mid) t = stored t (sql_delete_memory own mid t)"
| "sql_preference_call cd (Do_clear own) t = apsnd Gave_count (sql_clear_memories own t)"
| "sql_preference_call cd (Do_find own hash) t = (t, gave Gave_found (sql_find_content_hash cd own hash t))"
| "sql_preference_call cd (Do_propose p) t = stored t (sql_create_proposal cd p t)"
| "sql_preference_call cd (Do_get_proposal own pid) t = (t, gave Gave_proposal (sql_get_proposal cd own pid t))"
| "sql_preference_call cd (Do_save_proposal p) t = stored t (sql_save_proposal cd p t)"
| "sql_preference_call cd (Do_settings own now) t = apsnd (gave Gave_settings) (sql_get_personalization cd own now t)"
| "sql_preference_call cd (Do_save_settings own x r) t = stored t (sql_save_personalization cd own x r t)"

fun answers :: "('c \<Rightarrow> 's \<Rightarrow> 's \<times> 'a) \<Rightarrow> 'c list \<Rightarrow> 's \<Rightarrow> 'a list" where
  "answers f [] s = []"
| "answers f (c # cs) s = (let (s', a) = f c s in a # answers f cs s')"

definition no_tables :: "'text preference_tables" where
  "no_tables = \<lparr>tb_memories = [], tb_proposals = [], tb_settings = []\<rparr>"

definition no_preferences :: preference_store where
  "no_preferences = \<lparr>st_memories = [], st_proposals = [], st_settings = []\<rparr>"

lemma stored_on_tables: "stored (tables_of cd s) (on_tables cd r) = apfst (tables_of cd) (stored s r)"
  by (simp add: stored_def on_tables_def split: sum.split)

lemma gave_Inr [simp]: "gave f (Inr x) = f x"
  by (simp add: gave_def)

lemma call_refines:
  assumes "codec_ok cd" and "store_valid s" and "keyed s"
  shows "sql_preference_call cd c (tables_of cd s) = apfst (tables_of cd) (mem_preference_call c s)"
  using assms
  by (cases c) (simp_all add: sql_list_refines sql_get_refines sql_create_refines sql_save_refines sql_delete_refines
      sql_clear_refines sql_find_hash_refines sql_create_proposal_refines sql_get_proposal_refines sql_save_proposal_refines
      sql_get_settings_refines sql_save_settings_refines stored_on_tables apfst_def apsnd_def map_prod_def split_def)

lemma keys_updated: "\<forall>(k, m) \<in> set kvs. key m = k \<Longrightarrow> \<forall>(k, m) \<in> set (AList.update (key v) v kvs). key m = k"
  by (induction kvs) auto

lemma keyed_update:
  "keyed s \<Longrightarrow> keyed (s\<lparr>st_memories := AList.update (pm_id m) m (st_memories s)\<rparr>)"
  "keyed s \<Longrightarrow> keyed (s\<lparr>st_proposals := AList.update (mp_id p) p (st_proposals s)\<rparr>)"
  "keyed s \<Longrightarrow> keyed (s\<lparr>st_settings := AList.update own x (st_settings s)\<rparr>)"
  "keyed s \<Longrightarrow> keyed (s\<lparr>st_memories := filter P (st_memories s)\<rparr>)"
  using keys_updated [where key = pm_id, of "st_memories s" m] keys_updated [where key = mp_id, of "st_proposals s" p]
  by (simp_all add: keyed_def distinct_update distinct_map_filter)

lemma call_keyed: "keyed s \<Longrightarrow> keyed (fst (mem_preference_call c s))"
  by (cases c) (auto simp: stored_def create_memory_def save_memory_def delete_memory_def clear_memories_def create_proposal_def
      save_proposal_def get_personalization_def save_personalization_def bind_res_eq_Inr Let_def
      intro: keyed_update split: sum.split option.splits if_splits)


text \<open>The records a call hands to the repository are valid.\<close>

definition call_valid :: "preference_call \<Rightarrow> bool" where
  "call_valid c \<longleftrightarrow> (case c of
     Do_create m \<Rightarrow> memory_valid m | Do_save m r \<Rightarrow> memory_valid m | Do_propose p \<Rightarrow> proposal_valid p
   | Do_save_proposal p \<Rightarrow> proposal_valid p | Do_settings own now \<Rightarrow> iso_time now | Do_save_settings own x r \<Rightarrow> settings_valid x
   | _ \<Rightarrow> True)"

lemma updated_value: "(k', y) \<in> set (AList.update k v kvs) \<Longrightarrow> y = v \<or> (k', y) \<in> set kvs"
  by (induction kvs) (auto split: if_splits)

lemma store_valid_update:
  "store_valid s \<Longrightarrow> memory_valid m \<Longrightarrow> store_valid (s\<lparr>st_memories := AList.update k m (st_memories s)\<rparr>)"
  "store_valid s \<Longrightarrow> proposal_valid p \<Longrightarrow> store_valid (s\<lparr>st_proposals := AList.update k p (st_proposals s)\<rparr>)"
  "store_valid s \<Longrightarrow> settings_valid x \<Longrightarrow> store_valid (s\<lparr>st_settings := AList.update own x (st_settings s)\<rparr>)"
  "store_valid s \<Longrightarrow> store_valid (s\<lparr>st_memories := filter P (st_memories s)\<rparr>)"
  by (force simp: store_valid_def dest: updated_value)+

lemma call_store_valid:
  assumes "store_valid s" and "call_valid c"
  shows "store_valid (fst (mem_preference_call c s))"
  using assms
  by (cases c) (auto simp: call_valid_def settings_valid_def stored_def create_memory_def save_memory_def delete_memory_def clear_memories_def
      create_proposal_def save_proposal_def get_personalization_def save_personalization_def bind_res_eq_Inr Let_def
      intro: store_valid_update split: sum.split option.splits if_splits)

lemma answers_refine:
  "codec_ok cd \<Longrightarrow> \<forall>c \<in> set cs. call_valid c \<Longrightarrow> store_valid s \<Longrightarrow> keyed s \<Longrightarrow>
     answers (sql_preference_call cd) cs (tables_of cd s) = answers mem_preference_call cs s"
  by (induction cs arbitrary: s) (simp_all add: call_refines call_keyed call_store_valid split_def Let_def)

text \<open>
  C19. The SQLite repository of preferences refines the one in memory for valid records: if the text of a
  valid record is read back as that record, any sequence of calls on a fresh database that hand in valid records,
  whoever makes them and whether or not they succeed, is answered exactly as by the repository in memory.
\<close>

theorem sqlite_preferences_refine_memory:
  assumes "codec_ok cd" and "\<forall>c \<in> set cs. call_valid c"
  shows "answers (sql_preference_call cd) cs no_tables = answers mem_preference_call cs no_preferences"
proof -
  have "keyed no_preferences" "store_valid no_preferences" "tables_of cd no_preferences = no_tables"
    by (simp_all add: keyed_def store_valid_def no_preferences_def tables_of_def no_tables_def)
  then show ?thesis using answers_refine [OF assms] by metis
qed

text \<open>A database whose payloads are the records themselves, read through the validators.\<close>

datatype payload = Of_memory preference_memory | Of_proposal memory_proposal | Of_settings personalization

definition plain_codec :: "payload payload_codec" where
  "plain_codec = \<lparr>pc_dump_memory = Of_memory,
     pc_load_memory = (\<lambda>x. case x of Of_memory m \<Rightarrow> if memory_valid m then Some m else None | _ \<Rightarrow> None),
     pc_dump_proposal = Of_proposal,
     pc_load_proposal = (\<lambda>x. case x of Of_proposal p \<Rightarrow> if proposal_valid p then Some p else None | _ \<Rightarrow> None),
     pc_dump_settings = (\<lambda>own. Of_settings),
     pc_load_settings = (\<lambda>x. case x of Of_settings y \<Rightarrow> if settings_valid y then Some y else None | _ \<Rightarrow> None)\<rparr>"

definition sample_digest :: string where
  "sample_digest = ''0123456789abcdef''"

definition stored_pace :: preference_memory where
  "stored_pace = explicit_memory (''t'', ''u'') ''m1'' (combine 739890 (8 * 60 * minute) 0) M_pace (P_scalar (P_str ''relaxed''))
     Scope_global None None None sample_digest"

lemma stored_pace_valid: "memory_valid stored_pace" "memory_valid (stored_pace\<lparr>pm_revision := 2\<rparr>)"
  by code_simp+

theorem sqlite_preferences_refine_memory_witness:
  "answers (sql_preference_call plain_codec)
     [Do_create stored_pace, Do_save (stored_pace\<lparr>pm_revision := 2\<rparr>) 7, Do_get (''t'', ''u'') ''m1'', Do_delete (''t'', ''v'') ''m1'',
      Do_clear (''t'', ''u'')] no_tables
     = [Gave_done, Gave_error (Memory_conflict ''stale_memory_revision''), Gave_memory stored_pace,
        Gave_error (Memory_missing ''m1''), Gave_count 1]"
proof -
  let ?cs = "[Do_create stored_pace, Do_save (stored_pace\<lparr>pm_revision := 2\<rparr>) 7, Do_get (''t'', ''u'') ''m1'', Do_delete (''t'', ''v'') ''m1'',
      Do_clear (''t'', ''u'')]"
  have "codec_ok plain_codec" by (simp add: codec_ok_def plain_codec_def)
  moreover have "\<forall>c \<in> set ?cs. call_valid c" by (simp add: call_valid_def stored_pace_valid)
  ultimately show ?thesis
    by (subst sqlite_preferences_refine_memory) (simp_all add: no_preferences_def stored_def gave_def
        create_memory_def save_memory_def delete_memory_def get_memory_def clear_memories_def
        stored_pace_def explicit_memory_def)
qed

text \<open>
  Validity is needed, and the service does not ensure it: \<open>update\<close> copies the request's expiry into the record
  without validation. An expiry before the creation is stored, and from then on the user's list
  cannot be read from SQLite, while the repository in memory still answers.
\<close>

definition digest_env :: memory_env where
  "digest_env = \<lparr>me_text = (\<lambda>v. []), me_hash = (\<lambda>c v s k. sample_digest)\<rparr>"

lemma unvalidated_update_breaks_list:
  fixes now expiry :: datetime
  defines "now \<equiv> combine 739890 (9 * 60 * minute) 0" and "expiry \<equiv> combine 739889 (8 * 60 * minute) 0"
  defines "m \<equiv> stored_pace\<lparr>pm_expires_at := Some expiry, pm_revision := 2, pm_updated_at := now\<rparr>"
  shows "\<exists>sv'. update_preference digest_env (''t'', ''u'') ''m1'' None (Some expiry) 1 now
       \<lparr>sv_store = no_preferences\<lparr>st_memories := [(''m1'', stored_pace)]\<rparr>, sv_decisions = []\<rparr> = Inr (sv', m)"
    and "answers (sql_preference_call plain_codec) [Do_create stored_pace, Do_save m 1, Do_list (''t'', ''u'') True now] no_tables
       = [Gave_done, Gave_done, Gave_error (Memory_invalid ''invalid payload'')]"
    and "answers mem_preference_call [Do_create stored_pace, Do_save m 1, Do_list (''t'', ''u'') True now] no_preferences
       = [Gave_done, Gave_done, Gave_list [m]]"
proof -
  show "\<exists>sv'. update_preference digest_env (''t'', ''u'') ''m1'' None (Some expiry) 1 now
       \<lparr>sv_store = no_preferences\<lparr>st_memories := [(''m1'', stored_pace)]\<rparr>, sv_decisions = []\<rparr> = Inr (sv', m)"
    by (simp add: update_preference_def get_memory_def save_memory_def with_store_def no_preferences_def m_def digest_env_def
        stored_pace_def explicit_memory_def Let_def)
  have bad: "\<not> memory_valid m"
    unfolding m_def now_def expiry_def by code_simp
  show "answers (sql_preference_call plain_codec) [Do_create stored_pace, Do_save m 1, Do_list (''t'', ''u'') True now] no_tables
       = [Gave_done, Gave_done, Gave_error (Memory_invalid ''invalid payload'')]"
    using bad by (simp add: stored_def gave_def sql_create_memory_def sql_save_memory_def sql_list_memories_def no_tables_def
        row_of_memory_def plain_codec_def loaded_def m_def stored_pace_def explicit_memory_def Let_def)
  show "answers mem_preference_call [Do_create stored_pace, Do_save m 1, Do_list (''t'', ''u'') True now] no_preferences
       = [Gave_done, Gave_done, Gave_list [m]]"
    by (simp add: stored_def no_preferences_def create_memory_def save_memory_def get_memory_def list_memories_def newest_first_def
        m_def stored_pace_def explicit_memory_def)
qed

end
