(* ===== verification/ToolRetry.thy ===== *)
theory ToolRetry
  imports PlanningState RequirementGraph
begin

text \<open>
  The bounded retries of the program: \<open>tools/retry.py\<close>, and the loops of the language model gateways
  in \<open>requirements/gateway.py\<close> and \<open>critique/gateway.py\<close>; with the injected faults of
  \<open>execution/faults.py\<close>. What one attempt does, the provider's answer, an injected fault or an
  exhausted budget, is a function of its number. The texts
  of error messages are left out. The three loops obey one contract, the locale
  \<open>bounded_retry\<close>. Proved: at most \<open>max_attempts\<close> attempts are made, only retryable errors are
  retried, and no wait exceeds the maximal delay.
\<close>

section \<open>Attempts\<close>

datatype ('e, 'a) attempt = Returned 'a | Failed 'e | Timed_out | Crashed string

datatype fault_point =
  At_requirement_llm | At_clarification_llm | At_edit_llm | At_critic_llm | At_poi_provider | At_route_provider
| At_weather_provider | At_checkpoint_read | At_checkpoint_write | At_plan_repository | At_trace_sink

datatype fault_mode =
  Fault_timeout | Fault_rate_limit | Fault_auth_error | Fault_connection_error | Fault_invalid_schema
| Fault_empty_business_result | Fault_write_failure

fun fault_mode_value :: "fault_mode \<Rightarrow> string" where
  "fault_mode_value Fault_timeout = ''timeout''"
| "fault_mode_value Fault_rate_limit = ''rate_limit''"
| "fault_mode_value Fault_auth_error = ''auth_error''"
| "fault_mode_value Fault_connection_error = ''connection_error''"
| "fault_mode_value Fault_invalid_schema = ''invalid_schema''"
| "fault_mode_value Fault_empty_business_result = ''empty_business_result''"
| "fault_mode_value Fault_write_failure = ''write_failure''"

record fault_rule =
  fr_point :: fault_point
  fr_mode :: fault_mode
  fr_operation :: "string option"
  fr_trigger :: nat
  fr_times :: nat

text \<open>The injector counts how often each rule was applied.\<close>

record fault_injector =
  fi_rules :: "fault_rule list"
  fi_hits :: "(nat \<times> nat) list"

fun match_from ::
  "fault_point \<Rightarrow> string option \<Rightarrow> nat \<Rightarrow> nat \<Rightarrow> fault_rule list \<Rightarrow> fault_injector \<Rightarrow> fault_injector \<times> fault_mode option" where
  "match_from point op attempt index [] fi = (fi, None)"
| "match_from point op attempt index (rule # rules) fi =
     (let hits = (case map_of (fi_hits fi) index of None \<Rightarrow> 0 | Some n \<Rightarrow> n)
      in if fr_point rule \<noteq> point \<or> attempt < fr_trigger rule then match_from point op attempt (Suc index) rules fi
         else if fr_operation rule \<noteq> None \<and> fr_operation rule \<noteq> op then match_from point op attempt (Suc index) rules fi
         else if fr_times rule \<le> hits then match_from point op attempt (Suc index) rules fi
         else (fi\<lparr>fi_hits := AList.update index (hits + 1) (fi_hits fi)\<rparr>, Some (fr_mode rule)))"

definition match_fault :: "fault_point \<Rightarrow> string option \<Rightarrow> nat \<Rightarrow> fault_injector \<Rightarrow> fault_injector \<times> fault_mode option" where
  "match_fault point op attempt fi = match_from point op attempt 0 (fi_rules fi) fi"

section \<open>Tool calls\<close>

record provider_failure =
  pf_error :: tool_error
  pf_retry_after :: "rat option"

record retry_policy =
  ry_max_attempts :: nat
  ry_base_delay :: rat
  ry_max_delay :: rat

definition mk_retry_policy :: "nat \<Rightarrow> rat \<Rightarrow> rat \<Rightarrow> (string, retry_policy) result" where
  "mk_retry_policy attempts base cap =
     (if attempts < 1 then Inl ''max_attempts must be at least 1''
      else if base < 0 then Inl ''base_delay_seconds must be non-negative''
      else if cap < 0 then Inl ''max_delay_seconds must be non-negative''
      else Inr \<lparr>ry_max_attempts = attempts, ry_base_delay = base, ry_max_delay = cap\<rparr>)"

record retry_event =
  re_attempt :: nat
  re_next_attempt :: nat
  re_delay :: rat
  re_error :: provider_failure

datatype 'a retry_end =
  Retry_value 'a nat
| Retry_exhausted provider_failure nat
| Retry_crashed string
| Retry_unexpected

definition retry_delay :: "retry_policy \<Rightarrow> (nat \<Rightarrow> rat) \<Rightarrow> nat \<Rightarrow> provider_failure \<Rightarrow> rat" where
  "retry_delay p jitter a e =
     (let exponential = ry_base_delay p * 2 ^ (a - 1);
          jittered = exponential + min 1 (max 0 (jitter a)) * exponential;
          requested = (case pf_retry_after e of None \<Rightarrow> 0 | Some s \<Rightarrow> s)
      in min (ry_max_delay p) (max jittered requested))"

text \<open>The loop from attempt \<open>a\<close> on, with the retries it announces.\<close>

function retry_from ::
  "retry_policy \<Rightarrow> (nat \<Rightarrow> rat) \<Rightarrow> (nat \<Rightarrow> (provider_failure, 'a) attempt) \<Rightarrow> nat \<Rightarrow> 'a retry_end \<times> retry_event list" where
  "retry_from p jitter call a =
     (if ry_max_attempts p < a then (Retry_unexpected, [])
      else case call a of
        Returned x \<Rightarrow> (Retry_value x a, [])
      | Failed e \<Rightarrow>
          if \<not> te_retryable (pf_error e) \<or> a = ry_max_attempts p then (Retry_exhausted e a, [])
          else (let (r, events) = retry_from p jitter call (a + 1)
                in (r, \<lparr>re_attempt = a, re_next_attempt = a + 1, re_delay = retry_delay p jitter a e, re_error = e\<rparr> # events))
      | Timed_out \<Rightarrow> (Retry_crashed ''TimeoutError'', [])
      | Crashed s \<Rightarrow> (Retry_crashed s, []))"
  by pat_completeness auto
termination by (relation "measure (\<lambda>(p, j, c, a). ry_max_attempts p + 1 - a)") auto

declare retry_from.simps [simp del]

definition execute_retry ::
  "retry_policy \<Rightarrow> (nat \<Rightarrow> rat) \<Rightarrow> (nat \<Rightarrow> (provider_failure, 'a) attempt) \<Rightarrow> 'a retry_end \<times> retry_event list" where
  "execute_retry p jitter call = retry_from p jitter call 1"

section \<open>Language model calls\<close>

datatype requirement_category =
  Req_timeout | Req_connection | Req_rate_limit | Req_authentication | Req_permission | Req_invalid_request
| Req_invalid_response | Req_refusal | Req_incomplete | Req_upstream_unavailable

datatype critic_category =
  Crit_timeout | Crit_connection | Crit_rate_limit | Crit_authentication | Crit_permission | Crit_invalid_request
| Crit_invalid_json | Crit_invalid_schema | Crit_refusal | Crit_incomplete | Crit_upstream_unavailable

fun critic_category_value :: "critic_category \<Rightarrow> string" where
  "critic_category_value Crit_timeout = ''timeout''"
| "critic_category_value Crit_connection = ''connection''"
| "critic_category_value Crit_rate_limit = ''rate_limit''"
| "critic_category_value Crit_authentication = ''authentication''"
| "critic_category_value Crit_permission = ''permission''"
| "critic_category_value Crit_invalid_request = ''invalid_request''"
| "critic_category_value Crit_invalid_json = ''invalid_json''"
| "critic_category_value Crit_invalid_schema = ''invalid_schema''"
| "critic_category_value Crit_refusal = ''refusal''"
| "critic_category_value Crit_incomplete = ''incomplete''"
| "critic_category_value Crit_upstream_unavailable = ''upstream_unavailable''"

record 'c llm_error =
  le_category :: 'c
  le_code :: string
  le_retryable :: bool
  le_retry_after :: "rat option"

record llm_gateway =
  lg_provider :: string
  lg_model :: string
  lg_timeout :: rat
  lg_max_attempts :: nat
  lg_base_delay :: rat
  lg_max_delay :: rat

definition mk_llm_gateway :: "string \<Rightarrow> string \<Rightarrow> rat \<Rightarrow> nat \<Rightarrow> rat \<Rightarrow> rat \<Rightarrow> (string, llm_gateway) result" where
  "mk_llm_gateway provider model timeout attempts base cap =
     (if timeout \<le> 0 then Inl ''timeout_seconds must be positive''
      else if attempts < 1 then Inl ''max_attempts must be at least 1''
      else if base < 0 \<or> cap < 0 then Inl ''retry delays must be non-negative''
      else Inr \<lparr>lg_provider = provider, lg_model = model, lg_timeout = timeout, lg_max_attempts = attempts, lg_base_delay = base,
        lg_max_delay = cap\<rparr>)"

definition llm_delay :: "llm_gateway \<Rightarrow> nat \<Rightarrow> 'c llm_error \<Rightarrow> rat" where
  "llm_delay g a e = min (lg_max_delay g) (max (lg_base_delay g * 2 ^ (a - 1)) (case le_retry_after e of None \<Rightarrow> 0 | Some s \<Rightarrow> s))"

record 'a usage =
  us_output :: 'a
  us_input_tokens :: "int option"
  us_output_tokens :: "int option"

datatype ('c, 'a) llm_end = Llm_answer 'a nat | Llm_unavailable "'c llm_error" nat | Llm_crashed string

definition requirement_timeout :: "requirement_category llm_error" where
  "requirement_timeout = \<lparr>le_category = Req_timeout, le_code = ''timeout'', le_retryable = True, le_retry_after = None\<rparr>"

function requirement_invoke ::
  "llm_gateway \<Rightarrow> (nat \<Rightarrow> (requirement_category llm_error, 'a) attempt) \<Rightarrow> nat \<Rightarrow> (requirement_category, 'a) llm_end \<times> rat list" where
  "requirement_invoke g call a =
     (if lg_max_attempts g < a then (Llm_crashed ''requirement retry loop exited unexpectedly'', [])
      else let failing = (\<lambda>e. if \<not> le_retryable e \<or> a = lg_max_attempts g then (Llm_unavailable e a, [])
             else (let (r, delays) = requirement_invoke g call (a + 1) in (r, llm_delay g a e # delays)))
        in case call a of
             Returned x \<Rightarrow> (Llm_answer x a, [])
           | Failed e \<Rightarrow> failing e
           | Timed_out \<Rightarrow> failing requirement_timeout
           | Crashed s \<Rightarrow> (Llm_crashed s, []))"
  by pat_completeness auto
termination by (relation "measure (\<lambda>(g, c, a). lg_max_attempts g + 1 - a)") auto

declare requirement_invoke.simps [simp del]

definition critic_timeout :: "critic_category llm_error" where
  "critic_timeout = \<lparr>le_category = Crit_timeout, le_code = ''timeout'', le_retryable = True, le_retry_after = None\<rparr>"

function critic_invoke ::
  "llm_gateway \<Rightarrow> (nat \<Rightarrow> (critic_category llm_error, 'a) attempt) \<Rightarrow> nat \<Rightarrow> (critic_category, 'a) llm_end \<times> rat list" where
  "critic_invoke g call a =
     (if lg_max_attempts g < a then (Llm_crashed ''critic retry loop exited unexpectedly'', [])
      else let failing = (\<lambda>e. if \<not> le_retryable e \<or> a = lg_max_attempts g then (Llm_unavailable e a, [])
             else (let (r, delays) = critic_invoke g call (a + 1) in (r, llm_delay g a e # delays)))
        in case call a of
             Returned x \<Rightarrow> (Llm_answer x a, [])
           | Failed e \<Rightarrow> failing e
           | Timed_out \<Rightarrow> failing critic_timeout
           | Crashed s \<Rightarrow> (Llm_crashed s, []))"
  by pat_completeness auto
termination by (relation "measure (\<lambda>(g, c, a). lg_max_attempts g + 1 - a)") auto

declare critic_invoke.simps [simp del]

section \<open>Injected faults and the results of the gateways\<close>

definition injected_requirement_category :: "fault_mode \<Rightarrow> requirement_category" where
  "injected_requirement_category m =
     (case m of
        Fault_timeout \<Rightarrow> Req_timeout | Fault_rate_limit \<Rightarrow> Req_rate_limit | Fault_auth_error \<Rightarrow> Req_authentication
      | Fault_connection_error \<Rightarrow> Req_connection | Fault_invalid_schema \<Rightarrow> Req_invalid_response
      | Fault_empty_business_result \<Rightarrow> Req_invalid_response | Fault_write_failure \<Rightarrow> Req_upstream_unavailable)"

definition injected_requirement_error :: "fault_mode \<Rightarrow> requirement_category llm_error" where
  "injected_requirement_error m =
     \<lparr>le_category = injected_requirement_category m, le_code = ''injected_'' @ fault_mode_value m,
      le_retryable = (m \<in> {Fault_timeout, Fault_rate_limit, Fault_connection_error, Fault_write_failure}),
      le_retry_after = None\<rparr>"

definition injected_critic_category :: "fault_mode \<Rightarrow> critic_category" where
  "injected_critic_category m =
     (case m of
        Fault_timeout \<Rightarrow> Crit_timeout | Fault_rate_limit \<Rightarrow> Crit_rate_limit | Fault_auth_error \<Rightarrow> Crit_authentication
      | Fault_connection_error \<Rightarrow> Crit_connection | Fault_invalid_schema \<Rightarrow> Crit_invalid_schema
      | Fault_empty_business_result \<Rightarrow> Crit_invalid_schema | Fault_write_failure \<Rightarrow> Crit_upstream_unavailable)"

definition injected_critic_error :: "fault_mode \<Rightarrow> critic_category llm_error" where
  "injected_critic_error m =
     \<lparr>le_category = injected_critic_category m, le_code = ''injected_'' @ fault_mode_value m,
      le_retryable = (m \<in> {Fault_timeout, Fault_rate_limit, Fault_connection_error, Fault_write_failure}),
      le_retry_after = None\<rparr>"

text \<open>
  What \<open>RequirementGateway\<close> returns for an operation: the output with the summary of the call. The
  elapsed time is an argument.
\<close>

definition requirement_result ::
  "llm_gateway \<Rightarrow> string \<Rightarrow> requirement_operation \<Rightarrow> rat \<Rightarrow> (requirement_category, 'a usage) llm_end \<Rightarrow> (string, 'a \<times> llm_summary) result" where
  "requirement_result g prompt op elapsed r =
     (case r of
        Llm_answer x a \<Rightarrow> Inr (us_output x, \<lparr>ls_provider = lg_provider g, ls_model = lg_model g, ls_prompt_version = prompt,
          ls_operation = op, ls_attempts = a, ls_elapsed_ms = elapsed, ls_input_tokens = us_input_tokens x,
          ls_output_tokens = us_output_tokens x\<rparr>)
      | Llm_unavailable e a \<Rightarrow> Inl (le_code e)
      | Llm_crashed s \<Rightarrow> Inl s)"

definition requirement_call ::
  "llm_gateway \<Rightarrow> string \<Rightarrow> requirement_operation \<Rightarrow> rat \<Rightarrow> (nat \<Rightarrow> (requirement_category llm_error, 'a usage) attempt)
     \<Rightarrow> (string, 'a \<times> llm_summary) result" where
  "requirement_call g prompt op elapsed call = requirement_result g prompt op elapsed (fst (requirement_invoke g call 1))"

text \<open>\<open>CriticGateway.critique\<close>, as the critic outcome the planning graph handles.\<close>

definition critic_call ::
  "llm_gateway \<Rightarrow> string \<Rightarrow> critic_request \<Rightarrow> int \<Rightarrow> rat \<Rightarrow> (nat \<Rightarrow> (critic_category llm_error, soft_critique list usage) attempt)
     \<Rightarrow> (string, critic_outcome) result" where
  "critic_call g prompt q grounding elapsed call =
     (case fst (critic_invoke g call 1) of
        Llm_answer x a \<Rightarrow> Inr (Criticised (us_output x)
          \<lparr>cs_provider = lg_provider g, cs_model = lg_model g, cs_prompt_version = prompt, cs_status = Critic_success,
           cs_attempts = int a, cs_grounding_attempts = grounding, cs_elapsed_ms = elapsed, cs_input_tokens = us_input_tokens x,
           cs_output_tokens = us_output_tokens x, cs_input_chars = request_input_chars q, cs_error_category = None\<rparr>)
      | Llm_unavailable e a \<Rightarrow> Inr (Critic_gone (lg_provider g) (lg_model g) (int a) elapsed (critic_category_value (le_category e)))
      | Llm_crashed s \<Rightarrow> Inl s)"

section \<open>The contract of a bounded retry\<close>

locale bounded_retry =
  fixes loop :: "nat \<Rightarrow> 'r \<times> 'v list" and failure :: "nat \<Rightarrow> 'e option" and settled :: "nat \<Rightarrow> 'r"
    and give_up :: "'e \<Rightarrow> nat \<Rightarrow> 'r" and announce :: "nat \<Rightarrow> 'e \<Rightarrow> 'v" and retryable :: "'e \<Rightarrow> bool" and most :: nat
  assumes unroll: "a \<le> most \<Longrightarrow> loop a =
    (case failure a of
       None \<Rightarrow> (settled a, [])
     | Some e \<Rightarrow> if \<not> retryable e \<or> a = most then (give_up e a, []) else apsnd (Cons (announce a e)) (loop (a + 1)))"
begin

lemma ends:
  assumes "a \<le> most"
  shows "\<exists>n. a \<le> n \<and> n \<le> most \<and> (\<forall>k. a \<le> k \<and> k < n \<longrightarrow> (\<exists>e. failure k = Some e \<and> retryable e)) \<and>
     snd (loop a) = map (\<lambda>k. announce k (the (failure k))) [a..<n] \<and>
     (case failure n of None \<Rightarrow> fst (loop a) = settled n | Some e \<Rightarrow> (\<not> retryable e \<or> n = most) \<and> fst (loop a) = give_up e n)"
  using assms
proof (induction "most - a" arbitrary: a)
  case 0
  then show ?case by (intro exI [of _ a]) (auto simp: unroll split: option.split)
next
  case (Suc d)
  show ?case
  proof (cases "\<exists>e. failure a = Some e \<and> retryable e \<and> a \<noteq> most")
    case False
    then show ?thesis using Suc.prems by (intro exI [of _ a]) (auto simp: unroll split: option.split)
  next
    case True
    then obtain e where e: "failure a = Some e" "retryable e" "a \<noteq> most" by blast
    then have step: "loop a = apsnd (Cons (announce a e)) (loop (a + 1))" using unroll [OF Suc.prems] by simp
    have "d = most - (a + 1)" "a + 1 \<le> most" using Suc.hyps(2) Suc.prems e(3) by auto
    from Suc.hyps(1) [OF this] obtain n where n: "a + 1 \<le> n" "n \<le> most"
      "\<forall>k. a + 1 \<le> k \<and> k < n \<longrightarrow> (\<exists>e. failure k = Some e \<and> retryable e)"
      "snd (loop (a + 1)) = map (\<lambda>k. announce k (the (failure k))) [a + 1..<n]"
      "case failure n of None \<Rightarrow> fst (loop (a + 1)) = settled n | Some e \<Rightarrow> (\<not> retryable e \<or> n = most) \<and> fst (loop (a + 1)) = give_up e n"
      by blast
    have "[a..<n] = a # [a + 1..<n]" using n(1) by (simp add: upt_conv_Cons)
    moreover have "\<forall>k. a \<le> k \<and> k < n \<longrightarrow> (\<exists>e. failure k = Some e \<and> retryable e)"
      using n(3) e by (metis Suc_eq_plus1 le_neq_implies_less less_iff_Suc_add Suc_leI)
    ultimately show ?thesis using n e step by (intro exI [of _ n]) (auto split: option.splits)
  qed
qed

end

text \<open>The failure of an attempt that is handled.\<close>

definition handled :: "'e option \<Rightarrow> ('e, 'a) attempt \<Rightarrow> 'e option" where
  "handled timeout x = (case x of Failed e \<Rightarrow> Some e | Timed_out \<Rightarrow> timeout | _ \<Rightarrow> None)"

definition tool_settled :: "(nat \<Rightarrow> (provider_failure, 'a) attempt) \<Rightarrow> nat \<Rightarrow> 'a retry_end" where
  "tool_settled call a = (case call a of Returned x \<Rightarrow> Retry_value x a | Crashed s \<Rightarrow> Retry_crashed s | _ \<Rightarrow> Retry_crashed ''TimeoutError'')"

definition llm_settled :: "(nat \<Rightarrow> ('c llm_error, 'a) attempt) \<Rightarrow> nat \<Rightarrow> ('c, 'a) llm_end" where
  "llm_settled call a = (case call a of Returned x \<Rightarrow> Llm_answer x a | Crashed s \<Rightarrow> Llm_crashed s | _ \<Rightarrow> Llm_crashed [])"

interpretation tool_retry: bounded_retry "retry_from p jitter call" "\<lambda>a. handled None (call a)" "tool_settled call" Retry_exhausted
    "\<lambda>a e. \<lparr>re_attempt = a, re_next_attempt = a + 1, re_delay = retry_delay p jitter a e, re_error = e\<rparr>"
    "\<lambda>e. te_retryable (pf_error e)" "ry_max_attempts p" for p jitter call
  by unfold_locales (subst retry_from.simps, auto simp: handled_def tool_settled_def split: attempt.split prod.split)

interpretation requirement_retry: bounded_retry "requirement_invoke g call" "\<lambda>a. handled (Some requirement_timeout) (call a)"
    "llm_settled call" Llm_unavailable "llm_delay g" le_retryable "lg_max_attempts g" for g call
  by unfold_locales (subst requirement_invoke.simps, auto simp: handled_def llm_settled_def split: attempt.split prod.split)

interpretation critic_retry: bounded_retry "critic_invoke g call" "\<lambda>a. handled (Some critic_timeout) (call a)"
    "llm_settled call" Llm_unavailable "llm_delay g" le_retryable "lg_max_attempts g" for g call
  by unfold_locales (subst critic_invoke.simps, auto simp: handled_def llm_settled_def split: attempt.split prod.split)

lemma retry_delay_bounds:
  assumes "mk_retry_policy n b c = Inr p"
  shows "0 \<le> retry_delay p jitter a e \<and> retry_delay p jitter a e \<le> ry_max_delay p"
proof -
  have p: "0 \<le> ry_base_delay p" "0 \<le> ry_max_delay p" using assms by (auto simp: mk_retry_policy_def split: if_splits)
  then have "0 \<le> ry_base_delay p * 2 ^ (a - 1)" by simp
  then have "0 \<le> ry_base_delay p * 2 ^ (a - 1) + min 1 (max 0 (jitter a)) * (ry_base_delay p * 2 ^ (a - 1))" by simp
  then show ?thesis using p by (simp add: retry_delay_def Let_def le_max_iff_disj)
qed

lemma llm_delay_bounds:
  assumes "mk_llm_gateway pr m t n b c = Inr g"
  shows "0 \<le> llm_delay g a e \<and> llm_delay g a e \<le> lg_max_delay g"
proof -
  have g: "0 \<le> lg_base_delay g" "0 \<le> lg_max_delay g" using assms by (auto simp: mk_llm_gateway_def split: if_splits)
  then have "0 \<le> lg_base_delay g * 2 ^ (a - 1)" by simp
  then show ?thesis using g by (simp add: llm_delay_def le_max_iff_disj)
qed

text \<open>
  C38. Tool calls are retried within bounds. A call makes at least one and at most the configured number
  of attempts; every attempt but the last failed with a retryable error; each wait between two
  attempts lies between zero and the maximal delay; and the last attempt decides: its value is the
  result, or its error is reported if it must not be retried or no attempt is left.
\<close>

theorem tool_calls_retry_within_bounds:
  assumes "mk_retry_policy most base cap = Inr p" and "execute_retry p jitter call = (r, events)"
  shows "\<exists>n. 1 \<le> n \<and> n \<le> most \<and> length events = n - 1 \<and>
     (\<forall>k. 1 \<le> k \<and> k < n \<longrightarrow> (\<exists>e. call k = Failed e \<and> te_retryable (pf_error e))) \<and>
     (\<forall>v \<in> set events. 0 \<le> re_delay v \<and> re_delay v \<le> cap) \<and>
     (case call n of
        Returned x \<Rightarrow> r = Retry_value x n
      | Failed e \<Rightarrow> r = Retry_exhausted e n \<and> (\<not> te_retryable (pf_error e) \<or> n = most)
      | Timed_out \<Rightarrow> r = Retry_crashed ''TimeoutError''
      | Crashed s \<Rightarrow> r = Retry_crashed s)"
proof -
  have p: "1 \<le> ry_max_attempts p" "ry_max_attempts p = most" "ry_max_delay p = cap"
    using assms(1) by (auto simp: mk_retry_policy_def split: if_splits)
  have run: "fst (retry_from p jitter call 1) = r" "snd (retry_from p jitter call 1) = events"
    using assms(2) by (simp_all add: execute_retry_def)
  obtain n where n: "1 \<le> n" "n \<le> most" "\<forall>k. 1 \<le> k \<and> k < n \<longrightarrow> (\<exists>e. handled None (call k) = Some e \<and> te_retryable (pf_error e))"
    and ev: "events = map (\<lambda>k. \<lparr>re_attempt = k, re_next_attempt = k + 1, re_delay = retry_delay p jitter k (the (handled None (call k))),
        re_error = the (handled None (call k))\<rparr>) [1..<n]"
    and out: "case handled None (call n) of None \<Rightarrow> r = tool_settled call n
        | Some e \<Rightarrow> (\<not> te_retryable (pf_error e) \<or> n = most) \<and> r = Retry_exhausted e n"
    using tool_retry.ends [OF p(1), of call jitter, unfolded run p(2)] by blast
  have "\<exists>e. call k = Failed e \<and> te_retryable (pf_error e)" if "1 \<le> k \<and> k < n" for k
    using n(3) [rule_format, OF that] by (cases "call k") (auto simp: handled_def)
  moreover have "\<forall>v \<in> set events. 0 \<le> re_delay v \<and> re_delay v \<le> cap"
    using retry_delay_bounds [OF assms(1)] p(3) by (auto simp: ev)
  moreover have "length events = n - 1" by (simp add: ev)
  ultimately show ?thesis using n(1,2) out
    by (intro exI [of _ n]) (auto simp: handled_def tool_settled_def split: attempt.splits)
qed

definition flaky_call :: "nat \<Rightarrow> (provider_failure, string) attempt" where
  "flaky_call a = (if a < 3 then Failed \<lparr>pf_error = \<lparr>te_category = Cat_timeout, te_code = ''timeout'', te_operation = ''poi.search'',
     te_retryable = True\<rparr>, pf_retry_after = Some 5\<rparr> else Returned ''ok'')"

theorem tool_calls_retry_within_bounds_witness:
  "\<exists>p r events. mk_retry_policy 3 (1 / 4) 2 = Inr p \<and> execute_retry p (\<lambda>a. 1 / 2) flaky_call = (r, events) \<and>
     r = Retry_value ''ok'' 3 \<and> (\<forall>v \<in> set events. 0 \<le> re_delay v \<and> re_delay v \<le> 2)"
proof -
  obtain p where p: "mk_retry_policy 3 (1 / 4) 2 = Inr p" by (simp add: mk_retry_policy_def)
  obtain r events where run: "execute_retry p (\<lambda>a. 1 / 2) flaky_call = (r, events)" by force
  obtain n where n: "1 \<le> n" "n \<le> 3" "\<forall>v \<in> set events. 0 \<le> re_delay v \<and> re_delay v \<le> 2"
    "case flaky_call n of Returned x \<Rightarrow> r = Retry_value x n
      | Failed e \<Rightarrow> r = Retry_exhausted e n \<and> (\<not> te_retryable (pf_error e) \<or> n = 3)
      | Timed_out \<Rightarrow> r = Retry_crashed ''TimeoutError''
      | Crashed s \<Rightarrow> r = Retry_crashed s"
    using tool_calls_retry_within_bounds [OF p run] by blast
  have "n = 3" using n(1,2,4) by (auto simp: flaky_call_def split: if_splits)
  then show ?thesis using p run n(3,4) by (auto simp: flaky_call_def)
qed

text \<open>
  What a retried call of a language model with the given time-out error comes to: after a number of
  attempts within the limit, all but the last of which failed in a way that may be retried, the last one decides; a failure
  of it is final, or no attempt is left. The waits are those after the failed attempts.
\<close>

definition retried_call ::
  "llm_gateway \<Rightarrow> 'c llm_error \<Rightarrow> (nat \<Rightarrow> ('c llm_error, 'a) attempt) \<Rightarrow> ('c, 'a) llm_end \<Rightarrow> rat list \<Rightarrow> bool" where
  "retried_call g timeout call r waits \<longleftrightarrow> (\<exists>n. 1 \<le> n \<and> n \<le> lg_max_attempts g \<and>
     (\<forall>k. 1 \<le> k \<and> k < n \<longrightarrow> (\<exists>e. handled (Some timeout) (call k) = Some e \<and> le_retryable e)) \<and>
     waits = map (\<lambda>k. llm_delay g k (the (handled (Some timeout) (call k)))) [1..<n] \<and>
     (case call n of
        Returned x \<Rightarrow> r = Llm_answer x n
      | Failed e \<Rightarrow> r = Llm_unavailable e n \<and> (\<not> le_retryable e \<or> n = lg_max_attempts g)
      | Timed_out \<Rightarrow> r = Llm_unavailable timeout n \<and> n = lg_max_attempts g
      | Crashed s \<Rightarrow> r = Llm_crashed s))"

lemma retried_callI:
  assumes "le_retryable timeout" and "1 \<le> n" "n \<le> lg_max_attempts g"
    and "\<forall>k. 1 \<le> k \<and> k < n \<longrightarrow> (\<exists>e. handled (Some timeout) (call k) = Some e \<and> le_retryable e)"
    and "waits = map (\<lambda>k. llm_delay g k (the (handled (Some timeout) (call k)))) [1..<n]"
    and "case handled (Some timeout) (call n) of None \<Rightarrow> r = llm_settled call n
      | Some e \<Rightarrow> (\<not> le_retryable e \<or> n = lg_max_attempts g) \<and> r = Llm_unavailable e n"
  shows "retried_call g timeout call r waits"
  unfolding retried_call_def using assms
  by (intro exI [of _ n]) (cases "call n"; auto simp: handled_def llm_settled_def)

lemma retried_call_waits:
  fixes e :: "'c llm_error"
  assumes "mk_llm_gateway provider model timeout most base cap = Inr g" and "retried_call g e call r waits"
  shows "list_all (\<lambda>s. 0 \<le> s \<and> s \<le> cap) waits"
proof -
  have "lg_max_delay g = cap" using assms(1) by (auto simp: mk_llm_gateway_def split: if_splits)
  then have "0 \<le> llm_delay g k e' \<and> llm_delay g k e' \<le> cap" for k and e' :: "'c llm_error"
    using llm_delay_bounds [OF assms(1)] by metis
  then show ?thesis using assms(2) by (auto simp: retried_call_def list_all_iff)
qed

text \<open>
  C39. The language model gateways retry within bounds, and in the same way: for the requirement model
  and the critic, a call makes at most the configured number of attempts, repeats exactly after a retryable
  error or a time-out while an attempt is left, waits at most the maximal delay before each of the repetitions, and
  ends with the answer or the error of its last attempt.
\<close>

theorem model_calls_retry_within_bounds:
  assumes "mk_llm_gateway provider model timeout most base cap = Inr g"
  shows "lg_max_attempts g = most \<and>
     retried_call g requirement_timeout ask (fst (requirement_invoke g ask 1)) (snd (requirement_invoke g ask 1)) \<and>
     retried_call g critic_timeout judge (fst (critic_invoke g judge 1)) (snd (critic_invoke g judge 1)) \<and>
     list_all (\<lambda>s. 0 \<le> s \<and> s \<le> cap) (snd (requirement_invoke g ask 1) @ snd (critic_invoke g judge 1))"
proof -
  have g: "1 \<le> lg_max_attempts g" "lg_max_attempts g = most"
    using assms by (auto simp: mk_llm_gateway_def split: if_splits)
  have "retried_call g requirement_timeout ask (fst (requirement_invoke g ask 1)) (snd (requirement_invoke g ask 1))"
    using requirement_retry.ends [OF g(1), of ask] by (elim exE conjE, intro retried_callI) (simp_all add: requirement_timeout_def)
  moreover have "retried_call g critic_timeout judge (fst (critic_invoke g judge 1)) (snd (critic_invoke g judge 1))"
    using critic_retry.ends [OF g(1), of judge] by (elim exE conjE, intro retried_callI) (simp_all add: critic_timeout_def)
  moreover note retried_call_waits [OF assms calculation(1)] retried_call_waits [OF assms calculation(2)]
  ultimately show ?thesis using g(2) by simp
qed

theorem model_calls_retry_within_bounds_witness:
  "\<exists>g. mk_llm_gateway ''mock'' ''m'' 5 2 (1 / 2) 2 = Inr g \<and>
     fst (requirement_invoke g (\<lambda>a. Timed_out :: (requirement_category llm_error, nat) attempt) 1)
        = Llm_unavailable requirement_timeout 2"
proof -
  obtain g where g: "mk_llm_gateway ''mock'' ''m'' 5 2 (1 / 2) 2 = Inr g" by (simp add: mk_llm_gateway_def)
  from model_calls_retry_within_bounds [OF g, of "\<lambda>a. Timed_out :: (requirement_category llm_error, nat) attempt"
      "\<lambda>a. Timed_out :: (critic_category llm_error, nat) attempt"] g
  show ?thesis by (auto simp: retried_call_def)
qed

end
