(* ===== verification/ToolCache.thy ===== *)
theory ToolCache
  imports ToolRetry
begin

text \<open>
  \<open>tools/cache.py\<close>, the time-limited cache with single-flight loading, and \<open>tools/gateway.py\<close> with the
  part \<open>weather/gateway.py\<close> shares with it. A lookup is split at its \<open>await\<close>: \<open>begin_lookup\<close> up to the
  point where the caller waits for a load, \<open>finish_load\<close> or \<open>fail_load\<close> when the load ends, so that the
  steps of any number of callers interleave freely. Times are readings of the monotonic clock.
  Proved: what is served is live and was loaded for that key, the cache stays within its size, and a key is
  never loaded twice at a time.
\<close>

section \<open>The cache\<close>

record 'v cache_entry =
  en_value :: 'v
  en_expires :: rat
  en_inserted :: rat

record 'v ttl_cache =
  tc_max :: nat
  tc_entries :: "(string \<times> 'v cache_entry) list"
  tc_inflight :: "(string \<times> nat) list"

record 'v cache_lookup =
  lk_value :: 'v
  lk_hit :: bool
  lk_expires :: rat

definition mk_ttl_cache :: "int \<Rightarrow> (string, 'v ttl_cache) result" where
  "mk_ttl_cache n =
     (if n < 1 then Inl ''max_entries must be at least 1'' else Inr \<lparr>tc_max = nat n, tc_entries = [], tc_inflight = []\<rparr>)"

definition without_key :: "string \<Rightarrow> (string \<times> 'x) list \<Rightarrow> (string \<times> 'x) list" where
  "without_key key kvs = filter (\<lambda>(k, x). k \<noteq> key) kvs"

definition get_live_entry :: "string \<Rightarrow> rat \<Rightarrow> 'v ttl_cache \<Rightarrow> 'v ttl_cache \<times> 'v cache_entry option" where
  "get_live_entry key now c =
     (case map_of (tc_entries c) key of
        None \<Rightarrow> (c, None)
      | Some e \<Rightarrow> if now < en_expires e then (c, Some e) else (c\<lparr>tc_entries := without_key key (tc_entries c)\<rparr>, None))"

definition remove_expired :: "rat \<Rightarrow> 'v ttl_cache \<Rightarrow> 'v ttl_cache" where
  "remove_expired now c = c\<lparr>tc_entries := filter (\<lambda>(k, e). \<not> en_expires e \<le> now) (tc_entries c)\<rparr>"

definition oldest :: "(string \<times> 'v cache_entry) \<Rightarrow> (string \<times> 'v cache_entry) list \<Rightarrow> string" where
  "oldest x xs = fst (min_by (\<lambda>(k, e). (en_expires e, en_inserted e)) x xs)"

fun evict :: "nat \<Rightarrow> nat \<Rightarrow> (string \<times> 'v cache_entry) list \<Rightarrow> (string \<times> 'v cache_entry) list" where
  "evict 0 n kvs = kvs"
| "evict (Suc fuel) n kvs =
     (if length kvs \<le> n then kvs
      else case kvs of [] \<Rightarrow> [] | x # xs \<Rightarrow> evict fuel n (without_key (oldest x xs) kvs))"

definition evict_if_needed :: "'v ttl_cache \<Rightarrow> 'v ttl_cache" where
  "evict_if_needed c = c\<lparr>tc_entries := evict (length (tc_entries c)) (tc_max c) (tc_entries c)\<rparr>"

text \<open>A lookup is a hit, waits for the load that runs, or starts one as task \<open>task\<close>.\<close>

datatype 'v lookup_start = Hit "'v cache_lookup" | Joins nat | Starts nat

definition begin_lookup :: "string \<Rightarrow> rat \<Rightarrow> nat \<Rightarrow> 'v ttl_cache \<Rightarrow> 'v ttl_cache \<times> 'v lookup_start" where
  "begin_lookup key now task c =
     (let (c', e) = get_live_entry key now c in
      case e of
        Some e \<Rightarrow> (c', Hit \<lparr>lk_value = en_value e, lk_hit = True, lk_expires = en_expires e\<rparr>)
      | None \<Rightarrow> (case map_of (tc_inflight c') key of
          Some t \<Rightarrow> (c', Joins t)
        | None \<Rightarrow> (c'\<lparr>tc_inflight := AList.update key task (tc_inflight c')\<rparr>, Starts task)))"

definition leave :: "string \<Rightarrow> nat \<Rightarrow> 'v ttl_cache \<Rightarrow> 'v ttl_cache" where
  "leave key task c =
     (if map_of (tc_inflight c) key = Some task then c\<lparr>tc_inflight := without_key key (tc_inflight c)\<rparr> else c)"

definition finish_load ::
  "('v \<Rightarrow> bool) \<Rightarrow> string \<Rightarrow> nat \<Rightarrow> rat \<Rightarrow> 'v \<Rightarrow> rat \<Rightarrow> 'v ttl_cache \<Rightarrow> 'v ttl_cache \<times> 'v cache_lookup \<times> bool" where
  "finish_load should_cache key task ttl value now c =
     (let cached = should_cache value;
          put = (\<lambda>c. c\<lparr>tc_entries := AList.update key \<lparr>en_value = value, en_expires = now + ttl, en_inserted = now\<rparr> (tc_entries c)\<rparr>);
          c' = (if cached then evict_if_needed (put (remove_expired now c)) else c)
      in (leave key task c', \<lparr>lk_value = value, lk_hit = False, lk_expires = now + ttl\<rparr>, cached))"

definition fail_load :: "string \<Rightarrow> nat \<Rightarrow> 'v ttl_cache \<Rightarrow> 'v ttl_cache" where
  "fail_load key task c = leave key task c"

text \<open>What a caller gets when the load it waits for has ended.\<close>

definition lookup_answer :: "bool \<Rightarrow> 'v cache_lookup \<times> bool \<Rightarrow> 'v cache_lookup" where
  "lookup_answer is_loader r = (if is_loader \<or> \<not> snd r then fst r else (fst r)\<lparr>lk_hit := True\<rparr>)"

section \<open>Tool results\<close>

definition tool_timeout :: "string \<Rightarrow> provider_failure" where
  "tool_timeout op = \<lparr>pf_error = \<lparr>te_category = Cat_timeout, te_code = ''timeout'', te_operation = op, te_retryable = True\<rparr>,
     pf_retry_after = None\<rparr>"

definition injected_tool_error :: "fault_mode \<Rightarrow> string \<Rightarrow> provider_failure" where
  "injected_tool_error m op =
     (let (category, code, retryable) =
        (case m of
           Fault_timeout \<Rightarrow> (Cat_timeout, ''timeout'', True) | Fault_rate_limit \<Rightarrow> (Cat_rate_limit, ''rate_limit'', True)
         | Fault_auth_error \<Rightarrow> (Cat_authentication, ''authentication'', False)
         | Fault_connection_error \<Rightarrow> (Cat_connection, ''connection'', True)
         | Fault_invalid_schema \<Rightarrow> (Cat_invalid_response, ''invalid_response'', False)
         | Fault_empty_business_result \<Rightarrow> (Cat_invalid_response, ''empty_business_result'', False)
         | Fault_write_failure \<Rightarrow> (Cat_upstream_unavailable, ''upstream_unavailable'', True))
      in \<lparr>pf_error = \<lparr>te_category = category, te_code = ''injected_'' @ code, te_operation = op, te_retryable = retryable\<rparr>,
          pf_retry_after = None\<rparr>)"

text \<open>One attempt: an injected fault, or what the provider does; \<open>blank\<close> is the value \<open>[]\<close> of a place search.\<close>

definition tool_attempt :: "string \<Rightarrow> 'a \<Rightarrow> fault_mode option \<Rightarrow> (provider_failure, 'a) attempt \<Rightarrow> (provider_failure, 'a) attempt" where
  "tool_attempt op blank fault provided =
     (case fault of
        Some m \<Rightarrow> if m = Fault_empty_business_result \<and> op = ''poi.search'' then Returned blank else Failed (injected_tool_error m op)
      | None \<Rightarrow> (case provided of Timed_out \<Rightarrow> Failed (tool_timeout op) | x \<Rightarrow> x))"

text \<open>The result a load returns to the cache; any other exception is passed on.\<close>

definition tool_load :: "string \<Rightarrow> int \<Rightarrow> datetime \<Rightarrow> rat \<Rightarrow> 'a retry_end \<Rightarrow> (string, 'a tool_result) result" where
  "tool_load provider ttl fetched elapsed r =
     (case r of
        Retry_value x n \<Rightarrow> Inr (tool_success x provider (Some fetched) (Some (dt_add fetched (ttl * second))) False (int n) (Some elapsed))
      | Retry_exhausted e n \<Rightarrow> Inr (tool_failure provider (pf_error e) None None False (int n) (Some elapsed))
      | Retry_crashed s \<Rightarrow> Inl s
      | Retry_unexpected \<Rightarrow> Inl ''retry loop exited unexpectedly'')"

definition result_cachable :: "'a tool_result \<Rightarrow> bool" where
  "result_cachable r \<longleftrightarrow> tr_status r = Tool_success"

definition delivered :: "'a tool_result cache_lookup \<Rightarrow> 'a tool_result" where
  "delivered l = (lk_value l)\<lparr>tr_cache_hit := lk_hit l, tr_attempt_count := (if lk_hit l then 0 else tr_attempt_count (lk_value l)),
     tr_elapsed_ms := (if lk_hit l then Some 0 else tr_elapsed_ms (lk_value l))\<rparr>"

text \<open>
  The calls for several queries run concurrently; \<open>execute\<close> gives the result each gets in the
  schedule at hand. Results come in the order of the queries, routes by their key.
\<close>

definition poi_cache_key :: "string \<Rightarrow> poi_search_query \<Rightarrow> string" where
  "poi_cache_key provider q = provider @ ''|poi|'' @ casefold (q_city q) @ ''|'' @ casefold (q_keyword q) @ ''|'' @
     (if q_exact_match q then ''True'' else ''False'') @ ''|'' @ show_int (q_limit q)"

definition search_pois :: "string \<Rightarrow> (string \<Rightarrow> poi_search_query \<Rightarrow> poi_facts list tool_result) \<Rightarrow> poi_search_query list
     \<Rightarrow> poi_facts list tool_result list" where
  "search_pois provider execute qs = map (\<lambda>q. execute (poi_cache_key provider q) q) qs"

definition get_routes :: "string \<Rightarrow> (string \<Rightarrow> route_query \<Rightarrow> route_result tool_result) \<Rightarrow> route_query list
     \<Rightarrow> (string \<times> route_result tool_result) list" where
  "get_routes provider execute qs =
     map (\<lambda>(key, q). (key, execute (provider @ ''|route|'' @ key) q)) (dict_of (map (\<lambda>q. (route_key q, q)) qs))"

section \<open>Interleaved lookups\<close>

text \<open>
  A system of lookups: the cache, the loads that run (task, key, time to live), the clock, and the loads
  that ended so far (key, value, expiry), which only the statements below read.
\<close>

record 'v cache_system =
  sy_cache :: "'v ttl_cache"
  sy_running :: "(nat \<times> string \<times> rat) list"
  sy_clock :: rat
  sy_loads :: "(string \<times> 'v \<times> rat) list"

inductive cache_step :: "('v \<Rightarrow> bool) \<Rightarrow> 'v cache_system \<Rightarrow> 'v cache_system \<Rightarrow> bool" for should where
  tick: "sy_clock s \<le> now \<Longrightarrow> cache_step should s (s\<lparr>sy_clock := now\<rparr>)"
| served: "begin_lookup key (sy_clock s) task (sy_cache s) = (c, Hit l) \<Longrightarrow> cache_step should s (s\<lparr>sy_cache := c\<rparr>)"
| waits: "begin_lookup key (sy_clock s) task (sy_cache s) = (c, Joins t) \<Longrightarrow> cache_step should s (s\<lparr>sy_cache := c\<rparr>)"
| starts: "begin_lookup key (sy_clock s) task (sy_cache s) = (c, Starts task) \<Longrightarrow> task \<notin> fst ` set (sy_running s) \<Longrightarrow>
     cache_step should s (s\<lparr>sy_cache := c, sy_running := sy_running s @ [(task, key, ttl)]\<rparr>)"
| ends: "(task, key, ttl) \<in> set (sy_running s) \<Longrightarrow> finish_load should key task ttl v (sy_clock s) (sy_cache s) = (c, l, cached) \<Longrightarrow>
     cache_step should s (s\<lparr>sy_cache := c, sy_running := filter (\<lambda>x. fst x \<noteq> task) (sy_running s),
       sy_loads := sy_loads s @ [(key, v, sy_clock s + ttl)]\<rparr>)"
| fails: "(task, key, ttl) \<in> set (sy_running s) \<Longrightarrow>
     cache_step should s (s\<lparr>sy_cache := fail_load key task (sy_cache s), sy_running := filter (\<lambda>x. fst x \<noteq> task) (sy_running s)\<rparr>)"

definition cache_ok :: "('v \<Rightarrow> bool) \<Rightarrow> 'v cache_system \<Rightarrow> bool" where
  "cache_ok should s \<longleftrightarrow> 1 \<le> tc_max (sy_cache s) \<and> length (tc_entries (sy_cache s)) \<le> tc_max (sy_cache s) \<and>
     distinct (map fst (tc_entries (sy_cache s))) \<and>
     (\<forall>(k, e) \<in> set (tc_entries (sy_cache s)). (k, en_value e, en_expires e) \<in> set (sy_loads s) \<and> should (en_value e)) \<and>
     distinct (map fst (tc_inflight (sy_cache s))) \<and> distinct (map fst (sy_running s)) \<and>
     set (tc_inflight (sy_cache s)) = (\<lambda>(t, k, ttl). (k, t)) ` set (sy_running s)"


lemma cache_okD:
  assumes "cache_ok should s"
  shows "distinct (map fst (tc_entries (sy_cache s)))" "length (tc_entries (sy_cache s)) \<le> tc_max (sy_cache s)"
    and "distinct (map fst (tc_inflight (sy_cache s)))" "distinct (map fst (sy_running s))" "1 \<le> tc_max (sy_cache s)"
    and "(k, e) \<in> set (tc_entries (sy_cache s)) \<Longrightarrow> (k, en_value e, en_expires e) \<in> set (sy_loads s) \<and> should (en_value e)"
    and "set (tc_inflight (sy_cache s)) = (\<lambda>(t, k, ttl). (k, t)) ` set (sy_running s)"
  using assms unfolding cache_ok_def by auto

section \<open>What each operation keeps\<close>

lemma in_set_update: "(k, x) \<in> set (AList.update key y kvs) \<Longrightarrow> (k, x) \<in> set kvs \<or> k = key \<and> x = y"
  by (induction kvs) (auto split: if_split_asm)

lemma set_update_fresh: "map_of kvs key = None \<Longrightarrow> set (AList.update key y kvs) = insert (key, y) (set kvs)"
  by (induction kvs) (auto split: if_split_asm)

lemma set_without_key [simp]: "set (without_key key kvs) = {(k, x) \<in> set kvs. k \<noteq> key}"
  by (auto simp: without_key_def)

lemma distinct_without_key [simp]: "distinct (map fst kvs) \<Longrightarrow> distinct (map fst (without_key key kvs))"
  by (simp add: without_key_def distinct_map_filter)

lemma length_without_key: "length (without_key key kvs) \<le> length kvs"
  by (simp add: without_key_def)

lemma length_without_key_less: "key \<in> fst ` set kvs \<Longrightarrow> length (without_key key kvs) < length kvs"
  unfolding without_key_def by (auto intro: length_filter_less)

lemma oldest_in: "oldest x xs \<in> fst ` set (x # xs)"
  unfolding oldest_def by (intro imageI min_by_in)

lemma evict_distinct: "distinct (map fst kvs) \<Longrightarrow> distinct (map fst (evict fuel n kvs))"
  by (induction fuel n kvs rule: evict.induct) (auto split: list.split)

lemma evict_subset: "set (evict fuel n kvs) \<subseteq> set kvs"
proof (induction fuel n kvs rule: evict.induct)
  case (2 fuel n kvs)
  then show ?case by (cases kvs) auto
qed simp

text \<open>Each round of eviction removes an entry, so as many rounds as there are entries are enough.\<close>

lemma evict_length: "length kvs \<le> n + fuel \<Longrightarrow> length (evict fuel n kvs) \<le> n"
proof (induction fuel n kvs rule: evict.induct)
  case (2 fuel n kvs)
  show ?case
  proof (cases "length kvs \<le> n")
    case False
    then obtain x xs where kvs: "kvs = x # xs" by (cases kvs) auto
    have "length (without_key (oldest x xs) kvs) \<le> n + fuel"
      using length_without_key_less [of "oldest x xs" kvs] oldest_in [of x xs] "2.prems" kvs by auto
    then show ?thesis using "2.IH" [OF False kvs] False kvs by simp
  qed simp
qed simp

lemma evict_if_needed_facts:
  "tc_max (evict_if_needed c) = tc_max c" "tc_inflight (evict_if_needed c) = tc_inflight c"
  "length (tc_entries (evict_if_needed c)) \<le> tc_max c"
  "set (tc_entries (evict_if_needed c)) \<subseteq> set (tc_entries c)"
  "distinct (map fst (tc_entries c)) \<Longrightarrow> distinct (map fst (tc_entries (evict_if_needed c)))"
  using evict_subset [of "length (tc_entries c)" "tc_max c" "tc_entries c"]
  by (simp_all add: evict_if_needed_def evict_length evict_distinct)

lemma get_live_entry_facts:
  assumes "get_live_entry key now c = (c', e)"
  shows "tc_max c' = tc_max c" "tc_inflight c' = tc_inflight c" "length (tc_entries c') \<le> length (tc_entries c)"
    and "set (tc_entries c') \<subseteq> set (tc_entries c)"
    and "distinct (map fst (tc_entries c)) \<Longrightarrow> distinct (map fst (tc_entries c'))"
    and "e = Some en \<Longrightarrow> (key, en) \<in> set (tc_entries c) \<and> now < en_expires en"
  using assms length_without_key [of key "tc_entries c"]
  by (auto simp: get_live_entry_def dest: map_of_SomeD split: option.splits if_split_asm)

lemma begin_lookup_live:
  assumes "begin_lookup key now task c = (c', r)"
  obtains c1 e where "get_live_entry key now c = (c1, e)" "tc_max c' = tc_max c1" "tc_entries c' = tc_entries c1"
    "case r of Starts t \<Rightarrow> t = task \<and> map_of (tc_inflight c) key = None \<and> tc_inflight c' = AList.update key task (tc_inflight c)
       | Joins t \<Rightarrow> map_of (tc_inflight c) key = Some t \<and> tc_inflight c' = tc_inflight c
       | Hit l \<Rightarrow> tc_inflight c' = tc_inflight c \<and> (\<exists>en. e = Some en \<and> l = \<lparr>lk_value = en_value en, lk_hit = True, lk_expires = en_expires en\<rparr>)"
proof -
  obtain c1 e where g: "get_live_entry key now c = (c1, e)" by (cases "get_live_entry key now c")
  note i = get_live_entry_facts(2) [OF g]
  show ?thesis
    using assms i by (intro that [OF g]) (auto simp: begin_lookup_def g split: option.splits)
qed


lemma begin_lookup_facts:
  assumes b: "begin_lookup key now task c = (c', r)"
  shows "tc_max c' = tc_max c" "length (tc_entries c') \<le> length (tc_entries c)"
    and "set (tc_entries c') \<subseteq> set (tc_entries c)"
    and "distinct (map fst (tc_entries c)) \<Longrightarrow> distinct (map fst (tc_entries c'))"
    and "r = Hit l \<Longrightarrow> tc_inflight c' = tc_inflight c" "r = Joins t \<Longrightarrow> tc_inflight c' = tc_inflight c"
    and "r = Starts t \<Longrightarrow> map_of (tc_inflight c) key = None \<and> tc_inflight c' = AList.update key t (tc_inflight c)"
proof -
  obtain c1 e where g: "get_live_entry key now c = (c1, e)" and m: "tc_max c' = tc_max c1" "tc_entries c' = tc_entries c1"
    and i: "case r of Starts t \<Rightarrow> t = task \<and> map_of (tc_inflight c) key = None \<and> tc_inflight c' = AList.update key task (tc_inflight c)
       | Joins t \<Rightarrow> map_of (tc_inflight c) key = Some t \<and> tc_inflight c' = tc_inflight c
       | Hit l \<Rightarrow> tc_inflight c' = tc_inflight c \<and> (\<exists>en. e = Some en \<and> l = \<lparr>lk_value = en_value en, lk_hit = True, lk_expires = en_expires en\<rparr>)"
    by (rule begin_lookup_live [OF b])
  show "tc_max c' = tc_max c" "length (tc_entries c') \<le> length (tc_entries c)" "set (tc_entries c') \<subseteq> set (tc_entries c)"
    "distinct (map fst (tc_entries c)) \<Longrightarrow> distinct (map fst (tc_entries c'))"
    unfolding m using get_live_entry_facts(1,3,4,5) [OF g] by simp_all
  show "r = Hit l \<Longrightarrow> tc_inflight c' = tc_inflight c" "r = Joins t \<Longrightarrow> tc_inflight c' = tc_inflight c"
    "r = Starts t \<Longrightarrow> map_of (tc_inflight c) key = None \<and> tc_inflight c' = AList.update key t (tc_inflight c)"
    using i by simp_all
qed

lemma leave_facts:
  "tc_max (leave key task c) = tc_max c" "tc_entries (leave key task c) = tc_entries c"
  "distinct (map fst (tc_inflight c)) \<Longrightarrow> distinct (map fst (tc_inflight (leave key task c)))"
  by (simp_all add: leave_def)

lemma leave_inflight:
  assumes "distinct (map fst (tc_inflight c))" "(key, task) \<in> set (tc_inflight c)"
  shows "set (tc_inflight (leave key task c)) = {(k, t) \<in> set (tc_inflight c). k \<noteq> key}"
  using assms by (simp add: leave_def)

text \<open>Ending a load takes exactly its task off both lists: a task belongs to one key, a key to one task.\<close>

lemma ended_load:
  assumes ok: "cache_ok should s" and run: "(task, key, ttl) \<in> set (sy_running s)"
    and c: "tc_inflight c = tc_inflight (sy_cache s)"
  shows "set (tc_inflight (leave key task c)) = (\<lambda>(t, k, ttl). (k, t)) ` set (filter (\<lambda>x. fst x \<noteq> task) (sy_running s))"
proof -
  note d = cache_okD(3,4,7) [OF ok]
  have here: "(key, task) \<in> set (tc_inflight c)" unfolding c d(3) using run by force
  have key: "k = key" if "(task, k, u) \<in> set (sy_running s)" for k u
    using d(2) run that by (auto dest: eq_key_imp_eq_value)
  have task: "t = task" if "(t, key, u) \<in> set (sy_running s)" for t u
  proof -
    have "(key, t) \<in> set (tc_inflight c)" unfolding c d(3) using that by force
    then show ?thesis using d(1) here c by (auto dest: eq_key_imp_eq_value)
  qed
  show ?thesis
    unfolding leave_inflight [OF d(1) [folded c] here] unfolding c d(3)
  proof (intro set_eqI iffI)
    fix x assume "x \<in> {(k, t). (k, t) \<in> (\<lambda>(t, k, ttl). (k, t)) ` set (sy_running s) \<and> k \<noteq> key}"
    then obtain t k u where x: "x = (k, t)" "(t, k, u) \<in> set (sy_running s)" "k \<noteq> key" by auto
    then have "(t, k, u) \<in> set (filter (\<lambda>x. fst x \<noteq> task) (sy_running s))" using key by auto
    then show "x \<in> (\<lambda>(t, k, ttl). (k, t)) ` set (filter (\<lambda>x. fst x \<noteq> task) (sy_running s))" using x(1) by force
  next
    fix x assume "x \<in> (\<lambda>(t, k, ttl). (k, t)) ` set (filter (\<lambda>x. fst x \<noteq> task) (sy_running s))"
    then obtain t k u where x: "x = (k, t)" "(t, k, u) \<in> set (sy_running s)" "t \<noteq> task" by auto
    then have "k \<noteq> key" using task by blast
    then show "x \<in> {(k, t). (k, t) \<in> (\<lambda>(t, k, ttl). (k, t)) ` set (sy_running s) \<and> k \<noteq> key}" using x by force
  qed
qed

lemma finish_load_facts:
  assumes f: "finish_load should key task ttl v now c = (c', l, cached)"
  obtains c1 where "c' = leave key task c1" "tc_max c1 = tc_max c" "tc_inflight c1 = tc_inflight c"
    "length (tc_entries c) \<le> tc_max c \<Longrightarrow> length (tc_entries c1) \<le> tc_max c"
    "distinct (map fst (tc_entries c)) \<Longrightarrow> distinct (map fst (tc_entries c1))"
    "\<And>k e. (k, e) \<in> set (tc_entries c1) \<Longrightarrow> (k, e) \<in> set (tc_entries c) \<or>
       k = key \<and> en_value e = v \<and> en_expires e = now + ttl \<and> should v"
proof (cases "should v")
  case False
  then show ?thesis using f by (intro that [of c]) (auto simp: finish_load_def)
next
  case True
  let ?r = "remove_expired now c"
  let ?p = "?r\<lparr>tc_entries := AList.update key \<lparr>en_value = v, en_expires = now + ttl, en_inserted = now\<rparr> (tc_entries ?r)\<rparr>"
  note n = evict_if_needed_facts [of ?p]
  have c': "c' = leave key task (evict_if_needed ?p)" using f True by (simp add: finish_load_def Let_def)
  have sub: "(k, e) \<in> set (tc_entries c) \<or> k = key \<and> e = \<lparr>en_value = v, en_expires = now + ttl, en_inserted = now\<rparr>"
    if "(k, e) \<in> set (tc_entries ?p)" for k e
    using in_set_update [of k e] that by (force simp: remove_expired_def)
  show ?thesis
  proof (rule that [OF c'])
    show "tc_max (evict_if_needed ?p) = tc_max c" "tc_inflight (evict_if_needed ?p) = tc_inflight c"
      using n by (simp_all add: remove_expired_def)
    show "length (tc_entries (evict_if_needed ?p)) \<le> tc_max c" using n by (simp add: remove_expired_def)
    show "distinct (map fst (tc_entries (evict_if_needed ?p)))" if "distinct (map fst (tc_entries c))"
      using that by (intro n(5)) (simp add: remove_expired_def distinct_update distinct_map_filter)
    show "(k, e) \<in> set (tc_entries c) \<or> k = key \<and> en_value e = v \<and> en_expires e = now + ttl \<and> should v"
      if "(k, e) \<in> set (tc_entries (evict_if_needed ?p))" for k e
      using sub [of k e] n(4) that True by auto
  qed
qed


section \<open>The invariant and what is served\<close>

lemma cache_ok_step:
  assumes step: "cache_step should s s'" and ok: "cache_ok should s"
  shows "cache_ok should s'"
  using step
proof (cases rule: cache_step.cases)
  case (tick now)
  then show ?thesis using ok by (simp add: cache_ok_def)
next
  case (served key task c l)
  show ?thesis unfolding served(1) using ok begin_lookup_facts(1-5) [OF served(2)] by (auto simp: cache_ok_def)
next
  case (waits key task c t)
  show ?thesis unfolding waits(1) using ok begin_lookup_facts(1-4,6) [OF waits(2)] by (auto simp: cache_ok_def)
next
  case (starts key task c ttl)
  show ?thesis unfolding starts(1)
    using ok begin_lookup_facts(1-4,7) [OF starts(2)] starts(3) by (auto simp: cache_ok_def set_update_fresh distinct_update)
next
  case (ends task key ttl v c l cached)
  obtain c1 where c1: "c = leave key task c1" "tc_max c1 = tc_max (sy_cache s)" "tc_inflight c1 = tc_inflight (sy_cache s)"
    "length (tc_entries c1) \<le> tc_max (sy_cache s)" "distinct (map fst (tc_entries c1))"
    "\<And>k e. (k, e) \<in> set (tc_entries c1) \<Longrightarrow> (k, e) \<in> set (tc_entries (sy_cache s)) \<or>
       k = key \<and> en_value e = v \<and> en_expires e = sy_clock s + ttl \<and> should v"
    using finish_load_facts [OF ends(3)] cache_okD(1,2) [OF ok] by metis
  have e: "(k, en_value e, en_expires e) \<in> set (sy_loads s @ [(key, v, sy_clock s + ttl)]) \<and> should (en_value e)"
    if "(k, e) \<in> set (tc_entries c1)" for k e
    using c1(6) [OF that] cache_okD(6) [OF ok, of k e] by auto
  show ?thesis unfolding ends(1)
    using e c1(2-5) cache_okD(3-5) [OF ok] ended_load [OF ok ends(2) c1(3)]
    by (auto simp: cache_ok_def c1(1) leave_facts distinct_map_filter)
next
  case (fails task key ttl)
  show ?thesis unfolding fails(1)
    using ok ended_load [OF ok fails(2) refl] by (auto simp: cache_ok_def fail_load_def leave_facts distinct_map_filter)
qed

definition empty_system :: "'v ttl_cache \<Rightarrow> rat \<Rightarrow> 'v cache_system" where
  "empty_system c now = \<lparr>sy_cache = c, sy_running = [], sy_clock = now, sy_loads = []\<rparr>"

lemma cache_ok_reachable:
  assumes "mk_ttl_cache n = Inr c" "(cache_step should)\<^sup>*\<^sup>* (empty_system c now) s"
  shows "cache_ok should s \<and> tc_max (sy_cache s) = nat n"
  using assms(2)
proof induction
  case base
  then show ?case using assms(1) by (auto simp: mk_ttl_cache_def empty_system_def cache_ok_def split: if_split_asm)
next
  case (step s s')
  have "tc_max (sy_cache s') = tc_max (sy_cache s)"
    using step(2)
  proof (cases rule: cache_step.cases)
    case (served key task c l)
    then show ?thesis using begin_lookup_facts(1) by simp
  next
    case (waits key task c t)
    then show ?thesis using begin_lookup_facts(1) by simp
  next
    case (starts key task c ttl)
    then show ?thesis using begin_lookup_facts(1) by simp
  next
    case (ends task key ttl v c l cached)
    then show ?thesis by (elim finish_load_facts) (auto simp: leave_facts)
  qed (simp_all add: fail_load_def leave_facts)
  then show ?case using step cache_ok_step by auto
qed

text \<open>
  C40. Whatever the callers, loads and failures interleave to, the cache never holds more than its maximum of
  entries, never serves a value that has expired, that no load of that very key returned with that expiry, or that the
  caller's test said not to cache, and starts a load only when no load of the key is running.
\<close>

theorem cache_serves_only_live_loads:
  assumes "mk_ttl_cache n = Inr c" "(cache_step should)\<^sup>*\<^sup>* (empty_system c now) s"
    and "begin_lookup key (sy_clock s) task (sy_cache s) = (c', r)"
  shows "int (length (tc_entries (sy_cache s))) \<le> n \<and>
    (case r of
       Hit l \<Rightarrow> lk_hit l \<and> sy_clock s < lk_expires l \<and> (key, lk_value l, lk_expires l) \<in> set (sy_loads s) \<and> should (lk_value l)
     | Joins t \<Rightarrow> \<exists>ttl. (t, key, ttl) \<in> set (sy_running s)
     | Starts t \<Rightarrow> t = task \<and> (\<forall>(t, k, ttl) \<in> set (sy_running s). k \<noteq> key))"
proof -
  have ok: "cache_ok should s" and m: "tc_max (sy_cache s) = nat n" using cache_ok_reachable [OF assms(1,2)] by auto
  have "length (tc_entries (sy_cache s)) \<le> nat n" "1 \<le> nat n" using cache_okD(2,5) [OF ok] m by simp_all
  then have len: "int (length (tc_entries (sy_cache s))) \<le> n" by linarith
  obtain c1 e where g: "get_live_entry key (sy_clock s) (sy_cache s) = (c1, e)" and
    r: "case r of Starts t \<Rightarrow> t = task \<and> map_of (tc_inflight (sy_cache s)) key = None
          \<and> tc_inflight c' = AList.update key task (tc_inflight (sy_cache s))
       | Joins t \<Rightarrow> map_of (tc_inflight (sy_cache s)) key = Some t \<and> tc_inflight c' = tc_inflight (sy_cache s)
       | Hit l \<Rightarrow> tc_inflight c' = tc_inflight (sy_cache s)
          \<and> (\<exists>en. e = Some en \<and> l = \<lparr>lk_value = en_value en, lk_hit = True, lk_expires = en_expires en\<rparr>)"
    by (rule begin_lookup_live [OF assms(3)])
  note inflight = cache_okD(7) [OF ok]
  show ?thesis
  proof (cases r)
    case (Hit l)
    then obtain en where "e = Some en" "l = \<lparr>lk_value = en_value en, lk_hit = True, lk_expires = en_expires en\<rparr>" using r by auto
    then show ?thesis using Hit len get_live_entry_facts(6) [OF g, of en] cache_okD(6) [OF ok, of key en] by simp
  next
    case (Joins t)
    then have "(key, t) \<in> set (tc_inflight (sy_cache s))" using r by (auto dest: map_of_SomeD)
    then show ?thesis using Joins len unfolding inflight by auto
  next
    case (Starts t)
    then have "\<forall>t. (key, t) \<notin> set (tc_inflight (sy_cache s))" using r by (auto simp: map_of_eq_None_iff image_iff)
    then show ?thesis using Starts len r unfolding inflight by force
  qed
qed


lemma cache_serves_only_live_loads_witness:
  "\<exists>(s :: nat cache_system) l. (cache_step (\<lambda>v. v < 10))\<^sup>*\<^sup>* (empty_system \<lparr>tc_max = 1, tc_entries = [], tc_inflight = []\<rparr> 0) s \<and>
     snd (begin_lookup ''a'' (sy_clock s) 7 (sy_cache s)) = Hit l \<and> lk_value l = 4 \<and>
     sy_clock s < lk_expires l \<and> (''a'', lk_value l, lk_expires l) \<in> set (sy_loads s)"
proof -
  let ?should = "\<lambda>v::nat. v < 10"
  let ?c = "\<lparr>tc_max = 1, tc_entries = [], tc_inflight = []\<rparr> :: nat ttl_cache"
  let ?e = "\<lparr>en_value = 4, en_expires = 5, en_inserted = 0\<rparr> :: nat cache_entry"
  let ?s1 = "\<lparr>sy_cache = ?c\<lparr>tc_inflight := [(''a'', 0)]\<rparr>, sy_running = [(0, ''a'', 5)], sy_clock = 0, sy_loads = []\<rparr>"
  let ?s2 = "\<lparr>sy_cache = ?c\<lparr>tc_entries := [(''a'', ?e)]\<rparr>, sy_running = [], sy_clock = 0, sy_loads = [(''a'', 4, 5)]\<rparr>"
  let ?s3 = "?s2\<lparr>sy_clock := 3\<rparr>"
  have a1: "cache_step ?should (empty_system ?c 0) ?s1"
    using cache_step.starts [of "''a''" "empty_system ?c 0" 0 "?c\<lparr>tc_inflight := [(''a'', 0)]\<rparr>" ?should 5]
    by (simp add: empty_system_def begin_lookup_def get_live_entry_def)
  have a2: "cache_step ?should ?s1 ?s2"
    using cache_step.ends [of 0 "''a''" 5 ?s1 ?should 4 "?c\<lparr>tc_entries := [(''a'', ?e)]\<rparr>"
        "\<lparr>lk_value = 4, lk_hit = False, lk_expires = 5\<rparr>" True]
    by (simp add: finish_load_def remove_expired_def evict_if_needed_def leave_def without_key_def)
  have a3: "cache_step ?should ?s2 ?s3" using cache_step.tick [of ?s2 3 ?should] by simp
  note r = rtranclp.rtrancl_into_rtrancl
  have run: "(cache_step ?should)\<^sup>*\<^sup>* (empty_system ?c 0) ?s3"
    by (rule r, rule r, rule r, rule rtranclp.rtrancl_refl, rule a1, rule a2, rule a3)
  let ?l = "\<lparr>lk_value = 4, lk_hit = True, lk_expires = 5\<rparr> :: nat cache_lookup"
  have b: "begin_lookup ''a'' (sy_clock ?s3) 7 (sy_cache ?s3) = (sy_cache ?s3, Hit ?l)"
    by (simp add: begin_lookup_def get_live_entry_def)
  have "mk_ttl_cache 1 = Inr ?c" by (simp add: mk_ttl_cache_def)
  from cache_serves_only_live_loads [OF this run b]
  have "sy_clock ?s3 < lk_expires ?l \<and> (''a'', lk_value ?l, lk_expires ?l) \<in> set (sy_loads ?s3)" by simp
  then show ?thesis using run b by (intro exI [of _ ?s3] exI [of _ ?l]) simp
qed

end
