(* ===== verification/ProviderChain.thy ===== *)
theory ProviderChain
  imports ToolRetry
begin

text \<open>
  \<open>tools/providers/chain.py\<close>: a chain of providers of one service that falls over to the next one on
  transient errors, with a circuit breaker per provider name. A call is split at its \<open>await\<close>s:
  \<open>begin_chain\<close> chooses the providers to try, \<open>chain_answer\<close> handles the answer of one of them, so the
  steps of concurrent calls interleave. Times are readings of the UTC clock in microseconds. Trace
  records and log lines are left out. Proved: calls that start leave a provider alone that has failed as often
  as the threshold within the recovery time, and a call tries its providers in order.
\<close>

section \<open>Circuits\<close>

record circuit =
  ci_failures :: int
  ci_open_until :: "int option"

record provider_chain =
  ch_names :: "string list"
  ch_threshold :: int
  ch_recovery :: int
  ch_circuits :: "(string \<times> circuit) list"

definition closed_circuit :: circuit where
  "closed_circuit = \<lparr>ci_failures = 0, ci_open_until = None\<rparr>"

definition mk_chain :: "string list \<Rightarrow> int \<Rightarrow> int \<Rightarrow> (string, provider_chain) result" where
  "mk_chain names threshold recovery =
     (if names = [] then Inl ''provider chain requires at least one provider''
      else if threshold < 1 \<or> recovery < 1 then Inl ''invalid circuit breaker policy''
      else Inr \<lparr>ch_names = names, ch_threshold = threshold, ch_recovery = recovery,
        ch_circuits = dict_of (map (\<lambda>n. (n, closed_circuit)) names)\<rparr>)"

definition circuit_of :: "string \<Rightarrow> provider_chain \<Rightarrow> circuit" where
  "circuit_of name ch = (case map_of (ch_circuits ch) name of None \<Rightarrow> closed_circuit | Some c \<Rightarrow> c)"

definition set_circuit :: "string \<Rightarrow> circuit \<Rightarrow> provider_chain \<Rightarrow> provider_chain" where
  "set_circuit name c ch = ch\<lparr>ch_circuits := AList.update name c (ch_circuits ch)\<rparr>"

definition is_open :: "string \<Rightarrow> int \<Rightarrow> provider_chain \<Rightarrow> provider_chain \<times> bool" where
  "is_open name now ch =
     (case ci_open_until (circuit_of name ch) of
        None \<Rightarrow> (ch, False)
      | Some u \<Rightarrow> if u \<le> now then (set_circuit name closed_circuit ch, False) else (ch, True))"

definition note_failure :: "int \<Rightarrow> string \<Rightarrow> provider_chain \<Rightarrow> provider_chain" where
  "note_failure now name ch =
     (let c = circuit_of name ch; n = ci_failures c + 1
      in set_circuit name \<lparr>ci_failures = n,
           ci_open_until = (if ch_threshold ch \<le> n then Some (now + ch_recovery ch * second) else ci_open_until c)\<rparr> ch)"

definition note_success :: "string \<Rightarrow> provider_chain \<Rightarrow> provider_chain" where
  "note_success name ch = set_circuit name closed_circuit ch"

section \<open>Calls\<close>

text \<open>A provider is its position in the chain with its name.\<close>

type_synonym provider = "nat \<times> string"

fun usable :: "int \<Rightarrow> provider list \<Rightarrow> provider_chain \<Rightarrow> provider_chain \<times> provider list" where
  "usable now [] ch = (ch, [])"
| "usable now (p # ps) ch =
     (let (ch1, opened) = is_open (snd p) now ch; (ch2, qs) = usable now ps ch1
      in (ch2, if opened then qs else p # qs))"

definition begin_chain :: "int \<Rightarrow> provider_chain \<Rightarrow> provider_chain \<times> provider list" where
  "begin_chain now ch =
     (let (ch', ps) = usable now (enumerate 0 (ch_names ch)) ch
      in (ch', if ps = [] then [last (enumerate 0 (ch_names ch))] else ps))"

definition fails_over :: "provider_failure \<Rightarrow> bool" where
  "fails_over e \<longleftrightarrow> te_category (pf_error e) \<in> {Cat_timeout, Cat_connection, Cat_rate_limit, Cat_invalid_response, Cat_upstream_unavailable}"

datatype 'a chain_state =
  Trying "provider list"
| Chain_value 'a
| Chain_failed provider_failure
| Chain_crashed string

text \<open>What the answer of the provider \<open>p\<close> means to a call that has \<open>rest\<close> left to try.\<close>

definition chain_answer ::
  "int \<Rightarrow> (provider_failure, 'a) attempt \<Rightarrow> provider \<Rightarrow> provider list \<Rightarrow> provider_chain \<Rightarrow> provider_chain \<times> 'a chain_state" where
  "chain_answer now x p rest ch =
     (case x of
        Returned v \<Rightarrow> (note_success (snd p) ch, Chain_value v)
      | Failed e \<Rightarrow> (note_failure now (snd p) ch, if fails_over e \<and> rest \<noteq> [] then Trying rest else Chain_failed e)
      | Timed_out \<Rightarrow> (ch, Chain_crashed ''TimeoutError'')
      | Crashed s \<Rightarrow> (ch, Chain_crashed s))"

text \<open>A call no other interleaves with; the clock and the answers are given by position.\<close>

fun try_providers ::
  "(nat \<Rightarrow> int) \<Rightarrow> (nat \<Rightarrow> (provider_failure, 'a) attempt) \<Rightarrow> provider list \<Rightarrow> provider_chain \<Rightarrow> provider_chain \<times> 'a chain_state" where
  "try_providers clock call [] ch = (ch, Chain_crashed ''AssertionError'')"
| "try_providers clock call (p # ps) ch =
     (case chain_answer (clock (fst p)) (call (fst p)) p ps ch of
        (ch', Trying rest) \<Rightarrow> try_providers clock call ps ch'
      | (ch', r) \<Rightarrow> (ch', r))"

definition execute_chain ::
  "int \<Rightarrow> (nat \<Rightarrow> int) \<Rightarrow> (nat \<Rightarrow> (provider_failure, 'a) attempt) \<Rightarrow> provider_chain \<Rightarrow> provider_chain \<times> 'a chain_state" where
  "execute_chain now clock call ch = (let (ch', ps) = begin_chain now ch in try_providers clock call ps ch')"

section \<open>Interleaved calls\<close>

text \<open>
  The chain, the calls in progress (each with the providers it still has, the first of which it awaits), the
  clock, and the noted answers, latest first (time, provider name, success), which only statements read.
\<close>

record chain_system =
  cs_chain :: provider_chain
  cs_calls :: "provider list list"
  cs_clock :: int
  cs_log :: "(int \<times> string \<times> bool) list"

definition logged :: "int \<Rightarrow> string \<Rightarrow> (provider_failure, 'a) attempt \<Rightarrow> (int \<times> string \<times> bool) list" where
  "logged now name x = (case x of Returned v \<Rightarrow> [(now, name, True)] | Failed e \<Rightarrow> [(now, name, False)] | _ \<Rightarrow> [])"

definition remaining :: "'a chain_state \<Rightarrow> provider list list" where
  "remaining r = (case r of Trying ps \<Rightarrow> [ps] | _ \<Rightarrow> [])"

inductive chain_step :: "chain_system \<Rightarrow> chain_system \<Rightarrow> bool" where
  chain_tick: "cs_clock s \<le> now \<Longrightarrow> chain_step s (s\<lparr>cs_clock := now\<rparr>)"
| chain_begins: "begin_chain (cs_clock s) (cs_chain s) = (ch, ps) \<Longrightarrow> chain_step s (s\<lparr>cs_chain := ch, cs_calls := ps # cs_calls s\<rparr>)"
| chain_answers: "cs_calls s = before @ (p # ps) # others \<Longrightarrow>
     chain_answer (cs_clock s) (x :: (provider_failure, unit) attempt) p ps (cs_chain s) = (ch, r) \<Longrightarrow>
     chain_step s (s\<lparr>cs_chain := ch, cs_calls := before @ remaining r @ others, cs_log := logged (cs_clock s) (snd p) x @ cs_log s\<rparr>)"

definition start_system :: "provider_chain \<Rightarrow> int \<Rightarrow> chain_system" where
  "start_system ch now = \<lparr>cs_chain = ch, cs_calls = [], cs_clock = now, cs_log = []\<rparr>"

text \<open>The times of the failures of a provider since its last success, latest first.\<close>

fun failures_of :: "string \<Rightarrow> (int \<times> string \<times> bool) list \<Rightarrow> int list" where
  "failures_of name [] = []"
| "failures_of name ((t, n, good) # xs) =
     (if n \<noteq> name then failures_of name xs else if good then [] else t # failures_of name xs)"


section \<open>The circuit breaker\<close>

text \<open>
  A circuit against the failures of its provider: it counts the latest of them, those it does not count
  any more are older than the recovery time, and it is open from the threshold on, until the recovery time
  after the last of them.
\<close>

definition breaker_ok :: "int \<Rightarrow> int \<Rightarrow> int \<Rightarrow> int list \<Rightarrow> circuit \<Rightarrow> bool" where
  "breaker_ok threshold pause now fs c \<longleftrightarrow>
     0 \<le> ci_failures c \<and> ci_failures c \<le> int (length fs) \<and> (\<forall>t \<in> set fs. t \<le> now) \<and> sorted_wrt (\<ge>) fs \<and>
     (\<forall>t \<in> set (drop (nat (ci_failures c)) fs). t + pause \<le> now) \<and>
     (case ci_open_until c of None \<Rightarrow> ci_failures c < threshold
      | Some u \<Rightarrow> threshold \<le> ci_failures c \<and> fs \<noteq> [] \<and> u = hd fs + pause)"

lemma breaker_ok_later: "breaker_ok th w now fs c \<Longrightarrow> now \<le> now' \<Longrightarrow> breaker_ok th w now' fs c"
  by (fastforce simp: breaker_ok_def)

lemma breaker_ok_success: "1 \<le> th \<Longrightarrow> breaker_ok th w now [] closed_circuit"
  by (simp add: breaker_ok_def closed_circuit_def)

lemma breaker_ok_reset:
  assumes "breaker_ok th w now fs c" "1 \<le> th" "ci_open_until c = Some u" "u \<le> now"
  shows "breaker_ok th w now fs closed_circuit"
proof -
  have "\<forall>t \<in> set fs. t \<le> hd fs" using assms(1) by (cases fs) (auto simp: breaker_ok_def)
  then show ?thesis using assms by (fastforce simp: breaker_ok_def closed_circuit_def)
qed

lemma breaker_ok_failure:
  assumes "breaker_ok th w now fs c"
  shows "breaker_ok th w now (now # fs) \<lparr>ci_failures = ci_failures c + 1,
     ci_open_until = (if th \<le> ci_failures c + 1 then Some (now + w) else ci_open_until c)\<rparr>"
  using assms by (auto simp: breaker_ok_def nat_add_distrib split: option.splits)

text \<open>As many failures as the threshold within the recovery time keep the circuit open.\<close>

lemma breaker_open:
  assumes ok: "breaker_ok th w now fs c" and th: "1 \<le> th" and many: "th \<le> int (length fs)" and recent: "now < fs ! nat (th - 1) + w"
  shows "\<exists>u. ci_open_until c = Some u \<and> now < u"
proof -
  let ?i = "nat (th - 1)"
  have i: "?i < length fs" using th many by linarith
  have count: "th \<le> ci_failures c"
  proof (rule ccontr)
    assume "\<not> th \<le> ci_failures c"
    then have n: "nat (ci_failures c) \<le> ?i" using ok by (auto simp: breaker_ok_def)
    then have "drop (nat (ci_failures c)) fs ! (?i - nat (ci_failures c)) = fs ! ?i" using i by simp
    moreover have "drop (nat (ci_failures c)) fs ! (?i - nat (ci_failures c)) \<in> set (drop (nat (ci_failures c)) fs)"
      using n i by (intro nth_mem) simp
    ultimately have "fs ! ?i \<in> set (drop (nat (ci_failures c)) fs)" by simp
    then show False using ok recent by (fastforce simp: breaker_ok_def)
  qed
  then obtain u where u: "ci_open_until c = Some u" "u = hd fs + w" "fs \<noteq> []"
    using ok by (auto simp: breaker_ok_def split: option.splits)
  have "fs ! ?i \<le> hd fs"
    using ok i by (cases fs; cases ?i) (auto simp: breaker_ok_def)
  then show ?thesis using u recent by auto
qed

section \<open>Chains and their circuits\<close>

lemma circuit_of_set [simp]: "circuit_of name (set_circuit other c ch) = (if name = other then c else circuit_of name ch)"
  by (simp add: circuit_of_def set_circuit_def update_conv')

lemma set_circuit_fields [simp]:
  "ch_names (set_circuit name c ch) = ch_names ch" "ch_threshold (set_circuit name c ch) = ch_threshold ch"
  "ch_recovery (set_circuit name c ch) = ch_recovery ch"
  by (simp_all add: set_circuit_def)

definition circuits_ok :: "int \<Rightarrow> (int \<times> string \<times> bool) list \<Rightarrow> provider_chain \<Rightarrow> bool" where
  "circuits_ok now events ch \<longleftrightarrow> ch_names ch \<noteq> [] \<and> 1 \<le> ch_threshold ch \<and>
     (\<forall>name. breaker_ok (ch_threshold ch) (ch_recovery ch * second) now (failures_of name events) (circuit_of name ch))"

lemma mk_chain_ok:
  assumes "mk_chain names th w = Inr ch"
  shows "circuits_ok now [] ch \<and> ch_names ch = names \<and> ch_threshold ch = th \<and> ch_recovery ch = w"
proof -
  have ch: "names \<noteq> []" "1 \<le> th" "ch = \<lparr>ch_names = names, ch_threshold = th, ch_recovery = w,
        ch_circuits = dict_of (map (\<lambda>n. (n, closed_circuit)) names)\<rparr>"
    using assms by (auto simp: mk_chain_def split: if_splits)
  have "circuit_of name ch = closed_circuit" for name
    using dict_of_SomeD [of "map (\<lambda>n. (n, closed_circuit)) names" name]
    by (auto simp: circuit_of_def ch(3) split: option.split)
  then show ?thesis using ch by (simp add: circuits_ok_def breaker_ok_success)
qed

lemma is_open_facts:
  assumes "is_open name now ch = (ch', opened)"
  shows "ch_names ch' = ch_names ch" "ch_threshold ch' = ch_threshold ch" "ch_recovery ch' = ch_recovery ch"
    and "circuits_ok now events ch \<Longrightarrow> circuits_ok now events ch'"
    and "opened \<longleftrightarrow> (\<exists>u. ci_open_until (circuit_of name ch) = Some u \<and> now < u)"
    and "ci_open_until (circuit_of other ch) = Some u \<Longrightarrow> now < u \<Longrightarrow> circuit_of other ch' = circuit_of other ch"
  using assms by (auto simp: is_open_def circuits_ok_def intro!: breaker_ok_reset split: option.splits if_splits)

lemma usable_facts:
  assumes "usable now ps ch = (ch', qs)"
  shows "ch_names ch' = ch_names ch \<and> ch_threshold ch' = ch_threshold ch \<and> ch_recovery ch' = ch_recovery ch \<and>
     (circuits_ok now events ch \<longrightarrow> circuits_ok now events ch') \<and> set qs \<subseteq> set ps \<and>
     (\<forall>name u. ci_open_until (circuit_of name ch) = Some u \<and> now < u \<longrightarrow> name \<notin> snd ` set qs)"
  using assms
proof (induction now ps ch arbitrary: ch' qs rule: usable.induct)
  case (2 now p ps ch)
  obtain ch1 opened where o: "is_open (snd p) now ch = (ch1, opened)" by (cases "is_open (snd p) now ch")
  obtain qs1 where u: "usable now ps ch1 = (ch', qs1)" and qs: "qs = (if opened then qs1 else p # qs1)"
    using "2.prems" o by (auto split: prod.splits)
  note f = is_open_facts [OF o]
  have IH: "ch_names ch' = ch_names ch1 \<and> ch_threshold ch' = ch_threshold ch1 \<and> ch_recovery ch' = ch_recovery ch1 \<and>
     (circuits_ok now events ch1 \<longrightarrow> circuits_ok now events ch') \<and> set qs1 \<subseteq> set ps \<and>
     (\<forall>name u. ci_open_until (circuit_of name ch1) = Some u \<and> now < u \<longrightarrow> name \<notin> snd ` set qs1)"
    by (rule "2.IH" [OF o [symmetric] refl u])
  have "name \<notin> snd ` set qs" if "ci_open_until (circuit_of name ch) = Some u" "now < u" for name u
  proof -
    have "name \<notin> snd ` set qs1" using IH f(6) [OF that] that by auto
    moreover have "snd p \<noteq> name \<or> opened" using f(5) that by auto
    ultimately show ?thesis using qs by auto
  qed
  then show ?case using IH f(1-4) qs by auto
qed simp

lemma begin_chain_facts:
  assumes b: "begin_chain now ch = (ch', ps)"
  shows "ch_names ch' = ch_names ch" "ch_threshold ch' = ch_threshold ch" "ch_recovery ch' = ch_recovery ch"
    and "circuits_ok now events ch \<Longrightarrow> circuits_ok now events ch'"
    and "ci_open_until (circuit_of name ch) = Some u \<Longrightarrow> now < u \<Longrightarrow>
      name \<notin> snd ` set ps \<or> ps = [last (enumerate 0 (ch_names ch))]"
proof -
  obtain qs where u: "usable now (enumerate 0 (ch_names ch)) ch = (ch', qs)"
      and ps: "ps = (if qs = [] then [last (enumerate 0 (ch_names ch))] else qs)"
    using b by (auto simp: begin_chain_def Let_def split: prod.splits)
  note f = usable_facts [OF u, of events]
  show "ch_names ch' = ch_names ch" "ch_threshold ch' = ch_threshold ch" "ch_recovery ch' = ch_recovery ch"
    "circuits_ok now events ch \<Longrightarrow> circuits_ok now events ch'" using f by simp_all
  show "name \<notin> snd ` set ps \<or> ps = [last (enumerate 0 (ch_names ch))]"
    if "ci_open_until (circuit_of name ch) = Some u" "now < u" using f that ps by auto
qed

lemma chain_answer_facts:
  assumes "chain_answer now x p rest ch = (ch', r)"
  shows "ch_names ch' = ch_names ch" "ch_threshold ch' = ch_threshold ch" "ch_recovery ch' = ch_recovery ch"
    and "circuits_ok now events ch \<Longrightarrow> circuits_ok now (logged now (snd p) x @ events) ch'"
  using assms breaker_ok_failure breaker_ok_success
  by (auto simp: chain_answer_def note_failure_def note_success_def logged_def circuits_ok_def Let_def split: attempt.splits)


section \<open>Runs\<close>

lemma nothing_usable:
  assumes "usable now ps ch = (ch', [])"
  shows "\<forall>p \<in> set ps. \<exists>u. ci_open_until (circuit_of (snd p) ch) = Some u \<and> now < u"
  using assms
proof (induction ps arbitrary: ch)
  case (Cons p ps)
  obtain ch1 opened where o: "is_open (snd p) now ch = (ch1, opened)" by (cases "is_open (snd p) now ch")
  then have "opened" "usable now ps ch1 = (ch', [])" using Cons.prems by (auto split: prod.splits if_splits)
  moreover from this have "ch1 = ch" using o by (auto simp: is_open_def split: option.splits if_splits)
  ultimately show ?case using Cons.IH is_open_facts(5) [OF o] by auto
qed simp

lemma tried_alone:
  assumes "begin_chain now ch = (ch', ps)" and "ci_open_until (circuit_of name ch) = Some u" "now < u" and "name \<in> snd ` set ps"
  shows "\<forall>n \<in> set (ch_names ch). \<exists>u. ci_open_until (circuit_of n ch) = Some u \<and> now < u"
proof -
  obtain qs where u: "usable now (enumerate 0 (ch_names ch)) ch = (ch', qs)"
      and ps: "ps = (if qs = [] then [last (enumerate 0 (ch_names ch))] else qs)"
    using assms(1) by (auto simp: begin_chain_def Let_def split: prod.splits)
  have "qs = []" using usable_facts [OF u, of "[]"] assms(2-4) ps by (auto split: if_splits)
  then have "\<forall>p \<in> set (enumerate 0 (ch_names ch)). \<exists>u. ci_open_until (circuit_of (snd p) ch) = Some u \<and> now < u"
    using u nothing_usable by blast
  then have "\<forall>n \<in> snd ` set (enumerate 0 (ch_names ch)). \<exists>u. ci_open_until (circuit_of n ch) = Some u \<and> now < u" by blast
  then show ?thesis by (metis list.set_map map_snd_enumerate)
qed

lemma reachable_circuits:
  assumes "chain_step\<^sup>*\<^sup>* (start_system ch0 t0) s" and "circuits_ok t0 [] ch0"
  shows "circuits_ok (cs_clock s) (cs_log s) (cs_chain s) \<and> ch_names (cs_chain s) = ch_names ch0 \<and>
     ch_threshold (cs_chain s) = ch_threshold ch0 \<and> ch_recovery (cs_chain s) = ch_recovery ch0"
  using assms(1)
proof induction
  case base
  then show ?case using assms(2) by (simp add: start_system_def)
next
  case (step s s')
  from step(2) show ?case
  proof (cases rule: chain_step.cases)
    case (chain_tick now)
    have "circuits_ok now (cs_log s) (cs_chain s)"
      using step.IH breaker_ok_later [OF _ chain_tick(2)] unfolding circuits_ok_def by blast
    then show ?thesis using step.IH unfolding chain_tick(1) by simp
  next
    case (chain_begins ch ps)
    then show ?thesis using step.IH begin_chain_facts(1-4) by simp
  next
    case (chain_answers before p ps others x ch r)
    then show ?thesis using step.IH chain_answer_facts [OF chain_answers(3)] by simp
  qed
qed

text \<open>
  C20. New calls leave a failing provider alone, whatever calls were interleaved before: when the latest
  answers of a provider are failures, as many as the threshold within the recovery time, a call that
  starts now does not have it among the providers it will try, unless the circuits of all providers are open; then
  it has only the last provider of the chain. The providers of a call are fixed when it starts: a
  call already in progress may still try one whose circuit has opened since
  (\<open>running_call_tries_open_provider\<close>).
\<close>

theorem failing_providers_are_left_alone:
  assumes "mk_chain names threshold recovery = Inr ch0" and "chain_step\<^sup>*\<^sup>* (start_system ch0 t0) s"
    and "threshold \<le> int (length (failures_of name (cs_log s)))"
    and "cs_clock s < failures_of name (cs_log s) ! nat (threshold - 1) + recovery * second"
    and "begin_chain (cs_clock s) (cs_chain s) = (ch, ps)"
  shows "name \<notin> snd ` set ps \<or>
     ps = [last (enumerate 0 names)] \<and>
     (\<forall>n \<in> set names. \<exists>u. ci_open_until (circuit_of n (cs_chain s)) = Some u \<and> cs_clock s < u)"
proof -
  note ch0 = mk_chain_ok [OF assms(1), of t0]
  have ok: "circuits_ok (cs_clock s) (cs_log s) (cs_chain s)" and same: "ch_names (cs_chain s) = names"
      "ch_threshold (cs_chain s) = threshold" "ch_recovery (cs_chain s) = recovery"
    using reachable_circuits [OF assms(2)] ch0 by simp_all
  have breaker: "breaker_ok threshold (recovery * second) (cs_clock s) (failures_of name (cs_log s)) (circuit_of name (cs_chain s))"
      and th: "1 \<le> threshold"
    using ok same by (simp_all add: circuits_ok_def)
  from breaker_open [OF breaker th assms(3,4)] obtain u where u: "ci_open_until (circuit_of name (cs_chain s)) = Some u" "cs_clock s < u"
    by blast
  show ?thesis using begin_chain_facts(5) [OF assms(5) u] tried_alone [OF assms(5) u] same by blast
qed

lemma failing_providers_are_left_alone_witness:
  "\<exists>s ch ps. chain_step\<^sup>*\<^sup>* (start_system \<lparr>ch_names = [''a'', ''b''], ch_threshold = 1, ch_recovery = 30,
       ch_circuits = [(''a'', closed_circuit), (''b'', closed_circuit)]\<rparr> 0) s \<and>
     failures_of ''a'' (cs_log s) = [0] \<and> begin_chain (cs_clock s) (cs_chain s) = (ch, ps) \<and> ''a'' \<notin> snd ` set ps"
proof -
  let ?ch = "\<lparr>ch_names = [''a'', ''b''], ch_threshold = 1, ch_recovery = 30,
       ch_circuits = [(''a'', closed_circuit), (''b'', closed_circuit)]\<rparr>"
  let ?e = "\<lparr>pf_error = \<lparr>te_category = Cat_timeout, te_code = ''timeout'', te_operation = ''poi.search'', te_retryable = True\<rparr>,
     pf_retry_after = None\<rparr>"
  let ?s0 = "start_system ?ch 0"
  let ?s1 = "?s0\<lparr>cs_calls := [[(0, ''a''), (1, ''b'')]]\<rparr>"
  let ?ch2 = "?ch\<lparr>ch_circuits := [(''a'', \<lparr>ci_failures = 1, ci_open_until = Some 30000000\<rparr>), (''b'', closed_circuit)]\<rparr>"
  let ?s2 = "?s1\<lparr>cs_chain := ?ch2, cs_calls := [[(1, ''b'')]], cs_log := [(0, ''a'', False)]\<rparr>"
  have mk: "mk_chain [''a'', ''b''] 1 30 = Inr ?ch" by (simp add: mk_chain_def dict_of_def)
  have a1: "chain_step ?s0 ?s1"
    using chain_step.chain_begins [of ?s0 ?ch "[(0, ''a''), (1, ''b'')]"]
    by (simp add: start_system_def begin_chain_def is_open_def circuit_of_def closed_circuit_def)
  have a2: "chain_step ?s1 ?s2"
    using chain_step.chain_answers [of ?s1 "[]" "(0, ''a'')" "[(1, ''b'')]" "[]" "Failed ?e" ?ch2 "Trying [(1, ''b'')]"]
    by (simp add: start_system_def chain_answer_def note_failure_def circuit_of_def set_circuit_def closed_circuit_def
        fails_over_def remaining_def logged_def second_def)
  note r = rtranclp.rtrancl_into_rtrancl
  have run: "chain_step\<^sup>*\<^sup>* ?s0 ?s2" by (rule r, rule r, rule rtranclp.rtrancl_refl, rule a1, rule a2)
  obtain ch ps where b: "begin_chain (cs_clock ?s2) (cs_chain ?s2) = (ch, ps)" by (cases "begin_chain (cs_clock ?s2) (cs_chain ?s2)")
  have "''a'' \<notin> snd ` set ps \<or> ps = [last (enumerate 0 [''a'', ''b''])] \<and>
     (\<forall>n \<in> set [''a'', ''b'']. \<exists>u. ci_open_until (circuit_of n (cs_chain ?s2)) = Some u \<and> cs_clock ?s2 < u)"
    by (rule failing_providers_are_left_alone [OF mk run _ _ b]) (simp_all add: start_system_def second_def)
  then have "''a'' \<notin> snd ` set ps" by (simp add: circuit_of_def closed_circuit_def)
  then show ?thesis using run b by (intro exI [of _ ?s2] exI [of _ ch] exI [of _ ps]) simp
qed

lemma running_call_tries_open_provider:
  assumes "snd (is_open (snd q) now ch)" and "fails_over e"
  shows "\<exists>ch'. chain_answer now (Failed e) p (q # rest) ch = (ch', Trying (q # rest))"
  using assms(2) by (simp add: chain_answer_def)

text \<open>
  A call tries the providers it was given in order, goes on only after a transient error, and ends with the
  answer of the last one it tried.
\<close>

lemma tries_in_order:
  assumes "try_providers clock call ps ch = (ch', r)" and "ps \<noteq> []"
  shows "\<exists>n < length ps. (\<forall>k < n. \<exists>e. call (fst (ps ! k)) = Failed e \<and> fails_over e) \<and>
     (case call (fst (ps ! n)) of
        Returned x \<Rightarrow> r = Chain_value x
      | Failed e \<Rightarrow> r = Chain_failed e \<and> (\<not> fails_over e \<or> n + 1 = length ps)
      | Timed_out \<Rightarrow> r = Chain_crashed ''TimeoutError''
      | Crashed s \<Rightarrow> r = Chain_crashed s)"
  using assms
proof (induction ps arbitrary: ch)
  case (Cons p ps)
  show ?case
  proof (cases "\<exists>e. call (fst p) = Failed e \<and> fails_over e \<and> ps \<noteq> []")
    case True
    then obtain e where e: "call (fst p) = Failed e" "fails_over e" "ps \<noteq> []" by blast
    then have "try_providers clock call ps (note_failure (clock (fst p)) (snd p) ch) = (ch', r)"
      using Cons.prems(1) by (simp add: chain_answer_def)
    from Cons.IH [OF this e(3)] obtain n where n: "n < length ps" "\<forall>k < n. \<exists>e. call (fst (ps ! k)) = Failed e \<and> fails_over e"
      "case call (fst (ps ! n)) of
        Returned x \<Rightarrow> r = Chain_value x
      | Failed e \<Rightarrow> r = Chain_failed e \<and> (\<not> fails_over e \<or> n + 1 = length ps)
      | Timed_out \<Rightarrow> r = Chain_crashed ''TimeoutError''
      | Crashed s \<Rightarrow> r = Chain_crashed s" by blast
    have "\<forall>k < Suc n. \<exists>e. call (fst ((p # ps) ! k)) = Failed e \<and> fails_over e" using n(2) e by (auto simp: less_Suc_eq_0_disj)
    then show ?thesis using n(1,3) by (intro exI [of _ "Suc n"]) (simp split: attempt.splits)
  next
    case False
    then show ?thesis using Cons.prems(1) by (intro exI [of _ 0]) (auto simp: chain_answer_def split: attempt.splits)
  qed
qed simp

end
