(* ===== verification/Spec2Isabelle.thy ===== *)
theory Spec2Isabelle
  imports ExecutionBudget PlanSchedulability LifecycleDiff WeatherFacts LifecycleSafety PlanningRepair PlanningSoftSafety
    RequirementFacts RequirementProperties MemorySafety MemorySqlite ToolCache ProviderChain
begin

text \<open>
  A verification library of TravelPlanAgent (\<open>src/src/travel_agent\<close>), a planner of city trips: it
  turns a user's text into a structured trip, computes day plans that satisfy hard
  constraints, lets a language model judge their soft quality, and then keeps the chosen
  plan alive under edits, locks and weather. All paths below are relative to that directory.

  \<^bold>\<open>How the parts interact.\<close> A conversation (\<open>requirements/\<close>) extracts a draft, asks the user for
  what is missing, resolves the named places through the tool gateway (\<open>tools/\<close>), adds remembered
  preferences (\<open>memory/\<close>) and starts the planner. The planner (\<open>graph/\<close> over \<open>planning/\<close>,
  \<open>critique/\<close> and \<open>agents/\<close>) searches places, lets a CP-SAT solver pick and order them, materialises timed
  days, validates them, repairs what is invalid within a number of rounds, and asks the critic
  for a choice and at most one soft repair. A session (\<open>lifecycle/\<close>) stores the candidates, their
  versions, locks and previews, and \<open>weather/\<close> proposes local changes. Every model and tool
  call is bounded by retries and, in a traced run, by the ledger of \<open>execution/\<close>.

  \<^bold>\<open>Theories and code.\<close>
  \<^item> \<open>Prelude\<close>, \<open>Calendar\<close>, \<open>Json\<close>, \<open>Samples\<close>: results (\<open>Inl\<close> an exception, \<open>Inr\<close> a value), Python's
    times, rounding, string and dict operations, dates and canonical JSON; shared sample values.
  \<^item> \<open>DomainModels\<close>, \<open>ToolResults\<close>, \<open>PlanValidator\<close>, \<open>PlanCritic\<close>, \<open>PlanRepair\<close>, \<open>PlanDrafts\<close>, \<open>PlanSchedule\<close>,
    \<open>PlanOptimization\<close>, \<open>SoftRepair\<close>: \<open>domain/models.py\<close>, \<open>domain/tool_models.py\<close> and the modules of
    \<open>planning/\<close>; \<open>PlanSchedulability\<close> has the facts on materialised plans.
  \<^item> \<open>Critique\<close>, \<open>CritiqueEvidence\<close>, \<open>PlanningSupport\<close>: \<open>critique/\<close>, \<open>planning/search_plan.py\<close>, \<open>agents/\<close>.
  \<^item> \<open>PlanningState\<close>, \<open>PlanningNodes\<close>, \<open>PlanningSoft\<close>, \<open>PlanningGraph\<close>: \<open>graph/workflow.py\<close> and
    \<open>graph/state.py\<close>; \<open>PlanningTermination\<close>, \<open>PlanningSafety\<close>, \<open>PlanningRepair\<close> and \<open>PlanningSoftSafety\<close> prove
    its properties, the last three through the locale \<open>graph_invariant\<close>.
  \<^item> \<open>WeatherModels\<close>, \<open>WeatherRisk\<close>, \<open>WeatherPlan\<close>, \<open>WeatherFacts\<close>: \<open>domain/weather_models.py\<close> and \<open>weather/\<close>.
  \<^item> \<open>LifecycleModels\<close>, \<open>LifecycleEdit\<close>, \<open>SessionStore\<close>, \<open>LifecycleSession\<close>, \<open>LifecycleNodes\<close>,
    \<open>LifecyclePreview\<close>, \<open>LifecycleGraph\<close>, \<open>LifecycleService\<close>: \<open>lifecycle/\<close>; \<open>LifecycleEditFacts\<close>, \<open>LifecycleDiff\<close>,
    \<open>LifecycleInvariants\<close> and \<open>LifecycleSafety\<close> prove its properties.
  \<^item> \<open>Requirements\<close>, \<open>RequirementGraph\<close>: \<open>requirements/\<close>; \<open>RequirementFacts\<close>, \<open>RequirementAnchors\<close>,
    \<open>RequirementSafety\<close>, \<open>RequirementRuns\<close> and \<open>RequirementProperties\<close> prove its properties.
  \<^item> \<open>Memory\<close>, \<open>MemorySqlite\<close>, \<open>MemoryContext\<close>: \<open>memory/\<close>; \<open>MemoryFacts\<close> and \<open>MemorySafety\<close> prove its properties.
  \<^item> \<open>ExecutionBudget\<close>: \<open>execution/budget.py\<close>. \<open>ToolRetry\<close>: \<open>tools/retry.py\<close>, the loops of
    \<open>requirements/gateway.py\<close> and \<open>critique/gateway.py\<close>, \<open>execution/faults.py\<close>. \<open>ToolCache\<close>: \<open>tools/cache.py\<close>
    and \<open>tools/gateway.py\<close>. \<open>ProviderChain\<close>: \<open>tools/providers/chain.py\<close>.

  \<^bold>\<open>State and operations.\<close> A class is a record, a method a function from the record (and the
  clock, ids and services it uses) to a result and the new record; a LangGraph state is a record whose
  fields are the keys of the state, a node a function on it, the edges a \<open>next\<close> function, and a run the
  iteration of both. Calls that interleave at an \<open>await\<close> are separate steps of a step relation
  (\<open>cache_step\<close>, \<open>chain_step\<close>, \<open>conversation_step\<close>, \<open>memory_step\<close>, the reachable sessions of the lifecycle). A \<open>dict\<close> is
  an association list in insertion order.

  \<^bold>\<open>What is shown.\<close> Planning: the validator accepts exactly the feasible candidates; only validated plans
  are delivered; repairs keep must-visit places and other days; every repair round makes progress; a soft
  repair is kept or undone as a whole; runs end. With every place and route at hand, each draft becomes a
  candidate. Lifecycle: versions form a valid chain and change only with
  the user's consent to a fresh preview; locks hold in the active version; a committed request is
  replayed, not run again; no save is lost, and the SQLite repository refines the one in memory.
  Conversations: planning starts only on a complete requirement; resolved places stay those of the
  draft; only the asked user can answer, once; an answer changes only the fields asked for; runs end.
  Memory: users are isolated, stored preferences are typed, contexts are bounded, preferences never
  overrule the request, and the SQLite repository answers as the one in memory for valid records. Execution: counters stay
  within the budget, retries within their bounds, the cache serves only live values, loading a key once at
  a time, and new calls leave a provider alone that keeps failing.
  Interfaces are locales, each interpreted on the model: \<open>meter\<close> (budget counters),
  \<open>session_repository\<close>, \<open>graph_invariant\<close>, \<open>isolated_steps\<close>, \<open>bounded_retry\<close>.

  \<^bold>\<open>Bounds.\<close> A run of the lifecycle graph takes at most 11 of its 40 steps (\<open>action_comes_to_rest\<close>), a run
  of the planning graph with \<open>R\<close> repair rounds at most \<open>30 + 8 * R\<close> (\<open>planning_comes_to_an_end\<close>; the code's own
  limit is lower), a resumed conversation never reaches its 50 steps
  (\<open>conversations_come_to_an_end\<close>). Loops with fuel (\<open>evict\<close>,
  \<open>remove_tokens\<close>) get the length of the list they shorten in each round.

  \<^bold>\<open>Parameters and idealisations.\<close> Parameters are what is not in the repository or not decidable from it: SHA-256,
  texts of decimals and floats, lengths of JSON texts, great-circle distances, providers, language
  models, the CP-SAT solver (its answers are only used when they satisfy the model), random ids and
  clocks. Floats and \<open>Decimal\<close> are rationals with Python's rounding written out; strings are UTF-8 bytes
  with code point lengths and ASCII case folding; time zones are fixed offsets; \<open>fromisoformat\<close> accepts \<open>YYYY-MM-DD\<close>.
  User-facing (Chinese) texts are constructors. LangGraph is modelled by what a checkpoint
  keeps: the values after the last completed node, the next node and the pending interrupt.

  \<^bold>\<open>Not modelled.\<close> HTTP and MCP handlers, the application service, runtime wiring and configuration; the
  clients of providers and language models; PostgreSQL and the SQLite store of runs; traces,
  checkpoint storage and run records, which only observe (the graphs run outside a traced run);
  offline evaluation, front end and scripts. They are I/O, wiring or reporting around the modelled core.
\<close>

end
